(* ===== verification/Prelude.thy ===== *)
theory Prelude
  imports Complex_Main "HOL-Library.Signed_Division"
begin

text \<open>
  Shared vocabulary of the development: the exceptions of the backend as values, ECMAScript
  numbers and strings as far as the sources use them, decimal digit strings, and the generic
  list lemmas that the component theories rely on.

  Strings are lists of \<^typ>\<open>char\<close>, one per code unit below 256. Exceptions keep the
  class that the code throws and the constant leading part of its message; the interpolated rest
  of a message is not modelled. Logger calls have no counterpart.
\<close>

named_theorems guards \<open>definitions of guards and validators, unfolded together\<close>
named_theorems effects \<open>how a handler changes the tables and the outbox\<close>

section \<open>Exceptions as values\<close>

datatype exn =
    BadRequestException string
  | UnauthorizedException string
  | ForbiddenException string
  | NotFoundException string
  | ConflictException string
  | GoneException string
  | BadGatewayException string
  | ServiceUnavailableException string
  | InternalServerErrorException string
  | TooManyRequestsException string
  | SimulationFailedError string
  | PlainError string
  | PrismaKnown string string "string list"
  | PrismaUnknown string
  | HttpStatusError int

type_synonym 'a outcome = "exn + 'a"

text \<open>A Prisma request error carries its code, its message and the columns of
  \<^verbatim>\<open>meta.target\<close>. \<open>HttpStatusError\<close> is an error whose \<^verbatim>\<open>response.status\<close> is set.\<close>

abbreviation UniqueViolation :: "string list \<Rightarrow> exn" where
  "UniqueViolation target \<equiv> PrismaKnown ''P2002'' [] target"

abbreviation SerializationFailure :: exn where
  "SerializationFailure \<equiv> PrismaKnown ''P2034'' [] []"

text \<open>\<^verbatim>\<open>err.message\<close>, as far as it is modelled.\<close>

fun exn_message :: "exn \<Rightarrow> string" where
  "exn_message (PlainError m) = m"
| "exn_message (SimulationFailedError m) = m"
| "exn_message (PrismaKnown code m target) = m"
| "exn_message (PrismaUnknown m) = m"
| "exn_message (BadRequestException m) = m"
| "exn_message (UnauthorizedException m) = m"
| "exn_message (ForbiddenException m) = m"
| "exn_message (NotFoundException m) = m"
| "exn_message (ConflictException m) = m"
| "exn_message (GoneException m) = m"
| "exn_message (BadGatewayException m) = m"
| "exn_message (ServiceUnavailableException m) = m"
| "exn_message (InternalServerErrorException m) = m"
| "exn_message (TooManyRequestsException m) = m"
| "exn_message (HttpStatusError n) = []"

section \<open>ECMAScript numbers\<close>

text \<open>
  A number is a finite value, an infinity or not-a-number. Finite values are rationals: every
  double is one. Signed zero is not distinguished.
\<close>

datatype jsnum = NaN | PosInf | NegInf | Fin rat

fun is_finite :: "jsnum \<Rightarrow> bool" where
  "is_finite (Fin _) = True"
| "is_finite _ = False"

fun is_integer :: "jsnum \<Rightarrow> bool" where
  "is_integer (Fin r) = (snd (quotient_of r) = 1)"
| "is_integer _ = False"

definition js_int :: "int \<Rightarrow> jsnum" where
  "js_int n = Fin (of_int n)"

text \<open>The integer a number denotes; only used where \<^const>\<open>is_integer\<close> holds.\<close>

fun num_int :: "jsnum \<Rightarrow> int" where
  "num_int (Fin r) = floor r"
| "num_int _ = 0"

text \<open>\<open>a < b\<close> on numbers: false as soon as one side is not-a-number.\<close>

fun js_less :: "jsnum \<Rightarrow> jsnum \<Rightarrow> bool" where
  "js_less (Fin a) (Fin b) = (a < b)"
| "js_less NegInf (Fin _) = True"
| "js_less NegInf PosInf = True"
| "js_less (Fin _) PosInf = True"
| "js_less _ _ = False"

lemma quotient_of_of_int [simp]: "quotient_of (of_int n :: rat) = (n, 1)"
  by (metis quotient_of_int of_int_def Rat.of_int_def of_int_eq_id)

lemma is_integer_js_int [simp]: "is_integer (js_int n)"
  by (simp add: js_int_def)

lemma num_int_js_int [simp]: "num_int (js_int n) = n"
  by (simp add: js_int_def)

lemma js_less_js_int [simp]: "js_less (js_int a) (js_int b) \<longleftrightarrow> a < b"
  by (simp add: js_int_def)

lemma is_integer_cases:
  assumes "is_integer x"
  obtains n where "x = js_int n"
proof (cases x)
  case (Fin r)
  obtain n d where q: "quotient_of r = (n, d)" by (cases "quotient_of r")
  with Fin assms have "d = 1" by simp
  with quotient_of_div [OF q] have "r = of_int n" by simp
  with Fin show ?thesis by (intro that) (simp add: js_int_def)
qed (use assms in simp_all)

section \<open>Digits and decimal numerals\<close>

definition is_digit :: "char \<Rightarrow> bool" where
  "is_digit c \<longleftrightarrow> 48 \<le> (of_char c :: int) \<and> (of_char c :: int) \<le> 57"

definition digit_val :: "char \<Rightarrow> int" where
  "digit_val c = of_char c - 48"

definition digit_char :: "int \<Rightarrow> char" where
  "digit_char n = char_of (48 + n)"

text \<open>The value of a run of digits, most significant first.\<close>

definition digits_val :: "string \<Rightarrow> int" where
  "digits_val s = foldl (\<lambda>a c. 10 * a + digit_val c) 0 s"

text \<open>The decimal numeral of a non-negative integer.\<close>

function nat_str :: "int \<Rightarrow> string" where
  "nat_str n = (if n < 10 then [digit_char n] else nat_str (n div 10) @ [digit_char (n mod 10)])"
  by pat_completeness auto
termination
  by (relation "measure nat") auto

declare nat_str.simps [simp del]

definition int_str :: "int \<Rightarrow> string" where
  "int_str i = (if i < 0 then ''-'' @ nat_str (- i) else nat_str i)"

definition padStart :: "nat \<Rightarrow> char \<Rightarrow> string \<Rightarrow> string" where
  "padStart n c s = replicate (n - length s) c @ s"

lemma of_char_digit_char [simp]: "0 \<le> n \<Longrightarrow> n < 10 \<Longrightarrow> (of_char (digit_char n) :: int) = 48 + n"
  by (simp add: digit_char_def)

lemma is_digit_digit_char [simp]: "0 \<le> n \<Longrightarrow> n < 10 \<Longrightarrow> is_digit (digit_char n)"
  by (simp add: is_digit_def)

lemma digit_val_digit_char [simp]: "0 \<le> n \<Longrightarrow> n < 10 \<Longrightarrow> digit_val (digit_char n) = n"
  by (simp add: digit_val_def)

lemma digit_val_range: "is_digit c \<Longrightarrow> 0 \<le> digit_val c \<and> digit_val c < 10"
  by (auto simp: is_digit_def digit_val_def)

lemma digits_val_Nil [simp]: "digits_val [] = 0"
  by (simp add: digits_val_def)

lemma digits_val_snoc [simp]: "digits_val (s @ [c]) = 10 * digits_val s + digit_val c"
  by (simp add: digits_val_def)

lemma digits_val_append: "digits_val (s @ t) = digits_val s * 10 ^ length t + digits_val t"
  by (induction t rule: rev_induct) (simp_all flip: append_assoc add: algebra_simps)

lemma digits_val_replicate_zero [simp]: "digits_val (replicate n (CHR ''0'')) = 0"
proof (induction n)
  case 0
  then show ?case by simp
next
  case (Suc n)
  have "replicate (Suc n) (CHR ''0'') = replicate n (CHR ''0'') @ [CHR ''0'']"
    by (simp add: replicate_append_same)
  then show ?case by (simp only: digits_val_snoc Suc) (simp add: digit_val_def)
qed

lemma digits_val_bounds: "list_all is_digit s \<Longrightarrow> 0 \<le> digits_val s \<and> digits_val s < 10 ^ length s"
proof (induction s rule: rev_induct)
  case Nil
  then show ?case by simp
next
  case (snoc c s)
  then have "0 \<le> digits_val s \<and> digits_val s < 10 ^ length s" and "0 \<le> digit_val c \<and> digit_val c < 10"
    by (auto dest: digit_val_range)
  then show ?case by simp
qed

lemma digits_val_nonneg: "list_all is_digit s \<Longrightarrow> 0 \<le> digits_val s"
  by (simp add: digits_val_bounds)

lemma digits_val_nat_str [simp]: "0 \<le> n \<Longrightarrow> digits_val (nat_str n) = n"
proof (induction n rule: nat_str.induct)
  case (1 n)
  show ?case
  proof (cases "n < 10")
    case True
    with "1.prems" show ?thesis by (simp add: nat_str.simps [of n] digits_val_def)
  next
    case False
    with 1 show ?thesis by (simp add: nat_str.simps [of n])
  qed
qed

lemma nat_str_digits [simp]: "0 \<le> n \<Longrightarrow> list_all is_digit (nat_str n)"
proof (induction n rule: nat_str.induct)
  case (1 n)
  then show ?case by (cases "n < 10") (simp_all add: nat_str.simps [of n])
qed

lemma nat_str_not_Nil [simp]: "nat_str n \<noteq> []"
  by (simp add: nat_str.simps [of n])

lemma length_nat_str_le: "0 < k \<Longrightarrow> n < 10 ^ k \<Longrightarrow> length (nat_str n) \<le> k"
proof (induction k arbitrary: n)
  case 0
  then show ?case by simp
next
  case (Suc k)
  show ?case
  proof (cases "n < 10")
    case True
    then show ?thesis by (simp add: nat_str.simps [of n])
  next
    case False
    with Suc.prems have "0 < k" by (cases k) auto
    moreover from Suc.prems have "n div 10 < 10 ^ k" by simp
    ultimately have "length (nat_str (n div 10)) \<le> k" by (rule Suc.IH)
    with False show ?thesis by (simp add: nat_str.simps [of n])
  qed
qed

lemma digits_val_padStart [simp]: "digits_val (padStart n (CHR ''0'') s) = digits_val s"
  by (simp add: padStart_def digits_val_append)

lemma length_padStart: "length (padStart n c s) = max n (length s)"
  by (simp add: padStart_def)

lemma list_all_padStart: "list_all is_digit s \<Longrightarrow> list_all is_digit (padStart n (CHR ''0'') s)"
  by (auto simp: padStart_def is_digit_def list_all_iff)

section \<open>Whitespace\<close>

definition is_space :: "char \<Rightarrow> bool" where
  "is_space c \<longleftrightarrow> (of_char c :: int) \<in> {9, 10, 11, 12, 13, 32, 160}"

definition trim :: "string \<Rightarrow> string" where
  "trim s = rev (dropWhile is_space (rev (dropWhile is_space s)))"

lemma trim_no_space:
  assumes "list_all (\<lambda>c. \<not> is_space c) s"
  shows "trim s = s"
proof -
  have keep: "dropWhile is_space t = t" if "list_all (\<lambda>c. \<not> is_space c) t" for t
    using that by (cases t) auto
  from assms have "list_all (\<lambda>c. \<not> is_space c) (rev s)" by simp
  then show ?thesis by (simp add: trim_def keep assms)
qed

lemma digit_not_space: "is_digit c \<Longrightarrow> \<not> is_space c"
  by (auto simp: is_digit_def is_space_def)

text \<open>\<^verbatim>\<open>parseInt(s, 10)\<close>: the longest numeral prefix after white space; \<open>None\<close> is NaN.\<close>

definition parseInt10 :: "string \<Rightarrow> int option" where
  "parseInt10 s =
     (let t = dropWhile is_space s;
          neg = (t \<noteq> [] \<and> hd t = CHR ''-'');
          r = (if t \<noteq> [] \<and> (hd t = CHR ''-'' \<or> hd t = CHR ''+'') then tl t else t);
          ds = takeWhile is_digit r
      in if ds = [] then None else Some (if neg then - digits_val ds else digits_val ds))"

section \<open>Substrings and letter case\<close>

fun starts_with :: "string \<Rightarrow> string \<Rightarrow> bool" where
  "starts_with [] s = True"
| "starts_with (c # cs) [] = False"
| "starts_with (c # cs) (d # ds) = (c = d \<and> starts_with cs ds)"

fun contains :: "string \<Rightarrow> string \<Rightarrow> bool" where
  "contains pat [] = (pat = [])"
| "contains pat (c # cs) = (starts_with pat (c # cs) \<or> contains pat cs)"

definition ends_with :: "string \<Rightarrow> string \<Rightarrow> bool" where
  "ends_with suf s = starts_with (rev suf) (rev s)"

definition to_lower_char :: "char \<Rightarrow> char" where
  "to_lower_char c = (if 65 \<le> (of_char c :: int) \<and> (of_char c :: int) \<le> 90
     then char_of ((of_char c :: int) + 32) else c)"

definition to_lower :: "string \<Rightarrow> string" where
  "to_lower s = map to_lower_char s"

definition to_upper_char :: "char \<Rightarrow> char" where
  "to_upper_char c = (if 97 \<le> (of_char c :: int) \<and> (of_char c :: int) \<le> 122
     then char_of ((of_char c :: int) - 32) else c)"

definition to_upper :: "string \<Rightarrow> string" where
  "to_upper s = map to_upper_char s"

lemma starts_with_iff: "starts_with p s \<longleftrightarrow> (\<exists>t. s = p @ t)"
  by (induction p s rule: starts_with.induct) auto

lemma starts_with_append [simp]: "starts_with p (p @ s)"
  by (auto simp: starts_with_iff)

section \<open>Runs of a character class\<close>

lemma span_class:
  assumes "list_all P xs" and "ys = [] \<or> \<not> P (hd ys)"
  shows "takeWhile P (xs @ ys) = xs" and "dropWhile P (xs @ ys) = ys"
proof -
  from assms(2) have *: "takeWhile P ys = []" "dropWhile P ys = ys" by (cases ys; auto)+
  from assms(1) show "takeWhile P (xs @ ys) = xs" "dropWhile P (xs @ ys) = ys"
    using * by (induction xs) auto
qed

lemma takeWhile_all: "list_all P (takeWhile P xs)"
  by (induction xs) auto

section \<open>Tables as lists of rows\<close>

lemma length_filter_distinct_le:
  "distinct (map f xs) \<Longrightarrow> (\<And>x. P x \<Longrightarrow> f x = k) \<Longrightarrow> length (filter P xs) \<le> 1"
proof (induction xs)
  case Nil
  then show ?case by simp
next
  case (Cons x xs)
  show ?case
  proof (cases "P x")
    case True
    with Cons.prems have "k \<notin> f ` set xs" by auto
    with Cons.prems(2) have "filter P xs = []" by (force simp: filter_empty_conv)
    with True show ?thesis by simp
  next
    case False
    with Cons show ?thesis by simp
  qed
qed

lemma find_map_update:
  "(\<And>x. f (g x) = f x) \<Longrightarrow>
   List.find (\<lambda>r. f r = k) (map g xs) = map_option g (List.find (\<lambda>r. f r = k) xs)"
  by (induction xs) auto

lemma find_append:
  "List.find P (xs @ ys) = (case List.find P xs of None \<Rightarrow> List.find P ys | Some x \<Rightarrow> Some x)"
  by (induction xs) auto

lemma find_SomeD: "List.find P xs = Some x \<Longrightarrow> P x \<and> x \<in> set xs"
  by (auto simp: find_Some_iff)

lemma find_distinct:
  "distinct (map f xs) \<Longrightarrow> x \<in> set xs \<Longrightarrow> List.find (\<lambda>r. f r = f x) xs = Some x"
  by (induction xs) auto

section \<open>Bytes\<close>

definition hex_char :: "int \<Rightarrow> char" where
  "hex_char n = (if n < 10 then char_of (48 + n) else char_of (87 + n))"

text \<open>The bytes of a text in UTF-8: two from code unit 128 on.\<close>

definition byte_length :: "string \<Rightarrow> nat" where
  "byte_length s = length s + length (filter (\<lambda>c. (of_char c :: int) \<ge> 128) s)"

section \<open>Splitting\<close>

text \<open>\<^verbatim>\<open>s.split(c)\<close> for a separator of one character.\<close>

fun js_split :: "char \<Rightarrow> string \<Rightarrow> string list" where
  "js_split sep [] = [[]]"
| "js_split sep (c # cs) = (if c = sep then [] # js_split sep cs
     else (case js_split sep cs of [] \<Rightarrow> [[c]] | t # ts \<Rightarrow> (c # t) # ts))"

lemma js_split_none: "sep \<notin> set s \<Longrightarrow> js_split sep s = [s]"
  by (induction s) auto

lemma js_split_append: "sep \<notin> set s \<Longrightarrow> js_split sep (s @ sep # t) = s # js_split sep t"
  by (induction s) auto

end
