(* ===== verification/Regex.thy ===== *)
theory Regex
  imports Prelude
begin

text \<open>
  Regular expressions, so that each regular-expression literal of the sources has a
  definition that reads like it. A pattern is anchored at both ends (every literal modelled here
  is of the form \<^verbatim>\<open>/^...$/\<close>). \<open>rx_test\<close> is executable, by derivatives;
  \<open>rx_lang\<close> is the language a pattern denotes, and \<open>rx_test_lang\<close> shows that
  the two agree. The closing section characterises the counted classes that the identifier
  patterns are made of.
\<close>

datatype rx =
    Nul
  | Eps
  | Cls "char \<Rightarrow> bool"
  | Seq rx rx
  | Alt rx rx
  | Star rx

fun mk_seq :: "rx \<Rightarrow> rx \<Rightarrow> rx" where
  "mk_seq Nul r = Nul"
| "mk_seq Eps r = r"
| "mk_seq q r = Seq q r"

fun mk_alt :: "rx \<Rightarrow> rx \<Rightarrow> rx" where
  "mk_alt Nul r = r"
| "mk_alt q Nul = q"
| "mk_alt q r = Alt q r"

fun nullable :: "rx \<Rightarrow> bool" where
  "nullable Nul = False"
| "nullable Eps = True"
| "nullable (Cls _) = False"
| "nullable (Seq q r) = (nullable q \<and> nullable r)"
| "nullable (Alt q r) = (nullable q \<or> nullable r)"
| "nullable (Star r) = True"

fun deriv :: "char \<Rightarrow> rx \<Rightarrow> rx" where
  "deriv c Nul = Nul"
| "deriv c Eps = Nul"
| "deriv c (Cls p) = (if p c then Eps else Nul)"
| "deriv c (Seq q r) =
     (if nullable q then mk_alt (mk_seq (deriv c q) r) (deriv c r) else mk_seq (deriv c q) r)"
| "deriv c (Alt q r) = mk_alt (deriv c q) (deriv c r)"
| "deriv c (Star r) = mk_seq (deriv c r) (Star r)"

fun rx_test :: "rx \<Rightarrow> string \<Rightarrow> bool" where
  "rx_test r [] = nullable r"
| "rx_test r (c # cs) = rx_test (deriv c r) cs"

section \<open>Derived forms\<close>

fun rx_lit :: "string \<Rightarrow> rx" where
  "rx_lit [] = Eps"
| "rx_lit (c # cs) = mk_seq (Cls (\<lambda>d. d = c)) (rx_lit cs)"

definition rx_opt :: "rx \<Rightarrow> rx" where
  "rx_opt r = Alt r Eps"

definition rx_plus :: "rx \<Rightarrow> rx" where
  "rx_plus r = Seq r (Star r)"

fun rx_rep :: "nat \<Rightarrow> rx \<Rightarrow> rx" where
  "rx_rep 0 r = Eps"
| "rx_rep (Suc n) r = mk_seq r (rx_rep n r)"

definition rx_seq :: "rx list \<Rightarrow> rx" where
  "rx_seq rs = foldr mk_seq rs Eps"

definition rx_any :: "string \<Rightarrow> rx" where
  "rx_any s = Cls (\<lambda>c. c \<in> set s)"

definition rx_range :: "char \<Rightarrow> char \<Rightarrow> rx" where
  "rx_range a b = Cls (\<lambda>c. (of_char a :: int) \<le> of_char c \<and> (of_char c :: int) \<le> of_char b)"

definition rx_digit :: rx where
  "rx_digit = Cls is_digit"

section \<open>The language of a pattern\<close>

inductive star_of :: "string set \<Rightarrow> string \<Rightarrow> bool" for L where
  star_Nil: "star_of L []"
| star_step: "u \<in> L \<Longrightarrow> star_of L v \<Longrightarrow> star_of L (u @ v)"

fun rx_lang :: "rx \<Rightarrow> string set" where
  "rx_lang Nul = {}"
| "rx_lang Eps = {[]}"
| "rx_lang (Cls p) = {[c] | c. p c}"
| "rx_lang (Seq q r) = {u @ v | u v. u \<in> rx_lang q \<and> v \<in> rx_lang r}"
| "rx_lang (Alt q r) = rx_lang q \<union> rx_lang r"
| "rx_lang (Star r) = {s. star_of (rx_lang r) s}"

lemma rx_lang_mk_seq [simp]: "rx_lang (mk_seq q r) = rx_lang (Seq q r)"
  by (cases q) auto

lemma rx_lang_mk_alt [simp]: "rx_lang (mk_alt q r) = rx_lang (Alt q r)"
  by (cases q; cases r) auto

lemma nullable_iff: "nullable r \<longleftrightarrow> [] \<in> rx_lang r"
  by (induction r) (auto intro: star_Nil)

lemma star_of_Cons:
  "star_of L (c # cs) \<longleftrightarrow> (\<exists>u v. cs = u @ v \<and> c # u \<in> L \<and> star_of L v)"
proof
  assume "star_of L (c # cs)"
  then show "\<exists>u v. cs = u @ v \<and> c # u \<in> L \<and> star_of L v"
  proof (induction "c # cs" arbitrary: cs rule: star_of.induct)
    case (star_step u v)
    then show ?case by (cases u) auto
  qed
next
  assume "\<exists>u v. cs = u @ v \<and> c # u \<in> L \<and> star_of L v"
  then show "star_of L (c # cs)" by (metis append_Cons star_step)
qed

lemma rx_lang_deriv: "s \<in> rx_lang (deriv c r) \<longleftrightarrow> c # s \<in> rx_lang r"
proof (induction r arbitrary: s)
  case (Seq q r)
  have split: "c # s \<in> rx_lang (Seq q r) \<longleftrightarrow>
      (\<exists>u v. s = u @ v \<and> c # u \<in> rx_lang q \<and> v \<in> rx_lang r)
      \<or> [] \<in> rx_lang q \<and> c # s \<in> rx_lang r"
    by (auto simp: Cons_eq_append_conv)
  show ?case
    unfolding split deriv.simps by (auto simp: Seq nullable_iff)
next
  case (Star r)
  then show ?case by (auto simp: star_of_Cons)
qed auto

lemma rx_test_lang: "rx_test r s \<longleftrightarrow> s \<in> rx_lang r"
  by (induction r s rule: rx_test.induct) (simp_all add: nullable_iff rx_lang_deriv)

section \<open>Languages of the derived forms\<close>

lemma rx_lang_lit [simp]: "rx_lang (rx_lit s) = {s}"
  by (induction s) auto

lemma rx_lang_opt [simp]: "rx_lang (rx_opt r) = insert [] (rx_lang r)"
  by (auto simp: rx_opt_def)

lemma rx_lang_Seq_Cls:
  "s \<in> rx_lang (Seq (Cls p) r) \<longleftrightarrow> (\<exists>c t. s = c # t \<and> p c \<and> t \<in> rx_lang r)"
  by simp (metis append_Cons append_Nil)

lemma rx_lang_rep_Cls: "s \<in> rx_lang (rx_rep n (Cls p)) \<longleftrightarrow> length s = n \<and> list_all p s"
proof (induction n arbitrary: s)
  case 0
  then show ?case by auto
next
  case (Suc n)
  have "s \<in> rx_lang (rx_rep (Suc n) (Cls p)) \<longleftrightarrow>
      (\<exists>c t. s = c # t \<and> p c \<and> t \<in> rx_lang (rx_rep n (Cls p)))"
    by (simp only: rx_rep.simps rx_lang_mk_seq rx_lang_Seq_Cls)
  also have "\<dots> \<longleftrightarrow> length s = Suc n \<and> list_all p s"
    by (cases s) (auto simp: Suc)
  finally show ?case .
qed

lemma star_of_Cls: "star_of {[c] | c. p c} s \<longleftrightarrow> list_all p s"
proof (induction s)
  case Nil
  then show ?case by (simp add: star_Nil)
next
  case (Cons c s)
  then show ?case by (auto simp: star_of_Cons)
qed

lemma rx_lang_plus_Cls: "s \<in> rx_lang (rx_plus (Cls p)) \<longleftrightarrow> s \<noteq> [] \<and> list_all p s"
  unfolding rx_plus_def rx_lang_Seq_Cls by (cases s) (simp_all add: star_of_Cls)

lemma rx_lang_seq_Nil [simp]: "rx_lang (rx_seq []) = {[]}"
  by (simp add: rx_seq_def)

lemma rx_lang_seq_Cons [simp]:
  "rx_lang (rx_seq (r # rs)) = {u @ v | u v. u \<in> rx_lang r \<and> v \<in> rx_lang (rx_seq rs)}"
  by (simp add: rx_seq_def)

text \<open>A sequence matches when the text splits into one match per item.\<close>

lemma rx_lang_seq_iff:
  "s \<in> rx_lang (rx_seq rs) \<longleftrightarrow> (\<exists>us. s = concat us \<and> list_all2 (\<lambda>u r. u \<in> rx_lang r) us rs)"
proof (induction rs arbitrary: s)
  case Nil
  then show ?case by simp
next
  case (Cons r rs)
  then show ?case by (auto simp: list_all2_Cons2) (metis concat.simps(2))+
qed

lemma rx_lang_any: "s \<in> rx_lang (rx_any cs) \<longleftrightarrow> (\<exists>c \<in> set cs. s = [c])"
  by (auto simp: rx_any_def)

lemma rx_test_lit_seq: "rx_test (rx_seq (rx_lit s # rs)) t \<longleftrightarrow>
    (\<exists>v. t = s @ v \<and> rx_test (rx_seq rs) v)"
  by (auto simp: rx_test_lang)

lemma rx_test_counted_class:
  "rx_test (rx_seq [rx_lit s, rx_rep n (Cls p)]) t \<longleftrightarrow>
     (\<exists>v. t = s @ v \<and> length v = n \<and> list_all p v)"
  by (auto simp: rx_test_lang rx_lang_rep_Cls)

end
