(* ===== verification/Decimal.thy ===== *)
theory Decimal
  imports Regex
begin

text \<open>
  Exact decimal arithmetic for threshold comparison (\<^verbatim>\<open>src/common/utils/decimal.ts\<close>) and the
  formatting of stroop amounts (\<^verbatim>\<open>formatStroops\<close> of
  \<^verbatim>\<open>src/policy/policy.service.ts\<close>). \<open>decimal_value\<close> is the specification: the rational
  number that a decimal or exponent notation denotes. The lemmas show that the parser computes
  that number rounded half away from zero, that formatting and parsing are inverse, and that the
  comparison of scaled integers is the comparison of the numbers they stand for.

  The text of a finite number (\<^verbatim>\<open>String(value)\<close>) is a parameter \<open>numStr\<close>. Strings that exceed
  the engine's maximum length (a repeat count from a huge exponent) are not modelled.
\<close>

definition DEFAULT_DECIMAL_SCALE :: jsnum where
  "DEFAULT_DECIMAL_SCALE = js_int 7"

text \<open>The dynamic type of an argument of type \<^verbatim>\<open>unknown\<close>; an object carries its
  \<^verbatim>\<open>String(value)\<close>, \<open>VOther\<close> is undefined, a boolean, a symbol or a function.\<close>

datatype jsval = VBigInt int | VNum jsnum | VStr string | VObj string | VNull | VOther

abbreviation InvalidDecimalError :: "string \<Rightarrow> exn" where
  "InvalidDecimalError \<equiv> BadRequestException"

section \<open>Patterns\<close>

definition EXPONENT_PATTERN :: rx where
  "EXPONENT_PATTERN = rx_seq
     [rx_opt (rx_any ''+-''),
      Alt (rx_seq [rx_plus rx_digit, rx_opt (rx_lit ''.''), Star rx_digit])
          (rx_seq [rx_lit ''.'', rx_plus rx_digit]),
      rx_any ''eE'', rx_opt (rx_any ''+-''), rx_plus rx_digit]"

fun take_sign :: "string \<Rightarrow> string \<times> string" where
  "take_sign [] = ([], [])"
| "take_sign (c # cs) = (if c = CHR ''+'' \<or> c = CHR ''-'' then ([c], cs) else ([], c # cs))"

text \<open>The groups of \<^verbatim>\<open>/^([+-]?)(\\d*)(?:\\.(\\d*))?[eE]([+-]?\\d+)$/\<close>. The classes of
  adjacent items are disjoint, so the greedy match is the only one.\<close>

definition exec_exponent :: "string \<Rightarrow> (string \<times> string \<times> string \<times> string) option" where
  "exec_exponent s =
     (let (sg, r1) = take_sign s;
          ip = takeWhile is_digit r1;
          r2 = dropWhile is_digit r1;
          fp = (if r2 \<noteq> [] \<and> hd r2 = CHR ''.'' then takeWhile is_digit (tl r2) else []);
          r3 = (if r2 \<noteq> [] \<and> hd r2 = CHR ''.'' then dropWhile is_digit (tl r2) else r2);
          (es, ds) = take_sign (tl r3)
      in if r3 \<noteq> [] \<and> hd r3 \<in> {CHR ''e'', CHR ''E''} \<and> ds \<noteq> [] \<and> list_all is_digit ds
         then Some (sg, ip, fp, es @ ds) else None)"

text \<open>The groups of \<^verbatim>\<open>PLAIN_DECIMAL_PATTERN\<close>: sign, integer part (\<open>None\<close> in the
  \<^verbatim>\<open>.5\<close> form) and fraction.\<close>

definition exec_plain :: "string \<Rightarrow> (string \<times> string option \<times> string) option" where
  "exec_plain s =
     (let (sg, r1) = take_sign s;
          ip = takeWhile is_digit r1;
          r2 = dropWhile is_digit r1
      in if ip \<noteq> [] then
           (if r2 = [] then Some (sg, Some ip, [])
            else if hd r2 = CHR ''.'' \<and> list_all is_digit (tl r2) then Some (sg, Some ip, tl r2)
            else None)
         else if r2 \<noteq> [] \<and> hd r2 = CHR ''.'' \<and> tl r2 \<noteq> [] \<and> list_all is_digit (tl r2)
         then Some (sg, None, tl r2)
         else None)"

text \<open>\<^verbatim>\<open>parseInt\<close> on a match of \<^verbatim>\<open>[+-]?\\d+\<close>, and \<^verbatim>\<open>BigInt\<close> on the same.\<close>

definition signed_val :: "string \<Rightarrow> int" where
  "signed_val s = (let (sg, ds) = take_sign s
     in (if sg = ''-'' then - digits_val ds else digits_val ds))"

section \<open>Parsing\<close>

definition expandExponent :: "string \<Rightarrow> string" where
  "expandExponent input =
     (if \<not> rx_test EXPONENT_PATTERN input then input else
      case exec_exponent input of
        None \<Rightarrow> input
      | Some (sg, intPart, fracPart, ex) \<Rightarrow>
          let negative = (sg = ''-'');
              exponent = signed_val ex;
              digits = intPart @ fracPart;
              pointPosition = int (length intPart) + exponent;
              plain =
                (if pointPosition \<le> 0 then
                   ''0.'' @ replicate (nat (- pointPosition)) (CHR ''0'') @ digits
                 else if pointPosition \<ge> int (length digits) then
                   digits @ replicate (nat (pointPosition - int (length digits))) (CHR ''0'')
                 else
                   take (nat pointPosition) digits @ ''.'' @ drop (nat pointPosition) digits)
          in if negative then ''-'' @ plain else plain)"

fun toPlainDecimalString :: "(rat \<Rightarrow> string) \<Rightarrow> jsval \<Rightarrow> string outcome" where
  "toPlainDecimalString numStr (VBigInt i) = Inr (int_str i)"
| "toPlainDecimalString numStr (VNum (Fin r)) = Inr (expandExponent (numStr r))"
| "toPlainDecimalString numStr (VNum _) = Inl (InvalidDecimalError ''Value is not a finite number'')"
| "toPlainDecimalString numStr (VStr s) =
     (if trim s = [] then Inl (InvalidDecimalError ''Value is an empty string'')
      else Inr (expandExponent (trim s)))"
| "toPlainDecimalString numStr (VObj s) =
     (if trim s \<noteq> [] \<and> take 8 (trim s) \<noteq> ''[object '' then Inr (expandExponent (trim s))
      else Inl (InvalidDecimalError ''Unsupported decimal value type''))"
| "toPlainDecimalString numStr _ = Inl (InvalidDecimalError ''Unsupported decimal value type'')"

definition round_mantissa :: "int \<Rightarrow> int \<Rightarrow> int" where
  "round_mantissa mantissa divisor =
     (if mantissa mod divisor * 2 \<ge> divisor then mantissa div divisor + 1 else mantissa div divisor)"

definition parseDecimalScaled :: "(rat \<Rightarrow> string) \<Rightarrow> jsval \<Rightarrow> jsnum \<Rightarrow> int outcome" where
  "parseDecimalScaled numStr value scale =
     (if \<not> is_integer scale \<or> js_less scale (js_int 0) then
        Inl (InvalidDecimalError ''Invalid decimal scale'')
      else
      case toPlainDecimalString numStr value of
        Inl e \<Rightarrow> Inl e
      | Inr plain \<Rightarrow>
          (case exec_plain plain of
             None \<Rightarrow> Inl (InvalidDecimalError ''Value is not a valid decimal number'')
           | Some (sg, ip, fracPart) \<Rightarrow>
               let sign = (if sg = ''-'' then -1 else 1);
                   intPart = (case ip of Some i \<Rightarrow> i | None \<Rightarrow> ''0'');
                   combined = intPart @ fracPart
               in if \<not> list_ex is_digit combined then
                    Inl (InvalidDecimalError ''Value is not a valid decimal number'')
                  else
                    let mantissa = digits_val combined;
                        excessDigits = int (length fracPart) - num_int scale;
                        scaled = (if excessDigits > 0 then round_mantissa mantissa (10 ^ nat excessDigits)
                                  else if excessDigits < 0 then mantissa * 10 ^ nat (- excessDigits)
                                  else mantissa)
                    in Inr (sign * scaled)))"

fun parseFixedPointBigInt :: "(rat \<Rightarrow> string) \<Rightarrow> jsval \<Rightarrow> jsnum \<Rightarrow> int outcome" where
  "parseFixedPointBigInt numStr (VBigInt i) scale = Inr i"
| "parseFixedPointBigInt numStr (VNum n) scale =
     (if \<not> is_integer n then parseDecimalScaled numStr (VNum n) scale else Inr (num_int n))"
| "parseFixedPointBigInt numStr (VStr s) scale =
     (if rx_test (rx_seq [rx_opt (rx_any ''+-''), rx_plus rx_digit]) (trim s)
      then Inr (signed_val (trim s))
      else parseDecimalScaled numStr (VStr (trim s)) scale)"
| "parseFixedPointBigInt numStr _ scale = Inl (InvalidDecimalError ''Unsupported reading value type'')"

definition compareScaledToThreshold :: "int \<Rightarrow> int \<Rightarrow> string \<Rightarrow> bool" where
  "compareScaledToThreshold readingScaled thresholdScaled comparison =
     (if comparison = ''LessThan'' then readingScaled < thresholdScaled
      else readingScaled > thresholdScaled)"

definition evaluateThreshold ::
  "(rat \<Rightarrow> string) \<Rightarrow> jsval \<Rightarrow> jsval \<Rightarrow> string \<Rightarrow> jsnum \<Rightarrow> bool outcome" where
  "evaluateThreshold numStr reading threshold comparison scale =
     (case parseFixedPointBigInt numStr reading scale of
        Inl e \<Rightarrow> Inl e
      | Inr r \<Rightarrow>
          (case parseDecimalScaled numStr threshold scale of
             Inl e \<Rightarrow> Inl e
           | Inr t \<Rightarrow> Inr (compareScaledToThreshold r t comparison)))"

section \<open>Formatting stroops\<close>

definition STROOPS_PER_XLM :: int where
  "STROOPS_PER_XLM = 10000000"

definition formatStroops :: "int \<Rightarrow> string" where
  "formatStroops stroops =
     (let sign = (if stroops < 0 then ''-'' else '''');
          a = (if stroops < 0 then - stroops else stroops);
          whole = a sdiv STROOPS_PER_XLM;
          frac = padStart 7 (CHR ''0'') (int_str (a smod STROOPS_PER_XLM))
      in sign @ int_str whole @ ''.'' @ frac)"

section \<open>What a decimal notation denotes\<close>

definition sign_of :: "string \<Rightarrow> rat" where
  "sign_of sg = (if sg = ''-'' then -1 else 1)"

definition plain_value :: "string \<Rightarrow> rat option" where
  "plain_value s = map_option
     (\<lambda>(sg, ip, fp). sign_of sg * of_int (digits_val ((case ip of Some i \<Rightarrow> i | None \<Rightarrow> []) @ fp))
                     / 10 ^ length fp)
     (exec_plain s)"

definition decimal_value :: "string \<Rightarrow> rat option" where
  "decimal_value s =
     (if rx_test EXPONENT_PATTERN s then
        map_option (\<lambda>(sg, ip, fp, ex).
            sign_of sg * of_int (digits_val (ip @ fp)) * 10 powi (signed_val ex - int (length fp)))
          (exec_exponent s)
      else plain_value s)"

definition round_half_away :: "rat \<Rightarrow> int" where
  "round_half_away x = (if x < 0 then - \<lfloor>- x + 1 / 2\<rfloor> else \<lfloor>x + 1 / 2\<rfloor>)"

section \<open>Correctness of the parser\<close>

lemma take_sign_append:
  assumes "sg \<in> {[], ''+'', ''-''}" and "r = [] \<or> hd r \<noteq> CHR ''+'' \<and> hd r \<noteq> CHR ''-''"
  shows "take_sign (sg @ r) = (sg, r)"
  using assms by (cases r) auto

lemma digit_not_sign: "is_digit c \<Longrightarrow> c \<noteq> CHR ''+'' \<and> c \<noteq> CHR ''-'' \<and> c \<noteq> CHR ''.''"
  by (auto simp: is_digit_def)

lemma hd_digits_not_sign:
  "list_all is_digit ds \<Longrightarrow> ds = [] \<or> hd ds \<noteq> CHR ''+'' \<and> hd ds \<noteq> CHR ''-''"
  by (cases ds) (auto dest: digit_not_sign)

lemma not_digit_marks [simp]:
  "\<not> is_digit (CHR ''.'')" "\<not> is_digit (CHR ''e'')" "\<not> is_digit (CHR ''E'')"
  "\<not> is_digit (CHR ''+'')" "\<not> is_digit (CHR ''-'')"
  by (simp_all add: is_digit_def)

lemma exec_exponent_eq:
  assumes sg: "sg \<in> {[], ''+'', ''-''}" and ip: "list_all is_digit ip" and fp: "list_all is_digit fp"
    and dot: "dot = ''.'' \<or> dot = [] \<and> fp = []" and e: "e \<in> {CHR ''e'', CHR ''E''}"
    and es: "es \<in> {[], ''+'', ''-''}" and ds: "ds \<noteq> []" "list_all is_digit ds"
  shows "exec_exponent (sg @ ip @ dot @ fp @ e # es @ ds) = Some (sg, ip, fp, es @ ds)"
proof -
  let ?tail = "e # es @ ds"
  have e_nd: "\<not> is_digit e" using e by auto
  have sign: "take_sign (sg @ ip @ dot @ fp @ ?tail) = (sg, ip @ dot @ fp @ ?tail)"
  proof (rule take_sign_append [OF sg], cases ip)
    case Nil
    with dot e show "ip @ dot @ fp @ ?tail = [] \<or> hd (ip @ dot @ fp @ ?tail) \<noteq> CHR ''+'' \<and> hd (ip @ dot @ fp @ ?tail) \<noteq> CHR ''-''"
      by auto
  next
    case (Cons c cs)
    with ip show "ip @ dot @ fp @ ?tail = [] \<or> hd (ip @ dot @ fp @ ?tail) \<noteq> CHR ''+'' \<and> hd (ip @ dot @ fp @ ?tail) \<noteq> CHR ''-''"
      by (auto dest: digit_not_sign)
  qed
  have "dot @ fp @ ?tail = [] \<or> \<not> is_digit (hd (dot @ fp @ ?tail))" using dot e_nd by auto
  note span1 = span_class [OF ip this]
  have span2: "takeWhile is_digit (fp @ ?tail) = fp" "dropWhile is_digit (fp @ ?tail) = ?tail"
    using span_class [OF fp, of ?tail] e_nd by auto
  have exp: "take_sign (es @ ds) = (es, ds)"
    using es hd_digits_not_sign [OF ds(2)] by (rule take_sign_append)
  from dot show ?thesis
  proof (elim disjE conjE)
    assume "dot = ''.''"
    then have "dot @ fp @ ?tail \<noteq> []" "hd (dot @ fp @ ?tail) = CHR ''.''" "tl (dot @ fp @ ?tail) = fp @ ?tail"
      by simp_all
    with e ds show ?thesis
      unfolding exec_exponent_def Let_def sign prod.case span1 by (simp add: span2 [simplified] exp)
  next
    assume "dot = []" "fp = []"
    then have "dot @ fp @ ?tail = ?tail" by simp
    with e ds \<open>fp = []\<close> show ?thesis
      unfolding exec_exponent_def Let_def sign prod.case span1 by (auto simp: exp)
  qed
qed

lemma EXPONENT_PATTERN_exec:
  assumes "rx_test EXPONENT_PATTERN s"
  obtains sg ip fp es ds where "exec_exponent s = Some (sg, ip, fp, es @ ds)"
    "list_all is_digit (ip @ fp)" "ip @ fp \<noteq> []" "sg \<in> {[], ''+'', ''-''}"
    "CHR ''e'' \<in> set s \<or> CHR ''E'' \<in> set s"
proof -
  from assms have "s \<in> rx_lang EXPONENT_PATTERN" by (simp add: rx_test_lang)
  then obtain us where s: "s = concat us" and us: "list_all2 (\<lambda>u r. u \<in> rx_lang r) us
     [rx_opt (rx_any ''+-''),
      Alt (rx_seq [rx_plus rx_digit, rx_opt (rx_lit ''.''), Star rx_digit])
          (rx_seq [rx_lit ''.'', rx_plus rx_digit]),
      rx_any ''eE'', rx_opt (rx_any ''+-''), rx_plus rx_digit]"
    unfolding EXPONENT_PATTERN_def rx_lang_seq_iff by blast
  then obtain sg m u es ds where us': "us = [sg, m, u, es, ds]"
    and m: "m \<in> rx_lang (Alt (rx_seq [rx_plus rx_digit, rx_opt (rx_lit ''.''), Star rx_digit])
          (rx_seq [rx_lit ''.'', rx_plus rx_digit]))"
    and rest: "sg \<in> rx_lang (rx_opt (rx_any ''+-''))" "u \<in> rx_lang (rx_any ''eE'')"
      "es \<in> rx_lang (rx_opt (rx_any ''+-''))" "ds \<in> rx_lang (rx_plus rx_digit)"
    unfolding list_all2_Cons2 list_all2_Nil2 by blast
  from rest obtain e where sg: "sg \<in> {[], ''+'', ''-''}" and u: "u = [e]"
    and e: "e \<in> {CHR ''e'', CHR ''E''}" and es: "es \<in> {[], ''+'', ''-''}"
    and ds: "ds \<noteq> []" "list_all is_digit ds"
    by (auto simp: rx_lang_any rx_digit_def rx_lang_plus_Cls)
  from m obtain ip dot fp where m': "m = ip @ dot @ fp" and parts: "list_all is_digit ip"
    "list_all is_digit fp" "dot = ''.'' \<or> dot = [] \<and> fp = []" "ip @ fp \<noteq> []"
  proof -
    consider (int) "m \<in> rx_lang (rx_seq [rx_plus rx_digit, rx_opt (rx_lit ''.''), Star rx_digit])"
      | (frac) "m \<in> rx_lang (rx_seq [rx_lit ''.'', rx_plus rx_digit])"
      using m unfolding rx_lang.simps(5) by blast
    then show thesis
    proof cases
      case int
      then obtain a b c where m': "m = concat [a, b, c]" and "a \<in> rx_lang (rx_plus rx_digit)"
        "b \<in> rx_lang (rx_opt (rx_lit ''.''))" "c \<in> rx_lang (Star rx_digit)"
        unfolding rx_lang_seq_iff list_all2_Cons2 list_all2_Nil2 by blast
      then have "a \<noteq> []" "list_all is_digit a" "b = [] \<or> b = ''.''" "list_all is_digit c"
        by (auto simp: rx_digit_def rx_lang_plus_Cls star_of_Cls)
      with m' show thesis using that [of a "''.''" c] that [of "a @ c" "[]" "[]"] by auto
    next
      case frac
      then obtain c where "m = ''.'' @ c" "c \<noteq> []" "list_all is_digit c"
        unfolding rx_lang_seq_iff list_all2_Cons2 list_all2_Nil2 rx_digit_def
        by (auto simp: rx_lang_plus_Cls)
      then show thesis using that [of "[]" "''.''" c] by auto
    qed
  qed
  have "exec_exponent s = Some (sg, ip, fp, es @ ds)"
    using exec_exponent_eq [OF sg parts(1,2,3) e es ds] by (simp add: s us' u m')
  moreover have "CHR ''e'' \<in> set s \<or> CHR ''E'' \<in> set s" using e by (auto simp: s us' u)
  ultimately show thesis using parts sg by (intro that) auto
qed
lemma exec_plain_frac:
  assumes "sg \<in> {[], ''+'', ''-''}" and "ip \<noteq> []" "list_all is_digit ip" "list_all is_digit fp"
  shows "exec_plain (sg @ ip @ CHR ''.'' # fp) = Some (sg, Some ip, fp)"
proof -
  have sign: "take_sign (sg @ ip @ CHR ''.'' # fp) = (sg, ip @ CHR ''.'' # fp)"
    using assms hd_digits_not_sign [of ip] by (intro take_sign_append) auto
  have span: "takeWhile is_digit (ip @ CHR ''.'' # fp) = ip"
    "dropWhile is_digit (ip @ CHR ''.'' # fp) = CHR ''.'' # fp"
    using span_class [OF assms(3), of "CHR ''.'' # fp"] by auto
  show ?thesis unfolding exec_plain_def Let_def sign prod.case span using assms by simp
qed

lemma exec_plain_int:
  assumes "sg \<in> {[], ''+'', ''-''}" and "ip \<noteq> []" "list_all is_digit ip"
  shows "exec_plain (sg @ ip) = Some (sg, Some ip, [])"
proof -
  have sign: "take_sign (sg @ ip) = (sg, ip)"
    using assms hd_digits_not_sign [of ip] by (intro take_sign_append) auto
  have span: "takeWhile is_digit ip = ip" "dropWhile is_digit ip = []"
    using span_class [OF assms(3), of "[]"] by auto
  show ?thesis unfolding exec_plain_def Let_def sign prod.case span using assms by simp
qed

lemma powi_diff: "(10 :: rat) powi (int a - int b) = 10 ^ a / 10 ^ b"
  by (simp add: power_int_diff)

lemma zeros_digits: "list_all is_digit (replicate n (CHR ''0''))"
  by (auto simp: list_all_iff is_digit_def)

lemma digits_val_zero_Cons [simp]: "digits_val (CHR ''0'' # s) = digits_val s"
  using digits_val_append [of "''0''" s] by (simp add: digits_val_def digit_val_def)

lemma expandExponent_value:
  assumes "rx_test EXPONENT_PATTERN s"
  shows "plain_value (expandExponent s) = decimal_value s"
proof -
  obtain sg ip fp es ds where ex: "exec_exponent s = Some (sg, ip, fp, es @ ds)"
    and dig: "list_all is_digit (ip @ fp)" "ip @ fp \<noteq> []" and sg: "sg \<in> {[], ''+'', ''-''}"
    using EXPONENT_PATTERN_exec [OF assms] by metis
  define digits p where "digits = ip @ fp" and "p = int (length ip) + signed_val (es @ ds)"
  define sg' where "sg' = (if sg = ''-'' then ''-'' else [])"
  have sg': "sg' \<in> {[], ''+'', ''-''}" "sign_of sg' = sign_of sg" by (auto simp: sg'_def sign_of_def)
  have e: "signed_val (es @ ds) - int (length fp) = p - int (length digits)"
    by (simp add: p_def digits_def)
  have val: "decimal_value s = Some (sign_of sg * of_int (digits_val digits) * 10 powi (p - int (length digits)))"
    using assms ex by (simp add: decimal_value_def digits_def [symmetric] e)
  note D = dig [folded digits_def]
  have exp: "expandExponent s = sg' @
      (if p \<le> 0 then ''0.'' @ replicate (nat (- p)) (CHR ''0'') @ digits
       else if int (length digits) \<le> p then digits @ replicate (nat (p - int (length digits))) (CHR ''0'')
       else take (nat p) digits @ ''.'' @ drop (nat p) digits)"
    using assms ex unfolding expandExponent_def Let_def digits_def p_def sg'_def by simp
  consider (small) "p \<le> 0" | (large) "0 < p" "int (length digits) \<le> p" | (mid) "0 < p" "p < int (length digits)"
    by linarith
  then show ?thesis
  proof cases
    case small
    define z where "z = nat (- p)"
    have pw: "p - int (length digits) = int 0 - int (z + length digits)" using small by (simp add: z_def)
    have "exec_plain (sg' @ ''0'' @ CHR ''.'' # (replicate z (CHR ''0'') @ digits))
        = Some (sg', Some ''0'', replicate z (CHR ''0'') @ digits)"
      using D(1) zeros_digits [of z] zeros_digits [of 1] by (intro exec_plain_frac [OF sg'(1)]) auto
    then show ?thesis
      using small unfolding val pw powi_diff exp plain_value_def
      by (simp add: z_def [symmetric] sg'(2) digits_val_append power_add)
  next
    case large
    define z where "z = nat (p - int (length digits))"
    have pw: "p - int (length digits) = int z - int 0" using large by (simp add: z_def)
    have "exec_plain (sg' @ digits @ replicate z (CHR ''0''))
        = Some (sg', Some (digits @ replicate z (CHR ''0'')), [])"
      using D zeros_digits [of z] by (intro exec_plain_int [OF sg'(1)]) auto
    then show ?thesis
      using large unfolding val pw powi_diff exp plain_value_def
      by (simp add: z_def [symmetric] sg'(2) digits_val_append)
  next
    case mid
    define k where "k = nat p"
    from mid have k: "0 < k" "k < length digits" by (auto simp: k_def)
    have pw: "p - int (length digits) = int 0 - int (length digits - k)"
      using mid k by (simp add: k_def of_nat_diff)
    have "exec_plain (sg' @ take k digits @ CHR ''.'' # drop k digits)
        = Some (sg', Some (take k digits), drop k digits)"
      using D k by (intro exec_plain_frac [OF sg'(1)])
        (auto simp: list_all_iff dest: in_set_takeD in_set_dropD)
    then show ?thesis
      using mid unfolding val pw powi_diff exp plain_value_def
      by (simp add: k_def [symmetric] sg'(2))
  qed
qed

lemma expandExponent_decimal_value: "plain_value (expandExponent s) = decimal_value s"
proof (cases "rx_test EXPONENT_PATTERN s")
  case True
  then show ?thesis by (rule expandExponent_value)
next
  case False
  then show ?thesis by (simp add: expandExponent_def decimal_value_def)
qed

lemma div_double_half:
  fixes r d :: int
  assumes "0 \<le> r" "r < d"
  shows "(2 * r + d) div (2 * d) = (if d \<le> r * 2 then 1 else 0)"
proof (cases "d \<le> r * 2")
  case True
  with assms have "(2 * r + d) div (2 * d) = 1"
    by (intro int_div_pos_eq [where r = "2 * r - d"]) auto
  with True show ?thesis by simp
next
  case False
  with assms show ?thesis by simp
qed

lemma round_mantissa_floor:
  assumes "0 < d"
  shows "round_mantissa m d = \<lfloor>of_int m / of_int d + (1 :: rat) / 2\<rfloor>"
proof -
  have "of_int m / of_int d + (1 :: rat) / 2 = of_int (2 * m + d) / of_int (2 * d)"
    using assms by (simp add: field_simps)
  then have fl: "\<lfloor>of_int m / of_int d + (1 :: rat) / 2\<rfloor> = (2 * m + d) div (2 * d)"
    by (simp only: floor_divide_of_int_eq)
  have "2 * x + d = (2 * r + d) + q * (2 * d)" if "x = q * d + r" for x q r :: int
    using that by (simp add: algebra_simps)
  from this [OF div_mult_mod_eq [of m d, symmetric]] have "(2 * m + d) div (2 * d) = (m div d) + (2 * (m mod d) + d) div (2 * d)"
    using assms by (simp only: div_mult_self1)
  also have "(2 * (m mod d) + d) div (2 * d) = (if d \<le> m mod d * 2 then 1 else 0)"
    using assms by (intro div_double_half) simp_all
  finally show ?thesis by (simp add: fl round_mantissa_def)
qed

lemma exec_plain_digits:
  assumes "exec_plain s = Some (sg, ip, fp)"
  shows "list_all is_digit fp" and "list_all is_digit (case ip of Some i \<Rightarrow> i | None \<Rightarrow> ''0'')"
    and "(case ip of Some i \<Rightarrow> i | None \<Rightarrow> ''0'') \<noteq> []"
  using assms takeWhile_all [of is_digit] zeros_digits [of 1]
  by (auto simp: exec_plain_def Let_def split: prod.splits if_splits option.splits)

lemma round_half_away_sign:
  assumes "0 \<le> x"
  shows "round_half_away (sign_of sg * x) = (if sg = ''-'' then -1 else 1) * \<lfloor>x + 1 / 2\<rfloor>"
proof -
  have half: "\<lfloor>(1 :: rat) / 2\<rfloor> = 0" by (rule floor_unique) auto
  show ?thesis
    using assms half by (cases "x = 0") (auto simp: round_half_away_def sign_of_def add.commute)
qed

lemma floor_int_half: "\<lfloor>of_int m + (1 :: rat) / 2\<rfloor> = m"
  by (rule floor_unique) auto

text \<open>Scaling the mantissa of a fraction with \<open>f\<close> digits to \<open>k\<close> digits rounds its value.\<close>

lemma scaled_mantissa:
  fixes m :: int and f k :: nat
  defines "x \<equiv> of_int m / 10 ^ f * (10 :: rat) ^ k"
  shows "(if int f - int k > 0 then round_mantissa m (10 ^ nat (int f - int k))
          else if int f - int k < 0 then m * 10 ^ nat (- (int f - int k)) else m) = \<lfloor>x + 1 / 2\<rfloor>"
proof -
  consider (more) "k < f" | (less) "f < k" | (same) "f = k" by linarith
  then show ?thesis
  proof cases
    case more
    then obtain d where f: "f = k + d" "0 < d" using less_imp_add_positive by blast
    then have "x = of_int m / of_int (10 ^ d)" by (simp add: x_def power_add)
    with f show ?thesis by (simp add: round_mantissa_floor)
  next
    case less
    then obtain d where f: "k = f + d" "0 < d" using less_imp_add_positive by blast
    then have "x = of_int (m * 10 ^ d)" by (simp add: x_def power_add)
    with f show ?thesis by (simp only: floor_int_half) simp
  next
    case same
    then have "x = of_int m" by (simp add: x_def)
    with same show ?thesis by (simp only: floor_int_half) simp
  qed
qed

lemma parse_plain:
  assumes plain: "toPlainDecimalString numStr v = Inr p"
  shows "parseDecimalScaled numStr v (js_int (int k)) =
    (case plain_value p of
       None \<Rightarrow> Inl (InvalidDecimalError ''Value is not a valid decimal number'')
     | Some x \<Rightarrow> Inr (round_half_away (x * 10 ^ k)))"
proof (cases "exec_plain p")
  case None
  then show ?thesis by (simp add: parseDecimalScaled_def plain plain_value_def)
next
  case (Some t)
  obtain sg ip fp where t: "t = (sg, ip, fp)" by (cases t)
  define i where "i = (case ip of Some i \<Rightarrow> i | None \<Rightarrow> ''0'')"
  note dig = exec_plain_digits [OF Some [unfolded t], folded i_def]
  have ex: "list_ex is_digit (i @ fp)" using dig by (cases i) auto
  define m where "m = digits_val (i @ fp)"
  have m: "0 \<le> m" "digits_val ((case ip of Some i \<Rightarrow> i | None \<Rightarrow> []) @ fp) = m"
    using dig by (auto simp: m_def i_def digits_val_nonneg split: option.splits)
  define x where "x = of_int m / 10 ^ length fp * (10 :: rat) ^ k"
  have "plain_value p = Some (sign_of sg * of_int m / 10 ^ length fp)"
    by (simp add: plain_value_def Some t m)
  moreover have "sign_of sg * of_int m / 10 ^ length fp * 10 ^ k = sign_of sg * x" by (simp add: x_def)
  moreover have "parseDecimalScaled numStr v (js_int (int k)) =
      Inr ((if sg = ''-'' then -1 else 1) * \<lfloor>x + 1 / 2\<rfloor>)"
    using plain Some t ex scaled_mantissa [of "length fp" k m, folded x_def]
    by (simp add: parseDecimalScaled_def Let_def i_def [symmetric] m_def [symmetric])
  moreover have "0 \<le> x" using m by (simp add: x_def)
  ultimately show ?thesis by (simp add: round_half_away_sign)
qed

lemma parse_string:
  assumes "trim s \<noteq> []"
  shows "parseDecimalScaled numStr (VStr s) (js_int (int k)) =
    (case decimal_value (trim s) of
       None \<Rightarrow> Inl (InvalidDecimalError ''Value is not a valid decimal number'')
     | Some v \<Rightarrow> Inr (round_half_away (v * 10 ^ k)))"
  using assms by (subst parse_plain [where p = "expandExponent (trim s)"])
    (simp_all add: expandExponent_decimal_value)

text \<open>
  C24. Parsing is exact: for a non-blank text the parser either rejects it as not a decimal
  notation or returns the number it denotes, scaled by \<open>10\<^sup>k\<close> and rounded half away from
  zero.
\<close>

theorem parseDecimalScaled_exact:
  assumes "trim s \<noteq> []"
  shows "parseDecimalScaled numStr (VStr s) (js_int (int k)) =
    (case decimal_value (trim s) of
       None \<Rightarrow> Inl (InvalidDecimalError ''Value is not a valid decimal number'')
     | Some v \<Rightarrow> Inr (round_half_away (v * 10 ^ k)))"
  using assms by (rule parse_string)

theorem parseDecimalScaled_exact_witness:
  "parseDecimalScaled (\<lambda>_. []) (VStr '' 1e-7 '') (js_int (int 7)) = Inr 1
   \<and> parseDecimalScaled (\<lambda>_. []) (VStr ''-0.00000015'') (js_int (int 7)) = Inr (-2)"
proof -
  have t: "trim '' 1e-7 '' \<noteq> []" "trim ''-0.00000015'' \<noteq> []" by code_simp+
  have v: "map_option (\<lambda>v. round_half_away (v * 10 ^ 7)) (decimal_value (trim '' 1e-7 '')) = Some 1"
     "map_option (\<lambda>v. round_half_away (v * 10 ^ 7)) (decimal_value (trim ''-0.00000015'')) = Some (-2)"
    by code_simp+
  show ?thesis
    using v by (auto simp only: parseDecimalScaled_exact [OF t(1)] parseDecimalScaled_exact [OF t(2)]
      split: option.splits)
qed

text \<open>
  C25. The threshold decision is the comparison of the exact numbers: for a threshold text that
  denotes \<open>v\<close> with at most \<open>k\<close> decimals, a reading of \<open>r\<close> units of
  \<open>10\<^sup>-\<^sup>k\<close> triggers \<^verbatim>\<open>LessThan\<close> exactly when it is strictly below
  \<open>v\<close>, and any other comparison exactly when it is strictly above.
\<close>

theorem evaluateThreshold_exact:
  assumes "trim s \<noteq> []" and "decimal_value (trim s) = Some v" and "v * 10 ^ k = of_int t"
  shows "evaluateThreshold numStr (VBigInt r) (VStr s) cmp (js_int (int k)) =
    Inr (if cmp = ''LessThan'' then of_int r / 10 ^ k < v else v < of_int r / 10 ^ k)"
proof -
  have "round_half_away (of_int t) = t"
    by (auto simp: round_half_away_def floor_int_half
        simp flip: of_int_minus)
  then have parse: "parseDecimalScaled numStr (VStr s) (js_int (int k)) = Inr t"
    using assms by (simp add: parse_string)
  have v: "v = of_int t / 10 ^ k" using assms(3) by (simp add: field_simps)
  show ?thesis
    by (simp add: evaluateThreshold_def parse compareScaledToThreshold_def v divide_less_cancel)
qed

theorem evaluateThreshold_exact_witness:
  "evaluateThreshold (\<lambda>_. []) (VBigInt 2999999) (VStr ''0.3000000'') ''LessThan'' (js_int (int 7)) = Inr True
   \<and> evaluateThreshold (\<lambda>_. []) (VBigInt 3000000) (VStr ''0.3000000'') ''LessThan'' (js_int (int 7)) = Inr False"
proof -
  have t: "trim ''0.3000000'' \<noteq> []" by code_simp
  have "decimal_value (trim ''0.3000000'') = Some (Fract 3 10)" by code_simp
  then have v: "decimal_value (trim ''0.3000000'') = Some (3 / 10)" by (simp add: Fract_of_int_quotient)
  have s: "(3 / 10 :: rat) * 10 ^ 7 = of_int 3000000" by simp
  show ?thesis
    using evaluateThreshold_exact [OF t v s, of "\<lambda>_. []" 2999999 "''LessThan''"]
      evaluateThreshold_exact [OF t v s, of "\<lambda>_. []" 3000000 "''LessThan''"] by simp
qed

section \<open>Formatting and parsing are inverse\<close>

lemma formatStroops_shape:
  obtains w f where "formatStroops n = (if n < 0 then ''-'' else []) @ w @ CHR ''.'' # f"
    "w \<noteq> []" "list_all is_digit w" "list_all is_digit f" "length f = 7" "digits_val (w @ f) = \<bar>n\<bar>"
proof -
  define a w f where "a = \<bar>n\<bar>" and "w = nat_str (a div 10000000)"
    and "f = padStart 7 (CHR ''0'') (nat_str (a mod 10000000))"
  have a: "0 \<le> a" "a sdiv 10000000 = a div 10000000" "a smod 10000000 = a mod 10000000"
    by (auto simp: a_def signed_divide_int_def signed_modulo_int_def sgn_if)
  have len: "length f = 7"
    using length_nat_str_le [of 7 "a mod 10000000"] by (simp add: f_def length_padStart)
  have "formatStroops n = (if n < 0 then ''-'' else []) @ w @ CHR ''.'' # f"
  proof -
    have "(if n < 0 then - n else n) = a" by (simp add: a_def)
    moreover have "\<not> a div 10000000 < 0" "\<not> a mod 10000000 < 0" using a(1) by simp_all
    ultimately show ?thesis
      unfolding formatStroops_def Let_def STROOPS_PER_XLM_def int_str_def w_def f_def by (simp add: a)
  qed
  moreover have "list_all is_digit w" "list_all is_digit f"
    using a by (simp_all add: w_def f_def list_all_padStart)
  moreover have "digits_val (w @ f) = \<bar>n\<bar>"
  proof -
    have "0 \<le> a div 10000000" "0 \<le> a mod 10000000" using a(1) by simp_all
    then have "digits_val w = a div 10000000" "digits_val f = a mod 10000000"
      by (simp_all add: w_def f_def)
    then show ?thesis by (simp add: digits_val_append len a_def)
  qed
  ultimately show ?thesis using len by (intro that) (simp_all add: w_def)
qed

lemma formatStroops_parse:
  "parseDecimalScaled numStr (VStr (formatStroops n)) DEFAULT_DECIMAL_SCALE = Inr n"
proof -
  obtain w f where s: "formatStroops n = (if n < 0 then ''-'' else []) @ w @ CHR ''.'' # f"
    and w: "w \<noteq> []" "list_all is_digit w" and f: "list_all is_digit f" "length f = 7"
    and val: "digits_val (w @ f) = \<bar>n\<bar>"
    by (rule formatStroops_shape)
  let ?s = "formatStroops n" and ?sg = "if n < 0 then ''-'' else []"
  have chars: "c \<in> set ?s \<Longrightarrow> is_digit c \<or> c = CHR ''.'' \<or> c = CHR ''-''" for c
    using w f by (auto simp: s list_all_iff split: if_splits)
  have trim: "trim ?s = ?s"
    by (rule trim_no_space) (auto simp: list_all_iff is_space_def is_digit_def dest!: chars)
  have "\<not> rx_test EXPONENT_PATTERN ?s"
    using chars by (auto elim!: EXPONENT_PATTERN_exec dest!: chars)
  moreover have "exec_plain ?s = Some (?sg, Some w, f)"
    unfolding s using w f by (intro exec_plain_frac) auto
  ultimately have "decimal_value (trim ?s) = Some (of_int n / 10 ^ 7)"
    by (simp add: trim decimal_value_def plain_value_def f val sign_of_def)
  moreover have "round_half_away (of_int n) = n"
    by (auto simp: round_half_away_def floor_int_half simp flip: of_int_minus)
  moreover have "trim ?s \<noteq> []" unfolding trim using s by simp
  ultimately show ?thesis
    using parse_string [of ?s numStr 7] by (simp add: DEFAULT_DECIMAL_SCALE_def)
qed

text \<open>
  C26. Formatting and parsing are inverse: the 7-decimal text that \<open>formatStroops\<close> prints for
  any stroop amount parses back to that amount at the default scale.
\<close>

theorem formatStroops_roundtrip:
  "parseDecimalScaled numStr (VStr (formatStroops n)) DEFAULT_DECIMAL_SCALE = Inr n"
  by (rule formatStroops_parse)

end
