(* ===== verification/Status_Machine.thy ===== *)
theory Status_Machine
  imports Prelude
begin

text \<open>
  The policy status machine (\<^verbatim>\<open>src/policy/policy-status.machine.ts\<close>) and the versioning of
  premium rates (\<^verbatim>\<open>src/policy/premium-rate-versioning.ts\<close>). Statuses are strings here, as
  in the code; \<open>status_str\<close> gives the string of each value of the database enum.
\<close>

section \<open>Transitions\<close>

definition VALID_TRANSITIONS :: "(string \<times> string list) list" where
  "VALID_TRANSITIONS =
     [(''ACTIVE'', [''EXPIRED'', ''CANCELLED'', ''CLAIMED'', ''PROCESSING'', ''ERROR'']),
      (''PROCESSING'', [''CLAIMED'', ''ACTIVE'', ''ERROR'']),
      (''EXPIRED'', []),
      (''CANCELLED'', []),
      (''CLAIMED'', []),
      (''ERROR'', [])]"

definition canTransition :: "string \<Rightarrow> string \<Rightarrow> bool" where
  "canTransition from to =
     (case map_of VALID_TRANSITIONS from of None \<Rightarrow> False | Some allowed \<Rightarrow> to \<in> set allowed)"

definition transition :: "string \<Rightarrow> string \<Rightarrow> string outcome" where
  "transition current next =
     (if \<not> canTransition current next
      then Inl (BadRequestException ''Invalid policy status transition'') else Inr next)"

section \<open>The database enum\<close>

datatype PolicyStatus = P_ACTIVE | P_EXPIRED | P_CANCELLED | P_CLAIMED | P_PROCESSING

fun status_str :: "PolicyStatus \<Rightarrow> string" where
  "status_str P_ACTIVE = ''ACTIVE''"
| "status_str P_EXPIRED = ''EXPIRED''"
| "status_str P_CANCELLED = ''CANCELLED''"
| "status_str P_CLAIMED = ''CLAIMED''"
| "status_str P_PROCESSING = ''PROCESSING''"

abbreviation can_move :: "PolicyStatus \<Rightarrow> PolicyStatus \<Rightarrow> bool" where
  "can_move s t \<equiv> canTransition (status_str s) (status_str t)"

fun terminal :: "PolicyStatus \<Rightarrow> bool" where
  "terminal P_ACTIVE = False"
| "terminal P_PROCESSING = False"
| "terminal _ = True"

section \<open>Premium rate versions\<close>

record PremiumRateTemplate =
  t_premiumRate :: int
  t_premiumRateVersion :: int

definition nextPremiumRateVersion :: "PremiumRateTemplate \<Rightarrow> int option \<Rightarrow> int" where
  "nextPremiumRateVersion current nextRate =
     (if nextRate \<noteq> None \<and> nextRate \<noteq> Some (t_premiumRate current)
      then t_premiumRateVersion current + 1
      else t_premiumRateVersion current)"

definition snapshotPremiumRate :: "PremiumRateTemplate \<Rightarrow> PremiumRateTemplate" where
  "snapshotPremiumRate template =
     \<lparr>t_premiumRate = t_premiumRate template,
      t_premiumRateVersion = t_premiumRateVersion template\<rparr>"

section \<open>Lemmas\<close>

lemma status_str_inj [simp]: "status_str s = status_str t \<longleftrightarrow> s = t"
  by (cases s; cases t) simp_all

lemma can_move_iff:
  "can_move s t \<longleftrightarrow>
     (s = P_ACTIVE \<and> t \<noteq> P_ACTIVE) \<or> (s = P_PROCESSING \<and> (t = P_CLAIMED \<or> t = P_ACTIVE))"
  by (cases s; cases t) (simp_all add: canTransition_def VALID_TRANSITIONS_def)

lemma transition_status: "transition (status_str s) (status_str t) =
    (if can_move s t then Inr (status_str t)
     else Inl (BadRequestException ''Invalid policy status transition''))"
  by (simp add: transition_def)

lemma terminal_stuck: "terminal s \<Longrightarrow> \<not> can_move s t"
  unfolding can_move_iff by (cases s) simp_all

lemma moves_terminal: "can_move\<^sup>*\<^sup>* s t \<Longrightarrow> terminal s \<Longrightarrow> t = s"
  by (induction rule: converse_rtranclp_induct) (auto dest: terminal_stuck)

text \<open>
  The machine has exactly two live statuses: along any chain of allowed transitions a policy
  that reached EXPIRED, CANCELLED or CLAIMED stays there, so no policy is re-activated or paid
  after it was cancelled or expired; and \<^verbatim>\<open>transition\<close> accepts exactly the edges of the graph.
\<close>

theorem status_machine_terminal:
  "(\<forall>s t. terminal s \<longrightarrow> can_move\<^sup>*\<^sup>* s t \<longrightarrow> t = s)
   \<and> (\<forall>s. \<not> terminal s \<longrightarrow> can_move\<^sup>*\<^sup>* P_ACTIVE s \<and> can_move s P_CLAIMED)
   \<and> (\<forall>s t. transition (status_str s) (status_str t) = Inr (status_str t) \<longleftrightarrow>
        s = P_ACTIVE \<and> t \<noteq> P_ACTIVE \<or> s = P_PROCESSING \<and> (t = P_CLAIMED \<or> t = P_ACTIVE))"
proof (intro conjI allI impI)
  fix s t
  assume "terminal s" and "can_move\<^sup>*\<^sup>* s t"
  then show "t = s" by (simp add: moves_terminal)
next
  fix s
  assume "\<not> terminal s"
  then have s: "s = P_ACTIVE \<or> s = P_PROCESSING" by (cases s) simp_all
  have "can_move P_ACTIVE P_PROCESSING" unfolding can_move_iff by simp
  with s show "can_move\<^sup>*\<^sup>* P_ACTIVE s" by (auto simp del: status_str.simps)
  from s show "can_move s P_CLAIMED" unfolding can_move_iff by auto
next
  fix s t
  show "transition (status_str s) (status_str t) = Inr (status_str t) \<longleftrightarrow>
        s = P_ACTIVE \<and> t \<noteq> P_ACTIVE \<or> s = P_PROCESSING \<and> (t = P_CLAIMED \<or> t = P_ACTIVE)"
    unfolding transition_status by (simp add: can_move_iff del: status_str.simps)
qed

theorem status_machine_terminal_witness:
  "terminal P_EXPIRED \<and> \<not> terminal P_PROCESSING
   \<and> can_move\<^sup>*\<^sup>* P_ACTIVE P_PROCESSING \<and> can_move P_PROCESSING P_CLAIMED
   \<and> \<not> can_move\<^sup>*\<^sup>* P_EXPIRED P_ACTIVE"
proof (intro conjI)
  show "terminal P_EXPIRED" "\<not> terminal P_PROCESSING" by simp_all
  then show "can_move\<^sup>*\<^sup>* P_ACTIVE P_PROCESSING" "can_move P_PROCESSING P_CLAIMED"
    using conjunct1 [OF conjunct2 [OF status_machine_terminal]] by blast+
  show "\<not> can_move\<^sup>*\<^sup>* P_EXPIRED P_ACTIVE"
    using conjunct1 [OF status_machine_terminal] \<open>terminal P_EXPIRED\<close> by blast
qed

text \<open>An update that omits the rate or repeats it keeps the version; any other raises it by one.\<close>

lemma nextPremiumRateVersion_iff:
  "nextPremiumRateVersion cur r =
     t_premiumRateVersion cur + (if r = None \<or> r = Some (t_premiumRate cur) then 0 else 1)"
  by (simp add: nextPremiumRateVersion_def)

lemma snapshotPremiumRate_eq [simp]: "snapshotPremiumRate cur = cur"
  by (simp add: snapshotPremiumRate_def)

end
