(* ===== verification/Circuit_Breaker.thy ===== *)
theory Circuit_Breaker
  imports Prelude
begin

text \<open>
  The two circuit breakers: \<^verbatim>\<open>CircuitBreaker\<close> of \<^verbatim>\<open>src/oracle/oracle.service.ts\<close> and
  \<^verbatim>\<open>HorizonCircuitBreaker\<close> of \<^verbatim>\<open>src/stellar/horizon-resilience.ts\<close>, with the retry loop
  \<^verbatim>\<open>callHorizon\<close> that drives the second. The locale \<open>breaker\<close> states the contract both are
  meant to keep; what follows from it is proved once. The times are clock reads in milliseconds.
\<close>

section \<open>The oracle breaker\<close>

datatype CircuitState = CLOSED | OPEN | HALF_OPEN

record CircuitBreaker =
  cb_state :: CircuitState
  cb_failureCount :: int
  cb_lastFailureTime :: int
  cb_probeInFlight :: bool

definition cb_init :: CircuitBreaker where
  "cb_init = \<lparr>cb_state = CLOSED, cb_failureCount = 0, cb_lastFailureTime = 0, cb_probeInFlight = False\<rparr>"

definition getState :: "int \<Rightarrow> int \<Rightarrow> CircuitBreaker \<Rightarrow> CircuitBreaker" where
  "getState resetTimeoutMs now b =
     (if cb_state b = OPEN \<and> now - cb_lastFailureTime b \<ge> resetTimeoutMs
      then b\<lparr>cb_state := HALF_OPEN, cb_probeInFlight := False\<rparr> else b)"

text \<open>\<^verbatim>\<open>execute\<close> up to the call of \<^verbatim>\<open>fn\<close>: whether the call goes out, and the new state.\<close>

definition execute_begin :: "int \<Rightarrow> int \<Rightarrow> CircuitBreaker \<Rightarrow> bool \<times> CircuitBreaker" where
  "execute_begin resetTimeoutMs now b0 =
     (let b = getState resetTimeoutMs now b0 in
      case cb_state b of
        OPEN \<Rightarrow> (False, b)
      | HALF_OPEN \<Rightarrow> if cb_probeInFlight b then (False, b) else (True, b\<lparr>cb_probeInFlight := True\<rparr>)
      | CLOSED \<Rightarrow> (True, b))"

definition onSuccess :: "CircuitBreaker \<Rightarrow> CircuitBreaker" where
  "onSuccess b = b\<lparr>cb_probeInFlight := False, cb_failureCount := 0, cb_state := CLOSED\<rparr>"

text \<open>The error is given by its \<^verbatim>\<open>response.status\<close>, if it has one.\<close>

definition onFailure :: "int \<Rightarrow> int option \<Rightarrow> int \<Rightarrow> CircuitBreaker \<Rightarrow> CircuitBreaker" where
  "onFailure failureThreshold status now b =
     (if (case status of Some s \<Rightarrow> 400 \<le> s \<and> s < 500 | None \<Rightarrow> False) then b
      else let b' = b\<lparr>cb_failureCount := cb_failureCount b + 1, cb_lastFailureTime := now\<rparr> in
           if cb_failureCount b' \<ge> failureThreshold then b'\<lparr>cb_state := OPEN\<rparr> else b')"

section \<open>The Horizon breaker\<close>

record HorizonCircuitBreaker =
  hb_consecutiveTimeouts :: int
  hb_openedAt :: "int option"
  hb_probeInFlight :: bool

definition hb_init :: HorizonCircuitBreaker where
  "hb_init = \<lparr>hb_consecutiveTimeouts = 0, hb_openedAt = None, hb_probeInFlight = False\<rparr>"

definition hb_acquire :: "int \<Rightarrow> int \<Rightarrow> HorizonCircuitBreaker \<Rightarrow> bool \<times> HorizonCircuitBreaker" where
  "hb_acquire resetTimeoutMs now b =
     (case hb_openedAt b of
        None \<Rightarrow> (True, b)
      | Some openedAt \<Rightarrow>
          if now - openedAt < resetTimeoutMs \<or> hb_probeInFlight b then (False, b)
          else (True, b\<lparr>hb_probeInFlight := True\<rparr>))"

definition recordResponse :: "HorizonCircuitBreaker \<Rightarrow> HorizonCircuitBreaker" where
  "recordResponse b = b\<lparr>hb_consecutiveTimeouts := 0, hb_openedAt := None, hb_probeInFlight := False\<rparr>"

definition recordTimeout :: "int \<Rightarrow> int \<Rightarrow> HorizonCircuitBreaker \<Rightarrow> HorizonCircuitBreaker" where
  "recordTimeout threshold now b =
     (let b' = b\<lparr>hb_probeInFlight := False, hb_consecutiveTimeouts := hb_consecutiveTimeouts b + 1\<rparr> in
      if hb_openedAt b' \<noteq> None \<or> hb_consecutiveTimeouts b' \<ge> threshold
      then b'\<lparr>hb_openedAt := Some now\<rparr> else b')"

section \<open>Horizon errors and the retry loop\<close>

text \<open>What the code inspects of a caught value: whether it is a \<^verbatim>\<open>HorizonTimeoutError\<close>, the
  status of an \<^verbatim>\<open>HttpException\<close>, the \<^verbatim>\<open>code\<close>, the response status and the message.\<close>

record HorizonErr =
  he_isHorizonTimeout :: bool
  he_httpStatus :: "int option"
  he_code :: "string option"
  he_status :: "int option"
  he_message :: string

definition isTimeoutError :: "HorizonErr \<Rightarrow> bool" where
  "isTimeoutError err \<longleftrightarrow> he_isHorizonTimeout err \<or> he_httpStatus err = Some 504
     \<or> he_code err \<in> {Some ''ECONNABORTED'', Some ''ETIMEDOUT'', Some ''ESOCKETTIMEDOUT''}
     \<or> list_ex (\<lambda>p. contains p (to_lower (he_message err))) [''timeout'', ''timedout'', ''time out'', ''timed out'']"

definition NETWORK_ERROR_CODES :: "string list" where
  "NETWORK_ERROR_CODES = [''ECONNABORTED'', ''ECONNRESET'', ''ECONNREFUSED'', ''ETIMEDOUT'',
     ''ESOCKETTIMEDOUT'', ''EAI_AGAIN'', ''EPIPE'']"

definition isRetryableHorizonError :: "HorizonErr \<Rightarrow> bool" where
  "isRetryableHorizonError err =
     (isTimeoutError err \<or>
      (case he_status err of
         Some s \<Rightarrow> s = 429 \<or> s \<ge> 500
       | None \<Rightarrow> (case he_code err of Some c \<Rightarrow> c \<in> set NETWORK_ERROR_CODES | None \<Rightarrow> False)))"

datatype 'a HorizonResult = HorizonOk 'a | HorizonTimeout nat | HorizonError HorizonErr | HorizonUnavailable

text \<open>The loop from attempt \<open>k\<close> on: \<open>resp k\<close> is what attempt \<open>k\<close> yields, \<open>now k\<close>
  the clock when it is recorded, and \<open>others k\<close> what other calls do to the shared breaker while
  attempt \<open>k\<close> and the backoff before it are awaited.\<close>

function horizon_loop :: "int \<Rightarrow> nat \<Rightarrow> (nat \<Rightarrow> HorizonErr + 'a) \<Rightarrow> (nat \<Rightarrow> int)
    \<Rightarrow> (nat \<Rightarrow> HorizonCircuitBreaker \<Rightarrow> HorizonCircuitBreaker) \<Rightarrow> nat
    \<Rightarrow> HorizonCircuitBreaker \<Rightarrow> 'a HorizonResult \<times> HorizonCircuitBreaker" where
  "horizon_loop threshold attempts resp now others k b0 =
     (let b = others k b0 in
      case resp k of
        Inr x \<Rightarrow> (HorizonOk x, recordResponse b)
      | Inl err \<Rightarrow>
          if \<not> isRetryableHorizonError err \<or> k \<ge> attempts then
            (if isTimeoutError err then (HorizonTimeout k, recordTimeout threshold (now k) b)
             else (HorizonError err, recordResponse b))
          else horizon_loop threshold attempts resp now others (Suc k) b)"
  by pat_completeness auto
termination
  by (relation "measure (\<lambda>(threshold, attempts, resp, now, others, k, b). attempts - k)") auto

declare horizon_loop.simps [simp del]

definition callHorizon :: "int \<Rightarrow> int \<Rightarrow> int \<Rightarrow> (nat \<Rightarrow> HorizonErr + 'a) \<Rightarrow> (nat \<Rightarrow> int)
    \<Rightarrow> (nat \<Rightarrow> HorizonCircuitBreaker \<Rightarrow> HorizonCircuitBreaker)
    \<Rightarrow> HorizonCircuitBreaker \<Rightarrow> 'a HorizonResult \<times> HorizonCircuitBreaker" where
  "callHorizon threshold resetTimeoutMs maxAttempts resp now others b =
     (case hb_acquire resetTimeoutMs (now 0) b of
        (False, b') \<Rightarrow> (HorizonUnavailable, b')
      | (True, b') \<Rightarrow> horizon_loop threshold (nat (max 1 maxAttempts)) resp now others 1 b')"

section \<open>The contract of a breaker\<close>

datatype phase = Closed | Blocked int | Probing

locale breaker =
  fixes inv :: "'s \<Rightarrow> bool" and phase :: "'s \<Rightarrow> phase" and fails :: "'s \<Rightarrow> int"
    and admit :: "int \<Rightarrow> 's \<Rightarrow> bool \<times> 's" and succeed :: "'s \<Rightarrow> 's" and fail :: "int \<Rightarrow> 's \<Rightarrow> 's"
    and threshold :: int and reset :: int
  assumes admit_closed: "inv s \<Longrightarrow> phase s = Closed \<Longrightarrow> admit t s = (True, s)"
    and admit_blocked: "inv s \<Longrightarrow> phase s = Blocked u \<Longrightarrow> t < u \<Longrightarrow> admit t s = (False, s)"
    and admit_probe: "inv s \<Longrightarrow> phase s = Blocked u \<Longrightarrow> u \<le> t \<Longrightarrow>
        \<exists>s'. admit t s = (True, s') \<and> inv s' \<and> phase s' = Probing"
    and admit_probing: "inv s \<Longrightarrow> phase s = Probing \<Longrightarrow> admit t s = (False, s)"
    and inv_succeed: "inv s \<Longrightarrow> inv (succeed s)"
    and succeed_closes: "inv s \<Longrightarrow> phase (succeed s) = Closed \<and> fails (succeed s) = 0"
    and inv_fail: "inv s \<Longrightarrow> inv (fail t s)"
    and fail_counts: "inv s \<Longrightarrow> fails (fail t s) = fails s + 1"
    and fail_phase: "inv s \<Longrightarrow> phase (fail t s) =
        (if phase s \<noteq> Closed \<or> fails s + 1 \<ge> threshold then Blocked (t + reset) else Closed)"
begin

lemma fails_fold: "inv s \<Longrightarrow> inv (fold fail ts s) \<and> fails (fold fail ts s) = fails s + int (length ts)"
  by (induction ts arbitrary: s) (simp_all add: inv_fail fail_counts)

text \<open>Enough failures in a row block the breaker until \<open>reset\<close> after the last of them.\<close>

lemma trips:
  assumes "inv s" and "threshold \<le> fails s + int (length ts)" and "ts \<noteq> []"
  shows "phase (fold fail ts s) = Blocked (last ts + reset)"
proof -
  obtain us u where ts: "ts = us @ [u]" using assms(3) by (cases ts rule: rev_cases) auto
  have "inv (fold fail us s)" "fails (fold fail us s) = fails s + int (length us)"
    using fails_fold [OF assms(1)] by simp_all
  then show ?thesis using assms(2) fail_phase [of "fold fail us s" u] by (simp add: ts)
qed

text \<open>While it is blocked every call fails fast and changes nothing; then exactly one probe goes out,
  and its outcome decides.\<close>

lemma shields:
  assumes "inv s" and "threshold \<le> fails s + int (length ts)" and "ts \<noteq> []"
  defines "b \<equiv> fold fail ts s"
  shows "t < last ts + reset \<Longrightarrow> admit t b = (False, b)"
    and "last ts + reset \<le> t \<Longrightarrow> \<exists>p. admit t b = (True, p) \<and> admit t' p = (False, p)
      \<and> admit t' (succeed p) = (True, succeed p) \<and> phase (fail t' p) = Blocked (t' + reset)"
proof -
  have b: "inv b" "phase b = Blocked (last ts + reset)"
    using fails_fold [OF assms(1)] trips [OF assms(1-3)] by (simp_all add: b_def)
  show "admit t b = (False, b)" if "t < last ts + reset" using admit_blocked [OF b that] .
  assume "last ts + reset \<le> t"
  from admit_probe [OF b this] obtain p where p: "admit t b = (True, p)" "inv p" "phase p = Probing" by blast
  have "admit t' p = (False, p)" using admit_probing p by blast
  moreover have "admit t' (succeed p) = (True, succeed p)"
    using admit_closed inv_succeed succeed_closes p by blast
  moreover have "phase (fail t' p) = Blocked (t' + reset)" using fail_phase p by simp
  ultimately show "\<exists>p. admit t b = (True, p) \<and> admit t' p = (False, p)
      \<and> admit t' (succeed p) = (True, succeed p) \<and> phase (fail t' p) = Blocked (t' + reset)"
    using p(1) by blast
qed

end

section \<open>Both breakers keep the contract\<close>

definition cb_phase :: "int \<Rightarrow> CircuitBreaker \<Rightarrow> phase" where
  "cb_phase reset b = (case cb_state b of CLOSED \<Rightarrow> Closed
     | OPEN \<Rightarrow> Blocked (cb_lastFailureTime b + reset) | HALF_OPEN \<Rightarrow> Probing)"

text \<open>Between calls: an open circuit has counted enough failures, a half-open one has its probe out.\<close>

definition cb_inv :: "int \<Rightarrow> CircuitBreaker \<Rightarrow> bool" where
  "cb_inv threshold b \<longleftrightarrow> (cb_state b \<noteq> CLOSED \<longrightarrow> threshold \<le> cb_failureCount b)
     \<and> (cb_state b = HALF_OPEN \<longrightarrow> cb_probeInFlight b)"

interpretation ob: breaker "cb_inv threshold" "cb_phase reset" cb_failureCount "execute_begin reset" onSuccess
  "onFailure threshold None" threshold reset for threshold reset
  by unfold_locales
    (auto simp: cb_inv_def cb_phase_def execute_begin_def getState_def onSuccess_def onFailure_def Let_def
      split: CircuitState.splits if_splits)

definition hb_phase :: "int \<Rightarrow> HorizonCircuitBreaker \<Rightarrow> phase" where
  "hb_phase reset b = (case hb_openedAt b of None \<Rightarrow> Closed
     | Some t \<Rightarrow> if hb_probeInFlight b then Probing else Blocked (t + reset))"

interpretation hb: breaker "\<lambda>_. True" "hb_phase reset" hb_consecutiveTimeouts "hb_acquire reset" recordResponse
  "recordTimeout threshold" threshold reset for threshold reset
  by unfold_locales
    (auto simp: hb_phase_def hb_acquire_def recordResponse_def recordTimeout_def Let_def
      split: option.splits if_splits)

section \<open>Outages\<close>

text \<open>
  The oracle breaker shields a failing upstream: from a fresh breaker, after at least
  \<^verbatim>\<open>failureThreshold\<close> failures in a row (none of them a 4xx answer) no call goes out for
  \<^verbatim>\<open>resetTimeoutMs\<close> after the last failure; then exactly one probe goes out, further calls are
  refused while it runs, its success lets every call through again and its failure blocks for
  another full period.
\<close>

theorem oracle_breaker_shields:
  assumes "threshold \<le> int (length ts)" and "ts \<noteq> []"
  defines "b \<equiv> fold (onFailure threshold None) ts cb_init"
  shows "(t < last ts + reset \<longrightarrow> execute_begin reset t b = (False, b))
     \<and> (last ts + reset \<le> t \<longrightarrow>
        (\<exists>p. execute_begin reset t b = (True, p) \<and> execute_begin reset t' p = (False, p)
           \<and> execute_begin reset t' (onSuccess p) = (True, onSuccess p)
           \<and> cb_phase reset (onFailure threshold None t' p) = Blocked (t' + reset)))"
proof -
  have init: "cb_inv threshold cb_init" "threshold \<le> cb_failureCount cb_init + int (length ts)"
    using assms by (simp_all add: cb_inv_def cb_init_def)
  show ?thesis
    using ob.shields(1) [OF init assms(2), of t reset] ob.shields(2) [OF init assms(2), of reset t t']
    unfolding b_def by blast
qed

theorem oracle_breaker_shields_witness:
  "execute_begin 30000 30004 (fold (onFailure 5 None) [1, 2, 3, 4, 5] cb_init)
     = (False, fold (onFailure 5 None) [1, 2, 3, 4, 5] cb_init)
   \<and> fst (execute_begin 30000 30005 (fold (onFailure 5 None) [1, 2, 3, 4, 5] cb_init))"
  using oracle_breaker_shields [of 5 "[1, 2, 3, 4, 5]" 30004 30000 0]
    oracle_breaker_shields [of 5 "[1, 2, 3, 4, 5]" 30005 30000 0] by auto

text \<open>
  The Horizon breaker keeps the same promise, with \<^verbatim>\<open>threshold\<close> consecutive timed-out calls.
\<close>

theorem horizon_breaker_shields:
  assumes "threshold \<le> int (length ts)" and "ts \<noteq> []"
  defines "b \<equiv> fold (recordTimeout threshold) ts hb_init"
  shows "(t < last ts + reset \<longrightarrow> hb_acquire reset t b = (False, b))
     \<and> (last ts + reset \<le> t \<longrightarrow>
        (\<exists>p. hb_acquire reset t b = (True, p) \<and> hb_acquire reset t' p = (False, p)
           \<and> hb_acquire reset t' (recordResponse p) = (True, recordResponse p)
           \<and> hb_phase reset (recordTimeout threshold t' p) = Blocked (t' + reset)))"
proof -
  have init: "threshold \<le> hb_consecutiveTimeouts hb_init + int (length ts)"
    using assms by (simp add: hb_init_def)
  show ?thesis
    using hb.shields(1) [OF TrueI init assms(2), of t reset] hb.shields(2) [OF TrueI init assms(2), of reset t t']
    unfolding b_def by blast
qed

theorem horizon_breaker_shields_witness:
  "hb_acquire 30000 30002 (fold (recordTimeout 3) [1, 2, 3] hb_init) = (False, fold (recordTimeout 3) [1, 2, 3] hb_init)
   \<and> fst (hb_acquire 30000 30003 (fold (recordTimeout 3) [1, 2, 3] hb_init))"
  using horizon_breaker_shields [of 3 "[1, 2, 3]" 30002 30000 0]
    horizon_breaker_shields [of 3 "[1, 2, 3]" 30003 30000 0] by auto

text \<open>
  A probe that is answered with a client error wedges the oracle breaker: a 4xx answer is ignored,
  so the half-open breaker keeps waiting for its probe and refuses the next call at any later
  time, leaving its own state as it was: unless a call sent before the outage is still out,
  nothing can close it again.
\<close>

theorem oracle_probe_wedged:
  assumes "cb_state b = HALF_OPEN" and "cb_probeInFlight b" and "400 \<le> s" and "s < 500"
  shows "execute_begin reset t (onFailure threshold (Some s) now b) = (False, b)"
  using assms by (simp add: onFailure_def execute_begin_def getState_def)

theorem oracle_probe_wedged_witness:
  "let b = snd (execute_begin 30000 40000 (fold (onFailure 5 None) [1, 2, 3, 4, 5] cb_init))
   in cb_state b = HALF_OPEN \<and> execute_begin 30000 999999999 (onFailure 5 (Some 404) 40001 b) = (False, b)"
proof -
  let ?b = "snd (execute_begin 30000 40000 (fold (onFailure 5 None) [1, 2, 3, 4, 5] cb_init))"
  have "cb_state ?b = HALF_OPEN" "cb_probeInFlight ?b" by code_simp+
  from oracle_probe_wedged [OF this, of 404 30000 999999999 5 40001] this(1) show ?thesis by (simp add: Let_def)
qed

section \<open>The retry loop\<close>

text \<open>How attempt \<open>j\<close> ends the call: \<open>b\<close> is the breaker when its outcome is recorded.\<close>

definition horizon_end :: "int \<Rightarrow> (nat \<Rightarrow> int) \<Rightarrow> nat \<Rightarrow> HorizonErr + 'a \<Rightarrow> HorizonCircuitBreaker
    \<Rightarrow> 'a HorizonResult \<times> HorizonCircuitBreaker" where
  "horizon_end threshold now j r b =
     (case r of
        Inr x \<Rightarrow> (HorizonOk x, recordResponse b)
      | Inl err \<Rightarrow> if isTimeoutError err then (HorizonTimeout j, recordTimeout threshold (now j) b)
                  else (HorizonError err, recordResponse b))"

definition retry_at :: "(nat \<Rightarrow> HorizonErr + 'a) \<Rightarrow> nat \<Rightarrow> bool" where
  "retry_at resp k = (case resp k of Inl err \<Rightarrow> isRetryableHorizonError err | Inr _ \<Rightarrow> False)"

lemma horizon_loop_step:
  "horizon_loop threshold attempts resp now others k b =
     (if retry_at resp k \<and> k < attempts then horizon_loop threshold attempts resp now others (Suc k) (others k b)
      else horizon_end threshold now k (resp k) (others k b))"
  by (subst horizon_loop.simps) (auto simp: horizon_end_def retry_at_def Let_def split: sum.splits)

lemma horizon_loop_result:
  "k \<le> attempts \<Longrightarrow> \<exists>j. k \<le> j \<and> j \<le> attempts \<and> (\<forall>i. k \<le> i \<and> i < j \<longrightarrow> retry_at resp i)
     \<and> (j < attempts \<longrightarrow> \<not> retry_at resp j)
     \<and> horizon_loop threshold attempts resp now others k b
        = horizon_end threshold now j (resp j) (fold others [k..<Suc j] b)"
proof (induction "attempts - k" arbitrary: k b)
  case 0
  then have "attempts = k" by simp
  then show ?case
    by (intro exI [of _ k]) (auto simp: horizon_loop_step [of threshold k resp now others k])
next
  case (Suc n)
  show ?case
  proof (cases "retry_at resp k")
    case True
    from Suc(2) have k: "k < attempts" "n = attempts - Suc k" "Suc k \<le> attempts" by linarith+
    from Suc(1) [OF k(2,3), of "others k b"] obtain j where j: "Suc k \<le> j" "j \<le> attempts"
      "\<forall>i. Suc k \<le> i \<and> i < j \<longrightarrow> retry_at resp i" "j < attempts \<longrightarrow> \<not> retry_at resp j"
      "horizon_loop threshold attempts resp now others (Suc k) (others k b)
        = horizon_end threshold now j (resp j) (fold others [Suc k..<Suc j] (others k b))" by blast
    have "\<forall>i. k \<le> i \<and> i < j \<longrightarrow> retry_at resp i" using j(3) True by (metis Suc_leI le_neq_implies_less)
    moreover have "fold others [k..<Suc j] b = fold others [Suc k..<Suc j] (others k b)"
      using j(1) by (simp add: upt_conv_Cons del: upt_Suc)
    ultimately show ?thesis using j k True
      by (intro exI [of _ j]) (simp add: horizon_loop_step [of threshold attempts resp now others k])
  next
    case False
    with Suc show ?thesis
      by (intro exI [of _ k]) (auto simp: horizon_loop_step [of threshold attempts resp now others k])
  qed
qed

text \<open>
  A Horizon call ends, and its end is reported truthfully: when the breaker lets it out it makes at
  most \<^verbatim>\<open>maxAttempts\<close> attempts, each after a retryable failure of the one before, gives up early
  only on an answer or a failure that is not retryable, and returns the outcome of the last
  attempt: an answer or a non-timeout error closes the breaker, a timeout is thrown as
  \<^verbatim>\<open>HorizonTimeoutError\<close> and recorded, whatever other calls did to the breaker meanwhile. When
  the breaker refuses, nothing is sent.
\<close>

theorem callHorizon_outcome:
  assumes "hb_acquire reset (now 0) b = (ok, b')"
  shows "(\<not> ok \<longrightarrow> callHorizon threshold reset m resp now others b = (HorizonUnavailable, b))
   \<and> (ok \<longrightarrow> (\<exists>j. 1 \<le> j \<and> int j \<le> max 1 m \<and> (\<forall>i. 1 \<le> i \<and> i < j \<longrightarrow> retry_at resp i)
       \<and> (int j < max 1 m \<longrightarrow> \<not> retry_at resp j)
       \<and> callHorizon threshold reset m resp now others b
          = horizon_end threshold now j (resp j) (fold others [1..<Suc j] b')))"
proof (cases ok)
  case False
  with assms have "b' = b" by (auto simp: hb_acquire_def split: option.splits if_splits)
  with assms False show ?thesis by (simp add: callHorizon_def)
next
  case True
  let ?n = "nat (max 1 m)"
  have n: "1 \<le> ?n" "int ?n = max 1 m" by simp_all
  from horizon_loop_result [OF n(1), of resp threshold now others b'] obtain j where j: "1 \<le> j" "j \<le> ?n"
    "\<forall>i. 1 \<le> i \<and> i < j \<longrightarrow> retry_at resp i" "j < ?n \<longrightarrow> \<not> retry_at resp j"
    "horizon_loop threshold ?n resp now others 1 b' = horizon_end threshold now j (resp j) (fold others [1..<Suc j] b')"
    by blast
  moreover have "int j \<le> max 1 m" "int j < max 1 m \<longrightarrow> j < ?n" using j(2) n(2) by linarith+
  ultimately show ?thesis using assms True by (auto simp: callHorizon_def)
qed

definition reset_err :: HorizonErr where
  "reset_err = \<lparr>he_isHorizonTimeout = False, he_httpStatus = None, he_code = Some ''ECONNRESET'',
     he_status = None, he_message = ''socket hang up''\<rparr>"

theorem callHorizon_outcome_witness:
  "\<exists>j. 1 \<le> j \<and> int j \<le> 3 \<and>
     callHorizon 3 30000 3 (\<lambda>k. if k < 2 then Inl reset_err else Inr True) int (\<lambda>_ b. b) hb_init
       = horizon_end 3 int j (if j < 2 then Inl reset_err else Inr True) hb_init"
proof -
  have acq: "hb_acquire 30000 (int 0) hb_init = (True, hb_init)" by code_simp
  have "fold (\<lambda>_ b. b) xs b = b" for xs :: "nat list" and b :: HorizonCircuitBreaker by (induction xs) auto
  with callHorizon_outcome [where now = int, OF acq, of 3 3 "\<lambda>k. if k < 2 then Inl reset_err else Inr True" "\<lambda>_ b. b"]
  show ?thesis by auto
qed

end
