(* ===== verification/Store.thy ===== *)
theory Store
  imports Status_Machine Circuit_Breaker
begin

text \<open>
  The database (\<^verbatim>\<open>prisma/schema.prisma\<close>) as lists of rows, the effects of the services as
  actions over it, and the transaction layer (\<^verbatim>\<open>src/prisma/financial-transaction.ts\<close>).

  A service method is an action: a function of its environment and of the current tick and world.
  Every \<^verbatim>\<open>await\<close> and every clock read takes one tick. At an \<^verbatim>\<open>await\<close> the other requests,
  workers and replicas may change the world (\<open>e_rely\<close>); a statement or transaction then runs
  atomically, or fails with the error that \<open>e_dbfail\<close> gives and changes nothing. Columns of
  type \<^verbatim>\<open>Decimal(20, 7)\<close> are integers counting units of the seventh decimal; dates are
  milliseconds. The surrogate ids of audit and evidence rows are not modelled.
\<close>

section \<open>Rows\<close>

datatype ClaimStatus = C_PENDING | C_PROCESSING | C_PAID | C_REJECTED | C_FAILED | C_EXPIRED

fun claim_status_str :: "ClaimStatus \<Rightarrow> string" where
  "claim_status_str C_PENDING = ''PENDING''"
| "claim_status_str C_PROCESSING = ''PROCESSING''"
| "claim_status_str C_PAID = ''PAID''"
| "claim_status_str C_REJECTED = ''REJECTED''"
| "claim_status_str C_FAILED = ''FAILED''"
| "claim_status_str C_EXPIRED = ''EXPIRED''"

datatype ProductStatus = PR_ACTIVE | PR_INACTIVE | PR_DEPRECATED

record Policy =
  p_id :: string
  p_productId :: string
  p_policyholder :: string
  p_coverageXlm :: int
  p_premiumPaid :: int
  p_premiumRate :: int
  p_premiumRateVersion :: int
  p_oracleKey :: string
  p_startTime :: int
  p_endTime :: int
  p_status :: PolicyStatus
  p_version :: int
  p_txHash :: "string option"
  p_createdAt :: int
  p_updatedAt :: int

record Product =
  pr_id :: string
  pr_name :: string
  pr_category :: string
  pr_triggerType :: string
  pr_threshold :: int
  pr_comparison :: string
  pr_coverageMin :: int
  pr_coverageMax :: int
  pr_premiumRate :: int
  pr_premiumRateVersion :: int
  pr_maxDuration :: int
  pr_status :: ProductStatus

record Claim =
  c_id :: string
  c_policyId :: string
  c_claimant :: string
  c_coverageAmount :: int
  c_payoutAmount :: "int option"
  c_triggerMet :: bool
  c_status :: ClaimStatus
  c_txHash :: "string option"
  c_submittedAt :: int
  c_processedAt :: "int option"
  c_createdAt :: int

record ClaimEvidence =
  ev_claimId :: string
  ev_filename :: string
  ev_mimeType :: string
  ev_size :: int
  ev_content :: "int list"

record OracleReading =
  or_id :: string
  or_dataType :: string
  or_key :: string
  or_value :: int
  or_confidence :: int
  or_source :: string
  or_bucketStart :: int
  or_onChainSubmitted :: bool
  or_onChainTxHash :: "string option"
  or_submittedAt :: int

text \<open>A reading as the oracle service passes it around, before it is a row.\<close>

record Reading =
  rd_dataType :: string
  rd_key :: string
  rd_value :: string
  rd_confidence :: jsnum
  rd_timestamp :: jsnum
  rd_source :: string
  rd_status :: "string option"
  rd_bucketStart :: "int option"

record AuthChallenge =
  ch_walletAddress :: string
  ch_nonce :: string
  ch_expiresAt :: int
  ch_createdAt :: int

record WebhookRegistration =
  wr_id :: string
  wr_url :: string
  wr_secret :: "string option"
  wr_events :: "string list"
  wr_createdAt :: int
  wr_isActive :: bool

text \<open>A value in Redis: a text, the JSON text of a cached response (status and body), or of a failure record (count and reset time).\<close>

datatype redis_value = RText string | RResponse int string | RFailures int int

record AuditLog =
  au_entityType :: string
  au_entityId :: string
  au_fromStatus :: string
  au_toStatus :: string
  au_reason :: "string option"
  au_occurredAt :: int

text \<open>A product as the service layer hands it out: decimals are text.\<close>

record ProductSummary =
  ps_id :: string
  ps_name :: string
  ps_category :: string
  ps_triggerType :: string
  ps_threshold :: string
  ps_comparison :: string
  ps_coverageMin :: string
  ps_coverageMax :: string
  ps_premiumRate :: int
  ps_premiumRateVersion :: int
  ps_maxDuration :: int
  ps_status :: ProductStatus

text \<open>What leaves the process: status events, webhook notifications and cache invalidations.\<close>

datatype event =
    PolicyStatusChange string string int
  | ClaimWebhook string string string int string string
  | ClaimStatusChange string string string string int string
  | PolicyWebhook string string string int
  | PolicyOracleKeyChange string string string "string option" int
  | PolicyOracleKeyWebhook string string string "string option" int
  | ProductUpdate string
  | CacheInvalidate string
  | CacheInvalidateAll

record world =
  policies :: "Policy list"
  products :: "Product list"
  claims :: "Claim list"
  claimEvidence :: "ClaimEvidence list"
  oracleReadings :: "OracleReading list"
  auditLogs :: "AuditLog list"
  claimCountCache :: "(string \<times> int \<times> int) list"
  nextContractCallAt :: int
  productCache :: "(string \<times> (ProductSummary list \<times> int) \<times> int) list"
  readingCache :: "(string \<times> Reading option \<times> int) list"
  authChallenges :: "AuthChallenge list"
  webhookRegistrations :: "WebhookRegistration list"
  redis_kv :: "(string \<times> redis_value \<times> int option) list"
  outbox :: "event list"
  chainCalls :: "(string \<times> string \<times> string list) list"
  httpPosts :: "(string \<times> string \<times> string option) list"
  sentTxs :: "string list"
  openMeteoBreaker :: CircuitBreaker
  aviationStackBreaker :: CircuitBreaker

section \<open>Actions\<close>

text \<open>The answer of a contract simulation: an error, a success without a value, or a value.\<close>

datatype 'a SimResult = SimError string | SimEmpty | SimValue 'a

record OnChainPolicy =
  oc_product_id :: string
  oc_policyholder :: string
  oc_coverage :: string
  oc_premium_paid :: string
  oc_oracle_key :: string
  oc_start_time :: int
  oc_end_time :: int
  oc_status :: string

text \<open>
  The environment: what other actors do to the world at an \<^verbatim>\<open>await\<close>, the clock, fresh ids,
  failures of the database and of Redis, results of contract calls and simulations, the configuration, the
  text that \<^verbatim>\<open>Decimal.toString\<close> gives and what \<^verbatim>\<open>new Decimal\<close> reads, and the rank of a text in the collation of the database.
\<close>

record env =
  e_rely :: "nat \<Rightarrow> world \<Rightarrow> world"
  e_clock :: "nat \<Rightarrow> int"
  e_uuid :: "nat \<Rightarrow> string"
  e_dbfail :: "nat \<Rightarrow> exn option"
  e_redisfail :: "nat \<Rightarrow> exn option"
  e_invoke :: "nat \<Rightarrow> string outcome"
  e_simBalance :: "nat \<Rightarrow> jsnum SimResult outcome"
  e_simPolicy :: "nat \<Rightarrow> OnChainPolicy SimResult outcome"
  e_config :: "string \<Rightarrow> string option"
  e_decStr :: "int \<Rightarrow> string"
  e_decOf :: "string \<Rightarrow> int outcome"
  e_collation :: "string \<Rightarrow> int"

type_synonym 'a act = "env \<Rightarrow> nat \<times> world \<Rightarrow> 'a outcome \<times> (nat \<times> world)"

text \<open>A statement sees the clock and one fresh id; it is run inside one tick.\<close>

record ctx =
  now_ms :: int
  fresh_id :: string

type_synonym 'a stmt = "ctx \<Rightarrow> world \<Rightarrow> 'a outcome \<times> world"

definition ret :: "'a \<Rightarrow> 'a act" where
  "ret x e s = (Inr x, s)"

definition throw :: "exn \<Rightarrow> 'a act" where
  "throw x e s = (Inl x, s)"

definition bind :: "'a act \<Rightarrow> ('a \<Rightarrow> 'b act) \<Rightarrow> 'b act" where
  "bind m f e s = (case m e s of (Inl x, s') \<Rightarrow> (Inl x, s') | (Inr y, s') \<Rightarrow> f y e s')"

abbreviation seq :: "'a act \<Rightarrow> 'b act \<Rightarrow> 'b act" where
  "seq m k \<equiv> bind m (\<lambda>_. k)"

definition catch :: "'a act \<Rightarrow> (exn \<Rightarrow> 'a act) \<Rightarrow> 'a act" where
  "catch m h e s = (case m e s of (Inl x, s') \<Rightarrow> h x e s' | (Inr y, s') \<Rightarrow> (Inr y, s'))"

definition lift :: "'a outcome \<Rightarrow> 'a act" where
  "lift r e s = (r, s)"

definition asks :: "(env \<Rightarrow> 'a) \<Rightarrow> 'a act" where
  "asks f e s = (Inr (f e), s)"

definition clock :: "int act" where
  "clock e s = (Inr (e_clock e (fst s)), (Suc (fst s), snd s))"

definition gets :: "(world \<Rightarrow> 'a) \<Rightarrow> 'a act" where
  "gets f e s = (Inr (f (snd s)), s)"

definition modify :: "(world \<Rightarrow> world) \<Rightarrow> unit act" where
  "modify f e s = (Inr (), (fst s, f (snd s)))"

definition emit :: "event \<Rightarrow> unit act" where
  "emit ev = modify (\<lambda>w. w\<lparr>outbox := outbox w @ [ev]\<rparr>)"

definition await :: "unit act" where
  "await e s = (Inr (), (Suc (fst s), e_rely e (fst s) (snd s)))"

text \<open>An awaited call of another service, whose result the environment gives.\<close>

definition call :: "(env \<Rightarrow> nat \<Rightarrow> 'a outcome) \<Rightarrow> 'a act" where
  "call f e s = (f e (fst s), (Suc (fst s), e_rely e (fst s) (snd s)))"

text \<open>An awaited statement or transaction: atomic, and without effect when it fails.\<close>

definition db :: "'a stmt \<Rightarrow> 'a act" where
  "db st e s = (let w = e_rely e (fst s) (snd s);
                    c = \<lparr>now_ms = e_clock e (fst s), fresh_id = e_uuid e (fst s)\<rparr> in
     case e_dbfail e (fst s) of
       Some x \<Rightarrow> (Inl x, (Suc (fst s), w))
     | None \<Rightarrow> (case st c w of
         (Inl x, w') \<Rightarrow> (Inl x, (Suc (fst s), w))
       | (Inr y, w') \<Rightarrow> (Inr y, (Suc (fst s), w'))))"

section \<open>Statements\<close>

definition s_ret :: "'a \<Rightarrow> 'a stmt" where
  "s_ret x c w = (Inr x, w)"

definition s_throw :: "exn \<Rightarrow> 'a stmt" where
  "s_throw x c w = (Inl x, w)"

definition s_bind :: "'a stmt \<Rightarrow> ('a \<Rightarrow> 'b stmt) \<Rightarrow> 'b stmt" where
  "s_bind m f c w = (case m c w of (Inl x, w') \<Rightarrow> (Inl x, w') | (Inr y, w') \<Rightarrow> f y c w')"

abbreviation s_seq :: "'a stmt \<Rightarrow> 'b stmt \<Rightarrow> 'b stmt" where
  "s_seq m k \<equiv> s_bind m (\<lambda>_. k)"

definition s_query :: "(world \<Rightarrow> 'a) \<Rightarrow> 'a stmt" where
  "s_query f c w = (Inr (f w), w)"

definition policy_findUnique :: "string \<Rightarrow> world \<Rightarrow> Policy option" where
  "policy_findUnique i w = List.find (\<lambda>r. p_id r = i) (policies w)"

definition claim_findUnique :: "string \<Rightarrow> world \<Rightarrow> Claim option" where
  "claim_findUnique i w = List.find (\<lambda>r. c_id r = i) (claims w)"

definition product_findUnique :: "string \<Rightarrow> world \<Rightarrow> Product option" where
  "product_findUnique i w = List.find (\<lambda>r. pr_id r = i) (products w)"

text \<open>The partial unique index on claims, and the unique columns.\<close>

definition non_terminal :: "Claim \<Rightarrow> bool" where
  "non_terminal r \<longleftrightarrow> c_status r = C_PENDING \<or> c_status r = C_PROCESSING"

definition claims_ok :: "Claim list \<Rightarrow> bool" where
  "claims_ok cs \<longleftrightarrow> distinct (map c_id cs)
     \<and> distinct (map c_policyId (filter non_terminal cs))
     \<and> distinct (filter (\<lambda>h. h \<noteq> None) (map c_txHash cs))"

definition policies_ok :: "Policy list \<Rightarrow> bool" where
  "policies_ok ps \<longleftrightarrow> distinct (map p_id ps)
     \<and> distinct (map (\<lambda>r. (p_policyholder r, p_productId r, p_oracleKey r)) ps)
     \<and> distinct (filter (\<lambda>h. h \<noteq> None) (map p_txHash ps))"

definition policy_updateMany :: "(Policy \<Rightarrow> bool) \<Rightarrow> (Policy \<Rightarrow> Policy) \<Rightarrow> nat stmt" where
  "policy_updateMany P f c w =
     (let ps = map (\<lambda>r. if P r then (f r)\<lparr>p_updatedAt := now_ms c\<rparr> else r) (policies w) in
      if policies_ok ps then (Inr (length (filter P (policies w))), w\<lparr>policies := ps\<rparr>)
      else (Inl (UniqueViolation [''policyholder'', ''productId'', ''oracleKey'']), w))"

definition policy_create :: "Policy \<Rightarrow> Policy stmt" where
  "policy_create r c w =
     (let r' = r\<lparr>p_id := fresh_id c, p_createdAt := now_ms c, p_updatedAt := now_ms c\<rparr> in
      if \<exists>q \<in> set (policies w). p_txHash q \<noteq> None \<and> p_txHash q = p_txHash r'
      then (Inl (UniqueViolation [''txHash'']), w)
      else if policies_ok (policies w @ [r']) then (Inr r', w\<lparr>policies := policies w @ [r']\<rparr>)
      else (Inl (UniqueViolation [''policyholder'', ''productId'', ''oracleKey'']), w))"

definition claim_updateMany :: "(Claim \<Rightarrow> bool) \<Rightarrow> (Claim \<Rightarrow> Claim) \<Rightarrow> nat stmt" where
  "claim_updateMany P f c w =
     (let cs = map (\<lambda>r. if P r then f r else r) (claims w) in
      if claims_ok cs then (Inr (length (filter P (claims w))), w\<lparr>claims := cs\<rparr>)
      else (Inl (UniqueViolation [''policyId'']), w))"

text \<open>\<^verbatim>\<open>update\<close> raises P2025 when the row does not exist.\<close>

definition claim_update :: "string \<Rightarrow> (Claim \<Rightarrow> Claim) \<Rightarrow> unit stmt" where
  "claim_update i f = s_bind (claim_updateMany (\<lambda>r. c_id r = i) f)
     (\<lambda>n. if n = 0 then s_throw (PrismaKnown ''P2025'' [] []) else s_ret ())"

definition claim_create :: "Claim \<Rightarrow> Claim stmt" where
  "claim_create r c w =
     (let r' = r\<lparr>c_id := fresh_id c, c_submittedAt := now_ms c, c_createdAt := now_ms c\<rparr> in
      if claims_ok (claims w @ [r']) then (Inr r', w\<lparr>claims := claims w @ [r']\<rparr>)
      else (Inl (UniqueViolation [''policyId'']), w))"

definition product_create :: "Product \<Rightarrow> Product stmt" where
  "product_create r c w =
     (let r' = r\<lparr>pr_id := fresh_id c\<rparr> in
      if fresh_id c \<in> pr_id ` set (products w) then (Inl (UniqueViolation [''id'']), w)
      else (Inr r', w\<lparr>products := products w @ [r']\<rparr>))"

definition product_update :: "string \<Rightarrow> (Product \<Rightarrow> Product) \<Rightarrow> Product stmt" where
  "product_update i f c w =
     (case product_findUnique i w of
        None \<Rightarrow> (Inl (PrismaKnown ''P2025'' [] []), w)
      | Some r \<Rightarrow> (Inr (f r), w\<lparr>products := map (\<lambda>q. if pr_id q = i then f q else q) (products w)\<rparr>))"

definition auditLog_create ::
    "string \<Rightarrow> string \<Rightarrow> string \<Rightarrow> string \<Rightarrow> string option \<Rightarrow> unit stmt" where
  "auditLog_create ty i from to reason c w =
     (Inr (), w\<lparr>auditLogs := auditLogs w @
        [\<lparr>au_entityType = ty, au_entityId = i, au_fromStatus = from, au_toStatus = to,
          au_reason = reason, au_occurredAt = now_ms c\<rparr>]\<rparr>)"

section \<open>Financial transactions\<close>

definition FINANCIAL_TX_MAX_ATTEMPTS :: nat where
  "FINANCIAL_TX_MAX_ATTEMPTS = 3"

definition mentions_serialization :: "string \<Rightarrow> bool" where
  "mentions_serialization msg \<longleftrightarrow> contains ''40001'' msg \<or> contains ''40p01'' (to_lower msg)
     \<or> contains ''could not serialize access'' (to_lower msg)"

fun isSerializationFailure :: "exn \<Rightarrow> bool" where
  "isSerializationFailure (PrismaKnown code msg target) =
     (code = ''P2034'' \<or> code = ''P2010'' \<and> mentions_serialization msg)"
| "isSerializationFailure (PrismaUnknown msg) = mentions_serialization msg"
| "isSerializationFailure _ = False"

text \<open>The loop, from its attempt counter on; the backoff between attempts is an \<open>await\<close>.\<close>

function retry_from :: "nat \<Rightarrow> 'a act \<Rightarrow> 'a act" where
  "retry_from attempt run =
     catch run (\<lambda>err.
       if \<not> isSerializationFailure err \<or> attempt \<ge> FINANCIAL_TX_MAX_ATTEMPTS then throw err
       else seq await (retry_from (attempt + 1) run))"
  by pat_completeness auto
termination
  by (relation "measure (\<lambda>(attempt, run). FINANCIAL_TX_MAX_ATTEMPTS - attempt)") auto

declare retry_from.simps [simp del]

definition withSerializationRetry :: "'a act \<Rightarrow> 'a act" where
  "withSerializationRetry run = retry_from 1 run"

definition financialTransaction :: "'a stmt \<Rightarrow> 'a act" where
  "financialTransaction fn = withSerializationRetry (db fn)"

definition financialBatch :: "'a stmt \<Rightarrow> 'a act" where
  "financialBatch ops = withSerializationRetry (db ops)"

section \<open>Pagination\<close>

text \<open>\<^verbatim>\<open>take\<close> and \<^verbatim>\<open>skip\<close> of a query: a negative skip is refused, a negative take counts
  from the end.\<close>

definition paginate :: "int \<Rightarrow> int \<Rightarrow> 'a list \<Rightarrow> 'a list outcome" where
  "paginate tk sk xs =
     (if sk < 0 then Inl (PlainError ''Invalid value for skip argument'')
      else if tk < 0 then Inr (rev (take (nat (- tk)) (drop (nat sk) (rev xs))))
      else Inr (take (nat tk) (drop (nat sk) xs)))"

section \<open>A quiet environment\<close>

text \<open>Nobody interferes, nothing fails, the clock stands still; used to evaluate examples.\<close>

definition empty_world :: world where
  "empty_world = \<lparr>policies = [], products = [], claims = [], claimEvidence = [],
     oracleReadings = [], auditLogs = [], claimCountCache = [], nextContractCallAt = 0,
     productCache = [], readingCache = [], authChallenges = [],
     webhookRegistrations = [], redis_kv = [], outbox = [], chainCalls = [], httpPosts = [], sentTxs = [], openMeteoBreaker = cb_init, aviationStackBreaker = cb_init\<rparr>"

definition quiet_env :: "int \<Rightarrow> env" where
  "quiet_env t = \<lparr>e_rely = (\<lambda>n w. w), e_clock = (\<lambda>n. t), e_uuid = (\<lambda>n. ''id-'' @ nat_str (int n)),
     e_dbfail = (\<lambda>n. None), e_redisfail = (\<lambda>n. None), e_invoke = (\<lambda>n. Inr (replicate 64 (CHR ''a''))),
     e_simBalance = (\<lambda>n. Inr (SimValue PosInf)), e_simPolicy = (\<lambda>n. Inr SimEmpty),
     e_config = (\<lambda>k. None), e_decStr = (\<lambda>d. int_str d @ ''e-7''),
     e_decOf = (\<lambda>s. case parseInt10 s of None \<Rightarrow> Inl (PlainError ''DecimalError'') | Some d \<Rightarrow> Inr d), e_collation = (\<lambda>s. 0)\<rparr>"

end
