(* ===== verification/Policy_Rules.thy ===== *)
theory Policy_Rules
  imports Regex Decimal Store
begin

text \<open>
  The pure rules of \<^verbatim>\<open>src/policy/policy.service.ts\<close>: the premium, the format and the period of
  oracle keys, the pro-rated refund, and the mapping of rows to summaries. Dates are computed as
  the ECMAScript specification does (days of the proleptic Gregorian calendar).
\<close>

section \<open>Premium\<close>

definition MAX_PREMIUM_COVERAGE_XLM :: int where
  "MAX_PREMIUM_COVERAGE_XLM = 1000000000"

definition MAX_PREMIUM_RATE_BPS :: int where
  "MAX_PREMIUM_RATE_BPS = 10000"

definition MAX_PREMIUM_DURATION_DAYS :: int where
  "MAX_PREMIUM_DURATION_DAYS = 365"

definition int_between :: "int \<Rightarrow> int \<Rightarrow> jsnum \<Rightarrow> bool" where
  "int_between lo hi x \<longleftrightarrow> is_integer x \<and> \<not> js_less x (js_int lo) \<and> \<not> js_less (js_int hi) x"

definition calculatePremium :: "jsnum \<Rightarrow> jsnum \<Rightarrow> jsnum \<Rightarrow> int outcome" where
  "calculatePremium coverageXlm premiumRate durationDays =
     (if \<not> int_between 1 MAX_PREMIUM_COVERAGE_XLM coverageXlm
      then Inl (BadRequestException ''coverageXlm must be an integer'')
      else if \<not> int_between 1 MAX_PREMIUM_RATE_BPS premiumRate
      then Inl (BadRequestException ''premiumRate must be an integer'')
      else if \<not> int_between 1 MAX_PREMIUM_DURATION_DAYS durationDays
      then Inl (BadRequestException ''durationDays must be an integer'')
      else let numerator = num_int coverageXlm * num_int premiumRate * num_int durationDays;
               denominator = 10000 * 30;
               floored = numerator sdiv denominator;
               remainder = numerator smod denominator
           in Inr (if remainder > 0 then floored + 1 else floored))"

section \<open>Calendar\<close>

definition DayFromYear :: "int \<Rightarrow> int" where
  "DayFromYear y = 365 * (y - 1970) + (y - 1969) div 4 - (y - 1901) div 100 + (y - 1601) div 400"

definition leap :: "int \<Rightarrow> bool" where
  "leap y \<longleftrightarrow> y mod 4 = 0 \<and> (y mod 100 \<noteq> 0 \<or> y mod 400 = 0)"

text \<open>Days before month \<open>m\<close> (1 to 12) in year \<open>y\<close>.\<close>

definition month_offset :: "int \<Rightarrow> int \<Rightarrow> int" where
  "month_offset y m =
     [0, 31, 59, 90, 120, 151, 181, 212, 243, 273, 304, 334] ! nat (m - 1)
     + (if m > 2 \<and> leap y then 1 else 0)"

text \<open>\<^verbatim>\<open>Date.UTC\<close> at midnight in milliseconds; a day past the month's end runs over.\<close>

definition utc_ms :: "int \<Rightarrow> int \<Rightarrow> int \<Rightarrow> int" where
  "utc_ms y m d = (DayFromYear y + month_offset y m + (d - 1)) * 86400000"

text \<open>The first millisecond after a month.\<close>

definition month_end :: "int \<Rightarrow> int \<Rightarrow> int" where
  "month_end y m = (if m = 12 then utc_ms (y + 1) 1 1 else utc_ms y (m + 1) 1)"

section \<open>Oracle keys\<close>

definition rx_coord :: rx where
  "rx_coord = rx_seq [rx_opt (rx_lit ''-''), rx_plus (Cls is_digit),
     rx_opt (rx_seq [rx_lit ''.'', rx_plus (Cls is_digit)])]"

definition rx_month :: rx where
  "rx_month = Alt (rx_seq [rx_lit ''0'', rx_any ''123456789'']) (rx_seq [rx_lit ''1'', rx_any ''012''])"

definition rx_day :: rx where
  "rx_day = Alt (rx_seq [rx_lit ''0'', rx_any ''123456789''])
     (Alt (rx_seq [rx_any ''12'', Cls is_digit]) (rx_seq [rx_lit ''3'', rx_any ''01'']))"

definition RAINFALL_KEY :: rx where
  "RAINFALL_KEY = rx_seq [rx_lit ''rainfall:'', rx_coord, rx_lit '','', rx_coord,
     rx_lit '':20'', rx_rep 2 (Cls is_digit), rx_lit ''-'', rx_month]"

definition FLIGHT_KEY :: rx where
  "FLIGHT_KEY = rx_seq [rx_lit ''flight:'',
     rx_plus (Cls (\<lambda>c. is_digit c \<or> 65 \<le> (of_char c :: int) \<and> (of_char c :: int) \<le> 90)),
     rx_lit '':20'', rx_rep 2 (Cls is_digit), rx_lit ''-'', rx_month, rx_lit ''-'', rx_day]"

text \<open>The last \<open>n\<close> characters when they match after a colon: \<^verbatim>\<open>/:(...)$/\<close> for a
  group of fixed length.\<close>

definition match_suffix :: "nat \<Rightarrow> rx \<Rightarrow> string \<Rightarrow> string option" where
  "match_suffix n r s =
     (if n < length s \<and> s ! (length s - n - 1) = CHR '':'' \<and> rx_test r (drop (length s - n) s)
      then Some (drop (length s - n) s) else None)"

definition RX_YEAR_MONTH :: rx where
  "RX_YEAR_MONTH = rx_seq [rx_rep 4 (Cls is_digit), rx_lit ''-'', rx_month]"

definition RX_YEAR_MONTH_DAY :: rx where
  "RX_YEAR_MONTH_DAY = rx_seq [rx_rep 4 (Cls is_digit), rx_lit ''-'', rx_rep 2 (Cls is_digit),
     rx_lit ''-'', rx_rep 2 (Cls is_digit)]"

definition key_year :: "string \<Rightarrow> int" where
  "key_year d = digits_val (take 4 d)"

definition key_month :: "string \<Rightarrow> int" where
  "key_month d = digits_val (take 2 (drop 5 d))"

definition key_day :: "string \<Rightarrow> int" where
  "key_day d = digits_val (take 2 (drop 8 d))"

text \<open>The result is \<open>None\<close> for \<^verbatim>\<open>{ valid: true }\<close> and the reason otherwise. Keys
  of category \<^verbatim>\<open>flight\<close> have passed \<^verbatim>\<open>FLIGHT_KEY\<close> when their date is read, so the
  month is 1 to 12 and the day 1 to 31.\<close>

definition validateOracleKey ::
    "string \<Rightarrow> ProductSummary \<Rightarrow> (int \<times> int) option \<Rightarrow> string option" where
  "validateOracleKey oracleKey product period =
     (if ps_category product = ''crop'' \<and> \<not> rx_test RAINFALL_KEY oracleKey
      then Some ''oracleKey format must be rainfall:lat,lng:YYYY-MM for crop products''
      else if ps_category product = ''flight'' \<and> \<not> rx_test FLIGHT_KEY oracleKey
      then Some ''oracleKey format must be flight:flightNumber:YYYY-MM-DD for flight products''
      else case period of None \<Rightarrow> None
      | Some (startTime, endTime) \<Rightarrow>
          (if ps_category product = ''crop'' then
             (case match_suffix 7 RX_YEAR_MONTH oracleKey of None \<Rightarrow> None
              | Some keyMonth \<Rightarrow>
                  let y = key_year keyMonth; m = key_month keyMonth;
                      monthStart = utc_ms y m 1;
                      monthEnd = month_end y m in
                  if endTime \<le> monthStart \<or> startTime \<ge> monthEnd
                  then Some ''oracleKey month does not overlap with the policy coverage period''
                  else None)
           else if ps_category product = ''flight'' then
             (case match_suffix 10 RX_YEAR_MONTH_DAY oracleKey of None \<Rightarrow> None
              | Some d \<Rightarrow>
                  let keyDate = utc_ms (key_year d) (key_month d) (key_day d) in
                  if keyDate < startTime \<or> keyDate > endTime
                  then Some ''oracleKey date falls outside the policy coverage period''
                  else None)
           else None))"

section \<open>Coverage bounds\<close>

text \<open>\<^verbatim>\<open>BigInt\<close> of a text: blank is zero, otherwise an optional sign and digits (the
  hexadecimal, octal and binary forms do not occur in the text of a decimal).\<close>

definition BigInt_str :: "string \<Rightarrow> int outcome" where
  "BigInt_str s = (let t = trim s; (sg, ds) = take_sign t in
     if t = [] then Inr 0
     else if ds \<noteq> [] \<and> list_all is_digit ds then Inr (signed_val t)
     else Inl (PlainError ''SyntaxError''))"

definition BigInt_num :: "jsnum \<Rightarrow> int outcome" where
  "BigInt_num x = (if is_integer x then Inr (num_int x) else Inl (PlainError ''RangeError''))"

text \<open>\<^verbatim>\<open>s.split('.')[0] || '0'\<close>\<close>

definition whole_part :: "string \<Rightarrow> string" where
  "whole_part s = (let p = takeWhile (\<lambda>c. c \<noteq> CHR ''.'') s in if p = [] then ''0'' else p)"

section \<open>Refund\<close>

definition calculateProRatedRefund :: "int \<Rightarrow> int \<Rightarrow> int \<Rightarrow> int \<Rightarrow> string" where
  "calculateProRatedRefund premiumStroops startTime endTime now =
     (let totalMs = endTime - startTime in
      if totalMs \<le> 0 then formatStroops 0
      else let remaining = max 0 (endTime - now);
               remainingMs = (if remaining > totalMs then totalMs else remaining)
           in formatStroops ((premiumStroops * remainingMs) sdiv totalMs))"

text \<open>The refund in stroops that the text of \<^const>\<open>calculateProRatedRefund\<close> spells.\<close>

definition refund_stroops :: "int \<Rightarrow> int \<Rightarrow> int \<Rightarrow> int \<Rightarrow> int" where
  "refund_stroops premium startTime endTime now =
     \<lfloor>of_int premium * of_int (min (endTime - startTime) (max 0 (endTime - now)))
       / (of_int (endTime - startTime) :: rat)\<rfloor>"

section \<open>Summaries\<close>

definition mapProduct :: "(int \<Rightarrow> string) \<Rightarrow> Product \<Rightarrow> ProductSummary" where
  "mapProduct decStr p = \<lparr>
     ps_id = pr_id p, ps_name = pr_name p, ps_category = pr_category p,
     ps_triggerType = pr_triggerType p, ps_threshold = decStr (pr_threshold p),
     ps_comparison = pr_comparison p, ps_coverageMin = decStr (pr_coverageMin p),
     ps_coverageMax = decStr (pr_coverageMax p), ps_premiumRate = pr_premiumRate p,
     ps_premiumRateVersion = pr_premiumRateVersion p, ps_maxDuration = pr_maxDuration p,
     ps_status = pr_status p\<rparr>"

record PolicySummary =
  sm_id :: string
  sm_productId :: string
  sm_policyholder :: string
  sm_coverage :: string
  sm_premiumPaid :: string
  sm_oracleKey :: string
  sm_startTime :: int
  sm_endTime :: int
  sm_status :: string
  sm_claimsCount :: int

definition claims_count :: "world \<Rightarrow> string \<Rightarrow> int" where
  "claims_count w pid = int (length (filter (\<lambda>c. c_policyId c = pid) (claims w)))"

definition policySummary :: "(int \<Rightarrow> string) \<Rightarrow> Policy \<Rightarrow> int \<Rightarrow> PolicySummary" where
  "policySummary decStr p n = \<lparr>
     sm_id = p_id p, sm_productId = p_productId p, sm_policyholder = p_policyholder p,
     sm_coverage = decStr (p_coverageXlm p), sm_premiumPaid = decStr (p_premiumPaid p),
     sm_oracleKey = p_oracleKey p, sm_startTime = p_startTime p div 1000,
     sm_endTime = p_endTime p div 1000, sm_status = status_str (p_status p), sm_claimsCount = n\<rparr>"

text \<open>A sample product of a category, used by the witnesses.\<close>

definition sample_product :: "string \<Rightarrow> ProductSummary" where
  "sample_product category = \<lparr>
     ps_id = ''1'', ps_name = ''Cover'', ps_category = category, ps_triggerType = ''Rainfall'',
     ps_threshold = ''50'', ps_comparison = ''LessThan'', ps_coverageMin = ''10'',
     ps_coverageMax = ''1000'', ps_premiumRate = 500, ps_premiumRateVersion = 1,
     ps_maxDuration = 90, ps_status = PR_ACTIVE\<rparr>"

section \<open>The premium is the rounded-up pro-rata price\<close>

lemma int_between_js_int [simp]: "int_between lo hi (js_int n) \<longleftrightarrow> lo \<le> n \<and> n \<le> hi"
  by (auto simp: int_between_def)

lemma int_between_cases:
  assumes "int_between lo hi x"
  obtains n where "x = js_int n" and "lo \<le> n" and "n \<le> hi"
  using assms is_integer_cases [of x] int_between_js_int by (metis int_between_def)

lemma sdiv_pos: "0 \<le> (a :: int) \<Longrightarrow> 0 < b \<Longrightarrow> a sdiv b = a div b"
  by (simp add: signed_divide_int_def sgn_if)

lemma smod_pos: "0 \<le> (a :: int) \<Longrightarrow> 0 < b \<Longrightarrow> a smod b = a mod b"
  by (cases "a = 0") (simp_all add: signed_modulo_int_def sgn_if)

lemma ceiling_div: "0 < (b :: int) \<Longrightarrow>
    \<lceil>of_int a / (of_int b :: rat)\<rceil> = (if a mod b > 0 then a div b + 1 else a div b)"
  using pos_mod_sign [of b a]
  by (simp add: ceiling_divide_eq_div zdiv_zminus1_eq_if order_less_le)

lemma calculatePremium_int:
  assumes "1 \<le> c" "c \<le> MAX_PREMIUM_COVERAGE_XLM" "1 \<le> r" "r \<le> MAX_PREMIUM_RATE_BPS"
    "1 \<le> d" "d \<le> MAX_PREMIUM_DURATION_DAYS"
  shows "calculatePremium (js_int c) (js_int r) (js_int d) = Inr \<lceil>of_int (c * r * d) / (300000 :: rat)\<rceil>"
proof -
  have "0 \<le> c * r * d" using assms by simp
  then show ?thesis
    using assms ceiling_div [of 300000 "c * r * d"]
    by (simp add: calculatePremium_def Let_def sdiv_pos smod_pos)
qed

lemma premium_price_bounds:
  assumes "1 \<le> (c :: int)" "c \<le> MAX_PREMIUM_COVERAGE_XLM" "1 \<le> r" "r \<le> MAX_PREMIUM_RATE_BPS"
    "1 \<le> d" "d \<le> MAX_PREMIUM_DURATION_DAYS"
  shows "1 \<le> \<lceil>of_int (c * r * d) / (300000 :: rat)\<rceil>"
    and "\<lceil>of_int (c * r * d) / (300000 :: rat)\<rceil> \<le> 12166666667"
proof -
  have "1 * 1 * 1 \<le> c * r * d" using assms by (intro mult_mono) simp_all
  then have "0 < (of_int (c * r * d) :: rat)" by (simp only: of_int_0_less_iff)
  then have "0 < of_int (c * r * d) / (300000 :: rat)" by (simp only: zero_less_divide_iff) simp
  then show "1 \<le> \<lceil>of_int (c * r * d) / (300000 :: rat)\<rceil>"
    by (simp only: one_le_ceiling)
  have "c * r * d \<le> 1000000000 * 10000 * 365"
    using assms unfolding MAX_PREMIUM_COVERAGE_XLM_def MAX_PREMIUM_RATE_BPS_def MAX_PREMIUM_DURATION_DAYS_def
    by (intro mult_mono) simp_all
  then have "c * r * d \<le> 3650000000000000" by simp
  then have "(of_int (c * r * d) :: rat) \<le> of_int 3650000000000000" by (simp only: of_int_le_iff)
  then have "of_int (c * r * d) / (300000 :: rat) \<le> 12166666667"
    by (simp only: divide_le_eq) simp
  then show "\<lceil>of_int (c * r * d) / (300000 :: rat)\<rceil> \<le> 12166666667"
    by (simp add: ceiling_le_iff)
qed

text \<open>
  C22. The premium is the exact price rounded up: for whole coverage, rate and duration within
  their bounds \<^verbatim>\<open>calculatePremium\<close> returns the least integer that is not below
  \<open>coverage * rate * duration / 300000\<close>, never zero and always far inside the integers a Number
  represents exactly; every other input (fractions, out-of-range values, infinities and
  not-a-number) is rejected.
\<close>

theorem calculatePremium_spec:
  "let accepted = int_between 1 MAX_PREMIUM_COVERAGE_XLM cov \<and> int_between 1 MAX_PREMIUM_RATE_BPS rate
                    \<and> int_between 1 MAX_PREMIUM_DURATION_DAYS dur
   in case calculatePremium cov rate dur of
        Inr p \<Rightarrow> accepted \<and> 1 \<le> p \<and> p < 2 ^ 53
          \<and> p = \<lceil>of_int (num_int cov * num_int rate * num_int dur) / (300000 :: rat)\<rceil>
      | Inl x \<Rightarrow> \<not> accepted \<and> x \<in> range BadRequestException"
proof (cases "int_between 1 MAX_PREMIUM_COVERAGE_XLM cov \<and> int_between 1 MAX_PREMIUM_RATE_BPS rate
                \<and> int_between 1 MAX_PREMIUM_DURATION_DAYS dur")
  case True
  then obtain c r d where "cov = js_int c" "rate = js_int r" "dur = js_int d"
    and b: "1 \<le> c" "c \<le> MAX_PREMIUM_COVERAGE_XLM" "1 \<le> r" "r \<le> MAX_PREMIUM_RATE_BPS"
      "1 \<le> d" "d \<le> MAX_PREMIUM_DURATION_DAYS"
    by (metis int_between_cases)
  with calculatePremium_int [OF b] premium_price_bounds [OF b] show ?thesis
    by (simp add: Let_def)
next
  case False
  then show ?thesis by (auto simp: calculatePremium_def Let_def)
qed

section \<open>Refunds\<close>

lemma refund_div:
  "refund_stroops premium a b now = premium * min (b - a) (max 0 (b - now)) div (b - a)"
  unfolding refund_stroops_def by (metis floor_divide_of_int_eq of_int_mult)

lemma calculateProRatedRefund_stroops:
  assumes "startTime < endTime" and "0 \<le> premium"
  shows "calculateProRatedRefund premium startTime endTime now =
    formatStroops (refund_stroops premium startTime endTime now)"
proof -
  let ?r = "min (endTime - startTime) (max 0 (endTime - now))"
  have "(if max 0 (endTime - now) > endTime - startTime then endTime - startTime
         else max 0 (endTime - now)) = ?r" by (auto simp: min_def)
  moreover have "0 \<le> premium * ?r" using assms by simp
  ultimately show ?thesis
    using assms by (simp only: calculateProRatedRefund_def refund_div Let_def) (simp add: sdiv_pos)
qed

text \<open>
  C23. A refund is never more than what was paid: for a positive coverage period it is the premium
  times the unused fraction of the period, rounded down to the stroop, so it lies between zero and
  the premium, is the whole premium up to the start, zero from the end on, and never grows as time
  passes.
\<close>

theorem refund_bounds:
  assumes "startTime < endTime" and "0 \<le> premium"
  shows "calculateProRatedRefund premium startTime endTime now =
           formatStroops (refund_stroops premium startTime endTime now)
     \<and> 0 \<le> refund_stroops premium startTime endTime now
     \<and> refund_stroops premium startTime endTime now \<le> premium
     \<and> (now \<le> startTime \<longrightarrow> refund_stroops premium startTime endTime now = premium)
     \<and> (endTime \<le> now \<longrightarrow> refund_stroops premium startTime endTime now = 0)
     \<and> (now \<le> later \<longrightarrow> refund_stroops premium startTime endTime later
                          \<le> refund_stroops premium startTime endTime now)"
proof (intro conjI impI)
  let ?T = "endTime - startTime" and ?r = "\<lambda>t. min (endTime - startTime) (max 0 (endTime - t))"
  show "calculateProRatedRefund premium startTime endTime now =
           formatStroops (refund_stroops premium startTime endTime now)"
    using assms by (rule calculateProRatedRefund_stroops)
  show "0 \<le> refund_stroops premium startTime endTime now"
    using assms by (simp add: refund_div pos_imp_zdiv_nonneg_iff)
  have "premium * ?r now \<le> premium * ?T" using assms by (intro mult_left_mono) auto
  then have "premium * ?r now div ?T \<le> premium * ?T div ?T" using assms by (intro zdiv_mono1) auto
  then show "refund_stroops premium startTime endTime now \<le> premium" using assms by (simp add: refund_div)
  show "refund_stroops premium startTime endTime now = premium" if "now \<le> startTime"
    using that assms by (simp add: refund_div min_def max_def)
  show "refund_stroops premium startTime endTime now = 0" if "endTime \<le> now"
    using that assms by (simp add: refund_div min_def max_def)
  show "refund_stroops premium startTime endTime later \<le> refund_stroops premium startTime endTime now"
    if "now \<le> later"
    unfolding refund_div using assms that by (intro zdiv_mono1 mult_left_mono) auto
qed

theorem refund_bounds_witness:
  "calculateProRatedRefund 70000001 0 86400000 43200000 =
     formatStroops (refund_stroops 70000001 0 86400000 43200000)
   \<and> refund_stroops 70000001 0 86400000 43200000 \<le> 70000001
   \<and> refund_stroops 70000001 0 86400000 90000000 \<le> refund_stroops 70000001 0 86400000 43200000"
  using refund_bounds [of 0 86400000 70000001 43200000 90000000] by simp

section \<open>Oracle keys name the insured period\<close>

lemma rx_lang_lit_any: "u \<in> rx_lang (rx_seq [rx_lit [a], rx_any cs]) \<longleftrightarrow> (\<exists>c \<in> set cs. u = [a, c])"
  by (auto simp: rx_lang_any)

lemma rx_lang_any_Cls:
  "u \<in> rx_lang (rx_seq [rx_any bs, Cls p]) \<longleftrightarrow> (\<exists>b \<in> set bs. \<exists>c. p c \<and> u = [b, c])"
  by (auto simp: rx_lang_any) (metis append_Cons append_Nil)

lemma rx_lang_Alt: "u \<in> rx_lang (Alt q r) \<longleftrightarrow> u \<in> rx_lang q \<or> u \<in> rx_lang r"
  by simp

lemma rx_month_value:
  assumes "u \<in> rx_lang rx_month"
  shows "length u = 2 \<and> list_all is_digit u \<and> 1 \<le> digits_val u \<and> digits_val u \<le> 12"
proof -
  from assms consider c where "c \<in> set ''123456789''" "u = [CHR ''0'', c]"
    | c where "c \<in> set ''012''" "u = [CHR ''1'', c]"
    unfolding rx_month_def rx_lang_Alt rx_lang_lit_any by blast
  then show ?thesis
    by cases (auto simp: digits_val_def digit_val_def is_digit_def)
qed

lemma rx_day_value:
  assumes "u \<in> rx_lang rx_day"
  shows "length u = 2 \<and> list_all is_digit u \<and> 1 \<le> digits_val u \<and> digits_val u \<le> 31"
proof -
  from assms consider c where "c \<in> set ''123456789''" "u = [CHR ''0'', c]"
    | c b where "is_digit c" "b \<in> set ''12''" "u = [b, c]"
    | c where "c \<in> set ''01''" "u = [CHR ''3'', c]"
    unfolding rx_day_def rx_lang_Alt rx_lang_lit_any rx_lang_any_Cls by blast
  then show ?thesis
  proof cases
    case (2 c b)
    with digit_val_range [of c] show ?thesis
      by (auto simp: digits_val_def digit_val_def [of "CHR ''1''"] digit_val_def [of "CHR ''2''"] is_digit_def [of "CHR ''1''"] is_digit_def [of "CHR ''2''"])
  qed (auto simp: digits_val_def digit_val_def is_digit_def)
qed

lemma rainfall_key_month:
  assumes "rx_test RAINFALL_KEY key"
  shows "\<exists>pre d. key = pre @ CHR '':'' # d \<and> length d = 7 \<and> rx_test RX_YEAR_MONTH d
     \<and> 1 \<le> key_month d \<and> key_month d \<le> 12"
proof -
  from assms obtain us where key: "key = concat us" and
    us: "list_all2 (\<lambda>u r. u \<in> rx_lang r) us [rx_lit ''rainfall:'', rx_coord, rx_lit '','', rx_coord,
     rx_lit '':20'', rx_rep 2 (Cls is_digit), rx_lit ''-'', rx_month]"
    unfolding rx_test_lang RAINFALL_KEY_def rx_lang_seq_iff by blast
  then obtain lat lng yy mm where u: "us = [''rainfall:'', lat, '','', lng, '':20'', yy, ''-'', mm]"
    and yy: "length yy = 2" "list_all is_digit yy" and mm: "mm \<in> rx_lang rx_month"
    by (auto simp: list_all2_Cons2 rx_lang_rep_Cls)
  let ?d = "''20'' @ yy @ ''-'' @ mm"
  have "key = (''rainfall:'' @ lat @ '','' @ lng) @ CHR '':'' # ?d" by (simp add: key u)
  moreover have "length ?d = 7" using yy rx_month_value [OF mm] by simp
  moreover have "rx_test RX_YEAR_MONTH ?d"
    unfolding rx_test_lang RX_YEAR_MONTH_def rx_lang_seq_iff
    using yy mm by (intro exI [of _ "[''20'' @ yy, ''-'', mm]"])
      (simp add: rx_lang_rep_Cls is_digit_def)
  moreover have "key_month ?d = digits_val mm"
    using yy rx_month_value [OF mm] by (simp add: key_month_def drop_Cons' numeral_eq_Suc)
  ultimately show ?thesis using rx_month_value [OF mm] by metis
qed

lemma flight_key_date:
  assumes "rx_test FLIGHT_KEY key"
  shows "\<exists>pre d. key = pre @ CHR '':'' # d \<and> length d = 10 \<and> rx_test RX_YEAR_MONTH_DAY d
     \<and> 1 \<le> key_month d \<and> key_month d \<le> 12 \<and> 1 \<le> key_day d \<and> key_day d \<le> 31"
proof -
  from assms obtain us where key: "key = concat us" and
    us: "list_all2 (\<lambda>u r. u \<in> rx_lang r) us [rx_lit ''flight:'',
     rx_plus (Cls (\<lambda>c. is_digit c \<or> 65 \<le> (of_char c :: int) \<and> (of_char c :: int) \<le> 90)),
     rx_lit '':20'', rx_rep 2 (Cls is_digit), rx_lit ''-'', rx_month, rx_lit ''-'', rx_day]"
    unfolding rx_test_lang FLIGHT_KEY_def rx_lang_seq_iff by blast
  then obtain fl yy mm dd where u: "us = [''flight:'', fl, '':20'', yy, ''-'', mm, ''-'', dd]"
    and yy: "length yy = 2" "list_all is_digit yy" and mm: "mm \<in> rx_lang rx_month"
    and dd: "dd \<in> rx_lang rx_day"
    by (auto simp: list_all2_Cons2 rx_lang_rep_Cls)
  let ?d = "''20'' @ yy @ ''-'' @ mm @ ''-'' @ dd"
  have "key = (''flight:'' @ fl) @ CHR '':'' # ?d" by (simp add: key u)
  moreover have "length ?d = 10" using yy rx_month_value [OF mm] rx_day_value [OF dd] by simp
  moreover have "rx_test RX_YEAR_MONTH_DAY ?d"
    unfolding rx_test_lang RX_YEAR_MONTH_DAY_def rx_lang_seq_iff
    using yy rx_month_value [OF mm] rx_day_value [OF dd]
    by (intro exI [of _ "[''20'' @ yy, ''-'', mm, ''-'', dd]"]) (simp add: rx_lang_rep_Cls is_digit_def)
  moreover have "key_month ?d = digits_val mm" "key_day ?d = digits_val dd"
    using yy rx_month_value [OF mm] rx_day_value [OF dd]
    by (simp_all add: key_month_def key_day_def drop_Cons' numeral_eq_Suc)
  ultimately show ?thesis using rx_month_value [OF mm] rx_day_value [OF dd] by metis
qed

lemma match_suffix_append:
  "length d = n \<Longrightarrow> rx_test r d \<Longrightarrow> match_suffix n r (pre @ CHR '':'' # d) = Some d"
  by (simp add: match_suffix_def nth_append)

lemma div_step: "0 < (b :: int) \<Longrightarrow> (a + 1) div b = a div b + (if (a + 1) mod b = 0 then 1 else 0)"
proof -
  assume b: "0 < b"
  show ?thesis
  proof (cases "(a + 1) mod b = 0")
    case True
    then obtain k where k: "a + 1 = b * k" by (auto elim: dvdE simp: mod_eq_0_iff_dvd)
    then have "a = b * (k - 1) + (b - 1)" by (simp add: algebra_simps)
    then have "a div b = k - 1" using b by (metis add.commute div_mult_self2 div_pos_pos_trivial
      less_irrefl add_0 zero_le_one diff_ge_0_iff_ge diff_less_eq int_one_le_iff_zero_less less_add_one)
    then show ?thesis using k b True by simp
  next
    case False
    have "a + 1 = b * ((a + 1) div b) + (a + 1) mod b" by simp
    then have "a = b * ((a + 1) div b) + ((a + 1) mod b - 1)" by linarith
    moreover have "0 \<le> (a + 1) mod b - 1" "(a + 1) mod b - 1 < b"
      using False b pos_mod_sign [of b "a + 1"] pos_mod_bound [of b "a + 1"] by linarith+
    ultimately have "a div b = (a + 1) div b"
      by (metis add.commute add_0 b div_mult_self2 div_pos_pos_trivial less_irrefl)
    then show ?thesis using False by simp
  qed
qed

lemma leap_count:
  fixes a b c :: int
  assumes "a' = a + (if p then 1 else 0)" "b' = b + (if q then 1 else 0)" "c' = c + (if r then 1 else 0)"
    "q \<longrightarrow> p" "r \<longrightarrow> q"
  shows "365 * (y + 1 - 1970) + a' - b' + c' =
    365 * (y - 1970) + a - b + c + 365 + (if p \<and> (\<not> q \<or> r) then 1 else 0)"
  unfolding assms(1-3) using assms(4,5) by (cases p; cases q; cases r) (simp_all add: algebra_simps)

lemma DayFromYear_step: "DayFromYear (y + 1) = DayFromYear y + 365 + (if leap y then 1 else 0)"
proof -
  have m: "(y - 1968) mod 4 = 0 \<longleftrightarrow> y mod 4 = 0" "(y - 1900) mod 100 = 0 \<longleftrightarrow> y mod 100 = 0"
    "(y - 1600) mod 400 = 0 \<longleftrightarrow> y mod 400 = 0"
    using dvd_diff_left_iff [of 4 1968 y] dvd_diff_left_iff [of 100 1900 y]
      dvd_diff_left_iff [of 400 1600 y] by (simp_all add: mod_eq_0_iff_dvd)
  have imp: "y mod 100 = 0 \<longrightarrow> y mod 4 = 0" "y mod 400 = 0 \<longrightarrow> y mod 100 = 0"
    using dvd_trans [of 4 100 y] dvd_trans [of 100 400 y] by (simp_all add: mod_eq_0_iff_dvd)
  have e: "y - 1969 + 1 = y - 1968" "y - 1901 + 1 = y - 1900" "y - 1601 + 1 = y - 1600"
    "y + 1 - 1969 = y - 1968" "y + 1 - 1901 = y - 1900" "y + 1 - 1601 = y - 1600" by simp_all
  have "(y - 1968) div 4 = (y - 1969) div 4 + (if y mod 4 = 0 then 1 else 0)"
    "(y - 1900) div 100 = (y - 1901) div 100 + (if y mod 100 = 0 then 1 else 0)"
    "(y - 1600) div 400 = (y - 1601) div 400 + (if y mod 400 = 0 then 1 else 0)"
    using div_step [of 4 "y - 1969"] div_step [of 100 "y - 1901"] div_step [of 400 "y - 1601"]
    by (simp_all only: e m)
  from leap_count [OF this imp] show ?thesis by (simp only: DayFromYear_def leap_def e)
qed

lemma month_offset_step:
  assumes "1 \<le> m" "m < 12"
  shows "28 \<le> month_offset y (m + 1) - month_offset y m \<and> month_offset y (m + 1) - month_offset y m \<le> 31"
proof -
  from assms have "m = 1 \<or> m = 2 \<or> m = 3 \<or> m = 4 \<or> m = 5 \<or> m = 6 \<or> m = 7 \<or> m = 8 \<or> m = 9 \<or> m = 10
    \<or> m = 11" by arith
  then show ?thesis by (elim disjE) (simp_all add: month_offset_def)
qed

lemma month_end_after:
  assumes "1 \<le> m" "m \<le> 12"
  shows "utc_ms y m 28 < month_end y m \<and> month_end y m \<le> utc_ms y m 32"
proof (cases "m = 12")
  case True
  then show ?thesis
    by (simp add: month_end_def utc_ms_def DayFromYear_step month_offset_def)
next
  case False
  with assms month_offset_step [of m y] show ?thesis by (simp add: month_end_def utc_ms_def)
qed

text \<open>
  An accepted oracle key can only be settled by data of the insured period: a crop policy is
  accepted exactly when its key has the rainfall format and the named month meets the coverage
  window, a flight policy exactly when its key has the flight format and the named day lies in
  it. The period check is never skipped: every key of the right format carries a date.
\<close>

theorem validateOracleKey_period:
  "(ps_category product = ''crop'' \<longrightarrow>
      (validateOracleKey key product (Some (startTime, endTime)) = None \<longleftrightarrow>
       rx_test RAINFALL_KEY key \<and>
       (\<exists>pre d. key = pre @ CHR '':'' # d \<and> length d = 7 \<and> 1 \<le> key_month d \<and> key_month d \<le> 12
          \<and> utc_ms (key_year d) (key_month d) 1 < endTime
          \<and> startTime < month_end (key_year d) (key_month d))))
   \<and> (ps_category product = ''flight'' \<longrightarrow>
      (validateOracleKey key product (Some (startTime, endTime)) = None \<longleftrightarrow>
       rx_test FLIGHT_KEY key \<and>
       (\<exists>pre d. key = pre @ CHR '':'' # d \<and> length d = 10
          \<and> startTime \<le> utc_ms (key_year d) (key_month d) (key_day d)
          \<and> utc_ms (key_year d) (key_month d) (key_day d) \<le> endTime)))"
proof (intro conjI impI)
  assume crop: "ps_category product = ''crop''"
  show "validateOracleKey key product (Some (startTime, endTime)) = None \<longleftrightarrow>
       rx_test RAINFALL_KEY key \<and>
       (\<exists>pre d. key = pre @ CHR '':'' # d \<and> length d = 7 \<and> 1 \<le> key_month d \<and> key_month d \<le> 12
          \<and> utc_ms (key_year d) (key_month d) 1 < endTime
          \<and> startTime < month_end (key_year d) (key_month d))"
  proof (cases "rx_test RAINFALL_KEY key")
    case True
    then obtain pre d where d: "key = pre @ CHR '':'' # d" "length d = 7" "rx_test RX_YEAR_MONTH d"
      "1 \<le> key_month d" "key_month d \<le> 12" using rainfall_key_month by blast
    have "validateOracleKey key product (Some (startTime, endTime)) = None \<longleftrightarrow>
        utc_ms (key_year d) (key_month d) 1 < endTime \<and> startTime < month_end (key_year d) (key_month d)"
      using True crop match_suffix_append [OF d(2,3), of pre]
      by (auto simp: validateOracleKey_def d(1) [symmetric] Let_def)
    with True d show ?thesis by (auto simp: append_eq_append_conv)
  qed (simp add: validateOracleKey_def crop)
next
  assume flight: "ps_category product = ''flight''"
  show "validateOracleKey key product (Some (startTime, endTime)) = None \<longleftrightarrow>
       rx_test FLIGHT_KEY key \<and>
       (\<exists>pre d. key = pre @ CHR '':'' # d \<and> length d = 10
          \<and> startTime \<le> utc_ms (key_year d) (key_month d) (key_day d)
          \<and> utc_ms (key_year d) (key_month d) (key_day d) \<le> endTime)"
  proof (cases "rx_test FLIGHT_KEY key")
    case True
    then obtain pre d where d: "key = pre @ CHR '':'' # d" "length d = 10" "rx_test RX_YEAR_MONTH_DAY d"
      using flight_key_date by blast
    have "validateOracleKey key product (Some (startTime, endTime)) = None \<longleftrightarrow>
        startTime \<le> utc_ms (key_year d) (key_month d) (key_day d)
        \<and> utc_ms (key_year d) (key_month d) (key_day d) \<le> endTime"
      using True flight match_suffix_append [OF d(2,3), of pre]
      by (auto simp: validateOracleKey_def d(1) [symmetric] Let_def)
    with True d show ?thesis by (auto simp: append_eq_append_conv)
  qed (simp add: validateOracleKey_def flight)
qed

theorem validateOracleKey_period_witness:
  "(\<exists>pre d. ''rainfall:-0.09,34.7:2026-06'' = pre @ CHR '':'' # d \<and> length d = 7
      \<and> utc_ms (key_year d) (key_month d) 1 < 1782864000000
      \<and> 1781000000000 < month_end (key_year d) (key_month d))
   \<and> validateOracleKey ''rainfall:-0.09,34.7:2026-06'' (sample_product ''crop'')
       (Some (1781000000000, 1782864000000)) = None
   \<and> validateOracleKey ''flight:KQ100:2026-07-01'' (sample_product ''flight'')
       (Some (1781000000000, 1782000000000)) \<noteq> None"
proof -
  have crop: "ps_category (sample_product ''crop'') = ''crop''" by (simp add: sample_product_def)
  have ok: "validateOracleKey ''rainfall:-0.09,34.7:2026-06'' (sample_product ''crop'')
       (Some (1781000000000, 1782864000000)) = None" by code_simp
  moreover have "validateOracleKey ''flight:KQ100:2026-07-01'' (sample_product ''flight'')
       (Some (1781000000000, 1782000000000)) \<noteq> None" by code_simp
  moreover note conjunct1 [OF validateOracleKey_period, THEN mp, OF crop, THEN iffD1, OF ok]
  ultimately show ?thesis by blast
qed

end
