(* ===== verification/Concurrency.thy ===== *)
theory Concurrency
  imports Store "HOL-Library.Sublist"
begin

text \<open>
  Rely/guarantee reasoning about actions. \<open>guarantees R m\<close> says that an action changes the
  world only within \<open>R\<close> as long as everybody else does; the locale \<open>world_order\<close> proves
  the rules for the combinators once for every preorder \<open>R\<close>. It is interpreted on \<open>evolves\<close>, the
  contract that every write of the system to policies, claims and logs keeps.
\<close>

section \<open>The contract of all writers\<close>

definition policy_evolves :: "Policy \<Rightarrow> Policy \<Rightarrow> bool" where
  "policy_evolves p q \<longleftrightarrow>
     p_id q = p_id p \<and> p_productId q = p_productId p \<and> p_policyholder q = p_policyholder p
     \<and> p_coverageXlm q = p_coverageXlm p \<and> p_premiumPaid q = p_premiumPaid p
     \<and> p_premiumRate q = p_premiumRate p \<and> p_premiumRateVersion q = p_premiumRateVersion p
     \<and> p_txHash q = p_txHash p
     \<and> p_version p \<le> p_version q
     \<and> (p_version p = p_version q \<longrightarrow> p_status p = p_status q)
     \<and> can_move\<^sup>*\<^sup>* (p_status p) (p_status q)"

definition claim_evolves :: "Claim \<Rightarrow> Claim \<Rightarrow> bool" where
  "claim_evolves c d \<longleftrightarrow>
     c_id d = c_id c \<and> c_policyId d = c_policyId c \<and> c_claimant d = c_claimant c
     \<and> c_coverageAmount d = c_coverageAmount c \<and> c_submittedAt d = c_submittedAt c"

definition evolves :: "world \<Rightarrow> world \<Rightarrow> bool" where
  "evolves w v \<longleftrightarrow>
     (\<forall>i p. policy_findUnique i w = Some p \<longrightarrow> (\<exists>q. policy_findUnique i v = Some q \<and> policy_evolves p q))
     \<and> (\<forall>i c. claim_findUnique i w = Some c \<longrightarrow> (\<exists>d. claim_findUnique i v = Some d \<and> claim_evolves c d))
     \<and> (policies_ok (policies w) \<longrightarrow> policies_ok (policies v))
     \<and> (claims_ok (claims w) \<longrightarrow> claims_ok (claims v))
     \<and> prefix (auditLogs w) (auditLogs v) \<and> prefix (outbox w) (outbox v)
     \<and> prefix (chainCalls w) (chainCalls v)"

section \<open>Runs that return\<close>

named_theorems returns \<open>when a combinator returns a value\<close>

text \<open>The context of a statement that runs at tick \<open>n\<close>.\<close>

definition tx_ctx :: "env \<Rightarrow> nat \<Rightarrow> ctx" where
  "tx_ctx e n = \<lparr>now_ms = e_clock e n, fresh_id = e_uuid e n\<rparr>"

lemma tx_ctx_simps [simp]: "now_ms (tx_ctx e n) = e_clock e n" "fresh_id (tx_ctx e n) = e_uuid e n"
  by (simp_all add: tx_ctx_def)

lemma ret_Inr [returns]: "ret x e s = (Inr y, s') \<longleftrightarrow> y = x \<and> s' = s"
  by (auto simp: ret_def)

lemma throw_Inr [returns]: "throw x e s = (Inr y, s') \<longleftrightarrow> False"
  by (simp add: throw_def)

lemma lift_Inr [returns]: "lift r e s = (Inr y, s') \<longleftrightarrow> r = Inr y \<and> s' = s"
  by (auto simp: lift_def)

lemma asks_Inr [returns]: "asks f e s = (Inr y, s') \<longleftrightarrow> y = f e \<and> s' = s"
  by (auto simp: asks_def)

lemma gets_Inr [returns]: "gets f e s = (Inr y, s') \<longleftrightarrow> y = f (snd s) \<and> s' = s"
  by (auto simp: gets_def)

lemma modify_Inr [returns]: "modify f e s = (Inr y, s') \<longleftrightarrow> s' = (fst s, f (snd s))"
  by (auto simp: modify_def)

lemma clock_Inr [returns]: "clock e s = (Inr y, s') \<longleftrightarrow> y = e_clock e (fst s) \<and> s' = (Suc (fst s), snd s)"
  by (auto simp: clock_def)

lemma bind_Inr [returns]:
  "bind m f e s = (Inr y, s') \<longleftrightarrow> (\<exists>x s1. m e s = (Inr x, s1) \<and> f x e s1 = (Inr y, s'))"
  by (auto simp: bind_def split: prod.splits sum.splits)

lemma catch_throw_Inr [returns]:
  "catch m (\<lambda>x. throw (g x)) e s = (Inr y, s') \<longleftrightarrow> m e s = (Inr y, s')"
  by (auto simp: catch_def throw_def split: prod.splits sum.splits)

lemma catch_Inr:
  "catch m h e s = (Inr y, s') \<longleftrightarrow> m e s = (Inr y, s') \<or> (\<exists>x s1. m e s = (Inl x, s1) \<and> h x e s1 = (Inr y, s'))"
  by (auto simp: catch_def split: prod.splits sum.splits)

lemma call_Inr [returns]:
  "call f e s = (Inr y, s') \<longleftrightarrow> f e (fst s) = Inr y \<and> s' = (Suc (fst s), e_rely e (fst s) (snd s))"
  by (auto simp: call_def)

lemma db_Inr [returns]:
  "db st e s = (Inr y, s') \<longleftrightarrow> e_dbfail e (fst s) = None \<and> fst s' = Suc (fst s)
     \<and> st (tx_ctx e (fst s)) (e_rely e (fst s) (snd s)) = (Inr y, snd s')"
  by (auto simp: db_def Let_def tx_ctx_def split: option.splits prod.splits sum.splits)
    (metis prod.collapse sum.distinct(1))+

lemma s_query_Inr [returns]: "s_query f c w = (Inr y, w') \<longleftrightarrow> y = f w \<and> w' = w"
  by (auto simp: s_query_def)

lemma s_ret_Inr [returns]: "s_ret x c w = (Inr y, w') \<longleftrightarrow> y = x \<and> w' = w"
  by (auto simp: s_ret_def)

lemma s_throw_Inr [returns]: "s_throw x c w = (Inr y, w') \<longleftrightarrow> False"
  by (simp add: s_throw_def)

lemma s_bind_Inr [returns]:
  "s_bind m f c w = (Inr y, w') \<longleftrightarrow> (\<exists>x v. m c w = (Inr x, v) \<and> f x c v = (Inr y, w'))"
  by (auto simp: s_bind_def split: prod.splits sum.splits)

lemma case_None_throw [returns]:
  "(case opt of None \<Rightarrow> throw x | Some y \<Rightarrow> f y) e s = (Inr r, s') \<longleftrightarrow> (\<exists>y. opt = Some y \<and> f y e s = (Inr r, s'))"
  by (auto simp: throw_def split: option.splits)

lemma case_Some_throw [returns]:
  "(case opt of None \<Rightarrow> m | Some y \<Rightarrow> throw (x y)) e s = (Inr r, s') \<longleftrightarrow> opt = None \<and> m e s = (Inr r, s')"
  by (auto simp: throw_def split: option.splits)

lemma if_throw [returns]:
  "(if c then throw x else m) e s = (Inr r, s') \<longleftrightarrow> \<not> c \<and> m e s = (Inr r, s')"
  by (auto simp: throw_def)

section \<open>Guarantees\<close>

definition guarantees :: "(world \<Rightarrow> world \<Rightarrow> bool) \<Rightarrow> 'a act \<Rightarrow> bool" where
  "guarantees R m \<longleftrightarrow>
     (\<forall>e s. (\<forall>n w. R w (e_rely e n w)) \<longrightarrow> R (snd s) (snd (snd (m e s))))"

definition stmt_within :: "(world \<Rightarrow> world \<Rightarrow> bool) \<Rightarrow> 'a stmt \<Rightarrow> bool" where
  "stmt_within R st \<longleftrightarrow> (\<forall>c w x w'. st c w = (Inr x, w') \<longrightarrow> R w w')"

named_theorems guarantee_rules \<open>rules that establish guarantees of actions\<close>

lemma guaranteesD: "guarantees R m \<Longrightarrow> (\<And>n w. R w (e_rely e n w)) \<Longrightarrow> m e (n, w) = (r, (n', w')) \<Longrightarrow> R w w'"
  unfolding guarantees_def by (metis snd_conv)

locale world_order =
  fixes R :: "world \<Rightarrow> world \<Rightarrow> bool"
  assumes R_refl: "R w w"
    and R_trans: "R u v \<Longrightarrow> R v w \<Longrightarrow> R u w"
begin

lemma guar_ret: "guarantees R (ret x)"
  by (simp add: guarantees_def ret_def R_refl)

lemma guar_throw: "guarantees R (throw x)"
  by (simp add: guarantees_def throw_def R_refl)

lemma guar_asks: "guarantees R (asks f)"
  by (simp add: guarantees_def asks_def R_refl)

lemma guar_lift: "guarantees R (lift r)"
  by (simp add: guarantees_def lift_def R_refl)

lemma guar_call: "guarantees R (call f)"
  by (simp add: guarantees_def call_def)

lemma guar_gets: "guarantees R (gets f)"
  by (simp add: guarantees_def gets_def R_refl)

lemma guar_clock: "guarantees R clock"
  by (simp add: guarantees_def clock_def R_refl)

lemma guar_await: "guarantees R await"
  by (simp add: guarantees_def await_def)

lemma guar_modify: "(\<And>w. R w (f w)) \<Longrightarrow> guarantees R (modify f)"
  by (simp add: guarantees_def modify_def)

lemma guar_bind: "guarantees R m \<Longrightarrow> (\<And>x. guarantees R (f x)) \<Longrightarrow> guarantees R (bind m f)"
  unfolding guarantees_def bind_def
  by (auto split: prod.splits sum.splits) (metis R_trans snd_conv)+

lemma guar_catch: "guarantees R m \<Longrightarrow> (\<And>x. guarantees R (h x)) \<Longrightarrow> guarantees R (catch m h)"
  unfolding guarantees_def catch_def
  by (auto split: prod.splits sum.splits) (metis R_trans snd_conv)+

lemma guar_db: "stmt_within R st \<Longrightarrow> guarantees R (db st)"
  unfolding guarantees_def db_def stmt_within_def
  by (auto simp: Let_def split: option.splits prod.splits sum.splits) (metis R_trans)

lemma guar_retry: "guarantees R run \<Longrightarrow> guarantees R (retry_from k run)"
proof (induction k run rule: retry_from.induct)
  case (1 k run)
  show ?case
    unfolding retry_from.simps [of k run]
    using 1 by (auto intro!: guar_catch guar_bind guar_throw guar_await)
qed

lemma guar_financialTransaction: "stmt_within R st \<Longrightarrow> guarantees R (financialTransaction st)"
  by (simp add: financialTransaction_def withSerializationRetry_def guar_retry guar_db)

lemma guar_financialBatch: "stmt_within R st \<Longrightarrow> guarantees R (financialBatch st)"
  by (simp add: financialBatch_def withSerializationRetry_def guar_retry guar_db)

lemma within_ret: "stmt_within R (s_ret x)"
  by (simp add: stmt_within_def s_ret_def R_refl)

lemma within_throw: "stmt_within R (s_throw x)"
  by (simp add: stmt_within_def s_throw_def)

lemma within_query: "stmt_within R (s_query f)"
  by (simp add: stmt_within_def s_query_def R_refl)

lemma within_bind: "stmt_within R m \<Longrightarrow> (\<And>x. stmt_within R (f x)) \<Longrightarrow> stmt_within R (s_bind m f)"
  unfolding stmt_within_def s_bind_def by (auto split: prod.splits sum.splits) (metis R_trans)

lemmas guar = guar_lift guar_call guar_ret guar_throw guar_asks guar_gets guar_clock guar_await guar_bind guar_catch
  guar_db guar_financialTransaction guar_financialBatch within_ret within_throw within_query
  within_bind

end

section \<open>The contract is a preorder\<close>

lemma policy_evolves_refl [simp]: "policy_evolves p p"
  by (simp add: policy_evolves_def)

lemma policy_evolves_trans: "policy_evolves p q \<Longrightarrow> policy_evolves q r \<Longrightarrow> policy_evolves p r"
  unfolding policy_evolves_def by (auto intro: rtranclp_trans)

lemma claim_evolves_refl [simp]: "claim_evolves c c"
  by (simp add: claim_evolves_def)

lemma claim_evolves_trans: "claim_evolves c d \<Longrightarrow> claim_evolves d b \<Longrightarrow> claim_evolves c b"
  by (simp add: claim_evolves_def)

lemma evolves_refl [simp]: "evolves w w"
  by (simp add: evolves_def)

lemma evolves_trans:
  assumes "evolves u v" and "evolves v w"
  shows "evolves u w"
proof -
  have "\<exists>q. policy_findUnique i w = Some q \<and> policy_evolves p q" if "policy_findUnique i u = Some p" for i p
    using assms that unfolding evolves_def by (meson policy_evolves_trans)
  moreover have "\<exists>q. claim_findUnique i w = Some q \<and> claim_evolves p q" if "claim_findUnique i u = Some p" for i p
    using assms that unfolding evolves_def by (meson claim_evolves_trans)
  ultimately show ?thesis
    using assms unfolding evolves_def by (auto intro: prefix_order.trans)
qed

interpretation ev: world_order evolves
  by unfold_locales (auto intro: evolves_trans)

lemma evolves_policy:
  assumes "evolves w v" and "policy_findUnique i w = Some p"
  obtains q where "policy_findUnique i v = Some q" and "policy_evolves p q"
  using assms unfolding evolves_def by blast

lemma evolves_terminal:
  assumes "evolves w v" "policy_findUnique i w = Some p" "terminal (p_status p)"
  obtains q where "policy_findUnique i v = Some q" "p_status q = p_status p"
proof -
  from assms(1,2) obtain q where q: "policy_findUnique i v = Some q" "policy_evolves p q" by (rule evolves_policy)
  then have "p_status q = p_status p" using moves_terminal assms(3) by (auto simp: policy_evolves_def)
  with q show thesis by (intro that)
qed

lemma evolves_outbox: "evolves v (v\<lparr>outbox := outbox v @ l\<rparr>)"
  by (simp add: evolves_def policy_findUnique_def claim_findUnique_def)

section \<open>Statements that keep the contract\<close>

lemma find_map_if:
  "(\<And>r. P r \<Longrightarrow> f (g r) = f r) \<Longrightarrow>
   List.find (\<lambda>r. f r = k) (map (\<lambda>r. if P r then g r else r) xs) =
   map_option (\<lambda>r. if P r then g r else r) (List.find (\<lambda>r. f r = k) xs)"
  by (rule find_map_update) auto

lemma policy_evolves_touch [simp]: "policy_evolves p (q\<lparr>p_updatedAt := t\<rparr>) \<longleftrightarrow> policy_evolves p q"
  by (simp add: policy_evolves_def)

lemma within_policy_updateMany:
  assumes "\<And>r. P r \<Longrightarrow> policy_evolves r (f r)"
  shows "stmt_within evolves (policy_updateMany P f)"
  unfolding stmt_within_def policy_updateMany_def Let_def
proof (intro allI impI, split if_split_asm)
  fix c :: ctx and w w' :: world and x
  let ?g = "\<lambda>r. (f r)\<lparr>p_updatedAt := now_ms c\<rparr>"
  let ?ps = "map (\<lambda>r. if P r then ?g r else r) (policies w)"
  assume ok: "policies_ok ?ps"
    and "(Inr (length (filter P (policies w))), w\<lparr>policies := ?ps\<rparr>) = (Inr x, w')"
  then have w': "w' = w\<lparr>policies := ?ps\<rparr>" by simp
  have ids: "p_id (?g r) = p_id r" if "P r" for r
    using assms [OF that] by (simp add: policy_evolves_def)
  have "\<exists>q. policy_findUnique i w' = Some q \<and> policy_evolves p q"
    if "policy_findUnique i w = Some p" for i p
    using that ids assms unfolding w' policy_findUnique_def by (auto simp: find_map_if)
  then show "evolves w w'"
    using ok by (simp add: evolves_def w' claim_findUnique_def)
qed simp

lemma within_claim_updateMany:
  assumes "\<And>r. P r \<Longrightarrow> claim_evolves r (f r)"
  shows "stmt_within evolves (claim_updateMany P f)"
  unfolding stmt_within_def claim_updateMany_def Let_def
proof (intro allI impI, split if_split_asm)
  fix c :: ctx and w w' :: world and x
  let ?cs = "map (\<lambda>r. if P r then f r else r) (claims w)"
  assume ok: "claims_ok ?cs"
    and "(Inr (length (filter P (claims w))), w\<lparr>claims := ?cs\<rparr>) = (Inr x, w')"
  then have w': "w' = w\<lparr>claims := ?cs\<rparr>" by simp
  have ids: "c_id (f r) = c_id r" if "P r" for r
    using assms [OF that] by (simp add: claim_evolves_def)
  have "\<exists>q. claim_findUnique i w' = Some q \<and> claim_evolves p q"
    if "claim_findUnique i w = Some p" for i p
    using that ids assms unfolding w' claim_findUnique_def by (auto simp: find_map_if)
  then show "evolves w w'"
    using ok by (simp add: evolves_def w' policy_findUnique_def)
qed simp

lemma within_claim_update:
  "(\<And>r. claim_evolves r (f r)) \<Longrightarrow> stmt_within evolves (claim_update i f)"
  unfolding claim_update_def
  by (auto intro!: ev.within_bind within_claim_updateMany ev.within_ret ev.within_throw)

lemma within_claim_create: "stmt_within evolves (claim_create r)"
  by (auto simp: stmt_within_def claim_create_def Let_def evolves_def claim_findUnique_def
      policy_findUnique_def find_append split: if_splits)

lemma within_policy_create: "stmt_within evolves (policy_create r)"
  by (auto simp: stmt_within_def policy_create_def Let_def evolves_def claim_findUnique_def
      policy_findUnique_def find_append split: if_splits)

lemma within_auditLog_create: "stmt_within evolves (auditLog_create ty i from to reason)"
  by (auto simp: stmt_within_def auditLog_create_def evolves_def claim_findUnique_def
      policy_findUnique_def)

lemma policy_step_evolves:
  "can_move (p_status r) t \<Longrightarrow> policy_evolves r (r\<lparr>p_status := t, p_version := p_version r + 1\<rparr>)"
  by (auto simp: policy_evolves_def)

text \<open>A guarded status write: every policy it hits may take that step.\<close>

lemma within_status_write:
  assumes "\<And>r. P r \<Longrightarrow> can_move (p_status r) t"
  shows "stmt_within evolves
    (policy_updateMany P (\<lambda>r. r\<lparr>p_status := t, p_version := p_version r + 1\<rparr>))"
  by (rule within_policy_updateMany) (simp add: policy_step_evolves assms)

text \<open>Instance-local state and the outbox.\<close>

lemma guar_local:
  "guarantees evolves (modify (\<lambda>w. w\<lparr>productCache := f w\<rparr>))"
  "guarantees evolves (modify (\<lambda>w. w\<lparr>claimCountCache := g w\<rparr>))"
  "guarantees evolves (modify (\<lambda>w. w\<lparr>nextContractCallAt := h w\<rparr>))"
  by (rule ev.guar_modify; simp add: evolves_def claim_findUnique_def policy_findUnique_def)+

lemma guar_emit: "guarantees evolves (emit ev)"
  unfolding emit_def
  by (rule ev.guar_modify) (simp add: evolves_def claim_findUnique_def policy_findUnique_def)

lemma within_products: "(\<And>c w x w'. st c w = (Inr x, w') \<Longrightarrow> \<exists>ps. w' = w\<lparr>products := ps\<rparr>) \<Longrightarrow>
    stmt_within evolves st"
  unfolding stmt_within_def evolves_def policy_findUnique_def claim_findUnique_def by fastforce

lemma within_product_create: "stmt_within evolves (product_create r)"
  by (rule within_products) (auto simp: product_create_def Let_def split: if_splits)

lemma within_product_update: "stmt_within evolves (product_update i f)"
  by (rule within_products) (auto simp: product_update_def split: option.splits)

lemmas evolves_rules = within_product_create within_product_update ev.guar within_claim_create within_policy_create within_auditLog_create
  within_claim_update guar_emit guar_local

section \<open>Transactions\<close>

text \<open>The world as others change it over \<open>k\<close> ticks.\<close>

fun interf :: "env \<Rightarrow> nat \<Rightarrow> nat \<Rightarrow> world \<Rightarrow> world" where
  "interf e n 0 w = w"
| "interf e n (Suc k) w = interf e (Suc n) k (e_rely e n w)"

lemma interf_Suc_end: "interf e n (Suc k) w = e_rely e (n + k) (interf e n k w)"
  by (induction k arbitrary: n w) simp_all

lemma db_cases:
  obtains (commit) x w' where "e_dbfail e n = None" "st (tx_ctx e n) (e_rely e n w) = (Inr x, w')"
      "db st e (n, w) = (Inr x, (Suc n, w'))"
  | (abort) err where "db st e (n, w) = (Inl err, (Suc n, e_rely e n w))"
proof (cases "e_dbfail e n")
  case None
  obtain r w' where st: "st (tx_ctx e n) (e_rely e n w) = (r, w')" by fastforce
  show thesis
  proof (cases r)
    case (Inl err)
    with None st show thesis by (intro abort [of err]) (simp add: db_def tx_ctx_def Let_def)
  next
    case (Inr x)
    with None st show thesis by (intro commit [of x w']) (simp_all add: db_def tx_ctx_def Let_def)
  qed
next
  case (Some err)
  then show thesis by (intro abort [of err]) (simp add: db_def Let_def)
qed

lemma retry_cases:
  "retry_from k (db st) e (n, w) = (r, (n', w')) \<Longrightarrow> k \<le> FINANCIAL_TX_MAX_ATTEMPTS \<Longrightarrow>
   \<exists>j \<le> FINANCIAL_TX_MAX_ATTEMPTS - k. n' = Suc (n + 2 * j) \<and>
     (case r of
        Inr x \<Rightarrow> st (tx_ctx e (n + 2 * j)) (interf e n (Suc (2 * j)) w) = (Inr x, w')
      | Inl err \<Rightarrow> w' = interf e n (Suc (2 * j)) w
          \<and> (isSerializationFailure err \<longrightarrow> j = FINANCIAL_TX_MAX_ATTEMPTS - k))"
proof (induction k "db st" arbitrary: n w rule: retry_from.induct)
  case (1 k)
  show ?case
  proof (cases rule: db_cases [of e n st w])
    case (commit x w1)
    with "1.prems" have "r = Inr x" "n' = Suc n" "w1 = w'"
      by (simp_all add: retry_from.simps [of k] catch_def)
    with commit show ?thesis by (intro exI [of _ 0]) simp
  next
    case (abort err)
    show ?thesis
    proof (cases "\<not> isSerializationFailure err \<or> k \<ge> FINANCIAL_TX_MAX_ATTEMPTS")
      case True
      with abort "1.prems" have "r = Inl err" "n' = Suc n" "w' = e_rely e n w"
        by (auto simp: retry_from.simps [of k] catch_def throw_def)
      with True "1.prems" show ?thesis by (intro exI [of _ 0]) auto
    next
      case False
      let ?w = "e_rely e (Suc n) (e_rely e n w)"
      from False abort "1.prems" have "retry_from (k + 1) (db st) e (Suc (Suc n), ?w) = (r, (n', w'))"
        by (auto simp: retry_from.simps [of k] catch_def bind_def await_def)
      with "1.hyps" False obtain j where "j \<le> FINANCIAL_TX_MAX_ATTEMPTS - (k + 1)" "n' = Suc (Suc (Suc n) + 2 * j)"
        "case r of
           Inr x \<Rightarrow> st (tx_ctx e (Suc (Suc n) + 2 * j)) (interf e (Suc (Suc n)) (Suc (2 * j)) ?w) = (Inr x, w')
         | Inl err \<Rightarrow> w' = interf e (Suc (Suc n)) (Suc (2 * j)) ?w
             \<and> (isSerializationFailure err \<longrightarrow> j = FINANCIAL_TX_MAX_ATTEMPTS - (k + 1))"
        by force
      with False show ?thesis
        by (intro exI [of _ "Suc j"]) (auto split: sum.splits)
    qed
  qed
qed

text \<open>
  C27. A financial transaction has all of its effect or none: it is tried at most three times, every
  aborted attempt leaves only what other actors did, a result is returned only by the one attempt
  that committed, on the world as it was at that attempt, and a serialization failure is surfaced
  only after the third attempt.
\<close>

theorem financialTransaction_atomic:
  assumes "financialTransaction fn e (n, w) = (r, (n', w'))"
  shows "\<exists>j < FINANCIAL_TX_MAX_ATTEMPTS. n' = Suc (n + 2 * j) \<and>
     (case r of
        Inr x \<Rightarrow> fn (tx_ctx e (n + 2 * j)) (interf e n (Suc (2 * j)) w) = (Inr x, w')
      | Inl err \<Rightarrow> w' = interf e n (Suc (2 * j)) w \<and> (isSerializationFailure err \<longrightarrow> j = 2))"
proof -
  from assms have "retry_from 1 (db fn) e (n, w) = (r, (n', w'))"
    by (simp add: financialTransaction_def withSerializationRetry_def)
  from retry_cases [OF this] show ?thesis
    by (force simp: FINANCIAL_TX_MAX_ATTEMPTS_def split: sum.splits)
qed

theorem financialTransaction_atomic_witness:
  "let e = (quiet_env 5)\<lparr>e_dbfail := (\<lambda>n. if n = 0 then Some SerializationFailure else None)\<rparr>
   in financialTransaction (s_ret True) e (0, empty_world) = (Inr True, (3, empty_world))
      \<and> (\<exists>j < FINANCIAL_TX_MAX_ATTEMPTS. 3 = Suc (0 + 2 * j)
           \<and> s_ret True (tx_ctx e (0 + 2 * j)) (interf e 0 (Suc (2 * j)) empty_world) = (Inr True, empty_world))"
proof -
  let ?e = "(quiet_env 5)\<lparr>e_dbfail := (\<lambda>n. if n = 0 then Some SerializationFailure else None)\<rparr>"
  have run: "financialTransaction (s_ret True) ?e (0, empty_world) = (Inr True, (3, empty_world))"
    by (simp add: financialTransaction_def withSerializationRetry_def retry_from.simps catch_def db_def
        quiet_env_def FINANCIAL_TX_MAX_ATTEMPTS_def bind_def await_def s_ret_def Let_def)
  with financialTransaction_atomic [OF run] show ?thesis by (auto simp: Let_def)
qed

lemma status_write_hit:
  assumes run: "policy_updateMany P (\<lambda>r. r\<lparr>p_status := t, p_version := p_version r + 1\<rparr>) c w = (Inr k, v)"
    and hit: "k \<noteq> 0" and P: "\<And>r. P r \<Longrightarrow> p_id r = i"
  obtains q where "policy_findUnique i w = Some q" "P q"
    "policy_findUnique i v =
       Some (q\<lparr>p_status := t, p_version := p_version q + 1, p_updatedAt := now_ms c\<rparr>)"
    "v = w\<lparr>policies := policies v\<rparr>" "policies_ok (policies v)"
proof -
  let ?g = "\<lambda>r. r\<lparr>p_status := t, p_version := p_version r + 1, p_updatedAt := now_ms c\<rparr>"
  let ?ps = "map (\<lambda>r. if P r then ?g r else r) (policies w)"
  from run have v: "v = w\<lparr>policies := ?ps\<rparr>" and k: "k = length (filter P (policies w))"
    and ok: "policies_ok ?ps"
    by (auto simp: policy_updateMany_def Let_def split: if_splits)
  from hit k obtain q where q: "q \<in> set (policies w)" "P q" by (auto simp: filter_empty_conv)
  have "map p_id ?ps = map p_id (policies w)" by simp
  with ok have "distinct (map p_id (policies w))" by (simp only: policies_ok_def)
  with q P have find: "policy_findUnique i w = Some q"
    using find_distinct [of p_id "policies w" q] by (simp add: policy_findUnique_def)
  have "policy_findUnique i v = map_option (\<lambda>r. if P r then ?g r else r) (policy_findUnique i w)"
    unfolding policy_findUnique_def v by (simp add: find_map_if)
  with find q v ok show thesis by (intro that) auto
qed

section \<open>Runs without interference\<close>

definition quiet :: "env \<Rightarrow> bool" where
  "quiet e \<longleftrightarrow> (\<forall>n w. e_rely e n w = w) \<and> (\<forall>n. e_dbfail e n = None)"

lemma quiet_db: "quiet e \<Longrightarrow> st (tx_ctx e n) w = (Inr x, v) \<Longrightarrow> db st e (n, w) = (Inr x, (Suc n, v))"
  by (simp add: quiet_def db_def tx_ctx_def)

lemma quiet_financial:
  assumes "quiet e" and "st (tx_ctx e n) w = (Inr x, v)"
  shows "financialTransaction st e (n, w) = (Inr x, (Suc n, v))"
    and "financialBatch st e (n, w) = (Inr x, (Suc n, v))"
  using quiet_db [of e st n w x v, OF assms]
  by (simp_all add: financialTransaction_def financialBatch_def withSerializationRetry_def
      retry_from.simps catch_def)

section \<open>Calls of contracts\<close>

definition silent :: "world \<Rightarrow> world \<Rightarrow> bool" where
  "silent w v \<longleftrightarrow> chainCalls v = chainCalls w"

interpretation si: world_order silent
  by unfold_locales (auto simp: silent_def)

text \<open>An action that makes at most one call, and only one that \<open>C\<close> allows, if nobody else calls.\<close>

definition calls_at_most :: "env \<Rightarrow> (string \<times> string \<times> string list \<Rightarrow> bool) \<Rightarrow> 'a act \<Rightarrow> bool" where
  "calls_at_most e C m \<longleftrightarrow> (\<forall>s r s'. (\<forall>n w. silent w (e_rely e n w)) \<longrightarrow> m e s = (r, s') \<longrightarrow>
     chainCalls (snd s') = chainCalls (snd s) \<or> (\<exists>c. C c \<and> chainCalls (snd s') = chainCalls (snd s) @ [c]))"

lemma silentD:
  "guarantees silent m \<Longrightarrow> \<forall>n w. silent w (e_rely e n w) \<Longrightarrow> m e s = (r, s')
   \<Longrightarrow> chainCalls (snd s') = chainCalls (snd s)"
  unfolding guarantees_def silent_def by (metis snd_conv)

lemma calls_silent: "guarantees silent m \<Longrightarrow> calls_at_most e C m"
  unfolding calls_at_most_def by (metis silentD)

lemma calls_silent_bind:
  assumes "guarantees silent m" and "\<And>s x s'. m e s = (Inr x, s') \<Longrightarrow> calls_at_most e C (f x)"
  shows "calls_at_most e C (bind m f)"
  unfolding calls_at_most_def
proof (intro allI impI)
  fix s r s'
  assume rely: "\<forall>n w. silent w (e_rely e n w)" and run: "bind m f e s = (r, s')"
  obtain q s1 where m: "m e s = (q, s1)" by (cases "m e s")
  from silentD [OF assms(1) rely m] have s1: "chainCalls (snd s1) = chainCalls (snd s)" .
  show "chainCalls (snd s') = chainCalls (snd s) \<or> (\<exists>c. C c \<and> chainCalls (snd s') = chainCalls (snd s) @ [c])"
  proof (cases q)
    case (Inl x)
    with run m s1 show ?thesis by (simp add: bind_def)
  next
    case (Inr x)
    with run m have f: "f x e s1 = (r, s')" by (simp add: bind_def)
    from assms(2) m Inr have "calls_at_most e C (f x)" by blast
    with f rely s1 show ?thesis unfolding calls_at_most_def by metis
  qed
qed

text \<open>After the action that may call, everything is silent.\<close>

lemma calls_extend:
  fixes k :: "'b act"
  assumes m: "calls_at_most e C m"
    and k: "\<And>s r s'. k e s = (r, s') \<Longrightarrow> \<exists>q s1. m e s = (q, s1)
      \<and> (s' = s1 \<or> (\<exists>h :: 'b act. guarantees silent h \<and> h e s1 = (r, s')))"
  shows "calls_at_most e C k"
  unfolding calls_at_most_def
proof (intro allI impI)
  fix s r s'
  assume rely: "\<forall>n w. silent w (e_rely e n w)" and run: "k e s = (r, s')"
  from k [OF run] obtain q s1 where run1: "m e s = (q, s1)"
    and rest: "s' = s1 \<or> (\<exists>h :: 'b act. guarantees silent h \<and> h e s1 = (r, s'))" by blast
  from rest rely have "chainCalls (snd s') = chainCalls (snd s1)" using silentD by blast
  then show "chainCalls (snd s') = chainCalls (snd s) \<or> (\<exists>c. C c \<and> chainCalls (snd s') = chainCalls (snd s) @ [c])"
    using m run1 rely unfolding calls_at_most_def by metis
qed

lemma calls_then_silent:
  "calls_at_most e C m \<Longrightarrow> (\<And>x. guarantees silent (f x)) \<Longrightarrow> calls_at_most e C (bind m f)"
  by (erule calls_extend) (force simp: bind_def split: prod.splits sum.splits)

lemma calls_catch:
  "calls_at_most e C m \<Longrightarrow> (\<And>x. guarantees silent (h x)) \<Longrightarrow> calls_at_most e C (catch m h)"
  by (erule calls_extend) (force simp: catch_def split: prod.splits sum.splits)

end
