(* ===== verification/Policy_Service.thy ===== *)
theory Policy_Service
  imports Policy_Rules Concurrency "HOL-Library.AList" "HOL-Library.Product_Lexorder"
begin

text \<open>
  The operations of \<^verbatim>\<open>src/policy/policy.service.ts\<close> that read and write the database:
  creating, cancelling and updating policies, the product catalogue with its cache, and the
  queries. The full-text search (raw SQL), the aggregate pool check (floating point) and the
  confirmation of signed transactions are not modelled.
\<close>

section \<open>Products\<close>

definition PRODUCT_CACHE_TTL_MS :: int where
  "PRODUCT_CACHE_TTL_MS = 30000"

definition getProductById :: "string \<Rightarrow> ProductSummary option act" where
  "getProductById i =
     bind (asks e_decStr) (\<lambda>decStr.
     bind (db (s_query (\<lambda>w. List.find (\<lambda>p. pr_id p = i \<and> pr_status p = PR_ACTIVE) (products w)))) (\<lambda>product.
     ret (map_option (mapProduct decStr) product)))"

definition active_products :: "world \<Rightarrow> Product list" where
  "active_products w = filter (\<lambda>p. pr_status p = PR_ACTIVE) (products w)"

text \<open>One transaction reads the page, ordered by name, and the number of active products.\<close>

definition query_products :: "(string \<Rightarrow> int) \<Rightarrow> int \<Rightarrow> int \<Rightarrow> (Product list \<times> int) stmt" where
  "query_products rank tk skip =
     s_bind (s_query active_products) (\<lambda>ps.
     case paginate tk skip (sort_key (\<lambda>p. rank (pr_name p)) ps) of
       Inl x \<Rightarrow> s_throw x
     | Inr data \<Rightarrow> s_ret (data, int (length ps)))"

definition getActiveProducts :: "int \<Rightarrow> int \<Rightarrow> (ProductSummary list \<times> int) act" where
  "getActiveProducts page limit =
     (let tk = min limit 100; skip = (page - 1) * tk; cacheKey = int_str page @ '':'' @ int_str tk in
      bind clock (\<lambda>now.
      bind (gets (\<lambda>w. map_of (productCache w) cacheKey)) (\<lambda>cached.
      if (case cached of Some (hit, expiresAt) \<Rightarrow> expiresAt > now | None \<Rightarrow> False)
      then ret (fst (the cached))
      else
        bind (asks e_decStr) (\<lambda>decStr.
        bind (asks e_collation) (\<lambda>rank.
        bind (db (query_products rank tk skip)) (\<lambda>(dbProducts, total).
        let data = map (mapProduct decStr) dbProducts in
        seq (modify (\<lambda>w. w\<lparr>productCache :=
               AList.update cacheKey ((data, total), now + PRODUCT_CACHE_TTL_MS) (productCache w)\<rparr>))
        (ret (data, total))))))))"

definition productCache_clear :: "unit act" where
  "productCache_clear = modify (\<lambda>w. w\<lparr>productCache := []\<rparr>)"

text \<open>The admin DTOs; the new row's id and status default come from the database.\<close>

definition createProduct :: "Product \<Rightarrow> ProductStatus option \<Rightarrow> ProductSummary act" where
  "createProduct dto status =
     seq productCache_clear
     (bind (asks e_decStr) (\<lambda>decStr.
      bind (db (product_create (dto\<lparr>pr_premiumRateVersion := 1,
              pr_status := (case status of None \<Rightarrow> PR_ACTIVE | Some s \<Rightarrow> s)\<rparr>))) (\<lambda>product.
      ret (mapProduct decStr product))))"

record UpdateProductDto =
  u_name :: "string option"
  u_category :: "string option"
  u_triggerType :: "string option"
  u_threshold :: "int option"
  u_comparison :: "string option"
  u_coverageMin :: "int option"
  u_coverageMax :: "int option"
  u_premiumRate :: "int option"
  u_maxDuration :: "int option"
  u_status :: "ProductStatus option"

definition product_template :: "Product \<Rightarrow> PremiumRateTemplate" where
  "product_template p = \<lparr>t_premiumRate = pr_premiumRate p, t_premiumRateVersion = pr_premiumRateVersion p\<rparr>"

definition or_old :: "'a option \<Rightarrow> 'a \<Rightarrow> 'a" where
  "or_old d old = (case d of None \<Rightarrow> old | Some x \<Rightarrow> x)"

text \<open>The row is rewritten with the version computed from the row that was read before.\<close>

definition update_product_row :: "Product \<Rightarrow> UpdateProductDto \<Rightarrow> Product \<Rightarrow> Product" where
  "update_product_row existing dto r = r\<lparr>
     pr_name := or_old (u_name dto) (pr_name r),
     pr_category := or_old (u_category dto) (pr_category r),
     pr_triggerType := or_old (u_triggerType dto) (pr_triggerType r),
     pr_threshold := or_old (u_threshold dto) (pr_threshold r),
     pr_comparison := or_old (u_comparison dto) (pr_comparison r),
     pr_coverageMin := or_old (u_coverageMin dto) (pr_coverageMin r),
     pr_coverageMax := or_old (u_coverageMax dto) (pr_coverageMax r),
     pr_premiumRate := or_old (u_premiumRate dto) (pr_premiumRate r),
     pr_premiumRateVersion :=
       (if u_premiumRate dto \<noteq> None
        then nextPremiumRateVersion (product_template existing) (u_premiumRate dto)
        else pr_premiumRateVersion r),
     pr_maxDuration := or_old (u_maxDuration dto) (pr_maxDuration r),
     pr_status := or_old (u_status dto) (pr_status r)\<rparr>"

definition updateProduct :: "string \<Rightarrow> UpdateProductDto \<Rightarrow> ProductSummary act" where
  "updateProduct i dto =
     seq productCache_clear
     (bind (db (s_query (product_findUnique i))) (\<lambda>found.
      case found of
        None \<Rightarrow> throw (NotFoundException ''Product not found'')
      | Some existing \<Rightarrow>
          bind (asks e_decStr) (\<lambda>decStr.
          bind (db (product_update i (update_product_row existing dto))) (\<lambda>product.
          seq (emit (ProductUpdate (pr_id product))) (ret (mapProduct decStr product))))))"

definition deactivateProduct :: "string \<Rightarrow> ProductSummary act" where
  "deactivateProduct i =
     seq productCache_clear
     (bind (db (s_query (product_findUnique i))) (\<lambda>found.
      case found of
        None \<Rightarrow> throw (NotFoundException ''Product not found'')
      | Some existing \<Rightarrow>
          bind (asks e_decStr) (\<lambda>decStr.
          bind (db (product_update i (\<lambda>r. r\<lparr>pr_status := PR_INACTIVE\<rparr>))) (\<lambda>product.
          seq (emit (ProductUpdate (pr_id product))) (ret (mapProduct decStr product))))))"

section \<open>Validation\<close>

text \<open>An unset or empty variable is falsy.\<close>

definition configured :: "env \<Rightarrow> string \<Rightarrow> bool" where
  "configured e k \<longleftrightarrow> e_config e k \<noteq> None \<and> e_config e k \<noteq> Some []"

definition getPoolAvailableBalance :: "jsnum act" where
  "getPoolAvailableBalance =
     bind (asks (\<lambda>e. configured e ''USDC_CONTRACT'' \<and> configured e ''POLICY_ENGINE_CONTRACT'')) (\<lambda>ok.
     if \<not> ok then ret PosInf
     else catch (bind (call e_simBalance) (\<lambda>simResult.
            case simResult of
              SimError m \<Rightarrow> throw (PlainError ''Failed to fetch pool balance: simulation error'')
            | SimEmpty \<Rightarrow> throw (PlainError ''Failed to fetch pool balance: no result returned'')
            | SimValue balance \<Rightarrow> ret balance))
          (\<lambda>err. throw (PlainError ''Failed to fetch pool balance'')))"

text \<open>The result is \<open>None\<close> for \<^verbatim>\<open>{ valid: true }\<close> and the reason otherwise.\<close>

definition validateCoverage :: "jsnum \<Rightarrow> ProductSummary \<Rightarrow> string option \<Rightarrow> string option act" where
  "validateCoverage coverageXlm product oracleKey =
     bind (lift (BigInt_str (whole_part (ps_coverageMin product)))) (\<lambda>mn.
     bind (lift (BigInt_str (whole_part (ps_coverageMax product)))) (\<lambda>mx.
     bind (lift (BigInt_num coverageXlm)) (\<lambda>coverage.
     if coverage < mn then ret (Some ''Coverage is below the minimum for this product'')
     else if coverage > mx then ret (Some ''Coverage exceeds the maximum for this product'')
     else
       bind getPoolAvailableBalance (\<lambda>poolBalance.
       if js_less poolBalance coverageXlm
       then ret (Some ''Coverage exceeds the available liquidity of the pool'')
       else case oracleKey of
         None \<Rightarrow> ret None
       | Some key \<Rightarrow> ret (validateOracleKey key product None)))))"

section \<open>Creating policies\<close>

record BuyPolicyDto =
  d_productId :: string
  d_coverageXlm :: jsnum
  d_walletAddress :: string
  d_duration :: int
  d_oracleKey :: string

definition DAY_MS :: int where
  "DAY_MS = 24 * 3600 * 1000"

text \<open>The row; whole amounts of XLM become units of the seventh decimal.\<close>

definition new_policy :: "BuyPolicyDto \<Rightarrow> ProductSummary \<Rightarrow> int \<Rightarrow> int \<Rightarrow> string \<Rightarrow> Policy" where
  "new_policy dto product startTime premiumPaid txHash =
     (let rate = snapshotPremiumRate \<lparr>t_premiumRate = ps_premiumRate product,
                   t_premiumRateVersion = ps_premiumRateVersion product\<rparr> in
      \<lparr>p_id = [], p_productId = d_productId dto, p_policyholder = d_walletAddress dto,
       p_coverageXlm = num_int (d_coverageXlm dto) * STROOPS_PER_XLM,
       p_premiumPaid = premiumPaid * STROOPS_PER_XLM,
       p_premiumRate = t_premiumRate rate, p_premiumRateVersion = t_premiumRateVersion rate,
       p_oracleKey = d_oracleKey dto, p_startTime = startTime,
       p_endTime = startTime + d_duration dto * DAY_MS, p_status = P_ACTIVE, p_version = 0,
       p_txHash = Some txHash, p_createdAt = 0, p_updatedAt = 0\<rparr>)"

fun policy_conflict :: "exn \<Rightarrow> exn" where
  "policy_conflict (PrismaKnown code msg target) =
     (if code = ''P2002'' then
        (if ''txHash'' \<in> set target
         then ConflictException ''Transaction has already been used to create a policy''
         else ConflictException ''An active policy already exists for this wallet, product, and oracle key'')
      else PrismaKnown code msg target)"
| "policy_conflict x = x"

definition createPolicy :: "BuyPolicyDto \<Rightarrow> string \<Rightarrow> Policy act" where
  "createPolicy dto txHash =
     bind clock (\<lambda>t.
     let now = (t div 1000) * 1000; endTime = now + d_duration dto * DAY_MS in
     bind (getProductById (d_productId dto)) (\<lambda>found.
     case found of
       None \<Rightarrow> throw (BadRequestException ''Product not found or inactive'')
     | Some product \<Rightarrow>
         if d_duration dto > ps_maxDuration product
         then throw (BadRequestException ''Duration exceeds the maximum duration of the product'')
         else
           bind (validateCoverage (d_coverageXlm dto) product (Some (d_oracleKey dto))) (\<lambda>invalid.
           case invalid of
             Some reason \<Rightarrow> throw (BadRequestException reason)
           | None \<Rightarrow>
           (case validateOracleKey (d_oracleKey dto) product (Some (now, endTime)) of
             Some reason \<Rightarrow> throw (BadRequestException reason)
           | None \<Rightarrow>
               bind (db (s_query (\<lambda>w. List.find (\<lambda>r. or_key r = d_oracleKey dto) (oracleReadings w)))) (\<lambda>reading.
               if reading = None
               then throw (BadRequestException ''Oracle key has no data source configured'')
               else
                 bind (lift (calculatePremium (d_coverageXlm dto) (js_int (ps_premiumRate product))
                               (js_int (d_duration dto)))) (\<lambda>premiumPaid.
                 catch (db (policy_create (new_policy dto product now premiumPaid txHash)))
                   (\<lambda>err. throw (policy_conflict err))))))))"

section \<open>Cancelling and updating policies\<close>

definition find_with_count :: "string \<Rightarrow> (Policy \<times> int) option stmt" where
  "find_with_count i = s_query (\<lambda>w. map_option (\<lambda>p. (p, claims_count w i)) (policy_findUnique i w))"

definition cancel_reason :: "string \<Rightarrow> string" where
  "cancel_reason refund = ''Policyholder-initiated cancellation; refund owed: '' @ refund @ '' XLM''"

definition cancelPolicy :: "string \<Rightarrow> (PolicySummary \<times> string) act" where
  "cancelPolicy policyId =
     bind (db (s_query (policy_findUnique policyId))) (\<lambda>found.
     case found of
       None \<Rightarrow> throw (NotFoundException ''Policy not found'')
     | Some existing \<Rightarrow>
         bind (lift (transition (status_str (p_status existing)) ''CANCELLED'')) (\<lambda>_.
         bind clock (\<lambda>now.
         let refund = calculateProRatedRefund (p_premiumPaid existing) (p_startTime existing)
                        (p_endTime existing) now in
         bind (db (policy_updateMany (\<lambda>r. p_id r = policyId \<and> p_status r = P_ACTIVE)
                (\<lambda>r. r\<lparr>p_status := P_CANCELLED, p_version := p_version r + 1\<rparr>))) (\<lambda>count.
         if count = 0
         then throw (ConflictException ''Policy is no longer ACTIVE and cannot be cancelled'')
         else
           bind clock (\<lambda>t1. seq (emit (PolicyStatusChange policyId ''CANCELLED'' t1))
           (bind clock (\<lambda>t2. seq (emit (PolicyWebhook policyId ''ACTIVE'' ''CANCELLED'' t2))
           (seq (catch (db (auditLog_create ''Policy'' policyId ''ACTIVE'' ''CANCELLED''
                   (Some (cancel_reason refund))))
                  (\<lambda>_. ret ()))
           (bind (asks e_decStr) (\<lambda>decStr.
            bind (db (find_with_count policyId)) (\<lambda>updated.
            case updated of
              None \<Rightarrow> throw (PlainError ''TypeError'')
            | Some (p, n) \<Rightarrow> ret (policySummary decStr p n, refund)))))))))))) "

record UpdatePolicyDto =
  up_oracleKey :: "string option"
  up_startTime :: "int option"
  up_endTime :: "int option"

text \<open>\<^verbatim>\<open>policy.update\<close> by id, returning the row and its number of claims.\<close>

definition policy_update :: "string \<Rightarrow> (Policy \<Rightarrow> Policy) \<Rightarrow> (Policy \<times> int) stmt" where
  "policy_update i f =
     s_bind (policy_updateMany (\<lambda>r. p_id r = i) f) (\<lambda>count.
     s_bind (find_with_count i) (\<lambda>row.
     case row of None \<Rightarrow> s_throw (PrismaKnown ''P2025'' [] []) | Some pn \<Rightarrow> s_ret pn))"

definition update_policy_row :: "string option \<Rightarrow> int option \<Rightarrow> int option \<Rightarrow> Policy \<Rightarrow> Policy" where
  "update_policy_row key st en r = r\<lparr>
     p_oracleKey := or_old key (p_oracleKey r), p_startTime := or_old st (p_startTime r),
     p_endTime := or_old en (p_endTime r)\<rparr>"

definition update_reason :: "bool \<Rightarrow> bool \<Rightarrow> bool \<Rightarrow> Policy \<Rightarrow> string \<Rightarrow> string option \<Rightarrow> string" where
  "update_reason keyChanged startChanged endChanged existing newKey actor =
     (let changes = (if keyChanged then [''oracle key from '' @ [CHR 0x22] @ p_oracleKey existing
                        @ [CHR 0x22] @ '' to '' @ [CHR 0x22] @ newKey @ [CHR 0x22]] else [])
                    @ (if startChanged then [''start time''] else [])
                    @ (if endChanged then [''end time''] else [])
      in ''Updated '' @ concat (case changes of [] \<Rightarrow> [] | c # cs \<Rightarrow> c # map (\<lambda>x. '' and '' @ x) cs)
         @ '' by '' @ or_old actor ''system'')"

definition updatePolicy :: "string \<Rightarrow> UpdatePolicyDto \<Rightarrow> string option \<Rightarrow> PolicySummary act" where
  "updatePolicy i dto actor =
     bind (asks e_decStr) (\<lambda>decStr.
     bind (db (s_query (\<lambda>w. map_option (\<lambda>p. (p, product_findUnique (p_productId p) w, claims_count w i))
                              (policy_findUnique i w)))) (\<lambda>found.
     case found of
       None \<Rightarrow> throw (NotFoundException ''Policy not found'')
     | Some (existing, product, n) \<Rightarrow>
         let startTime = or_old (map_option (\<lambda>s. s * 1000) (up_startTime dto)) (p_startTime existing);
             endTime = or_old (map_option (\<lambda>s. s * 1000) (up_endTime dto)) (p_endTime existing) in
         if endTime \<le> startTime
         then throw (BadRequestException ''endTime must be after startTime'')
         else
           let newOracleKey = or_old (up_oracleKey dto) (p_oracleKey existing);
               isOracleKeyChanged = (newOracleKey \<noteq> p_oracleKey existing);
               isStartTimeChanged = (startTime \<noteq> p_startTime existing);
               isEndTimeChanged = (endTime \<noteq> p_endTime existing) in
           if \<not> isOracleKeyChanged \<and> \<not> isStartTimeChanged \<and> \<not> isEndTimeChanged
           then ret (policySummary decStr existing n)
           else case product of
             None \<Rightarrow> throw (PlainError ''TypeError'')
           | Some pr \<Rightarrow>
             (case validateOracleKey newOracleKey (mapProduct decStr pr) (Some (startTime, endTime)) of
               Some reason \<Rightarrow> throw (BadRequestException reason)
             | None \<Rightarrow>
                 bind (db (policy_update i (update_policy_row
                         (if isOracleKeyChanged then Some newOracleKey else None)
                         (if isStartTimeChanged then Some startTime else None)
                         (if isEndTimeChanged then Some endTime else None)))) (\<lambda>(updated, m).
                 seq (if isOracleKeyChanged
                      then bind clock (\<lambda>t.
                           seq (emit (PolicyOracleKeyChange (p_id updated) (p_oracleKey existing) newOracleKey actor t))
                               (emit (PolicyOracleKeyWebhook (p_id updated) (p_oracleKey existing) newOracleKey actor t)))
                      else ret ())
                 (seq (catch (db (auditLog_create ''Policy'' i (status_str (p_status existing))
                         (status_str (p_status existing))
                         (Some (update_reason isOracleKeyChanged isStartTimeChanged isEndTimeChanged
                                  existing newOracleKey actor)))) (\<lambda>_. ret ()))
                 (ret (policySummary decStr updated m)))))))"

section \<open>Queries\<close>

definition getPolicy :: "string \<Rightarrow> PolicySummary option act" where
  "getPolicy policyId =
     bind (asks e_decStr) (\<lambda>decStr.
     bind (db (find_with_count policyId)) (\<lambda>dbPolicy.
     case dbPolicy of
       Some (p, n) \<Rightarrow> ret (Some (policySummary decStr p n))
     | None \<Rightarrow>
         bind (asks (\<lambda>e. configured e ''POLICY_ENGINE_CONTRACT'')) (\<lambda>ok.
         if \<not> ok then ret None
         else catch (bind (call e_simPolicy) (\<lambda>simResult.
                case simResult of
                  SimError m \<Rightarrow> ret None
                | SimEmpty \<Rightarrow> ret None
                | SimValue oc \<Rightarrow> ret (Some \<lparr>sm_id = policyId, sm_productId = oc_product_id oc,
                    sm_policyholder = oc_policyholder oc, sm_coverage = oc_coverage oc,
                    sm_premiumPaid = oc_premium_paid oc, sm_oracleKey = oc_oracle_key oc,
                    sm_startTime = oc_start_time oc, sm_endTime = oc_end_time oc,
                    sm_status = oc_status oc, sm_claimsCount = 0\<rparr>)))
              (\<lambda>_. ret None))))"

definition by_creation :: "(string \<Rightarrow> int) \<Rightarrow> Policy list \<Rightarrow> Policy list" where
  "by_creation rank ps = sort_key (\<lambda>p. (- p_createdAt p, - rank (p_id p))) ps"

definition findByPolicyholder :: "string \<Rightarrow> int \<Rightarrow> int \<Rightarrow> ((Policy \<times> int) list \<times> int) act" where
  "findByPolicyholder address page limit =
     (let tk = min limit 100; skip = (page - 1) * tk in
      bind (asks e_collation) (\<lambda>rank.
      db (s_bind (s_query (\<lambda>w. map (\<lambda>p. (p, claims_count w (p_id p)))
                     (by_creation rank (filter (\<lambda>p. p_policyholder p = address) (policies w))))) (\<lambda>rows.
          case paginate tk skip rows of
            Inl x \<Rightarrow> s_throw x
          | Inr pg \<Rightarrow> s_ret (pg, int (length rows))))))"

definition getUserPolicies :: "string \<Rightarrow> int \<Rightarrow> int \<Rightarrow> (PolicySummary list \<times> int) act" where
  "getUserPolicies walletAddress page limit =
     bind (asks e_decStr) (\<lambda>decStr.
     bind (findByPolicyholder walletAddress page (min limit 100)) (\<lambda>(dbPolicies, total).
     ret (map (\<lambda>(p, n). policySummary decStr p n) dbPolicies, total)))"

section \<open>Every operation keeps the contract\<close>

lemma can_cancel: "can_move P_ACTIVE P_CANCELLED"
  unfolding can_move_iff by simp

lemma within_find_with_count: "stmt_within evolves (find_with_count i)"
  by (simp add: find_with_count_def ev.within_query)

lemma guar_getProductById: "guarantees evolves (getProductById i)"
  unfolding getProductById_def by (intro evolves_rules)

lemma guar_getPoolAvailableBalance: "guarantees evolves getPoolAvailableBalance"
  unfolding getPoolAvailableBalance_def
  by (auto intro!: evolves_rules split: SimResult.splits)

lemma guar_validateCoverage: "guarantees evolves (validateCoverage c p k)"
  unfolding validateCoverage_def
  by (auto intro!: evolves_rules guar_getPoolAvailableBalance split: option.splits)

lemma guar_createPolicy: "guarantees evolves (createPolicy dto h)"
  unfolding createPolicy_def Let_def
  by (auto intro!: evolves_rules guar_getProductById guar_validateCoverage split: option.splits)

lemma guar_cancelPolicy: "guarantees evolves (cancelPolicy i)"
  unfolding cancelPolicy_def Let_def
  by (auto intro!: evolves_rules within_find_with_count within_status_write can_cancel
      split: option.splits simp del: status_str.simps)

lemma within_policy_update:
  "(\<And>r. policy_evolves r (f r)) \<Longrightarrow> stmt_within evolves (policy_update i f)"
  unfolding policy_update_def
  by (auto intro!: evolves_rules within_policy_updateMany within_find_with_count split: option.splits)

lemma guar_updatePolicy: "guarantees evolves (updatePolicy i dto actor)"
proof -
  have row: "policy_evolves r (update_policy_row k st en r)" for k st en r
    by (simp add: policy_evolves_def update_policy_row_def)
  show ?thesis
    unfolding updatePolicy_def Let_def
    by (auto intro!: evolves_rules within_policy_update row split: option.splits)
qed

lemma guar_products:
  "guarantees evolves (createProduct d st)" "guarantees evolves (updateProduct i u)"
  "guarantees evolves (deactivateProduct i)"
  unfolding createProduct_def updateProduct_def deactivateProduct_def productCache_clear_def
  by (auto intro!: evolves_rules split: option.splits)

lemma guar_getActiveProducts: "guarantees evolves (getActiveProducts page limit)"
  unfolding getActiveProducts_def query_products_def Let_def
  by (auto intro!: evolves_rules split: option.splits sum.splits)

end
