(* ===== verification/Claims_Service.thy ===== *)
theory Claims_Service
  imports Policy_Service
begin

text \<open>
  \<^verbatim>\<open>src/claims/claims.service.ts\<close> with the snapshot it evaluates
  (\<^verbatim>\<open>src/claims/claim-evaluation-snapshot.ts\<close>): automatic processing of a policy, recovery of
  policies stuck in PROCESSING, manual submission, and the paginated claim history. A call of the
  claims contract appends to \<open>chainCalls\<close>; its result is given by the environment.
\<close>

section \<open>Snapshot\<close>

definition latest_reading :: "string \<Rightarrow> world \<Rightarrow> OracleReading option" where
  "latest_reading key w =
     (case sort_key (\<lambda>r. - or_submittedAt r) (filter (\<lambda>r. or_key r = key) (oracleReadings w)) of
        [] \<Rightarrow> None | r # _ \<Rightarrow> Some r)"

definition readClaimEvaluationSnapshot :: "string \<Rightarrow> (Policy option \<times> OracleReading option) act" where
  "readClaimEvaluationSnapshot policyId =
     db (s_query (\<lambda>w. case policy_findUnique policyId w of
          None \<Rightarrow> (None, None)
        | Some policy \<Rightarrow> (Some policy, latest_reading (p_oracleKey policy) w)))"

section \<open>Effects shared by the flows\<close>

definition CONTRACT_CALL_MIN_INTERVAL_MS :: int where
  "CONTRACT_CALL_MIN_INTERVAL_MS = 100"

definition waitForContractCallSlot :: "unit act" where
  "waitForContractCallSlot =
     bind clock (\<lambda>now.
     bind (gets (\<lambda>w. max now (nextContractCallAt w))) (\<lambda>slot.
     seq (modify (\<lambda>w. w\<lparr>nextContractCallAt := slot + CONTRACT_CALL_MIN_INTERVAL_MS\<rparr>))
     (if slot > now then await else ret ())))"

definition invokeContract_call :: "string \<Rightarrow> string \<Rightarrow> string list \<Rightarrow> string act" where
  "invokeContract_call contractId fn args e s =
     (e_invoke e (fst s),
      (Suc (fst s), (e_rely e (fst s) (snd s))\<lparr>chainCalls :=
          chainCalls (e_rely e (fst s) (snd s)) @ [(contractId, fn, args)]\<rparr>))"

definition auditOp :: "string \<Rightarrow> string \<Rightarrow> string \<Rightarrow> string \<Rightarrow> string \<Rightarrow> unit stmt" where
  "auditOp entityType entityId fromStatus toStatus reason =
     auditLog_create entityType entityId fromStatus toStatus (Some reason)"

definition emitPolicyStatusChange :: "string \<Rightarrow> PolicyStatus \<Rightarrow> unit act" where
  "emitPolicyStatusChange policyId st =
     bind clock (\<lambda>t. emit (PolicyStatusChange policyId (status_str st) t))"

definition notify_claim :: "string \<Rightarrow> ClaimStatus \<Rightarrow> ClaimStatus \<Rightarrow> string \<Rightarrow> string \<Rightarrow> unit act" where
  "notify_claim claimId from to actor reason =
     bind clock (\<lambda>t1.
     seq (emit (ClaimWebhook claimId (claim_status_str from) (claim_status_str to) t1 actor reason))
     (bind clock (\<lambda>t2.
      emit (ClaimStatusChange claimId (claim_status_str from) (claim_status_str to) actor t2 reason))))"

definition cache_invalidate :: "string \<Rightarrow> unit act" where
  "cache_invalidate policyId = seq await (emit (CacheInvalidate policyId))"

definition claimCountCache_delete :: "string \<Rightarrow> unit act" where
  "claimCountCache_delete wallet =
     modify (\<lambda>w. w\<lparr>claimCountCache := AList.delete wallet (claimCountCache w)\<rparr>)"

definition CONTRACT_ID :: rx where
  "CONTRACT_ID = rx_seq [rx_lit ''C'', rx_rep 55 (Cls (\<lambda>c. 65 \<le> (of_char c :: int) \<and> (of_char c :: int) \<le> 90
     \<or> 50 \<le> (of_char c :: int) \<and> (of_char c :: int) \<le> 55))]"

definition is_hex :: "char \<Rightarrow> bool" where
  "is_hex c \<longleftrightarrow> is_digit c \<or> 97 \<le> (of_char c :: int) \<and> (of_char c :: int) \<le> 102
     \<or> 65 \<le> (of_char c :: int) \<and> (of_char c :: int) \<le> 70"

definition TX_HASH :: rx where
  "TX_HASH = rx_rep 64 (Cls is_hex)"

definition contract_id :: "string act" where
  "contract_id = bind (asks (\<lambda>e. or_old (e_config e ''CLAIMS_PROCESSOR_CONTRACT'') [])) (\<lambda>contractId.
     if contractId = [] \<or> \<not> rx_test CONTRACT_ID contractId
     then throw (BadGatewayException ''CLAIMS_PROCESSOR_CONTRACT not configured or invalid format'')
     else ret contractId)"

section \<open>Automatic processing\<close>

datatype ClaimResult = Paid | Rejected | Expired | AlreadyClaimed | AlreadyProcessed
  | PolicyNotActive | PendingFinalPeriod

datatype Reservation = Duplicate Claim | LostRace | Reserved Claim

definition new_claim :: "string \<Rightarrow> string \<Rightarrow> int \<Rightarrow> ClaimStatus \<Rightarrow> Claim" where
  "new_claim policyId claimant amount st =
     \<lparr>c_id = [], c_policyId = policyId, c_claimant = claimant, c_coverageAmount = amount,
      c_payoutAmount = None, c_triggerMet = False, c_status = st, c_txHash = None,
      c_submittedAt = 0, c_processedAt = None, c_createdAt = 0\<rparr>"

definition gate_policy :: "(Policy \<Rightarrow> bool) \<Rightarrow> PolicyStatus \<Rightarrow> nat stmt" where
  "gate_policy P st = policy_updateMany P (\<lambda>r. r\<lparr>p_status := st, p_version := p_version r + 1\<rparr>)"

definition reserve_claim :: "string \<Rightarrow> Policy \<Rightarrow> Reservation stmt" where
  "reserve_claim policyId policy =
     s_bind (s_query (\<lambda>w. List.find (\<lambda>c. c_policyId c = policyId
               \<and> c_status c \<in> {C_PROCESSING, C_PAID, C_REJECTED}) (claims w))) (\<lambda>existing.
     case existing of
       Some c \<Rightarrow> s_ret (Duplicate c)
     | None \<Rightarrow>
         s_bind (gate_policy (\<lambda>r. p_id r = policyId \<and> p_status r = P_ACTIVE
                                 \<and> p_version r = p_version policy) P_PROCESSING) (\<lambda>count.
         if count = 0 then s_ret LostRace
         else s_bind (claim_create (new_claim policyId (p_policyholder policy)
                        (p_coverageXlm policy) C_PROCESSING)) (\<lambda>claim. s_ret (Reserved claim))))"

text \<open>The policy as this flow left it: the guard of its later writes.\<close>

definition gatedPolicy :: "string \<Rightarrow> Policy \<Rightarrow> Policy \<Rightarrow> bool" where
  "gatedPolicy policyId policy r \<longleftrightarrow>
     p_id r = policyId \<and> p_status r = P_PROCESSING \<and> p_version r = p_version policy + 1"

text \<open>\<^verbatim>\<open>new Date()\<close> inside a batch is the clock of the attempt.\<close>

definition claim_update_now :: "string \<Rightarrow> (int \<Rightarrow> Claim \<Rightarrow> Claim) \<Rightarrow> unit stmt" where
  "claim_update_now i f c w = claim_update i (f (now_ms c)) c w"

definition reject_claim :: "string \<Rightarrow> string \<Rightarrow> bool \<Rightarrow> string \<Rightarrow> ClaimResult act" where
  "reject_claim policyId claimId evaluated reason =
     seq (financialBatch (s_seq
            (claim_update_now claimId (\<lambda>t c. c\<lparr>c_status := C_REJECTED,
                c_triggerMet := (if evaluated then False else c_triggerMet c), c_processedAt := Some t\<rparr>))
            (auditOp ''Claim'' claimId ''PROCESSING'' ''REJECTED'' reason)))
     (seq (notify_claim claimId C_PROCESSING C_REJECTED ''system'' reason)
     (seq (cache_invalidate policyId) (ret Rejected)))"

definition fail_claim :: "string \<Rightarrow> Policy \<Rightarrow> string \<Rightarrow> string \<Rightarrow> string \<Rightarrow> ClaimResult act" where
  "fail_claim policyId policy claimId reason policyReason =
     seq (financialBatch
           (s_seq (claim_update_now claimId (\<lambda>t c. c\<lparr>c_status := C_FAILED, c_processedAt := Some t\<rparr>))
           (s_seq (gate_policy (gatedPolicy policyId policy) P_ACTIVE)
           (s_seq (auditOp ''Claim'' claimId ''PROCESSING'' ''FAILED'' reason)
                  (auditOp ''Policy'' policyId ''PROCESSING'' ''ACTIVE'' policyReason)))))
     (seq (emitPolicyStatusChange policyId P_ACTIVE)
     (seq (notify_claim claimId C_PROCESSING C_FAILED ''system'' reason)
     (seq (cache_invalidate policyId) (ret Rejected))))"

definition s_transition :: "PolicyStatus \<Rightarrow> PolicyStatus \<Rightarrow> unit stmt" where
  "s_transition from to =
     (case transition (status_str from) (status_str to) of Inl x \<Rightarrow> s_throw x | Inr _ \<Rightarrow> s_ret ())"

definition payout_call :: "string \<Rightarrow> string \<Rightarrow> string act" where
  "payout_call contractId policyId =
     seq waitForContractCallSlot
     (bind (invokeContract_call contractId ''process_claim'' [policyId]) (\<lambda>txHash.
      if \<not> rx_test TX_HASH txHash
      then throw (PlainError ''Unexpected Soroban response: invalid transaction hash'')
      else ret txHash))"

definition record_payout :: "string \<Rightarrow> Policy \<Rightarrow> string \<Rightarrow> string \<Rightarrow> nat stmt" where
  "record_payout policyId policy claimId txHash =
     s_seq (claim_update_now claimId (\<lambda>t c. c\<lparr>c_status := C_PAID, c_triggerMet := True,
              c_processedAt := Some t, c_txHash := Some txHash,
              c_payoutAmount := Some (p_coverageXlm policy)\<rparr>))
     (s_seq (s_transition P_PROCESSING P_CLAIMED)
     (s_bind (gate_policy (gatedPolicy policyId policy) P_CLAIMED) (\<lambda>count.
      s_seq (auditOp ''Claim'' claimId ''PROCESSING'' ''PAID'' (''Payout confirmed, txHash='' @ txHash))
      (s_ret count))))"

definition pay_claim :: "string \<Rightarrow> Policy \<Rightarrow> string \<Rightarrow> string \<Rightarrow> ClaimResult act" where
  "pay_claim policyId policy claimId txHash =
     bind (financialBatch (record_payout policyId policy claimId txHash)) (\<lambda>count.
     if count = 0 then ret Paid
     else
       let reason = ''Payout confirmed, txHash='' @ txHash in
       seq (catch (db (auditOp ''Policy'' policyId ''PROCESSING'' ''CLAIMED'' reason)) (\<lambda>_. ret ()))
       (seq (emitPolicyStatusChange policyId P_CLAIMED)
       (seq (notify_claim claimId C_PROCESSING C_PAID ''system'' reason)
       (seq (cache_invalidate policyId) (ret Paid)))))"

text \<open>The flow after the reservation: evaluate the trigger and settle the claim. A failure of the
  contract call is a \<open>None\<close> result of the \<^verbatim>\<open>try\<close> block.\<close>

definition settle_claim ::
    "string \<Rightarrow> Policy \<Rightarrow> OracleReading option \<Rightarrow> (string \<Rightarrow> ProductSummary option) option \<Rightarrow> string
      \<Rightarrow> ClaimResult act" where
  "settle_claim policyId policy reading productsMap claimId =
     (case reading of
        None \<Rightarrow> reject_claim policyId claimId False ''No oracle reading available''
      | Some rd \<Rightarrow>
          bind (case productsMap of Some m \<Rightarrow> ret (m (p_productId policy))
                | None \<Rightarrow> getProductById (p_productId policy)) (\<lambda>product.
          case product of
            None \<Rightarrow> fail_claim policyId policy claimId ''Product not found'' ''Reverted: product not found''
          | Some pr \<Rightarrow>
             (case parseDecimalScaled (\<lambda>_. []) (VStr (ps_threshold pr)) DEFAULT_DECIMAL_SCALE of
                Inl _ \<Rightarrow> fail_claim policyId policy claimId ''Non-numeric product threshold''
                           ''Reverted: non-numeric product threshold''
              | Inr threshold \<Rightarrow>
                  bind (lift (parseFixedPointBigInt (\<lambda>_. []) (VBigInt (or_value rd)) DEFAULT_DECIMAL_SCALE)) (\<lambda>value.
                  if \<not> compareScaledToThreshold value threshold (ps_comparison pr)
                  then reject_claim policyId claimId True ''Trigger condition not met''
                  else
                    bind contract_id (\<lambda>contractId.
                    bind (catch (bind (payout_call contractId policyId) (\<lambda>h. ret (Some h)))
                                (\<lambda>err. ret None)) (\<lambda>called.
                    case called of
                      None \<Rightarrow> fail_claim policyId policy claimId ''On-chain payout failed''
                                ''Reverted: on-chain payout failed''
                    | Some txHash \<Rightarrow> pay_claim policyId policy claimId txHash))))))"

definition autoProcess ::
    "string \<Rightarrow> (string \<Rightarrow> ProductSummary option) option \<Rightarrow> ClaimResult act" where
  "autoProcess policyId productsMap =
     bind (readClaimEvaluationSnapshot policyId) (\<lambda>(snapshot, reading).
     case snapshot of
       None \<Rightarrow> ret PolicyNotActive
     | Some policy \<Rightarrow>
         if p_status policy \<noteq> P_ACTIVE then ret PolicyNotActive
         else
           bind clock (\<lambda>t1.
           if t1 > p_endTime policy then ret Expired
           else
             bind clock (\<lambda>t2.
             if t2 < p_endTime policy then ret PendingFinalPeriod
             else
               bind (financialTransaction (reserve_claim policyId policy)) (\<lambda>reservation.
               case reservation of
                 Duplicate _ \<Rightarrow> ret AlreadyProcessed
               | LostRace \<Rightarrow> ret AlreadyProcessed
               | Reserved claim \<Rightarrow>
                   seq (catch (db (auditOp ''Policy'' policyId ''ACTIVE'' ''PROCESSING''
                          ''autoProcess claim evaluation started'')) (\<lambda>_. ret ()))
                   (seq (emitPolicyStatusChange policyId P_PROCESSING)
                   (seq (cache_invalidate policyId)
                   (seq (claimCountCache_delete (p_policyholder policy))
                   (settle_claim policyId policy reading productsMap (c_id claim)))))))))"

section \<open>The flows keep the contract\<close>

lemma can_moves:
  "can_move P_ACTIVE P_PROCESSING" "can_move P_PROCESSING P_ACTIVE" "can_move P_PROCESSING P_CLAIMED"
  "can_move P_ACTIVE P_EXPIRED"
  unfolding can_move_iff by simp_all

lemma within_gate: "(\<And>r. P r \<Longrightarrow> can_move (p_status r) t) \<Longrightarrow> stmt_within evolves (gate_policy P t)"
  unfolding gate_policy_def by (rule within_status_write)

lemma within_auditOp: "stmt_within evolves (auditOp a b c d r)"
  unfolding auditOp_def by (rule within_auditLog_create)

lemma within_claim_update_now:
  "(\<And>t r. claim_evolves r (f t r)) \<Longrightarrow> stmt_within evolves (claim_update_now i f)"
  using within_claim_update unfolding stmt_within_def claim_update_now_def by blast

lemma within_s_transition: "stmt_within evolves (s_transition a b)"
  unfolding s_transition_def by (auto intro: evolves_rules split: sum.splits)

lemma within_reserve: "stmt_within evolves (reserve_claim i p)"
  unfolding reserve_claim_def
  by (auto intro!: evolves_rules within_gate can_moves split: option.splits simp del: status_str.simps)

lemma within_record_payout: "stmt_within evolves (record_payout i p c h)"
  unfolding record_payout_def
  by (auto intro!: evolves_rules within_gate within_auditOp within_claim_update_now within_s_transition
      can_moves simp: gatedPolicy_def claim_evolves_def simp del: status_str.simps)

lemma guar_invoke: "guarantees evolves (invokeContract_call i f a)"
proof -
  have "evolves w (v\<lparr>chainCalls := chainCalls v @ l\<rparr>)" if "evolves w v" for w v l
    using that by (auto simp: evolves_def claim_findUnique_def policy_findUnique_def prefix_def)
  then show ?thesis by (auto simp: guarantees_def invokeContract_call_def)
qed

lemma guar_notify:
  "guarantees evolves (emitPolicyStatusChange i st)" "guarantees evolves (notify_claim i a b c r)"
  "guarantees evolves (cache_invalidate i)" "guarantees evolves (claimCountCache_delete x)"
  "guarantees evolves waitForContractCallSlot" "guarantees evolves contract_id"
  unfolding emitPolicyStatusChange_def notify_claim_def cache_invalidate_def
    claimCountCache_delete_def waitForContractCallSlot_def contract_id_def
  by (auto intro!: evolves_rules)

lemmas claim_rules = evolves_rules within_gate within_auditOp within_claim_update_now
  within_s_transition within_reserve within_record_payout guar_invoke guar_notify can_moves
  guar_getProductById

lemma guar_settlements:
  "guarantees evolves (reject_claim i c b r)" "guarantees evolves (fail_claim i p c r r')"
  "guarantees evolves (pay_claim i p c h)" "guarantees evolves (payout_call k i)"
  unfolding reject_claim_def fail_claim_def pay_claim_def payout_call_def Let_def
  by (auto intro!: claim_rules simp: gatedPolicy_def claim_evolves_def simp del: status_str.simps)

lemma guar_settle_claim: "guarantees evolves (settle_claim i p rd m c)"
  unfolding settle_claim_def
  by (auto intro!: claim_rules guar_settlements split: option.splits sum.splits)

lemma guar_autoProcess: "guarantees evolves (autoProcess i m)"
  unfolding autoProcess_def readClaimEvaluationSnapshot_def
  by (auto intro!: claim_rules guar_settle_claim split: option.splits Reservation.splits)

end
