(* ===== verification/Claim_Payout.thy ===== *)
theory Claim_Payout
  imports Claims_Service
begin

text \<open>
  What \<^verbatim>\<open>autoProcess\<close> achieves: when it calls the contract, that a policy state is processed
  only once, and what it leaves behind when it pays, when the trigger is not met and when the
  payout fails.
\<close>

section \<open>Vocabulary\<close>

text \<open>The text of a decimal column is read back exactly.\<close>

definition decimal_text :: "env \<Rightarrow> bool" where
  "decimal_text e \<longleftrightarrow>
     (\<forall>d. parseDecimalScaled (\<lambda>_. []) (VStr (e_decStr e d)) DEFAULT_DECIMAL_SCALE = Inr d)"

text \<open>The trigger of a product on the exact values.\<close>

definition trigger_met :: "Product \<Rightarrow> OracleReading \<Rightarrow> bool" where
  "trigger_met pr rd \<longleftrightarrow>
     (if pr_comparison pr = ''LessThan'' then or_value rd < pr_threshold pr
      else or_value rd > pr_threshold pr)"

text \<open>A policy that may be settled now: it is live, its last millisecond has come, nothing blocks a
  new claim, and the tables are consistent.\<close>

definition due :: "env \<Rightarrow> string \<Rightarrow> world \<Rightarrow> Policy \<Rightarrow> bool" where
  "due e i w p \<longleftrightarrow> policy_findUnique i w = Some p \<and> p_status p = P_ACTIVE
     \<and> (\<forall>j. e_clock e j = p_endTime p) \<and> policies_ok (policies w) \<and> claims_ok (claims w)
     \<and> (\<forall>c \<in> set (claims w). c_policyId c = i \<longrightarrow> c_status c \<in> {C_FAILED, C_EXPIRED})
     \<and> (\<forall>j. e_uuid e j \<notin> c_id ` set (claims w))"

text \<open>The claim row that the reservation inserts.\<close>

definition due_claim :: "string \<Rightarrow> Policy \<Rightarrow> string \<Rightarrow> Claim" where
  "due_claim i p cid = (new_claim i (p_policyholder p) (p_coverageXlm p) C_PROCESSING)
     \<lparr>c_id := cid, c_submittedAt := p_endTime p, c_createdAt := p_endTime p\<rparr>"

section \<open>Samples\<close>

definition sample_policy :: Policy where
  "sample_policy = \<lparr>p_id = ''p1'', p_productId = ''crop'', p_policyholder = ''GA'', p_coverageXlm = 5000000000,
     p_premiumPaid = 250000000, p_premiumRate = 500, p_premiumRateVersion = 1, p_oracleKey = ''rain'',
     p_startTime = 0, p_endTime = 1000, p_status = P_ACTIVE, p_version = 0, p_txHash = None,
     p_createdAt = 0, p_updatedAt = 0\<rparr>"

definition sample_row :: Product where
  "sample_row = \<lparr>pr_id = ''crop'', pr_name = ''Crop'', pr_category = ''crop'', pr_triggerType = ''Rainfall'',
     pr_threshold = 500000000, pr_comparison = ''LessThan'', pr_coverageMin = 100000000,
     pr_coverageMax = 10000000000, pr_premiumRate = 500, pr_premiumRateVersion = 1,
     pr_maxDuration = 90, pr_status = PR_ACTIVE\<rparr>"

definition sample_reading :: "int \<Rightarrow> OracleReading" where
  "sample_reading v = \<lparr>or_id = ''r1'', or_dataType = ''rainfall'', or_key = ''rain'', or_value = v,
     or_confidence = 90, or_source = ''noaa'', or_bucketStart = 0, or_onChainSubmitted = False,
     or_onChainTxHash = None, or_submittedAt = 900\<rparr>"

definition sample_world :: "int \<Rightarrow> world" where
  "sample_world v = empty_world\<lparr>policies := [sample_policy], products := [sample_row],
     oracleReadings := [sample_reading v]\<rparr>"

definition sample_contract :: string where
  "sample_contract = CHR ''C'' # replicate 55 (CHR ''A'')"

definition sample_env :: "int \<Rightarrow> env" where
  "sample_env t = (quiet_env t)\<lparr>e_decStr := formatStroops, e_config := (\<lambda>k.
     if k = ''CLAIMS_PROCESSOR_CONTRACT'' then Some sample_contract else None)\<rparr>"

definition pending_world :: world where
  "pending_world = (sample_world 400000000)\<lparr>claims := [(new_claim ''p1'' ''GA'' 5000000000 C_PENDING)\<lparr>c_id := ''c1''\<rparr>]\<rparr>"

section \<open>At most one payout call\<close>

lemma silent_within:
  "stmt_within silent (gate_policy P t)" "stmt_within silent (auditOp a b x d r)"
  "stmt_within silent (claim_update_now i f)" "stmt_within silent (claim_create cl)"
  "stmt_within silent (s_transition st st')"
  by (auto simp: stmt_within_def gate_policy_def policy_updateMany_def auditOp_def auditLog_create_def
      claim_update_now_def claim_update_def claim_updateMany_def s_bind_def s_throw_def s_ret_def
      claim_create_def s_transition_def silent_def Let_def split: if_splits prod.splits sum.splits)

lemma silent_steps:
  "guarantees silent (emit ev)" "guarantees silent (emitPolicyStatusChange i st)"
  "guarantees silent (notify_claim i a b c r)"
  "guarantees silent (cache_invalidate i)" "guarantees silent (claimCountCache_delete x)"
  "guarantees silent waitForContractCallSlot" "guarantees silent contract_id"
  "guarantees silent (getProductById p)"
  unfolding emitPolicyStatusChange_def notify_claim_def cache_invalidate_def emit_def
    claimCountCache_delete_def waitForContractCallSlot_def contract_id_def getProductById_def
  by (auto intro!: si.guar si.guar_modify simp: silent_def)

lemma silent_settlements:
  "guarantees silent (reject_claim i c b r)" "guarantees silent (fail_claim i p c r r')"
  "guarantees silent (pay_claim i p c h)"
  unfolding reject_claim_def fail_claim_def pay_claim_def record_payout_def Let_def
  by (auto intro!: si.guar silent_within silent_steps)

lemma silent_reserve: "stmt_within silent (reserve_claim i p)"
  unfolding reserve_claim_def by (auto intro!: si.guar silent_within split: option.splits)

text \<open>The only call of the flow.\<close>

abbreviation pays_for :: "string \<Rightarrow> string \<times> string \<times> string list \<Rightarrow> bool" where
  "pays_for i c \<equiv> (\<exists>k. c = (k, ''process_claim'', [i]))"

lemma once_payout: "calls_at_most e (pays_for i) (payout_call k i)"
proof -
  have "calls_at_most e (pays_for i) (invokeContract_call k ''process_claim'' [i])"
    unfolding calls_at_most_def invokeContract_call_def by (auto simp: silent_def)
  then show ?thesis
    unfolding payout_call_def
    by (intro calls_silent_bind [OF silent_steps(6)] calls_then_silent) (auto intro!: si.guar)
qed

lemma once_pay_or_fail:
  "(\<And>x. guarantees silent (f x)) \<Longrightarrow>
   calls_at_most e (pays_for i) (bind (catch (bind (payout_call k i) (\<lambda>h. ret (Some h))) (\<lambda>err. ret None)) f)"
  by (rule calls_then_silent [OF calls_catch [OF calls_then_silent [OF once_payout]]]) (rule si.guar | assumption)+

lemma once_settle: "calls_at_most e (pays_for i) (settle_claim i p rd m c)"
  unfolding settle_claim_def
  by (simp split: option.split sum.split, intro conjI allI impI)
    (rule calls_silent [OF silent_settlements(1)] calls_silent [OF silent_settlements(2)] once_pay_or_fail
      calls_silent_bind [OF si.guar_lift] calls_silent_bind [OF silent_steps(7)]
      calls_silent_bind [OF si.guar_ret] calls_silent_bind [OF silent_steps(8)] silent_settlements
      | (simp split: option.split sum.split, intro conjI allI impI))+

lemma once_autoProcess: "calls_at_most e (pays_for i) (autoProcess i m)"
  unfolding autoProcess_def readClaimEvaluationSnapshot_def
  by (rule calls_silent_bind si.guar once_settle silent_reserve silent_within silent_steps
      | (simp split: prod.split option.split Reservation.split add: calls_silent si.guar, intro conjI allI impI))+

lemma autoProcess_early_exit:
  assumes "e_dbfail e n = None" and "policy_findUnique i (e_rely e n w) = Some p"
  shows "p_status p \<noteq> P_ACTIVE \<Longrightarrow> autoProcess i m e (n, w) = (Inr PolicyNotActive, (Suc n, e_rely e n w))"
    and "p_status p = P_ACTIVE \<Longrightarrow> e_clock e (Suc n) > p_endTime p \<Longrightarrow>
      autoProcess i m e (n, w) = (Inr Expired, (Suc (Suc n), e_rely e n w))"
    and "p_status p = P_ACTIVE \<Longrightarrow> e_clock e (Suc n) \<le> p_endTime p \<Longrightarrow>
      e_clock e (Suc (Suc n)) < p_endTime p \<Longrightarrow>
      autoProcess i m e (n, w) = (Inr PendingFinalPeriod, (Suc (Suc (Suc n)), e_rely e n w))"
  using assms
  by (simp_all add: autoProcess_def readClaimEvaluationSnapshot_def bind_def db_def s_query_def
      ret_def clock_def Let_def)

lemma autoProcess_no_policy:
  "e_dbfail e n = None \<Longrightarrow> policy_findUnique i (e_rely e n w) = None \<Longrightarrow>
   autoProcess i m e (n, w) = (Inr PolicyNotActive, (Suc n, e_rely e n w))"
  "e_dbfail e n = Some x \<Longrightarrow> autoProcess i m e (n, w) = (Inl x, (Suc n, e_rely e n w))"
  by (simp_all add: autoProcess_def readClaimEvaluationSnapshot_def bind_def db_def s_query_def
      ret_def Let_def)

text \<open>
  A payout is only ever attempted on the policy's last millisecond, and at most once per run: if
  a run of \<^verbatim>\<open>autoProcess\<close> calls the claims contract (and no one else does meanwhile), it calls
  \<^verbatim>\<open>process_claim\<close> for this policy exactly once, the policy was ACTIVE in its snapshot, and its
  end time lay between the two clock reads that follow the snapshot. A run whose clock is before
  or after the end time calls nothing.
\<close>

theorem autoProcess_payout_window:
  assumes "\<forall>k v. chainCalls (e_rely e k v) = chainCalls v"
    and "autoProcess i m e (n, w) = (r, (n', w'))"
    and "chainCalls w' \<noteq> chainCalls w"
  shows "\<exists>p k. policy_findUnique i (e_rely e n w) = Some p \<and> p_status p = P_ACTIVE
     \<and> e_clock e (n + 1) \<le> p_endTime p \<and> p_endTime p \<le> e_clock e (n + 2)
     \<and> chainCalls w' = chainCalls w @ [(k, ''process_claim'', [i])]"
proof -
  from assms(1) have rely: "\<forall>k v. silent v (e_rely e k v)" by (simp add: silent_def)
  with once_autoProcess [of e i m] assms(2,3) obtain k where
    k: "chainCalls w' = chainCalls w @ [(k, ''process_claim'', [i])]"
    unfolding calls_at_most_def by fastforce
  have ok: "e_dbfail e n = None" using autoProcess_no_policy(2) assms by (cases "e_dbfail e n") force+
  with autoProcess_no_policy(1) assms obtain p where p: "policy_findUnique i (e_rely e n w) = Some p"
    by (cases "policy_findUnique i (e_rely e n w)") force+
  have "p_status p = P_ACTIVE \<and> e_clock e (Suc n) \<le> p_endTime p \<and> p_endTime p \<le> e_clock e (Suc (Suc n))"
    using autoProcess_early_exit [OF ok p] assms by (metis not_le_imp_less prod.inject)
  with p k show ?thesis by (auto simp: numeral_2_eq_2)
qed

section \<open>The reservation is exclusive\<close>

lemma reserved_gate:
  assumes "reserve_claim i p c w = (Inr (Reserved cl), v)"
  obtains q where "policy_findUnique i w = Some q" "p_status q = P_ACTIVE" "p_version q = p_version p"
    "policy_findUnique i v =
       Some (q\<lparr>p_status := P_PROCESSING, p_version := p_version q + 1, p_updatedAt := now_ms c\<rparr>)"
proof -
  from assms obtain k u where
    gate: "gate_policy (\<lambda>r. p_id r = i \<and> p_status r = P_ACTIVE \<and> p_version r = p_version p)
       P_PROCESSING c w = (Inr k, u)" and k: "k \<noteq> 0"
    and create: "claim_create (new_claim i (p_policyholder p) (p_coverageXlm p) C_PROCESSING) c u = (Inr cl, v)"
    by (auto simp: reserve_claim_def returns split: option.splits if_splits)
  obtain q where q: "policy_findUnique i w = Some q"
      "p_id q = i \<and> p_status q = P_ACTIVE \<and> p_version q = p_version p"
      "policy_findUnique i u =
         Some (q\<lparr>p_status := P_PROCESSING, p_version := p_version q + 1, p_updatedAt := now_ms c\<rparr>)"
    by (rule status_write_hit [OF gate [unfolded gate_policy_def] k, of i]) simp_all
  moreover have "policy_findUnique i v = policy_findUnique i u"
    using create by (auto simp: claim_create_def Let_def policy_findUnique_def split: if_splits)
  ultimately show thesis using that [of q] by auto
qed

text \<open>
  C4. Only one run can process a given state of a policy: once a run has reserved the policy at some
  version, no later reservation by a run that read the same version succeeds, whatever happened in
  between (revert, re-gate, cancellation), and nothing that any writer does can make it succeed
  again.
\<close>

theorem reservation_exclusive:
  assumes "reserve_claim i p c w = (Inr (Reserved cl), v)"
    and "evolves v u"
    and "p_version p' \<le> p_version p"
  shows "reserve_claim i p' c' u \<noteq> (Inr (Reserved cl'), u')"
proof
  assume again: "reserve_claim i p' c' u = (Inr (Reserved cl'), u')"
  from assms(1) obtain q where q: "policy_findUnique i v = Some q" "p_version q = p_version p + 1"
    by (rule reserved_gate) simp
  with assms(2) obtain q' where "policy_findUnique i u = Some q'" "p_version q \<le> p_version q'"
    by (auto elim!: evolves_policy simp: policy_evolves_def)
  moreover from again obtain r where "policy_findUnique i u = Some r" "p_version r = p_version p'"
    by (rule reserved_gate)
  ultimately show False using q assms(3) by simp
qed

section \<open>Runs without interference\<close>

text \<open>How the shared effects run when nothing interferes.\<close>

lemma quiet_runs:
  assumes "quiet e"
  shows "emit ev e (n, w) = (Inr (), (n, w\<lparr>outbox := outbox w @ [ev]\<rparr>))"
    and "emitPolicyStatusChange i st e (n, w) =
      (Inr (), (Suc n, w\<lparr>outbox := outbox w @ [PolicyStatusChange i (status_str st) (e_clock e n)]\<rparr>))"
    and "notify_claim c from to a r e (n, w) = (Inr (), (Suc (Suc n), w\<lparr>outbox := outbox w @
        [ClaimWebhook c (claim_status_str from) (claim_status_str to) (e_clock e n) a r,
         ClaimStatusChange c (claim_status_str from) (claim_status_str to) a (e_clock e (Suc n)) r]\<rparr>))"
    and "cache_invalidate i e (n, w) = (Inr (), (Suc n, w\<lparr>outbox := outbox w @ [CacheInvalidate i]\<rparr>))"
    and "claimCountCache_delete x e (n, w) =
      (Inr (), (n, w\<lparr>claimCountCache := AList.delete x (claimCountCache w)\<rparr>))"
    and "catch (db (auditOp ty j from' to' r)) (\<lambda>_. ret ()) e (n, w) = (Inr (), (Suc n, w\<lparr>auditLogs := auditLogs w @
        [\<lparr>au_entityType = ty, au_entityId = j, au_fromStatus = from', au_toStatus = to',
          au_reason = Some r, au_occurredAt = e_clock e n\<rparr>]\<rparr>))"
    and "\<exists>n' t. waitForContractCallSlot e (n, w) = (Inr (), (n', w\<lparr>nextContractCallAt := t\<rparr>))"
  using assms
  by (auto simp: quiet_def emit_def modify_def emitPolicyStatusChange_def notify_claim_def clock_def
      bind_def cache_invalidate_def await_def claimCountCache_delete_def catch_def db_def auditOp_def
      auditLog_create_def Let_def waitForContractCallSlot_def gets_def ret_def)

lemma policies_ok_status:
  "policies_ok ps \<Longrightarrow>
   policies_ok (map (\<lambda>r. if P r then r\<lparr>p_status := t, p_version := v r, p_updatedAt := u\<rparr> else r) ps)"
proof -
  let ?g = "\<lambda>r. if P r then r\<lparr>p_status := t, p_version := v r, p_updatedAt := u\<rparr> else r"
  assume ok: "policies_ok ps"
  have eqs: "map p_id (map ?g ps) = map p_id ps" "map p_txHash (map ?g ps) = map p_txHash ps"
    "map (\<lambda>r. (p_policyholder r, p_productId r, p_oracleKey r)) (map ?g ps) =
     map (\<lambda>r. (p_policyholder r, p_productId r, p_oracleKey r)) ps" by simp_all
  show ?thesis using ok unfolding policies_ok_def eqs .
qed

text \<open>A status write that hits exactly the policy it names.\<close>

lemma gate_hits:
  assumes ok: "policies_ok (policies w)" and q: "policy_findUnique i w = Some q" "P q"
    and P: "\<And>r. P r \<Longrightarrow> p_id r = i"
  shows "\<exists>ps. gate_policy P t c w = (Inr 1, w\<lparr>policies := ps\<rparr>) \<and> policies_ok ps
     \<and> List.find (\<lambda>r. p_id r = i) ps =
         Some (q\<lparr>p_status := t, p_version := p_version q + 1, p_updatedAt := now_ms c\<rparr>)"
proof -
  let ?g = "\<lambda>r. r\<lparr>p_status := t, p_version := p_version r + 1, p_updatedAt := now_ms c\<rparr>"
  let ?ps = "map (\<lambda>r. if P r then ?g r else r) (policies w)"
  have ok': "policies_ok ?ps" using policies_ok_status [OF ok] .
  have "q \<in> set (policies w)" using q(1) by (auto simp: policy_findUnique_def dest: find_SomeD)
  then have "length (filter P (policies w)) \<noteq> 0" using q(2) by (auto simp: filter_empty_conv)
  moreover have "length (filter P (policies w)) \<le> 1"
    using ok length_filter_distinct_le [of p_id "policies w" P i] P by (auto simp: policies_ok_def)
  ultimately have "length (filter P (policies w)) = 1" by linarith
  moreover have "List.find (\<lambda>r. p_id r = i) ?ps = Some (?g q)"
    using q by (subst find_map_if) (simp_all add: policy_findUnique_def)
  ultimately show ?thesis
    using ok' by (intro exI [of _ ?ps]) (simp add: gate_policy_def policy_updateMany_def Let_def)
qed


lemma claims_ok_snoc:
  assumes "claims_ok cs" "c_id c \<notin> c_id ` set cs" "c_txHash c = None"
    "non_terminal c \<Longrightarrow> \<forall>d \<in> set cs. non_terminal d \<longrightarrow> c_policyId d \<noteq> c_policyId c"
  shows "claims_ok (cs @ [c])"
  using assms by (auto simp: claims_ok_def)

lemma claims_ok_settle:
  assumes "claims_ok (cs @ [c])" "c_id d = c_id c" "\<not> non_terminal d"
    "c_txHash d = None \<or> c_txHash d \<notin> c_txHash ` set cs"
  shows "claims_ok (cs @ [d])"
  using assms by (auto simp: claims_ok_def)

lemma map_update_last:
  "c_id c \<notin> c_id ` set cs \<Longrightarrow>
   map (\<lambda>r. if c_id r = c_id c then f r else r) (cs @ [c]) = cs @ [f c]
   \<and> length (filter (\<lambda>r. c_id r = c_id c) (cs @ [c])) = 1"
  by (auto intro!: map_idI simp: filter_empty_conv) (metis image_eqI)+

lemma claim_update_last:
  assumes "claims w = cs @ [c]" "c_id c \<notin> c_id ` set cs" "claims_ok (cs @ [f c])"
  shows "claim_update (c_id c) f k w = (Inr (), w\<lparr>claims := cs @ [f c]\<rparr>)"
  using assms map_update_last [of c cs f]
  by (simp add: claim_update_def claim_updateMany_def s_bind_def s_ret_def Let_def)

text \<open>Reserving a policy that no other claim blocks.\<close>

lemma reserve_fresh:
  assumes p: "policy_findUnique i w = Some p" "p_status p = P_ACTIVE"
    and ok: "policies_ok (policies w)" "claims_ok (claims w)"
    and free: "\<forall>c \<in> set (claims w). c_policyId c = i \<longrightarrow> c_status c \<in> {C_FAILED, C_EXPIRED}"
    and fresh: "fresh_id k \<notin> c_id ` set (claims w)"
  shows "\<exists>ps. let cl = (new_claim i (p_policyholder p) (p_coverageXlm p) C_PROCESSING)
                 \<lparr>c_id := fresh_id k, c_submittedAt := now_ms k, c_createdAt := now_ms k\<rparr> in
     reserve_claim i p k w = (Inr (Reserved cl), w\<lparr>policies := ps, claims := claims w @ [cl]\<rparr>)
     \<and> policies_ok ps \<and> claims_ok (claims w @ [cl])
     \<and> List.find (\<lambda>r. p_id r = i) ps =
         Some (p\<lparr>p_status := P_PROCESSING, p_version := p_version p + 1, p_updatedAt := now_ms k\<rparr>)"
proof -
  let ?cl = "(new_claim i (p_policyholder p) (p_coverageXlm p) C_PROCESSING)
    \<lparr>c_id := fresh_id k, c_submittedAt := now_ms k, c_createdAt := now_ms k\<rparr>"
  have id: "p_id p = i" using p(1) by (auto simp: policy_findUnique_def dest: find_SomeD)
  obtain ps where ps: "gate_policy (\<lambda>r. p_id r = i \<and> p_status r = P_ACTIVE \<and> p_version r = p_version p)
      P_PROCESSING k w = (Inr 1, w\<lparr>policies := ps\<rparr>)" "policies_ok ps"
    "List.find (\<lambda>r. p_id r = i) ps =
         Some (p\<lparr>p_status := P_PROCESSING, p_version := p_version p + 1, p_updatedAt := now_ms k\<rparr>)"
    using gate_hits [OF ok(1) p(1), of "\<lambda>r. p_id r = i \<and> p_status r = P_ACTIVE \<and> p_version r = p_version p"
        P_PROCESSING k] p id by auto
  have ok': "claims_ok (claims w @ [?cl])"
    using free fresh by (intro claims_ok_snoc ok) (auto simp: new_claim_def non_terminal_def)
  have none: "List.find (\<lambda>c. c_policyId c = i \<and> c_status c \<in> {C_PROCESSING, C_PAID, C_REJECTED}) (claims w) = None"
    using free by (auto simp: find_None_iff)
  show ?thesis
    using ps ok' none
    by (intro exI [of _ ps]) (simp add: reserve_claim_def s_bind_def s_query_def claim_create_def s_ret_def Let_def)
qed

lemma record_payout_run:
  assumes w: "claims w = cs @ [c]" "c_id c \<notin> c_id ` set cs" "claims_ok (cs @ [c])"
    and h: "Some h \<notin> c_txHash ` set cs"
    and q: "policy_findUnique i w = Some q" "gatedPolicy i p q" "policies_ok (policies w)"
  shows "\<exists>ps as. record_payout i p (c_id c) h k w = (Inr 1, w\<lparr>policies := ps,
        claims := cs @ [c\<lparr>c_status := C_PAID, c_triggerMet := True, c_processedAt := Some (now_ms k),
                        c_txHash := Some h, c_payoutAmount := Some (p_coverageXlm p)\<rparr>],
        auditLogs := auditLogs w @ [as]\<rparr>)
     \<and> List.find (\<lambda>r. p_id r = i) ps =
         Some (q\<lparr>p_status := P_CLAIMED, p_version := p_version q + 1, p_updatedAt := now_ms k\<rparr>)"
proof -
  let ?f = "\<lambda>c. c\<lparr>c_status := C_PAID, c_triggerMet := True, c_processedAt := Some (now_ms k),
    c_txHash := Some h, c_payoutAmount := Some (p_coverageXlm p)\<rparr>"
  let ?w = "w\<lparr>claims := cs @ [?f c]\<rparr>"
  have "claims_ok (cs @ [?f c])"
    using w(3) h by (rule_tac claims_ok_settle [OF w(3)]) (auto simp: non_terminal_def)
  then have u: "claim_update (c_id c) ?f k w = (Inr (), ?w)" by (rule claim_update_last [OF w(1,2)])
  obtain ps where ps: "gate_policy (gatedPolicy i p) P_CLAIMED k ?w = (Inr 1, ?w\<lparr>policies := ps\<rparr>)"
    "List.find (\<lambda>r. p_id r = i) ps =
         Some (q\<lparr>p_status := P_CLAIMED, p_version := p_version q + 1, p_updatedAt := now_ms k\<rparr>)"
    using gate_hits [of ?w i q "gatedPolicy i p" P_CLAIMED k] q
    by (auto simp: policy_findUnique_def gatedPolicy_def)
  have t: "s_transition P_PROCESSING P_CLAIMED = s_ret ()"
    by (simp add: s_transition_def transition_def canTransition_def VALID_TRANSITIONS_def)
  obtain a where a: "\<And>v. auditOp ''Claim'' (c_id c) ''PROCESSING'' ''PAID'' (''Payout confirmed, txHash='' @ h) k v
      = (Inr (), v\<lparr>auditLogs := auditLogs v @ [a]\<rparr>)"
    by (auto simp: auditOp_def auditLog_create_def)
  show ?thesis
    using u ps a by (intro exI [of _ ps] exI [of _ a])
      (simp add: record_payout_def claim_update_now_def s_bind_def t s_ret_def)
qed

lemma pay_claim_run:
  assumes "quiet e"
    and w: "claims w = cs @ [c]" "c_id c \<notin> c_id ` set cs" "claims_ok (cs @ [c])"
    and h: "Some h \<notin> c_txHash ` set cs"
    and q: "policy_findUnique i w = Some q" "gatedPolicy i p q" "policies_ok (policies w)"
  shows "\<exists>n' w'. pay_claim i p (c_id c) h e (n, w) = (Inr Paid, (n', w'))
     \<and> policy_findUnique i w' =
         Some (q\<lparr>p_status := P_CLAIMED, p_version := p_version q + 1, p_updatedAt := e_clock e n\<rparr>)
     \<and> claims w' = cs @ [c\<lparr>c_status := C_PAID, c_triggerMet := True, c_processedAt := Some (e_clock e n),
                        c_txHash := Some h, c_payoutAmount := Some (p_coverageXlm p)\<rparr>]
     \<and> chainCalls w' = chainCalls w \<and> length (auditLogs w') = length (auditLogs w) + 2"
proof -
  obtain ps a where run: "record_payout i p (c_id c) h (tx_ctx e n) w = (Inr 1, w\<lparr>policies := ps,
        claims := cs @ [c\<lparr>c_status := C_PAID, c_triggerMet := True, c_processedAt := Some (e_clock e n),
                        c_txHash := Some h, c_payoutAmount := Some (p_coverageXlm p)\<rparr>],
        auditLogs := auditLogs w @ [a]\<rparr>)"
    and ps: "List.find (\<lambda>r. p_id r = i) ps =
         Some (q\<lparr>p_status := P_CLAIMED, p_version := p_version q + 1, p_updatedAt := e_clock e n\<rparr>)"
    using record_payout_run [OF w h q, of "tx_ctx e n"] by auto
  show ?thesis
    using ps
    by (simp add: pay_claim_def bind_def quiet_financial(2) [where st = "record_payout i p (c_id c) h", OF assms(1) run] quiet_runs [OF assms(1)]
        Let_def ret_def policy_findUnique_def)
qed

lemma autoProcess_to_settle:
  assumes quiet: "quiet e" and due: "due e i w p"
  obtains n1 w1 cid where "cid \<notin> c_id ` set (claims w)"
    "autoProcess i m e (n, w) = settle_claim i p (latest_reading (p_oracleKey p) w) m cid e (n1, w1)"
    "policies_ok (policies w1)" "claims w1 = claims w @ [due_claim i p cid]"
    "claims_ok (claims w @ [due_claim i p cid])"
    "policy_findUnique i w1 =
       Some (p\<lparr>p_status := P_PROCESSING, p_version := p_version p + 1, p_updatedAt := p_endTime p\<rparr>)"
    "products w1 = products w" "chainCalls w1 = chainCalls w"
    "length (auditLogs w1) = length (auditLogs w) + 1"
proof -
  let ?c = "tx_ctx e (Suc (Suc (Suc n)))"
  have t: "\<forall>j. e_clock e j = p_endTime p" and p: "policy_findUnique i w = Some p" "p_status p = P_ACTIVE"
    using due by (auto simp: due_def)
  have new: "e_uuid e (Suc (Suc (Suc n))) \<notin> c_id ` set (claims w)" using due by (simp add: due_def)
  let ?cl = "due_claim i p (e_uuid e (Suc (Suc (Suc n))))"
  obtain ps where run: "reserve_claim i p ?c w = (Inr (Reserved ?cl), w\<lparr>policies := ps, claims := claims w @ [?cl]\<rparr>)"
    and ps: "policies_ok ps" "claims_ok (claims w @ [?cl])"
      "List.find (\<lambda>r. p_id r = i) ps =
         Some (p\<lparr>p_status := P_PROCESSING, p_version := p_version p + 1, p_updatedAt := p_endTime p\<rparr>)"
    using reserve_fresh [of i w p ?c] due by (auto simp: Let_def due_def due_claim_def)
  show thesis
    using that [of "e_uuid e (Suc (Suc (Suc n)))"] new ps quiet p t
      quiet_financial(1) [where st = "reserve_claim i p", OF quiet run] quiet_runs [OF quiet]
    by (simp add: autoProcess_def readClaimEvaluationSnapshot_def bind_def db_def quiet_def s_query_def
        clock_def policy_findUnique_def due_claim_def)
qed

text \<open>Which branch the trigger selects.\<close>

lemma settle_product:
  assumes quiet: "quiet e"
    and pr: "List.find (\<lambda>pr. pr_id pr = p_productId p \<and> pr_status pr = PR_ACTIVE) (products w) = Some pr"
    and dec: "decimal_text e"
  shows "settle_claim i p (Some rd) None c e (n, w) =
     (if trigger_met pr rd
      then bind contract_id (\<lambda>contractId.
           bind (catch (bind (payout_call contractId i) (\<lambda>h. ret (Some h))) (\<lambda>err. ret None)) (\<lambda>called.
           case called of
             None \<Rightarrow> fail_claim i p c ''On-chain payout failed'' ''Reverted: on-chain payout failed''
           | Some txHash \<Rightarrow> pay_claim i p c txHash))
      else reject_claim i c True ''Trigger condition not met'') e (Suc n, w)"
proof -
  have get: "getProductById (p_productId p) e (n, w) = (Inr (Some (mapProduct (e_decStr e) pr)), (Suc n, w))"
    using quiet pr by (simp add: getProductById_def bind_def asks_def db_def quiet_def s_query_def ret_def Let_def)
  have thr: "parseDecimalScaled (\<lambda>_. []) (VStr (ps_threshold (mapProduct (e_decStr e) pr))) DEFAULT_DECIMAL_SCALE
      = Inr (pr_threshold pr)"
    using dec by (simp add: decimal_text_def mapProduct_def)
  have "compareScaledToThreshold (or_value rd) (pr_threshold pr) (ps_comparison (mapProduct (e_decStr e) pr))
      = trigger_met pr rd"
    by (simp add: trigger_met_def compareScaledToThreshold_def mapProduct_def)
  then show ?thesis
    by (simp add: settle_claim_def bind_def [of "getProductById (p_productId p)"] get thr
        bind_def [of "lift (Inr (or_value rd))"] lift_def)
qed

lemma contract_id_run:
  "e_config e ''CLAIMS_PROCESSOR_CONTRACT'' = Some k \<Longrightarrow> rx_test CONTRACT_ID k \<Longrightarrow>
   contract_id e (j, w) = (Inr k, (j, w))"
  by (auto simp: contract_id_def bind_def asks_def or_old_def ret_def throw_def CONTRACT_ID_def rx_seq_def)

text \<open>The call of the contract, whatever it answers.\<close>

lemma payout_call_run:
  assumes "quiet e"
  shows "\<exists>n' t. payout_call k i e (n, w) =
     ((case e_invoke e n' of
         Inl x \<Rightarrow> Inl x
       | Inr h \<Rightarrow> if rx_test TX_HASH h then Inr h
                 else Inl (PlainError ''Unexpected Soroban response: invalid transaction hash'')),
      (Suc n', w\<lparr>nextContractCallAt := t, chainCalls := chainCalls w @ [(k, ''process_claim'', [i])]\<rparr>))"
proof -
  obtain n1 t where slot: "waitForContractCallSlot e (n, w) = (Inr (), (n1, w\<lparr>nextContractCallAt := t\<rparr>))"
    using quiet_runs(7) [OF assms] by blast
  show ?thesis
    using assms by (intro exI [of _ n1] exI [of _ t])
      (simp add: payout_call_def bind_def slot invokeContract_call_def quiet_def ret_def throw_def
        split: sum.split)
qed

text \<open>Settling the freshly inserted claim without a payout.\<close>

lemma reject_claim_run:
  assumes quiet: "quiet e" and w: "claims w = cs @ [c]" "c_id c \<notin> c_id ` set cs" "claims_ok (cs @ [c])" "c_txHash c = None"
  shows "\<exists>n' w'. reject_claim i (c_id c) b r e (n, w) = (Inr Rejected, (n', w'))
     \<and> policies w' = policies w \<and> chainCalls w' = chainCalls w
     \<and> claims w' = cs @ [c\<lparr>c_status := C_REJECTED, c_triggerMet := (if b then False else c_triggerMet c),
                         c_processedAt := Some (e_clock e n)\<rparr>]"
proof -
  let ?f = "\<lambda>t c. c\<lparr>c_status := C_REJECTED, c_triggerMet := (if b then False else c_triggerMet c), c_processedAt := Some t\<rparr>"
  let ?st = "s_seq (claim_update_now (c_id c) ?f) (auditOp ''Claim'' (c_id c) ''PROCESSING'' ''REJECTED'' r)"
  have ok: "claims_ok (cs @ [?f (e_clock e n) c])"
    using w by (intro claims_ok_settle [OF w(3)]) (auto simp: non_terminal_def)
  have u: "claim_update (c_id c) (?f (e_clock e n)) (tx_ctx e n) w = (Inr (), w\<lparr>claims := cs @ [?f (e_clock e n) c]\<rparr>)"
    by (rule claim_update_last [where f = "?f (e_clock e n)", OF w(1,2) ok])
  obtain a where a: "\<And>v. auditOp ''Claim'' (c_id c) ''PROCESSING'' ''REJECTED'' r (tx_ctx e n) v
      = (Inr (), v\<lparr>auditLogs := auditLogs v @ [a]\<rparr>)"
    by (auto simp: auditOp_def auditLog_create_def)
  have run: "?st (tx_ctx e n) w =
      (Inr (), w\<lparr>claims := cs @ [?f (e_clock e n) c], auditLogs := auditLogs w @ [a]\<rparr>)"
    using u by (simp add: s_bind_def claim_update_now_def a)
  show ?thesis
    by (simp add: reject_claim_def bind_def quiet_financial(2) [where st = ?st, OF quiet run]
        quiet_runs [OF quiet] ret_def)
qed

lemma fail_claim_run:
  assumes quiet: "quiet e"
    and w: "claims w = cs @ [c]" "c_id c \<notin> c_id ` set cs" "claims_ok (cs @ [c])" "c_txHash c = None"
    and q: "policy_findUnique i w = Some q" "gatedPolicy i p q" "policies_ok (policies w)"
  shows "\<exists>n' w'. fail_claim i p (c_id c) r r' e (n, w) = (Inr Rejected, (n', w'))
     \<and> policy_findUnique i w' =
         Some (q\<lparr>p_status := P_ACTIVE, p_version := p_version q + 1, p_updatedAt := e_clock e n\<rparr>)
     \<and> chainCalls w' = chainCalls w
     \<and> claims w' = cs @ [c\<lparr>c_status := C_FAILED, c_processedAt := Some (e_clock e n)\<rparr>]"
proof -
  let ?f = "\<lambda>t c. c\<lparr>c_status := C_FAILED, c_processedAt := Some t\<rparr>"
  let ?w = "w\<lparr>claims := cs @ [?f (e_clock e n) c]\<rparr>"
  let ?st = "s_seq (claim_update_now (c_id c) ?f) (s_seq (gate_policy (gatedPolicy i p) P_ACTIVE)
     (s_seq (auditOp ''Claim'' (c_id c) ''PROCESSING'' ''FAILED'' r) (auditOp ''Policy'' i ''PROCESSING'' ''ACTIVE'' r')))"
  have ok: "claims_ok (cs @ [?f (e_clock e n) c])"
    using w by (intro claims_ok_settle [OF w(3)]) (auto simp: non_terminal_def)
  have u: "claim_update (c_id c) (?f (e_clock e n)) (tx_ctx e n) w = (Inr (), ?w)"
    by (rule claim_update_last [where f = "?f (e_clock e n)", OF w(1,2) ok])
  obtain ps where ps: "gate_policy (gatedPolicy i p) P_ACTIVE (tx_ctx e n) ?w = (Inr 1, ?w\<lparr>policies := ps\<rparr>)"
    "List.find (\<lambda>r. p_id r = i) ps =
         Some (q\<lparr>p_status := P_ACTIVE, p_version := p_version q + 1, p_updatedAt := e_clock e n\<rparr>)"
    using gate_hits [of ?w i q "gatedPolicy i p" P_ACTIVE "tx_ctx e n"] q
    by (auto simp: policy_findUnique_def gatedPolicy_def)
  obtain a b where a: "\<And>v. auditOp ''Claim'' (c_id c) ''PROCESSING'' ''FAILED'' r (tx_ctx e n) v
      = (Inr (), v\<lparr>auditLogs := auditLogs v @ [a]\<rparr>)"
    "\<And>v. auditOp ''Policy'' i ''PROCESSING'' ''ACTIVE'' r' (tx_ctx e n) v
      = (Inr (), v\<lparr>auditLogs := auditLogs v @ [b]\<rparr>)"
    by (auto simp: auditOp_def auditLog_create_def)
  have run: "?st (tx_ctx e n) w = (Inr (), w\<lparr>policies := ps, claims := cs @ [?f (e_clock e n) c],
      auditLogs := auditLogs w @ [a, b]\<rparr>)"
    using u ps by (simp add: s_bind_def claim_update_now_def a)
  show ?thesis
    using ps by (simp add: fail_claim_def bind_def quiet_financial(2) [where st = ?st, OF quiet run]
        quiet_runs [OF quiet] ret_def policy_findUnique_def)
qed


text \<open>
  C2. A met trigger is paid: for a policy that is due, with an active product, a reading on the
  paying side of the exact threshold and a contract that answers with a transaction hash,
  \<^verbatim>\<open>autoProcess\<close> returns Paid after exactly one call of \<^verbatim>\<open>process_claim\<close>; the policy is then
  CLAIMED two versions later, and exactly one claim was added, PAID, for the policyholder, with
  the full coverage and that hash, together with three audit records.
\<close>

theorem autoProcess_pays:
  assumes quiet: "quiet e" and due: "due e i w p"
    and rd: "latest_reading (p_oracleKey p) w = Some rd"
    and pr: "List.find (\<lambda>pr. pr_id pr = p_productId p \<and> pr_status pr = PR_ACTIVE) (products w) = Some pr"
    and dec: "decimal_text e" and met: "trigger_met pr rd"
    and k: "e_config e ''CLAIMS_PROCESSOR_CONTRACT'' = Some k" "rx_test CONTRACT_ID k"
    and h: "\<forall>j. e_invoke e j = Inr h" "rx_test TX_HASH h" "Some h \<notin> c_txHash ` set (claims w)"
  shows "\<exists>n' w' cl. autoProcess i None e (n, w) = (Inr Paid, (n', w'))
     \<and> policy_findUnique i w' =
         Some (p\<lparr>p_status := P_CLAIMED, p_version := p_version p + 2, p_updatedAt := p_endTime p\<rparr>)
     \<and> claims w' = claims w @ [cl] \<and> c_policyId cl = i \<and> c_claimant cl = p_policyholder p
     \<and> c_status cl = C_PAID \<and> c_triggerMet cl \<and> c_payoutAmount cl = Some (p_coverageXlm p)
     \<and> c_txHash cl = Some h
     \<and> chainCalls w' = chainCalls w @ [(k, ''process_claim'', [i])]
     \<and> length (auditLogs w') = length (auditLogs w) + 3"
proof -
  have t: "\<forall>j. e_clock e j = p_endTime p" and id: "p_id p = i"
    using due by (auto simp: due_def policy_findUnique_def dest: find_SomeD)
  from autoProcess_to_settle [OF quiet due, of None n] rd obtain n1 w1 cid where
    new: "cid \<notin> c_id ` set (claims w)" and
    pre: "autoProcess i None e (n, w) = settle_claim i p (Some rd) None cid e (n1, w1)" and
    w1: "policies_ok (policies w1)" "claims w1 = claims w @ [due_claim i p cid]"
      "claims_ok (claims w @ [due_claim i p cid])"
      "policy_findUnique i w1 =
        Some (p\<lparr>p_status := P_PROCESSING, p_version := p_version p + 1, p_updatedAt := p_endTime p\<rparr>)"
      "products w1 = products w" "chainCalls w1 = chainCalls w"
      "length (auditLogs w1) = length (auditLogs w) + 1"
    by metis
  have pr1: "List.find (\<lambda>pr. pr_id pr = p_productId p \<and> pr_status pr = PR_ACTIVE) (products w1) = Some pr"
    using pr w1 by simp
  obtain n2 u where "payout_call k i e (Suc n1, w1) =
      (Inr h, (Suc n2, w1\<lparr>nextContractCallAt := u, chainCalls := chainCalls w1 @ [(k, ''process_claim'', [i])]\<rparr>))"
      (is "_ = (_, (_, ?w2))")
    using payout_call_run [OF quiet, of k i "Suc n1" w1] h by auto
  then have settle: "settle_claim i p (Some rd) None cid e (n1, w1) = pay_claim i p cid h e (Suc n2, ?w2)"
    using met by (simp add: settle_product [OF quiet pr1 dec] bind_def contract_id_run [OF k] catch_def ret_def)
  have cl: "c_id (due_claim i p cid) = cid" by (simp add: due_claim_def)
  have "\<exists>n' w'. pay_claim i p (c_id (due_claim i p cid)) h e (Suc n2, ?w2) = (Inr Paid, (n', w'))
     \<and> policy_findUnique i w' = Some (p\<lparr>p_status := P_CLAIMED, p_version := p_version p + 1 + 1, p_updatedAt := e_clock e (Suc n2)\<rparr>)
     \<and> claims w' = claims w @ [(due_claim i p cid)\<lparr>c_status := C_PAID, c_triggerMet := True,
          c_processedAt := Some (e_clock e (Suc n2)), c_txHash := Some h, c_payoutAmount := Some (p_coverageXlm p)\<rparr>]
     \<and> chainCalls w' = chainCalls ?w2 \<and> length (auditLogs w') = length (auditLogs ?w2) + 2"
    using pay_claim_run [OF quiet, of ?w2 "claims w" "due_claim i p cid" h i _ p "Suc n2"] w1 new h(3) id
    by (simp add: cl policy_findUnique_def gatedPolicy_def)
  then show ?thesis
    using pre settle w1 t by (auto simp: due_claim_def new_claim_def cl add.commute)
qed

text \<open>
  C3. No payout without a met trigger, and a failed payout is undone: for a policy that is due,
  \<^verbatim>\<open>autoProcess\<close> returns Rejected without calling the contract when the reading is not on the
  paying side of the exact threshold, leaving one REJECTED claim; and when the contract call fails
  it leaves one FAILED claim and the policy ACTIVE again, two versions later.
\<close>

theorem autoProcess_rejects:
  assumes quiet: "quiet e" and due: "due e i w p"
    and rd: "latest_reading (p_oracleKey p) w = Some rd"
    and pr: "List.find (\<lambda>pr. pr_id pr = p_productId p \<and> pr_status pr = PR_ACTIVE) (products w) = Some pr"
    and dec: "decimal_text e"
    and k: "e_config e ''CLAIMS_PROCESSOR_CONTRACT'' = Some k" "rx_test CONTRACT_ID k"
    and bad: "\<not> trigger_met pr rd \<or> (\<forall>j. \<exists>x. e_invoke e j = Inl x)"
  shows "\<exists>n' w' cl q. autoProcess i None e (n, w) = (Inr Rejected, (n', w'))
     \<and> claims w' = claims w @ [cl] \<and> c_policyId cl = i \<and> c_payoutAmount cl = None \<and> c_txHash cl = None
     \<and> policy_findUnique i w' = Some q
     \<and> (if trigger_met pr rd
        then c_status cl = C_FAILED \<and> p_status q = P_ACTIVE \<and> p_version q = p_version p + 2
             \<and> chainCalls w' = chainCalls w @ [(k, ''process_claim'', [i])]
        else c_status cl = C_REJECTED \<and> p_status q = P_PROCESSING \<and> p_version q = p_version p + 1
             \<and> chainCalls w' = chainCalls w)"
proof -
  have id: "p_id p = i" using due by (auto simp: due_def policy_findUnique_def dest: find_SomeD)
  from autoProcess_to_settle [OF quiet due, of None n] rd obtain n1 w1 cid where
    new: "cid \<notin> c_id ` set (claims w)" and
    pre: "autoProcess i None e (n, w) = settle_claim i p (Some rd) None cid e (n1, w1)" and
    w1: "policies_ok (policies w1)" "claims w1 = claims w @ [due_claim i p cid]"
      "claims_ok (claims w @ [due_claim i p cid])"
      "policy_findUnique i w1 =
        Some (p\<lparr>p_status := P_PROCESSING, p_version := p_version p + 1, p_updatedAt := p_endTime p\<rparr>)"
      "products w1 = products w" "chainCalls w1 = chainCalls w"
    by metis
  have pr1: "List.find (\<lambda>pr. pr_id pr = p_productId p \<and> pr_status pr = PR_ACTIVE) (products w1) = Some pr"
    using pr w1 by simp
  have cl: "c_id (due_claim i p cid) = cid" "c_txHash (due_claim i p cid) = None"
    "c_policyId (due_claim i p cid) = i" "c_payoutAmount (due_claim i p cid) = None"
    by (simp_all add: due_claim_def new_claim_def)
  show ?thesis
  proof (cases "trigger_met pr rd")
    case False
    then have settle: "settle_claim i p (Some rd) None cid e (n1, w1) =
        reject_claim i cid True ''Trigger condition not met'' e (Suc n1, w1)"
      by (simp add: settle_product [OF quiet pr1 dec])
    obtain n' w' where rej: "reject_claim i cid True ''Trigger condition not met'' e (Suc n1, w1) = (Inr Rejected, (n', w'))"
      and w': "policies w' = policies w1" "chainCalls w' = chainCalls w1"
      "claims w' = claims w @ [(due_claim i p cid)\<lparr>c_status := C_REJECTED, c_triggerMet := False,
         c_processedAt := Some (e_clock e (Suc n1))\<rparr>]"
      using reject_claim_run [OF quiet w1(2), of i True "''Trigger condition not met''" "Suc n1"] w1 new
      by (simp only: cl) auto
    have "policy_findUnique i w' =
        Some (p\<lparr>p_status := P_PROCESSING, p_version := p_version p + 1, p_updatedAt := p_endTime p\<rparr>)"
      using w1(4) w'(1) by (simp only: policy_findUnique_def)
    moreover have "autoProcess i None e (n, w) = (Inr Rejected, (n', w'))"
      using pre settle rej by (simp only:)
    ultimately show ?thesis
      unfolding if_not_P [OF False]
      using w'(3) trans [OF w'(2) w1(6)]
      by (intro exI conjI) (assumption | (simp add: cl; fail))+
  next
    case True
    have fails: "\<forall>j. \<exists>x. e_invoke e j = Inl x" using bad True by blast
    from payout_call_run [OF quiet, of k i "Suc n1" w1] obtain n2 u where
      run: "payout_call k i e (Suc n1, w1) = ((case e_invoke e n2 of
         Inl x \<Rightarrow> Inl x
       | Inr h \<Rightarrow> if rx_test TX_HASH h then Inr h
                 else Inl (PlainError ''Unexpected Soroban response: invalid transaction hash'')),
        (Suc n2, w1\<lparr>nextContractCallAt := u, chainCalls := chainCalls w1 @ [(k, ''process_claim'', [i])]\<rparr>))"
        (is "_ = (_, (_, ?w2))") by blast
    obtain x where "e_invoke e n2 = Inl x" using fails by blast
    with run have "payout_call k i e (Suc n1, w1) = (Inl x, (Suc n2, ?w2))" by simp
    then have settle: "settle_claim i p (Some rd) None cid e (n1, w1) =
        fail_claim i p cid ''On-chain payout failed'' ''Reverted: on-chain payout failed'' e (Suc n2, ?w2)"
      using True by (simp add: settle_product [OF quiet pr1 dec] bind_def contract_id_run [OF k] catch_def ret_def)
    have "\<exists>n' w'. fail_claim i p (c_id (due_claim i p cid)) ''On-chain payout failed''
          ''Reverted: on-chain payout failed'' e (Suc n2, ?w2) = (Inr Rejected, (n', w'))
       \<and> policy_findUnique i w' = Some (p\<lparr>p_status := P_ACTIVE, p_version := p_version p + 1 + 1, p_updatedAt := e_clock e (Suc n2)\<rparr>)
       \<and> chainCalls w' = chainCalls ?w2
       \<and> claims w' = claims w @ [(due_claim i p cid)\<lparr>c_status := C_FAILED, c_processedAt := Some (e_clock e (Suc n2))\<rparr>]"
      using fail_claim_run [OF quiet, of ?w2 "claims w" "due_claim i p cid" i
        "p\<lparr>p_status := P_PROCESSING, p_version := p_version p + 1, p_updatedAt := p_endTime p\<rparr>" p
        "''On-chain payout failed''" "''Reverted: on-chain payout failed''" "Suc n2"] w1 new id
      by (simp add: cl policy_findUnique_def gatedPolicy_def)
    then show ?thesis using True pre settle w1 by (auto simp: cl)
  qed
qed


text \<open>
  A pending manual claim makes automatic processing fail instead of being recognised as a
  duplicate: the duplicate guard looks for PROCESSING, PAID and REJECTED claims only, so with a
  PENDING claim of the policy the insert violates the unique index, the whole reservation is rolled
  back and the violation is thrown to the worker; nothing changes.
\<close>

theorem autoProcess_pending_conflict:
  assumes quiet: "quiet e" and t: "\<forall>j. e_clock e j = p_endTime p"
    and p: "policy_findUnique i w = Some p" "p_status p = P_ACTIVE"
    and ok: "policies_ok (policies w)" "claims_ok (claims w)"
    and c: "c \<in> set (claims w)" "c_policyId c = i" "c_status c = C_PENDING"
    and free: "\<forall>d \<in> set (claims w). c_policyId d = i \<longrightarrow> c_status d \<notin> {C_PROCESSING, C_PAID, C_REJECTED}"
  shows "autoProcess i m e (n, w) = (Inl (UniqueViolation [''policyId'']), (n + 4, w))"
proof -
  let ?k = "tx_ctx e (Suc (Suc (Suc n)))"
  let ?cl = "(new_claim i (p_policyholder p) (p_coverageXlm p) C_PROCESSING)
    \<lparr>c_id := fresh_id ?k, c_submittedAt := now_ms ?k, c_createdAt := now_ms ?k\<rparr>"
  have id: "p_id p = i" using p(1) by (auto simp: policy_findUnique_def dest: find_SomeD)
  obtain ps where gate: "gate_policy (\<lambda>r. p_id r = i \<and> p_status r = P_ACTIVE \<and> p_version r = p_version p)
      P_PROCESSING ?k w = (Inr 1, w\<lparr>policies := ps\<rparr>)"
    using gate_hits [OF ok(1) p(1), of "\<lambda>r. p_id r = i \<and> p_status r = P_ACTIVE \<and> p_version r = p_version p"
        P_PROCESSING ?k] p id by auto
  have "i \<in> set (map c_policyId (filter non_terminal (claims w)))"
    using c by (auto simp: non_terminal_def)
  then have "\<not> claims_ok (claims w @ [?cl])" by (simp add: claims_ok_def non_terminal_def new_claim_def)
  moreover have "List.find (\<lambda>c. c_policyId c = i \<and> c_status c \<in> {C_PROCESSING, C_PAID, C_REJECTED}) (claims w) = None"
    using free by (auto simp: find_None_iff)
  ultimately have "\<exists>v. reserve_claim i p ?k w = (Inl (UniqueViolation [''policyId'']), v)"
    using gate by (simp add: reserve_claim_def s_bind_def s_query_def claim_create_def Let_def)
  then have "financialTransaction (reserve_claim i p) e (Suc (Suc (Suc n)), w) =
      (Inl (UniqueViolation [''policyId'']), (Suc (Suc (Suc (Suc n))), w))"
    using quiet
    by (auto simp: financialTransaction_def withSerializationRetry_def retry_from.simps catch_def db_def
        quiet_def tx_ctx_def throw_def)
  then show ?thesis
    using quiet p t
    by (simp add: autoProcess_def readClaimEvaluationSnapshot_def bind_def db_def quiet_def s_query_def
        clock_def numeral_eq_Suc)
qed

section \<open>Witnesses\<close>

lemma sample_env_facts:
  "quiet (sample_env t)" "decimal_text (sample_env t)"
  "e_config (sample_env t) ''CLAIMS_PROCESSOR_CONTRACT'' = Some sample_contract"
  "rx_test CONTRACT_ID sample_contract"
  "e_invoke (sample_env t) j = Inr (replicate 64 (CHR ''a''))" "rx_test TX_HASH (replicate 64 (CHR ''a''))"
proof -
  show "quiet (sample_env t)" "decimal_text (sample_env t)"
    "e_config (sample_env t) ''CLAIMS_PROCESSOR_CONTRACT'' = Some sample_contract"
    "e_invoke (sample_env t) j = Inr (replicate 64 (CHR ''a''))"
    by (simp_all add: quiet_def sample_env_def quiet_env_def decimal_text_def formatStroops_parse)
  show "rx_test CONTRACT_ID sample_contract" "rx_test TX_HASH (replicate 64 (CHR ''a''))" by code_simp+
qed

lemma sample_due:
  "due (sample_env 1000) ''p1'' (sample_world v) sample_policy"
  "latest_reading (p_oracleKey sample_policy) (sample_world v) = Some (sample_reading v)"
  "List.find (\<lambda>pr. pr_id pr = p_productId sample_policy \<and> pr_status pr = PR_ACTIVE)
     (products (sample_world v)) = Some sample_row"
  by (simp_all add: due_def sample_env_def quiet_env_def sample_world_def empty_world_def
      policy_findUnique_def policies_ok_def claims_ok_def latest_reading_def sample_policy_def
      sample_reading_def sample_row_def)

theorem autoProcess_pays_witness:
  "\<exists>n' w' cl. autoProcess ''p1'' None (sample_env 1000) (0, sample_world 400000000) = (Inr Paid, (n', w'))
     \<and> claims w' = [cl] \<and> c_status cl = C_PAID \<and> c_payoutAmount cl = Some 5000000000
     \<and> chainCalls w' = [(sample_contract, ''process_claim'', [''p1''])]"
proof -
  have met: "trigger_met sample_row (sample_reading 400000000)"
    by (simp add: trigger_met_def sample_row_def sample_reading_def)
  have "Some (replicate 64 (CHR ''a'')) \<notin> c_txHash ` set (claims (sample_world 400000000))"
    by (simp add: sample_world_def empty_world_def)
  note autoProcess_pays [OF sample_env_facts(1) sample_due(1,2,3) sample_env_facts(2) met sample_env_facts(3,4)
    allI [OF sample_env_facts(5)] sample_env_facts(6) this, of 0]
  then show ?thesis by (auto simp: sample_world_def empty_world_def sample_policy_def)
qed

theorem autoProcess_rejects_witness:
  "\<exists>n' w' cl. autoProcess ''p1'' None (sample_env 1000) (0, sample_world 500000000) = (Inr Rejected, (n', w'))
     \<and> claims w' = [cl] \<and> c_status cl = C_REJECTED \<and> chainCalls w' = []"
proof -
  have met: "\<not> trigger_met sample_row (sample_reading 500000000)"
    by (simp add: trigger_met_def sample_row_def sample_reading_def)
  note autoProcess_rejects [OF sample_env_facts(1) sample_due(1,2,3) sample_env_facts(2,3,4) disjI1 [OF met], of 0]
  with met show ?thesis by (auto simp: sample_world_def empty_world_def)
qed

theorem autoProcess_pending_conflict_witness:
  "autoProcess ''p1'' None (sample_env 1000) (0, pending_world) =
     (Inl (UniqueViolation [''policyId'']), (4, pending_world))"
proof -
  have "autoProcess ''p1'' None (sample_env 1000) (0, pending_world) =
     (Inl (UniqueViolation [''policyId'']), (0 + 4, pending_world))"
    by (rule autoProcess_pending_conflict [where p = sample_policy
          and c = "(new_claim ''p1'' ''GA'' 5000000000 C_PENDING)\<lparr>c_id := ''c1''\<rparr>"])
      (simp_all add: sample_env_facts pending_world_def sample_world_def empty_world_def sample_env_def quiet_env_def
        policy_findUnique_def policies_ok_def claims_ok_def sample_policy_def new_claim_def non_terminal_def quiet_def)
  then show ?thesis by simp
qed

theorem autoProcess_payout_window_witness:
  "\<exists>p k n' w'. autoProcess ''p1'' None (sample_env 1000) (0, sample_world 400000000) = (Inr Paid, (n', w'))
     \<and> policy_findUnique ''p1'' (e_rely (sample_env 1000) 0 (sample_world 400000000)) = Some p
     \<and> e_clock (sample_env 1000) (0 + 1) \<le> p_endTime p
     \<and> chainCalls w' = chainCalls (sample_world 400000000) @ [(k, ''process_claim'', [''p1''])]"
proof -
  have rely: "\<forall>k v. chainCalls (e_rely (sample_env 1000) k v) = chainCalls v"
    by (simp add: sample_env_def quiet_env_def)
  have "let r = autoProcess ''p1'' None (sample_env 1000) (0, sample_world 400000000)
        in fst r = Inr Paid \<and> chainCalls (snd (snd r)) \<noteq> chainCalls (sample_world 400000000)" by code_simp
  then obtain n' w' where run: "autoProcess ''p1'' None (sample_env 1000) (0, sample_world 400000000) = (Inr Paid, (n', w'))"
    and "chainCalls w' \<noteq> chainCalls (sample_world 400000000)" by (auto simp: Let_def prod_eq_iff)
  from autoProcess_payout_window [OF rely run this(2)] run show ?thesis by blast
qed

theorem reservation_exclusive_witness:
  "\<exists>cl v. reserve_claim ''p1'' sample_policy \<lparr>now_ms = 5, fresh_id = ''c1''\<rparr> (sample_world 0) = (Inr (Reserved cl), v)
     \<and> (\<forall>cl' u. reserve_claim ''p1'' sample_policy \<lparr>now_ms = 6, fresh_id = ''c2''\<rparr> v \<noteq> (Inr (Reserved cl'), u))"
proof -
  obtain cl v where r: "reserve_claim ''p1'' sample_policy \<lparr>now_ms = 5, fresh_id = ''c1''\<rparr> (sample_world 0)
      = (Inr (Reserved cl), v)"
    using reserve_fresh [of "''p1''" "sample_world 0" sample_policy "\<lparr>now_ms = 5, fresh_id = ''c1''\<rparr>"] sample_due(1) [of 0]
    by (auto simp: due_def Let_def sample_world_def empty_world_def)
  from reservation_exclusive [OF r evolves_refl order_refl] r show ?thesis by blast
qed

end
