(* ===== verification/Claim_Recovery.thy ===== *)
theory Claim_Recovery
  imports Claim_Payout
begin

text \<open>
  The sweep over policies stuck in PROCESSING
  (\<^verbatim>\<open>recoverStuckProcessingPolicies\<close> of \<^verbatim>\<open>src/claims/claims.service.ts\<close>).
\<close>

definition DEFAULT_STUCK_PROCESSING_MINUTES :: int where
  "DEFAULT_STUCK_PROCESSING_MINUTES = 30"

definition stuck_minutes :: "env \<Rightarrow> int" where
  "stuck_minutes e =
     (case parseInt10 (or_old (e_config e ''CLAIMS_STUCK_PROCESSING_MINUTES'') []) of
        None \<Rightarrow> DEFAULT_STUCK_PROCESSING_MINUTES
      | Some n \<Rightarrow> if n > 0 then n else DEFAULT_STUCK_PROCESSING_MINUTES)"

record StuckPolicyRecoverySummary =
  scanned :: int
  revertedToActive :: int
  markedClaimed :: int
  needsManualReview :: int
  skipped :: int

datatype Recovery = RevertedToActive | MarkedClaimed | NeedsManualReview | Skipped

definition count_recovery :: "Recovery \<Rightarrow> StuckPolicyRecoverySummary \<Rightarrow> StuckPolicyRecoverySummary" where
  "count_recovery r s = (case r of
     RevertedToActive \<Rightarrow> s\<lparr>revertedToActive := revertedToActive s + 1\<rparr>
   | MarkedClaimed \<Rightarrow> s\<lparr>markedClaimed := markedClaimed s + 1\<rparr>
   | NeedsManualReview \<Rightarrow> s\<lparr>needsManualReview := needsManualReview s + 1\<rparr>
   | Skipped \<Rightarrow> s\<lparr>skipped := skipped s + 1\<rparr>)"

text \<open>The guard of every write of the sweep.\<close>

definition stuck_guard :: "string \<Rightarrow> int \<Rightarrow> Policy \<Rightarrow> bool" where
  "stuck_guard policyId cutoff r \<longleftrightarrow>
     p_id r = policyId \<and> p_status r = P_PROCESSING \<and> p_updatedAt r < cutoff"

definition find_stuck :: "int \<Rightarrow> world \<Rightarrow> (string \<times> Claim list) list" where
  "find_stuck cutoff w =
     map (\<lambda>p. (p_id p, filter (\<lambda>c. c_policyId c = p_id p) (claims w)))
       (filter (\<lambda>p. p_status p = P_PROCESSING \<and> p_updatedAt p < cutoff) (policies w))"

definition recover_reason :: "int \<Rightarrow> string" where
  "recover_reason minutes = ''Recovered stuck PROCESSING after '' @ int_str minutes @ '' minutes''"

fun audit_each :: "Claim list \<Rightarrow> unit stmt" where
  "audit_each [] = s_ret ()"
| "audit_each (c # cs) = s_seq (auditOp ''Claim'' (c_id c) ''PROCESSING'' ''FAILED''
     ''Recovered stuck PROCESSING: claim flow did not complete'') (audit_each cs)"

definition revert_stuck :: "string \<Rightarrow> int \<Rightarrow> int \<Rightarrow> int \<Rightarrow> Claim list \<Rightarrow> bool stmt" where
  "revert_stuck policyId cutoff now minutes inFlight =
     s_seq (s_transition P_PROCESSING P_ACTIVE)
     (s_bind (gate_policy (stuck_guard policyId cutoff) P_ACTIVE) (\<lambda>count.
      if count = 0 then s_ret False
      else
        s_seq (if inFlight \<noteq> []
               then s_bind (claim_updateMany (\<lambda>c. c_id c \<in> c_id ` set inFlight \<and> c_status c = C_PROCESSING)
                      (\<lambda>c. c\<lparr>c_status := C_FAILED, c_processedAt := Some now\<rparr>)) (\<lambda>_. s_ret ())
               else s_ret ())
        (s_seq (audit_each inFlight)
        (s_seq (auditOp ''Policy'' policyId ''PROCESSING'' ''ACTIVE'' (recover_reason minutes))
        (s_ret True)))))"

fun notify_each :: "string \<Rightarrow> Claim list \<Rightarrow> unit act" where
  "notify_each reason [] = ret ()"
| "notify_each reason (c # cs) =
     seq (notify_claim (c_id c) C_PROCESSING C_FAILED ''system'' reason) (notify_each reason cs)"

definition mark_claimed :: "string \<Rightarrow> int \<Rightarrow> Claim \<Rightarrow> Recovery act" where
  "mark_claimed policyId cutoff paid =
     bind (db (s_seq (s_transition P_PROCESSING P_CLAIMED)
                     (gate_policy (stuck_guard policyId cutoff) P_CLAIMED))) (\<lambda>count.
     if count = 0 then ret Skipped
     else
       seq (catch (db (auditOp ''Policy'' policyId ''PROCESSING'' ''CLAIMED''
              (''Recovered stuck PROCESSING: claim '' @ c_id paid @ '' already PAID''))) (\<lambda>_. ret ()))
       (seq (emitPolicyStatusChange policyId P_CLAIMED)
       (seq (cache_invalidate policyId) (ret MarkedClaimed))))"

definition recover_one :: "int \<Rightarrow> int \<Rightarrow> int \<Rightarrow> string \<times> Claim list \<Rightarrow> Recovery act" where
  "recover_one cutoff now minutes stuck =
     (let policyId = fst stuck;
          paidClaim = List.find (\<lambda>c. c_status c = C_PAID) (snd stuck);
          inFlight = filter (\<lambda>c. c_status c = C_PROCESSING) (snd stuck);
          unconfirmed = List.find (\<lambda>c. c_txHash c \<noteq> None \<and> c_txHash c \<noteq> Some []) inFlight in
      case paidClaim of
        Some paid \<Rightarrow> mark_claimed policyId cutoff paid
      | None \<Rightarrow>
          if unconfirmed \<noteq> None then ret NeedsManualReview
          else
            bind (financialTransaction (revert_stuck policyId cutoff now minutes inFlight)) (\<lambda>reverted.
            if \<not> reverted then ret Skipped
            else
              seq (emitPolicyStatusChange policyId P_ACTIVE)
              (seq (cache_invalidate policyId)
              (seq (notify_each (recover_reason minutes) inFlight) (ret RevertedToActive)))))"

fun recover_loop :: "int \<Rightarrow> int \<Rightarrow> int \<Rightarrow> (string \<times> Claim list) list \<Rightarrow> StuckPolicyRecoverySummary
    \<Rightarrow> StuckPolicyRecoverySummary act" where
  "recover_loop cutoff now minutes [] summary = ret summary"
| "recover_loop cutoff now minutes (p # ps) summary =
     bind (catch (recover_one cutoff now minutes p) (\<lambda>_. ret Skipped)) (\<lambda>r.
     recover_loop cutoff now minutes ps (count_recovery r summary))"

definition recoverStuckProcessingPolicies :: "int \<Rightarrow> StuckPolicyRecoverySummary act" where
  "recoverStuckProcessingPolicies now =
     bind (asks stuck_minutes) (\<lambda>minutes.
     let cutoff = now - minutes * 60 * 1000 in
     bind (db (s_query (find_stuck cutoff))) (\<lambda>stuck.
     recover_loop cutoff now minutes stuck
       \<lparr>scanned = int (length stuck), revertedToActive = 0, markedClaimed = 0,
        needsManualReview = 0, skipped = 0\<rparr>))"

section \<open>The sweep keeps the contract\<close>

lemma within_audit_each: "stmt_within evolves (audit_each cs)"
  by (induction cs) (auto intro!: claim_rules)

lemma within_revert_stuck: "stmt_within evolves (revert_stuck i t n m cs)"
  unfolding revert_stuck_def
  by (auto intro!: claim_rules within_audit_each within_claim_updateMany
      simp: stuck_guard_def claim_evolves_def simp del: status_str.simps)

lemma guar_notify_each: "guarantees evolves (notify_each r cs)"
  by (induction cs) (auto intro!: claim_rules)

lemma guar_recover_one: "guarantees evolves (recover_one t n m p)"
  unfolding recover_one_def mark_claimed_def Let_def
  by (auto intro!: claim_rules within_revert_stuck guar_notify_each simp: stuck_guard_def
      split: option.splits simp del: status_str.simps)

lemma guar_recover_loop: "guarantees evolves (recover_loop t n m ps s)"
  by (induction ps arbitrary: s) (auto intro!: claim_rules guar_recover_one)

lemma guar_recover: "guarantees evolves (recoverStuckProcessingPolicies now)"
  unfolding recoverStuckProcessingPolicies_def Let_def by (auto intro!: claim_rules guar_recover_loop)

section \<open>What the sweep does\<close>

definition handled :: "StuckPolicyRecoverySummary \<Rightarrow> int" where
  "handled s = revertedToActive s + markedClaimed s + needsManualReview s + skipped s"

lemma handled_count: "handled (count_recovery r s) = handled s + 1 \<and> scanned (count_recovery r s) = scanned s"
  by (cases r) (simp_all add: count_recovery_def handled_def)

lemma recover_loop_returns:
  "\<exists>sm s'. recover_loop cutoff now minutes ps summary e s = (Inr sm, s')
     \<and> handled sm = handled summary + int (length ps) \<and> scanned sm = scanned summary"
proof (induction ps arbitrary: summary s)
  case Nil
  then show ?case by (simp add: ret_def)
next
  case (Cons p ps)
  obtain r s1 where "catch (recover_one cutoff now minutes p) (\<lambda>_. ret Skipped) e s = (Inr r, s1)"
    by (cases "recover_one cutoff now minutes p e s"; cases "fst (recover_one cutoff now minutes p e s)")
      (auto simp: catch_def ret_def)
  then show ?case
    using Cons.IH [of "count_recovery r summary" s1] handled_count [of r summary]
    by (auto simp: bind_def)
qed

text \<open>
  The sweep handles every policy it scanned, and one bad row does not stop it: it fails only when
  its first query fails, and otherwise every scanned policy is counted exactly once as reverted,
  marked claimed, left for review or skipped.
\<close>

theorem recover_counts_all:
  "\<exists>r n' w'. recoverStuckProcessingPolicies now e (n, w) = (r, (n', w')) \<and>
     (case e_dbfail e n of
        Some x \<Rightarrow> r = Inl x \<and> w' = e_rely e n w
      | None \<Rightarrow> (\<exists>sm. r = Inr sm
          \<and> scanned sm = int (length (find_stuck (now - stuck_minutes e * 60 * 1000) (e_rely e n w)))
          \<and> scanned sm = revertedToActive sm + markedClaimed sm + needsManualReview sm + skipped sm))"
proof (cases "e_dbfail e n")
  case (Some x)
  then show ?thesis
    by (simp add: recoverStuckProcessingPolicies_def bind_def asks_def db_def Let_def)
next
  case None
  let ?cut = "now - stuck_minutes e * 60 * 1000"
  let ?ps = "find_stuck ?cut (e_rely e n w)"
  have "recoverStuckProcessingPolicies now e (n, w) =
      recover_loop ?cut now (stuck_minutes e) ?ps
        \<lparr>scanned = int (length ?ps), revertedToActive = 0, markedClaimed = 0, needsManualReview = 0, skipped = 0\<rparr>
        e (Suc n, e_rely e n w)"
    using None by (simp add: recoverStuckProcessingPolicies_def bind_def asks_def db_def s_query_def Let_def)
  with None recover_loop_returns [of ?cut now "stuck_minutes e" ?ps
      "\<lparr>scanned = int (length ?ps), revertedToActive = 0, markedClaimed = 0, needsManualReview = 0, skipped = 0\<rparr>"
      e "(Suc n, e_rely e n w)"]
  show ?thesis by (auto simp: handled_def)
qed

lemma stuck_member:
  "(i, cs) \<in> set (find_stuck cutoff w) \<Longrightarrow> policies_ok (policies w) \<Longrightarrow>
   \<exists>q. policy_findUnique i w = Some q \<and> stuck_guard i cutoff q \<and> cs = filter (\<lambda>c. c_policyId c = i) (claims w)"
  using find_distinct [of p_id "policies w"]
  by (auto simp: find_stuck_def stuck_guard_def policies_ok_def policy_findUnique_def)

lemma audit_each_run: "\<exists>as. audit_each cs k w = (Inr (), w\<lparr>auditLogs := auditLogs w @ as\<rparr>)"
proof (induction cs arbitrary: w)
  case Nil
  show ?case by (rule exI [of _ "[]"]) (simp add: s_ret_def)
next
  case (Cons c cs)
  obtain a where a: "auditOp ''Claim'' (c_id c) ''PROCESSING'' ''FAILED''
     ''Recovered stuck PROCESSING: claim flow did not complete'' k w = (Inr (), w\<lparr>auditLogs := auditLogs w @ [a]\<rparr>)"
    by (auto simp: auditOp_def auditLog_create_def)
  obtain as where "audit_each cs k (w\<lparr>auditLogs := auditLogs w @ [a]\<rparr>) =
      (Inr (), w\<lparr>auditLogs := (auditLogs w @ [a]) @ as\<rparr>)"
    using Cons [of "w\<lparr>auditLogs := auditLogs w @ [a]\<rparr>"] by auto
  with a show ?case by (intro exI [of _ "a # as"]) (simp add: s_bind_def)
qed

lemma claims_ok_fail:
  assumes "claims_ok cs"
  shows "claims_ok (map (\<lambda>c. if P c then c\<lparr>c_status := C_FAILED, c_processedAt := t\<rparr> else c) cs)"
proof -
  let ?g = "\<lambda>c. if P c then c\<lparr>c_status := C_FAILED, c_processedAt := t\<rparr> else c"
  have "map c_id (map ?g cs) = map c_id cs" "map c_txHash (map ?g cs) = map c_txHash cs" by simp_all
  moreover have "filter non_terminal (map ?g cs) = filter (\<lambda>c. non_terminal c \<and> \<not> P c) cs"
    by (induction cs) (auto simp: non_terminal_def)
  moreover have "filter (\<lambda>c. non_terminal c \<and> \<not> P c) cs = filter (\<lambda>c. \<not> P c) (filter non_terminal cs)"
    by (simp add: conj_commute)
  ultimately show ?thesis
    using assms distinct_map_filter [of c_policyId "filter non_terminal cs" "\<lambda>c. \<not> P c"]
    by (simp only: claims_ok_def)
qed

lemma notify_each_run:
  "quiet e \<Longrightarrow> \<exists>n' evs. notify_each r cs e (n, w) = (Inr (), (n', w\<lparr>outbox := outbox w @ evs\<rparr>))"
proof (induction cs arbitrary: n w)
  case Nil
  show ?case by (intro exI [of _ n] exI [of _ "[]"]) (simp add: ret_def)
next
  case (Cons c cs)
  obtain n1 w1 evs where c: "notify_claim (c_id c) C_PROCESSING C_FAILED ''system'' r e (n, w) = (Inr (), (n1, w1))"
    "w1 = w\<lparr>outbox := outbox w @ evs\<rparr>" using quiet_runs(3) [OF Cons.prems] by blast
  obtain n' es where "notify_each r cs e (n1, w1) = (Inr (), (n', w1\<lparr>outbox := outbox w1 @ es\<rparr>))"
    using Cons by blast
  with c show ?case by (intro exI [of _ n'] exI [of _ "evs @ es"]) (simp add: bind_def)
qed

lemma revert_stuck_run:
  assumes ok: "policies_ok (policies w)" "claims_ok (claims w)"
    and q: "policy_findUnique i w = Some q" "stuck_guard i cutoff q"
    and inFlight: "inFlight = filter (\<lambda>c. c_status c = C_PROCESSING) (filter (\<lambda>c. c_policyId c = i) (claims w))"
  shows "\<exists>ps as. revert_stuck i cutoff now m inFlight k w = (Inr True, w\<lparr>policies := ps,
       claims := map (\<lambda>c. if c_id c \<in> c_id ` set inFlight \<and> c_status c = C_PROCESSING
                     then c\<lparr>c_status := C_FAILED, c_processedAt := Some now\<rparr> else c) (claims w),
       auditLogs := auditLogs w @ as\<rparr>)
     \<and> List.find (\<lambda>r. p_id r = i) ps =
         Some (q\<lparr>p_status := P_ACTIVE, p_version := p_version q + 1, p_updatedAt := now_ms k\<rparr>)"
proof -
  let ?cs = "map (\<lambda>c. if c_id c \<in> c_id ` set inFlight \<and> c_status c = C_PROCESSING
                     then c\<lparr>c_status := C_FAILED, c_processedAt := Some now\<rparr> else c) (claims w)"
  have t: "s_transition P_PROCESSING P_ACTIVE = s_ret ()"
    by (simp add: s_transition_def transition_def canTransition_def VALID_TRANSITIONS_def)
  obtain ps where ps: "gate_policy (stuck_guard i cutoff) P_ACTIVE k w = (Inr 1, w\<lparr>policies := ps\<rparr>)"
    "List.find (\<lambda>r. p_id r = i) ps =
         Some (q\<lparr>p_status := P_ACTIVE, p_version := p_version q + 1, p_updatedAt := now_ms k\<rparr>)"
    using gate_hits [where P = "stuck_guard i cutoff", OF ok(1) q, of P_ACTIVE k] by (auto simp: stuck_guard_def)
  obtain as where as: "audit_each inFlight k (w\<lparr>policies := ps, claims := ?cs\<rparr>) =
      (Inr (), w\<lparr>policies := ps, claims := ?cs, auditLogs := auditLogs w @ as\<rparr>)"
    using audit_each_run [of inFlight k "w\<lparr>policies := ps, claims := ?cs\<rparr>"] by auto
  obtain b where b: "\<And>v. auditOp ''Policy'' i ''PROCESSING'' ''ACTIVE'' (recover_reason m) k v
      = (Inr (), v\<lparr>auditLogs := auditLogs v @ [b]\<rparr>)"
    by (auto simp: auditOp_def auditLog_create_def)
  have upd: "(if inFlight \<noteq> []
        then s_bind (claim_updateMany (\<lambda>c. c_id c \<in> c_id ` set inFlight \<and> c_status c = C_PROCESSING)
               (\<lambda>c. c\<lparr>c_status := C_FAILED, c_processedAt := Some now\<rparr>)) (\<lambda>_. s_ret ())
        else s_ret ()) k (w\<lparr>policies := ps\<rparr>) = (Inr (), w\<lparr>policies := ps, claims := ?cs\<rparr>)"
    using claims_ok_fail [OF ok(2)]
    by (cases "inFlight = []") (simp_all add: s_bind_def claim_updateMany_def Let_def s_ret_def)
  show ?thesis
    using ps as b upd
    by (intro exI [of _ ps] exI [of _ "as @ [b]"]) (simp add: revert_stuck_def t s_bind_def s_ret_def)
qed

text \<open>
  Each stuck policy is resolved from its claims: with a PAID claim it becomes CLAIMED; with an
  in-flight claim that carries a transaction hash it is left untouched for review; otherwise it is
  ACTIVE again and none of its claims is PROCESSING. The sweep never calls the contract.
\<close>

theorem recover_one_resolves:
  assumes quiet: "quiet e" and ok: "policies_ok (policies w)" "claims_ok (claims w)"
    and stuck: "(i, cs) \<in> set (find_stuck cutoff w)"
  shows "\<exists>r n' w' q. recover_one cutoff now m (i, cs) e (n, w) = (Inr r, (n', w'))
     \<and> policy_findUnique i w' = Some q \<and> chainCalls w' = chainCalls w
     \<and> (if \<exists>c \<in> set cs. c_status c = C_PAID then r = MarkedClaimed \<and> p_status q = P_CLAIMED
        else if \<exists>c \<in> set cs. c_status c = C_PROCESSING \<and> c_txHash c \<noteq> None \<and> c_txHash c \<noteq> Some []
        then r = NeedsManualReview \<and> w' = w
        else r = RevertedToActive \<and> p_status q = P_ACTIVE
          \<and> list_all (\<lambda>c. c_policyId c = i \<longrightarrow> c_status c \<noteq> C_PROCESSING) (claims w'))"
proof -
  from stuck_member [OF stuck ok(1)] obtain q where q: "policy_findUnique i w = Some q" "stuck_guard i cutoff q"
    and cs: "cs = filter (\<lambda>c. c_policyId c = i) (claims w)" by blast
  let ?fl = "filter (\<lambda>c. c_status c = C_PROCESSING) cs"
  show ?thesis
  proof (cases "List.find (\<lambda>c. c_status c = C_PAID) cs")
    case (Some paid)
    then have ex: "\<exists>c \<in> set cs. c_status c = C_PAID" by (auto dest: find_SomeD)
    have t: "s_transition P_PROCESSING P_CLAIMED = s_ret ()"
      by (simp add: s_transition_def transition_def canTransition_def VALID_TRANSITIONS_def)
    obtain ps where ps: "gate_policy (stuck_guard i cutoff) P_CLAIMED (tx_ctx e n) w = (Inr 1, w\<lparr>policies := ps\<rparr>)"
      "List.find (\<lambda>r. p_id r = i) ps = Some (q\<lparr>p_status := P_CLAIMED, p_version := p_version q + 1, p_updatedAt := e_clock e n\<rparr>)"
      using gate_hits [where P = "stuck_guard i cutoff", OF ok(1) q, of P_CLAIMED "tx_ctx e n"] by (auto simp: stuck_guard_def)
    have run: "s_seq (s_transition P_PROCESSING P_CLAIMED) (gate_policy (stuck_guard i cutoff) P_CLAIMED) (tx_ctx e n) w
        = (Inr 1, w\<lparr>policies := ps\<rparr>)" by (simp add: s_bind_def t s_ret_def ps)
    show ?thesis
      using ex ps Some quiet_db [where st = "s_seq (s_transition P_PROCESSING P_CLAIMED)
          (gate_policy (stuck_guard i cutoff) P_CLAIMED)", OF quiet run]
      by (simp add: recover_one_def mark_claimed_def bind_def quiet_runs [OF quiet] ret_def policy_findUnique_def)
  next
    case None
    then have no: "\<not> (\<exists>c \<in> set cs. c_status c = C_PAID)" by (auto simp: find_None_iff)
    show ?thesis
    proof (cases "List.find (\<lambda>c. c_txHash c \<noteq> None \<and> c_txHash c \<noteq> Some []) ?fl")
      case (Some c)
      have "\<exists>c \<in> set cs. c_status c = C_PROCESSING \<and> c_txHash c \<noteq> None \<and> c_txHash c \<noteq> Some []"
        using find_SomeD [OF Some] by auto
      with None no Some q show ?thesis by (simp add: recover_one_def ret_def)
    next
      case nohash: None
      then have un: "\<not> (\<exists>c \<in> set cs. c_status c = C_PROCESSING \<and> c_txHash c \<noteq> None \<and> c_txHash c \<noteq> Some [])"
        by (auto simp: find_None_iff)
      let ?cls = "map (\<lambda>c. if c_id c \<in> c_id ` set ?fl \<and> c_status c = C_PROCESSING
                     then c\<lparr>c_status := C_FAILED, c_processedAt := Some now\<rparr> else c) (claims w)"
      obtain ps as where run: "revert_stuck i cutoff now m ?fl (tx_ctx e n) w = (Inr True, w\<lparr>policies := ps,
          claims := ?cls, auditLogs := auditLogs w @ as\<rparr>)"
        and ps: "List.find (\<lambda>r. p_id r = i) ps =
          Some (q\<lparr>p_status := P_ACTIVE, p_version := p_version q + 1, p_updatedAt := e_clock e n\<rparr>)"
        using revert_stuck_run [OF ok q, of ?fl now m "tx_ctx e n"] cs by auto
      have clean: "list_all (\<lambda>c. c_policyId c = i \<longrightarrow> c_status c \<noteq> C_PROCESSING) ?cls"
        by (auto simp: list_all_iff cs)
      let ?w1 = "w\<lparr>policies := ps, claims := ?cls, auditLogs := auditLogs w @ as,
        outbox := outbox w @ [PolicyStatusChange i (status_str P_ACTIVE) (e_clock e (Suc n)), CacheInvalidate i]\<rparr>"
      obtain n' evs where "notify_each (recover_reason m) ?fl e (Suc (Suc (Suc n)), ?w1) =
          (Inr (), (n', ?w1\<lparr>outbox := outbox ?w1 @ evs\<rparr>))"
        using notify_each_run [OF quiet] by blast
      with None nohash quiet_financial(1) [where st = "revert_stuck i cutoff now m ?fl", OF quiet run]
      have "recover_one cutoff now m (i, cs) e (n, w) = (Inr RevertedToActive, (n', ?w1\<lparr>outbox := outbox ?w1 @ evs\<rparr>))"
        by (simp add: recover_one_def Let_def bind_def quiet_runs [OF quiet] ret_def)
      moreover have "policy_findUnique i (?w1\<lparr>outbox := outbox ?w1 @ evs\<rparr>) =
          Some (q\<lparr>p_status := P_ACTIVE, p_version := p_version q + 1, p_updatedAt := e_clock e n\<rparr>)"
        using ps by (simp add: policy_findUnique_def)
      ultimately show ?thesis
        unfolding if_not_P [OF no] if_not_P [OF un] using clean
        by (intro exI conjI) (assumption | (simp; fail))+
    qed
  qed
qed


definition stuck_world :: world where
  "stuck_world = (sample_world 0)\<lparr>policies := [sample_policy\<lparr>p_status := P_PROCESSING, p_version := 1\<rparr>],
     claims := [(new_claim ''p1'' ''GA'' 5000000000 C_PROCESSING)\<lparr>c_id := ''c1''\<rparr>]\<rparr>"

theorem recover_one_resolves_witness:
  "\<exists>r n' w' q. recover_one 1000 5000 30 (''p1'', claims stuck_world) (sample_env 5000) (0, stuck_world) = (Inr r, (n', w'))
     \<and> r = RevertedToActive \<and> policy_findUnique ''p1'' w' = Some q \<and> p_status q = P_ACTIVE"
proof -
  have ok: "policies_ok (policies stuck_world)" "claims_ok (claims stuck_world)"
    "(''p1'', claims stuck_world) \<in> set (find_stuck 1000 stuck_world)"
    by (simp_all add: stuck_world_def sample_policy_def sample_world_def empty_world_def policies_ok_def
        claims_ok_def new_claim_def non_terminal_def find_stuck_def)
  have "\<not> (\<exists>c \<in> set (claims stuck_world). c_status c = C_PAID)"
    "\<not> (\<exists>c \<in> set (claims stuck_world). c_status c = C_PROCESSING \<and> c_txHash c \<noteq> None \<and> c_txHash c \<noteq> Some [])"
    by (simp_all add: stuck_world_def new_claim_def)
  with recover_one_resolves [OF sample_env_facts(1) ok, of 5000 30 5000 0] show ?thesis by (simp only: if_False) blast
qed

text \<open>The database fails for good right after the contract call.\<close>

definition lost_env :: "int \<Rightarrow> env" where
  "lost_env t = (sample_env t)\<lparr>e_dbfail := (\<lambda>n. if n \<in> {10, 12, 14} then Some SerializationFailure else None)\<rparr>"

text \<open>
  A payout whose record cannot be written is lost: if the transaction after the contract call
  fails, the claim stays PROCESSING without a hash and the policy PROCESSING, although the contract
  was called; the next sweep, seeing no hash, marks the claim FAILED and the policy ACTIVE.
\<close>

theorem payout_record_lost:
  "let (r1, n1, w1) = autoProcess ''p1'' None (lost_env 1000) (0, sample_world 400000000);
       (r2, n2, w2) = recoverStuckProcessingPolicies 9999999 (sample_env 9999999) (0, w1)
   in r1 = Inl SerializationFailure
      \<and> chainCalls w1 = [(sample_contract, ''process_claim'', [''p1''])]
      \<and> map p_status (policies w1) = [P_PROCESSING] \<and> map c_status (claims w1) = [C_PROCESSING]
      \<and> map c_txHash (claims w1) = [None]
      \<and> map p_status (policies w2) = [P_ACTIVE] \<and> map c_status (claims w2) = [C_FAILED]
      \<and> chainCalls w2 = chainCalls w1"
  by code_simp

end
