(* ===== verification/Claim_Submission.thy ===== *)
theory Claim_Submission
  imports Claim_Payout
begin

text \<open>
  Manual claims: \<^verbatim>\<open>submitClaim\<close> and \<^verbatim>\<open>uploadEvidence\<close> of
  \<^verbatim>\<open>src/claims/claims.service.ts\<close>, with the file checks of
  \<^verbatim>\<open>src/claims/evidence-validation.ts\<close>.
\<close>

section \<open>Submission\<close>

definition UUID_PATTERN :: rx where
  "UUID_PATTERN = (let h = Cls is_hex in rx_seq [rx_rep 8 h, rx_lit ''-'', rx_rep 4 h, rx_lit ''-'',
     rx_rep 4 h, rx_lit ''-'', rx_rep 4 h, rx_lit ''-'', rx_rep 12 h])"

definition open_claim :: "string \<Rightarrow> world \<Rightarrow> Claim option" where
  "open_claim policyId w = List.find (\<lambda>c. c_policyId c = policyId
     \<and> c_status c \<in> {C_PAID, C_PROCESSING, C_PENDING}) (claims w)"

definition insert_claim :: "string \<Rightarrow> string \<Rightarrow> Policy \<Rightarrow> Claim stmt" where
  "insert_claim claimant policyId policy =
     s_bind (s_query (policy_findUnique policyId)) (\<lambda>current.
     if (case current of None \<Rightarrow> True
         | Some c \<Rightarrow> p_status c \<noteq> P_ACTIVE \<or> p_version c \<noteq> p_version policy)
     then s_throw (ConflictException ''Policy changed while the claim was being submitted'')
     else
       s_bind (s_query (open_claim policyId)) (\<lambda>existing.
       if existing \<noteq> None then s_throw (ConflictException ''Claim already exists for this policy'')
       else claim_create (new_claim policyId claimant (p_coverageXlm policy) C_PENDING)))"

fun submit_conflict :: "exn \<Rightarrow> exn" where
  "submit_conflict (PrismaKnown code msg target) =
     (if code = ''P2002'' then ConflictException ''Claim already exists for this policy''
      else if isSerializationFailure (PrismaKnown code msg target)
      then ConflictException ''Policy is being modified concurrently; retry the claim''
      else PrismaKnown code msg target)"
| "submit_conflict x = (if isSerializationFailure x
      then ConflictException ''Policy is being modified concurrently; retry the claim'' else x)"

definition submit_on_chain :: "string \<Rightarrow> string \<Rightarrow> string \<Rightarrow> string \<Rightarrow> unit act" where
  "submit_on_chain contractId claimId policyId claimant =
     seq waitForContractCallSlot
     (bind (invokeContract_call contractId ''submit_claim'' [claimId, policyId, claimant]) (\<lambda>txHash.
      let reason = ''Submitted on-chain, txHash='' @ txHash in
      seq (financialBatch (s_seq
             (claim_update claimId (\<lambda>c. c\<lparr>c_status := C_PROCESSING, c_txHash := Some txHash\<rparr>))
             (auditOp ''Claim'' claimId ''PENDING'' ''PROCESSING'' reason)))
      (seq (notify_claim claimId C_PENDING C_PROCESSING claimant reason)
           (cache_invalidate policyId))))"

definition submit_failed :: "string \<Rightarrow> string \<Rightarrow> string \<Rightarrow> unit act" where
  "submit_failed claimId policyId claimant =
     seq (financialBatch (s_seq
            (claim_update_now claimId (\<lambda>t c. c\<lparr>c_status := C_FAILED, c_processedAt := Some t\<rparr>))
            (auditOp ''Claim'' claimId ''PENDING'' ''FAILED'' ''On-chain submission failed'')))
     (seq (notify_claim claimId C_PENDING C_FAILED claimant ''On-chain submission failed'')
          (cache_invalidate policyId))"

definition submitClaim :: "string \<Rightarrow> string \<Rightarrow> string act" where
  "submitClaim claimant policyId =
    (if \<not> rx_test UUID_PATTERN policyId then throw (BadRequestException ''policyId must be a valid UUID'')
     else
     bind (db (s_query (policy_findUnique policyId))) (\<lambda>found.
     case found of
       None \<Rightarrow> throw (NotFoundException ''Policy not found'')
     | Some policy \<Rightarrow>
     if p_policyholder policy \<noteq> claimant
     then throw (ForbiddenException ''Wallet does not own policy'')
     else if p_status policy \<noteq> P_ACTIVE then throw (ConflictException ''Policy is not active'')
     else
     bind clock (\<lambda>t.
     if t > p_endTime policy then throw (ConflictException ''Policy coverage period ended'')
     else
     bind (getProductById (p_productId policy)) (\<lambda>product.
     case product of
       None \<Rightarrow> throw (NotFoundException ''Product not found for policy'')
     | Some pr \<Rightarrow>
     bind (asks (\<lambda>e. e_decOf e (ps_coverageMax pr))) (\<lambda>dec.
     bind (lift dec) (\<lambda>limit.
     if p_coverageXlm policy > limit
     then throw (BadRequestException ''Claim amount exceeds the policy coverage limit'')
     else
     bind (db (s_query (open_claim policyId))) (\<lambda>existing.
     if existing \<noteq> None then throw (ConflictException ''Claim already exists for this policy'')
     else
     bind contract_id (\<lambda>contractId.
     bind (catch (financialTransaction (insert_claim claimant policyId policy))
                 (\<lambda>err. throw (submit_conflict err))) (\<lambda>claim.
     seq (claimCountCache_delete claimant)
     (seq (cache_invalidate policyId)
     (seq (catch (submit_on_chain contractId (c_id claim) policyId claimant)
                 (\<lambda>_. submit_failed (c_id claim) policyId claimant))
          (ret (c_id claim)))))))))))))"

section \<open>Evidence files\<close>

definition ALLOWED_EVIDENCE_TYPES :: "(string \<times> int list list) list" where
  "ALLOWED_EVIDENCE_TYPES =
     [(''image/png'', [[0x89, 0x50, 0x4e, 0x47]]),
      (''image/jpeg'', [[0xff, 0xd8, 0xff]]),
      (''image/webp'', [[0x52, 0x49, 0x46, 0x46]]),
      (''application/pdf'', [[0x25, 0x50, 0x44, 0x46]])]"

definition MAX_EVIDENCE_FILE_SIZE :: nat where
  "MAX_EVIDENCE_FILE_SIZE = 10 * 1024 * 1024"

definition MAX_EVIDENCE_FILES :: nat where
  "MAX_EVIDENCE_FILES = 10"

text \<open>\<open>None\<close> is \<^verbatim>\<open>{ valid: true }\<close>; a byte past the end of a buffer is
  \<^verbatim>\<open>undefined\<close> and equals no byte.\<close>

definition validateEvidenceFileType :: "string \<Rightarrow> string option" where
  "validateEvidenceFileType mimeType =
     (if map_of ALLOWED_EVIDENCE_TYPES mimeType = None then Some ''File type is not allowed'' else None)"

definition has_signature :: "int list \<Rightarrow> int list \<Rightarrow> bool" where
  "has_signature signature buffer \<longleftrightarrow>
     list_all (\<lambda>i. i < length buffer \<and> buffer ! i = signature ! i) [0..<length signature]"

definition validateEvidenceMagicBytes :: "string \<Rightarrow> int list \<Rightarrow> string option" where
  "validateEvidenceMagicBytes mimeType buffer =
     (case map_of ALLOWED_EVIDENCE_TYPES mimeType of
        None \<Rightarrow> Some ''Unknown file type''
      | Some magicBytes \<Rightarrow>
          if length buffer < 4 then Some ''File is too small to be a valid evidence file.''
          else if list_ex (\<lambda>signature. has_signature signature buffer) magicBytes then None
          else Some ''File content does not match the declared type'')"

definition validateEvidenceFile :: "string \<Rightarrow> int list \<Rightarrow> string option" where
  "validateEvidenceFile mimeType buffer =
     (if length buffer > MAX_EVIDENCE_FILE_SIZE then Some ''Evidence file exceeds 10MB limit.''
      else case validateEvidenceFileType mimeType of
        Some r \<Rightarrow> Some r
      | None \<Rightarrow> validateEvidenceMagicBytes mimeType buffer)"

record EvidenceFile =
  originalname :: string
  mimetype :: string
  buffer :: "int list"

fun validate_files :: "string \<Rightarrow> EvidenceFile list \<Rightarrow> ClaimEvidence list outcome" where
  "validate_files claimId [] = Inr []"
| "validate_files claimId (f # fs) =
     (case validateEvidenceFile (mimetype f) (buffer f) of
        Some err \<Rightarrow> Inl (BadRequestException err)
      | None \<Rightarrow> (case validate_files claimId fs of
          Inl x \<Rightarrow> Inl x
        | Inr rows \<Rightarrow> Inr (\<lparr>ev_claimId = claimId, ev_filename = originalname f, ev_mimeType = mimetype f,
             ev_size = int (length (buffer f)), ev_content = buffer f\<rparr> # rows)))"

definition evidence_createMany :: "ClaimEvidence list \<Rightarrow> unit stmt" where
  "evidence_createMany rows c w = (Inr (), w\<lparr>claimEvidence := claimEvidence w @ rows\<rparr>)"

definition uploadEvidence ::
    "string \<Rightarrow> string \<Rightarrow> EvidenceFile list \<Rightarrow> (string \<times> string \<times> int) list act" where
  "uploadEvidence claimId claimant files =
     (if files = [] then throw (BadRequestException ''At least one evidence file is required'')
      else if length files > MAX_EVIDENCE_FILES
      then throw (BadRequestException ''A maximum of 10 evidence files may be uploaded'')
      else
        bind (db (s_query (claim_findUnique claimId))) (\<lambda>found.
        case found of
          None \<Rightarrow> throw (NotFoundException ''Claim not found'')
        | Some claim \<Rightarrow>
            if c_claimant claim \<noteq> claimant
            then throw (ForbiddenException ''Claim belongs to a different wallet'')
            else
              bind (lift (validate_files claimId files)) (\<lambda>evidence.
              seq (db (evidence_createMany evidence))
              (ret (map (\<lambda>r. (ev_filename r, ev_mimeType r, ev_size r)) evidence)))))"

section \<open>The operations keep the contract\<close>

lemma within_insert_claim: "stmt_within evolves (insert_claim a i p)"
  unfolding insert_claim_def by (auto intro!: claim_rules)

lemma guar_submit_steps:
  "guarantees evolves (submit_on_chain k c i a)" "guarantees evolves (submit_failed c i a)"
  unfolding submit_on_chain_def submit_failed_def Let_def
  by (auto intro!: claim_rules simp: claim_evolves_def)

lemma guar_submitClaim: "guarantees evolves (submitClaim a i)"
  unfolding submitClaim_def
  by (auto intro!: claim_rules within_insert_claim guar_submit_steps split: option.splits)

lemma guar_uploadEvidence: "guarantees evolves (uploadEvidence c a fs)"
proof -
  have "stmt_within evolves (evidence_createMany rows)" for rows
    by (auto simp: stmt_within_def evidence_createMany_def evolves_def policy_findUnique_def claim_findUnique_def)
  then show ?thesis
    unfolding uploadEvidence_def by (auto intro!: claim_rules split: option.splits)
qed

section \<open>Ownership comes first\<close>

text \<open>
  A stranger learns nothing about another wallet's claims: for a well-formed id of an existing
  policy that the caller does not own, \<^verbatim>\<open>submitClaim\<close> answers Forbidden right after reading the
  policy, whatever its status and whatever claims exist, and nothing is written.
\<close>

theorem submitClaim_ownership:
  assumes "rx_test UUID_PATTERN i" and "e_dbfail e n = None"
    and "policy_findUnique i (e_rely e n w) = Some p" and "p_policyholder p \<noteq> claimant"
  shows "submitClaim claimant i e (n, w) =
     (Inl (ForbiddenException ''Wallet does not own policy''), (Suc n, e_rely e n w))"
  using assms by (simp add: submitClaim_def bind_def db_def s_query_def throw_def Let_def)

section \<open>One open claim per policy\<close>

lemma insert_claim_ok:
  assumes "insert_claim a i p k w = (Inr cl, v)"
  shows "\<exists>q. policy_findUnique i w = Some q \<and> p_status q = P_ACTIVE \<and> p_version q = p_version p"
    and "open_claim i w = None" and "c_policyId cl = i" and "c_claimant cl = a"
    and "c_status cl = C_PENDING" and "c_coverageAmount cl = p_coverageXlm p"
    and "v = w\<lparr>claims := claims w @ [cl]\<rparr>" and "claims_ok (claims v)"
  using assms
  by (auto simp: insert_claim_def returns claim_create_def new_claim_def Let_def
      split: option.splits if_splits)

text \<open>
  A policy has at most one open claim: once a submission has inserted its claim, every further
  submission for the policy is refused, in every later world in which that claim is still PENDING,
  PROCESSING or PAID.
\<close>

theorem submission_exclusive:
  assumes first: "insert_claim a i p k w = (Inr cl, v)" and later: "evolves v u"
    and "open": "claim_findUnique (c_id cl) u = Some d" "c_status d \<in> {C_PENDING, C_PROCESSING, C_PAID}"
  shows "insert_claim b i p' k' u \<noteq> (Inr cl', u')"
proof
  assume again: "insert_claim b i p' k' u = (Inr cl', u')"
  have v: "v = w\<lparr>claims := claims w @ [cl]\<rparr>" "claims_ok (claims v)" "c_policyId cl = i"
    using insert_claim_ok [OF first] by blast+
  then have "cl \<in> set (claims v)" "distinct (map c_id (claims v))" by (auto simp: claims_ok_def)
  from find_distinct [OF this(2,1)] have "claim_findUnique (c_id cl) v = Some cl"
    by (simp add: claim_findUnique_def)
  with later "open"(1) have "claim_evolves cl d" unfolding evolves_def by fastforce
  then have "c_policyId d = i" using v by (simp add: claim_evolves_def)
  moreover have "d \<in> set (claims u)" using "open"(1) by (auto simp: claim_findUnique_def dest: find_SomeD)
  ultimately have "open_claim i u \<noteq> None" using "open"(2) by (auto simp: open_claim_def find_None_iff)
  with insert_claim_ok(2) [OF again] show False by simp
qed

section \<open>Outcome of a submission\<close>

text \<open>A submission that nothing obstructs.\<close>

definition submittable :: "env \<Rightarrow> string \<Rightarrow> string \<Rightarrow> world \<Rightarrow> Policy \<Rightarrow> Product \<Rightarrow> string \<Rightarrow> bool" where
  "submittable e claimant i w p pr k \<longleftrightarrow> rx_test UUID_PATTERN i
     \<and> policy_findUnique i w = Some p \<and> p_policyholder p = claimant \<and> p_status p = P_ACTIVE
     \<and> (\<forall>j. e_clock e j \<le> p_endTime p) \<and> claims_ok (claims w)
     \<and> List.find (\<lambda>pr. pr_id pr = p_productId p \<and> pr_status pr = PR_ACTIVE) (products w) = Some pr
     \<and> e_decOf e (e_decStr e (pr_coverageMax pr)) = Inr (pr_coverageMax pr)
     \<and> p_coverageXlm p \<le> pr_coverageMax pr \<and> open_claim i w = None
     \<and> (\<forall>j. e_uuid e j \<notin> c_id ` set (claims w))
     \<and> e_config e ''CLAIMS_PROCESSOR_CONTRACT'' = Some k \<and> rx_test CONTRACT_ID k"

lemma insert_claim_run:
  assumes "policy_findUnique i w = Some p" "p_status p = P_ACTIVE" "claims_ok (claims w)" "open_claim i w = None"
    "fresh_id k \<notin> c_id ` set (claims w)"
  shows "\<exists>cl. insert_claim a i p k w = (Inr cl, w\<lparr>claims := claims w @ [cl]\<rparr>)
    \<and> cl = (new_claim i a (p_coverageXlm p) C_PENDING)
       \<lparr>c_id := fresh_id k, c_submittedAt := now_ms k, c_createdAt := now_ms k\<rparr>
    \<and> claims_ok (claims w @ [cl])"
proof -
  let ?cl = "(new_claim i a (p_coverageXlm p) C_PENDING)
       \<lparr>c_id := fresh_id k, c_submittedAt := now_ms k, c_createdAt := now_ms k\<rparr>"
  have "claims_ok (claims w @ [?cl])"
    using assms by (intro claims_ok_snoc) (auto simp: new_claim_def non_terminal_def open_claim_def find_None_iff)
  then show ?thesis
    using assms by (simp add: insert_claim_def s_bind_def s_query_def claim_create_def Let_def)
qed

lemma claim_update_const: "claim_update i f = claim_update_now i (\<lambda>_. f)"
  by (simp add: fun_eq_iff claim_update_now_def)

lemma submit_settle_run:
  assumes quiet: "quiet e" and w: "claims w = cs @ [c]" "c_id c \<notin> c_id ` set cs"
    and ok: "claims_ok (cs @ [f (e_clock e n) c])"
  shows "\<exists>a. financialBatch (s_seq (claim_update_now (c_id c) f) (auditOp ty j st st' r)) e (n, w) =
     (Inr (), (Suc n, w\<lparr>claims := cs @ [f (e_clock e n) c], auditLogs := auditLogs w @ [a]\<rparr>))"
proof -
  let ?st = "s_seq (claim_update_now (c_id c) f) (auditOp ty j st st' r)"
  obtain a where a: "\<And>v. auditOp ty j st st' r (tx_ctx e n) v = (Inr (), v\<lparr>auditLogs := auditLogs v @ [a]\<rparr>)"
    by (auto simp: auditOp_def auditLog_create_def)
  have "?st (tx_ctx e n) w = (Inr (), w\<lparr>claims := cs @ [f (e_clock e n) c], auditLogs := auditLogs w @ [a]\<rparr>)"
    using claim_update_last [where f = "f (e_clock e n)", OF w ok] by (simp add: s_bind_def claim_update_now_def a)
  from quiet_financial(2) [where st = ?st, OF quiet this] show ?thesis by blast
qed

lemma submitClaim_to_chain:
  assumes quiet: "quiet e" and sub: "submittable e a i w p pr k"
  obtains n1 w1 cl where "c_id cl \<notin> c_id ` set (claims w)" "c_status cl = C_PENDING" "c_policyId cl = i"
    "c_claimant cl = a" "c_txHash cl = None" "c_coverageAmount cl = p_coverageXlm p"
    "claims w1 = claims w @ [cl]" "claims_ok (claims w @ [cl])" "policies w1 = policies w"
    "chainCalls w1 = chainCalls w"
    "submitClaim a i e (n, w) = seq (catch (submit_on_chain k (c_id cl) i a)
        (\<lambda>_. submit_failed (c_id cl) i a)) (ret (c_id cl)) e (n1, w1)"
proof -
  note s = sub [unfolded submittable_def]
  let ?k = "tx_ctx e (n + 4)"
  have new: "fresh_id ?k \<notin> c_id ` set (claims w)" using s by simp
  have f: "policy_findUnique i w = Some p" "p_status p = P_ACTIVE" "claims_ok (claims w)" "open_claim i w = None"
    using s by simp_all
  obtain cl where ins: "insert_claim a i p ?k w = (Inr cl, w\<lparr>claims := claims w @ [cl]\<rparr>)"
    and cl: "cl = (new_claim i a (p_coverageXlm p) C_PENDING)
       \<lparr>c_id := fresh_id ?k, c_submittedAt := now_ms ?k, c_createdAt := now_ms ?k\<rparr>"
    and ok: "claims_ok (claims w @ [cl])"
    using insert_claim_run [OF f new, of a] by metis
  have get: "getProductById (p_productId p) e (m, w) = (Inr (Some (mapProduct (e_decStr e) pr)), (Suc m, w))" for m
    using quiet s by (simp add: getProductById_def bind_def asks_def db_def quiet_def s_query_def ret_def Let_def)
  have fin: "financialTransaction (insert_claim a i p) e (n + 4, w) = (Inr cl, (Suc (n + 4), w\<lparr>claims := claims w @ [cl]\<rparr>))"
    by (rule quiet_financial(1) [where st = "insert_claim a i p", OF quiet ins])
  have nt: "\<not> p_endTime p < e_clock e (Suc n)" "\<not> p_coverageXlm p > pr_coverageMax pr" using s by (simp_all add: not_less)
  have "submitClaim a i e (n, w) = seq (claimCountCache_delete a) (seq (cache_invalidate i)
      (seq (catch (submit_on_chain k (c_id cl) i a) (\<lambda>_. submit_failed (c_id cl) i a)) (ret (c_id cl))))
      e (Suc (n + 4), w\<lparr>claims := claims w @ [cl]\<rparr>)"
    using s quiet get contract_id_run [of e k] fin nt
    by (simp add: submitClaim_def bind_def db_def s_query_def quiet_def clock_def asks_def lift_def mapProduct_def
        catch_def numeral_eq_Suc)
  then show thesis
    using that [of cl "w\<lparr>claims := claims w @ [cl], claimCountCache := AList.delete a (claimCountCache w),
        outbox := outbox w @ [CacheInvalidate i]\<rparr>" "6 + n"] ok cl new
    by (simp add: bind_def [of "claimCountCache_delete a"] bind_def [of "cache_invalidate i"] quiet_runs [OF quiet] new_claim_def)
qed


text \<open>
  An unobstructed submission inserts one claim and calls the contract once: the id of the new claim
  is returned in either case; when the contract answers with a fresh hash the claim is PROCESSING
  with that hash, when the call fails the claim is FAILED. The policy is not touched.
\<close>

theorem submitClaim_outcome:
  assumes quiet: "quiet e" and sub: "submittable e a i w p pr k"
    and answer: "(\<forall>j. e_invoke e j = Inr h) \<and> Some h \<notin> c_txHash ` set (claims w) \<or> (\<forall>j. e_invoke e j = Inl x)"
  shows "\<exists>n' w' cl. submitClaim a i e (n, w) = (Inr (c_id cl), (n', w'))
     \<and> claims w' = claims w @ [cl] \<and> policies w' = policies w
     \<and> c_policyId cl = i \<and> c_claimant cl = a \<and> c_coverageAmount cl = p_coverageXlm p
     \<and> chainCalls w' = chainCalls w @ [(k, ''submit_claim'', [c_id cl, i, a])]
     \<and> (if e_invoke e 0 = Inr h then c_status cl = C_PROCESSING \<and> c_txHash cl = Some h
        else c_status cl = C_FAILED \<and> c_txHash cl = None)"
proof -
  obtain n1 w1 cl where new: "c_id cl \<notin> c_id ` set (claims w)" and
    cl: "c_status cl = C_PENDING" "c_policyId cl = i" "c_claimant cl = a" "c_txHash cl = None"
      "c_coverageAmount cl = p_coverageXlm p" and
    w1: "claims w1 = claims w @ [cl]" "claims_ok (claims w @ [cl])" "policies w1 = policies w"
      "chainCalls w1 = chainCalls w" and
    run: "submitClaim a i e (n, w) = seq (catch (submit_on_chain k (c_id cl) i a)
        (\<lambda>_. submit_failed (c_id cl) i a)) (ret (c_id cl)) e (n1, w1)"
    by (rule submitClaim_to_chain [OF quiet sub, of n])
  obtain n2 t where slot: "waitForContractCallSlot e (n1, w1) = (Inr (), (n2, w1\<lparr>nextContractCallAt := t\<rparr>))"
    using quiet_runs(7) [OF quiet] by blast
  let ?w2 = "w1\<lparr>nextContractCallAt := t, chainCalls := chainCalls w @ [(k, ''submit_claim'', [c_id cl, i, a])]\<rparr>"
  have inv: "invokeContract_call k ''submit_claim'' [c_id cl, i, a] e (n2, w1\<lparr>nextContractCallAt := t\<rparr>) =
      (e_invoke e n2, (Suc n2, ?w2))"
    using quiet w1 by (simp add: invokeContract_call_def quiet_def)
  have w2: "claims ?w2 = claims w @ [cl]" using w1 by simp
  show ?thesis
  proof (cases "\<forall>j. e_invoke e j = Inr h")
    case True
    then have h: "Some h \<notin> c_txHash ` set (claims w)" using answer by auto
    let ?f = "\<lambda>c. c\<lparr>c_status := C_PROCESSING, c_txHash := Some h\<rparr>"
    have ok: "claims_ok (claims w @ [?f cl])"
      using w1(2) h cl by (auto simp: claims_ok_def non_terminal_def)
    obtain b where b: "financialBatch (s_seq (claim_update_now (c_id cl) (\<lambda>_. ?f))
        (auditOp ''Claim'' (c_id cl) ''PENDING'' ''PROCESSING'' (''Submitted on-chain, txHash='' @ h))) e (Suc n2, ?w2) =
        (Inr (), (Suc (Suc n2), ?w2\<lparr>claims := claims w @ [?f cl], auditLogs := auditLogs ?w2 @ [b]\<rparr>))"
      using submit_settle_run [where f = "\<lambda>_. ?f", OF quiet w2 new ok] by blast
    have "fst (submitClaim a i e (n, w)) = Inr (c_id cl) \<and> claims (snd (snd (submitClaim a i e (n, w)))) = claims w @ [?f cl]
        \<and> policies (snd (snd (submitClaim a i e (n, w)))) = policies w
        \<and> chainCalls (snd (snd (submitClaim a i e (n, w)))) = chainCalls ?w2"
      using True w1 b inv slot
      by (simp add: run bind_def catch_def submit_on_chain_def Let_def quiet_runs [OF quiet] ret_def claim_update_const)
    then show ?thesis
      using True cl by (intro exI [of _ "fst (snd (submitClaim a i e (n, w)))"]
          exI [of _ "snd (snd (submitClaim a i e (n, w)))"] exI [of _ "?f cl"]) (simp add: prod_eq_iff)
  next
    case False
    with answer have x: "\<forall>j. e_invoke e j = Inl x" by blast
    let ?f = "\<lambda>c. c\<lparr>c_status := C_FAILED, c_processedAt := Some (e_clock e (Suc n2))\<rparr>"
    have ok: "claims_ok (claims w @ [?f cl])"
      using cl by (intro claims_ok_settle [OF w1(2)]) (auto simp: non_terminal_def)
    obtain b where b: "financialBatch (s_seq (claim_update_now (c_id cl) (\<lambda>t c. c\<lparr>c_status := C_FAILED, c_processedAt := Some t\<rparr>))
        (auditOp ''Claim'' (c_id cl) ''PENDING'' ''FAILED'' ''On-chain submission failed'')) e (Suc n2, ?w2) =
        (Inr (), (Suc (Suc n2), ?w2\<lparr>claims := claims w @ [?f cl], auditLogs := auditLogs ?w2 @ [b]\<rparr>))"
      using submit_settle_run [where f = "\<lambda>t c. c\<lparr>c_status := C_FAILED, c_processedAt := Some t\<rparr>", OF quiet w2 new ok]
      by blast
    have "fst (submitClaim a i e (n, w)) = Inr (c_id cl) \<and> claims (snd (snd (submitClaim a i e (n, w)))) = claims w @ [?f cl]
        \<and> policies (snd (snd (submitClaim a i e (n, w)))) = policies w
        \<and> chainCalls (snd (snd (submitClaim a i e (n, w)))) = chainCalls ?w2"
      using x w1 b inv slot
      by (simp add: run bind_def catch_def submit_on_chain_def submit_failed_def quiet_runs [OF quiet] ret_def)
    then show ?thesis
      using x cl by (intro exI [of _ "fst (snd (submitClaim a i e (n, w)))"]
          exI [of _ "snd (snd (submitClaim a i e (n, w)))"] exI [of _ "?f cl"]) (simp add: prod_eq_iff)
  qed
qed


section \<open>Evidence\<close>

text \<open>A file that may be stored: a listed type, at most ten megabytes, and the bytes of that type.\<close>

definition acceptable :: "string \<Rightarrow> int list \<Rightarrow> bool" where
  "acceptable mime bytes \<longleftrightarrow> length bytes \<le> MAX_EVIDENCE_FILE_SIZE \<and> 4 \<le> length bytes
     \<and> (\<exists>sig. (mime, sig) \<in> {(''image/png'', [0x89, 0x50, 0x4e, 0x47]), (''image/jpeg'', [0xff, 0xd8, 0xff]),
          (''image/webp'', [0x52, 0x49, 0x46, 0x46]), (''application/pdf'', [0x25, 0x50, 0x44, 0x46])}
          \<and> take (length sig) bytes = sig)"

lemma has_signature_prefix:
  "has_signature sig bytes \<longleftrightarrow> take (length sig) bytes = sig"
proof
  assume "has_signature sig bytes"
  then have all: "\<And>i. i < length sig \<Longrightarrow> i < length bytes \<and> bytes ! i = sig ! i"
    by (auto simp: has_signature_def list_all_iff)
  then have "length sig \<le> length bytes"
    using all [of "length bytes"] by (meson leI less_irrefl)
  then show "take (length sig) bytes = sig" using all by (intro nth_equalityI) auto
next
  assume t: "take (length sig) bytes = sig"
  then have "length sig \<le> length bytes" by (metis length_take min.cobounded1)
  moreover have "bytes ! i = sig ! i" if "i < length sig" for i using t that by (metis nth_take)
  ultimately show "has_signature sig bytes" by (auto simp: has_signature_def list_all_iff)
qed

lemma validateEvidenceFile_iff: "validateEvidenceFile mime bytes = None \<longleftrightarrow> acceptable mime bytes"
  by (auto simp: validateEvidenceFile_def validateEvidenceFileType_def validateEvidenceMagicBytes_def
      ALLOWED_EVIDENCE_TYPES_def acceptable_def has_signature_prefix split: if_splits)

lemma validate_files_iff:
  "validate_files i fs = Inr rows \<longleftrightarrow>
   list_all (\<lambda>f. acceptable (mimetype f) (buffer f)) fs \<and>
   rows = map (\<lambda>f. \<lparr>ev_claimId = i, ev_filename = originalname f, ev_mimeType = mimetype f,
      ev_size = int (length (buffer f)), ev_content = buffer f\<rparr>) fs"
  by (induction fs arbitrary: rows)
    (auto simp: validateEvidenceFile_iff [symmetric] split: option.splits sum.splits, metis)

text \<open>
  Evidence is stored completely or not at all: an upload by anyone but the claimant, of no or more
  than ten files, or with a file whose type, size or leading bytes do not match, stores nothing;
  otherwise exactly the given files are stored for that claim.
\<close>

theorem uploadEvidence_all_or_nothing:
  assumes quiet: "quiet e" and "claim_findUnique cid w = Some cl"
  shows "if files \<noteq> [] \<and> length files \<le> 10 \<and> c_claimant cl = a
            \<and> list_all (\<lambda>f. acceptable (mimetype f) (buffer f)) files
         then \<exists>s. uploadEvidence cid a files e (n, w) = (Inr s, (n + 2, w\<lparr>claimEvidence := claimEvidence w @
                map (\<lambda>f. \<lparr>ev_claimId = cid, ev_filename = originalname f, ev_mimeType = mimetype f,
                  ev_size = int (length (buffer f)), ev_content = buffer f\<rparr>) files\<rparr>))
         else \<exists>x n'. uploadEvidence cid a files e (n, w) = (Inl x, (n', w))"
proof (cases "validate_files cid files")
  case (Inl x)
  then have "\<not> list_all (\<lambda>f. acceptable (mimetype f) (buffer f)) files"
    using validate_files_iff [of cid files] by auto
  then show ?thesis
    using assms Inl by (auto simp: uploadEvidence_def throw_def bind_def db_def quiet_def s_query_def lift_def)
next
  case (Inr rows)
  then show ?thesis
    using assms validate_files_iff [of cid files rows]
    by (auto simp: uploadEvidence_def throw_def bind_def db_def quiet_def s_query_def lift_def ret_def
        evidence_createMany_def MAX_EVIDENCE_FILES_def)
qed

section \<open>Witnesses\<close>

definition sample_uuid :: string where
  "sample_uuid = ''12345678-1234-1234-1234-1234567890ab''"

definition submit_world :: world where
  "submit_world = (sample_world 0)\<lparr>policies := [sample_policy\<lparr>p_id := sample_uuid\<rparr>]\<rparr>"

definition submit_env :: env where
  "submit_env = (sample_env 500)\<lparr>e_decOf := (\<lambda>s. parseDecimalScaled (\<lambda>_. []) (VStr s) DEFAULT_DECIMAL_SCALE)\<rparr>"

lemma sample_uuid_ok: "rx_test UUID_PATTERN sample_uuid"
  by code_simp

theorem submitClaim_ownership_witness:
  "submitClaim ''GB'' sample_uuid (sample_env 500) (0, submit_world) =
     (Inl (ForbiddenException ''Wallet does not own policy''), (1, submit_world))"
proof -
  have f: "e_dbfail (sample_env 500) 0 = None" "e_rely (sample_env 500) 0 submit_world = submit_world"
    by (simp_all add: sample_env_def quiet_env_def)
  have "policy_findUnique sample_uuid (e_rely (sample_env 500) 0 submit_world) = Some (sample_policy\<lparr>p_id := sample_uuid\<rparr>)"
    unfolding f(2) by (simp add: submit_world_def policy_findUnique_def)
  from submitClaim_ownership [OF sample_uuid_ok f(1) this, of "''GB''"] show ?thesis
    by (simp add: f sample_policy_def)
qed

lemma sample_submittable:
  "submittable submit_env ''GA'' sample_uuid submit_world (sample_policy\<lparr>p_id := sample_uuid\<rparr>) sample_row sample_contract"
  "quiet submit_env"
  using sample_uuid_ok sample_env_facts
  by (simp_all add: submittable_def submit_env_def submit_world_def policy_findUnique_def sample_world_def empty_world_def
      sample_env_def quiet_env_def claims_ok_def open_claim_def formatStroops_parse sample_policy_def sample_row_def quiet_def)

theorem submitClaim_outcome_witness:
  "\<exists>n' w' cl. submitClaim ''GA'' sample_uuid submit_env (0, submit_world) = (Inr (c_id cl), (n', w'))
     \<and> claims w' = [cl] \<and> c_status cl = C_PROCESSING
     \<and> chainCalls w' = [(sample_contract, ''submit_claim'', [c_id cl, sample_uuid, ''GA''])]"
proof -
  have inv: "\<forall>j. e_invoke submit_env j = Inr (replicate 64 (CHR ''a''))"
    by (simp add: submit_env_def sample_env_def quiet_env_def)
  then have "(\<forall>j. e_invoke submit_env j = Inr (replicate 64 (CHR ''a'')))
      \<and> Some (replicate 64 (CHR ''a'')) \<notin> c_txHash ` set (claims submit_world)
      \<or> (\<forall>j. e_invoke submit_env j = Inl (PlainError []))"
    by (simp add: submit_world_def sample_world_def empty_world_def)
  from submitClaim_outcome [OF sample_submittable(2,1) this, of 0] inv show ?thesis
    by (auto simp: submit_world_def sample_world_def empty_world_def)
qed

theorem submission_exclusive_witness:
  "\<exists>cl v. insert_claim ''GA'' sample_uuid sample_policy \<lparr>now_ms = 5, fresh_id = ''c1''\<rparr> submit_world = (Inr cl, v)
     \<and> (\<forall>d u. insert_claim ''GA'' sample_uuid sample_policy \<lparr>now_ms = 6, fresh_id = ''c2''\<rparr> v \<noteq> (Inr d, u))"
proof -
  have "policy_findUnique sample_uuid submit_world = Some (sample_policy\<lparr>p_id := sample_uuid\<rparr>)"
    "claims submit_world = []" "open_claim sample_uuid submit_world = None"
    by (simp_all add: submit_world_def sample_world_def empty_world_def policy_findUnique_def open_claim_def)
  then obtain cl v where r: "insert_claim ''GA'' sample_uuid sample_policy \<lparr>now_ms = 5, fresh_id = ''c1''\<rparr> submit_world = (Inr cl, v)"
    by (auto simp: insert_claim_def s_bind_def s_query_def claim_create_def sample_policy_def claims_ok_def Let_def
        new_claim_def non_terminal_def)
  have "claim_findUnique (c_id cl) v = Some cl" "c_status cl = C_PENDING"
    using insert_claim_ok [OF r] \<open>claims submit_world = []\<close> by (simp_all add: claim_findUnique_def)
  with submission_exclusive [OF r evolves_refl, of cl] r show ?thesis by auto
qed

theorem uploadEvidence_all_or_nothing_witness:
  "\<exists>s n' v. uploadEvidence ''c1'' ''GA'' [\<lparr>originalname = ''f'', mimetype = ''application/pdf'', buffer = [0x25, 0x50, 0x44, 0x46, 0]\<rparr>]
       (sample_env 500) (0, pending_world) = (Inr s, (n', v)) \<and> length (claimEvidence v) = 1"
proof -
  let ?f = "\<lparr>originalname = ''f'', mimetype = ''application/pdf'', buffer = [0x25, 0x50, 0x44, 0x46, 0 :: int]\<rparr>"
  have "claim_findUnique ''c1'' pending_world = Some ((new_claim ''p1'' ''GA'' 5000000000 C_PENDING)\<lparr>c_id := ''c1''\<rparr>)"
    by (simp add: pending_world_def claim_findUnique_def new_claim_def)
  moreover have "acceptable ''application/pdf'' [0x25, 0x50, 0x44, 0x46, 0]"
    by (simp add: acceptable_def MAX_EVIDENCE_FILE_SIZE_def)
  ultimately show ?thesis
    using uploadEvidence_all_or_nothing [OF sample_env_facts(1) [of 500], of "''c1''" pending_world _ "[?f]" "''GA''" 0]
    by (auto simp: new_claim_def pending_world_def sample_world_def empty_world_def)
qed

end
