(* ===== verification/Policy_Lifecycle.thy ===== *)
theory Policy_Lifecycle
  imports Claim_Payout
begin

text \<open>
  What the operations of \<^verbatim>\<open>src/policy/policy.service.ts\<close> achieve: a created policy is priced and
  bounded by its product, a cancellation is final, product updates version the rate; and the
  interleavings in which the catalogue cache and the rate version go wrong.
\<close>

section \<open>Samples\<close>

definition rate_update :: "int \<Rightarrow> UpdateProductDto" where
  "rate_update r = \<lparr>u_name = None, u_category = None, u_triggerType = None, u_threshold = None, u_comparison = None,
     u_coverageMin = None, u_coverageMax = None, u_premiumRate = Some r, u_maxDuration = None, u_status = None\<rparr>"

definition rate_race_env :: env where
  "rate_race_env = (sample_env 0)\<lparr>e_rely := (\<lambda>n w.
     if n = 1 then snd (snd (updateProduct ''crop'' (rate_update 600) (sample_env 0) (0, w))) else w)\<rparr>"

definition list_race_env :: env where
  "list_race_env = (sample_env 1000)\<lparr>e_rely := (\<lambda>n w.
     if n = 0 then snd (snd (getActiveProducts 1 20 (sample_env 1000) (0, w))) else w)\<rparr>"

definition sample_dto :: BuyPolicyDto where
  "sample_dto = \<lparr>d_productId = ''crop'', d_coverageXlm = js_int 500, d_walletAddress = ''GA'', d_duration = 10,
     d_oracleKey = ''rainfall:0,0:2026-06''\<rparr>"

definition buy_world :: world where
  "buy_world = (sample_world 0)\<lparr>oracleReadings := [(sample_reading 0)\<lparr>or_key := ''rainfall:0,0:2026-06''\<rparr>]\<rparr>"

section \<open>Creating a policy\<close>

lemma validateCoverage_None:
  assumes "validateCoverage cov product (Some key) e s = (Inr None, s')"
  shows "\<exists>mn mx. BigInt_str (whole_part (ps_coverageMin product)) = Inr mn
      \<and> BigInt_str (whole_part (ps_coverageMax product)) = Inr mx
      \<and> mn \<le> num_int cov \<and> num_int cov \<le> mx"
  using assms
  by (auto simp: validateCoverage_def returns BigInt_num_def not_less split: if_splits)

lemma getProductById_Some:
  assumes "getProductById i e (n, w) = (Inr (Some product), s')"
  shows "\<exists>pr \<in> set (products (e_rely e n w)). pr_id pr = i \<and> pr_status pr = PR_ACTIVE \<and> product = mapProduct (e_decStr e) pr"
proof -
  from assms have "map_option (mapProduct (e_decStr e)) (List.find (\<lambda>p. pr_id p = i \<and> pr_status p = PR_ACTIVE) (products (e_rely e n w))) = Some product"
    by (auto simp: getProductById_def returns s_query_def dest: sym)
  then show ?thesis by (auto simp: find_Some_iff)
qed

lemma createPolicy_unfold:
  assumes "createPolicy dto h e (n, w) = (Inr p, (n', w'))"
  shows "\<exists>product premium k u.
      (\<exists>pr \<in> set (products (e_rely e (Suc n) w)). pr_id pr = d_productId dto \<and> pr_status pr = PR_ACTIVE \<and> product = mapProduct (e_decStr e) pr)
    \<and> d_duration dto \<le> ps_maxDuration product
    \<and> (\<exists>mn mx. BigInt_str (whole_part (ps_coverageMin product)) = Inr mn
        \<and> BigInt_str (whole_part (ps_coverageMax product)) = Inr mx
        \<and> mn \<le> num_int (d_coverageXlm dto) \<and> num_int (d_coverageXlm dto) \<le> mx)
    \<and> validateOracleKey (d_oracleKey dto) product
       (Some (e_clock e n div 1000 * 1000, e_clock e n div 1000 * 1000 + d_duration dto * DAY_MS)) = None
    \<and> calculatePremium (d_coverageXlm dto) (js_int (ps_premiumRate product)) (js_int (d_duration dto)) = Inr premium
    \<and> policy_create (new_policy dto product (e_clock e n div 1000 * 1000) premium h) (tx_ctx e k) u = (Inr p, w')"
proof -
  let ?t = "e_clock e n div 1000 * 1000"
  from assms obtain product premium s0 s1 s2 k u where
    row: "getProductById (d_productId dto) e (Suc n, w) = (Inr (Some product), s0)"
    and "\<not> d_duration dto > ps_maxDuration product"
    and cov: "validateCoverage (d_coverageXlm dto) product (Some (d_oracleKey dto)) e s1 = (Inr None, s2)"
    and "validateOracleKey (d_oracleKey dto) product (Some (?t, ?t + d_duration dto * DAY_MS)) = None"
    "calculatePremium (d_coverageXlm dto) (js_int (ps_premiumRate product)) (js_int (d_duration dto)) = Inr premium"
    "policy_create (new_policy dto product ?t premium h) (tx_ctx e k) u = (Inr p, w')"
    unfolding createPolicy_def Let_def returns by auto
  with validateCoverage_None [OF cov] getProductById_Some [OF row] show ?thesis unfolding not_less by blast
qed

text \<open>
  C28. A policy that is created is priced and bounded by the product it names: the row that
  \<^verbatim>\<open>createPolicy\<close> returns is in the table, ACTIVE at version zero, for the caller's wallet and
  with the given transaction hash; it starts at the current second and ends a whole number of days
  later. There is a row of the products table with the id of the request, active when it was read, such that the
  duration is at most its maximum, rate and rate version of the policy are its own, the whole coverage is between
  the whole parts of its limits, the oracle key is valid for it over the insured period, and the premium is the price of
  \<^verbatim>\<open>calculatePremium\<close> at its rate. The tables stay consistent,
  so no other policy has the same hash or the same wallet, product and key.
\<close>

theorem createPolicy_sound:
  assumes "createPolicy dto h e (n, w) = (Inr p, (n', w'))"
  shows "p \<in> set (policies w') \<and> policies_ok (policies w')
     \<and> p_status p = P_ACTIVE \<and> p_version p = 0 \<and> p_txHash p = Some h
     \<and> p_policyholder p = d_walletAddress dto \<and> p_productId p = d_productId dto
     \<and> p_startTime p = e_clock e n div 1000 * 1000
     \<and> p_endTime p = p_startTime p + d_duration dto * 86400000
     \<and> p_oracleKey p = d_oracleKey dto \<and> p_coverageXlm p = num_int (d_coverageXlm dto) * 10000000
     \<and> (\<exists>pr \<in> set (products (e_rely e (Suc n) w)). pr_id pr = d_productId dto \<and> pr_status pr = PR_ACTIVE
         \<and> d_duration dto \<le> pr_maxDuration pr
         \<and> p_premiumRate p = pr_premiumRate pr
         \<and> p_premiumRateVersion p = pr_premiumRateVersion pr
         \<and> calculatePremium (d_coverageXlm dto) (js_int (pr_premiumRate pr)) (js_int (d_duration dto))
             = Inr (p_premiumPaid p div 10000000) \<and> p_premiumPaid p mod 10000000 = 0
         \<and> validateOracleKey (p_oracleKey p) (mapProduct (e_decStr e) pr) (Some (p_startTime p, p_endTime p)) = None
         \<and> (\<exists>mn mx. BigInt_str (whole_part (e_decStr e (pr_coverageMin pr))) = Inr mn
             \<and> BigInt_str (whole_part (e_decStr e (pr_coverageMax pr))) = Inr mx
             \<and> mn \<le> num_int (d_coverageXlm dto) \<and> num_int (d_coverageXlm dto) \<le> mx))"
proof -
  let ?t = "e_clock e n div 1000 * 1000"
  from createPolicy_unfold [OF assms] obtain pr premium k u where
    row: "pr \<in> set (products (e_rely e (Suc n) w))" "pr_id pr = d_productId dto" "pr_status pr = PR_ACTIVE"
    and dur: "d_duration dto \<le> pr_maxDuration pr"
    and limits: "\<exists>mn mx. BigInt_str (whole_part (e_decStr e (pr_coverageMin pr))) = Inr mn
        \<and> BigInt_str (whole_part (e_decStr e (pr_coverageMax pr))) = Inr mx
        \<and> mn \<le> num_int (d_coverageXlm dto) \<and> num_int (d_coverageXlm dto) \<le> mx"
    and key: "validateOracleKey (d_oracleKey dto) (mapProduct (e_decStr e) pr) (Some (?t, ?t + d_duration dto * DAY_MS)) = None"
    and premium: "calculatePremium (d_coverageXlm dto) (js_int (pr_premiumRate pr)) (js_int (d_duration dto)) = Inr premium"
    and create: "policy_create (new_policy dto (mapProduct (e_decStr e) pr) ?t premium h) (tx_ctx e k) u = (Inr p, w')"
    by (auto simp: mapProduct_def)
  from create have p: "p = (new_policy dto (mapProduct (e_decStr e) pr) ?t premium h)
      \<lparr>p_id := e_uuid e k, p_createdAt := e_clock e k, p_updatedAt := e_clock e k\<rparr>"
    and w': "w' = u\<lparr>policies := policies u @ [p]\<rparr>" "policies_ok (policies u @ [p])"
    by (auto simp: policy_create_def Let_def split: if_splits)
  have own: "p_premiumRate p = pr_premiumRate pr" "p_premiumRateVersion p = pr_premiumRateVersion pr"
    "p_premiumPaid p = premium * 10000000" "p_oracleKey p = d_oracleKey dto" "p_startTime p = ?t" "p_endTime p = ?t + d_duration dto * DAY_MS"
    "p_status p = P_ACTIVE" "p_version p = 0" "p_txHash p = Some h" "p_policyholder p = d_walletAddress dto" "p_productId p = d_productId dto"
    "p_coverageXlm p = num_int (d_coverageXlm dto) * 10000000"
    by (simp_all add: p new_policy_def Let_def STROOPS_PER_XLM_def mapProduct_def snapshotPremiumRate_def)
  have "DAY_MS = 86400000" by (simp add: DAY_MS_def)
  with own w' row dur limits key premium show ?thesis by (intro conjI bexI [of _ pr]) simp_all
qed

section \<open>Cancelling a policy\<close>

lemma cancelPolicy_unfold:
  assumes run: "cancelPolicy i e (n, w) = (Inr (sm, refund), (n', w'))"
    and rely: "\<forall>k v. evolves v (e_rely e k v)"
  shows "\<exists>p t q. policy_findUnique i (e_rely e n w) = Some p
     \<and> refund = calculateProRatedRefund (p_premiumPaid p) (p_startTime p) (p_endTime p) t
     \<and> policy_findUnique i w' = Some q \<and> p_status q = P_CANCELLED \<and> sm_status sm = ''CANCELLED''"
proof -
  let ?P = "\<lambda>r. p_id r = i \<and> p_status r = P_ACTIVE"
  let ?audit = "\<lambda>refund. catch (db (auditLog_create ''Policy'' i ''ACTIVE'' ''CANCELLED''
       (Some (cancel_reason refund)))) (\<lambda>_. ret ())"
  from run obtain p t k c v evs m s3 q j decStr where
    p: "policy_findUnique i (e_rely e n w) = Some p"
      "refund = calculateProRatedRefund (p_premiumPaid p) (p_startTime p) (p_endTime p) t"
    and upd: "policy_updateMany ?P (\<lambda>r. r\<lparr>p_status := P_CANCELLED, p_version := p_version r + 1\<rparr>) c
        (e_rely e (Suc (Suc n)) (e_rely e n w)) = (Inr k, v)" "k \<noteq> 0"
    and aud: "?audit refund e (m, v\<lparr>outbox := outbox v @ evs\<rparr>) = (Inr (), s3)"
    and fin: "w' = e_rely e (fst s3) (snd s3)" "policy_findUnique i w' = Some q"
      "sm = policySummary decStr q j"
    unfolding cancelPolicy_def Let_def returns emit_def find_with_count_def
    by (auto simp: returns)
  obtain q0 where "policy_findUnique i v = Some (q0\<lparr>p_status := P_CANCELLED, p_version := p_version q0 + 1, p_updatedAt := now_ms c\<rparr>)"
    by (rule status_write_hit [OF upd, of i]) simp_all
  moreover have "evolves v w'"
  proof -
    have "guarantees evolves (?audit refund)" by (intro evolves_rules)
    from guaranteesD [OF this, of e m] aud rely have "evolves (v\<lparr>outbox := outbox v @ evs\<rparr>) (snd s3)"
      by (metis prod.collapse)
    then show ?thesis using rely fin(1) evolves_trans evolves_outbox by metis
  qed
  ultimately obtain q' where "policy_findUnique i w' = Some q'" "p_status q' = P_CANCELLED"
    by (auto elim!: evolves_terminal)
  with p fin show ?thesis by (auto simp: policySummary_def)
qed

text \<open>
  A successful cancellation is final: if every other actor keeps the contract of all writers, then
  after \<^verbatim>\<open>cancelPolicy\<close> returns the policy is CANCELLED and remains so in every world it evolves
  to, the summary it returns says so, and the refund it reports is the one for the policy as read.
\<close>

theorem cancelPolicy_final:
  assumes run: "cancelPolicy i e (n, w) = (Inr (sm, refund), (n', w'))"
    and rely: "\<forall>k v. evolves v (e_rely e k v)"
    and later: "evolves w' u"
  shows "sm_status sm = ''CANCELLED''
     \<and> (\<exists>q. policy_findUnique i u = Some q \<and> p_status q = P_CANCELLED)
     \<and> (\<exists>p t. policy_findUnique i (e_rely e n w) = Some p \<and>
           refund = calculateProRatedRefund (p_premiumPaid p) (p_startTime p) (p_endTime p) t)"
proof -
  from cancelPolicy_unfold [OF run rely] obtain p t q where
    "policy_findUnique i (e_rely e n w) = Some p"
    "refund = calculateProRatedRefund (p_premiumPaid p) (p_startTime p) (p_endTime p) t"
    "sm_status sm = ''CANCELLED''" and q: "policy_findUnique i w' = Some q" "p_status q = P_CANCELLED"
    by blast
  moreover from q obtain q' where "policy_findUnique i u = Some q'" "p_status q' = P_CANCELLED"
    by (auto elim!: evolves_terminal [OF later])
  ultimately show ?thesis by blast
qed


section \<open>Products\<close>

text \<open>
  A product keeps one version per rate: updating a product raises its premium-rate version by one
  when the rate really changes and keeps it otherwise; it clears the cached catalogue, leaves
  every policy (and with it every rate snapshot already sold) and every other product as it was.
\<close>

theorem updateProduct_version:
  assumes quiet: "quiet e" and pr: "product_findUnique i w = Some pr"
  shows "\<exists>w' q. updateProduct i dto e (n, w) = (Inr (mapProduct (e_decStr e) q), (n + 2, w'))
     \<and> product_findUnique i w' = Some q \<and> policies w' = policies w \<and> productCache w' = []
     \<and> (\<forall>j. j \<noteq> i \<longrightarrow> product_findUnique j w' = product_findUnique j w)
     \<and> pr_premiumRate q = or_old (u_premiumRate dto) (pr_premiumRate pr)
     \<and> pr_premiumRateVersion q = pr_premiumRateVersion pr
          + (if pr_premiumRate q = pr_premiumRate pr then 0 else 1)"
proof -
  let ?f = "update_product_row pr dto"
  let ?w = "w\<lparr>productCache := [], products := map (\<lambda>q. if pr_id q = i then ?f q else q) (products w),
    outbox := outbox w @ [ProductUpdate i]\<rparr>"
  have id: "pr_id pr = i" using pr by (auto simp: product_findUnique_def dest: find_SomeD)
  have keep: "pr_id (?f q) = pr_id q" for q by (simp add: update_product_row_def)
  have "updateProduct i dto e (n, w) = (Inr (mapProduct (e_decStr e) (?f pr)), (n + 2, ?w))"
    using quiet pr id
    by (simp add: updateProduct_def productCache_clear_def modify_def bind_def db_def quiet_def s_query_def
        asks_def product_update_def product_findUnique_def emit_def ret_def keep)
  moreover have "product_findUnique i ?w = Some (?f pr)"
    using pr id by (simp add: product_findUnique_def find_map_if keep)
  moreover have "\<forall>j. j \<noteq> i \<longrightarrow> product_findUnique j ?w = product_findUnique j w"
  proof (intro allI impI)
    fix j assume "j \<noteq> i"
    have "product_findUnique j ?w = map_option (\<lambda>q. if pr_id q = i then ?f q else q) (product_findUnique j w)"
      by (simp add: product_findUnique_def find_map_if keep)
    then show "product_findUnique j ?w = product_findUnique j w"
      using \<open>j \<noteq> i\<close> by (cases "product_findUnique j w") (auto simp: product_findUnique_def dest: find_SomeD)
  qed
  ultimately show ?thesis
    by (intro exI [of _ ?w] exI [of _ "?f pr"])
      (auto simp: update_product_row_def nextPremiumRateVersion_iff product_template_def or_old_def split: option.splits)
qed

text \<open>
  Two concurrent updates can give one version to two rates: the version is computed from a row
  read before the write, so when another update commits in between, both end with the same
  version number and different rates.
\<close>

theorem premium_version_race:
  "let w = sample_world 0;
       (r1, n1, w1) = updateProduct ''crop'' (rate_update 600) (sample_env 0) (0, w);
       (r2, n2, w2) = updateProduct ''crop'' (rate_update 700) rate_race_env (0, w)
   in map (\<lambda>p. (pr_premiumRate p, pr_premiumRateVersion p)) (products w1) = [(600, 2)]
      \<and> map (\<lambda>p. (pr_premiumRate p, pr_premiumRateVersion p)) (products w2) = [(700, 2)]"
  by code_simp

text \<open>
  A deactivated product can still be listed: the catalogue cache is cleared before the write, so a
  concurrent listing can refill it with the old row, which is then served for thirty seconds
  after the deactivation has returned.
\<close>

theorem deactivated_product_listed:
  "let (r, n, w) = deactivateProduct ''crop'' list_race_env (0, sample_world 0);
       (listed, n', w') = getActiveProducts 1 20 (sample_env 30999) (0, w)
   in map pr_status (products w) = [PR_INACTIVE]
      \<and> listed = Inr ([mapProduct formatStroops sample_row], 1)"
  by code_simp

text \<open>
  Coverage limits are compared without their fractions, and a fractional coverage is not refused
  but raises: a coverage of 10 passes a product minimum of 10.5, and a coverage of 10.5 makes the
  conversion throw a RangeError instead of returning a reason.
\<close>

theorem validateCoverage_fractions:
  "fst (validateCoverage (js_int 10) ((sample_product ''defi'')\<lparr>ps_coverageMin := ''10.5''\<rparr>) None (sample_env 0) (0, sample_world 0)) = Inr None
   \<and> fst (validateCoverage (Fin (21 / 2)) (sample_product ''defi'') None (sample_env 0) (0, sample_world 0)) = Inl (PlainError ''RangeError'')"
  by code_simp

section \<open>Witnesses\<close>

theorem createPolicy_sound_witness:
  "\<exists>p n' w'. createPolicy sample_dto ''h1'' (sample_env 1781000000500) (0, buy_world) = (Inr p, (n', w'))
     \<and> p_startTime p = 1781000000000 \<and> p_endTime p = p_startTime p + 10 * 86400000 \<and> policies_ok (policies w')"
proof -
  have "\<not> Option.is_none (case fst (createPolicy sample_dto ''h1'' (sample_env 1781000000500) (0, buy_world)) of Inl x \<Rightarrow> None | Inr p \<Rightarrow> Some p)"
    by code_simp
  then obtain p n' w' where run: "createPolicy sample_dto ''h1'' (sample_env 1781000000500) (0, buy_world) = (Inr p, (n', w'))"
    by (auto split: sum.splits simp: prod_eq_iff)
  from createPolicy_sound [OF run] run show ?thesis
    by (auto simp: sample_dto_def sample_env_def quiet_env_def)
qed

theorem cancelPolicy_final_witness:
  "\<exists>sm refund n' w' q. cancelPolicy ''p1'' (sample_env 500) (0, sample_world 0) = (Inr (sm, refund), (n', w'))
     \<and> policy_findUnique ''p1'' w' = Some q \<and> p_status q = P_CANCELLED"
proof -
  have "\<not> Option.is_none (case fst (cancelPolicy ''p1'' (sample_env 500) (0, sample_world 0)) of Inl x \<Rightarrow> None | Inr p \<Rightarrow> Some p)"
    by code_simp
  then obtain sm refund n' w' where run: "cancelPolicy ''p1'' (sample_env 500) (0, sample_world 0) = (Inr (sm, refund), (n', w'))"
    by (auto split: sum.splits simp: prod_eq_iff)
  have "\<forall>k v. evolves v (e_rely (sample_env 500) k v)" by (simp add: sample_env_def quiet_env_def)
  from cancelPolicy_final [OF run this evolves_refl] run show ?thesis by blast
qed

theorem updateProduct_version_witness:
  "\<exists>w' q. updateProduct ''crop'' (rate_update 700) (sample_env 0) (0, sample_world 0) = (Inr (mapProduct formatStroops q), (0 + 2, w'))
     \<and> pr_premiumRate q = 700 \<and> pr_premiumRateVersion q = 2"
proof -
  have pr: "product_findUnique ''crop'' (sample_world 0) = Some sample_row"
    by (simp add: product_findUnique_def sample_world_def sample_row_def)
  have "e_decStr (sample_env 0) = formatStroops" by (simp add: sample_env_def)
  with updateProduct_version [OF sample_env_facts(1) pr, of "rate_update 700" 0 0] show ?thesis
    by (auto simp: rate_update_def sample_row_def or_old_def)
qed

end
