(* ===== verification/Claims_Worker.thy ===== *)
theory Claims_Worker
  imports Claim_Recovery Policy_Lifecycle
begin

text \<open>
  The hourly job of \<^verbatim>\<open>src/claims/claims.worker.ts\<close>: recovery of stuck policies, the scan for
  expiring policies, the product map, and the processing of each policy. The jobs of a batch, which
  the code starts together, run one after the other here; what the other jobs do to a job is
  part of its interference. Heartbeats, logging and the distributed lock around a tick are not part
  of this theory.
\<close>

section \<open>The product map\<close>

definition PRODUCTS_PAGE_SIZE :: int where
  "PRODUCTS_PAGE_SIZE = 100"

definition BATCH_SIZE :: nat where
  "BATCH_SIZE = 10"

definition map_set :: "ProductSummary \<Rightarrow> (string \<times> ProductSummary) list \<Rightarrow> (string \<times> ProductSummary) list" where
  "map_set product m = AList.update (ps_id product) product m"

text \<open>The loop over the pages; \<open>None\<close> is a loop that is still running when the fuel is used up.\<close>

fun load_pages :: "nat \<Rightarrow> int \<Rightarrow> (string \<times> ProductSummary) list \<Rightarrow> (string \<times> ProductSummary) list option act" where
  "load_pages 0 page m = ret None"
| "load_pages (Suc fuel) page m =
     bind (getActiveProducts page PRODUCTS_PAGE_SIZE) (\<lambda>(data, total).
     let m' = fold map_set data m in
     if int (length data) < PRODUCTS_PAGE_SIZE \<or> int (length m') \<ge> total then ret (Some m')
     else load_pages fuel (page + 1) m')"

definition loadActiveProductsMap :: "nat \<Rightarrow> (string \<times> ProductSummary) list option act" where
  "loadActiveProductsMap fuel = load_pages fuel 1 []"

section \<open>One policy\<close>

record Expiring =
  x_id :: string
  x_status :: PolicyStatus

definition process_policy ::
    "(string \<times> ProductSummary) list \<Rightarrow> Expiring \<Rightarrow> ClaimResult act" where
  "process_policy productsMap policy =
     bind (autoProcess (x_id policy) (Some (map_of productsMap))) (\<lambda>result.
     if result \<noteq> Paid \<and> result \<noteq> PendingFinalPeriod then
       seq (lift (transition (status_str (x_status policy)) ''EXPIRED''))
       (bind (db (gate_policy (\<lambda>r. p_id r = x_id policy \<and> p_status r = x_status policy) P_EXPIRED)) (\<lambda>count.
        seq (if count = 0 then ret () else cache_invalidate (x_id policy)) (ret result)))
     else ret result)"

text \<open>\<^verbatim>\<open>Promise.allSettled\<close>: every job runs, whatever became of the others.\<close>

definition settle :: "'a act \<Rightarrow> 'a outcome act" where
  "settle m e s = (case m e s of (r, s') \<Rightarrow> (Inr r, s'))"

fun process_batch :: "(string \<times> ProductSummary) list \<Rightarrow> Expiring list \<Rightarrow> ClaimResult outcome list act" where
  "process_batch m [] = ret []"
| "process_batch m (p # ps) =
     bind (settle (process_policy m p)) (\<lambda>r. bind (process_batch m ps) (\<lambda>rs. ret (r # rs)))"

function process_batches :: "(string \<times> ProductSummary) list \<Rightarrow> Expiring list \<Rightarrow> ClaimResult outcome list act" where
  "process_batches m ps =
     (if ps = [] then ret []
      else bind (process_batch m (take BATCH_SIZE ps)) (\<lambda>rs.
           if BATCH_SIZE < length ps
           then seq await (bind (process_batches m (drop BATCH_SIZE ps)) (\<lambda>rs'. ret (rs @ rs')))
           else ret rs))"
  by pat_completeness auto
termination
  by (relation "measure (\<lambda>(m, ps). length ps)") (auto simp: BATCH_SIZE_def)

declare process_batches.simps [simp del]

section \<open>A tick\<close>

definition find_expiring :: "int \<Rightarrow> world \<Rightarrow> Expiring list" where
  "find_expiring oneHourOut w =
     map (\<lambda>p. \<lparr>x_id = p_id p, x_status = p_status p\<rparr>)
       (filter (\<lambda>p. p_status p = P_ACTIVE \<and> p_endTime p \<le> oneHourOut) (policies w))"

definition executeProcessActivePolicies :: "nat \<Rightarrow> ClaimResult outcome list option act" where
  "executeProcessActivePolicies fuel =
     seq (catch (bind clock (\<lambda>t. bind (recoverStuckProcessingPolicies t) (\<lambda>_. ret ()))) (\<lambda>_. ret ()))
     (bind clock (\<lambda>now.
      bind (db (s_query (find_expiring (now + 60 * 60 * 1000)))) (\<lambda>expiring.
      if expiring = [] then ret (Some [])
      else bind (loadActiveProductsMap fuel) (\<lambda>loaded.
        case loaded of
          None \<Rightarrow> ret None
        | Some m \<Rightarrow> bind (process_batches m expiring) (\<lambda>rs. ret (Some rs))))))"

section \<open>The job keeps the contract\<close>

lemma guar_settle: "guarantees evolves m \<Longrightarrow> guarantees evolves (settle m)"
  by (simp add: guarantees_def settle_def split_def)

lemma transition_Inr: "transition a b = Inr c \<Longrightarrow> canTransition a b"
  by (simp add: transition_def split: if_splits)

lemma guar_process_policy: "guarantees evolves (process_policy m p)"
proof -
  have gate: "stmt_within evolves (gate_policy (\<lambda>r. p_id r = x_id p \<and> p_status r = x_status p) P_EXPIRED)"
    if "canTransition (status_str (x_status p)) ''EXPIRED''"
    using that by (intro within_gate) auto
  have lifted: "guarantees evolves (seq (lift (transition (status_str (x_status p)) ''EXPIRED'')) k)"
    if "canTransition (status_str (x_status p)) ''EXPIRED'' \<Longrightarrow> guarantees evolves k" for k :: "ClaimResult act"
    using that by (cases "transition (status_str (x_status p)) ''EXPIRED''")
      (auto simp: guarantees_def bind_def lift_def dest: transition_Inr)
  have "guarantees evolves (bind (db (gate_policy (\<lambda>r. p_id r = x_id p \<and> p_status r = x_status p) P_EXPIRED)) (\<lambda>count.
        seq (if count = 0 then ret () else cache_invalidate (x_id p)) (ret result)))"
    if "canTransition (status_str (x_status p)) ''EXPIRED''" for result :: ClaimResult
    using that by (auto intro!: claim_rules gate)
  from lifted [OF this] show ?thesis
    unfolding process_policy_def by (auto intro!: ev.guar_bind [OF guar_autoProcess] ev.guar_ret)
qed

lemma guar_process_batches: "guarantees evolves (process_batches m ps)"
proof (induction m ps rule: process_batches.induct)
  case (1 m ps)
  have batch: "guarantees evolves (process_batch m qs)" for qs
    by (induction qs) (auto intro!: claim_rules guar_settle guar_process_policy)
  show ?case
    unfolding process_batches.simps [of m ps] using 1 by (auto intro!: claim_rules batch)
qed

lemma guar_tick: "guarantees evolves (executeProcessActivePolicies fuel)"
proof -
  have "guarantees evolves (load_pages fuel page m)" for page m
    by (induction fuel arbitrary: page m) (auto intro!: claim_rules guar_getActiveProducts simp: Let_def)
  then show ?thesis
    unfolding executeProcessActivePolicies_def loadActiveProductsMap_def
    by (auto intro!: claim_rules guar_recover guar_process_batches split: option.splits)
qed

section \<open>The product map is complete\<close>

lemma update_fresh: "k \<notin> fst ` set m \<Longrightarrow> AList.update k v m = m @ [(k, v)]"
  by (induction m) auto

lemma fold_map_set:
  "distinct (map fst m @ map ps_id data) \<Longrightarrow> fold map_set data m = m @ map (\<lambda>p. (ps_id p, p)) data"
  by (induction data arbitrary: m) (auto simp: map_set_def update_fresh)

lemma int_str_inject: "0 \<le> a \<Longrightarrow> 0 \<le> b \<Longrightarrow> int_str a = int_str b \<Longrightarrow> a = b"
  by (metis digits_val_nat_str int_str_def not_less)

definition page_key :: "int \<Rightarrow> string" where
  "page_key page = int_str page @ '':'' @ int_str 100"

lemma page_key_inject: "0 \<le> a \<Longrightarrow> 0 \<le> b \<Longrightarrow> page_key a = page_key b \<Longrightarrow> a = b"
  by (auto simp: page_key_def intro: int_str_inject)

text \<open>The catalogue in page order.\<close>

definition catalogue :: "env \<Rightarrow> world \<Rightarrow> ProductSummary list" where
  "catalogue e w = map (mapProduct (e_decStr e)) (sort_key (\<lambda>p. e_collation e (pr_name p)) (active_products w))"

lemma get_page:
  assumes "quiet e" and "map_of (productCache w) (page_key (int (Suc k))) = None"
  shows "\<exists>x. getActiveProducts (int (Suc k)) PRODUCTS_PAGE_SIZE e (n, w) =
    (Inr (take 100 (drop (100 * k) (catalogue e w)), int (length (catalogue e w))),
     (Suc (Suc n), w\<lparr>productCache := AList.update (page_key (int (Suc k))) x (productCache w)\<rparr>))"
proof -
  have "(int (Suc k) - 1) * 100 = int (100 * k)" "int (100 * k) \<ge> 0" "nat (int (100 * k)) = 100 * k"
    by (simp_all only: of_nat_Suc of_nat_mult of_nat_numeral add_diff_cancel_left' mult.commute [of _ 100] nat_int)
  then show ?thesis
    using assms
    by (intro exI [of _ "((take 100 (drop (100 * k) (catalogue e w)), int (length (catalogue e w))), e_clock e n + PRODUCT_CACHE_TTL_MS)"])
      (simp add: getActiveProducts_def PRODUCTS_PAGE_SIZE_def Let_def bind_def clock_def gets_def asks_def
        query_products_def quiet_def db_def s_bind_def s_query_def s_ret_def paginate_def modify_def ret_def
        page_key_def catalogue_def take_map drop_map del: of_nat_Suc of_nat_mult)
qed

lemma load_pages_all:
  assumes "quiet e" and ids: "distinct (map ps_id (catalogue e w0))"
  shows "length (catalogue e w0) < 100 * (k + fuel) \<Longrightarrow> 100 * k \<le> length (catalogue e w0) \<Longrightarrow>
    catalogue e w = catalogue e w0 \<Longrightarrow> (\<forall>j > k. map_of (productCache w) (page_key (int j)) = None) \<Longrightarrow>
    \<exists>s'. load_pages fuel (int (Suc k)) (map (\<lambda>p. (ps_id p, p)) (take (100 * k) (catalogue e w0))) e (n, w)
      = (Inr (Some (map (\<lambda>p. (ps_id p, p)) (catalogue e w0))), s')"
proof (induction fuel arbitrary: k n w)
  case 0
  then show ?case by simp
next
  case (Suc fuel)
  let ?L = "catalogue e w0" and ?f = "\<lambda>p. (ps_id p, p)"
  have "map_of (productCache w) (page_key (int (Suc k))) = None" using Suc.prems(4) by blast
  from get_page [OF assms(1) this, of n] obtain x where page:
    "getActiveProducts (int (Suc k)) PRODUCTS_PAGE_SIZE e (n, w) = (Inr (take 100 (drop (100 * k) ?L), int (length ?L)),
       (Suc (Suc n), w\<lparr>productCache := AList.update (page_key (int (Suc k))) x (productCache w)\<rparr>))"
    unfolding Suc.prems(3) by blast
  let ?w = "w\<lparr>productCache := AList.update (page_key (int (Suc k))) x (productCache w)\<rparr>"
  have split: "take (100 * Suc k) ?L = take (100 * k) ?L @ take 100 (drop (100 * k) ?L)"
    by (metis add.commute mult_Suc_right take_add)
  have "distinct (map ps_id (take (100 * Suc k) ?L))" using ids by (metis distinct_take take_map)
  then have next_map: "fold map_set (take 100 (drop (100 * k) ?L)) (map ?f (take (100 * k) ?L)) = map ?f (take (100 * Suc k) ?L)"
    unfolding split by (subst fold_map_set) (simp_all add: comp_def)
  have stop: "int (length (take 100 (drop (100 * k) ?L))) < PRODUCTS_PAGE_SIZE
      \<or> int (length (map ?f (take (100 * Suc k) ?L))) \<ge> int (length ?L) \<longleftrightarrow> length ?L \<le> 100 * Suc k"
    using Suc.prems(2) by (auto simp: PRODUCTS_PAGE_SIZE_def)
  have step: "load_pages (Suc fuel) (int (Suc k)) (map ?f (take (100 * k) ?L)) e (n, w) =
     (if length ?L \<le> 100 * Suc k then ret (Some (map ?f (take (100 * Suc k) ?L)))
      else load_pages fuel (int (Suc k) + 1) (map ?f (take (100 * Suc k) ?L))) e (Suc (Suc n), ?w)"
    by (simp only: load_pages.simps bind_def page prod.case sum.case Let_def next_map stop)
  show ?case
  proof (cases "length ?L \<le> 100 * Suc k")
    case True
    then show ?thesis unfolding step by (simp add: ret_def)
  next
    case False
    have "catalogue e ?w = ?L" using Suc.prems(3) by (simp add: catalogue_def active_products_def)
    moreover have "\<forall>j > Suc k. map_of (productCache ?w) (page_key (int j)) = None"
    proof (intro allI impI)
      fix j assume "j > Suc k"
      then have "page_key (int j) \<noteq> page_key (int (Suc k))" using page_key_inject [of "int j" "int (Suc k)"] by auto
      with Suc.prems(4) \<open>j > Suc k\<close> show "map_of (productCache ?w) (page_key (int j)) = None"
        by (simp add: update_conv' del: of_nat_Suc)
    qed
    moreover have "length ?L < 100 * (Suc k + fuel)" using Suc.prems(1) by simp
    ultimately have "\<exists>s'. load_pages fuel (int (Suc (Suc k))) (map ?f (take (100 * Suc k) ?L)) e (Suc (Suc n), ?w)
        = (Inr (Some (map ?f ?L)), s')"
      using Suc.IH [of "Suc k" ?w "Suc (Suc n)"] False by simp
    moreover have "int (Suc k) + 1 = int (Suc (Suc k))" by simp
    ultimately show ?thesis using False unfolding step by (simp only: if_False)
  qed
qed

lemma option_eqI: "(\<And>x. a = Some x \<longleftrightarrow> b = Some x) \<Longrightarrow> a = b"
  by (cases a; cases b) auto

lemma find_distinct_iff:
  "distinct (map f xs) \<Longrightarrow> List.find (\<lambda>x. f x = i \<and> Q x) xs = Some p \<longleftrightarrow> p \<in> set xs \<and> f p = i \<and> Q p"
  by (induction xs) auto

lemma find_sorted:
  assumes ids: "distinct (map pr_id ps)"
  shows "map_of (map (\<lambda>p. (ps_id p, p)) (map (mapProduct d) (sort_key g (filter Q ps)))) i
    = map_option (mapProduct d) (List.find (\<lambda>p. pr_id p = i \<and> Q p) ps)"
proof -
  let ?xs = "sort_key g (filter Q ps)"
  have via_rows: "map_of (map (\<lambda>p. (ps_id p, p)) (map (mapProduct d) xs)) i
      = map_option (mapProduct d) (map_of (map (\<lambda>p. (pr_id p, p)) xs) i)" for xs
    by (induction xs) (simp_all add: mapProduct_def)
  have "inj_on pr_id (set ps)" using ids by (simp add: distinct_map)
  then have "inj_on pr_id (set ?xs)" by (auto intro: inj_on_subset)
  then have "distinct (map pr_id ?xs)" using ids by (simp add: distinct_map)
  then have "distinct (map fst (map (\<lambda>p. (pr_id p, p)) ?xs))" by (simp add: comp_def)
  then have "map_of (map (\<lambda>p. (pr_id p, p)) ?xs) i = Some p \<longleftrightarrow> p \<in> set ps \<and> pr_id p = i \<and> Q p" for p
    by (subst map_of_eq_Some_iff) auto
  then have "map_of (map (\<lambda>p. (pr_id p, p)) ?xs) i = List.find (\<lambda>p. pr_id p = i \<and> Q p) ps"
    by (intro option_eqI) (simp add: find_distinct_iff [OF ids])
  then show ?thesis unfolding via_rows by simp
qed

text \<open>
  The catalogue is loaded completely and the loop over its pages ends: without interference and with no
  page cached, some number of pages is enough (one more than the active products fill), and the map
  that results answers every product id exactly as the database does, active products of every
  page included.
\<close>

theorem loadActiveProductsMap_complete:
  assumes "quiet e" and "productCache w = []" and "distinct (map pr_id (products w))"
    and "length (active_products w) < 100 * fuel"
  shows "\<exists>m s'. loadActiveProductsMap fuel e (n, w) = (Inr (Some m), s')
     \<and> (\<forall>i. map_of m i = map_option (mapProduct (e_decStr e))
          (List.find (\<lambda>p. pr_id p = i \<and> pr_status p = PR_ACTIVE) (products w)))"
proof -
  let ?m = "map (\<lambda>p. (ps_id p, p)) (catalogue e w)"
  have "map ps_id (catalogue e w) = map pr_id (sort_key (\<lambda>p. e_collation e (pr_name p)) (active_products w))"
    by (simp add: catalogue_def mapProduct_def comp_def)
  moreover have "inj_on pr_id (set (active_products w))"
    using assms(3) by (auto simp: distinct_map active_products_def intro: inj_on_subset)
  moreover have "distinct (active_products w)" using assms(3) by (simp add: distinct_map active_products_def)
  ultimately have ids: "distinct (map ps_id (catalogue e w))" by (simp add: distinct_map)
  have "\<exists>s'. load_pages fuel (int (Suc 0)) (map (\<lambda>p. (ps_id p, p)) (take (100 * 0) (catalogue e w))) e (n, w) = (Inr (Some ?m), s')"
    by (rule load_pages_all [OF assms(1) ids]) (use assms in \<open>simp_all add: catalogue_def\<close>)
  then obtain s' where "loadActiveProductsMap fuel e (n, w) = (Inr (Some ?m), s')"
    by (auto simp: loadActiveProductsMap_def)
  moreover have "map_of ?m i = map_option (mapProduct (e_decStr e))
      (List.find (\<lambda>p. pr_id p = i \<and> pr_status p = PR_ACTIVE) (products w))" for i
    unfolding catalogue_def active_products_def by (rule find_sorted [OF assms(3)])
  ultimately show ?thesis by blast
qed

theorem loadActiveProductsMap_complete_witness:
  "\<exists>m s'. loadActiveProductsMap 1 (sample_env 1000) (0, sample_world 400000000) = (Inr (Some m), s')
     \<and> map_of m ''crop'' = Some (mapProduct (e_decStr (sample_env 1000)) sample_row)"
proof -
  have facts: "productCache (sample_world 400000000) = []" "distinct (map pr_id (products (sample_world 400000000)))"
    "length (active_products (sample_world 400000000)) < 100 * 1"
    "List.find (\<lambda>p. pr_id p = ''crop'' \<and> pr_status p = PR_ACTIVE) (products (sample_world 400000000)) = Some sample_row"
    by (simp_all add: sample_world_def empty_world_def sample_row_def active_products_def)
  from loadActiveProductsMap_complete [OF sample_env_facts(1) facts(1-3), of 1000 0] facts(4) show ?thesis by force
qed

section \<open>Policies past their end\<close>

text \<open>
  C40. A policy whose end has passed is expired without its trigger ever being looked at: the job for
  an ACTIVE policy at any time after its end returns Expired, makes it EXPIRED, creates no claim
  and calls no contract, whatever the readings say. (Before the end the job does nothing, so only a
  run within the last millisecond evaluates the trigger.)
\<close>

theorem late_policy_expires_unevaluated:
  assumes quiet: "quiet e" and p: "policy_findUnique i w = Some p" "p_status p = P_ACTIVE"
    and ok: "policies_ok (policies w)" and late: "\<forall>j. p_endTime p < e_clock e j"
  shows "\<exists>n' w' q. process_policy m \<lparr>x_id = i, x_status = P_ACTIVE\<rparr> e (n, w) = (Inr Expired, (n', w'))
     \<and> policy_findUnique i w' = Some q \<and> p_status q = P_EXPIRED \<and> p_version q = p_version p + 1
     \<and> claims w' = claims w \<and> chainCalls w' = chainCalls w \<and> auditLogs w' = auditLogs w"
proof -
  have f: "e_dbfail e n = None" "policy_findUnique i (e_rely e n w) = Some p" "e_clock e (Suc n) > p_endTime p"
    using quiet p late by (simp_all add: quiet_def)
  have id: "p_id p = i" using p(1) by (auto simp: policy_findUnique_def dest: find_SomeD)
  have auto: "autoProcess i (Some (map_of m)) e (n, w) = (Inr Expired, (Suc (Suc n), w))"
    using autoProcess_early_exit(2) [OF f(1,2) p(2) f(3)] quiet by (simp add: quiet_def)
  have t: "transition ''ACTIVE'' ''EXPIRED'' = Inr ''EXPIRED''"
    by (simp add: transition_def canTransition_def VALID_TRANSITIONS_def)
  let ?P = "\<lambda>r. p_id r = i \<and> p_status r = P_ACTIVE"
  obtain ps where ps: "gate_policy ?P P_EXPIRED (tx_ctx e (Suc (Suc n))) w = (Inr 1, w\<lparr>policies := ps\<rparr>)"
    "List.find (\<lambda>r. p_id r = i) ps =
       Some (p\<lparr>p_status := P_EXPIRED, p_version := p_version p + 1, p_updatedAt := e_clock e (Suc (Suc n))\<rparr>)"
    using gate_hits [where P = ?P, OF ok p(1), of P_EXPIRED "tx_ctx e (Suc (Suc n))"] p id by auto
  show ?thesis
    using quiet_db [where st = "gate_policy ?P P_EXPIRED", OF quiet ps(1)] ps(2)
    by (simp add: process_policy_def bind_def auto lift_def t quiet_runs [OF quiet] ret_def policy_findUnique_def)
qed

theorem late_policy_expires_unevaluated_witness:
  "\<exists>n' w' q. process_policy [] \<lparr>x_id = ''p1'', x_status = P_ACTIVE\<rparr> (sample_env 1001) (0, sample_world 400000000) = (Inr Expired, (n', w'))
     \<and> policy_findUnique ''p1'' w' = Some q \<and> p_status q = P_EXPIRED \<and> claims w' = []"
proof -
  have "policy_findUnique ''p1'' (sample_world 400000000) = Some sample_policy"
    "p_status sample_policy = P_ACTIVE" "policies_ok (policies (sample_world 400000000))"
    "\<forall>j. p_endTime sample_policy < e_clock (sample_env 1001) j"
    by (simp_all add: policy_findUnique_def sample_world_def sample_policy_def policies_ok_def sample_env_def quiet_env_def)
  from late_policy_expires_unevaluated [OF sample_env_facts(1) this, of "[]" 0] show ?thesis
    by (auto simp: sample_world_def empty_world_def)
qed

section \<open>Failed payouts\<close>

text \<open>The contract refuses every call.\<close>

definition refusing_env :: env where
  "refusing_env = (sample_env 1000)\<lparr>e_invoke := (\<lambda>n. Inl (PlainError ''RPC''))\<rparr>"

text \<open>
  A failed payout is not retried: the flow reverts the policy to ACTIVE so that a later tick can
  retry, but the same tick then expires it, because its guarded update only checks that the policy
  is ACTIVE again; the trigger was met, one call was made, the claim is FAILED and the policy
  EXPIRED.
\<close>

theorem failed_payout_expires:
  "let m = [(''crop'', mapProduct formatStroops sample_row)];
       (r, n, w) = process_policy m \<lparr>x_id = ''p1'', x_status = P_ACTIVE\<rparr> refusing_env (0, sample_world 400000000)
   in trigger_met sample_row (sample_reading 400000000) \<and> r = Inr Rejected
      \<and> map c_status (claims w) = [C_FAILED] \<and> map p_status (policies w) = [P_EXPIRED]
      \<and> length (chainCalls w) = 1"
  by code_simp

end
