(* ===== verification/Oracle_Readings.thy ===== *)
theory Oracle_Readings
  imports Claims_Service
begin

text \<open>
  \<^verbatim>\<open>src/oracle/oracle.service.ts\<close>: the idempotency buckets, the plausibility checks, the
  persistence of readings (single, batched and with the fall-back to single rows), the claim that
  a replica takes before it submits a reading on chain, and the read paths with their cache. The
  buffer in front of the batches is in \<open>Oracle_Buffer\<close>, the circuit breakers in
  \<open>Circuit_Breaker\<close>; the fetches from the weather and flight services in \<open>Oracle_Fetch\<close>.
\<close>

section \<open>Buckets and bounds\<close>

definition ORACLE_BUCKET_MS :: int where
  "ORACLE_BUCKET_MS = 3600000"

fun js_trunc :: "jsnum \<Rightarrow> int option" where
  "js_trunc (Fin r) = Some (if r < 0 then ceiling r else floor r)"
| "js_trunc _ = None"

text \<open>\<open>None\<close> is an invalid date; a date holds at most \<^verbatim>\<open>8.64e15\<close> ms either way, where
  the divisions of whole seconds by the bucket length are still exact in double precision.\<close>

definition bucketStartFor :: "jsnum \<Rightarrow> int \<Rightarrow> int option" where
  "bucketStartFor timestampSeconds bucketMs =
     (case js_trunc timestampSeconds of
        None \<Rightarrow> None
      | Some s \<Rightarrow> let t = s * 1000 div bucketMs * bucketMs in
          if \<bar>t\<bar> \<le> 8640000000000000 then Some t else None)"

datatype bound_label = B_rainfall | B_temperature | B_delay

fun SANITY_BOUNDS :: "bound_label \<Rightarrow> int \<times> int" where
  "SANITY_BOUNDS B_rainfall = (0, 20000)"
| "SANITY_BOUNDS B_temperature = (-100, 100)"
| "SANITY_BOUNDS B_delay = (0, 20160)"

definition assertWithinBounds :: "bound_label \<Rightarrow> jsnum \<Rightarrow> unit outcome" where
  "assertWithinBounds label value =
     (case SANITY_BOUNDS label of (mn, mx) \<Rightarrow>
        if \<not> is_finite value \<or> js_less value (js_int mn) \<or> js_less (js_int mx) value
        then Inl (ServiceUnavailableException ''Upstream value is outside the plausible range'')
        else Inr ())"

section \<open>Rows\<close>

text \<open>\<^verbatim>\<open>BigInt\<close> of a string: an optional sign and digits, or digits of another radix after a
  prefix; white space around is ignored and the empty string is zero.\<close>

definition hex_val :: "char \<Rightarrow> int" where
  "hex_val c = (if is_digit c then digit_val c
     else if 97 \<le> (of_char c :: int) then of_char c - 87 else of_char c - 55)"

definition radix_digits :: "int \<Rightarrow> string \<Rightarrow> bool" where
  "radix_digits b ds \<longleftrightarrow> ds \<noteq> [] \<and> list_all (\<lambda>c. is_hex c \<and> hex_val c < b) ds"

definition BigInt_str :: "string \<Rightarrow> int outcome" where
  "BigInt_str s =
     (let t = trim s;
          sgn = t \<noteq> [] \<and> (hd t = CHR ''-'' \<or> hd t = CHR ''+'');
          ds = (if sgn then tl t else t);
          b = (case to_lower (take 2 t) of ''0x'' \<Rightarrow> 16 | ''0o'' \<Rightarrow> 8 | ''0b'' \<Rightarrow> 2 | _ \<Rightarrow> 0)
      in if t = [] then Inr 0
         else if ds \<noteq> [] \<and> list_all is_digit ds
         then Inr (if sgn \<and> hd t = CHR ''-'' then - digits_val ds else digits_val ds)
         else if b \<noteq> 0 \<and> radix_digits b (drop 2 t)
         then Inr (foldl (\<lambda>a c. b * a + hex_val c) 0 (drop 2 t))
         else Inl (PlainError ''SyntaxError''))"

definition in_bucket :: "Reading \<Rightarrow> int \<Rightarrow> OracleReading \<Rightarrow> bool" where
  "in_bucket r b row \<longleftrightarrow> or_key row = rd_key r \<and> or_source row = rd_source r \<and> or_bucketStart row = b"

text \<open>The unique index \<^verbatim>\<open>key_source_bucket\<close>.\<close>

definition bucket_id :: "OracleReading \<Rightarrow> string \<times> string \<times> int" where
  "bucket_id row = (or_key row, or_source row, or_bucketStart row)"

definition readings_ok :: "OracleReading list \<Rightarrow> bool" where
  "readings_ok rs \<longleftrightarrow> distinct (map bucket_id rs)"

text \<open>The query engine refuses a row whose date is invalid, whose confidence is not an integer or
  whose value does not fit the column of type \<^verbatim>\<open>BigInt\<close>.\<close>

definition row_typed :: "Reading \<Rightarrow> int \<Rightarrow> bool" where
  "row_typed r v \<longleftrightarrow> is_integer (rd_confidence r) \<and> - (2 ^ 63) \<le> v \<and> v < 2 ^ 63"

text \<open>One upsert: \<open>v\<close> is the value, \<open>t\<close> the client's clock when the statement was built, and \<open>k\<close>
  the position of the statement in its transaction, which tells the fresh ids of one transaction
  apart.\<close>

definition upsert_row :: "nat \<Rightarrow> Reading \<Rightarrow> int \<Rightarrow> int \<Rightarrow> unit stmt" where
  "upsert_row k r v t c w =
     (case bucketStartFor (rd_timestamp r) ORACLE_BUCKET_MS of
        None \<Rightarrow> (Inl (PlainError ''PrismaClientValidationError''), w)
      | Some b \<Rightarrow>
          if \<not> row_typed r v then (Inl (PlainError ''PrismaClientValidationError''), w)
          else if list_ex (in_bucket r b) (oracleReadings w) then
            (Inr (), w\<lparr>oracleReadings := map (\<lambda>row. if in_bucket r b row
               then row\<lparr>or_dataType := rd_dataType r, or_value := v,
                        or_confidence := num_int (rd_confidence r), or_submittedAt := t\<rparr> else row)
               (oracleReadings w)\<rparr>)
          else
            (Inr (), w\<lparr>oracleReadings := oracleReadings w @
               [\<lparr>or_id = fresh_id c @ replicate k (CHR ''+''), or_dataType = rd_dataType r, or_key = rd_key r,
                 or_value = v, or_confidence = num_int (rd_confidence r), or_source = rd_source r,
                 or_bucketStart = b, or_onChainSubmitted = False, or_onChainTxHash = None,
                 or_submittedAt = now_ms c\<rparr>]\<rparr>))"

definition reading_updateMany :: "(OracleReading \<Rightarrow> bool) \<Rightarrow> (OracleReading \<Rightarrow> OracleReading) \<Rightarrow> nat stmt" where
  "reading_updateMany P f c w =
     (Inr (length (filter P (oracleReadings w))),
      w\<lparr>oracleReadings := map (\<lambda>r. if P r then f r else r) (oracleReadings w)\<rparr>)"

definition readingCache_delete :: "string \<Rightarrow> unit act" where
  "readingCache_delete key = modify (\<lambda>w. w\<lparr>readingCache := AList.delete key (readingCache w)\<rparr>)"

section \<open>Persistence\<close>

definition executeSingleUpsert :: "Reading \<Rightarrow> unit act" where
  "executeSingleUpsert reading =
     bind (lift (BigInt_str (rd_value reading))) (\<lambda>v.
     bind clock (\<lambda>t.
     seq (db (upsert_row 0 reading v t))
     (readingCache_delete (rd_key reading))))"

text \<open>The statements of a batch, with the values and clock reads they were built with.\<close>

fun batch_ops :: "Reading list \<Rightarrow> (Reading \<times> int \<times> int) list act" where
  "batch_ops [] = ret []"
| "batch_ops (reading # rs) =
     bind (lift (BigInt_str (rd_value reading))) (\<lambda>v.
     bind clock (\<lambda>t.
     bind (batch_ops rs) (\<lambda>ops. ret ((reading, v, t) # ops))))"

fun upsert_rows :: "nat \<Rightarrow> (Reading \<times> int \<times> int) list \<Rightarrow> unit stmt" where
  "upsert_rows k [] = s_ret ()"
| "upsert_rows k ((r, v, t) # ops) = s_seq (upsert_row k r v t) (upsert_rows (Suc k) ops)"

definition executeUpsertBatch :: "Reading list \<Rightarrow> unit act" where
  "executeUpsertBatch readings =
     (if readings = [] then ret () else bind (batch_ops readings) (\<lambda>ops. db (upsert_rows 0 ops)))"

fun cache_delete_all :: "Reading list \<Rightarrow> unit act" where
  "cache_delete_all [] = ret ()"
| "cache_delete_all (r # rs) = seq (readingCache_delete (rd_key r)) (cache_delete_all rs)"

text \<open>The fall-back: one row at a time, each with its own outcome.\<close>

fun upsert_each :: "Reading list \<Rightarrow> unit outcome list act" where
  "upsert_each [] = ret []"
| "upsert_each (r # rs) =
     bind (catch (bind (executeSingleUpsert r) (\<lambda>_. ret (Inr ()))) (\<lambda>err. ret (Inl err))) (\<lambda>res.
     bind (upsert_each rs) (\<lambda>ress. ret (res # ress)))"

text \<open>A batch of the flush: the outcome that each waiting caller is given.\<close>

definition flush_batch :: "Reading list \<Rightarrow> unit outcome list act" where
  "flush_batch readings =
     catch (seq (executeUpsertBatch readings)
           (seq (cache_delete_all readings) (ret (map (\<lambda>_. Inr ()) readings))))
       (\<lambda>batchErr. upsert_each readings)"

definition persist_chunk :: "Reading list \<Rightarrow> unit act" where
  "persist_chunk chunk =
     catch (seq (executeUpsertBatch chunk) (cache_delete_all chunk))
       (\<lambda>batchErr. seq (upsert_each chunk) (ret ()))"

definition FUTURE_SKEW_TOLERANCE_SECONDS :: int where
  "FUTURE_SKEW_TOLERANCE_SECONDS = 60"

definition unreliable :: "Reading \<Rightarrow> bool" where
  "unreliable r \<longleftrightarrow> rd_confidence r = js_int 0 \<or> rd_status r = Some ''NO_DATA'' \<or> rd_source r = ''mock''"

definition bad_confidence :: "Reading \<Rightarrow> bool" where
  "bad_confidence r \<longleftrightarrow> \<not> is_finite (rd_confidence r) \<or> js_less (rd_confidence r) (js_int 0)
     \<or> js_less (js_int 100) (rd_confidence r)"

definition future_dated :: "int \<Rightarrow> Reading \<Rightarrow> bool" where
  "future_dated now_s r \<longleftrightarrow> js_less (js_int (now_s + FUTURE_SKEW_TOLERANCE_SECONDS)) (rd_timestamp r)"

fun validReadings :: "int \<Rightarrow> Reading list \<Rightarrow> Reading list outcome" where
  "validReadings now_s [] = Inr []"
| "validReadings now_s (r # rs) =
     (if unreliable r \<or> bad_confidence r then validReadings now_s rs
      else if future_dated now_s r then Inl (BadRequestException ''Reading timestamp is in the future'')
      else case validReadings now_s rs of Inl x \<Rightarrow> Inl x | Inr vs \<Rightarrow> Inr (r # vs))"

fun single_upserts :: "Reading list \<Rightarrow> unit act" where
  "single_upserts [] = ret ()"
| "single_upserts (r # rs) = seq (executeSingleUpsert r) (single_upserts rs)"

function persist_chunks :: "nat \<Rightarrow> Reading list \<Rightarrow> unit act" where
  "persist_chunks batchSize rs =
     (if rs = [] \<or> batchSize = 0 then ret ()
      else seq (persist_chunk (take batchSize rs)) (persist_chunks batchSize (drop batchSize rs)))"
  by pat_completeness auto
termination
  by (relation "measure (\<lambda>(n, rs). length rs)") auto

declare persist_chunks.simps [simp del]

definition persistReadings :: "nat \<Rightarrow> Reading list \<Rightarrow> unit act" where
  "persistReadings batchSize readings =
     (if readings = [] then ret () else
      bind clock (\<lambda>now.
      bind (lift (validReadings (now div 1000) readings)) (\<lambda>valid.
      if valid = [] then ret ()
      else if batchSize \<le> 1 then single_upserts valid
      else persist_chunks batchSize valid)))"

text \<open>\<open>buffered\<close> is the length of the buffer when the reading arrives, and \<open>flushed\<close> the outcome
  that the flush carrying the reading reports; the flush itself is an action of its own.\<close>

definition persistReading :: "nat \<Rightarrow> nat \<Rightarrow> nat \<Rightarrow> (nat \<Rightarrow> unit outcome) \<Rightarrow> Reading \<Rightarrow> unit act" where
  "persistReading batchSize maxBufferSize buffered flushed reading =
     (if unreliable reading \<or> bad_confidence reading then ret () else
      bind clock (\<lambda>now.
      if future_dated (now div 1000) reading
      then throw (BadRequestException ''Reading timestamp is in the future'')
      else if batchSize \<le> 1 then executeSingleUpsert reading
      else if maxBufferSize \<le> buffered
      then throw (ServiceUnavailableException ''Oracle reading buffer full; backpressure applied'')
      else call (\<lambda>e. flushed)))"

section \<open>The claim on a submission\<close>

definition with_bucket :: "Reading \<Rightarrow> (int \<Rightarrow> 'a stmt) \<Rightarrow> 'a stmt" where
  "with_bucket r st = (case bucketStartFor (rd_timestamp r) ORACLE_BUCKET_MS of
     None \<Rightarrow> s_throw (PlainError ''PrismaClientValidationError'') | Some b \<Rightarrow> st b)"

definition claimForOnChainSubmission :: "Reading \<Rightarrow> bool act" where
  "claimForOnChainSubmission reading =
     bind (db (with_bucket reading (\<lambda>b.
       reading_updateMany (\<lambda>row. in_bucket reading b row \<and> \<not> or_onChainSubmitted row)
         (\<lambda>row. row\<lparr>or_onChainSubmitted := True\<rparr>)))) (\<lambda>count.
     ret (count \<noteq> 0))"

definition recordOnChainSubmission :: "Reading \<Rightarrow> string \<Rightarrow> unit act" where
  "recordOnChainSubmission reading txHash =
     seq (db (with_bucket reading (\<lambda>b.
       reading_updateMany (in_bucket reading b) (\<lambda>row. row\<lparr>or_onChainTxHash := Some txHash\<rparr>)))) (ret ())"

definition releaseOnChainClaim :: "Reading \<Rightarrow> unit act" where
  "releaseOnChainClaim reading =
     seq (db (with_bucket reading (\<lambda>b.
       reading_updateMany (\<lambda>row. in_bucket reading b row \<and> or_onChainTxHash row = None)
         (\<lambda>row. row\<lparr>or_onChainSubmitted := False\<rparr>)))) (ret ())"

section \<open>Reading back\<close>

definition reading_of :: "OracleReading \<Rightarrow> Reading" where
  "reading_of row = \<lparr>rd_dataType = or_dataType row, rd_key = or_key row, rd_value = int_str (or_value row),
     rd_confidence = js_int (or_confidence row), rd_timestamp = js_int (or_submittedAt row div 1000),
     rd_source = or_source row, rd_status = None, rd_bucketStart = Some (or_bucketStart row)\<rparr>"

definition getAllReadings :: "int \<Rightarrow> int \<Rightarrow> Reading list act" where
  "getAllReadings limit page =
     bind (db (s_query (\<lambda>w. paginate (min limit 500) ((page - 1) * limit)
       (sort_key (\<lambda>r. - or_submittedAt r) (oracleReadings w))))) (\<lambda>res.
     bind (lift res) (\<lambda>records. ret (map reading_of records)))"

definition READING_CACHE_TTL_MS :: int where
  "READING_CACHE_TTL_MS = 30000"

text \<open>Newest first, ties by descending id.\<close>

definition newest_reading :: "(string \<Rightarrow> int) \<Rightarrow> string \<Rightarrow> world \<Rightarrow> OracleReading option" where
  "newest_reading collation key w =
     (case sort_key (\<lambda>r. - or_submittedAt r) (sort_key (\<lambda>r. - collation (or_id r))
             (filter (\<lambda>r. or_key r = key) (oracleReadings w))) of
        [] \<Rightarrow> None | r # _ \<Rightarrow> Some r)"

definition getLatestReading :: "string \<Rightarrow> Reading option act" where
  "getLatestReading key =
     bind (gets (\<lambda>w. map_of (readingCache w) key)) (\<lambda>cached.
     bind (case cached of None \<Rightarrow> ret None
           | Some (value, expiresAt) \<Rightarrow> bind clock (\<lambda>t. ret (if expiresAt > t then Some value else None))) (\<lambda>hit.
     case hit of Some value \<Rightarrow> ret value
     | None \<Rightarrow>
       bind (asks e_collation) (\<lambda>collation.
       bind (db (s_query (newest_reading collation key))) (\<lambda>record.
       let result = map_option reading_of record in
       bind clock (\<lambda>t.
       seq (modify (\<lambda>w. w\<lparr>readingCache := AList.update key (result, t + READING_CACHE_TTL_MS) (readingCache w)\<rparr>))
       (ret result))))))"

section \<open>Rate-limit backoff\<close>

text \<open>From attempt \<open>attempt\<close> on; \<open>last\<close> is \<^verbatim>\<open>lastError\<close>. Only an answer with status 429 is tried
  again.\<close>

function backoff_from :: "nat \<Rightarrow> nat \<Rightarrow> exn \<Rightarrow> 'a act \<Rightarrow> 'a act" where
  "backoff_from maxRetries attempt lst fn =
     (if attempt \<ge> maxRetries then throw lst
      else catch fn (\<lambda>error.
        if error = HttpStatusError 429
        then seq (if attempt < maxRetries - 1 then await else ret ()) (backoff_from maxRetries (Suc attempt) error fn)
        else throw error))"
  by pat_completeness auto
termination
  by (relation "measure (\<lambda>(m, a, l, fn). m - a)") auto

declare backoff_from.simps [simp del]

definition executeWithRateLimitBackoff :: "nat \<Rightarrow> 'a act \<Rightarrow> 'a act" where
  "executeWithRateLimitBackoff maxRetries fn = backoff_from maxRetries 0 (PlainError ''undefined'') fn"

section \<open>What every write keeps of the rows\<close>

text \<open>No row is lost, the unique index holds, and each row changes only within \<open>P\<close>.\<close>

definition rows_kept :: "(OracleReading \<Rightarrow> OracleReading \<Rightarrow> bool) \<Rightarrow> world \<Rightarrow> world \<Rightarrow> bool" where
  "rows_kept P w v \<longleftrightarrow> (readings_ok (oracleReadings w) \<longrightarrow> readings_ok (oracleReadings v))
     \<and> (\<forall>row \<in> set (oracleReadings w). \<exists>row' \<in> set (oracleReadings v).
          bucket_id row' = bucket_id row \<and> P row row')"

lemma rows_keptE:
  assumes "rows_kept P w v" and "row \<in> set (oracleReadings w)"
  obtains row' where "row' \<in> set (oracleReadings v)" "bucket_id row' = bucket_id row" "P row row'"
  using assms unfolding rows_kept_def by blast

lemma rows_kept_map:
  assumes "\<And>row. Q row \<Longrightarrow> bucket_id (f row) = bucket_id row \<and> P row (f row)" and "\<And>row. P row row"
  shows "rows_kept P w (w\<lparr>oracleReadings := map (\<lambda>r. if Q r then f r else r) (oracleReadings w)\<rparr>)"
proof -
  have ids: "map bucket_id (map (\<lambda>r. if Q r then f r else r) rs) = map bucket_id rs" for rs
    using assms(1) by (induction rs) auto
  have "\<exists>row' \<in> set (map (\<lambda>r. if Q r then f r else r) (oracleReadings w)). bucket_id row' = bucket_id row \<and> P row row'"
    if "row \<in> set (oracleReadings w)" for row
  proof
    show "(if Q row then f row else row) \<in> set (map (\<lambda>r. if Q r then f r else r) (oracleReadings w))"
      using that by auto
  qed (use assms in auto)
  then show ?thesis by (simp add: rows_kept_def readings_ok_def ids del: map_map)
qed

text \<open>An order on rows that allows the writes of \<^verbatim>\<open>upsert\<close>, of taking a claim and of recording a hash.\<close>

locale row_order =
  fixes P :: "OracleReading \<Rightarrow> OracleReading \<Rightarrow> bool"
  assumes P_refl: "P row row"
    and P_trans: "P r1 r2 \<Longrightarrow> P r2 r3 \<Longrightarrow> P r1 r3"
    and P_upsert: "P row (row\<lparr>or_dataType := d, or_value := v, or_confidence := c, or_submittedAt := t\<rparr>)"
    and P_claim: "P row (row\<lparr>or_onChainSubmitted := True\<rparr>)"
    and P_record: "P row (row\<lparr>or_onChainTxHash := Some h\<rparr>)"
begin

lemma kept_refl: "rows_kept P w w"
  unfolding rows_kept_def using P_refl by blast

lemma kept_trans:
  assumes "rows_kept P u v" and "rows_kept P v w"
  shows "rows_kept P u w"
  using assms P_trans unfolding rows_kept_def by metis

end

sublocale row_order \<subseteq> world_order "rows_kept P"
  by unfold_locales (rule kept_refl, rule kept_trans)

context row_order
begin

lemma within_updateMany:
  "(\<And>row. Q row \<Longrightarrow> bucket_id (f row) = bucket_id row \<and> P row (f row)) \<Longrightarrow>
   stmt_within (rows_kept P) (reading_updateMany Q f)"
  unfolding stmt_within_def reading_updateMany_def using rows_kept_map [of Q f P] P_refl by auto

lemma within_upsert_row: "stmt_within (rows_kept P) (upsert_row k r v t)"
proof -
  have hit: "rows_kept P w (w\<lparr>oracleReadings := map (\<lambda>row. if in_bucket r b row
       then row\<lparr>or_dataType := rd_dataType r, or_value := v,
                or_confidence := num_int (rd_confidence r), or_submittedAt := t\<rparr> else row) (oracleReadings w)\<rparr>)" for w b
    by (rule rows_kept_map) (auto simp: P_upsert P_refl bucket_id_def)
  have miss: "rows_kept P w (w\<lparr>oracleReadings := oracleReadings w @ [row]\<rparr>)"
    if "\<not> list_ex (in_bucket r b) (oracleReadings w)" "bucket_id row = (rd_key r, rd_source r, b)" for w b row
  proof -
    have "bucket_id row \<notin> bucket_id ` set (oracleReadings w)"
      using that by (auto simp: list_ex_iff in_bucket_def bucket_id_def)
    then show ?thesis unfolding rows_kept_def readings_ok_def using P_refl by auto
  qed
  show ?thesis
    unfolding stmt_within_def upsert_row_def
    by (auto split: option.splits if_splits intro!: hit miss simp: bucket_id_def)
qed

lemma within_upsert_rows: "stmt_within (rows_kept P) (upsert_rows k ops)"
  by (induction k ops rule: upsert_rows.induct) (auto intro!: within_ret within_bind within_upsert_row)

lemma within_with_bucket: "(\<And>b. stmt_within (rows_kept P) (st b)) \<Longrightarrow> stmt_within (rows_kept P) (with_bucket r st)"
  by (auto simp: with_bucket_def within_throw split: option.splits)

lemma guar_readingCache: "guarantees (rows_kept P) (modify (\<lambda>w. w\<lparr>readingCache := f w\<rparr>))"
  by (rule guar_modify) (use P_refl in \<open>auto simp: rows_kept_def\<close>)

lemma guar_cache_delete: "guarantees (rows_kept P) (readingCache_delete k)"
  by (simp add: readingCache_delete_def guar_readingCache)

lemma guar_cache_delete_all: "guarantees (rows_kept P) (cache_delete_all rs)"
  by (induction rs) (auto intro!: guar guar_cache_delete)

lemma guar_single: "guarantees (rows_kept P) (executeSingleUpsert r)"
  unfolding executeSingleUpsert_def by (intro guar within_upsert_row guar_cache_delete)

lemma guar_batch_ops: "guarantees (rows_kept P) (batch_ops rs)"
  by (induction rs) (auto intro!: guar)

lemma guar_batch: "guarantees (rows_kept P) (executeUpsertBatch rs)"
  unfolding executeUpsertBatch_def by (auto intro!: guar guar_batch_ops within_upsert_rows)

lemma guar_each: "guarantees (rows_kept P) (upsert_each rs)"
  by (induction rs) (auto intro!: guar guar_single)

lemma guar_flush_batch: "guarantees (rows_kept P) (flush_batch rs)"
  unfolding flush_batch_def by (intro guar guar_batch guar_each guar_cache_delete_all)

lemma guar_persist_chunks: "guarantees (rows_kept P) (persist_chunks n rs)"
proof (induction n rs rule: persist_chunks.induct)
  case (1 n rs)
  then show ?case
    by (subst persist_chunks.simps)
      (auto simp: persist_chunk_def intro!: guar guar_batch guar_each guar_cache_delete_all)
qed

lemma guar_single_upserts: "guarantees (rows_kept P) (single_upserts rs)"
  by (induction rs) (auto intro!: guar guar_single)

lemma guar_persistReadings: "guarantees (rows_kept P) (persistReadings n rs)"
  unfolding persistReadings_def by (auto intro!: guar guar_persist_chunks guar_single_upserts)

lemma guar_persistReading: "guarantees (rows_kept P) (persistReading n m k fl r)"
  unfolding persistReading_def by (auto intro!: guar guar_single)

lemma guar_claim: "guarantees (rows_kept P) (claimForOnChainSubmission r)"
  unfolding claimForOnChainSubmission_def
  by (intro guar within_with_bucket within_updateMany) (auto simp: P_claim bucket_id_def)

lemma guar_record: "guarantees (rows_kept P) (recordOnChainSubmission r h)"
  unfolding recordOnChainSubmission_def
  by (intro guar within_with_bucket within_updateMany) (auto simp: P_record bucket_id_def)

lemma guar_getLatestReading: "guarantees (rows_kept P) (getLatestReading k)"
  unfolding getLatestReading_def Let_def
  by (intro guar_bind guar_gets) (auto split: option.splits intro!: guar guar_readingCache)

lemmas guar_readings = guar_persistReadings guar_persistReading guar_flush_batch guar_claim guar_record
  guar_getLatestReading

end

text \<open>A recorded submission stays recorded and claimed; this order also allows releasing a claim that has
  no recorded hash.\<close>

definition recorded_stays :: "OracleReading \<Rightarrow> OracleReading \<Rightarrow> bool" where
  "recorded_stays r r' \<longleftrightarrow> or_onChainTxHash r \<noteq> None \<longrightarrow>
     or_onChainTxHash r' \<noteq> None \<and> (or_onChainSubmitted r \<longrightarrow> or_onChainSubmitted r')"

text \<open>A claim stays claimed: what everyone but the holder of the claim keeps.\<close>

definition claimed_stays :: "OracleReading \<Rightarrow> OracleReading \<Rightarrow> bool" where
  "claimed_stays r r' \<longleftrightarrow> (or_onChainSubmitted r \<longrightarrow> or_onChainSubmitted r')"

interpretation rs: row_order recorded_stays
  by unfold_locales (auto simp: recorded_stays_def)

interpretation cs: row_order claimed_stays
  by unfold_locales (auto simp: claimed_stays_def)

lemma guar_release: "guarantees (rows_kept recorded_stays) (releaseOnChainClaim r)"
  unfolding releaseOnChainClaim_def
  by (intro rs.guar rs.within_with_bucket rs.within_updateMany) (auto simp: recorded_stays_def bucket_id_def)

section \<open>Reading statements leave policies and claims alone\<close>

lemma within_readings:
  "(\<And>c w x w'. st c w = (Inr x, w') \<Longrightarrow> \<exists>rs. w' = w\<lparr>oracleReadings := rs\<rparr>) \<Longrightarrow> stmt_within evolves st"
  unfolding stmt_within_def evolves_def policy_findUnique_def claim_findUnique_def by fastforce

lemma within_evolves_upsert: "stmt_within evolves (upsert_row k r v t)"
  by (rule within_readings) (auto simp: upsert_row_def split: option.splits if_splits)

lemma within_evolves_updateMany: "stmt_within evolves (reading_updateMany Q f)"
  by (rule within_readings) (auto simp: reading_updateMany_def)

lemma within_evolves_bucket: "(\<And>b. stmt_within evolves (st b)) \<Longrightarrow> stmt_within evolves (with_bucket r st)"
  by (auto simp: with_bucket_def ev.within_throw split: option.splits)

lemma guar_evolves_cache: "guarantees evolves (readingCache_delete k)"
  unfolding readingCache_delete_def
  by (rule ev.guar_modify) (simp add: evolves_def claim_findUnique_def policy_findUnique_def)

lemma guar_evolves_persistReading: "guarantees evolves (persistReading n m k fl r)"
  unfolding persistReading_def executeSingleUpsert_def
  by (auto intro!: ev.guar within_evolves_upsert guar_evolves_cache)

lemma guar_evolves_claim:
  "guarantees evolves (claimForOnChainSubmission r)"
  "guarantees evolves (recordOnChainSubmission r h)"
  "guarantees evolves (releaseOnChainClaim r)"
  unfolding claimForOnChainSubmission_def recordOnChainSubmission_def releaseOnChainClaim_def
  by (intro ev.guar within_evolves_bucket within_evolves_updateMany)+

section \<open>What an upsert stores\<close>

lemma map_bucket_upsert:
  assumes "\<And>row. Q (f row) = Q row"
  shows "filter Q (map (\<lambda>r. if Q r then f r else r) rs) = map f (filter Q rs)"
    and "filter (\<lambda>r. \<not> Q r) (map (\<lambda>r. if Q r then f r else r) rs) = filter (\<lambda>r. \<not> Q r) rs"
  using assms by (induction rs) auto

lemma one_in_bucket:
  "readings_ok rs \<Longrightarrow> row \<in> set rs \<Longrightarrow> in_bucket r b row \<Longrightarrow> filter (in_bucket r b) rs = [row]"
  unfolding readings_ok_def
proof (induction rs)
  case (Cons x rs)
  have "filter (in_bucket r b) rs = []" if "in_bucket r b x"
    using Cons.prems that by (force simp: filter_empty_conv in_bucket_def bucket_id_def image_iff)
  moreover have "\<not> in_bucket r b x" if "row \<in> set rs"
    using Cons.prems that by (force simp: in_bucket_def bucket_id_def image_iff)
  ultimately show ?case using Cons by auto
qed simp

definition stored_as :: "Reading \<Rightarrow> int \<Rightarrow> OracleReading \<Rightarrow> bool" where
  "stored_as r v row \<longleftrightarrow> or_dataType row = rd_dataType r \<and> or_value row = v
     \<and> or_confidence row = num_int (rd_confidence r)"

text \<open>
  Storing a reading is idempotent per bucket: after a successful upsert exactly one row has the key,
  the source and the hour of the reading, with its value and confidence; a row that was there
  keeps its id and its on-chain state, a new one is unsubmitted; every other row is untouched, the
  unique index still holds and the cached answer for the key is gone.
\<close>

theorem executeSingleUpsert_stores:
  assumes run: "executeSingleUpsert r e (n, w) = (Inr (), (n', w'))"
    and ok: "readings_ok (oracleReadings (e_rely e (Suc n) w))"
  shows "\<exists>b v row. bucketStartFor (rd_timestamp r) ORACLE_BUCKET_MS = Some b \<and> BigInt_str (rd_value r) = Inr v
     \<and> filter (in_bucket r b) (oracleReadings w') = [row] \<and> stored_as r v row
     \<and> (case filter (in_bucket r b) (oracleReadings (e_rely e (Suc n) w)) of
          [] \<Rightarrow> \<not> or_onChainSubmitted row \<and> or_onChainTxHash row = None
        | old # _ \<Rightarrow> or_id row = or_id old \<and> or_onChainSubmitted row = or_onChainSubmitted old
            \<and> or_onChainTxHash row = or_onChainTxHash old)
     \<and> filter (\<lambda>x. \<not> in_bucket r b x) (oracleReadings w')
        = filter (\<lambda>x. \<not> in_bucket r b x) (oracleReadings (e_rely e (Suc n) w))
     \<and> readings_ok (oracleReadings w') \<and> map_of (readingCache w') (rd_key r) = None"
proof -
  let ?w = "e_rely e (Suc n) w"
  from run obtain v u where v: "BigInt_str (rd_value r) = Inr v"
    and up: "upsert_row 0 r v (e_clock e n) (tx_ctx e (Suc n)) ?w = (Inr (), u)"
    and w': "w' = u\<lparr>readingCache := AList.delete (rd_key r) (readingCache u)\<rparr>"
    by (auto simp: executeSingleUpsert_def returns readingCache_delete_def)
  from up obtain b where b: "bucketStartFor (rd_timestamp r) ORACLE_BUCKET_MS = Some b" and typed: "row_typed r v"
    by (auto simp: upsert_row_def split: option.splits if_splits)
  have ok': "readings_ok (oracleReadings w')"
    using rs.within_upsert_row [of 0 r v "e_clock e n"] up ok unfolding stmt_within_def rows_kept_def w' by fastforce
  have cache: "map_of (readingCache w') (rd_key r) = None" by (simp add: w' delete_conv)
  show ?thesis
  proof (cases "list_ex (in_bucket r b) (oracleReadings ?w)")
    case True
    then obtain old where old: "old \<in> set (oracleReadings ?w)" "in_bucket r b old" by (auto simp: list_ex_iff)
    let ?f = "\<lambda>row. row\<lparr>or_dataType := rd_dataType r, or_value := v,
      or_confidence := num_int (rd_confidence r), or_submittedAt := e_clock e n\<rparr>"
    have f: "in_bucket r b (?f row) = in_bucket r b row" for row by (simp add: in_bucket_def)
    have rows: "oracleReadings w' = map (\<lambda>row. if in_bucket r b row then ?f row else row) (oracleReadings ?w)"
      using up b typed True by (auto simp: upsert_row_def w')
    have "filter (in_bucket r b) (oracleReadings w') = [?f old]"
      unfolding rows map_bucket_upsert(1) [of "in_bucket r b" ?f, OF f] one_in_bucket [OF ok old] by simp
    moreover have "filter (\<lambda>x. \<not> in_bucket r b x) (oracleReadings w') = filter (\<lambda>x. \<not> in_bucket r b x) (oracleReadings ?w)"
      unfolding rows by (rule map_bucket_upsert(2) [of "in_bucket r b" ?f, OF f])
    ultimately show ?thesis using b v ok' cache one_in_bucket [OF ok old]
      by (intro exI [of _ b] exI [of _ v] exI [of _ "?f old"]) (simp add: stored_as_def)
  next
    case False
    then have none: "filter (in_bucket r b) (oracleReadings ?w) = []" by (simp add: list_ex_iff filter_empty_conv)
    obtain row where rows: "oracleReadings w' = oracleReadings ?w @ [row]" and row: "in_bucket r b row" "stored_as r v row"
        "\<not> or_onChainSubmitted row" "or_onChainTxHash row = None"
      using up b typed False by (auto simp: upsert_row_def w' in_bucket_def stored_as_def)
    then show ?thesis using b v ok' cache none
      by (intro exI [of _ b] exI [of _ v] exI [of _ row]) simp
  qed
qed

definition rain_reading :: Reading where
  "rain_reading = \<lparr>rd_dataType = ''weather'', rd_key = ''rainfall:-0.0917,34.7679:2024-05'', rd_value = ''324000000'',
     rd_confidence = js_int 95, rd_timestamp = js_int 1716000000, rd_source = ''open-meteo'', rd_status = None,
     rd_bucketStart = None\<rparr>"

theorem executeSingleUpsert_stores_witness:
  "\<exists>b v row. bucketStartFor (rd_timestamp rain_reading) ORACLE_BUCKET_MS = Some b
     \<and> BigInt_str (rd_value rain_reading) = Inr v
     \<and> filter (in_bucket rain_reading b)
         (oracleReadings (snd (snd (executeSingleUpsert rain_reading (quiet_env 0) (0, empty_world))))) = [row]
     \<and> stored_as rain_reading v row"
proof -
  let ?run = "executeSingleUpsert rain_reading (quiet_env 0) (0, empty_world)"
  have ok: "fst ?run = Inr ()" "readings_ok (oracleReadings (e_rely (quiet_env 0) (Suc 0) empty_world))" by code_simp+
  then have "?run = (Inr (), (fst (snd ?run), snd (snd ?run)))" by (metis prod.collapse)
  from executeSingleUpsert_stores [where e = "quiet_env 0", OF this ok(2)] show ?thesis by blast
qed

end
