(* ===== verification/Oracle_Worker.thy ===== *)
theory Oracle_Worker
  imports Oracle_Readings
begin

text \<open>
  \<^verbatim>\<open>src/oracle/oracle.worker.ts\<close>: how an oracle key is fetched, vetted, persisted, claimed and
  submitted on chain. The two fetches of \<^verbatim>\<open>OracleService\<close>, which talk to outside services, are a
  parameter, which \<open>Oracle_Fetch\<close> fills in; so are the numbers that \<^verbatim>\<open>Number\<close> reads and the flush that stores a buffered reading.
\<close>

section \<open>Keys\<close>

definition rx_upper_digit :: rx where
  "rx_upper_digit = Cls (\<lambda>c. is_digit c \<or> 65 \<le> (of_char c :: int) \<and> (of_char c :: int) \<le> 90)"

definition WORKER_RAINFALL_KEY :: rx where
  "WORKER_RAINFALL_KEY = rx_seq [rx_lit ''rainfall:'', rx_coord, rx_lit '','', rx_coord, rx_lit '':'',
     rx_rep 4 (Cls is_digit), rx_lit ''-'', rx_rep 2 (Cls is_digit)]"

definition WORKER_FLIGHT_KEY :: rx where
  "WORKER_FLIGHT_KEY = rx_seq [rx_lit ''flight:'', rx_plus rx_upper_digit, rx_lit '':'',
     rx_rep 4 (Cls is_digit), rx_lit ''-'', rx_rep 2 (Cls is_digit), rx_lit ''-'', rx_rep 2 (Cls is_digit)]"

text \<open>What is asked of the service: the coordinates (as their text), the year and the month; or the
  flight and its date.\<close>

datatype fetch_request = FetchRainfall string string int int | FetchFlight string string

definition cut :: "char \<Rightarrow> string \<Rightarrow> string \<times> string" where
  "cut c s = (takeWhile (\<lambda>d. d \<noteq> c) s, tl (dropWhile (\<lambda>d. d \<noteq> c) s))"

definition request_of :: "string \<Rightarrow> fetch_request option" where
  "request_of key =
     (if starts_with ''rainfall:'' key then
        (if rx_test WORKER_RAINFALL_KEY key then
           (let (lat, r1) = cut (CHR '','') (drop 9 key);
                (lng, r2) = cut (CHR '':'') r1;
                (year, month) = cut (CHR ''-'') r2
            in Some (FetchRainfall lat lng (digits_val year) (digits_val month)))
         else None)
      else if starts_with ''flight:'' key then
        (if rx_test WORKER_FLIGHT_KEY key then
           (let (flightNumber, date) = cut (CHR '':'') (drop 7 key) in Some (FetchFlight flightNumber date))
         else None)
      else None)"

section \<open>Processing one key\<close>

record oracle_deps =
  od_fetch :: "fetch_request \<Rightarrow> nat \<Rightarrow> Reading outcome"
  od_number :: "string \<Rightarrow> jsnum"
  od_batchSize :: nat
  od_maxBufferSize :: nat
  od_buffered :: nat
  od_flushed :: "nat \<Rightarrow> unit outcome"

record Metrics =
  m_submitted :: int
  m_skipped :: int
  m_duplicates :: int
  m_invalid :: int

definition no_metrics :: Metrics where
  "no_metrics = \<lparr>m_submitted = 0, m_skipped = 0, m_duplicates = 0, m_invalid = 0\<rparr>"

definition getMinConfidence :: "(string \<Rightarrow> jsnum) \<Rightarrow> env \<Rightarrow> jsnum" where
  "getMinConfidence numberOf e =
     (case e_config e ''ORACLE_MIN_CONFIDENCE'' of
        None \<Rightarrow> js_int 1
      | Some raw \<Rightarrow> let parsed = numberOf raw in
          if is_finite parsed \<and> \<not> js_less parsed (js_int 0) then parsed else js_int 1)"

definition fetchWithRetry :: "(nat \<Rightarrow> Reading outcome) \<Rightarrow> Reading option act" where
  "fetchWithRetry fetchFn =
     catch (bind (call (\<lambda>e. fetchFn)) (\<lambda>r. ret (Some r)))
       (\<lambda>err. seq await
         (catch (bind (call (\<lambda>e. fetchFn)) (\<lambda>r. ret (Some r))) (\<lambda>retryErr. ret None)))"

text \<open>The arguments of \<^verbatim>\<open>submit_data\<close>; \<^verbatim>\<open>BigInt\<close> refuses a value that is no integer.\<close>

definition submit_args :: "Reading \<Rightarrow> string list outcome" where
  "submit_args r =
     (case BigInt_str (rd_value r) of
        Inl x \<Rightarrow> Inl x
      | Inr v \<Rightarrow>
          if \<not> is_integer (rd_confidence r) then Inl (PlainError ''TypeError'')
          else if \<not> is_integer (rd_timestamp r) then Inl (PlainError ''RangeError'')
          else Inr [rd_dataType r, rd_key r, int_str v, int_str (num_int (rd_confidence r)),
                    int_str (num_int (rd_timestamp r))])"

definition release_quietly :: "Reading \<Rightarrow> unit act" where
  "release_quietly reading = catch (releaseOnChainClaim reading) (\<lambda>releaseErr. ret ())"

definition submit_claimed :: "string \<Rightarrow> Reading \<Rightarrow> Metrics act" where
  "submit_claimed contractId reading =
     catch
       (bind (bind (lift (submit_args reading)) (invokeContract_call contractId ''submit_data'')) (\<lambda>txHash.
        seq (catch (recordOnChainSubmission reading txHash) (\<lambda>err. release_quietly reading))
        (ret (no_metrics\<lparr>m_submitted := 1\<rparr>))))
       (\<lambda>err. seq (release_quietly reading) (ret no_metrics))"

definition claim_and_submit :: "string \<Rightarrow> Reading \<Rightarrow> Metrics act" where
  "claim_and_submit contractId reading =
     bind (catch (bind (claimForOnChainSubmission reading) (\<lambda>b. ret (Some b))) (\<lambda>err. ret None)) (\<lambda>claimed.
     case claimed of
       None \<Rightarrow> ret no_metrics
     | Some False \<Rightarrow> ret (no_metrics\<lparr>m_duplicates := 1\<rparr>)
     | Some True \<Rightarrow> submit_claimed contractId reading)"

definition low_confidence :: "jsnum \<Rightarrow> Reading \<Rightarrow> bool" where
  "low_confidence minConfidence r \<longleftrightarrow> rd_status r = Some ''NO_DATA'' \<or> js_less (rd_confidence r) minConfidence"

definition submit_reading :: "oracle_deps \<Rightarrow> Reading \<Rightarrow> Metrics act" where
  "submit_reading d reading =
     bind (asks (getMinConfidence (od_number d))) (\<lambda>minConfidence.
     if low_confidence minConfidence reading then ret (no_metrics\<lparr>m_skipped := 1\<rparr>) else
     bind (catch (seq (persistReading (od_batchSize d) (od_maxBufferSize d) (od_buffered d) (od_flushed d) reading)
                 (ret True)) (\<lambda>err. ret False)) (\<lambda>stored.
     if \<not> stored then ret no_metrics
     else if rd_confidence reading = js_int 0 \<or> rd_source reading = ''mock'' then ret no_metrics
     else bind (asks (\<lambda>e. or_old (e_config e ''ORACLE_VERIFIER_CONTRACT'') [])) (\<lambda>contractId.
       if contractId = [] then ret no_metrics else claim_and_submit contractId reading)))"

definition processKey :: "oracle_deps \<Rightarrow> string \<Rightarrow> Metrics act" where
  "processKey d key =
     catch
       (case request_of key of
          None \<Rightarrow> ret no_metrics
        | Some req \<Rightarrow>
            bind (fetchWithRetry (od_fetch d req)) (\<lambda>reading.
            case reading of
              None \<Rightarrow> ret (no_metrics\<lparr>m_invalid := 1\<rparr>)
            | Some r \<Rightarrow> submit_reading d r))
       (\<lambda>err. ret (no_metrics\<lparr>m_invalid := 1\<rparr>))"

section \<open>The poll cycle\<close>

definition utc_year :: "int \<Rightarrow> int" where
  "utc_year t = (let days = t div 86400000; y = 1970 + days * 400 div 146097 in
     if days < DayFromYear y then y - 1 else if days \<ge> DayFromYear (y + 1) then y + 1 else y)"

definition utc_month :: "int \<Rightarrow> int" where
  "utc_month t = (let y = utc_year t; d = t div 86400000 - DayFromYear y in
     last (filter (\<lambda>m. month_offset y m \<le> d) [1..12]))"

text \<open>The distinct keys of the active policies, at most 500; their order is the database's.\<close>

definition active_keys :: "world \<Rightarrow> string list" where
  "active_keys w = take 500 (rev (remdups (rev
     (map p_oracleKey (filter (\<lambda>p. p_status p = P_ACTIVE) (policies w))))))"

definition fallback_key :: "int \<Rightarrow> string" where
  "fallback_key now = ''rainfall:-0.0917,34.7679:'' @ int_str (utc_year now) @ ''-''
     @ padStart 2 (CHR ''0'') (int_str (utc_month now))"

definition add_metrics :: "Metrics \<Rightarrow> Metrics \<Rightarrow> Metrics" where
  "add_metrics a b = \<lparr>m_submitted = m_submitted a + m_submitted b, m_skipped = m_skipped a + m_skipped b,
     m_duplicates = m_duplicates a + m_duplicates b, m_invalid = m_invalid a + m_invalid b\<rparr>"

text \<open>The keys in the order in which they are taken up; what the other runners of the pool do meanwhile is
  part of the interference. A failure of one key is counted and the next is taken.\<close>

fun processKeys :: "oracle_deps \<Rightarrow> string list \<Rightarrow> Metrics act" where
  "processKeys d [] = ret no_metrics"
| "processKeys d (key # keys) =
     bind (catch (processKey d key) (\<lambda>err. ret (no_metrics\<lparr>m_invalid := 1\<rparr>))) (\<lambda>m.
     bind (processKeys d keys) (\<lambda>ms. ret (add_metrics m ms)))"

definition executePollAndSubmit :: "oracle_deps \<Rightarrow> Metrics act" where
  "executePollAndSubmit d =
     bind clock (\<lambda>now.
     bind (catch (db (s_query active_keys)) (\<lambda>err. ret [])) (\<lambda>uniqueKeys.
     processKeys d (if uniqueKeys = [] then [fallback_key now] else uniqueKeys)))"

section \<open>Guarantees\<close>

lemma guar_processKey: "guarantees (rows_kept recorded_stays) (processKey d key)"
proof -
  have invoke: "guarantees (rows_kept recorded_stays) (invokeContract_call c f args)" for c f args
    unfolding guarantees_def invokeContract_call_def by (simp add: rows_kept_def)
  have submit: "guarantees (rows_kept recorded_stays) (submit_claimed c r)" for c r
    unfolding submit_claimed_def release_quietly_def
    by (intro rs.guar rs.guar_record guar_release invoke)
  show ?thesis
    unfolding processKey_def submit_reading_def claim_and_submit_def fetchWithRetry_def
    by (auto split: option.splits bool.splits intro!: rs.guar rs.guar_persistReading rs.guar_claim submit)
qed

lemma guar_evolves_processKey: "guarantees evolves (processKey d key)"
proof -
  have invoke: "guarantees evolves (invokeContract_call c f args)" for c f args
    using guar_invoke .
  have submit: "guarantees evolves (submit_claimed c r)" for c r
    unfolding submit_claimed_def release_quietly_def
    by (intro ev.guar guar_evolves_claim invoke)
  show ?thesis
    unfolding processKey_def submit_reading_def claim_and_submit_def fetchWithRetry_def
    by (auto split: option.splits bool.splits intro!: ev.guar guar_evolves_persistReading guar_evolves_claim submit)
qed

lemma guar_poll: "guarantees evolves (executePollAndSubmit d)"
proof -
  have "guarantees evolves (processKeys d keys)" for keys
    by (induction keys) (auto intro!: ev.guar guar_evolves_processKey)
  then show ?thesis unfolding executePollAndSubmit_def by (intro ev.guar)
qed

section \<open>One submission per bucket\<close>

definition same_bucket :: "Reading \<Rightarrow> Reading \<Rightarrow> bool" where
  "same_bucket r r' \<longleftrightarrow> rd_key r' = rd_key r \<and> rd_source r' = rd_source r
     \<and> bucketStartFor (rd_timestamp r') ORACLE_BUCKET_MS = bucketStartFor (rd_timestamp r) ORACLE_BUCKET_MS"

lemma claim_True:
  "claimForOnChainSubmission r e (n, w) = (Inr True, (n', v)) \<longleftrightarrow>
     (\<exists>b. bucketStartFor (rd_timestamp r) ORACLE_BUCKET_MS = Some b \<and> e_dbfail e n = None \<and> n' = Suc n
        \<and> (\<exists>row \<in> set (oracleReadings (e_rely e n w)). in_bucket r b row \<and> \<not> or_onChainSubmitted row)
        \<and> v = (e_rely e n w)\<lparr>oracleReadings := map (\<lambda>row. if in_bucket r b row \<and> \<not> or_onChainSubmitted row
             then row\<lparr>or_onChainSubmitted := True\<rparr> else row) (oracleReadings (e_rely e n w))\<rparr>)"
  by (auto simp: claimForOnChainSubmission_def with_bucket_def returns reading_updateMany_def
      filter_empty_conv split: option.splits)

lemma in_bucket_id: "in_bucket r b row \<longleftrightarrow> bucket_id row = (rd_key r, rd_source r, b)"
  by (auto simp: in_bucket_def bucket_id_def)

text \<open>A claimed row of the bucket refuses every claim, as long as the row stays claimed.\<close>

lemma claimed_refuses:
  assumes rely: "\<And>k v. rows_kept Q v (e_rely e k v)" and Q: "\<And>r r'. Q r r' \<Longrightarrow> ok r \<Longrightarrow> or_onChainSubmitted r'"
    and row: "row \<in> set (oracleReadings w)" "ok row" "bucket_id row = (rd_key r, rd_source r, b)"
    and b: "bucketStartFor (rd_timestamp r) ORACLE_BUCKET_MS = Some b"
    and uniq: "readings_ok (oracleReadings w)"
  shows "claimForOnChainSubmission r e (n, w) \<noteq> (Inr True, s')"
proof
  assume "claimForOnChainSubmission r e (n, w) = (Inr True, s')"
  then obtain row2 where row2: "row2 \<in> set (oracleReadings (e_rely e n w))" "bucket_id row2 = bucket_id row"
    "\<not> or_onChainSubmitted row2"
    using b row(3) by (cases s') (auto simp: claim_True in_bucket_id)
  from rows_keptE [OF rely row(1)] obtain row1 where
    row1: "row1 \<in> set (oracleReadings (e_rely e n w))" "bucket_id row1 = bucket_id row" "Q row row1" .
  have "readings_ok (oracleReadings (e_rely e n w))" using rely uniq unfolding rows_kept_def by blast
  with row1 row2 have "row1 = row2" unfolding readings_ok_def by (metis distinct_map inj_on_eq_iff)
  with row1(3) row(2) row2(3) Q show False by blast
qed

text \<open>
  A bucket is claimed by one replica only: once a run has claimed the bucket of a reading, no other
  claim of the same key, source and hour succeeds, at any later time and on any replica, as long
  as the claim is not released.
\<close>

theorem submission_claim_exclusive:
  assumes uniq: "readings_ok (oracleReadings w)" and same: "same_bucket r r'"
    and rely: "\<forall>k v. rows_kept claimed_stays v (e_rely e k v)"
    and rely': "\<forall>k v. rows_kept claimed_stays v (e_rely e' k v)"
    and first: "claimForOnChainSubmission r e (n, w) = (Inr True, (n1, w1))"
    and between: "rows_kept claimed_stays w1 w2"
  shows "claimForOnChainSubmission r' e' (n2, w2) \<noteq> (Inr True, s')"
proof -
  from first obtain b row where b: "bucketStartFor (rd_timestamp r) ORACLE_BUCKET_MS = Some b"
    and row: "row \<in> set (oracleReadings (e_rely e n w))" "in_bucket r b row" "\<not> or_onChainSubmitted row"
    and w1: "w1 = (e_rely e n w)\<lparr>oracleReadings := map (\<lambda>row. if in_bucket r b row \<and> \<not> or_onChainSubmitted row
         then row\<lparr>or_onChainSubmitted := True\<rparr> else row) (oracleReadings (e_rely e n w))\<rparr>"
    unfolding claim_True by blast
  let ?row = "row\<lparr>or_onChainSubmitted := True\<rparr>"
  have claimed: "?row \<in> set (oracleReadings w1)" unfolding w1 using row by (force simp: image_iff)
  have "rows_kept claimed_stays w w1"
    using guaranteesD [where R = "rows_kept claimed_stays" and m = "claimForOnChainSubmission r" and e = e]
      cs.guar_claim rely first by blast
  then have kept: "rows_kept claimed_stays w w2" using between by (rule cs.kept_trans)
  then have ok2: "readings_ok (oracleReadings w2)" using uniq unfolding rows_kept_def by blast
  from rows_keptE [OF between claimed] obtain row2 where
    "row2 \<in> set (oracleReadings w2)" "bucket_id row2 = bucket_id ?row" "claimed_stays ?row row2" .
  moreover have "bucket_id ?row = (rd_key r', rd_source r', b)"
    using row(2) same by (simp add: in_bucket_id bucket_id_def same_bucket_def)
  ultimately show ?thesis
    using claimed_refuses [where Q = claimed_stays and ok = or_onChainSubmitted and row = row2 and b = b] rely' ok2 b same
    by (auto simp: claimed_stays_def same_bucket_def)
qed

section \<open>What is submitted\<close>

lemma silent_readings:
  "guarantees silent (persistReading a b c fl r)" "guarantees silent (claimForOnChainSubmission r)"
  "guarantees silent (recordOnChainSubmission r h)" "guarantees silent (release_quietly r)"
  "guarantees silent (fetchWithRetry g)"
proof -
  have st: "stmt_within silent (upsert_row k r v t)" for k r v t
    by (auto simp: stmt_within_def upsert_row_def silent_def split: option.splits if_splits)
  have um: "stmt_within silent (with_bucket r (\<lambda>b. reading_updateMany (Q b) f))" for Q f
    by (auto simp: stmt_within_def with_bucket_def s_throw_def reading_updateMany_def silent_def split: option.splits)
  show "guarantees silent (persistReading a b c fl r)"
    unfolding persistReading_def executeSingleUpsert_def readingCache_delete_def
    by (auto intro!: si.guar si.guar_modify st simp: silent_def)
  show "guarantees silent (claimForOnChainSubmission r)" "guarantees silent (recordOnChainSubmission r h)"
    "guarantees silent (release_quietly r)"
    unfolding claimForOnChainSubmission_def recordOnChainSubmission_def release_quietly_def releaseOnChainClaim_def
    by (intro si.guar um)+
  show "guarantees silent (fetchWithRetry g)"
    unfolding fetchWithRetry_def by (intro si.guar)
qed

text \<open>A call that submits the reading \<open>r\<close>.\<close>

abbreviation submits :: "Reading \<Rightarrow> string \<times> string \<times> string list \<Rightarrow> bool" where
  "submits r c \<equiv> (\<exists>k args. submit_args r = Inr args \<and> c = (k, ''submit_data'', args))"

lemma calls_claim_and_submit: "calls_at_most e (submits r) (claim_and_submit k r)"
proof -
  have inv: "calls_at_most e (submits r) (bind (lift (submit_args r)) (invokeContract_call k ''submit_data''))"
    by (rule calls_silent_bind [OF si.guar_lift])
      (auto simp: returns calls_at_most_def invokeContract_call_def silent_def)
  have "calls_at_most e (submits r) (submit_claimed k r)"
    unfolding submit_claimed_def
    by (intro calls_catch calls_then_silent inv si.guar silent_readings)
  then show ?thesis
    unfolding claim_and_submit_def
    by (intro calls_silent_bind si.guar silent_readings) (auto split: option.splits bool.splits intro!: calls_silent si.guar)
qed

lemma calls_submit_reading:
  "calls_at_most e (\<lambda>c. \<not> unreliable r \<and> \<not> js_less (rd_confidence r) (getMinConfidence (od_number d) e) \<and> submits r c)
     (submit_reading d r)"
proof (cases "unreliable r \<or> low_confidence (getMinConfidence (od_number d) e) r")
  case True
  then show ?thesis
    unfolding submit_reading_def
    by (intro calls_silent_bind si.guar)
      (auto simp: returns unreliable_def low_confidence_def
        intro!: calls_silent si.guar silent_readings calls_silent_bind)
next
  case False
  have "calls_at_most e (submits r) (submit_reading d r)"
    unfolding submit_reading_def
    by (intro calls_silent_bind si.guar)
      (auto intro!: calls_silent [OF si.guar_ret] calls_silent_bind si.guar silent_readings calls_claim_and_submit)
  with False show ?thesis by (simp add: low_confidence_def calls_at_most_def)
qed

text \<open>
  C29. Only reliable data reaches the chain: if a run for an oracle key calls a contract (and no one else
  does meanwhile), it calls \<^verbatim>\<open>submit_data\<close> exactly once, with the reading that the fetch for this
  key gave, and that reading is neither a mock nor without data, has a non-zero confidence and one
  of at least the configured minimum.
\<close>

theorem processKey_reliable:
  assumes "\<forall>k v. chainCalls (e_rely e k v) = chainCalls v"
    and "processKey d key e (n, w) = (res, (n', w'))"
    and "chainCalls w' \<noteq> chainCalls w"
  shows "\<exists>req t r k args. request_of key = Some req \<and> od_fetch d req t = Inr r \<and> \<not> unreliable r
     \<and> \<not> js_less (rd_confidence r) (getMinConfidence (od_number d) e)
     \<and> submit_args r = Inr args \<and> chainCalls w' = chainCalls w @ [(k, ''submit_data'', args)]"
proof -
  let ?C = "\<lambda>c. \<exists>req t r. request_of key = Some req \<and> od_fetch d req t = Inr r \<and> \<not> unreliable r
     \<and> \<not> js_less (rd_confidence r) (getMinConfidence (od_number d) e) \<and> submits r c"
  have fetched: "fetchWithRetry g e s = (Inr (Some r), s') \<Longrightarrow> \<exists>t. g t = Inr r" for g s r s'
    by (auto simp: fetchWithRetry_def catch_def bind_def call_def ret_def await_def
        split: prod.splits sum.splits)
  have body: "calls_at_most e ?C (submit_reading d r)"
    if "request_of key = Some req" "od_fetch d req t = Inr r" for req t r
    using calls_submit_reading [of e r d] that unfolding calls_at_most_def by (elim all_forward imp_forward) blast+
  have "calls_at_most e ?C (processKey d key)"
    unfolding processKey_def
  proof (rule calls_catch)
    show "calls_at_most e ?C (case request_of key of None \<Rightarrow> ret no_metrics
        | Some req \<Rightarrow> bind (fetchWithRetry (od_fetch d req)) (\<lambda>reading.
            case reading of None \<Rightarrow> ret (no_metrics\<lparr>m_invalid := 1\<rparr>) | Some r \<Rightarrow> submit_reading d r))"
    proof (cases "request_of key")
      case None
      then show ?thesis by (simp add: calls_silent si.guar_ret)
    next
      case (Some req)
      have "calls_at_most e ?C (case reading of None \<Rightarrow> ret (no_metrics\<lparr>m_invalid := 1\<rparr>) | Some r \<Rightarrow> submit_reading d r)"
        if "fetchWithRetry (od_fetch d req) e s = (Inr reading, s')" for s reading s'
        using fetched [of "od_fetch d req" s _ s'] body Some that
        by (cases reading) (auto simp: calls_silent si.guar_ret)
      with Some show ?thesis by (simp add: calls_silent_bind [OF silent_readings(5)])
    qed
  qed (rule si.guar_ret)
  with assms show ?thesis unfolding calls_at_most_def silent_def by fastforce
qed

section \<open>Every insured key is polled\<close>

lemma coord_chars: "u \<in> rx_lang rx_coord \<Longrightarrow> list_all (\<lambda>c. is_digit c \<or> c = CHR ''-'' \<or> c = CHR ''.'') u"
  by (auto simp: rx_coord_def rx_opt_def rx_lang_plus_Cls list_all_iff)

lemma cut_append: "list_all (\<lambda>d. d \<noteq> c) u \<Longrightarrow> cut c (u @ c # t) = (u, t)"
  by (simp add: cut_def span_class [of "\<lambda>d. d \<noteq> c"])

lemma rainfall_polled:
  assumes "rx_test RAINFALL_KEY key"
  obtains lat lng ys ms where "key = ''rainfall:'' @ lat @ '','' @ lng @ '':'' @ ys @ ''-'' @ ms"
    "request_of key = Some (FetchRainfall lat lng (digits_val ys) (digits_val ms))"
    "length ys = 4" "1 \<le> digits_val ms" "digits_val ms \<le> 12"
proof -
  from assms obtain us where us: "key = concat us" "list_all2 (\<lambda>u r. u \<in> rx_lang r) us
      [rx_lit ''rainfall:'', rx_coord, rx_lit '','', rx_coord, rx_lit '':20'', rx_rep 2 (Cls is_digit), rx_lit ''-'', rx_month]"
    unfolding rx_test_lang RAINFALL_KEY_def rx_lang_seq_iff by blast
  then obtain lat lng yy mm where u: "us = [''rainfall:'', lat, '','', lng, '':20'', yy, ''-'', mm]"
    and coord: "lat \<in> rx_lang rx_coord" "lng \<in> rx_lang rx_coord"
    and yy: "length yy = 2" "list_all is_digit yy" and mm: "mm \<in> rx_lang rx_month"
    by (auto simp: list_all2_Cons2 rx_lang_rep_Cls)
  let ?ys = "''20'' @ yy"
  have key: "key = ''rainfall:'' @ lat @ '','' @ lng @ '':'' @ ?ys @ ''-'' @ mm" using us u by simp
  have "rx_test WORKER_RAINFALL_KEY key"
    unfolding rx_test_lang WORKER_RAINFALL_KEY_def rx_lang_seq_iff
    using yy rx_month_value [OF mm] coord
    by (intro exI [of _ "[''rainfall:'', lat, '','', lng, '':'', ?ys, ''-'', mm]"])
      (simp add: rx_lang_rep_Cls key is_digit_def)
  moreover have "cut (CHR '','') (lat @ CHR '','' # lng @ '':'' @ ?ys @ ''-'' @ mm) = (lat, lng @ '':'' @ ?ys @ ''-'' @ mm)"
    using coord_chars [OF coord(1)] by (intro cut_append) (auto simp: list_all_iff is_digit_def)
  moreover have "cut (CHR '':'') (lng @ CHR '':'' # ?ys @ ''-'' @ mm) = (lng, ?ys @ ''-'' @ mm)"
    using coord_chars [OF coord(2)] by (intro cut_append) (auto simp: list_all_iff is_digit_def)
  moreover have "cut (CHR ''-'') (?ys @ CHR ''-'' # mm) = (?ys, mm)"
    using yy(2) by (intro cut_append) (auto simp: list_all_iff is_digit_def)
  moreover have "drop 9 key = lat @ CHR '','' # lng @ '':'' @ ?ys @ ''-'' @ mm" "starts_with ''rainfall:'' key"
    by (simp_all add: key)
  ultimately have "request_of key = Some (FetchRainfall lat lng (digits_val ?ys) (digits_val mm))"
    by (simp add: request_of_def)
  with key yy rx_month_value [OF mm] show thesis by (intro that [of lat lng ?ys mm]) simp_all
qed

lemma flight_polled:
  assumes "rx_test FLIGHT_KEY key"
  obtains fl date where "key = ''flight:'' @ fl @ '':'' @ date" "request_of key = Some (FetchFlight fl date)"
proof -
  from assms obtain us where us: "key = concat us" "list_all2 (\<lambda>u r. u \<in> rx_lang r) us [rx_lit ''flight:'',
     rx_plus rx_upper_digit, rx_lit '':20'', rx_rep 2 (Cls is_digit), rx_lit ''-'', rx_month, rx_lit ''-'', rx_day]"
    unfolding rx_test_lang FLIGHT_KEY_def rx_lang_seq_iff rx_upper_digit_def by blast
  then obtain fl yy mm dd where u: "us = [''flight:'', fl, '':20'', yy, ''-'', mm, ''-'', dd]"
    and fl: "fl \<in> rx_lang (rx_plus rx_upper_digit)"
    and yy: "length yy = 2" "list_all is_digit yy" and mm: "mm \<in> rx_lang rx_month" and dd: "dd \<in> rx_lang rx_day"
    by (auto simp: list_all2_Cons2 rx_lang_rep_Cls)
  let ?date = "''20'' @ yy @ ''-'' @ mm @ ''-'' @ dd"
  have key: "key = ''flight:'' @ fl @ '':'' @ ?date" using us u by simp
  have "rx_test WORKER_FLIGHT_KEY key"
    unfolding rx_test_lang WORKER_FLIGHT_KEY_def rx_lang_seq_iff
    using yy rx_month_value [OF mm] rx_day_value [OF dd] fl
    by (intro exI [of _ "[''flight:'', fl, '':'', ''20'' @ yy, ''-'', mm, ''-'', dd]"])
      (simp add: rx_lang_rep_Cls key is_digit_def)
  moreover have "cut (CHR '':'') (fl @ CHR '':'' # ?date) = (fl, ?date)"
    using fl unfolding rx_upper_digit_def rx_lang_plus_Cls
    by (intro cut_append) (auto simp: list_all_iff is_digit_def)
  moreover have "drop 7 key = fl @ CHR '':'' # ?date" "starts_with ''flight:'' key"
    "\<not> starts_with ''rainfall:'' key"
    by (simp_all add: key)
  ultimately have "request_of key = Some (FetchFlight fl ?date)" by (simp add: request_of_def)
  with key show thesis by (intro that)
qed

text \<open>
  Every key that insures a crop or a flight is one the oracle worker can fetch: a key that
  \<^verbatim>\<open>validateOracleKey\<close> accepts for a crop product is split into the coordinates, the year and a
  month from 1 to 12 that it is made of, one for a flight product into the flight and its date.
\<close>

theorem validated_key_polled:
  assumes "validateOracleKey key product period = None"
  shows "(ps_category product = ''crop'' \<longrightarrow> (\<exists>lat lng ys ms.
       key = ''rainfall:'' @ lat @ '','' @ lng @ '':'' @ ys @ ''-'' @ ms
       \<and> request_of key = Some (FetchRainfall lat lng (digits_val ys) (digits_val ms))
       \<and> 1 \<le> digits_val ms \<and> digits_val ms \<le> 12))
     \<and> (ps_category product = ''flight'' \<longrightarrow> (\<exists>fl date.
       key = ''flight:'' @ fl @ '':'' @ date \<and> request_of key = Some (FetchFlight fl date)))"
proof (intro conjI impI)
  assume "ps_category product = ''crop''"
  with assms have "rx_test RAINFALL_KEY key" by (auto simp: validateOracleKey_def split: if_splits)
  then show "\<exists>lat lng ys ms. key = ''rainfall:'' @ lat @ '','' @ lng @ '':'' @ ys @ ''-'' @ ms
       \<and> request_of key = Some (FetchRainfall lat lng (digits_val ys) (digits_val ms))
       \<and> 1 \<le> digits_val ms \<and> digits_val ms \<le> 12"
    by (rule rainfall_polled) blast
next
  assume "ps_category product = ''flight''"
  with assms have "rx_test FLIGHT_KEY key" by (auto simp: validateOracleKey_def split: if_splits)
  then show "\<exists>fl date. key = ''flight:'' @ fl @ '':'' @ date \<and> request_of key = Some (FetchFlight fl date)"
    by (rule flight_polled) blast
qed

section \<open>Examples\<close>

definition sample_oracle :: oracle_deps where
  "sample_oracle = \<lparr>od_fetch = (\<lambda>req t. Inr rain_reading), od_number = (\<lambda>s. NaN), od_batchSize = 1,
     od_maxBufferSize = 1000, od_buffered = 0, od_flushed = (\<lambda>t. Inr ())\<rparr>"

definition oracle_env :: "(nat \<Rightarrow> exn option) \<Rightarrow> env" where
  "oracle_env fails = (quiet_env 1716000000000)\<lparr>e_dbfail := fails, e_config := (\<lambda>k.
     if k = ''ORACLE_VERIFIER_CONTRACT'' then Some ''CV'' else None)\<rparr>"

definition rain_world :: world where
  "rain_world = snd (snd (persistReading 1 1000 0 (\<lambda>t. Inr ()) rain_reading (oracle_env (\<lambda>n. None)) (0, empty_world)))"

lemma oracle_env_silent: "\<forall>k v. chainCalls (e_rely (oracle_env fs) k v) = chainCalls v"
  by (simp add: oracle_env_def quiet_env_def)

theorem processKey_reliable_witness:
  "\<exists>req t r k args. request_of (rd_key rain_reading) = Some req \<and> od_fetch sample_oracle req t = Inr r \<and> \<not> unreliable r
     \<and> \<not> js_less (rd_confidence r) (getMinConfidence (od_number sample_oracle) (oracle_env (\<lambda>n. None)))
     \<and> submit_args r = Inr args
     \<and> chainCalls (snd (snd (processKey sample_oracle (rd_key rain_reading) (oracle_env (\<lambda>n. None)) (0, empty_world))))
        = chainCalls empty_world @ [(k, ''submit_data'', args)]"
proof -
  let ?run = "processKey sample_oracle (rd_key rain_reading) (oracle_env (\<lambda>n. None)) (0, empty_world)"
  have run: "?run = (fst ?run, (fst (snd ?run), snd (snd ?run)))" by simp
  have "chainCalls (snd (snd ?run)) \<noteq> chainCalls empty_world" by code_simp
  from processKey_reliable [where e = "oracle_env (\<lambda>n. None)", OF oracle_env_silent run this] show ?thesis .
qed

theorem submission_claim_exclusive_witness:
  "let e = oracle_env (\<lambda>n. None); (ok, s1) = claimForOnChainSubmission rain_reading e (0, rain_world)
   in ok = Inr True
     \<and> fst (claimForOnChainSubmission (rain_reading\<lparr>rd_timestamp := js_int 1716000599\<rparr>) e s1) \<noteq> Inr True"
proof -
  let ?e = "oracle_env (\<lambda>n. None)" and ?r' = "rain_reading\<lparr>rd_timestamp := js_int 1716000599\<rparr>"
  let ?first = "claimForOnChainSubmission rain_reading ?e (0, rain_world)"
  let ?second = "claimForOnChainSubmission ?r' ?e (fst (snd ?first), snd (snd ?first))"
  have "readings_ok (oracleReadings rain_world)" "same_bucket rain_reading ?r'" and won: "fst ?first = Inr True"
    by code_simp+
  moreover have "\<forall>k v. rows_kept claimed_stays v (e_rely ?e k v)"
    using cs.kept_refl by (simp add: oracle_env_def quiet_env_def)
  moreover have "?first = (Inr True, (fst (snd ?first), snd (snd ?first)))" by (metis won prod.collapse)
  ultimately have "?second \<noteq> (Inr True, snd ?second)"
    using submission_claim_exclusive [where e = ?e and e' = ?e and r = rain_reading and r' = ?r' and w = rain_world
        and n = 0 and s' = "snd ?second"] cs.kept_refl by blast
  with won show ?thesis by (simp add: case_prod_beta Let_def) (metis prod.collapse)
qed

text \<open>
  A reading can be submitted twice: when the submission succeeds but recording its transaction hash
  fails, the error handler releases the claim as if nothing had been sent, and the next cycle
  submits the same reading again.
\<close>

theorem submission_repeated:
  "let (m1, s1) = processKey sample_oracle (rd_key rain_reading)
         (oracle_env (\<lambda>n. if n = 6 then Some (PrismaUnknown ''connection lost'') else None)) (0, empty_world);
       (m2, s2) = processKey sample_oracle (rd_key rain_reading) (oracle_env (\<lambda>n. None)) s1
   in m1 = Inr (no_metrics\<lparr>m_submitted := 1\<rparr>) \<and> m2 = Inr (no_metrics\<lparr>m_submitted := 1\<rparr>)
      \<and> length (chainCalls (snd s2)) = 2 \<and> chainCalls (snd s2) ! 0 = chainCalls (snd s2) ! 1"
  by code_simp

definition crop_summary :: ProductSummary where
  "crop_summary = \<lparr>ps_id = ''crop'', ps_name = ''Crop'', ps_category = ''crop'', ps_triggerType = ''Rainfall'',
     ps_threshold = ''50'', ps_comparison = ''LessThan'', ps_coverageMin = ''1'', ps_coverageMax = ''9'',
     ps_premiumRate = 500, ps_premiumRateVersion = 1, ps_maxDuration = 90, ps_status = PR_ACTIVE\<rparr>"

theorem validated_key_polled_witness:
  "\<exists>lat lng ys ms. rd_key rain_reading = ''rainfall:'' @ lat @ '','' @ lng @ '':'' @ ys @ ''-'' @ ms
     \<and> request_of (rd_key rain_reading) = Some (FetchRainfall lat lng (digits_val ys) (digits_val ms))
     \<and> 1 \<le> digits_val ms \<and> digits_val ms \<le> 12"
proof -
  have "validateOracleKey (rd_key rain_reading) crop_summary None = None" "ps_category crop_summary = ''crop''"
    by code_simp+
  with validated_key_polled show ?thesis by blast
qed

end
