(* ===== verification/Oracle_Buffer.thy ===== *)
theory Oracle_Buffer
  imports Oracle_Readings
begin

text \<open>
  The write buffer of \<^verbatim>\<open>src/oracle/oracle.service.ts\<close>: \<^verbatim>\<open>persistReading\<close> with a batch size above 1,
  \<^verbatim>\<open>flushBuffer\<close> and \<^verbatim>\<open>onApplicationShutdown\<close> as the steps of one process. A step is what runs
  between two suspensions, so steps do not overlap: an arriving reading, the flush timer, a batch
  whose statements have finished, a shutdown. A reading carries a ticket that stands for the promise
  its caller waits on; \<open>settled\<close> lists the tickets in the order in which they were resolved or
  rejected. What the statements of a batch report is \<open>Oracle_Readings.flush_batch\<close>.
\<close>

record oracle_buffer =
  ob_buffer :: "(nat \<times> Reading) list"
  ob_batch :: "(nat \<times> Reading) list"
  ob_timer :: bool
  ob_isFlushing :: bool
  ob_settled :: "(nat \<times> unit outcome) list"
  ob_accepted :: "nat list"

definition ob_init :: oracle_buffer where
  "ob_init = \<lparr>ob_buffer = [], ob_batch = [], ob_timer = False, ob_isFlushing = False, ob_settled = [], ob_accepted = []\<rparr>"

text \<open>The head of the loop: the next batch is cut off the buffer, or the loop ends.\<close>

definition next_batch :: "nat \<Rightarrow> oracle_buffer \<Rightarrow> oracle_buffer" where
  "next_batch batchSize s =
     (if ob_buffer s = [] then s\<lparr>ob_batch := [], ob_isFlushing := False\<rparr>
      else s\<lparr>ob_batch := take batchSize (ob_buffer s), ob_buffer := drop batchSize (ob_buffer s)\<rparr>)"

text \<open>\<^verbatim>\<open>flushBuffer\<close> up to its first suspension.\<close>

definition flushBuffer :: "nat \<Rightarrow> oracle_buffer \<Rightarrow> oracle_buffer" where
  "flushBuffer batchSize s0 =
     (let s = s0\<lparr>ob_timer := False\<rparr> in
      if ob_buffer s = [] \<or> ob_isFlushing s then s
      else next_batch batchSize (s\<lparr>ob_isFlushing := True\<rparr>))"

text \<open>The rest of an iteration, once the statements of the batch have reported: each waiting caller is told,
  and the loop goes on.\<close>

definition batch_done :: "nat \<Rightarrow> unit outcome list \<Rightarrow> oracle_buffer \<Rightarrow> oracle_buffer" where
  "batch_done batchSize results s =
     next_batch batchSize (s\<lparr>ob_settled := ob_settled s @ zip (map fst (ob_batch s)) results\<rparr>)"

text \<open>The buffered branch of \<^verbatim>\<open>persistReading\<close>; \<open>None\<close> is the refusal of a full buffer.\<close>

definition push_reading :: "nat \<Rightarrow> nat \<Rightarrow> nat \<Rightarrow> Reading \<Rightarrow> oracle_buffer \<Rightarrow> oracle_buffer option" where
  "push_reading batchSize maxBufferSize tick reading s0 =
     (if length (ob_buffer s0) \<ge> maxBufferSize then None
      else let s = s0\<lparr>ob_buffer := ob_buffer s0 @ [(tick, reading)], ob_accepted := ob_accepted s0 @ [tick]\<rparr> in
        if length (ob_buffer s) \<ge> batchSize then Some (flushBuffer batchSize s)
        else Some (s\<lparr>ob_timer := True\<rparr>))"

text \<open>The shutdown hook up to its first suspension; it then waits for the flush it started, if it started one.\<close>

definition onApplicationShutdown :: "nat \<Rightarrow> oracle_buffer \<Rightarrow> oracle_buffer" where
  "onApplicationShutdown batchSize s = flushBuffer batchSize (s\<lparr>ob_timer := False\<rparr>)"

inductive buffer_step :: "nat \<Rightarrow> nat \<Rightarrow> oracle_buffer \<Rightarrow> oracle_buffer \<Rightarrow> bool" for B M where
  push: "push_reading B M t r s = Some s' \<Longrightarrow> buffer_step B M s s'"
| timer: "ob_timer s \<Longrightarrow> buffer_step B M s (flushBuffer B s)"
| batch: "ob_isFlushing s \<Longrightarrow> length results = length (ob_batch s) \<Longrightarrow> buffer_step B M s (batch_done B results s)"
| shutdown: "buffer_step B M s (onApplicationShutdown B s)"

definition pending :: "oracle_buffer \<Rightarrow> nat list" where
  "pending s = map fst (ob_batch s) @ map fst (ob_buffer s)"

definition buffer_inv :: "nat \<Rightarrow> oracle_buffer \<Rightarrow> bool" where
  "buffer_inv M s \<longleftrightarrow> ob_accepted s = map fst (ob_settled s) @ pending s
     \<and> length (ob_buffer s) \<le> M
     \<and> (ob_buffer s \<noteq> [] \<longrightarrow> ob_timer s \<or> ob_isFlushing s)
     \<and> (ob_isFlushing s \<longleftrightarrow> ob_batch s \<noteq> [])"

lemma inv_next_batch:
  assumes "0 < B" and "ob_isFlushing s" and "ob_accepted s = map fst (ob_settled s) @ map fst (ob_buffer s)"
    and "length (ob_buffer s) \<le> M"
  shows "buffer_inv M (next_batch B s)"
  using assms by (auto simp: buffer_inv_def next_batch_def pending_def simp flip: map_append)

lemma inv_flush:
  assumes "0 < B" and "ob_accepted s = map fst (ob_settled s) @ pending s" and "length (ob_buffer s) \<le> M"
    and "ob_isFlushing s \<longleftrightarrow> ob_batch s \<noteq> []"
  shows "buffer_inv M (flushBuffer B s)"
proof (cases "ob_buffer s = [] \<or> ob_isFlushing s")
  case True
  with assms show ?thesis by (auto simp: flushBuffer_def buffer_inv_def pending_def)
next
  case False
  with assms have "ob_accepted s = map fst (ob_settled s) @ map fst (ob_buffer s)" by (simp add: pending_def)
  with False assms show ?thesis by (simp add: flushBuffer_def inv_next_batch)
qed

lemma inv_flush_keeps: "0 < B \<Longrightarrow> buffer_inv M s \<Longrightarrow> buffer_inv M (flushBuffer B s)"
  by (rule inv_flush) (simp_all add: buffer_inv_def)

lemma shutdown_flush: "onApplicationShutdown B s = flushBuffer B s"
  by (simp add: onApplicationShutdown_def flushBuffer_def)

lemma inv_push:
  assumes "0 < B" and "buffer_inv M s" and "push_reading B M t r s = Some s'"
  shows "buffer_inv M s'"
proof -
  let ?s = "s\<lparr>ob_buffer := ob_buffer s @ [(t, r)], ob_accepted := ob_accepted s @ [t]\<rparr>"
  from assms(3) have room: "length (ob_buffer s) < M" and
    s': "s' = (if length (ob_buffer ?s) \<ge> B then flushBuffer B ?s else ?s\<lparr>ob_timer := True\<rparr>)"
    by (auto simp: push_reading_def Let_def split: if_splits)
  from assms(2) room have facts: "ob_accepted ?s = map fst (ob_settled ?s) @ pending ?s" "length (ob_buffer ?s) \<le> M"
    "ob_isFlushing ?s \<longleftrightarrow> ob_batch ?s \<noteq> []"
    by (simp_all add: buffer_inv_def pending_def)
  show ?thesis
  proof (cases "length (ob_buffer ?s) \<ge> B")
    case True
    with s' inv_flush [OF assms(1) facts] show ?thesis by simp
  next
    case False
    with s' facts show ?thesis by (simp add: buffer_inv_def pending_def)
  qed
qed

lemma inv_batch_done:
  assumes "0 < B" and "buffer_inv M s" and "ob_isFlushing s" and "length results = length (ob_batch s)"
  shows "buffer_inv M (batch_done B results s)"
  using assms unfolding batch_done_def by (intro inv_next_batch) (auto simp: buffer_inv_def pending_def)

lemma buffer_reachable:
  "(buffer_step B M)\<^sup>*\<^sup>* ob_init s \<Longrightarrow> 0 < B \<Longrightarrow> buffer_inv M s"
proof (induction rule: rtranclp_induct)
  case base
  then show ?case by (simp add: buffer_inv_def ob_init_def pending_def)
next
  case (step s s')
  then have inv: "buffer_inv M s" by simp
  from step(2) show ?case
  proof (cases rule: buffer_step.cases)
    case (push t r)
    with inv step show ?thesis by (simp add: inv_push)
  next
    case timer
    with inv step show ?thesis by (simp add: inv_flush_keeps)
  next
    case (batch results)
    with inv step show ?thesis by (simp add: inv_batch_done)
  next
    case shutdown
    with inv step show ?thesis by (simp add: inv_flush_keeps shutdown_flush)
  qed
qed

text \<open>How long a flush still runs: every finished batch settles at least one reading.\<close>

lemma batch_progress:
  assumes "0 < B" and "buffer_inv M s" and "ob_isFlushing s" and "length results = length (ob_batch s)"
  shows "length (pending (batch_done B results s)) < length (pending s)"
proof -
  have "0 < length (ob_batch s)" using assms by (auto simp: buffer_inv_def)
  moreover have "min (length (ob_buffer s)) B + (length (ob_buffer s) - B) = length (ob_buffer s)" by simp
  ultimately show ?thesis by (simp add: batch_done_def next_batch_def pending_def)
qed

text \<open>One more batch of a running flush, with results chosen by \<open>res\<close>.\<close>

definition run_batch :: "nat \<Rightarrow> (oracle_buffer \<Rightarrow> unit outcome list) \<Rightarrow> oracle_buffer \<Rightarrow> oracle_buffer" where
  "run_batch B res s = (if ob_isFlushing s then batch_done B (res s) s else s)"

lemma flush_drains:
  assumes "0 < B" and "\<And>s. length (res s) = length (ob_batch s)"
  shows "buffer_inv M s \<Longrightarrow> ob_isFlushing s \<Longrightarrow> \<exists>n. pending ((run_batch B res ^^ n) s) = [] \<and> \<not> ob_isFlushing ((run_batch B res ^^ n) s)"
proof (induction "length (pending s)" arbitrary: s rule: less_induct)
  case less
  let ?s = "run_batch B res s"
  have inv: "buffer_inv M ?s" using less.prems assms by (simp add: run_batch_def inv_batch_done)
  have dec: "length (pending ?s) < length (pending s)"
    using batch_progress [OF assms(1) less.prems(1,2), of "res s"] less.prems assms by (simp add: run_batch_def)
  show ?case
  proof (cases "ob_isFlushing ?s")
    case True
    from less.hyps [OF dec inv True] obtain n where
      "pending ((run_batch B res ^^ n) ?s) = [] \<and> \<not> ob_isFlushing ((run_batch B res ^^ n) ?s)" by blast
    then show ?thesis by (intro exI [of _ "Suc n"]) (simp add: funpow_swap1)
  next
    case False
    with less.prems have "ob_buffer s = []" by (auto simp: run_batch_def batch_done_def next_batch_def split: if_splits)
    with False less.prems have "pending ?s = []"
      by (simp add: run_batch_def batch_done_def next_batch_def pending_def)
    with False show ?thesis by (intro exI [of _ "1"]) simp
  qed
qed

text \<open>
  C32. The write buffer loses nothing: in every state the buffer can reach, the readings it accepted are, in
  order, those already settled, those of the batch being written and those still waiting, so each
  caller is told exactly once and none is forgotten; the buffer never exceeds its capacity; waiting
  readings always have a timer or a running flush; and a running flush settles everything that
  waits, whatever its statements report, once no more readings arrive.
\<close>

theorem buffer_conserves:
  assumes reach: "(buffer_step B M)\<^sup>*\<^sup>* ob_init s" and "0 < B"
    and res: "\<forall>s. length (res s) = length (ob_batch s)"
  shows "ob_accepted s = map fst (ob_settled s) @ map fst (ob_batch s) @ map fst (ob_buffer s)
     \<and> length (ob_buffer s) \<le> M
     \<and> (ob_buffer s \<noteq> [] \<longrightarrow> ob_timer s \<or> ob_isFlushing s)
     \<and> (ob_isFlushing s \<longrightarrow> (\<exists>n. pending ((run_batch B res ^^ n) s) = []
          \<and> \<not> ob_isFlushing ((run_batch B res ^^ n) s)))"
proof -
  have inv: "buffer_inv M s" by (rule buffer_reachable [OF reach assms(2)])
  then show ?thesis
    using flush_drains [OF assms(2), of res M s] res by (auto simp: buffer_inv_def pending_def)
qed

definition two_pushed :: oracle_buffer where
  "two_pushed = the (push_reading 2 10 8 rain_reading (the (push_reading 2 10 7 rain_reading ob_init)))"

theorem buffer_conserves_witness:
  "ob_accepted two_pushed = [7, 8] \<and> ob_isFlushing two_pushed
   \<and> (\<exists>n. pending ((run_batch 2 (\<lambda>s. map (\<lambda>_. Inr ()) (ob_batch s)) ^^ n) two_pushed) = [])"
proof -
  let ?s1 = "the (push_reading 2 10 7 rain_reading ob_init)"
  have "push_reading 2 10 7 rain_reading ob_init = Some ?s1" by (simp add: push_reading_def ob_init_def Let_def)
  moreover have "push_reading 2 10 8 rain_reading ?s1 = Some two_pushed"
    by (simp add: two_pushed_def push_reading_def ob_init_def Let_def)
  ultimately have "(buffer_step 2 10)\<^sup>*\<^sup>* ob_init two_pushed"
    by (meson buffer_step.push converse_rtranclp_into_rtranclp rtranclp.rtrancl_refl)
  from buffer_conserves [OF this, of "\<lambda>s. map (\<lambda>_. Inr ()) (ob_batch s)"]
  show ?thesis
    by (auto simp: two_pushed_def push_reading_def ob_init_def Let_def flushBuffer_def next_batch_def)
qed

text \<open>A shutdown during a flush only disarms the timer: the hook returns at once, without waiting for the
  readings that are still being written or buffered.\<close>

lemma shutdown_during_flush:
  "ob_isFlushing s \<Longrightarrow> onApplicationShutdown B s = s\<lparr>ob_timer := False\<rparr>
     \<and> pending (onApplicationShutdown B s) = pending s"
  by (simp add: onApplicationShutdown_def flushBuffer_def pending_def)

end
