(* ===== verification/Distributed_Lock.thy ===== *)
theory Distributed_Lock
  imports Prelude
begin

text \<open>
  \<^verbatim>\<open>src/redis/distributed-lock.service.ts\<close>, the lock around the scheduled jobs. The Redis server is
  modelled by the commands the service sends: each runs atomically at the server's clock; the
  connection may be up, may lose the answer after the command has run, or may be down. The locale
  \<open>lock_service\<close> states what the jobs rely on; mutual exclusion follows from it.
\<close>

section \<open>The server\<close>

type_synonym redis = "string \<Rightarrow> (string \<times> int) option"

definition redis_get :: "int \<Rightarrow> redis \<Rightarrow> string \<Rightarrow> string option" where
  "redis_get t s key = (case s key of Some (v, expiresAt) \<Rightarrow> if t < expiresAt then Some v else None | None \<Rightarrow> None)"

text \<open>\<^verbatim>\<open>SET key value PX ttl NX\<close>: \<open>None\<close> is the error reply for an expiry that is not positive.\<close>

definition set_px_nx :: "int \<Rightarrow> string \<Rightarrow> string \<Rightarrow> int \<Rightarrow> redis \<Rightarrow> bool option \<times> redis" where
  "set_px_nx t key v ttlMs s =
     (if ttlMs \<le> 0 then (None, s)
      else if redis_get t s key = None then (Some True, s(key \<mapsto> (v, t + ttlMs)))
      else (Some False, s))"

definition COMPARE_AND_DELETE_LUA :: "int \<Rightarrow> string \<Rightarrow> string \<Rightarrow> redis \<Rightarrow> int \<times> redis" where
  "COMPARE_AND_DELETE_LUA t key arg s =
     (if redis_get t s key = Some arg then (1, s(key := None)) else (0, s))"

text \<open>\<^verbatim>\<open>PEXPIRE\<close> with an expiry that is not positive deletes the key.\<close>

definition RENEW_LOCK_LUA :: "int \<Rightarrow> string \<Rightarrow> string \<Rightarrow> int \<Rightarrow> redis \<Rightarrow> int \<times> redis" where
  "RENEW_LOCK_LUA t key arg ttlMs s =
     (if redis_get t s key = Some arg
      then (1, if ttlMs \<le> 0 then s(key := None) else s(key \<mapsto> (arg, t + ttlMs)))
      else (0, s))"

datatype net = Up | Lost | Down

text \<open>The answer and the new state, when a command is sent over a connection.\<close>

definition send :: "net \<Rightarrow> (redis \<Rightarrow> 'a \<times> redis) \<Rightarrow> redis \<Rightarrow> 'a option \<times> redis" where
  "send net cmd s = (case net of
     Down \<Rightarrow> (None, s)
   | Lost \<Rightarrow> (None, snd (cmd s))
   | Up \<Rightarrow> (Some (fst (cmd s)), snd (cmd s)))"

section \<open>The service\<close>

definition acquire :: "net \<Rightarrow> int \<Rightarrow> string \<Rightarrow> string \<Rightarrow> int \<Rightarrow> redis \<Rightarrow> string option \<times> redis" where
  "acquire net t token key ttlMs s =
     (case send net (set_px_nx t key token ttlMs) s of
        (Some (Some True), s') \<Rightarrow> (Some token, s')
      | (_, s') \<Rightarrow> (None, s'))"

definition release :: "net \<Rightarrow> int \<Rightarrow> string \<Rightarrow> string \<Rightarrow> redis \<Rightarrow> bool \<times> redis" where
  "release net t token key s =
     (case send net (COMPARE_AND_DELETE_LUA t key token) s of
        (Some n, s') \<Rightarrow> (n = 1, s')
      | (None, s') \<Rightarrow> (False, s'))"

definition renew :: "net \<Rightarrow> int \<Rightarrow> string \<Rightarrow> string \<Rightarrow> int \<Rightarrow> redis \<Rightarrow> bool \<times> redis" where
  "renew net t token key ttlMs s =
     (case send net (RENEW_LOCK_LUA t key token ttlMs) s of
        (Some n, s') \<Rightarrow> (n = 1, s')
      | (None, s') \<Rightarrow> (False, s'))"

text \<open>The pause between two heartbeats of \<^verbatim>\<open>runWithLock\<close>, if there are any.\<close>

definition heartbeat_interval :: "bool option \<Rightarrow> int option \<Rightarrow> int \<Rightarrow> int option" where
  "heartbeat_interval enableHeartbeat extendIntervalMs ttlMs =
     (let enabled = (case enableHeartbeat of None \<Rightarrow> True | Some b \<Rightarrow> b);
          interval = (case extendIntervalMs of None \<Rightarrow> ttlMs div 3 | Some i \<Rightarrow> i)
      in if enabled \<and> interval > 0 then Some interval else None)"

text \<open>
  The runs of \<^verbatim>\<open>runWithLock\<close> for one key, by all instances. A run is known by its token;
  \<open>running\<close> are those inside their task. \<open>lease\<close> is, for a token, the end of the period that the
  server last confirmed to its holder: bookkeeping that no instance keeps, used to state the claim.
\<close>

record 's lock_sys =
  now_at :: int
  server :: 's
  running :: "string set"
  issued :: "string set"
  lease :: "string \<Rightarrow> int"

inductive lock_step ::
    "(net \<Rightarrow> int \<Rightarrow> string \<Rightarrow> string \<Rightarrow> int \<Rightarrow> 's \<Rightarrow> string option \<times> 's)
     \<Rightarrow> (net \<Rightarrow> int \<Rightarrow> string \<Rightarrow> string \<Rightarrow> 's \<Rightarrow> bool \<times> 's)
     \<Rightarrow> (net \<Rightarrow> int \<Rightarrow> string \<Rightarrow> string \<Rightarrow> int \<Rightarrow> 's \<Rightarrow> bool \<times> 's)
     \<Rightarrow> string \<Rightarrow> int \<Rightarrow> 's lock_sys \<Rightarrow> 's lock_sys \<Rightarrow> bool"
  for acq rel ren key ttlMs where
  tick: "now_at \<sigma> \<le> t \<Longrightarrow> lock_step acq rel ren key ttlMs \<sigma> (\<sigma>\<lparr>now_at := t\<rparr>)"
| start: "token \<notin> issued \<sigma> \<Longrightarrow> acq net (now_at \<sigma>) token key ttlMs (server \<sigma>) = (Some token', s') \<Longrightarrow>
    lock_step acq rel ren key ttlMs \<sigma> (\<sigma>\<lparr>server := s', issued := insert token (issued \<sigma>),
      running := insert token' (running \<sigma>), lease := (lease \<sigma>)(token' := now_at \<sigma> + ttlMs)\<rparr>)"
| skip: "token \<notin> issued \<sigma> \<Longrightarrow> acq net (now_at \<sigma>) token key ttlMs (server \<sigma>) = (None, s') \<Longrightarrow>
    lock_step acq rel ren key ttlMs \<sigma> (\<sigma>\<lparr>server := s', issued := insert token (issued \<sigma>)\<rparr>)"
| heartbeat: "token \<in> issued \<sigma> \<Longrightarrow> ren net (now_at \<sigma>) token key ttlMs (server \<sigma>) = (renewed, s') \<Longrightarrow>
    lock_step acq rel ren key ttlMs \<sigma> (\<sigma>\<lparr>server := s',
      lease := (if renewed then (lease \<sigma>)(token := now_at \<sigma> + ttlMs) else lease \<sigma>)\<rparr>)"
| finish: "token \<in> running \<sigma> \<Longrightarrow> rel net (now_at \<sigma>) token key (server \<sigma>) = (released, s') \<Longrightarrow>
    lock_step acq rel ren key ttlMs \<sigma> (\<sigma>\<lparr>server := s', running := running \<sigma> - {token}\<rparr>)"

section \<open>The contract of the lock and what it gives\<close>

locale lock_service =
  fixes owner :: "int \<Rightarrow> 's \<Rightarrow> string \<Rightarrow> string option"
    and acq :: "net \<Rightarrow> int \<Rightarrow> string \<Rightarrow> string \<Rightarrow> int \<Rightarrow> 's \<Rightarrow> string option \<times> 's"
    and rel :: "net \<Rightarrow> int \<Rightarrow> string \<Rightarrow> string \<Rightarrow> 's \<Rightarrow> bool \<times> 's"
    and ren :: "net \<Rightarrow> int \<Rightarrow> string \<Rightarrow> string \<Rightarrow> int \<Rightarrow> 's \<Rightarrow> bool \<times> 's"
  assumes acq_excludes: "owner t s k = Some x \<Longrightarrow> acq net t tok k ttl s = (r, s') \<Longrightarrow>
      r = None \<and> (\<forall>t' \<ge> t. owner t' s' k = owner t' s k)"
    and acq_grants: "acq net t tok k ttl s = (Some tok', s') \<Longrightarrow>
      tok' = tok \<and> (\<forall>t' \<ge> t. t' < t + ttl \<longrightarrow> owner t' s' k = Some tok)"
    and ren_foreign: "owner t s k = Some x \<Longrightarrow> x \<noteq> tok \<Longrightarrow> ren net t tok k ttl s = (ok, s') \<Longrightarrow> t \<le> t' \<Longrightarrow>
      owner t' s' k = owner t' s k"
    and ren_own: "owner t' s k = Some tok \<Longrightarrow> ren net t tok k ttl s = (ok, s') \<Longrightarrow> t \<le> t' \<Longrightarrow> t' < t + ttl \<Longrightarrow>
      owner t' s' k = Some tok"
    and ren_grants: "ren net t tok k ttl s = (True, s') \<Longrightarrow> t \<le> t' \<Longrightarrow> t' < t + ttl \<Longrightarrow> owner t' s' k = Some tok"
    and rel_foreign: "owner t s k = Some x \<Longrightarrow> x \<noteq> tok \<Longrightarrow> rel net t tok k s = (ok, s') \<Longrightarrow> t \<le> t' \<Longrightarrow>
      owner t' s' k = owner t' s k"
begin

text \<open>A confirmed lease is honoured until it ends.\<close>

definition honoured :: "string \<Rightarrow> int \<Rightarrow> 's lock_sys \<Rightarrow> bool" where
  "honoured k ttl \<sigma> \<longleftrightarrow> running \<sigma> \<subseteq> issued \<sigma> \<and> (\<forall>tok. lease \<sigma> tok \<le> now_at \<sigma> + ttl)
     \<and> (\<forall>tok \<in> running \<sigma>. \<forall>t. now_at \<sigma> \<le> t \<and> t < lease \<sigma> tok \<longrightarrow> owner t (server \<sigma>) k = Some tok)"

lemma honoured_owner:
  "honoured k ttl \<sigma> \<Longrightarrow> tok \<in> running \<sigma> \<Longrightarrow> now_at \<sigma> < lease \<sigma> tok \<Longrightarrow> owner (now_at \<sigma>) (server \<sigma>) k = Some tok"
  by (auto simp: honoured_def)

lemma honoured_step:
  assumes "lock_step acq rel ren k ttl \<sigma> \<sigma>'" and h: "honoured k ttl \<sigma>"
  shows "honoured k ttl \<sigma>'"
  using assms(1)
proof (cases rule: lock_step.cases)
  case (tick t)
  have "lease \<sigma> tok \<le> t + ttl" for tok
    using h tick(2) unfolding honoured_def by (meson add_right_mono order_trans)
  with h tick show ?thesis by (auto simp: honoured_def)
next
  case (start token net token' s')
  have tok: "token' = token" and grant: "\<forall>t' \<ge> now_at \<sigma>. t' < now_at \<sigma> + ttl \<longrightarrow> owner t' s' k = Some token"
    using acq_grants [OF start(3)] by simp_all
  have none: "\<not> now_at \<sigma> < lease \<sigma> x" if "x \<in> running \<sigma>" for x
    using acq_excludes [OF honoured_owner [OF h that] start(3)] by auto
  have "owner t s' k = Some x"
    if "x \<in> insert token (running \<sigma>)" "now_at \<sigma> \<le> t" "t < ((lease \<sigma>)(token := now_at \<sigma> + ttl)) x" for x t
    using that none [of x] grant by (cases "x = token") auto
  with h show ?thesis by (auto simp: honoured_def start(1) tok)
next
  case (skip token net s')
  have "\<forall>t \<ge> now_at \<sigma>. owner t s' k = owner t (server \<sigma>) k" if "x \<in> running \<sigma>" "now_at \<sigma> < lease \<sigma> x" for x
    using acq_excludes [OF honoured_owner [OF h that] skip(3)] by simp
  with h show ?thesis unfolding skip(1) honoured_def by fastforce
next
  case (heartbeat token net renewed s')
  have other: "owner t s' k = owner t (server \<sigma>) k" if "x \<in> running \<sigma>" "x \<noteq> token" "now_at \<sigma> \<le> t" "t < lease \<sigma> x" for x t
    using ren_foreign [OF honoured_owner [OF h that(1)] that(2) heartbeat(3) that(3)] that by simp
  have own: "owner t s' k = Some token"
    if "token \<in> running \<sigma>" "now_at \<sigma> \<le> t" "t < (if renewed then now_at \<sigma> + ttl else lease \<sigma> token)" for t
  proof (cases renewed)
    case True
    with heartbeat(3) that show ?thesis by (auto intro!: ren_grants)
  next
    case False
    with that h have "owner t (server \<sigma>) k = Some token" "lease \<sigma> token \<le> now_at \<sigma> + ttl" "t < lease \<sigma> token"
      by (simp_all add: honoured_def)
    then have "owner t (server \<sigma>) k = Some token" "t < now_at \<sigma> + ttl" by simp_all
    with that heartbeat(3) ren_own show ?thesis by blast
  qed
  let ?lease = "if renewed then (lease \<sigma>)(token := now_at \<sigma> + ttl) else lease \<sigma>"
  have "owner t s' k = Some x" if x: "x \<in> running \<sigma>" and t: "now_at \<sigma> \<le> t" "t < ?lease x" for x t
  proof (cases "x = token")
    case True
    with x t own show ?thesis by (auto split: if_splits)
  next
    case False
    with t have "t < lease \<sigma> x" by (simp split: if_splits)
    with other [OF x False t(1)] h x t show ?thesis by (simp add: honoured_def)
  qed
  with h show ?thesis by (auto simp: honoured_def heartbeat(1))
next
  case (finish token net released s')
  have "owner t s' k = owner t (server \<sigma>) k" if "x \<in> running \<sigma>" "x \<noteq> token" "now_at \<sigma> \<le> t" "t < lease \<sigma> x" for x t
    using rel_foreign [OF honoured_owner [OF h that(1)] that(2) finish(3) that(3)] that by simp
  with h show ?thesis unfolding finish(1) honoured_def by auto
qed

lemma honoured_reachable:
  "(lock_step acq rel ren k ttl)\<^sup>*\<^sup>* \<sigma> \<sigma>' \<Longrightarrow> honoured k ttl \<sigma> \<Longrightarrow> honoured k ttl \<sigma>'"
  by (induction rule: rtranclp_induct) (auto intro: honoured_step)

text \<open>At most one run is inside its task with a lease that has not ended, and while there is one, no other
  run starts.\<close>

lemma exclusion:
  assumes "(lock_step acq rel ren k ttl)\<^sup>*\<^sup>* \<sigma> \<sigma>'" and "honoured k ttl \<sigma>"
    and "x \<in> running \<sigma>'" and "now_at \<sigma>' < lease \<sigma>' x"
  shows "y \<in> running \<sigma>' \<Longrightarrow> now_at \<sigma>' < lease \<sigma>' y \<Longrightarrow> y = x"
    and "fst (acq net (now_at \<sigma>') tok k ttl (server \<sigma>')) = None"
proof -
  have h: "honoured k ttl \<sigma>'" using assms honoured_reachable by blast
  note own = honoured_owner [OF h assms(3,4)]
  show "y = x" if "y \<in> running \<sigma>'" "now_at \<sigma>' < lease \<sigma>' y"
    using honoured_owner [OF h that] own by simp
  show "fst (acq net (now_at \<sigma>') tok k ttl (server \<sigma>')) = None"
    using acq_excludes [OF own, of net tok ttl] by (metis fst_conv prod.collapse)
qed

end

interpretation rl: lock_service redis_get acquire release renew
proof
  fix t t' ttl :: int and s s' :: redis and k x tok tok' :: string and net :: net and r and ok :: bool
  show "acquire net t tok k ttl s = (r, s') \<Longrightarrow> r = None \<and> (\<forall>t' \<ge> t. redis_get t' s' k = redis_get t' s k)"
    if "redis_get t s k = Some x"
    using that by (auto simp: acquire_def send_def set_px_nx_def split: net.splits if_splits)
  show "tok' = tok \<and> (\<forall>t' \<ge> t. t' < t + ttl \<longrightarrow> redis_get t' s' k = Some tok)"
    if "acquire net t tok k ttl s = (Some tok', s')"
    using that by (auto simp: acquire_def send_def set_px_nx_def redis_get_def split: net.splits if_splits)
  show "redis_get t' s' k = redis_get t' s k"
    if "redis_get t s k = Some x" "x \<noteq> tok" "renew net t tok k ttl s = (ok, s')" "t \<le> t'"
    using that by (auto simp: renew_def send_def RENEW_LOCK_LUA_def split: net.splits if_splits)
  show "redis_get t' s' k = Some tok"
    if "redis_get t' s k = Some tok" "renew net t tok k ttl s = (ok, s')" "t \<le> t'" "t' < t + ttl"
    using that by (auto simp: renew_def send_def RENEW_LOCK_LUA_def redis_get_def
        split: net.splits if_splits option.splits)
  show "redis_get t' s' k = Some tok"
    if "renew net t tok k ttl s = (True, s')" "t \<le> t'" "t' < t + ttl"
    using that by (auto simp: renew_def send_def RENEW_LOCK_LUA_def redis_get_def
        split: net.splits if_splits)
  show "redis_get t' s' k = redis_get t' s k"
    if "redis_get t s k = Some x" "x \<noteq> tok" "release net t tok k s = (ok, s')" "t \<le> t'"
    using that by (auto simp: release_def send_def COMPARE_AND_DELETE_LUA_def split: net.splits if_splits)
qed

section \<open>Exclusion of the scheduled jobs\<close>

abbreviation redis_step :: "string \<Rightarrow> int \<Rightarrow> redis lock_sys \<Rightarrow> redis lock_sys \<Rightarrow> bool" where
  "redis_step \<equiv> lock_step acquire release renew"

text \<open>No run yet; the server may hold anything under the key.\<close>

definition no_runs :: "int \<Rightarrow> redis \<Rightarrow> redis lock_sys" where
  "no_runs t s = \<lparr>now_at = t, server = s, running = {}, issued = {}, lease = (\<lambda>_. t)\<rparr>"

text \<open>
  C5. At most one instance runs a job at a time: in every state that the instances can reach by starting,
  skipping, renewing and finishing runs in any order, with any loss of connections and answers, no
  two runs are inside the task while the periods last confirmed to them by an acquire or a renewal
  have not ended, and during such a run every attempt to acquire the lock is refused.
\<close>

theorem lock_exclusion:
  assumes "0 \<le> ttlMs" and "(redis_step key ttlMs)\<^sup>*\<^sup>* (no_runs t s) \<sigma>"
    and "x \<in> running \<sigma>" and "now_at \<sigma> < lease \<sigma> x"
  shows "(y \<in> running \<sigma> \<and> now_at \<sigma> < lease \<sigma> y \<longrightarrow> y = x)
     \<and> fst (acquire net (now_at \<sigma>) token key ttlMs (server \<sigma>)) = None"
proof -
  have "rl.honoured key ttlMs (no_runs t s)" using assms(1) by (simp add: rl.honoured_def no_runs_def)
  from rl.exclusion [OF assms(2) this assms(3,4)] show ?thesis by blast
qed

text \<open>
  A job cannot release or prolong a lock that is not its own: whatever the connection does, a release or
  renewal with a token other than the stored one leaves the server as it was and reports failure.
\<close>

theorem foreign_token_powerless:
  assumes "redis_get t s key \<noteq> Some token"
  shows "release net t token key s = (False, s) \<and> renew net t token key ttlMs s = (False, s)"
  using assms by (cases net) (simp_all add: release_def renew_def send_def COMPARE_AND_DELETE_LUA_def RENEW_LOCK_LUA_def)

theorem foreign_token_powerless_witness:
  "let s = Map.empty(''lock:job'' \<mapsto> (''B'', 900000 :: int))
   in release Up 5 ''A'' ''lock:job'' s = (False, s) \<and> renew Lost 5 ''A'' ''lock:job'' 900000 s = (False, s)"
  using foreign_token_powerless [of 5 "Map.empty(''lock:job'' \<mapsto> (''B'', 900000 :: int))" "''lock:job''" "''A''"]
  by (simp add: Let_def redis_get_def)

theorem lock_exclusion_witness:
  "\<exists>\<sigma>. (redis_step ''lock:job'' 900000)\<^sup>*\<^sup>* (no_runs 0 Map.empty) \<sigma> \<and> ''A'' \<in> running \<sigma>
     \<and> (''B'' \<in> running \<sigma> \<and> now_at \<sigma> < lease \<sigma> ''B'' \<longrightarrow> ''B'' = ''A'')
     \<and> fst (acquire Up (now_at \<sigma>) ''B'' ''lock:job'' 900000 (server \<sigma>)) = None"
proof -
  let ?s = "Map.empty(''lock:job'' \<mapsto> (''A'', 900000 :: int))"
  have "acquire Up (now_at (no_runs 0 Map.empty)) ''A'' ''lock:job'' 900000 (server (no_runs 0 Map.empty)) = (Some ''A'', ?s)"
    by (simp add: acquire_def send_def set_px_nx_def redis_get_def no_runs_def)
  from lock_step.start [of "''A''" "no_runs 0 Map.empty" acquire Up "''lock:job''" 900000 "''A''" ?s release renew, OF _ this]
  obtain \<sigma> where step: "redis_step ''lock:job'' 900000 (no_runs 0 Map.empty) \<sigma>"
    and \<sigma>: "''A'' \<in> running \<sigma>" "now_at \<sigma> = 0" "lease \<sigma> ''A'' = 900000"
    by (simp add: no_runs_def)
  from step have reach: "(redis_step ''lock:job'' 900000)\<^sup>*\<^sup>* (no_runs 0 Map.empty) \<sigma>" by blast
  from lock_exclusion [OF _ reach \<sigma>(1)] \<sigma> reach show ?thesis by (intro exI [of _ \<sigma>]) simp
qed

end
