(* ===== verification/Policy_State_Cache.thy ===== *)
theory Policy_State_Cache
  imports Oracle_Readings Claim_Payout
begin

text \<open>
  \<^verbatim>\<open>src/claims/policy-state-cache.service.ts\<close>: the derived state of a policy, the part of it that
  depends on the time, and the two cache levels in front of it. The cache is modelled by the pieces
  of \<^verbatim>\<open>getDerivedPolicyState\<close> and of the invalidations that run between two suspensions; what the
  Redis level answers is the content it holds. The diagnostic counters are not modelled, nor is the
  transport of the invalidation messages: a received message is \<open>invalidateMemoryOnly\<close>.
\<close>

section \<open>The derived state\<close>

record TimeIndependentPolicyState =
  ti_policyId :: string
  ti_policyholder :: string
  ti_productId :: string
  ti_productName :: string
  ti_coverageXlm :: string
  ti_premiumPaid :: string
  ti_oracleKey :: string
  ti_rawStatus :: PolicyStatus
  ti_startTime :: int
  ti_endTime :: int
  ti_threshold :: string
  ti_comparison :: string
  ti_latestReadingValue :: "string option"
  ti_latestReadingTimestamp :: "int option"
  ti_triggerMet :: bool
  ti_claimsCount :: int
  ti_hasPaidClaim :: bool
  ti_hasInFlightClaim :: bool
  ti_activeClaimId :: "string option"
  ti_activeClaimStatus :: "ClaimStatus option"
  ti_cachedAt :: int

record DerivedPolicyState = TimeIndependentPolicyState +
  ds_isExpired :: bool
  ds_isPendingFinalPeriod :: bool
  ds_effectiveStatus :: PolicyStatus
  ds_canClaim :: bool
  ds_evaluationTimestamp :: int

definition applyTimeEvaluation :: "TimeIndependentPolicyState \<Rightarrow> int \<Rightarrow> DerivedPolicyState" where
  "applyTimeEvaluation state nowMs =
     (let isExpired = nowMs > ti_endTime state;
          isPendingFinalPeriod = nowMs < ti_endTime state;
          effectiveStatus = (if ti_rawStatus state = P_ACTIVE \<and> isExpired then P_EXPIRED else ti_rawStatus state);
          canClaim = (effectiveStatus = P_ACTIVE \<and> ti_triggerMet state \<and> \<not> ti_hasPaidClaim state
            \<and> \<not> ti_hasInFlightClaim state \<and> nowMs \<ge> ti_endTime state)
      in TimeIndependentPolicyState.extend state
           \<lparr>ds_isExpired = isExpired, ds_isPendingFinalPeriod = isPendingFinalPeriod,
            ds_effectiveStatus = effectiveStatus, ds_canClaim = canClaim, ds_evaluationTimestamp = nowMs\<rparr>)"

text \<open>The rows that one policy query brings: the policy, its product and its claims.\<close>

definition policy_with_claims :: "string \<Rightarrow> world \<Rightarrow> (Policy \<times> Product option \<times> Claim list) option" where
  "policy_with_claims policyId w =
     map_option (\<lambda>p. (p, product_findUnique (p_productId p) w, filter (\<lambda>c. c_policyId c = policyId) (claims w)))
       (policy_findUnique policyId w)"

definition reading_time :: "Reading \<Rightarrow> int" where
  "reading_time r = (case rd_bucketStart r of Some b \<Rightarrow> b | None \<Rightarrow> num_int (rd_timestamp r) * 1000)"

definition in_flight_claim :: "Claim \<Rightarrow> bool" where
  "in_flight_claim c \<longleftrightarrow> c_status c = C_PROCESSING \<or> c_status c = C_PENDING"

definition build_state :: "(int \<Rightarrow> string) \<Rightarrow> Policy \<Rightarrow> Product \<Rightarrow> Claim list \<Rightarrow> Reading option \<Rightarrow> bool \<Rightarrow> int
    \<Rightarrow> TimeIndependentPolicyState" where
  "build_state decStr policy pr cs reading triggerMet now =
     (let inFlightClaim = List.find in_flight_claim cs in
      \<lparr>ti_policyId = p_id policy, ti_policyholder = p_policyholder policy, ti_productId = p_productId policy,
       ti_productName = pr_name pr, ti_coverageXlm = decStr (p_coverageXlm policy),
       ti_premiumPaid = decStr (p_premiumPaid policy), ti_oracleKey = p_oracleKey policy,
       ti_rawStatus = p_status policy, ti_startTime = p_startTime policy, ti_endTime = p_endTime policy,
       ti_threshold = decStr (pr_threshold pr), ti_comparison = pr_comparison pr,
       ti_latestReadingValue = map_option rd_value reading, ti_latestReadingTimestamp = map_option reading_time reading,
       ti_triggerMet = triggerMet, ti_claimsCount = int (length cs),
       ti_hasPaidClaim = list_ex (\<lambda>c. c_status c = C_PAID) cs, ti_hasInFlightClaim = (inFlightClaim \<noteq> None),
       ti_activeClaimId = map_option c_id inFlightClaim, ti_activeClaimStatus = map_option c_status inFlightClaim,
       ti_cachedAt = now\<rparr>)"

definition computePolicyState :: "string \<Rightarrow> TimeIndependentPolicyState option act" where
  "computePolicyState policyId =
     bind (db (s_query (policy_with_claims policyId))) (\<lambda>found.
     case found of
       None \<Rightarrow> ret None
     | Some (policy, prodRow, cs) \<Rightarrow>
         (case prodRow of
            None \<Rightarrow> throw (PrismaUnknown ''Inconsistent query result'')
          | Some pr \<Rightarrow>
              bind (getLatestReading (p_oracleKey policy)) (\<lambda>reading.
              bind (asks e_decStr) (\<lambda>decStr.
              let thresholdBigInt = (case parseDecimalScaled (\<lambda>_. []) (VStr (decStr (pr_threshold pr))) DEFAULT_DECIMAL_SCALE
                    of Inl _ \<Rightarrow> 0 | Inr t \<Rightarrow> t) in
              bind (case reading of
                      None \<Rightarrow> ret False
                    | Some r \<Rightarrow>
                        bind (lift (parseFixedPointBigInt (\<lambda>_. []) (VStr (rd_value r)) DEFAULT_DECIMAL_SCALE)) (\<lambda>readingVal.
                        ret (compareScaledToThreshold readingVal thresholdBigInt (pr_comparison pr)))) (\<lambda>triggerMet.
              bind clock (\<lambda>now.
              ret (Some (build_state decStr policy pr cs reading triggerMet now))))))))"

section \<open>The cache\<close>

definition POLICY_DERIVED_STATE_TTL_MS :: int where
  "POLICY_DERIVED_STATE_TTL_MS = 60 * 1000"

definition IN_MEMORY_MAX_ENTRIES :: nat where
  "IN_MEMORY_MAX_ENTRIES = 2000"

record state_cache =
  sc_memory :: "(string \<times> TimeIndependentPolicyState \<times> int) list"
  sc_inFlight :: "string list"
  sc_redis :: "string \<rightharpoonup> TimeIndependentPolicyState \<times> int"

datatype lookup = JoinInFlight | Served TimeIndependentPolicyState | AskRedis

text \<open>The synchronous head of \<^verbatim>\<open>getDerivedPolicyState\<close> at clock \<open>t\<close>.\<close>

definition cache_lookup :: "string \<Rightarrow> int \<Rightarrow> state_cache \<Rightarrow> lookup" where
  "cache_lookup policyId t c =
     (if policyId \<in> set (sc_inFlight c) then JoinInFlight
      else case map_of (sc_memory c) policyId of
        Some (state, expiresAt) \<Rightarrow> if expiresAt > t then Served state else AskRedis
      | None \<Rightarrow> AskRedis)"

definition remember :: "string \<Rightarrow> TimeIndependentPolicyState \<Rightarrow> int \<Rightarrow> state_cache \<Rightarrow> state_cache" where
  "remember policyId state t c =
     c\<lparr>sc_memory := AList.update policyId (state, t + POLICY_DERIVED_STATE_TTL_MS) (sc_memory c)\<rparr>"

text \<open>The answer of Redis arrives: a hit is copied to memory and served, a miss starts a computation.\<close>

definition redis_entry :: "string \<Rightarrow> int \<Rightarrow> state_cache \<Rightarrow> TimeIndependentPolicyState option" where
  "redis_entry policyId t c =
     (case sc_redis c policyId of Some (state, expiresAt) \<Rightarrow> if t < expiresAt then Some state else None | None \<Rightarrow> None)"

definition redis_answered :: "string \<Rightarrow> TimeIndependentPolicyState option \<Rightarrow> int \<Rightarrow> state_cache
    \<Rightarrow> TimeIndependentPolicyState option \<times> state_cache" where
  "redis_answered policyId raw t c =
     (case raw of
        Some state \<Rightarrow> (Some state, remember policyId state t c)
      | None \<Rightarrow> (None, c\<lparr>sc_inFlight := List.insert policyId (sc_inFlight c)\<rparr>))"

text \<open>The computation ends with a state: it is put in memory, and \<^verbatim>\<open>finally\<close> the promise is dropped. The
  write to Redis is sent and executed later (\<open>redis_set\<close>).\<close>

definition computed :: "string \<Rightarrow> TimeIndependentPolicyState \<Rightarrow> int \<Rightarrow> state_cache \<Rightarrow> state_cache" where
  "computed policyId state t c0 =
     (let c = (if length (sc_memory c0) \<ge> IN_MEMORY_MAX_ENTRIES then c0\<lparr>sc_memory := []\<rparr> else c0);
          c' = remember policyId state t c
      in c'\<lparr>sc_inFlight := remove1 policyId (sc_inFlight c')\<rparr>)"

definition compute_failed :: "string \<Rightarrow> state_cache \<Rightarrow> state_cache" where
  "compute_failed policyId c = c\<lparr>sc_inFlight := remove1 policyId (sc_inFlight c)\<rparr>"

definition redis_set :: "string \<Rightarrow> TimeIndependentPolicyState \<Rightarrow> int \<Rightarrow> state_cache \<Rightarrow> state_cache" where
  "redis_set policyId state t c = c\<lparr>sc_redis := (sc_redis c)(policyId \<mapsto> (state, t + POLICY_DERIVED_STATE_TTL_MS))\<rparr>"

definition invalidateMemoryOnly :: "string \<Rightarrow> state_cache \<Rightarrow> state_cache" where
  "invalidateMemoryOnly policyId c =
     c\<lparr>sc_memory := AList.delete policyId (sc_memory c), sc_inFlight := remove1 policyId (sc_inFlight c)\<rparr>"

text \<open>\<^verbatim>\<open>invalidate\<close>: memory at once, then the key in Redis, which may be unreachable.\<close>

definition invalidate :: "bool \<Rightarrow> string \<Rightarrow> state_cache \<Rightarrow> state_cache" where
  "invalidate redisUp policyId c =
     (let c' = invalidateMemoryOnly policyId c in
      if redisUp then c'\<lparr>sc_redis := (sc_redis c')(policyId := None)\<rparr> else c')"

definition invalidateAll :: "bool \<Rightarrow> state_cache \<Rightarrow> state_cache" where
  "invalidateAll redisUp c =
     (let c' = c\<lparr>sc_memory := [], sc_inFlight := []\<rparr> in if redisUp then c'\<lparr>sc_redis := Map.empty\<rparr> else c')"

definition invalidateByOracleKey :: "bool \<Rightarrow> string \<Rightarrow> Policy list \<Rightarrow> state_cache \<Rightarrow> state_cache" where
  "invalidateByOracleKey redisUp oracleKey ps c =
     fold (\<lambda>p. invalidate redisUp (p_id p)) (filter (\<lambda>p. p_oracleKey p = oracleKey) ps) c"

text \<open>What a caller that joined a computation is given; a missing policy is dereferenced.\<close>

definition joined :: "TimeIndependentPolicyState option outcome \<Rightarrow> int \<Rightarrow> DerivedPolicyState outcome" where
  "joined result nowMs = (case result of
     Inl x \<Rightarrow> Inl x
   | Inr None \<Rightarrow> Inl (PlainError ''TypeError'')
   | Inr (Some state) \<Rightarrow> Inr (applyTimeEvaluation state nowMs))"

section \<open>When a claim is offered\<close>

text \<open>
  A claim is offered in exactly one millisecond: the derived state says that a policy can be claimed iff
  it is ACTIVE, its trigger is met, it has neither a paid nor an open claim, and the clock shows its
  end time to the millisecond; one millisecond later it counts as expired.
\<close>

theorem canClaim_iff:
  "ds_canClaim (applyTimeEvaluation st now) \<longleftrightarrow>
     ti_rawStatus st = P_ACTIVE \<and> ti_triggerMet st \<and> \<not> ti_hasPaidClaim st \<and> \<not> ti_hasInFlightClaim st
     \<and> now = ti_endTime st"
  by (auto simp: applyTimeEvaluation_def Let_def TimeIndependentPolicyState.defs)

section \<open>The computed state is the state of the tables\<close>

lemma parse_int_text: "parseFixedPointBigInt numStr (VStr (int_str v)) scale = Inr v"
proof -
  define ds where "ds = nat_str \<bar>v\<bar>"
  have ds: "ds \<noteq> []" "list_all is_digit ds" "digits_val ds = \<bar>v\<bar>" by (simp_all add: ds_def)
  let ?sg = "if v < 0 then ''-'' else []"
  have s: "int_str v = ?sg @ ds" by (simp add: int_str_def ds_def)
  have "list_all (\<lambda>c. \<not> is_space c) (int_str v)"
    using ds(2) by (auto simp: s list_all_iff is_digit_def is_space_def)
  then have trim: "trim (int_str v) = ?sg @ ds" by (simp add: trim_no_space s)
  have "?sg @ ds \<in> rx_lang (rx_seq [rx_opt (rx_any ''+-''), rx_plus rx_digit])"
    unfolding rx_lang_seq_iff rx_digit_def using ds
    by (intro exI [of _ "[?sg, ds]"]) (auto simp: rx_opt_def rx_any_def rx_lang_plus_Cls)
  moreover have "signed_val (?sg @ ds) = v"
    using take_sign_append [of ?sg ds] hd_digits_not_sign [OF ds(2)] ds(3) by (simp add: signed_val_def)
  ultimately show ?thesis by (simp add: trim rx_test_lang)
qed

lemma getLatestReading_quiet:
  assumes "quiet e" and "map_of (readingCache w) key = None"
  shows "\<exists>w'. getLatestReading key e (n, w) =
    (Inr (map_option reading_of (newest_reading (e_collation e) key w)), (Suc (Suc n), w'))"
  using assms
  by (simp add: getLatestReading_def bind_def gets_def ret_def asks_def db_def s_query_def quiet_def clock_def modify_def Let_def)

lemma rd_value_reading_of [simp]: "rd_value (reading_of row) = int_str (or_value row)"
  by (simp add: reading_of_def)

text \<open>The trigger as the cached reading shows it.\<close>

definition trigger_shown :: "Product \<Rightarrow> OracleReading option \<Rightarrow> bool" where
  "trigger_shown pr rd = (case rd of None \<Rightarrow> False | Some row \<Rightarrow> trigger_met pr row)"

text \<open>
  A freshly computed state tells the truth about the tables: without interference, for an existing policy
  whose product exists and whose latest reading is not cached, the computation succeeds and the
  state shows the policy's status and times, whether its claims include a paid or an open one, and
  a trigger that is met exactly when the newest reading for its key lies on the paying side of the
  product's threshold, compared exactly.
\<close>

theorem computePolicyState_faithful:
  assumes "quiet e" and "decimal_text e"
    and "policy_findUnique i w = Some p" and "product_findUnique (p_productId p) w = Some pr"
    and "map_of (readingCache w) (p_oracleKey p) = None"
  shows "\<exists>st s'. computePolicyState i e (n, w) = (Inr (Some st), s')
     \<and> ti_policyId st = p_id p \<and> ti_rawStatus st = p_status p \<and> ti_endTime st = p_endTime p
     \<and> (ti_hasPaidClaim st \<longleftrightarrow> (\<exists>c \<in> set (claims w). c_policyId c = i \<and> c_status c = C_PAID))
     \<and> (ti_hasInFlightClaim st \<longleftrightarrow> (\<exists>c \<in> set (claims w). c_policyId c = i \<and> non_terminal c))
     \<and> ti_triggerMet st = trigger_shown pr (newest_reading (e_collation e) (p_oracleKey p) w)"
proof -
  let ?rd = "newest_reading (e_collation e) (p_oracleKey p) w"
  let ?cs = "filter (\<lambda>c. c_policyId c = i) (claims w)"
  let ?st = "build_state (e_decStr e) p pr ?cs (map_option reading_of ?rd) (trigger_shown pr ?rd) (e_clock e (n + 3))"
  from assms(2) have thr: "parseDecimalScaled (\<lambda>_. []) (VStr (e_decStr e (pr_threshold pr))) DEFAULT_DECIMAL_SCALE
      = Inr (pr_threshold pr)"
    by (simp add: decimal_text_def)
  from getLatestReading_quiet [OF assms(1,5), of "Suc n"] obtain w' where
    rd: "getLatestReading (p_oracleKey p) e (Suc n, w) = (Inr (map_option reading_of ?rd), (Suc (Suc (Suc n)), w'))" by blast
  have query: "db (s_query (policy_with_claims i)) e (n, w) = (Inr (Some (p, Some pr, ?cs)), (Suc n, w))"
    using assms(1,3,4) by (simp add: db_def s_query_def quiet_def policy_with_claims_def)
  have "\<exists>s'. computePolicyState i e (n, w) = (Inr (Some ?st), s')"
    by (cases ?rd) (simp_all add: computePolicyState_def bind_def [of "db st" for st] query bind_def [of "getLatestReading k" for k] rd
        bind_def asks_def thr parse_int_text lift_def ret_def clock_def Let_def trigger_shown_def trigger_met_def
        compareScaledToThreshold_def eval_nat_numeral del: parseFixedPointBigInt.simps)
  moreover have "ti_hasInFlightClaim ?st \<longleftrightarrow> (\<exists>c \<in> set (claims w). c_policyId c = i \<and> non_terminal c)"
  proof -
    have "ti_hasInFlightClaim ?st \<longleftrightarrow> (\<exists>c \<in> set ?cs. in_flight_claim c)"
      unfolding build_state_def Let_def using find_None_iff [of in_flight_claim ?cs] by auto
    then show ?thesis by (auto simp: in_flight_claim_def non_terminal_def)
  qed
  ultimately show ?thesis
    by (intro exI [of _ ?st]) (auto simp: build_state_def Let_def list_ex_iff)
qed

section \<open>How old a served state can be\<close>

text \<open>
  Any order of lookups, answers, computations, writes and invalidations over time. \<open>D\<close> bounds the delay
  between the moment a state is stamped and the moments it is put in memory and written to Redis.
\<close>

inductive cache_step :: "int \<Rightarrow> int \<times> state_cache \<Rightarrow> int \<times> state_cache \<Rightarrow> bool" for D where
  pass: "t \<le> t' \<Longrightarrow> cache_step D (t, c) (t', c)"
| answer: "cache_step D (t, c) (t, snd (redis_answered i (redis_entry i t c) t c))"
| compute: "t \<le> ti_cachedAt st + D \<Longrightarrow> cache_step D (t, c) (t, computed i st t c)"
| failed: "cache_step D (t, c) (t, compute_failed i c)"
| redis_write: "t \<le> ti_cachedAt st + D \<Longrightarrow> cache_step D (t, c) (t, redis_set i st t c)"
| forget: "cache_step D (t, c) (t, invalidate up i c)"
| forget_message: "cache_step D (t, c) (t, invalidateMemoryOnly i c)"
| forget_all: "cache_step D (t, c) (t, invalidateAll up c)"

definition cache_ok :: "int \<Rightarrow> state_cache \<Rightarrow> bool" where
  "cache_ok D c \<longleftrightarrow>
     (\<forall>(i, st, ex) \<in> set (sc_memory c). ex \<le> ti_cachedAt st + D + 2 * POLICY_DERIVED_STATE_TTL_MS)
     \<and> (\<forall>i st ex. sc_redis c i = Some (st, ex) \<longrightarrow> ex \<le> ti_cachedAt st + D + POLICY_DERIVED_STATE_TTL_MS)"

lemma memory_update:
  "set (AList.update k v m) \<subseteq> insert (k, v) (set m)"
  by (induction m) auto

lemma memory_delete: "set (AList.delete k m) \<subseteq> set m"
  by (simp add: AList.delete_eq)

lemma cache_ok_remember:
  assumes "cache_ok D c" and "t + POLICY_DERIVED_STATE_TTL_MS \<le> ti_cachedAt st + D + 2 * POLICY_DERIVED_STATE_TTL_MS"
  shows "cache_ok D (remember i st t c)"
  using assms memory_update [of i "(st, t + POLICY_DERIVED_STATE_TTL_MS)" "sc_memory c"]
  by (auto simp: cache_ok_def remember_def)

lemma cache_ok_step: "cache_step D s s' \<Longrightarrow> cache_ok D (snd s) \<Longrightarrow> cache_ok D (snd s')"
proof (induction rule: cache_step.induct)
  case (answer t c i)
  have "cache_ok D (remember i st t c)" if "redis_entry i t c = Some st" for st
  proof -
    from that obtain ex where "sc_redis c i = Some (st, ex)" "t < ex"
      by (auto simp: redis_entry_def split: option.splits if_splits)
    with answer have "t < ti_cachedAt st + D + POLICY_DERIVED_STATE_TTL_MS" by (fastforce simp: cache_ok_def)
    with answer show ?thesis by (intro cache_ok_remember) simp_all
  qed
  moreover have "cache_ok D (c\<lparr>sc_inFlight := x\<rparr>)" for x using answer by (simp add: cache_ok_def)
  ultimately show ?case by (simp add: redis_answered_def split: option.split)
next
  case (compute t st c i)
  let ?c = "if length (sc_memory c) \<ge> IN_MEMORY_MAX_ENTRIES then c\<lparr>sc_memory := []\<rparr> else c"
  have "cache_ok D ?c" using compute by (simp add: cache_ok_def)
  moreover have "t + POLICY_DERIVED_STATE_TTL_MS \<le> ti_cachedAt st + D + 2 * POLICY_DERIVED_STATE_TTL_MS"
    using compute(1) by (simp add: POLICY_DERIVED_STATE_TTL_MS_def)
  ultimately have "cache_ok D (remember i st t ?c)" by (rule cache_ok_remember)
  then show ?case unfolding computed_def Let_def cache_ok_def by simp
next
  case (redis_write t st c i)
  then show ?case by (auto simp: cache_ok_def redis_set_def)
next
  case (forget t c up i)
  then show ?case using memory_delete [of i "sc_memory c"]
    by (auto simp: cache_ok_def invalidate_def invalidateMemoryOnly_def Let_def)
next
  case (forget_message t c i)
  then show ?case using memory_delete [of i "sc_memory c"] by (auto simp: cache_ok_def invalidateMemoryOnly_def)
qed (auto simp: cache_ok_def compute_failed_def invalidateAll_def Let_def)

lemma cache_ok_reachable:
  "(cache_step D)\<^sup>*\<^sup>* s s' \<Longrightarrow> cache_ok D (snd s) \<Longrightarrow> cache_ok D (snd s')"
  by (induction rule: rtranclp_induct) (auto intro: cache_ok_step)

definition empty_cache :: state_cache where
  "empty_cache = \<lparr>sc_memory = [], sc_inFlight = [], sc_redis = Map.empty\<rparr>"

text \<open>
  A served state is at most two minutes old, and not one: whatever the order of computations, writes,
  lookups and invalidations, a state that memory or Redis hands out was computed less than 120
  seconds (plus the delay of the writes) before. A hit in Redis restarts the 60 seconds in memory, so
  the single period of 60 seconds that the cache is configured with is not a bound.
\<close>

theorem served_state_age:
  assumes "(cache_step D)\<^sup>*\<^sup>* (t0, empty_cache) (t, c)"
    and "cache_lookup i t c = Served st \<or> redis_entry i t c = Some st"
  shows "t < ti_cachedAt st + D + 2 * POLICY_DERIVED_STATE_TTL_MS"
proof -
  from cache_ok_reachable [OF assms(1)] have ok: "cache_ok D c" by (simp add: cache_ok_def empty_cache_def)
  from assms(2) show ?thesis
  proof
    assume "cache_lookup i t c = Served st"
    then obtain ex where "map_of (sc_memory c) i = Some (st, ex)" "t < ex"
      by (auto simp: cache_lookup_def split: if_splits option.splits)
    with ok show ?thesis unfolding cache_ok_def by (fastforce dest: map_of_SomeD)
  next
    assume "redis_entry i t c = Some st"
    then obtain ex where "sc_redis c i = Some (st, ex)" "t < ex"
      by (auto simp: redis_entry_def split: option.splits if_splits)
    with ok have "t < ti_cachedAt st + D + POLICY_DERIVED_STATE_TTL_MS" unfolding cache_ok_def by fastforce
    then show ?thesis by (simp add: POLICY_DERIVED_STATE_TTL_MS_def)
  qed
qed

definition sample_state :: TimeIndependentPolicyState where
  "sample_state = build_state formatStroops sample_policy sample_row [] None False 0"

text \<open>The write to Redis at once, the hit in Redis 59.999 seconds later, the hit in memory another 59.999 later.\<close>

definition aged_cache :: state_cache where
  "aged_cache = remember ''p1'' sample_state 59999 (redis_set ''p1'' sample_state 0 empty_cache)"

theorem served_state_age_witness:
  "cache_lookup ''p1'' 119998 aged_cache = Served sample_state
   \<and> ti_cachedAt sample_state = 0 \<and> 119998 < ti_cachedAt sample_state + 0 + 2 * POLICY_DERIVED_STATE_TTL_MS"
proof -
  let ?c0 = "redis_set ''p1'' sample_state 0 empty_cache"
  have at: "ti_cachedAt sample_state = 0" by (simp add: sample_state_def build_state_def Let_def)
  have entry: "redis_entry ''p1'' 59999 ?c0 = Some sample_state"
    by (simp add: redis_entry_def redis_set_def POLICY_DERIVED_STATE_TTL_MS_def)
  then have "snd (redis_answered ''p1'' (redis_entry ''p1'' 59999 ?c0) 59999 ?c0) = aged_cache"
    by (simp add: redis_answered_def aged_cache_def)
  then have "cache_step 0 (59999, ?c0) (59999, aged_cache)" using cache_step.answer [of 0 59999 ?c0 "''p1''"] by simp
  moreover have "cache_step 0 (0, empty_cache) (0, ?c0)" "cache_step 0 (0, ?c0) (59999, ?c0)"
    "cache_step 0 (59999, aged_cache) (119998, aged_cache)"
    by (auto simp: at intro!: cache_step.intros)
  ultimately have "(cache_step 0)\<^sup>*\<^sup>* (0, empty_cache) (119998, aged_cache)" by (meson converse_rtranclp_into_rtranclp rtranclp.rtrancl_refl)
  moreover have "cache_lookup ''p1'' 119998 aged_cache = Served sample_state"
    by (simp add: cache_lookup_def aged_cache_def remember_def redis_set_def empty_cache_def POLICY_DERIVED_STATE_TTL_MS_def)
  ultimately show ?thesis using served_state_age [where D = 0 and c = aged_cache and t = 119998] at by blast
qed

text \<open>
  An invalidation does not reach a computation that is under way: when a state is computed from rows read
  before an invalidation and stored after it, every lookup of the next 60 seconds serves that state,
  although the policy was invalidated after it was read, and although both cache levels had been
  cleared.
\<close>

theorem invalidation_overtaken:
  assumes "t' < t + POLICY_DERIVED_STATE_TTL_MS" and "distinct (sc_inFlight c)"
  shows "cache_lookup i t' (computed i st t (invalidate True i (snd (redis_answered i None t0 c)))) = Served st"
proof -
  let ?c = "invalidate True i (snd (redis_answered i None t0 c))"
  have "i \<notin> set (remove1 i (sc_inFlight ?c))"
    using assms(2) by (auto simp: invalidate_def invalidateMemoryOnly_def redis_answered_def Let_def)
  with assms(1) show ?thesis
    by (auto simp: cache_lookup_def computed_def remember_def Let_def update_conv')
qed

theorem invalidation_overtaken_witness:
  "cache_lookup ''p1'' 1500 (computed ''p1'' sample_state 1000
     (invalidate True ''p1'' (snd (redis_answered ''p1'' None 900 empty_cache)))) = Served sample_state"
  by (rule invalidation_overtaken) (simp_all add: POLICY_DERIVED_STATE_TTL_MS_def empty_cache_def)

definition stored_policy :: world where
  "stored_policy = sample_world 400000000"

theorem computePolicyState_faithful_witness:
  "\<exists>st s'. computePolicyState ''p1'' (sample_env 1000) (0, stored_policy) = (Inr (Some st), s')
     \<and> ti_rawStatus st = P_ACTIVE \<and> ti_triggerMet st"
proof -
  have facts: "policy_findUnique ''p1'' stored_policy = Some sample_policy"
    "product_findUnique (p_productId sample_policy) stored_policy = Some sample_row"
    "map_of (readingCache stored_policy) (p_oracleKey sample_policy) = None"
    "trigger_shown sample_row (newest_reading (e_collation (sample_env 1000)) (p_oracleKey sample_policy) stored_policy)"
    "p_status sample_policy = P_ACTIVE"
    by code_simp+
  have env: "quiet (sample_env 1000)" "decimal_text (sample_env 1000)" using sample_env_facts by simp_all
  from computePolicyState_faithful [OF env facts(1-3), of 0] facts(4,5) show ?thesis by auto
qed

end
