(* ===== verification/Claim_History.thy ===== *)
theory Claim_History
  imports Policy_State_Cache "HOL-Library.Multiset"
begin

text \<open>
  The read paths of \<^verbatim>\<open>src/claims/claims.service.ts\<close>: the claim history of a wallet, by offset or by
  cursor, with the cached total, and the lookup of one claim.
\<close>

section \<open>Summaries\<close>

record ClaimSummary =
  cs_id :: string
  cs_policyId :: string
  cs_claimant :: string
  cs_coverageAmount :: string
  cs_payoutAmount :: "string option"
  cs_triggerMet :: bool
  cs_status :: ClaimStatus
  cs_submittedAt :: int
  cs_processedAt :: "int option"
  cs_txHash :: "string option"
  cs_createdAt :: int

definition claim_summary :: "(int \<Rightarrow> string) \<Rightarrow> Claim \<Rightarrow> ClaimSummary" where
  "claim_summary decStr c = \<lparr>cs_id = c_id c, cs_policyId = c_policyId c, cs_claimant = c_claimant c,
     cs_coverageAmount = decStr (c_coverageAmount c), cs_payoutAmount = map_option decStr (c_payoutAmount c),
     cs_triggerMet = c_triggerMet c, cs_status = c_status c, cs_submittedAt = c_submittedAt c div 1000,
     cs_processedAt = map_option (\<lambda>t. t div 1000) (c_processedAt c), cs_txHash = c_txHash c,
     cs_createdAt = c_createdAt c div 1000\<rparr>"

record HistoryPage =
  hp_data :: "ClaimSummary list"
  hp_total :: int
  hp_page :: int
  hp_limit :: int
  hp_nextCursor :: "string option"
  hp_hasMore :: bool

section \<open>The history of a wallet\<close>

definition CLAIM_COUNT_CACHE_TTL_MS :: int where
  "CLAIM_COUNT_CACHE_TTL_MS = 30000"

definition CLAIM_COUNT_CACHE_MAX_ENTRIES :: nat where
  "CLAIM_COUNT_CACHE_MAX_ENTRIES = 1000"

text \<open>Newest first, ties by descending id.\<close>

definition claims_of :: "(string \<Rightarrow> int) \<Rightarrow> string \<Rightarrow> world \<Rightarrow> Claim list" where
  "claims_of rank wallet w = sort_key (\<lambda>c. - c_submittedAt c) (sort_key (\<lambda>c. - rank (c_id c))
     (filter (\<lambda>c. c_claimant c = wallet) (claims w)))"

definition precedes :: "(string \<Rightarrow> int) \<Rightarrow> Claim \<Rightarrow> Claim \<Rightarrow> bool" where
  "precedes rank c d \<longleftrightarrow> c_submittedAt c > c_submittedAt d \<or> c_submittedAt c = c_submittedAt d \<and> rank (c_id c) > rank (c_id d)"

text \<open>A cursor starts the result at the position of its row in the order; an unknown id gives no rows.\<close>

definition history_rows :: "(string \<Rightarrow> int) \<Rightarrow> string \<Rightarrow> int \<Rightarrow> int \<Rightarrow> string option \<Rightarrow> world \<Rightarrow> Claim list" where
  "history_rows rank wallet page lmt cursor w =
     take (nat lmt + 1)
       (case cursor of
          None \<Rightarrow> drop (nat ((page - 1) * lmt)) (claims_of rank wallet w)
        | Some i \<Rightarrow> (case claim_findUnique i w of
            None \<Rightarrow> []
          | Some c \<Rightarrow> drop 1 (dropWhile (\<lambda>d. precedes rank d c) (claims_of rank wallet w))))"

text \<open>The rows, with the total: from the cache while it is fresh, else counted in the same transaction
  and cached; a full cache is cleared first.\<close>

definition remember_total :: "string \<Rightarrow> int \<Rightarrow> unit act" where
  "remember_total wallet tot =
     seq (modify (\<lambda>w. if length (claimCountCache w) \<ge> CLAIM_COUNT_CACHE_MAX_ENTRIES then w\<lparr>claimCountCache := []\<rparr> else w))
     (bind clock (\<lambda>t. modify (\<lambda>w. w\<lparr>claimCountCache :=
        AList.update wallet (tot, t + CLAIM_COUNT_CACHE_TTL_MS) (claimCountCache w)\<rparr>)))"

definition known_total :: "string \<Rightarrow> int option act" where
  "known_total wallet =
     bind (gets (\<lambda>w. map_of (claimCountCache w) wallet)) (\<lambda>cached.
     case cached of None \<Rightarrow> ret None
     | Some (tot, expiresAt) \<Rightarrow> bind clock (\<lambda>t. ret (if expiresAt > t then Some tot else None)))"

definition rows_and_total :: "(world \<Rightarrow> Claim list) \<Rightarrow> string \<Rightarrow> (Claim list \<times> int) act" where
  "rows_and_total findClaims wallet =
     bind (known_total wallet) (\<lambda>known.
     case known of
       Some tot \<Rightarrow> bind (db (s_query findClaims)) (\<lambda>rows. ret (rows, tot))
     | None \<Rightarrow>
         bind (db (s_query (\<lambda>w. (findClaims w, int (length (filter (\<lambda>c. c_claimant c = wallet) (claims w))))))) (\<lambda>r.
         seq (remember_total wallet (snd r)) (ret r)))"

text \<open>One row more than the page holds shows that there is a next page.\<close>

definition history_page :: "(int \<Rightarrow> string) \<Rightarrow> int \<Rightarrow> int \<Rightarrow> Claim list \<Rightarrow> int \<Rightarrow> HistoryPage" where
  "history_page decStr safePage safeLimit rows tot =
     (let hasMore = int (length rows) > safeLimit;
          paginatedClaims = (if hasMore then take (nat safeLimit) rows else rows)
      in \<lparr>hp_data = map (claim_summary decStr) paginatedClaims, hp_total = tot, hp_page = safePage, hp_limit = safeLimit,
          hp_nextCursor = (if hasMore \<and> paginatedClaims \<noteq> [] then Some (c_id (last paginatedClaims)) else None),
          hp_hasMore = hasMore\<rparr>)"

definition getClaimsByWallet :: "string \<Rightarrow> int \<Rightarrow> int \<Rightarrow> string option \<Rightarrow> HistoryPage act" where
  "getClaimsByWallet wallet page limit cursor0 =
     (let safePage = max 1 page; safeLimit = min (max 1 limit) 100;
          cursor = (if cursor0 = Some [] then None else cursor0) in
      bind (asks (\<lambda>e. (e_collation e, e_decStr e))) (\<lambda>(rank, decStr).
      bind (rows_and_total (history_rows rank wallet safePage safeLimit cursor) wallet) (\<lambda>(rows, tot).
      ret (history_page decStr safePage safeLimit rows tot))))"

section \<open>One claim\<close>

text \<open>The claim, its policy with the number of claims on it, and the derived state that the cache gives.\<close>

record ClaimDetails =
  cd_summary :: ClaimSummary
  cd_policy :: "PolicySummary option"
  cd_derived :: "DerivedPolicyState option"

definition getClaim :: "(string \<Rightarrow> DerivedPolicyState option act) option \<Rightarrow> string \<Rightarrow> ClaimDetails option act" where
  "getClaim policyStateCache claimId =
     bind (db (s_query (\<lambda>w. map_option (\<lambda>c. (c, map_option (\<lambda>p. (p, int (length (filter (\<lambda>d. c_policyId d = p_id p) (claims w)))))
             (policy_findUnique (c_policyId c) w))) (claim_findUnique claimId w)))) (\<lambda>found.
     case found of
       None \<Rightarrow> ret None
     | Some (claim, policy) \<Rightarrow>
         bind (case policyStateCache of None \<Rightarrow> ret None | Some cache \<Rightarrow> cache (c_policyId claim)) (\<lambda>derived.
         bind (asks e_decStr) (\<lambda>decStr.
         ret (Some \<lparr>cd_summary = claim_summary decStr claim,
                    cd_policy = map_option (\<lambda>(p, n). policySummary decStr p n) policy,
                    cd_derived = derived\<rparr>))))"

section \<open>The order of the history\<close>

text \<open>Sorting a list that is sorted by \<open>g\<close> by another key keeps \<open>g\<close> as the second key.\<close>

lemma insort_lex:
  fixes f :: "'a \<Rightarrow> 'b :: linorder" and g :: "'a \<Rightarrow> 'c :: linorder"
  assumes "sorted_wrt (\<lambda>a b. f a < f b \<or> f a = f b \<and> g a \<le> g b) xs" and "\<forall>y \<in> set xs. g x \<le> g y"
  shows "sorted_wrt (\<lambda>a b. f a < f b \<or> f a = f b \<and> g a \<le> g b) (insort_key f x xs)"
  using assms
proof (induction xs)
  case (Cons y ys)
  show ?case
  proof (cases "f x \<le> f y")
    case True
    with Cons.prems show ?thesis by (auto simp: order.order_iff_strict intro: order.strict_trans)
  next
    case False
    with Cons show ?thesis by (auto simp: set_insort_key)
  qed
qed simp

lemma sort_lex:
  fixes f :: "'a \<Rightarrow> 'b :: linorder" and g :: "'a \<Rightarrow> 'c :: linorder"
  shows "sorted_wrt (\<lambda>a b. f a < f b \<or> f a = f b \<and> g a \<le> g b) (sort_key f (sort_key g xs))"
proof -
  have "sorted_wrt (\<lambda>a b. g a \<le> g b) ys \<Longrightarrow>
      sorted_wrt (\<lambda>a b. f a < f b \<or> f a = f b \<and> g a \<le> g b) (sort_key f ys)" for ys
    by (induction ys) (auto intro!: insort_lex)
  moreover have "sorted_wrt (\<lambda>a b. g a \<le> g b) (sort_key g xs)"
    using sorted_sort_key [of g xs] by (simp add: sorted_wrt_map)
  ultimately show ?thesis .
qed

text \<open>Ids are unique, not empty, and the collation tells them apart.\<close>

definition ids_ranked :: "(string \<Rightarrow> int) \<Rightarrow> Claim list \<Rightarrow> bool" where
  "ids_ranked rank cs \<longleftrightarrow> distinct (map (\<lambda>c. rank (c_id c)) cs) \<and> (\<forall>c \<in> set cs. c_id c \<noteq> [])"

lemma ranked_ids: "ids_ranked rank cs \<Longrightarrow> distinct (map c_id cs)"
  unfolding ids_ranked_def distinct_map by (auto simp: inj_on_def)

lemma set_claims_of: "set (claims_of rank wallet w) = {c \<in> set (claims w). c_claimant c = wallet}"
  by (auto simp: claims_of_def)

lemma claims_of_ordered:
  assumes "ids_ranked rank (claims w)"
  shows "sorted_wrt (precedes rank) (claims_of rank wallet w)"
proof -
  let ?L = "claims_of rank wallet w"
  have "distinct (filter (\<lambda>c. c_claimant c = wallet) (claims w))"
    using assms by (simp add: ids_ranked_def distinct_map)
  then have dist: "distinct ?L" by (simp add: claims_of_def)
  have inj: "inj_on (\<lambda>c. rank (c_id c)) (set ?L)"
    using assms by (auto simp: ids_ranked_def distinct_map set_claims_of intro: inj_on_subset)
  have lex: "sorted_wrt (\<lambda>a b. - c_submittedAt a < - c_submittedAt b
      \<or> - c_submittedAt a = - c_submittedAt b \<and> - rank (c_id a) \<le> - rank (c_id b)) ?L"
    unfolding claims_of_def by (rule sort_lex)
  show ?thesis
    unfolding sorted_wrt_iff_nth_less
  proof (intro allI impI)
    fix i j assume ij: "i < j" "j < length ?L"
    then have "?L ! i \<noteq> ?L ! j" using dist by (simp add: nth_eq_iff_index_eq)
    then have "rank (c_id (?L ! i)) \<noteq> rank (c_id (?L ! j))" using inj ij by (auto dest: inj_onD)
    with lex ij show "precedes rank (?L ! i) (?L ! j)"
      unfolding sorted_wrt_iff_nth_less precedes_def by force
  qed
qed

lemma after_cursor:
  assumes "sorted_wrt (precedes rank) (A @ c # B)"
  shows "drop 1 (dropWhile (\<lambda>d. precedes rank d c) (A @ c # B)) = B"
proof -
  have "\<forall>a \<in> set A. precedes rank a c" using assms by (simp add: sorted_wrt_append)
  then have "dropWhile (\<lambda>d. precedes rank d c) (A @ c # B) = dropWhile (\<lambda>d. precedes rank d c) (c # B)"
    by (induction A) auto
  then show ?thesis by (simp add: precedes_def)
qed

text \<open>The cursor after the first \<open>k\<close> rows.\<close>

definition cursor_at :: "Claim list \<Rightarrow> nat \<Rightarrow> string option" where
  "cursor_at L k = (if k = 0 then None else Some (c_id (L ! (k - 1))))"

lemma history_rows_at:
  assumes ids: "ids_ranked rank (claims w)" and k: "k \<le> length (claims_of rank wallet w)"
  shows "history_rows rank wallet 1 lmt (cursor_at (claims_of rank wallet w) k) w
    = take (nat lmt + 1) (drop k (claims_of rank wallet w))"
proof (cases k)
  case 0
  then show ?thesis by (simp add: history_rows_def cursor_at_def)
next
  case (Suc j)
  let ?L = "claims_of rank wallet w"
  have j: "j < length ?L" using k Suc by simp
  then have "?L ! j \<in> set (claims w)" using nth_mem [OF j] set_claims_of by blast
  then have find: "claim_findUnique (c_id (?L ! j)) w = Some (?L ! j)"
    using find_distinct [OF ranked_ids [OF ids]] by (simp add: claim_findUnique_def)
  have split: "?L = take j ?L @ ?L ! j # drop (Suc j) ?L" using j by (rule id_take_nth_drop)
  have "drop 1 (dropWhile (\<lambda>d. precedes rank d (?L ! j)) ?L) = drop (Suc j) ?L"
    using after_cursor [of rank "take j ?L" "?L ! j" "drop (Suc j) ?L"] claims_of_ordered [OF ids, of wallet]
    unfolding split [symmetric] by simp
  with find Suc show ?thesis by (simp add: history_rows_def cursor_at_def)
qed

section \<open>Following the cursors\<close>

text \<open>What a client does: it asks for the next page until there is no cursor; \<open>None\<close> if it gives up first.\<close>

fun walk_history :: "nat \<Rightarrow> string \<Rightarrow> int \<Rightarrow> string option \<Rightarrow> ClaimSummary list option act" where
  "walk_history 0 wallet limit cursor = ret None"
| "walk_history (Suc pages) wallet limit cursor =
     bind (getClaimsByWallet wallet 1 limit cursor) (\<lambda>pg.
     case hp_nextCursor pg of
       None \<Rightarrow> ret (Some (hp_data pg))
     | Some c \<Rightarrow> bind (walk_history pages wallet limit (Some c)) (\<lambda>rest. ret (map_option (\<lambda>ds. hp_data pg @ ds) rest)))"

lemma rows_quiet:
  assumes "quiet e"
  shows "\<exists>tot n' w'. rows_and_total f wallet e (n, w) = (Inr (f w, tot), (n', w')) \<and> claims w' = claims w"
proof (cases "map_of (claimCountCache w) wallet")
  case None
  with assms show ?thesis
    by (simp add: rows_and_total_def known_total_def remember_total_def bind_def gets_def ret_def modify_def clock_def quiet_def
        db_def s_query_def)
next
  case (Some c)
  with assms show ?thesis
    by (cases c) (simp add: rows_and_total_def known_total_def remember_total_def bind_def gets_def ret_def modify_def clock_def
        quiet_def db_def s_query_def)
qed

lemma cursor_not_empty:
  assumes "ids_ranked rank (claims w)" and "k \<le> length (claims_of rank wallet w)"
  shows "cursor_at (claims_of rank wallet w) k \<noteq> Some []"
proof (cases k)
  case (Suc j)
  then have "claims_of rank wallet w ! j \<in> set (claims_of rank wallet w)" using assms(2) by simp
  then have "claims_of rank wallet w ! j \<in> set (claims w)" unfolding set_claims_of by simp
  with assms(1) Suc show ?thesis by (simp add: cursor_at_def ids_ranked_def)
qed (simp add: cursor_at_def)

lemma page_at:
  assumes "1 \<le> m" and "k \<le> length L"
  shows "hp_data (history_page decStr p (int m) (take (m + 1) (drop k L)) tot) = map (claim_summary decStr) (take m (drop k L))"
    and "hp_nextCursor (history_page decStr p (int m) (take (m + 1) (drop k L)) tot)
      = (if k + m < length L then cursor_at L (k + m) else None)"
proof -
  have last: "last (take m (drop k L)) = L ! (k + m - 1)" if "k + m < length L"
    using that assms(1) by (simp add: last_conv_nth min_def)
  show "hp_data (history_page decStr p (int m) (take (m + 1) (drop k L)) tot) = map (claim_summary decStr) (take m (drop k L))"
    by (auto simp: history_page_def Let_def min_def)
  show "hp_nextCursor (history_page decStr p (int m) (take (m + 1) (drop k L)) tot)
      = (if k + m < length L then cursor_at L (k + m) else None)"
    using last assms by (auto simp: history_page_def Let_def min_def cursor_at_def)
qed

definition page_size :: "int \<Rightarrow> nat" where
  "page_size limit = nat (min (max 1 limit) 100)"

lemma page_size: "1 \<le> page_size limit" "min (max 1 limit) 100 = int (page_size limit)"
  by (simp_all add: page_size_def)

lemma page_quiet:
  assumes "quiet e" and "ids_ranked (e_collation e) (claims w)" and "k \<le> length L"
    and L: "L = claims_of (e_collation e) wallet w"
  shows "\<exists>pg n' w'. getClaimsByWallet wallet 1 limit (cursor_at L k) e (n, w) = (Inr pg, (n', w')) \<and> claims w' = claims w
    \<and> hp_data pg = map (claim_summary (e_decStr e)) (take (page_size limit) (drop k L))
    \<and> hp_nextCursor pg = (if k + page_size limit < length L then cursor_at L (k + page_size limit) else None)"
proof -
  have k: "k \<le> length (claims_of (e_collation e) wallet w)" using assms(3) L by simp
  obtain tot n' w' where run: "rows_and_total (history_rows (e_collation e) wallet 1 (int (page_size limit)) (cursor_at L k)) wallet e (n, w)
      = (Inr (take (page_size limit + 1) (drop k L), tot), (n', w'))" and w': "claims w' = claims w"
    using rows_quiet [OF assms(1)] history_rows_at [OF assms(2) k, of "int (page_size limit)"] by (metis L nat_int)
  have "getClaimsByWallet wallet 1 limit (cursor_at L k) e (n, w)
      = (Inr (history_page (e_decStr e) 1 (int (page_size limit)) (take (page_size limit + 1) (drop k L)) tot), (n', w'))"
    using run cursor_not_empty [OF assms(2) k]
    by (simp add: getClaimsByWallet_def page_size(2) Let_def bind_def asks_def ret_def L)
  then show ?thesis by (intro exI conjI) (assumption | rule w' page_at [OF page_size(1) assms(3)])+
qed

lemma claims_of_cong: "claims w' = claims w \<Longrightarrow> claims_of rank wallet w' = claims_of rank wallet w"
  by (simp add: claims_of_def)

lemma walk_from:
  assumes "quiet e" and "ids_ranked (e_collation e) (claims w)" and "k \<le> length L" and "L = claims_of (e_collation e) wallet w"
    and "length L - k \<le> pages * page_size limit" and "1 \<le> pages"
  shows "\<exists>s. walk_history pages wallet limit (cursor_at L k) e (n, w) = (Inr (Some (map (claim_summary (e_decStr e)) (drop k L))), s)"
  using assms
proof (induction pages arbitrary: k n w)
  case (Suc pages)
  let ?z = "page_size limit"
  obtain pg n' w' where run: "getClaimsByWallet wallet 1 limit (cursor_at L k) e (n, w) = (Inr pg, (n', w'))"
    and w': "claims w' = claims w" and data: "hp_data pg = map (claim_summary (e_decStr e)) (take ?z (drop k L))"
    and nxt: "hp_nextCursor pg = (if k + ?z < length L then cursor_at L (k + ?z) else None)"
    using page_quiet [OF Suc.prems(1-4)] by blast
  show ?case
  proof (cases "k + ?z < length L")
    case True
    with Suc.prems(5) have "1 \<le> pages" by (cases pages) auto
    moreover have "length L - (k + ?z) \<le> pages * ?z" using Suc.prems(5) by simp
    moreover have "L = claims_of (e_collation e) wallet w'" using Suc.prems(4) claims_of_cong [OF w'] by simp
    ultimately obtain s where "walk_history pages wallet limit (cursor_at L (k + ?z)) e (n', w')
        = (Inr (Some (map (claim_summary (e_decStr e)) (drop (k + ?z) L))), s)"
      using Suc.IH [of w' "k + ?z" n'] Suc.prems(1,2) w' True by auto
    moreover have "take ?z (drop k L) @ drop (k + ?z) L = drop k L"
      using append_take_drop_id [of ?z "drop k L"] by (simp add: add.commute)
    ultimately show ?thesis
      using run data nxt True page_size(1) [of limit]
      by (simp add: bind_def ret_def cursor_at_def flip: map_append)
  next
    case False
    with run data nxt show ?thesis by (simp add: bind_def ret_def)
  qed
qed simp

text \<open>
  A client that asks for the first page of its claims and then follows \<^verbatim>\<open>nextCursor\<close> sees every claim of
  the wallet exactly once, newest first with ties by descending id, whatever page size it asks for (the code clamps it to
  1 to 100), as long as it may ask for enough pages; the walk then ends by itself. This holds also when claims were
  submitted in the same millisecond, and whether or not the total comes from the cache.
\<close>

theorem history_walk_complete:
  assumes "quiet e" and "ids_ranked (e_collation e) (claims w)" and "1 \<le> pages"
    and "length (filter (\<lambda>c. c_claimant c = wallet) (claims w)) \<le> pages * nat (min (max 1 limit) 100)"
  shows "\<exists>cs. fst (walk_history pages wallet limit None e (n, w)) = Inr (Some (map (claim_summary (e_decStr e)) cs))
    \<and> mset cs = mset (filter (\<lambda>c. c_claimant c = wallet) (claims w)) \<and> sorted_wrt (precedes (e_collation e)) cs"
proof -
  let ?L = "claims_of (e_collation e) wallet w"
  have ms: "mset ?L = mset (filter (\<lambda>c. c_claimant c = wallet) (claims w))" by (simp add: claims_of_def)
  then have "length ?L \<le> pages * page_size limit" using assms(4) by (metis page_size_def size_mset)
  then obtain s where "walk_history pages wallet limit (cursor_at ?L 0) e (n, w)
      = (Inr (Some (map (claim_summary (e_decStr e)) (drop 0 ?L))), s)"
    using walk_from [OF assms(1,2) _ refl, of 0 wallet pages limit n] assms(3) by auto
  then show ?thesis
    using ms claims_of_ordered [OF assms(2)] by (intro exI [of _ ?L]) (simp add: cursor_at_def)
qed

text \<open>Three claims of one wallet, two of them submitted together, read one per page.\<close>

definition history_claim :: "string \<Rightarrow> int \<Rightarrow> Claim" where
  "history_claim i t = \<lparr>c_id = i, c_policyId = ''p'', c_claimant = ''G1'', c_coverageAmount = 10, c_payoutAmount = None,
     c_triggerMet = False, c_status = C_REJECTED, c_txHash = None, c_submittedAt = t, c_processedAt = None, c_createdAt = t\<rparr>"

definition history_env :: env where
  "history_env = (quiet_env 0)\<lparr>e_collation := (\<lambda>s. case s of [] \<Rightarrow> 0 | c # cs \<Rightarrow> of_char c)\<rparr>"

definition history_world :: world where
  "history_world = empty_world\<lparr>claims := [history_claim ''a'' 1000, history_claim ''b'' 2000, history_claim ''c'' 1000]\<rparr>"

lemma history_world_ok: "quiet history_env" "ids_ranked (e_collation history_env) (claims history_world)"
    "length (filter (\<lambda>c. c_claimant c = ''G1'') (claims history_world)) = 3"
  by (simp_all add: quiet_def history_env_def quiet_env_def ids_ranked_def history_world_def history_claim_def empty_world_def)

theorem history_walk_complete_witness:
  "\<exists>cs. fst (walk_history 3 ''G1'' 1 None history_env (0, history_world))
      = Inr (Some (map (claim_summary (e_decStr history_env)) cs))
    \<and> mset cs = mset (filter (\<lambda>c. c_claimant c = ''G1'') (claims history_world))
    \<and> sorted_wrt (precedes (e_collation history_env)) cs"
  using history_walk_complete [OF history_world_ok(1,2), of 3 "''G1''" 1 0] history_world_ok(3) by simp

end
