(* ===== verification/Redis_Commands.thy ===== *)
theory Redis_Commands
  imports Concurrency "HOL-Library.AList"
begin

text \<open>
  The Redis commands that the authentication services and the middleware issue through their shared client.
  A command is atomic on the server: it sees the time of the server and all entries, and an entry whose expiry has
  come is treated as absent. Issued by a service it is an \<^verbatim>\<open>await\<close>: others run first, and the connection may
  fail (\<open>e_redisfail\<close>), in which case the command has no effect; an effect whose answer was lost is an effect of the
  others. The locale \<open>expiring_store\<close> is the contract that the clients rely on.
\<close>

section \<open>Commands\<close>

type_synonym kv = "(string \<times> redis_value \<times> int option) list"

type_synonym 'a command = "int \<Rightarrow> kv \<Rightarrow> 'a outcome \<times> kv"

definition kv_get :: "int \<Rightarrow> string \<Rightarrow> kv \<Rightarrow> redis_value option" where
  "kv_get t k kv = (case map_of kv k of
     None \<Rightarrow> None
   | Some (v, expiry) \<Rightarrow> (case expiry of None \<Rightarrow> Some v | Some x \<Rightarrow> if t < x then Some v else None))"

definition GET :: "string \<Rightarrow> redis_value option command" where
  "GET k t kv = (Inr (kv_get t k kv), kv)"

definition EXISTS :: "string \<Rightarrow> bool command" where
  "EXISTS k t kv = (Inr (kv_get t k kv \<noteq> None), kv)"

text \<open>A lifetime that is not a positive integer is refused; \<open>None\<close> is the argument NaN.\<close>

definition SET_PX :: "string \<Rightarrow> redis_value \<Rightarrow> int option \<Rightarrow> unit command" where
  "SET_PX k v ttl t kv = (case ttl of
     None \<Rightarrow> (Inl (PlainError ''ERR value is not an integer or out of range''), kv)
   | Some ms \<Rightarrow> if ms \<le> 0 then (Inl (PlainError ''ERR invalid expire time''), kv)
       else (Inr (), AList.update k (v, Some (t + ms)) kv))"

definition SET_EX :: "string \<Rightarrow> redis_value \<Rightarrow> int option \<Rightarrow> unit command" where
  "SET_EX k v ttl = SET_PX k v (map_option (\<lambda>s. s * 1000) ttl)"

text \<open>\<^verbatim>\<open>SET k v EX ttl NX\<close>: whether the key was set.\<close>

definition SET_NX_EX :: "string \<Rightarrow> redis_value \<Rightarrow> int \<Rightarrow> bool command" where
  "SET_NX_EX k v ttl t kv = (if kv_get t k kv \<noteq> None then (Inr False, kv)
     else (Inr True, AList.update k (v, Some (t + ttl * 1000)) kv))"

definition DEL :: "string \<Rightarrow> unit command" where
  "DEL k t kv = (Inr (), AList.delete k kv)"

definition GETDEL :: "string \<Rightarrow> redis_value option command" where
  "GETDEL k t kv = (Inr (kv_get t k kv), AList.delete k kv)"

text \<open>The integer a stored text spells, if any.\<close>

definition redis_int :: "redis_value \<Rightarrow> int option" where
  "redis_int v = (case v of
     RText s \<Rightarrow> (case parseInt10 s of Some n \<Rightarrow> if int_str n = s then Some n else None | None \<Rightarrow> None)
   | _ \<Rightarrow> None)"

definition INCR :: "string \<Rightarrow> int command" where
  "INCR k t kv = (case kv_get t k kv of
     None \<Rightarrow> (Inr 1, AList.update k (RText (int_str 1), None) kv)
   | Some v \<Rightarrow> (case redis_int v of
       None \<Rightarrow> (Inl (PlainError ''ERR value is not an integer or out of range''), kv)
     | Some n \<Rightarrow> if n + 1 > 9223372036854775807 then (Inl (PlainError ''ERR increment or decrement would overflow''), kv)
         else (Inr (n + 1), AList.update k (RText (int_str (n + 1)), case map_of kv k of Some (_, x) \<Rightarrow> x | None \<Rightarrow> None) kv)))"

definition EXPIRE :: "string \<Rightarrow> int option \<Rightarrow> unit command" where
  "EXPIRE k ttl t kv = (case ttl of
     None \<Rightarrow> (Inl (PlainError ''ERR value is not an integer or out of range''), kv)
   | Some s \<Rightarrow> (case kv_get t k kv of
       None \<Rightarrow> (Inr (), kv)
     | Some v \<Rightarrow> (Inr (), if s \<le> 0 then AList.delete k kv else AList.update k (v, Some (t + s * 1000)) kv)))"

text \<open>The compare-and-delete script.\<close>

definition DEL_IF :: "string \<Rightarrow> redis_value \<Rightarrow> unit command" where
  "DEL_IF k v t kv = (Inr (), if kv_get t k kv = Some v then AList.delete k kv else kv)"

section \<open>Issuing a command\<close>

definition redis :: "'a command \<Rightarrow> 'a act" where
  "redis cmd e s = (let w = e_rely e (fst s) (snd s) in
     case e_redisfail e (fst s) of
       Some x \<Rightarrow> (Inl x, (Suc (fst s), w))
     | None \<Rightarrow> (case cmd (e_clock e (fst s)) (redis_kv w) of
         (Inl x, _) \<Rightarrow> (Inl x, (Suc (fst s), w))
       | (Inr y, kv) \<Rightarrow> (Inr y, (Suc (fst s), w\<lparr>redis_kv := kv\<rparr>))))"

text \<open>\<^verbatim>\<open>crypto.randomUUID()\<close>.\<close>

definition randomUUID :: "string act" where
  "randomUUID e s = (Inr (e_uuid e (fst s)), (Suc (fst s), snd s))"

lemma redis_Inr [returns]:
  "redis cmd e s = (Inr y, s') \<longleftrightarrow> e_redisfail e (fst s) = None \<and>
     (\<exists>kv. cmd (e_clock e (fst s)) (redis_kv (e_rely e (fst s) (snd s))) = (Inr y, kv)
       \<and> s' = (Suc (fst s), (e_rely e (fst s) (snd s))\<lparr>redis_kv := kv\<rparr>))"
  by (auto simp: redis_def Let_def split: option.splits prod.splits sum.splits)

lemma randomUUID_Inr [returns]:
  "randomUUID e s = (Inr y, s') \<longleftrightarrow> y = e_uuid e (fst s) \<and> s' = (Suc (fst s), snd s)"
  by (auto simp: randomUUID_def)

lemma GET_Inr [returns]: "GET k t kv = (Inr y, kv') \<longleftrightarrow> y = kv_get t k kv \<and> kv' = kv"
  by (auto simp: GET_def)

lemma EXISTS_Inr [returns]: "EXISTS k t kv = (Inr y, kv') \<longleftrightarrow> y = (kv_get t k kv \<noteq> None) \<and> kv' = kv"
  by (auto simp: EXISTS_def)

lemma DEL_Inr [returns]: "DEL k t kv = (Inr y, kv') \<longleftrightarrow> kv' = AList.delete k kv"
  by (auto simp: DEL_def)

lemma GETDEL_Inr [returns]: "GETDEL k t kv = (Inr y, kv') \<longleftrightarrow> y = kv_get t k kv \<and> kv' = AList.delete k kv"
  by (auto simp: GETDEL_def)

lemma SET_EX_Inr [returns]:
  "SET_EX k v ttl t kv = (Inr y, kv') \<longleftrightarrow> (\<exists>s. ttl = Some s \<and> s > 0 \<and> kv' = AList.update k (v, Some (t + s * 1000)) kv)"
  by (auto simp: SET_EX_def SET_PX_def split: option.splits)

section \<open>Time passes\<close>

text \<open>No action goes back in time.\<close>

definition ticks :: "'a act \<Rightarrow> bool" where
  "ticks m \<longleftrightarrow> (\<forall>e s. fst s \<le> fst (snd (m e s)))"

lemma ticksD: "ticks m \<Longrightarrow> m e (n, w) = (r, (n', w')) \<Longrightarrow> n \<le> n'"
  unfolding ticks_def by (metis fst_conv snd_conv)

lemma ticks_basic: "ticks (ret x)" "ticks (throw err)" "ticks clock" "ticks (redis cmd)" "ticks (db st)"
  by (auto simp: ticks_def ret_def throw_def clock_def redis_def db_def Let_def split: option.splits prod.splits sum.splits)

lemma ticks_bind: "ticks m \<Longrightarrow> (\<And>x. ticks (f x)) \<Longrightarrow> ticks (bind m f)"
  unfolding ticks_def bind_def by (auto split: prod.splits sum.splits) (metis fst_conv le_trans snd_conv)+

lemma ticks_catch: "ticks m \<Longrightarrow> (\<And>x. ticks (h x)) \<Longrightarrow> ticks (catch m h)"
  unfolding ticks_def catch_def by (auto split: prod.splits sum.splits) (metis fst_conv le_trans snd_conv)+

lemmas ticks_rules = ticks_basic ticks_bind ticks_catch

section \<open>The contract of the store\<close>

text \<open>
  What a client may rely on: a value is found until its lifetime is over, a removed one is not, and an operation on one
  key does not touch another.
\<close>

locale expiring_store =
  fixes look :: "int \<Rightarrow> 'k \<Rightarrow> 's \<Rightarrow> 'v option"
    and put :: "'k \<Rightarrow> 'v \<Rightarrow> int \<Rightarrow> 's \<Rightarrow> 's"
    and remove :: "'k \<Rightarrow> 's \<Rightarrow> 's"
  assumes look_put: "look t k (put k v x s) = (if t < x then Some v else None)"
    and look_put_other: "k \<noteq> l \<Longrightarrow> look t l (put k v x s) = look t l s"
    and look_remove: "look t k (remove k s) = None"
    and look_remove_other: "k \<noteq> l \<Longrightarrow> look t l (remove k s) = look t l s"
    and look_fades: "t \<le> t' \<Longrightarrow> look t' k s = Some v \<Longrightarrow> look t k s = Some v"
begin

text \<open>A key that was absent stays absent until it is put again.\<close>

lemma absent_stays: "t \<le> t' \<Longrightarrow> look t k s = None \<Longrightarrow> look t' k s = None"
  using look_fades [of t t' k s] by (cases "look t' k s") auto

text \<open>What was put can be taken once: after its removal nothing is found, at any time.\<close>

lemma taken_once: "look t k (put k v x s) = Some v \<Longrightarrow> look t' k (remove k (put k v x s)) = None"
  by (rule look_remove)

lemma put_lives: "t < x \<Longrightarrow> look t k (put k v x s) = Some v"
  by (simp add: look_put)

end

interpretation rk: expiring_store kv_get "\<lambda>k v x. AList.update k (v, Some x)" AList.delete
proof unfold_locales
  fix t t' :: int and k :: string and s :: kv and v
  assume "t \<le> t'" and "kv_get t' k s = Some v"
  then show "kv_get t k s = Some v" by (auto simp: kv_get_def split: option.splits if_splits)
qed (simp_all add: kv_get_def update_conv' delete_conv')

section \<open>Guarantees of commands\<close>

text \<open>Orders that only look at the entries of one key.\<close>

definition command_within :: "(world \<Rightarrow> world \<Rightarrow> bool) \<Rightarrow> 'a command \<Rightarrow> bool" where
  "command_within R cmd \<longleftrightarrow> (\<forall>t w y kv. cmd t (redis_kv w) = (Inr y, kv) \<longrightarrow> R w (w\<lparr>redis_kv := kv\<rparr>))"

context world_order
begin

lemma guar_redis:
  assumes "command_within R cmd"
  shows "guarantees R (redis cmd)"
  unfolding guarantees_def
proof (intro allI impI)
  fix e :: env and s assume rely: "\<forall>n w. R w (e_rely e n w)"
  obtain r s' where run: "redis cmd e s = (r, s')" by (cases "redis cmd e s")
  let ?w = "e_rely e (fst s) (snd s)"
  have "snd s' = ?w \<or> (\<exists>y kv. cmd (e_clock e (fst s)) (redis_kv ?w) = (Inr y, kv) \<and> snd s' = ?w\<lparr>redis_kv := kv\<rparr>)"
    using run by (auto simp: redis_def Let_def split: option.splits prod.splits sum.splits)
  then have "R ?w (snd s')" using assms by (auto simp: command_within_def R_refl)
  moreover have "R (snd s) ?w" using rely by simp
  ultimately show "R (snd s) (snd (snd (redis cmd e s)))" using run R_trans by simp
qed

lemma guar_randomUUID: "guarantees R randomUUID"
  by (simp add: guarantees_def randomUUID_def R_refl)

end

text \<open>Nothing of the tables is changed by a command.\<close>

lemma command_silent: "command_within silent cmd"
  by (simp add: command_within_def silent_def)

lemma command_evolves: "command_within evolves cmd"
  by (simp add: command_within_def evolves_def policy_findUnique_def claim_findUnique_def)

lemma evolves_elsewhere:
  "policies v = policies w \<Longrightarrow> claims v = claims w \<Longrightarrow> auditLogs v = auditLogs w \<Longrightarrow> outbox v = outbox w \<Longrightarrow>
   chainCalls v = chainCalls w \<Longrightarrow> evolves w v"
  by (simp add: evolves_def policy_findUnique_def claim_findUnique_def)

lemmas evolves_requests = ev.guar ev.guar_redis ev.guar_randomUUID command_evolves

end
