(* ===== verification/Token_Service.thy ===== *)
theory Token_Service
  imports Redis_Commands
begin

text \<open>
  Access and refresh tokens, \<^verbatim>\<open>src/auth/jwt.service.ts\<close>. The library \<^verbatim>\<open>jsonwebtoken\<close> is a parameter:
  how it signs, verifies and decodes a token. What the theorems need of it is \<open>honest\<close>: a token that verifies
  is the token that is decoded, and it is not verified at or after its expiry.
\<close>

section \<open>Tokens\<close>

record JwtPayload =
  jp_walletAddress :: string
  jp_type :: "string option"
  jp_role :: "string option"
  jp_admin :: "bool option"
  jp_exp :: "int option"
  jp_jti :: "string option"
  jp_family :: "string option"

datatype jwt_error = TokenExpiredError | NotBeforeError | OtherJsonWebTokenError | OtherError

text \<open>\<^verbatim>\<open>instanceof JsonWebTokenError\<close>: the class of the two others in the library.\<close>

fun is_JsonWebTokenError :: "jwt_error \<Rightarrow> bool" where
  "is_JsonWebTokenError OtherError = False"
| "is_JsonWebTokenError _ = True"

record sign_options =
  so_expiresIn :: int
  so_issuer :: string
  so_audience :: string

text \<open>Signing takes the payload, the secret, the options and the time; verifying the token, the secret, issuer and
  audience, and the time.\<close>

record jwt_lib =
  jw_sign :: "JwtPayload \<Rightarrow> string \<Rightarrow> sign_options \<Rightarrow> int \<Rightarrow> string"
  jw_verify :: "string \<Rightarrow> string \<Rightarrow> string \<times> string \<Rightarrow> int \<Rightarrow> jwt_error + JwtPayload"
  jw_decode :: "string \<Rightarrow> JwtPayload option"

definition config_or :: "string \<Rightarrow> string \<Rightarrow> env \<Rightarrow> string" where
  "config_or name dflt e = (case e_config e name of
     Some s \<Rightarrow> if trim s \<noteq> [] then trim s else dflt | None \<Rightarrow> dflt)"

definition issuer :: "env \<Rightarrow> string" where
  "issuer = config_or ''JWT_ISSUER'' ''parashield-api''"

definition audience :: "env \<Rightarrow> string" where
  "audience = config_or ''JWT_AUDIENCE'' ''parashield-clients''"

definition secret :: "env \<Rightarrow> string" where
  "secret e = (case e_config e ''JWT_SECRET'' of Some s \<Rightarrow> s | None \<Rightarrow> [])"

definition verifyOptions :: "env \<Rightarrow> string \<times> string" where
  "verifyOptions e = (issuer e, audience e)"

definition jwt_sign :: "jwt_lib \<Rightarrow> JwtPayload \<Rightarrow> int \<Rightarrow> string act" where
  "jwt_sign lib payload expiresIn =
     bind (asks (\<lambda>e. (secret e, \<lparr>so_expiresIn = expiresIn, so_issuer = issuer e, so_audience = audience e\<rparr>))) (\<lambda>(key, options).
     bind clock (\<lambda>t. ret (jw_sign lib payload key options t)))"

definition sign :: "jwt_lib \<Rightarrow> string \<Rightarrow> string act" where
  "sign lib walletAddress =
     bind randomUUID (\<lambda>jti.
     jwt_sign lib \<lparr>jp_walletAddress = walletAddress, jp_type = Some ''access'', jp_role = None, jp_admin = None,
       jp_exp = None, jp_jti = Some jti, jp_family = None\<rparr> 3600)"

definition signWithRole :: "jwt_lib \<Rightarrow> string \<Rightarrow> string \<Rightarrow> bool \<Rightarrow> string act" where
  "signWithRole lib walletAddress role admin =
     bind randomUUID (\<lambda>jti.
     jwt_sign lib \<lparr>jp_walletAddress = walletAddress, jp_type = Some ''access'', jp_role = Some role, jp_admin = Some admin,
       jp_exp = None, jp_jti = Some jti, jp_family = None\<rparr> 3600)"

text \<open>The rejection of a refresh token is thrown inside the \<^verbatim>\<open>try\<close>, so the handler replaces its message.\<close>

definition verify :: "jwt_lib \<Rightarrow> string \<Rightarrow> JwtPayload act" where
  "verify lib token =
     bind (asks (\<lambda>e. (secret e, verifyOptions e))) (\<lambda>(key, options).
     bind clock (\<lambda>t.
     case jw_verify lib token key options t of
       Inl err \<Rightarrow> throw (UnauthorizedException
         (if err = TokenExpiredError then ''Token has expired''
          else if is_JsonWebTokenError err then ''Invalid token''
          else if err = NotBeforeError then ''Token not yet valid''
          else ''Token verification failed''))
     | Inr decoded \<Rightarrow>
         if jp_type decoded = Some ''refresh'' then throw (UnauthorizedException ''Token verification failed'')
         else ret \<lparr>jp_walletAddress = jp_walletAddress decoded, jp_type = jp_type decoded, jp_role = jp_role decoded,
                   jp_admin = jp_admin decoded, jp_exp = None, jp_jti = None, jp_family = None\<rparr>))"

text \<open>A missing or empty field is falsy.\<close>

definition present :: "string option \<Rightarrow> bool" where
  "present x \<longleftrightarrow> x \<noteq> None \<and> x \<noteq> Some []"

definition revoked_key :: "string \<Rightarrow> string" where
  "revoked_key jti = ''jwt:revoked:'' @ jti"

definition rotated_key :: "string \<Rightarrow> string" where
  "rotated_key jti = ''jwt:rotated:'' @ jti"

definition family_key :: "string \<Rightarrow> string" where
  "family_key family = ''jwt:family:revoked:'' @ family"

definition verifyAsync :: "jwt_lib \<Rightarrow> string \<Rightarrow> JwtPayload act" where
  "verifyAsync lib token =
     bind (verify lib token) (\<lambda>payload.
     case jw_decode lib token of
       None \<Rightarrow> throw (PlainError ''TypeError'')
     | Some decoded \<Rightarrow>
         if \<not> present (jp_jti decoded) then ret payload
         else bind (redis (EXISTS (revoked_key (the (jp_jti decoded))))) (\<lambda>revoked.
              if revoked then throw (UnauthorizedException ''Token has been revoked'') else ret payload))"

text \<open>The remaining seconds of a token, at least one.\<close>

definition seconds_left :: "int \<Rightarrow> int \<Rightarrow> int" where
  "seconds_left x t = max (x - t div 1000) 1"

definition revoke :: "jwt_lib \<Rightarrow> string \<Rightarrow> unit act" where
  "revoke lib token =
     (case jw_decode lib token of
        None \<Rightarrow> throw (UnauthorizedException ''Invalid token'')
      | Some decoded \<Rightarrow>
          if \<not> present (jp_jti decoded) \<or> jp_exp decoded = None \<or> jp_exp decoded = Some 0
          then throw (UnauthorizedException ''Invalid token'')
          else bind clock (\<lambda>t. redis (SET_EX (revoked_key (the (jp_jti decoded))) (RText ''1'')
                 (Some (seconds_left (the (jp_exp decoded)) t)))))"

definition signRefresh :: "jwt_lib \<Rightarrow> string \<Rightarrow> string option \<Rightarrow> string act" where
  "signRefresh lib walletAddress family =
     bind (case family of Some f \<Rightarrow> ret f | None \<Rightarrow> randomUUID) (\<lambda>tokenFamily.
     bind randomUUID (\<lambda>jti.
     jwt_sign lib \<lparr>jp_walletAddress = walletAddress, jp_type = Some ''refresh'', jp_role = None, jp_admin = None,
       jp_exp = None, jp_jti = Some jti, jp_family = Some tokenFamily\<rparr> 604800))"

definition invalidateFamily :: "string \<Rightarrow> unit act" where
  "invalidateFamily family = redis (SET_EX (family_key family) (RText ''1'') (Some (7 * 24 * 3600)))"

definition isFamilyRevoked :: "string \<Rightarrow> bool act" where
  "isFamilyRevoked family = redis (EXISTS (family_key family))"

definition rotateRefresh :: "jwt_lib \<Rightarrow> string \<Rightarrow> (string \<times> string) act" where
  "rotateRefresh lib oldToken =
     bind (asks (\<lambda>e. (secret e, verifyOptions e))) (\<lambda>(key, options).
     bind clock (\<lambda>t.
     case jw_verify lib oldToken key options t of
       Inl err \<Rightarrow> throw (UnauthorizedException ''Invalid refresh token'')
     | Inr decoded \<Rightarrow>
         if jp_type decoded \<noteq> Some ''refresh'' then throw (UnauthorizedException ''Not a refresh token'')
         else if \<not> present (jp_jti decoded) \<or> \<not> present (jp_family decoded)
         then throw (UnauthorizedException ''Invalid refresh token'')
         else
           bind (redis (EXISTS (rotated_key (the (jp_jti decoded))))) (\<lambda>wasRotated.
           if wasRotated
           then seq (invalidateFamily (the (jp_family decoded))) (throw (UnauthorizedException ''Refresh token reuse detected''))
           else
             bind clock (\<lambda>t2.
             seq (redis (SET_EX (rotated_key (the (jp_jti decoded))) (RText ''1'')
                    (map_option (\<lambda>x. seconds_left x t2) (jp_exp decoded))))
             (bind (sign lib (jp_walletAddress decoded)) (\<lambda>accessToken.
              bind (signRefresh lib (jp_walletAddress decoded) (jp_family decoded)) (\<lambda>refreshToken.
              ret (accessToken, refreshToken))))))))"

section \<open>Marks that last\<close>

text \<open>\<open>held k x\<close>: the key is set and lives at least until \<open>x\<close>.\<close>

definition held :: "string \<Rightarrow> int \<Rightarrow> world \<Rightarrow> bool" where
  "held k x w \<longleftrightarrow> (case map_of (redis_kv w) k of
     None \<Rightarrow> False | Some (_, None) \<Rightarrow> True | Some (_, Some y) \<Rightarrow> x \<le> y)"

definition keeps :: "string \<Rightarrow> int \<Rightarrow> world \<Rightarrow> world \<Rightarrow> bool" where
  "keeps k x w v \<longleftrightarrow> (held k x w \<longrightarrow> held k x v)"

interpretation kp: world_order "keeps k x" for k x
  by unfold_locales (auto simp: keeps_def)

lemma held_get: "held k x w \<Longrightarrow> t < x \<Longrightarrow> kv_get t k (redis_kv w) \<noteq> None"
  by (auto simp: held_def kv_get_def split: option.splits prod.splits)

lemma held_update: "held k x (w\<lparr>redis_kv := AList.update k (v, Some y) kv\<rparr>) \<longleftrightarrow> x \<le> y"
  by (simp add: held_def update_conv')

lemma held_update_other: "l \<noteq> k \<Longrightarrow> held k x (w\<lparr>redis_kv := AList.update l v kv\<rparr>) \<longleftrightarrow> held k x (w\<lparr>redis_kv := kv\<rparr>)"
  by (simp add: held_def update_conv')

lemma seconds_left_covers: "x * 1000 \<le> t + seconds_left x t' * 1000" if "t' \<le> t"
proof -
  have "x - t div 1000 \<le> seconds_left x t'" using zdiv_mono1 [OF that, of 1000] by (simp add: seconds_left_def)
  then have "x \<le> t div 1000 + seconds_left x t'" by simp
  then have "x * 1000 \<le> (t div 1000) * 1000 + seconds_left x t' * 1000" by linarith
  also have "(t div 1000) * 1000 \<le> t" by presburger
  finally show ?thesis by simp
qed

text \<open>What the service relies on from the library.\<close>

definition honest :: "jwt_lib \<Rightarrow> bool" where
  "honest lib \<longleftrightarrow> (\<forall>token key options t p. jw_verify lib token key options t = Inr p \<longrightarrow>
     jw_decode lib token = Some p \<and> (\<forall>x. jp_exp p = Some x \<longrightarrow> t div 1000 < x))"

lemma honestD: "honest lib \<Longrightarrow> jw_verify lib token key options t = Inr p \<Longrightarrow> jw_decode lib token = Some p"
  unfolding honest_def by blast

lemma held_stays:
  "held k x w \<Longrightarrow> \<forall>m v. keeps k x v (e_rely e m v) \<Longrightarrow> held k x (e_rely e n w)"
  by (auto simp: keeps_def)

lemma jwt_sign_world: "jwt_sign lib p d e (n, w) = (Inr r, (n', w')) \<Longrightarrow> w' = w"
  by (auto simp: jwt_sign_def returns)

lemma sign_world: "sign lib a e (n, w) = (Inr r, (n', w')) \<Longrightarrow> w' = w"
  by (auto simp: sign_def returns dest: jwt_sign_world)

lemma signRefresh_world: "signRefresh lib a (Some f) e (n, w) = (Inr r, (n', w')) \<Longrightarrow> w' = w"
  by (auto simp: signRefresh_def returns dest: jwt_sign_world)

section \<open>Revocation\<close>

text \<open>A revocation leaves a mark that outlives the token, and a token with that mark is refused until it has expired.\<close>

lemma revoke_marks:
  assumes "revoke lib token e (n, w) = (Inr (), (n1, w1))" and "jw_decode lib token = Some p" and "jp_jti p = Some j"
    and "jp_exp p = Some x" and "mono (e_clock e)"
  shows "held (revoked_key j) (x * 1000) w1"
proof -
  have "e_clock e n \<le> e_clock e (Suc n)" using assms(5) by (simp add: mono_def)
  then have "x * 1000 \<le> e_clock e (Suc n) + seconds_left x (e_clock e n) * 1000" by (rule seconds_left_covers)
  with assms show ?thesis by (auto simp: revoke_def returns held_update split: if_splits)
qed

theorem revoked_token_refused:
  assumes "honest lib" and "jw_decode lib token = Some p" and "jp_jti p = Some j" "j \<noteq> []" and "jp_exp p = Some x"
    and "held (revoked_key j) (x * 1000) w" and "\<forall>m v. keeps (revoked_key j) (x * 1000) v (e_rely e m v)"
    and "e_clock e (Suc n) < x * 1000"
  shows "\<exists>err. fst (verifyAsync lib token e (n, w)) = Inl err"
proof (rule ccontr)
  assume "\<nexists>err. fst (verifyAsync lib token e (n, w)) = Inl err"
  then obtain q n' w' where run: "verifyAsync lib token e (n, w) = (Inr q, (n', w'))"
    by (cases "verifyAsync lib token e (n, w)"; cases "fst (verifyAsync lib token e (n, w))") auto
  have "held (revoked_key j) (x * 1000) (e_rely e (Suc n) w)" using assms(6,7) by (rule held_stays)
  from held_get [OF this assms(8)] run assms(2-5) show False
    by (auto simp: verifyAsync_def verify_def returns present_def split: if_splits sum.splits)
qed

section \<open>Rotation\<close>

lemma rotate_marks:
  assumes run: "rotateRefresh lib token e (n, w) = (Inr pair, (n1, w1))" and "honest lib" and "jw_decode lib token = Some p"
    and "jp_jti p = Some j" and "jp_exp p = Some x" and "mono (e_clock e)"
  shows "held (rotated_key j) (x * 1000) w1"
proof -
  from run assms(2,3) have "jw_verify lib token (secret e) (verifyOptions e) (e_clock e n) = Inr p"
    by (auto simp: rotateRefresh_def returns split: sum.splits dest!: honestD)
  moreover have "e_clock e (Suc (Suc n)) \<le> e_clock e (Suc (Suc (Suc n)))" using assms(6) by (simp add: mono_def)
  ultimately show ?thesis
    using run assms(3-5) seconds_left_covers [of "e_clock e (Suc (Suc n))" "e_clock e (Suc (Suc (Suc n)))" x]
    by (auto simp: rotateRefresh_def returns present_def held_update split: if_splits
        dest!: sign_world signRefresh_world)
qed

text \<open>
  C13. A spent refresh token is refused: once a rotation of the token has returned, every rotation of the same token that starts later is
  refused until the token has expired, whatever other requests did in between short of removing the mark of the rotation. If Redis
  answers, the refusal reports the reuse and the family of the token is marked as revoked for seven days. Rotations that overlap are not
  covered: both can succeed.
\<close>

theorem spent_token_refused:
  assumes lib: "honest lib" and tok: "jw_decode lib token = Some p" "jp_jti p = Some j" "jp_family p = Some f" "jp_exp p = Some x"
    and clk: "mono (e_clock e)" and first: "rotateRefresh lib token e (n, w) = (Inr pair, (n1, w1))"
    and others: "keeps (rotated_key j) (x * 1000) w1 w2" "\<forall>m v. keeps (rotated_key j) (x * 1000) v (e_rely e m v)"
    and again: "rotateRefresh lib token e (n2, w2) = (r, (n3, w3))" and alive: "e_clock e (Suc n2) < x * 1000"
  shows "isl r \<and>
    (jw_verify lib token (secret e) (verifyOptions e) (e_clock e n2) = Inr p \<and> (\<forall>m. e_redisfail e m = None) \<longrightarrow>
      r = Inl (UnauthorizedException ''Refresh token reuse detected'')
      \<and> held (family_key f) (e_clock e n2 + 7 * 24 * 3600 * 1000) w3)"
proof -
  have "held (rotated_key j) (x * 1000) w1" by (rule rotate_marks [OF first lib tok(1,2,4) clk])
  then have "held (rotated_key j) (x * 1000) (e_rely e (Suc n2) w2)"
    using held_stays others by (simp add: keeps_def)
  from held_get [OF this alive] obtain v where
    v: "kv_get (e_clock e (Suc n2)) (rotated_key j) (redis_kv (e_rely e (Suc n2) w2)) = Some v" by blast
  have "isl r"
  proof (rule ccontr)
    assume "\<not> isl r"
    then obtain pr where r: "r = Inr pr" by (cases r) auto
    with again lib tok(1) have "jw_verify lib token (secret e) (verifyOptions e) (e_clock e n2) = Inr p"
      by (auto simp: rotateRefresh_def returns split: sum.splits dest!: honestD)
    with again r v tok show False
      by (auto simp: rotateRefresh_def returns present_def split: if_splits)
  qed
  moreover have "r = Inl (UnauthorizedException ''Refresh token reuse detected'')
      \<and> held (family_key f) (e_clock e n2 + 7 * 24 * 3600 * 1000) w3"
    if ver: "jw_verify lib token (secret e) (verifyOptions e) (e_clock e n2) = Inr p" and up: "\<forall>m. e_redisfail e m = None"
  proof -
    have present: "jp_type p = Some ''refresh'' \<and> present (jp_jti p) \<and> present (jp_family p)"
      using first lib tok(1) by (auto simp: rotateRefresh_def returns split: sum.splits if_splits dest!: honestD)
    have "e_clock e n2 \<le> e_clock e (Suc (Suc n2))" using clk by (simp add: mono_def)
    with again ver up v tok present show ?thesis
      by (auto simp: rotateRefresh_def bind_def asks_def clock_def redis_def EXISTS_def invalidateFamily_def SET_EX_def
          SET_PX_def throw_def Let_def held_update)
  qed
  ultimately show ?thesis by blast
qed

text \<open>A library that knows one refresh token, valid until second 1000; it is rotated at 5 seconds and replayed.\<close>

definition sample_payload :: JwtPayload where
  "sample_payload = \<lparr>jp_walletAddress = ''G1'', jp_type = Some ''refresh'', jp_role = None, jp_admin = None, jp_exp = Some 1000,
     jp_jti = Some ''j'', jp_family = Some ''f''\<rparr>"

definition sample_lib :: jwt_lib where
  "sample_lib = \<lparr>jw_sign = (\<lambda>p key opts t. case jp_jti p of Some j \<Rightarrow> j | None \<Rightarrow> []),
     jw_verify = (\<lambda>token key opts t. if token \<noteq> ''refresh'' then Inl OtherJsonWebTokenError
        else if t div 1000 < 1000 then Inr sample_payload else Inl TokenExpiredError),
     jw_decode = (\<lambda>token. if token = ''refresh'' then Some sample_payload else None)\<rparr>"

definition rotated_world :: world where
  "rotated_world = empty_world\<lparr>redis_kv := [(rotated_key ''j'', RText ''1'', Some 1000000)]\<rparr>"

lemma sample_honest: "honest sample_lib"
  by (auto simp: honest_def sample_lib_def sample_payload_def split: if_splits)

lemma sample_first:
  "rotateRefresh sample_lib ''refresh'' (quiet_env 5000) (0, empty_world) = 
     (Inr (e_uuid (quiet_env 5000) 4, e_uuid (quiet_env 5000) 6), (8, rotated_world))"
  by (simp add: rotateRefresh_def sign_def signRefresh_def jwt_sign_def bind_def asks_def clock_def ret_def randomUUID_def redis_def
      EXISTS_def SET_EX_def SET_PX_def kv_get_def sample_lib_def sample_payload_def present_def seconds_left_def quiet_env_def
      empty_world_def rotated_world_def)

theorem spent_token_refused_witness:
  "\<exists>s. rotateRefresh sample_lib ''refresh'' (quiet_env 5000) (8, rotated_world)
      = (Inl (UnauthorizedException ''Refresh token reuse detected''), s)
     \<and> held (family_key ''f'') 604805000 (snd s)"
proof -
  obtain r s where again: "rotateRefresh sample_lib ''refresh'' (quiet_env 5000) (8, rotated_world) = (r, s)"
    by (cases "rotateRefresh sample_lib ''refresh'' (quiet_env 5000) (8, rotated_world)")
  have "mono (e_clock (quiet_env 5000))" by (simp add: quiet_env_def mono_def)
  from spent_token_refused [OF sample_honest _ _ _ _ this sample_first, of sample_payload "''j''" "''f''" 1000 rotated_world 8 r "fst s" "snd s"]
    again show ?thesis
    by (simp add: keeps_def quiet_env_def sample_lib_def sample_payload_def)
qed

section \<open>What the rotation does not look at\<close>

text \<open>
  A rotation is decided by one read of the mark of its own token. It succeeds although the family of the token is revoked,
  and although another rotation of the same token completes right after that read.
\<close>

theorem rotation_decided_by_read:
  assumes "jw_verify lib token (secret e) (verifyOptions e) (e_clock e n) = Inr p" and "jp_type p = Some ''refresh''"
    and "jp_jti p = Some j" "j \<noteq> []" and "jp_family p = Some f" "f \<noteq> []" and "jp_exp p = Some x"
    and "\<forall>m. e_redisfail e m = None"
    and "kv_get (e_clock e (Suc n)) (rotated_key j) (redis_kv (e_rely e (Suc n) w)) = None"
  shows "\<exists>pair s. rotateRefresh lib token e (n, w) = (Inr pair, s)"
proof -
  have "0 < seconds_left x (e_clock e (Suc (Suc n)))" by (simp add: seconds_left_def)
  with assms show ?thesis
    by (simp add: rotateRefresh_def sign_def signRefresh_def jwt_sign_def bind_def asks_def clock_def ret_def randomUUID_def
        redis_def Let_def EXISTS_def SET_EX_def SET_PX_def present_def)
qed

theorem revoked_family_still_rotates:
  "\<exists>pair s. held (family_key ''f'') 604805000 (empty_world\<lparr>redis_kv := [(family_key ''f'', RText ''1'', Some 604805000)]\<rparr>)
     \<and> rotateRefresh sample_lib ''refresh'' (quiet_env 6000)
         (0, empty_world\<lparr>redis_kv := [(family_key ''f'', RText ''1'', Some 604805000)]\<rparr>) = (Inr pair, s)"
  using rotation_decided_by_read [of sample_lib "''refresh''" "quiet_env 6000" 0 sample_payload "''j''" "''f''" 1000
      "empty_world\<lparr>redis_kv := [(family_key ''f'', RText ''1'', Some 604805000)]\<rparr>"]
  by (simp add: sample_lib_def sample_payload_def quiet_env_def kv_get_def family_key_def rotated_key_def held_def)

end
