(* ===== verification/Wallet_Login.thy ===== *)
theory Wallet_Login
  imports Token_Service Regex
begin

text \<open>
  Login by wallet signature, \<^verbatim>\<open>src/auth/auth.controller.ts\<close> with the clean-up job of
  \<^verbatim>\<open>src/auth/auth-cleanup.worker.ts\<close>. Random nonces, the verification of a signature by the Stellar SDK and the token
  library are parameters.
\<close>

section \<open>Challenges\<close>

definition rx_base32 :: rx where
  "rx_base32 = Cls (\<lambda>c. (65 \<le> (of_char c :: int) \<and> (of_char c :: int) \<le> 90) \<or> (50 \<le> (of_char c :: int) \<and> (of_char c :: int) \<le> 55))"

definition WALLET_ADDRESS :: rx where
  "WALLET_ADDRESS = rx_seq [rx_lit ''G'', rx_rep 55 rx_base32]"

record auth_lib =
  al_jwt :: jwt_lib
  al_getdel :: bool
  al_randomHex :: "nat \<Rightarrow> string"
  al_sigValid :: "string \<Rightarrow> string \<Rightarrow> string \<Rightarrow> bool outcome"

text \<open>The text of a stored value, as the client returns it.\<close>

fun redis_text :: "redis_value \<Rightarrow> string" where
  "redis_text (RText s) = s"
| "redis_text (RResponse st body) = ''{\"status\":'' @ int_str st @ '',\"body\":'' @ body @ ''}''"
| "redis_text (RFailures c r) = ''{\"count\":'' @ int_str c @ '',\"resetAt\":'' @ int_str r @ ''}''"

definition nonce_key :: "string \<Rightarrow> string" where
  "nonce_key wallet = ''auth:nonce:'' @ wallet"

definition lockout_key :: "string \<Rightarrow> string" where
  "lockout_key wallet = ''auth:lockout:'' @ wallet"

text \<open>\<^verbatim>\<open>parseInt(config.get(name) ?? dflt, 10)\<close>.\<close>

definition config_int :: "string \<Rightarrow> string \<Rightarrow> env \<Rightarrow> int option" where
  "config_int name dflt e = parseInt10 (case e_config e name of Some s \<Rightarrow> s | None \<Rightarrow> dflt)"

definition challenge_find :: "string \<Rightarrow> world \<Rightarrow> AuthChallenge option" where
  "challenge_find wallet w = List.find (\<lambda>r. ch_walletAddress r = wallet) (authChallenges w)"

definition challenge_upsert :: "string \<Rightarrow> string \<Rightarrow> int \<Rightarrow> unit stmt" where
  "challenge_upsert wallet nonce expiresAt c w =
     (let row = \<lparr>ch_walletAddress = wallet, ch_nonce = nonce, ch_expiresAt = expiresAt, ch_createdAt = now_ms c\<rparr> in
      (Inr (), w\<lparr>authChallenges :=
         (if challenge_find wallet w = None then authChallenges w @ [row]
          else map (\<lambda>r. if ch_walletAddress r = wallet then row else r) (authChallenges w))\<rparr>))"

definition challenge_delete :: "string \<Rightarrow> unit stmt" where
  "challenge_delete wallet c w =
     (if challenge_find wallet w = None then (Inl (PrismaKnown ''P2025'' [] []), w)
      else (Inr (), w\<lparr>authChallenges := filter (\<lambda>r. ch_walletAddress r \<noteq> wallet) (authChallenges w)\<rparr>))"

definition randomHex :: "auth_lib \<Rightarrow> string act" where
  "randomHex lib e s = (Inr (al_randomHex lib (fst s)), (Suc (fst s), snd s))"

definition getChallenge :: "auth_lib \<Rightarrow> string option \<Rightarrow> string act" where
  "getChallenge lib wallet0 =
     (case wallet0 of
        None \<Rightarrow> throw (BadRequestException ''Invalid or missing Stellar wallet address'')
      | Some wallet \<Rightarrow>
          if \<not> rx_test WALLET_ADDRESS wallet then throw (BadRequestException ''Invalid or missing Stellar wallet address'')
          else
            bind (randomHex lib) (\<lambda>nonce.
            bind (asks (config_int ''AUTH_NONCE_TTL_SECONDS'' ''300'')) (\<lambda>ttl.
            seq (redis (SET_EX (nonce_key wallet) (RText nonce) ttl))
            (bind clock (\<lambda>t.
             seq (catch (db (challenge_upsert wallet nonce (t + the ttl * 1000))) (\<lambda>_. ret ()))
             (ret nonce))))))"

text \<open>GETDEL where the client has it, then the script, which does the same.\<close>

definition consumeNonce :: "auth_lib \<Rightarrow> string \<Rightarrow> string option act" where
  "consumeNonce lib wallet =
     bind (if al_getdel lib then catch (redis (GETDEL (nonce_key wallet))) (\<lambda>_. ret None) else ret None) (\<lambda>val.
     case val of
       Some v \<Rightarrow> ret (Some (redis_text v))
     | None \<Rightarrow> catch (bind (redis (GETDEL (nonce_key wallet))) (\<lambda>res. ret (map_option redis_text res))) (\<lambda>_. ret None))"

section \<open>Login\<close>

record WalletLoginDto =
  wl_walletAddress :: string
  wl_signature :: string
  wl_message :: string

abbreviation BadChallenge :: exn where
  "BadChallenge \<equiv> UnauthorizedException ''Invalid or expired authentication challenge''"

fun is_Unauthorized :: "exn \<Rightarrow> bool" where
  "is_Unauthorized (UnauthorizedException _) = True"
| "is_Unauthorized _ = False"

text \<open>The challenge of the database, deleted as it is read.\<close>

definition challenge_fallback :: "string \<Rightarrow> string option act" where
  "challenge_fallback wallet =
     catch (bind (db (s_query (challenge_find wallet))) (\<lambda>challenge.
       case challenge of
         None \<Rightarrow> ret None
       | Some ch \<Rightarrow>
           seq (catch (db (challenge_delete wallet)) (\<lambda>_. ret ()))
           (bind clock (\<lambda>t. ret (if ch_expiresAt ch \<ge> t then Some (ch_nonce ch) else None)))))
     (\<lambda>_. ret None)"

definition record_failure :: "string \<Rightarrow> unit act" where
  "record_failure wallet =
     bind (asks (config_int ''AUTH_LOCKOUT_DURATION_SECONDS'' ''900'')) (\<lambda>duration.
     bind (redis (INCR (lockout_key wallet))) (\<lambda>failures.
     if failures = 1 then redis (EXPIRE (lockout_key wallet) duration) else ret ()))"

definition check_signature :: "auth_lib \<Rightarrow> WalletLoginDto \<Rightarrow> unit act" where
  "check_signature lib dto =
     catch (bind (lift (al_sigValid lib (wl_walletAddress dto) (wl_message dto) (wl_signature dto))) (\<lambda>isValid.
       if isValid then ret () else seq (record_failure (wl_walletAddress dto)) (throw BadChallenge)))
     (\<lambda>err. if is_Unauthorized err then throw err else seq (record_failure (wl_walletAddress dto)) (throw BadChallenge))"

definition locked :: "redis_value option \<Rightarrow> int option \<Rightarrow> bool" where
  "locked lockoutCount maxFailedAttempts \<longleftrightarrow>
     (\<exists>v \<in> set_option lockoutCount. \<exists>c \<in> set_option (parseInt10 (redis_text v)). \<exists>m \<in> set_option maxFailedAttempts. c \<ge> m)"

definition login :: "auth_lib \<Rightarrow> WalletLoginDto \<Rightarrow> (string \<times> string) act" where
  "login lib dto =
     (let wallet = wl_walletAddress dto in
      if \<not> rx_test WALLET_ADDRESS wallet then throw BadChallenge
      else
        bind (redis (GET (lockout_key wallet))) (\<lambda>lockoutCount.
        bind (asks (config_int ''AUTH_MAX_FAILED_ATTEMPTS'' ''5'')) (\<lambda>maxFailedAttempts.
        if locked lockoutCount maxFailedAttempts
        then throw (UnauthorizedException ''Account temporarily locked due to repeated failed login attempts'')
        else
          bind (consumeNonce lib wallet) (\<lambda>fromRedis.
          bind (if present fromRedis then ret fromRedis else challenge_fallback wallet) (\<lambda>storedNonce.
          if \<not> present storedNonce then throw BadChallenge
          else if storedNonce \<noteq> Some (wl_message dto) then throw BadChallenge
          else
            seq (check_signature lib dto)
            (seq (redis (DEL (lockout_key wallet)))
            (bind (sign (al_jwt lib) wallet) (\<lambda>token. ret (token, wallet)))))))))"

definition cleanupExpiredChallenges :: "nat act" where
  "cleanupExpiredChallenges =
     bind clock (\<lambda>t. db (\<lambda>c w. (Inr (length (filter (\<lambda>r. ch_expiresAt r < t) (authChallenges w))),
       w\<lparr>authChallenges := filter (\<lambda>r. \<not> ch_expiresAt r < t) (authChallenges w)\<rparr>)))"

section \<open>Outstanding challenges\<close>

text \<open>A nonce is outstanding for a wallet at a time if Redis or the database holds it unexpired.\<close>

definition outstanding :: "int \<Rightarrow> string \<Rightarrow> string \<Rightarrow> world \<Rightarrow> bool" where
  "outstanding t wallet nonce w \<longleftrightarrow>
     (\<exists>v. kv_get t (nonce_key wallet) (redis_kv w) = Some v \<and> redis_text v = nonce)
     \<or> (\<exists>r \<in> set (authChallenges w). ch_walletAddress r = wallet \<and> ch_nonce r = nonce \<and> ch_expiresAt r \<ge> t)"

definition unissued :: "int \<Rightarrow> string \<Rightarrow> string \<Rightarrow> world \<Rightarrow> world \<Rightarrow> bool" where
  "unissued t wallet nonce w v \<longleftrightarrow> (outstanding t wallet nonce v \<longrightarrow> outstanding t wallet nonce w)"

interpretation un: world_order "unissued t wallet nonce" for t wallet nonce
  by unfold_locales (auto simp: unissued_def)

lemma outstanding_later: "t \<le> t' \<Longrightarrow> outstanding t' wallet nonce w \<Longrightarrow> outstanding t wallet nonce w"
  unfolding outstanding_def using rk.look_fades by fastforce

lemma other_key_unissued: "k \<noteq> nonce_key wallet \<Longrightarrow>
    (\<And>s. kv_get s (nonce_key wallet) kv = kv_get s (nonce_key wallet) (redis_kv w)) \<Longrightarrow>
    unissued t wallet nonce w (w\<lparr>redis_kv := kv\<rparr>)"
  by (simp add: unissued_def outstanding_def)

lemma within_GET: "command_within (unissued t wallet nonce) (GET k)"
  by (auto simp: command_within_def GET_def unissued_def)

lemma within_GETDEL: "command_within (unissued t wallet nonce) (GETDEL k)"
proof -
  have "unissued t wallet nonce w (w\<lparr>redis_kv := AList.delete k (redis_kv w)\<rparr>)" for w
    by (cases "k = nonce_key wallet") (auto simp: unissued_def outstanding_def rk.look_remove rk.look_remove_other)
  then show ?thesis by (auto simp: command_within_def GETDEL_def)
qed

lemma within_challenge_delete: "stmt_within (unissued t wallet nonce) (challenge_delete x)"
  by (auto simp: stmt_within_def challenge_delete_def unissued_def outstanding_def split: if_splits)

lemma guar_consumeNonce: "guarantees (unissued t wallet nonce) (consumeNonce lib x)"
  unfolding consumeNonce_def
  by (auto intro!: un.guar un.guar_redis within_GETDEL split: option.splits)

lemma guar_fallback: "guarantees (unissued t wallet nonce) (challenge_fallback x)"
  unfolding challenge_fallback_def
  by (auto intro!: un.guar within_challenge_delete split: option.splits)

text \<open>The stores only give out what is outstanding.\<close>

lemma getdel_outstanding:
  assumes "redis (GETDEL (nonce_key wallet)) e (n, w) = (Inr (Some v), s')" and "t \<le> e_clock e n"
    and "\<forall>m u. unissued t wallet (redis_text v) u (e_rely e m u)"
  shows "outstanding t wallet (redis_text v) w"
proof -
  have "kv_get (e_clock e n) (nonce_key wallet) (redis_kv (e_rely e n w)) = Some v"
    using assms(1) by (simp add: returns)
  then have "outstanding (e_clock e n) wallet (redis_text v) (e_rely e n w)" by (simp add: outstanding_def)
  with assms(2,3) show ?thesis unfolding unissued_def using outstanding_later by blast
qed

lemma ticks_consumeNonce: "ticks (consumeNonce lib wallet)"
  unfolding consumeNonce_def by (auto intro!: ticks_rules split: option.splits)

lemma db_tick: "db st e (n, w) = (r, (n', w')) \<Longrightarrow> n' = Suc n"
  by (auto simp: db_def Let_def split: option.splits prod.splits sum.splits)

lemma consumeNonce_outstanding:
  assumes run: "consumeNonce lib wallet e (n, w) = (Inr (Some nonce), (n', w'))" and clk: "\<forall>m \<ge> n. t \<le> e_clock e m"
    and rely: "\<forall>m u. unissued t wallet nonce u (e_rely e m u)"
  shows "outstanding t wallet nonce w"
proof -
  let ?first = "if al_getdel lib then catch (redis (GETDEL (nonce_key wallet))) (\<lambda>_. ret None) else ret None"
  from run obtain val n1 w1 where first: "?first e (n, w) = (Inr val, (n1, w1))"
    and second: "(case val of Some v \<Rightarrow> ret (Some (redis_text v))
      | None \<Rightarrow> catch (bind (redis (GETDEL (nonce_key wallet))) (\<lambda>res. ret (map_option redis_text res))) (\<lambda>_. ret None)) e (n1, w1)
      = (Inr (Some nonce), (n', w'))"
    by (auto simp: consumeNonce_def returns)
  have "ticks ?first" by (auto intro!: ticks_rules)
  then have n1: "n \<le> n1" using first ticksD [where m = ?first] by blast
  have "guarantees (unissued t wallet nonce) ?first"
    by (auto intro!: un.guar un.guar_redis within_GETDEL)
  then have step: "outstanding t wallet nonce w1 \<longrightarrow> outstanding t wallet nonce w"
    using guaranteesD [where R = "unissued t wallet nonce" and m = ?first, OF _ _ first] rely by (simp add: unissued_def)
  show ?thesis
  proof (cases val)
    case None
    with second obtain v s' where "redis (GETDEL (nonce_key wallet)) e (n1, w1) = (Inr (Some v), s')" "redis_text v = nonce"
      by (auto simp: returns catch_Inr eq_commute [of "Some nonce"])
    with getdel_outstanding [of wallet e n1 w1 v s' t] clk n1 rely step show ?thesis by simp
  next
    case (Some v)
    with first second have "redis (GETDEL (nonce_key wallet)) e (n, w) = (Inr (Some v), (n1, w1))" "redis_text v = nonce"
      by (auto simp: returns catch_Inr split: if_splits)
    with getdel_outstanding [of wallet e n w v "(n1, w1)" t] clk rely show ?thesis by simp
  qed
qed

lemma fallback_outstanding:
  assumes run: "challenge_fallback wallet e (n, w) = (Inr (Some nonce), (n', w'))" and clk: "\<forall>m \<ge> n. t \<le> e_clock e m"
    and rely: "\<forall>m u. unissued t wallet nonce u (e_rely e m u)"
  shows "outstanding t wallet nonce w"
proof -
  from run obtain ch where find: "challenge_find wallet (e_rely e n w) = Some ch" and ch: "ch_nonce ch = nonce"
    and m: "ch_expiresAt ch \<ge> e_clock e (Suc (Suc n))"
    by (auto simp: challenge_fallback_def returns catch_Inr split: option.splits if_splits dest!: db_tick)
  have "t \<le> e_clock e (Suc (Suc n))" using clk by simp
  with m have "ch_expiresAt ch \<ge> t" by linarith
  with find ch have "outstanding t wallet nonce (e_rely e n w)"
    by (auto simp: outstanding_def challenge_find_def dest!: find_SomeD)
  with rely show ?thesis by (auto simp: unissued_def)
qed

section \<open>Login is sound\<close>

lemma check_signature_Inr:
  assumes "check_signature lib dto e s = (Inr (), s')"
  shows "al_sigValid lib (wl_walletAddress dto) (wl_message dto) (wl_signature dto) = Inr True" and "s' = s"
  using assms by (auto simp: check_signature_def catch_Inr returns split: if_splits)

text \<open>
  C11. Login is sound: it hands out a token only for a well-formed wallet address that is not locked out, after the wallet's
  signature of the message was verified, and only if the message is a nonce that was issued to that wallet and had not
  expired when the login began, or was issued by another request during it. A nonce that was never issued, has expired or
  has been consumed is refused, whatever the other requests do short of issuing it again.
\<close>

theorem login_sound:
  assumes run: "login lib dto e (n, w) = (Inr (token, owner), (n', w'))" and clk: "mono (e_clock e)"
  shows "owner = wl_walletAddress dto \<and> rx_test WALLET_ADDRESS owner
    \<and> \<not> locked (kv_get (e_clock e n) (lockout_key owner) (redis_kv (e_rely e n w))) (config_int ''AUTH_MAX_FAILED_ATTEMPTS'' ''5'' e)
    \<and> al_sigValid lib owner (wl_message dto) (wl_signature dto) = Inr True
    \<and> ((\<forall>m u. unissued (e_clock e n) owner (wl_message dto) u (e_rely e m u)) \<longrightarrow>
        outstanding (e_clock e n) owner (wl_message dto) w)"
proof -
  let ?wl = "wl_walletAddress dto" and ?msg = "wl_message dto"
  let ?w1 = "e_rely e n w"
  from run obtain fromRedis n2 w2 s3 s4 where addr: "rx_test WALLET_ADDRESS ?wl"
    and free: "\<not> locked (kv_get (e_clock e n) (lockout_key ?wl) (redis_kv ?w1)) (config_int ''AUTH_MAX_FAILED_ATTEMPTS'' ''5'' e)"
    and consume: "consumeNonce lib ?wl e (Suc n, ?w1) = (Inr fromRedis, (n2, w2))"
    and stored: "(if present fromRedis then ret fromRedis else challenge_fallback ?wl) e (n2, w2) = (Inr (Some ?msg), s3)"
    and sig: "check_signature lib dto e s3 = (Inr (), s4)" and owner: "owner = ?wl"
    by (auto simp: login_def Let_def returns)
  have "outstanding (e_clock e n) ?wl ?msg w" if rely: "\<forall>m u. unissued (e_clock e n) ?wl ?msg u (e_rely e m u)"
  proof -
    have later: "\<forall>m \<ge> Suc n. e_clock e n \<le> e_clock e m" using clk by (simp add: mono_def)
    have "outstanding (e_clock e n) ?wl ?msg ?w1"
    proof (cases "present fromRedis")
      case True
      with stored have "fromRedis = Some ?msg" by (simp add: returns)
      with consumeNonce_outstanding [OF _ later rely] consume show ?thesis by simp
    next
      case False
      have n2: "n2 \<ge> Suc n" by (rule ticksD [OF ticks_consumeNonce consume])
      with later have "\<forall>m \<ge> n2. e_clock e n \<le> e_clock e m" by simp
      moreover from False stored obtain n3 w3 where "challenge_fallback ?wl e (n2, w2) = (Inr (Some ?msg), (n3, w3))"
        by (cases s3) simp
      ultimately have "outstanding (e_clock e n) ?wl ?msg w2" using fallback_outstanding rely by blast
      then show ?thesis
        using guaranteesD [where R = "unissued (e_clock e n) ?wl ?msg" and m = "consumeNonce lib ?wl", OF guar_consumeNonce _ consume] rely
        by (simp add: unissued_def)
    qed
    with rely show ?thesis by (auto simp: unissued_def)
  qed
  with addr free sig owner show ?thesis by (simp add: check_signature_Inr)
qed

text \<open>A wallet that asks for a challenge and logs in with it.\<close>

definition sample_wallet :: string where
  "sample_wallet = CHR ''G'' # replicate 55 (CHR ''A'')"

definition sample_auth :: auth_lib where
  "sample_auth = \<lparr>al_jwt = sample_lib, al_getdel = True, al_randomHex = (\<lambda>n. ''nonce''), al_sigValid = (\<lambda>wallet message signature. Inr (signature = ''sig''))\<rparr>"

definition sample_login :: WalletLoginDto where
  "sample_login = \<lparr>wl_walletAddress = sample_wallet, wl_signature = ''sig'', wl_message = ''nonce''\<rparr>"

text \<open>The world after the challenge: the nonce is in Redis and mirrored in the database.\<close>

definition challenged_world :: world where
  "challenged_world = empty_world\<lparr>redis_kv := [(nonce_key sample_wallet, RText ''nonce'', Some 305000)],
     authChallenges := [\<lparr>ch_walletAddress = sample_wallet, ch_nonce = ''nonce'', ch_expiresAt = 305000, ch_createdAt = 5000\<rparr>]\<rparr>"

lemma sample_wallet_ok: "rx_test WALLET_ADDRESS sample_wallet"
  by code_simp

lemma config_defaults: "config_int ''AUTH_NONCE_TTL_SECONDS'' ''300'' (quiet_env t) = Some 300"
    "config_int ''AUTH_MAX_FAILED_ATTEMPTS'' ''5'' (quiet_env t) = Some 5"
  by (simp_all add: config_int_def quiet_env_def) code_simp+

lemma quiet_sel: "e_rely (quiet_env t) n w = w" "e_clock (quiet_env t) n = t" "e_redisfail (quiet_env t) n = None"
    "e_dbfail (quiet_env t) n = None"
  by (simp_all add: quiet_env_def)

lemmas auth_eval = quiet_sel bind_def asks_def clock_def ret_def catch_def throw_def randomUUID_def redis_def db_def Let_def GET_def GETDEL_def
  DEL_def SET_EX_def SET_PX_def kv_get_def lift_def sign_def jwt_sign_def present_def s_query_def

lemma keys_differ: "lockout_key x \<noteq> nonce_key y" "nonce_key y \<noteq> lockout_key x"
  by (simp_all add: lockout_key_def nonce_key_def)

lemma challenge_run: "getChallenge sample_auth (Some sample_wallet) (quiet_env 5000) (0, empty_world) = (Inr ''nonce'', (4, challenged_world))"
  using sample_wallet_ok config_defaults(1)
  by (simp add: getChallenge_def randomHex_def auth_eval sample_auth_def challenge_upsert_def challenge_find_def challenged_world_def empty_world_def)

lemma first_login: "\<exists>token. login sample_auth sample_login (quiet_env 6000) (4, challenged_world)
    = (Inr (token, sample_wallet), (9, challenged_world\<lparr>redis_kv := []\<rparr>))"
  using sample_wallet_ok config_defaults(2)
  by (simp add: login_def consumeNonce_def check_signature_def locked_def auth_eval sample_auth_def sample_login_def
      challenged_world_def keys_differ empty_world_def)

theorem login_sound_witness:
  "\<exists>token. login sample_auth sample_login (quiet_env 6000) (4, challenged_world)
      = (Inr (token, sample_wallet), (9, challenged_world\<lparr>redis_kv := []\<rparr>))
    \<and> al_sigValid sample_auth sample_wallet ''nonce'' ''sig'' = Inr True
    \<and> outstanding 6000 sample_wallet ''nonce'' challenged_world"
proof -
  obtain token where run: "login sample_auth sample_login (quiet_env 6000) (4, challenged_world)
      = (Inr (token, sample_wallet), (9, challenged_world\<lparr>redis_kv := []\<rparr>))" using first_login by blast
  have "mono (e_clock (quiet_env 6000))" by (simp add: quiet_sel mono_def)
  from login_sound [OF run this] run show ?thesis
    by (auto simp: sample_login_def quiet_sel unissued_def)
qed

section \<open>A nonce can be used twice\<close>

text \<open>
  A login that finds its nonce in Redis leaves the copy in the database alone, so the same signed message is accepted once
  more until the challenge expires.
\<close>

theorem nonce_replayed:
  "\<exists>token token'. getChallenge sample_auth (Some sample_wallet) (quiet_env 5000) (0, empty_world) = (Inr ''nonce'', (4, challenged_world))
     \<and> login sample_auth sample_login (quiet_env 6000) (4, challenged_world)
         = (Inr (token, sample_wallet), (9, challenged_world\<lparr>redis_kv := []\<rparr>))
     \<and> login sample_auth sample_login (quiet_env 7000) (9, challenged_world\<lparr>redis_kv := []\<rparr>)
         = (Inr (token', sample_wallet), (18, empty_world))"
proof -
  have "\<exists>token. login sample_auth sample_login (quiet_env 7000) (9, challenged_world\<lparr>redis_kv := []\<rparr>)
      = (Inr (token, sample_wallet), (18, empty_world))"
    using sample_wallet_ok config_defaults(2)
    by (simp add: login_def consumeNonce_def challenge_fallback_def challenge_find_def challenge_delete_def check_signature_def
        locked_def auth_eval sample_auth_def sample_login_def challenged_world_def keys_differ empty_world_def)
  with challenge_run first_login show ?thesis by blast
qed

end
