(* ===== verification/Access_Control.thy ===== *)
theory Access_Control
  imports Wallet_Login
begin

text \<open>
  Who may call a route: the guards \<^verbatim>\<open>src/auth/jwt-auth.guard.ts\<close>, \<^verbatim>\<open>operator-auth.guard.ts\<close> and
  \<^verbatim>\<open>admin-role.guard.ts\<close>, and the header authentication of \<^verbatim>\<open>auth.middleware.ts\<close>. SHA-256 and the numbers
  that \<^verbatim>\<open>Number\<close> reads are parameters. A request is given by the fields that the guards read.
\<close>

section \<open>Requests\<close>

record request =
  rq_ip :: string
  rq_authorization :: "string option"
  rq_apiKey :: "string option"
  rq_adminApiKey :: "string option"
  rq_walletAddress :: "string option"
  rq_walletSignature :: "string option"
  rq_walletMessage :: "string option"

datatype AuthVia = ViaJwt | ViaApiKey

datatype ApiKeySource = AdminKey | OperatorKey

record AuthenticatedRequest =
  ar_wallet :: "string option"
  ar_user :: "JwtPayload option"
  ar_authVia :: "AuthVia option"
  ar_apiKeySource :: "ApiKeySource option"

record guard_lib =
  gl_jwt :: jwt_lib
  gl_sha256 :: "string \<Rightarrow> string"
  gl_number :: "string \<Rightarrow> jsnum"
  gl_startedAt :: int

section \<open>JwtAuthGuard\<close>

definition extractTokenFromHeader :: "request \<Rightarrow> string option" where
  "extractTokenFromHeader rq = (case rq_authorization rq of
     None \<Rightarrow> None
   | Some h \<Rightarrow> (case js_split (CHR '' '') h of type # token # _ \<Rightarrow> if type = ''Bearer'' then Some token else None | _ \<Rightarrow> None))"

definition jwt_canActivate :: "guard_lib \<Rightarrow> request \<Rightarrow> AuthenticatedRequest act" where
  "jwt_canActivate lib rq =
     (if \<not> present (extractTokenFromHeader rq) then throw (UnauthorizedException ''Missing or invalid Authorization header'')
      else catch (bind (verifyAsync (gl_jwt lib) (the (extractTokenFromHeader rq))) (\<lambda>payload.
             ret \<lparr>ar_wallet = Some (jp_walletAddress payload), ar_user = Some payload, ar_authVia = None, ar_apiKeySource = None\<rparr>))
           (\<lambda>_. throw (UnauthorizedException ''Token verification failed'')))"

section \<open>OperatorAuthGuard\<close>

definition RATE_LIMIT_WINDOW_MS :: int where
  "RATE_LIMIT_WINDOW_MS = 60000"

definition RATE_LIMIT_MAX_FAILURES :: int where
  "RATE_LIMIT_MAX_FAILURES = 5"

definition failures_key :: "string \<Rightarrow> string" where
  "failures_key ip = ''auth:operator:failures:'' @ ip"

text \<open>The keys of this prefix hold only failure records; anything else does not parse as one.\<close>

fun parse_failures :: "redis_value \<Rightarrow> (int \<times> int) outcome" where
  "parse_failures (RFailures c resetAt) = Inr (c, resetAt)"
| "parse_failures _ = Inl (PlainError ''SyntaxError'')"

definition checkRateLimit :: "string \<Rightarrow> unit act" where
  "checkRateLimit ip =
     bind (redis (GET (failures_key ip))) (\<lambda>recordStr.
     case recordStr of
       None \<Rightarrow> ret ()
     | Some v \<Rightarrow>
         bind (lift (parse_failures v)) (\<lambda>(c, resetAt).
         bind clock (\<lambda>t.
         if t > resetAt then redis (DEL (failures_key ip))
         else if c \<ge> RATE_LIMIT_MAX_FAILURES then throw (TooManyRequestsException ''Too many failed authentication attempts'')
         else ret ())))"

definition recordFailure :: "string \<Rightarrow> unit act" where
  "recordFailure ip =
     bind clock (\<lambda>now.
     bind (redis (GET (failures_key ip))) (\<lambda>recordStr.
     case recordStr of
       None \<Rightarrow> redis (SET_PX (failures_key ip) (RFailures 1 (now + RATE_LIMIT_WINDOW_MS)) (Some RATE_LIMIT_WINDOW_MS))
     | Some v \<Rightarrow>
         bind (lift (parse_failures v)) (\<lambda>(c, resetAt).
         if now > resetAt
         then redis (SET_PX (failures_key ip) (RFailures 1 (now + RATE_LIMIT_WINDOW_MS)) (Some RATE_LIMIT_WINDOW_MS))
         else redis (SET_PX (failures_key ip) (RFailures (c + 1) resetAt) (Some (max (resetAt - now) 1000))))))"

definition resetFailures :: "string \<Rightarrow> unit act" where
  "resetFailures ip = redis (DEL (failures_key ip))"

definition isWithinGracePeriod :: "guard_lib \<Rightarrow> bool act" where
  "isWithinGracePeriod lib =
     bind (asks (\<lambda>e. e_config e ''API_KEY_ROTATION_GRACE_MINUTES'')) (\<lambda>raw.
     case (if present raw then gl_number lib (the raw) else js_int (24 * 60)) of
       Fin minutes \<Rightarrow> if minutes \<le> 0 then ret False
         else bind clock (\<lambda>t. ret (of_int (t - gl_startedAt lib) < minutes * 60000))
     | _ \<Rightarrow> ret False)"

definition constantTimeEqual :: "guard_lib \<Rightarrow> string \<Rightarrow> string \<Rightarrow> bool" where
  "constantTimeEqual lib a b \<longleftrightarrow> gl_sha256 lib a = gl_sha256 lib b"

fun previous_name :: "ApiKeySource \<Rightarrow> string" where
  "previous_name AdminKey = ''ADMIN_API_KEY_PREVIOUS''"
| "previous_name OperatorKey = ''ORACLE_OPERATOR_API_KEY_PREVIOUS''"

definition acceptsRotatedOutKey :: "guard_lib \<Rightarrow> string \<Rightarrow> ApiKeySource \<Rightarrow> bool act" where
  "acceptsRotatedOutKey lib providedKey source =
     bind (asks (\<lambda>e. e_config e (previous_name source))) (\<lambda>previous.
     if \<not> present previous then ret False
     else bind (isWithinGracePeriod lib) (\<lambda>fresh.
          ret (fresh \<and> constantTimeEqual lib providedKey (the previous))))"

definition provided_key :: "request \<Rightarrow> string option" where
  "provided_key rq = (case rq_apiKey rq of Some k \<Rightarrow> Some k | None \<Rightarrow> rq_adminApiKey rq)"

definition resolveApiKeySource :: "guard_lib \<Rightarrow> request \<Rightarrow> ApiKeySource option act" where
  "resolveApiKeySource lib rq =
     bind (asks (\<lambda>e. (e_config e ''ADMIN_API_KEY'', e_config e ''ORACLE_OPERATOR_API_KEY''))) (\<lambda>(adminKey, operatorKey).
     if \<not> present adminKey \<and> \<not> present operatorKey then throw (InternalServerErrorException ''Server misconfiguration'')
     else if \<not> present (provided_key rq) then ret None
     else if present adminKey \<and> constantTimeEqual lib (the (provided_key rq)) (the adminKey) then ret (Some AdminKey)
     else if present operatorKey \<and> constantTimeEqual lib (the (provided_key rq)) (the operatorKey) then ret (Some OperatorKey)
     else
       bind (acceptsRotatedOutKey lib (the (provided_key rq)) AdminKey) (\<lambda>oldAdmin.
       if oldAdmin then ret (Some AdminKey)
       else bind (acceptsRotatedOutKey lib (the (provided_key rq)) OperatorKey) (\<lambda>oldOperator.
            ret (if oldOperator then Some OperatorKey else None))))"

definition getOptionalBearerToken :: "request \<Rightarrow> string option outcome" where
  "getOptionalBearerToken rq =
     (if \<not> present (rq_authorization rq) then Inr None
      else case js_split (CHR '' '') (the (rq_authorization rq)) of
          scheme # token # _ \<Rightarrow> if scheme \<noteq> ''Bearer'' \<or> token = [] then Inl (UnauthorizedException ''Invalid Authorization bearer token'')
            else Inr (Some token)
        | _ \<Rightarrow> Inl (UnauthorizedException ''Invalid Authorization bearer token''))"

definition is_admin :: "JwtPayload \<Rightarrow> bool" where
  "is_admin p \<longleftrightarrow> jp_admin p = Some True \<or> jp_role p = Some ''admin''"

definition operator_canActivate :: "guard_lib \<Rightarrow> request \<Rightarrow> AuthenticatedRequest act" where
  "operator_canActivate lib rq =
     seq (checkRateLimit (rq_ip rq))
     (bind (resolveApiKeySource lib rq) (\<lambda>apiKeySource.
      case apiKeySource of
        Some src \<Rightarrow> seq (resetFailures (rq_ip rq))
          (ret \<lparr>ar_wallet = None, ar_user = None, ar_authVia = Some ViaApiKey, ar_apiKeySource = Some src\<rparr>)
      | None \<Rightarrow>
          bind (lift (getOptionalBearerToken rq)) (\<lambda>token.
          case token of
            None \<Rightarrow> seq (recordFailure (rq_ip rq)) (throw (UnauthorizedException ''Operator API key or admin bearer token required''))
          | Some t \<Rightarrow>
              catch (bind (verifyAsync (gl_jwt lib) t) (\<lambda>payload.
                if \<not> is_admin payload
                then seq (recordFailure (rq_ip rq)) (throw (UnauthorizedException ''Admin bearer token required''))
                else seq (resetFailures (rq_ip rq))
                  (ret \<lparr>ar_wallet = Some (jp_walletAddress payload), ar_user = Some payload, ar_authVia = Some ViaJwt,
                        ar_apiKeySource = None\<rparr>)))
              (\<lambda>err. if is_Unauthorized err then throw err
                 else seq (recordFailure (rq_ip rq)) (throw (UnauthorizedException ''Invalid bearer token''))))))"

section \<open>AdminRoleGuard\<close>

definition admin_canActivate :: "AuthenticatedRequest \<Rightarrow> AuthenticatedRequest act" where
  "admin_canActivate ar =
     (case ar_authVia ar of
        Some ViaJwt \<Rightarrow> if \<exists>p \<in> set_option (ar_user ar). is_admin p then ret ar else throw (ForbiddenException ''Admin role required'')
      | Some ViaApiKey \<Rightarrow>
          if ar_apiKeySource ar = Some AdminKey then ret ar
          else bind (asks (\<lambda>e. e_config e ''ADMIN_API_KEY'')) (\<lambda>adminKey.
               if \<not> present adminKey then ret ar else throw (ForbiddenException ''Admin API key required''))
      | None \<Rightarrow> throw (ForbiddenException ''Admin credentials required''))"

text \<open>The two guards as the admin routes use them.\<close>

definition admin_route :: "guard_lib \<Rightarrow> request \<Rightarrow> AuthenticatedRequest act" where
  "admin_route lib rq = bind (operator_canActivate lib rq) admin_canActivate"

section \<open>Header authentication\<close>

datatype auth_answer = Next "string option" | Refused401 string | Refused503 string

definition HEADER_ADDRESS :: rx where
  "HEADER_ADDRESS = rx_seq [rx_any ''GS'', rx_rep 55 rx_base32]"

definition isInfrastructureError :: "exn \<Rightarrow> bool" where
  "isInfrastructureError err \<longleftrightarrow> list_ex (\<lambda>pat. contains pat (to_lower (exn_message err)))
     [''econnrefused'', ''etimedout'', ''econnreset'', ''enotfound'', ''eai_again'', ''connection'', ''timeout'', ''unavailable'']"

text \<open>The comparison pads the shorter text with zero bytes.\<close>

definition padded_equal :: "string \<Rightarrow> string \<Rightarrow> bool" where
  "padded_equal a b \<longleftrightarrow> a @ replicate (max (length a) (length b) - length a) (CHR 0x00)
     = b @ replicate (max (length a) (length b) - length b) (CHR 0x00)"

definition bearer_wellformed :: "string option \<Rightarrow> bool" where
  "bearer_wellformed header \<longleftrightarrow> (case header of None \<Rightarrow> True
     | Some h \<Rightarrow> (case js_split (CHR '' '') h of [scheme, token] \<Rightarrow> scheme = ''Bearer'' \<and> token \<noteq> [] | _ \<Rightarrow> False))"

definition check_challenge :: "auth_lib \<Rightarrow> string \<Rightarrow> string \<Rightarrow> string \<Rightarrow> AuthChallenge option \<Rightarrow> auth_answer act" where
  "check_challenge lib address message signature challenge =
     (case challenge of
        None \<Rightarrow> ret (Refused401 ''No auth challenge found'')
      | Some ch \<Rightarrow>
          bind clock (\<lambda>t.
          if ch_expiresAt ch < t
          then seq (catch (db (challenge_delete address)) (\<lambda>_. ret ())) (ret (Refused401 ''Auth challenge expired''))
          else if \<not> padded_equal message (ch_nonce ch) then ret (Refused401 ''Invalid challenge message'')
          else (case al_sigValid lib address message signature of
              Inl err \<Rightarrow> ret (Refused401 ''Signature verification failed'')
            | Inr False \<Rightarrow> ret (Refused401 ''Invalid wallet signature'')
            | Inr True \<Rightarrow>
                seq (catch (db (challenge_delete address)) (\<lambda>_. ret ())) (ret (Next (Some address))))))"

definition use_auth :: "auth_lib \<Rightarrow> request \<Rightarrow> auth_answer act" where
  "use_auth lib rq =
     (if \<not> bearer_wellformed (rq_authorization rq) then ret (Refused401 ''Malformed Authorization header'')
      else if \<not> present (rq_walletAddress rq) \<and> \<not> present (rq_walletSignature rq) \<and> \<not> present (rq_walletMessage rq)
      then ret (Next None)
      else if \<not> present (rq_walletAddress rq) \<or> \<not> present (rq_walletSignature rq) \<or> \<not> present (rq_walletMessage rq)
      then ret (Refused401 ''Missing wallet auth headers'')
      else if \<not> rx_test HEADER_ADDRESS (the (rq_walletAddress rq)) then ret (Refused401 ''Invalid wallet address format'')
      else
        bind (catch (bind (db (s_query (challenge_find (the (rq_walletAddress rq))))) (\<lambda>ch. ret (Inr ch)))
                (\<lambda>err. ret (Inl (if isInfrastructureError err then Refused503 ''Authentication service temporarily unavailable''
                                 else Refused401 ''Authentication service unavailable'')))) (\<lambda>found.
        case found of
          Inl answer \<Rightarrow> ret answer
        | Inr challenge \<Rightarrow> check_challenge lib (the (rq_walletAddress rq)) (the (rq_walletMessage rq)) (the (rq_walletSignature rq)) challenge))"

section \<open>Admin routes\<close>

fun current_name :: "ApiKeySource \<Rightarrow> string" where
  "current_name AdminKey = ''ADMIN_API_KEY''"
| "current_name OperatorKey = ''ORACLE_OPERATOR_API_KEY''"

text \<open>A configured key, or one rotated out within the grace period at one of the times of the run.\<close>

definition grace_open :: "guard_lib \<Rightarrow> env \<Rightarrow> int \<Rightarrow> bool" where
  "grace_open lib e t \<longleftrightarrow>
     (case (if present (e_config e ''API_KEY_ROTATION_GRACE_MINUTES'')
            then gl_number lib (the (e_config e ''API_KEY_ROTATION_GRACE_MINUTES'')) else js_int (24 * 60)) of
        Fin minutes \<Rightarrow> 0 < minutes \<and> of_int (t - gl_startedAt lib) < minutes * 60000
      | _ \<Rightarrow> False)"

definition key_valid :: "guard_lib \<Rightarrow> env \<Rightarrow> ApiKeySource \<Rightarrow> string \<Rightarrow> bool" where
  "key_valid lib e src key \<longleftrightarrow> key \<noteq> [] \<and>
     (e_config e (current_name src) = Some key
      \<or> e_config e (previous_name src) = Some key \<and> (\<exists>m. grace_open lib e (e_clock e m)))"

text \<open>The digest of the presented key is not that of a different configured key.\<close>

definition no_collision :: "guard_lib \<Rightarrow> env \<Rightarrow> request \<Rightarrow> bool" where
  "no_collision lib e rq \<longleftrightarrow> (\<forall>key name k. provided_key rq = Some key \<and> e_config e name = Some k \<and> gl_sha256 lib key = gl_sha256 lib k \<longrightarrow> key = k)"

lemma within_grace: "isWithinGracePeriod lib e s = (Inr True, s') \<Longrightarrow> grace_open lib e (e_clock e (fst s))"
  by (auto simp: isWithinGracePeriod_def grace_open_def returns split: jsnum.splits if_splits)

lemma rotated_out:
  assumes "acceptsRotatedOutKey lib key src e s = (Inr True, s')"
  shows "\<exists>k. e_config e (previous_name src) = Some k \<and> gl_sha256 lib key = gl_sha256 lib k \<and> (\<exists>m. grace_open lib e (e_clock e m))"
  using assms
  by (auto simp: acceptsRotatedOutKey_def returns constantTimeEqual_def present_def split: if_splits dest!: within_grace)

lemma resolve_sound:
  assumes run: "resolveApiKeySource lib rq e s = (Inr (Some src), s')" and coll: "no_collision lib e rq"
  shows "\<exists>key. provided_key rq = Some key \<and> key_valid lib e src key"
proof -
  obtain key where key: "provided_key rq = Some key" "key \<noteq> []"
    using run by (auto simp: resolveApiKeySource_def returns present_def split: if_splits)
  have same: "k = key" if "e_config e name = Some k" "gl_sha256 lib key = gl_sha256 lib k" for name k
    using coll key(1) that by (auto simp: no_collision_def)
  have "key_valid lib e src key"
    using run key
    by (auto simp: resolveApiKeySource_def returns key_valid_def constantTimeEqual_def present_def split: if_splits
        dest!: rotated_out dest: same)
  with key(1) show ?thesis by blast
qed

lemma verifyAsync_Inr:
  assumes "verifyAsync lib token e s = (Inr p, s')"
  shows "\<exists>q. jw_verify lib token (secret e) (verifyOptions e) (e_clock e (fst s)) = Inr q \<and> jp_type q \<noteq> Some ''refresh''
    \<and> is_admin q = is_admin p \<and> jp_walletAddress q = jp_walletAddress p"
  using assms
  by (auto simp: verifyAsync_def verify_def is_admin_def returns split: sum.splits if_splits)

lemma not_limited:
  assumes "checkRateLimit ip e (n, w) = (Inr (), s')"
    and "kv_get (e_clock e n) (failures_key ip) (redis_kv (e_rely e n w)) = Some (RFailures c resetAt)"
  shows "c < RATE_LIMIT_MAX_FAILURES \<or> resetAt < e_clock e (Suc n)"
  using assms by (auto simp: checkRateLimit_def returns split: if_splits)

text \<open>
  C12. A request gets through the two guards of the admin routes only with admin credentials: the configured admin key or a
  predecessor of it within the grace period; the operator key or its predecessor, but only where no admin key is
  configured; or a bearer token that verifies at the time of the request, is not a refresh token and carries admin rights.
  An address with five recorded failures whose window is open is turned away whatever it presents.
\<close>

theorem admin_route_sound:
  assumes run: "admin_route lib rq e (n, w) = (Inr ar, (n', w'))" and coll: "no_collision lib e rq"
  shows "(\<forall>c resetAt. kv_get (e_clock e n) (failures_key (rq_ip rq)) (redis_kv (e_rely e n w)) = Some (RFailures c resetAt)
        \<longrightarrow> c < RATE_LIMIT_MAX_FAILURES \<or> resetAt < e_clock e (Suc n))
    \<and> ((\<exists>key. provided_key rq = Some key \<and> (key_valid lib e AdminKey key
          \<or> \<not> present (e_config e ''ADMIN_API_KEY'') \<and> key_valid lib e OperatorKey key))
      \<or> (\<exists>token q m. getOptionalBearerToken rq = Inr (Some token)
          \<and> jw_verify (gl_jwt lib) token (secret e) (verifyOptions e) (e_clock e m) = Inr q
          \<and> jp_type q \<noteq> Some ''refresh'' \<and> is_admin q))"
proof -
  from run obtain s1 s2 src where limit: "checkRateLimit (rq_ip rq) e (n, w) = (Inr (), s1)"
    and src: "resolveApiKeySource lib rq e s1 = (Inr src, s2)"
    by (auto simp: admin_route_def operator_canActivate_def returns)
  have "(\<exists>key. provided_key rq = Some key \<and> (key_valid lib e AdminKey key
          \<or> \<not> present (e_config e ''ADMIN_API_KEY'') \<and> key_valid lib e OperatorKey key))
      \<or> (\<exists>token q m. getOptionalBearerToken rq = Inr (Some token)
          \<and> jw_verify (gl_jwt lib) token (secret e) (verifyOptions e) (e_clock e m) = Inr q
          \<and> jp_type q \<noteq> Some ''refresh'' \<and> is_admin q)"
  proof (cases src)
    case (Some s)
    from resolve_sound [OF src [unfolded Some] coll] obtain key where "provided_key rq = Some key" "key_valid lib e s key" by blast
    moreover have "s = AdminKey \<or> \<not> present (e_config e ''ADMIN_API_KEY'')"
      using run limit src Some by (auto simp: admin_route_def operator_canActivate_def admin_canActivate_def returns split: if_splits)
    ultimately show ?thesis by (cases s) auto
  next
    case None
    with run limit src obtain token p s3 s4 where "getOptionalBearerToken rq = Inr (Some token)"
      and "verifyAsync (gl_jwt lib) token e s3 = (Inr p, s4)" "is_admin p"
      by (auto simp: admin_route_def operator_canActivate_def returns catch_Inr split: option.splits if_splits)
    with verifyAsync_Inr show ?thesis by blast
  qed
  with not_limited [OF limit] show ?thesis by blast
qed

definition sample_guard :: guard_lib where
  "sample_guard = \<lparr>gl_jwt = sample_lib, gl_sha256 = (\<lambda>s. s), gl_number = (\<lambda>s. NaN), gl_startedAt = 0\<rparr>"

definition sample_request :: request where
  "sample_request = \<lparr>rq_ip = ''10.0.0.1'', rq_authorization = None, rq_apiKey = Some ''k'', rq_adminApiKey = None,
     rq_walletAddress = None, rq_walletSignature = None, rq_walletMessage = None\<rparr>"

definition keyed_env :: env where
  "keyed_env = (quiet_env 5000)\<lparr>e_config := (\<lambda>name. if name = ''ADMIN_API_KEY'' then Some ''k'' else None)\<rparr>"

theorem admin_route_sound_witness:
  "fst (admin_route sample_guard sample_request keyed_env (0, empty_world))
      = Inr \<lparr>ar_wallet = None, ar_user = None, ar_authVia = Some ViaApiKey, ar_apiKeySource = Some AdminKey\<rparr>
    \<and> key_valid sample_guard keyed_env AdminKey ''k''"
proof -
  let ?ar = "\<lparr>ar_wallet = None, ar_user = None, ar_authVia = Some ViaApiKey, ar_apiKeySource = Some AdminKey\<rparr>"
  have run: "admin_route sample_guard sample_request keyed_env (0, empty_world) = (Inr ?ar, (2, empty_world))"
    by (simp add: admin_route_def operator_canActivate_def admin_canActivate_def checkRateLimit_def resolveApiKeySource_def
        resetFailures_def provided_key_def constantTimeEqual_def keyed_env_def sample_request_def sample_guard_def
        auth_eval empty_world_def)
  have "no_collision sample_guard keyed_env sample_request"
    by (simp add: no_collision_def sample_guard_def)
  from admin_route_sound [OF run this] run show ?thesis
    by (auto simp: provided_key_def sample_request_def keyed_env_def present_def getOptionalBearerToken_def)
qed

section \<open>What the guards do not count\<close>

text \<open>A bearer token that does not verify leaves no trace in the failure record of its address.\<close>

theorem invalid_token_uncounted:
  assumes "quiet e" and "\<forall>m. e_redisfail e m = None" and "kv_get (e_clock e n) (failures_key (rq_ip rq)) (redis_kv w) = None"
    and "provided_key rq = None" and "present (e_config e ''ADMIN_API_KEY'')"
    and "getOptionalBearerToken rq = Inr (Some token)"
    and "jw_verify (gl_jwt lib) token (secret e) (verifyOptions e) (e_clock e (Suc n)) = Inl err"
  shows "\<exists>x n'. operator_canActivate lib rq e (n, w) = (Inl (UnauthorizedException x), (n', w))"
  using assms
  by (simp add: operator_canActivate_def checkRateLimit_def resolveApiKeySource_def verifyAsync_def verify_def present_def quiet_def
      bind_def redis_def GET_def asks_def ret_def lift_def catch_def clock_def throw_def Let_def)

section \<open>Header authentication\<close>

text \<open>
  A request is let through as a wallet only with the wallet's signature of a message that equals, up to trailing zero bytes,
  the unexpired challenge that the database holds for that wallet.
\<close>

theorem header_auth_sound:
  assumes "use_auth lib rq e (n, w) = (Inr (Next (Some a)), s')"
  shows "rq_walletAddress rq = Some a \<and> (\<exists>message signature ch. rq_walletMessage rq = Some message \<and> rq_walletSignature rq = Some signature
    \<and> al_sigValid lib a message signature = Inr True \<and> challenge_find a (e_rely e n w) = Some ch
    \<and> padded_equal message (ch_nonce ch) \<and> ch_expiresAt ch \<ge> e_clock e (Suc n))"
  using assms
  by (auto simp: use_auth_def check_challenge_def returns catch_Inr present_def split: if_splits option.splits sum.splits bool.splits)

text \<open>The answer is decided by that one read: another request that consumes the same challenge right after it does not
  change it.\<close>

theorem header_auth_decided_by_read:
  assumes "bearer_wellformed (rq_authorization rq)" and "rq_walletAddress rq = Some a" "rx_test HEADER_ADDRESS a" "a \<noteq> []"
    and "rq_walletMessage rq = Some message" "message \<noteq> []" and "rq_walletSignature rq = Some signature" "signature \<noteq> []"
    and "e_dbfail e n = None" and "challenge_find a (e_rely e n w) = Some ch" and "ch_expiresAt ch \<ge> e_clock e (Suc n)"
    and "ch_nonce ch = message" and "al_sigValid lib a message signature = Inr True"
  shows "\<exists>s. use_auth lib rq e (n, w) = (Inr (Next (Some a)), s)"
proof -
  obtain r s where del: "db (challenge_delete a) e (Suc (Suc n), e_rely e n w) = (r, s)"
    by (cases "db (challenge_delete a) e (Suc (Suc n), e_rely e n w)")
  from assms show ?thesis
    by (cases r) (auto simp: use_auth_def check_challenge_def padded_equal_def present_def bind_def catch_def ret_def clock_def
        del s_query_def db_def [of "s_query _"] Let_def)
qed

end
