(* ===== verification/Idempotency.thy ===== *)
theory Idempotency
  imports Token_Service
begin

text \<open>
  Idempotency keys, \<^verbatim>\<open>src/common/middleware/idempotency.middleware.ts\<close>: a mutating request with an
  \<^verbatim>\<open>Idempotency-Key\<close> replays the cached response of its predecessor, waits for it, or runs the handler under a
  lock. The handler is an action that yields a response; the loop that waits takes fuel, and \<open>handle_loop_ends\<close>
  shows how much is enough.
\<close>

section \<open>Keys and entries\<close>

definition IDEMPOTENCY_TTL_SECONDS :: int where
  "IDEMPOTENCY_TTL_SECONDS = 86400"

definition IDEMPOTENCY_KEY_MAX_LENGTH :: nat where
  "IDEMPOTENCY_KEY_MAX_LENGTH = 255"

definition IDEMPOTENCY_LOCK_TTL_SECONDS :: int where
  "IDEMPOTENCY_LOCK_TTL_SECONDS = 35"

definition IDEMPOTENCY_WAIT_TIMEOUT_MS :: int where
  "IDEMPOTENCY_WAIT_TIMEOUT_MS = 25000"

definition IDEMPOTENCY_POLL_INTERVAL_MS :: int where
  "IDEMPOTENCY_POLL_INTERVAL_MS = 100"

definition store_key :: "string \<Rightarrow> string \<Rightarrow> string \<Rightarrow> string" where
  "store_key method path rawKey = ''idempotency:'' @ method @ '':'' @ path @ '':'' @ rawKey"

definition lock_key :: "string \<Rightarrow> string" where
  "lock_key storeKey = storeKey @ '':lock''"

record HandlerResponse =
  hr_status :: int
  hr_body :: string
  hr_json :: bool

datatype decision = Replay int string | RunLocked string | Conflict

datatype answer = PassedThrough HandlerResponse | Ran HandlerResponse | Replayed int string | Answer400 | Answer409

text \<open>Only the text of a JSON object with a body and a status from 100 to 599 is an entry.\<close>

fun parseCachedEntry :: "redis_value \<Rightarrow> (int \<times> string) option" where
  "parseCachedEntry (RResponse status body) = (if 100 \<le> status \<and> status \<le> 599 then Some (status, body) else None)"
| "parseCachedEntry _ = None"

section \<open>The middleware\<close>

definition replayCached :: "string \<Rightarrow> (int \<times> string) option act" where
  "replayCached storeKey =
     bind (redis (GET storeKey)) (\<lambda>cached.
     if cached = None \<or> cached = Some (RText []) then ret None
     else case parseCachedEntry (the cached) of
         None \<Rightarrow> seq (catch (redis (DEL storeKey)) (\<lambda>_. ret ())) (ret None)
       | Some entry \<Rightarrow> ret (Some entry))"

definition releaseLock :: "string \<Rightarrow> string \<Rightarrow> unit act" where
  "releaseLock lockKey lockToken = catch (redis (DEL_IF lockKey (RText lockToken))) (\<lambda>_. ret ())"

text \<open>One attempt to take the lock. The winner looks once more for a cached response; a loser sleeps and goes on.\<close>

definition contend :: "string \<Rightarrow> string \<Rightarrow> int \<Rightarrow> decision option act \<Rightarrow> decision option act" where
  "contend storeKey lockToken deadline poll =
     bind (redis (SET_NX_EX (lock_key storeKey) (RText lockToken) IDEMPOTENCY_LOCK_TTL_SECONDS)) (\<lambda>acquired.
     if acquired then
       bind (replayCached storeKey) (\<lambda>again.
       case again of
         Some (status, body) \<Rightarrow> seq (releaseLock (lock_key storeKey) lockToken) (ret (Some (Replay status body)))
       | None \<Rightarrow> ret (Some (RunLocked lockToken)))
     else
       bind clock (\<lambda>t. if t \<ge> deadline then ret (Some Conflict) else seq await poll))"

fun handle_loop :: "nat \<Rightarrow> string \<Rightarrow> string \<Rightarrow> int \<Rightarrow> decision option act" where
  "handle_loop 0 storeKey lockToken deadline = ret None"
| "handle_loop (Suc fuel) storeKey lockToken deadline =
     bind (replayCached storeKey) (\<lambda>hit.
     case hit of
       Some (status, body) \<Rightarrow> ret (Some (Replay status body))
     | None \<Rightarrow> contend storeKey lockToken deadline (handle_loop fuel storeKey lockToken deadline))"

definition handle :: "nat \<Rightarrow> string \<Rightarrow> decision option act" where
  "handle fuel storeKey =
     bind randomUUID (\<lambda>lockToken.
     bind clock (\<lambda>t. handle_loop fuel storeKey lockToken (t + IDEMPOTENCY_WAIT_TIMEOUT_MS)))"

text \<open>A successful JSON response is cached before the lock is released; every other one only releases the lock.\<close>

definition runWithLock :: "string \<Rightarrow> string \<Rightarrow> HandlerResponse act \<Rightarrow> HandlerResponse act" where
  "runWithLock storeKey lockToken handler =
     bind handler (\<lambda>r.
     seq (if hr_json r \<and> 200 \<le> hr_status r \<and> hr_status r < 300
          then catch (redis (SET_EX storeKey (RResponse (hr_status r) (hr_body r)) (Some IDEMPOTENCY_TTL_SECONDS))) (\<lambda>_. ret ())
          else ret ())
     (seq (releaseLock (lock_key storeKey) lockToken) (ret r)))"

text \<open>Nothing after the start of the handler fails, so the fall-back for a Redis error is taken only before it.\<close>

definition use_idempotency :: "nat \<Rightarrow> string \<Rightarrow> string \<Rightarrow> string option \<Rightarrow> HandlerResponse act \<Rightarrow> answer option act" where
  "use_idempotency fuel method path rawKey handler =
     (if method \<notin> {''POST'', ''PUT'', ''PATCH''} \<or> \<not> present rawKey
      then bind handler (\<lambda>r. ret (Some (PassedThrough r)))
      else if length (the rawKey) > IDEMPOTENCY_KEY_MAX_LENGTH \<or> list_ex (\<lambda>c. c = CHR 0x0D \<or> c = CHR 0x0A) (the rawKey)
      then ret (Some Answer400)
      else
        bind (catch (bind (handle fuel (store_key method path (the rawKey))) (\<lambda>d. ret (Inr d))) (\<lambda>_. ret (Inl ()))) (\<lambda>decided.
        case decided of
          Inl _ \<Rightarrow> bind handler (\<lambda>r. ret (Some (PassedThrough r)))
        | Inr None \<Rightarrow> ret None
        | Inr (Some (Replay status body)) \<Rightarrow> ret (Some (Replayed status body))
        | Inr (Some Conflict) \<Rightarrow> ret (Some Answer409)
        | Inr (Some (RunLocked lockToken)) \<Rightarrow>
            bind (runWithLock (store_key method path (the rawKey)) lockToken handler) (\<lambda>r. ret (Some (Ran r)))))"

section \<open>Only one request runs the handler\<close>

lemma lock_key_other: "lock_key k \<noteq> k" "k \<noteq> lock_key k"
  by (simp_all add: lock_key_def)

lemma within_DEL_other: "l \<noteq> k \<Longrightarrow> command_within (keeps k x) (DEL l)"
  by (auto simp: command_within_def DEL_def keeps_def held_def delete_conv')

lemma within_GET_keeps: "command_within (keeps k x) (GET l)"
  by (auto simp: command_within_def GET_def keeps_def)

lemma guar_replayCached: "l \<noteq> k \<Longrightarrow> guarantees (keeps k x) (replayCached l)"
  unfolding replayCached_def
  by (auto intro!: kp.guar kp.guar_redis within_GET_keeps within_DEL_other split: option.splits)

lemma ticks_replayCached: "ticks (replayCached k)"
  unfolding replayCached_def by (auto intro!: ticks_rules split: option.splits)

lemma ticks_await: "ticks await"
  by (simp add: ticks_def await_def)

lemma SET_NX_Inr [returns]: "SET_NX_EX k v ttl t kv = (Inr y, kv') \<longleftrightarrow>
    (if kv_get t k kv \<noteq> None then y = False \<and> kv' = kv else y = True \<and> kv' = AList.update k (v, Some (t + ttl * 1000)) kv)"
  by (auto simp: SET_NX_EX_def)

lemma await_Inr [returns]: "await e s = (Inr y, s') \<longleftrightarrow> s' = (Suc (fst s), e_rely e (fst s) (snd s))"
  by (auto simp: await_def)

lemma contend_lost:
  assumes "kv_get (e_clock e n) (lock_key k) (redis_kv (e_rely e n w)) = Some v"
  shows "contend k tok d poll e (n, w) = (Inr y, s') \<longleftrightarrow> e_redisfail e n = None \<and>
    (if e_clock e (Suc n) \<ge> d then y = Some Conflict \<and> s' = (n + 2, e_rely e n w)
     else poll e (n + 3, e_rely e (n + 2) (e_rely e n w)) = (Inr y, s'))"
  using assms by (auto simp: contend_def bind_def redis_def SET_NX_EX_def clock_def await_def ret_def Let_def eval_nat_numeral
      split: option.splits)

lemma contend_won:
  assumes "kv_get (e_clock e n) (lock_key k) (redis_kv (e_rely e n w)) = None" and "contend k tok d poll e (n, w) = (Inr y, (n', w'))"
  shows "n < n' \<and> y \<noteq> None"
proof -
  let ?m = "\<lambda>again. case again of Some (status, body) \<Rightarrow> seq (releaseLock (lock_key k) tok) (ret (Some (Replay status body)))
       | None \<Rightarrow> ret (Some (RunLocked tok))"
  from assms obtain w1 where run: "bind (replayCached k) ?m e (Suc n, w1) = (Inr y, (n', w'))"
    by (auto simp: contend_def bind_def [of "redis _"] redis_def SET_NX_EX_def Let_def split: option.splits)
  have "ticks (bind (replayCached k) ?m)"
    by (auto intro!: ticks_rules ticks_replayCached simp: releaseLock_def split: option.splits)
  from ticksD [OF this run] have "n < n'" by simp
  moreover obtain again s1 where "?m again e s1 = (Inr y, (n', w'))" using run by (auto simp: bind_Inr)
  then have "y \<noteq> None" by (cases again) (auto simp: returns)
  ultimately show ?thesis by blast
qed

lemma missed:
  assumes "handle_loop (Suc fuel) k tok d e (n, w) = (Inr y, s')" and "\<forall>status body. y \<noteq> Some (Replay status body)"
  obtains n1 w1 where "replayCached k e (n, w) = (Inr None, (n1, w1))"
    "contend k tok d (handle_loop fuel k tok d) e (n1, w1) = (Inr y, s')"
proof -
  from assms(1) obtain hit n1 w1 where "replayCached k e (n, w) = (Inr hit, (n1, w1))"
    "(case hit of Some (status, body) \<Rightarrow> ret (Some (Replay status body))
       | None \<Rightarrow> contend k tok d (handle_loop fuel k tok d)) e (n1, w1) = (Inr y, s')"
    by (auto simp: bind_Inr)
  with assms(2) that show thesis by (cases hit) (auto simp: returns)
qed

lemma handle_loop_excluded:
  assumes "held (lock_key k) x w" and rely: "\<forall>m v. keeps (lock_key k) x v (e_rely e m v)"
    and "handle_loop fuel k tok d e (n, w) = (Inr (Some (RunLocked t)), (n', w'))" and "\<forall>m < n'. e_clock e m < x"
  shows False
  using assms(1,3,4)
proof (induction fuel arbitrary: n w)
  case (Suc fuel)
  from Suc.prems(2) obtain n1 w1 where first: "replayCached k e (n, w) = (Inr None, (n1, w1))"
    and rest: "contend k tok d (handle_loop fuel k tok d) e (n1, w1) = (Inr (Some (RunLocked t)), (n', w'))"
    by (rule missed) simp
  have "held (lock_key k) x w1"
    using guaranteesD [where R = "keeps (lock_key k) x", OF guar_replayCached [OF lock_key_other(2)] _ first] rely Suc.prems(1)
    by (simp add: keeps_def)
  then have lock: "held (lock_key k) x (e_rely e n1 w1)" using rely by (simp add: keeps_def)
  then have lock2: "held (lock_key k) x (e_rely e (n1 + 2) (e_rely e n1 w1))" using rely by (simp add: keeps_def)
  show False
  proof (cases "kv_get (e_clock e n1) (lock_key k) (redis_kv (e_rely e n1 w1))")
    case None
    with contend_won [OF None rest] Suc.prems(3) held_get [OF lock, of "e_clock e n1"] show False by simp
  next
    case (Some v)
    from rest [unfolded contend_lost [OF Some]] Suc.IH [OF lock2] Suc.prems(3) show False by (auto split: if_splits)
  qed
qed (simp add: returns)

section \<open>The wait ends\<close>

text \<open>Every round of the loop sleeps 100 ms and takes at least four ticks.\<close>

definition paced :: "env \<Rightarrow> bool" where
  "paced e \<longleftrightarrow> mono (e_clock e) \<and> (\<forall>m. e_clock e m + IDEMPOTENCY_POLL_INTERVAL_MS \<le> e_clock e (m + 4))"

lemma replayCached_tick: "replayCached k e (n, w) = (Inr y, (n1, w1)) \<Longrightarrow> Suc n \<le> n1"
  by (auto simp: replayCached_def returns catch_Inr split: if_splits option.splits
      dest!: ticksD [OF ticks_basic(4)])

lemma out_of_fuel:
  assumes "paced e" and "handle_loop fuel k tok d e (n, w) = (Inr None, s')"
  shows "fuel = 0 \<or> e_clock e n + 100 * (int fuel - 1) < d"
  using assms(2)
proof (induction fuel arbitrary: n w)
  case (Suc fuel)
  from Suc.prems obtain n1 w1 where first: "replayCached k e (n, w) = (Inr None, (n1, w1))"
    and more: "contend k tok d (handle_loop fuel k tok d) e (n1, w1) = (Inr None, s')"
    by (rule missed) simp
  obtain v where "kv_get (e_clock e n1) (lock_key k) (redis_kv (e_rely e n1 w1)) = Some v"
    using contend_won [of e n1 k w1 tok d _ None "fst s'" "snd s'"] more by (cases s') fastforce
  from more [unfolded contend_lost [OF this]]
  have t: "e_clock e (Suc n1) < d" and rest: "handle_loop fuel k tok d e (n1 + 3, e_rely e (n1 + 2) (e_rely e n1 w1)) = (Inr None, s')"
    by (auto split: if_splits)
  have mono: "mono (e_clock e)" and step: "e_clock e n + 100 \<le> e_clock e (n + 4)"
    using assms(1) by (auto simp: paced_def IDEMPOTENCY_POLL_INTERVAL_MS_def)
  from replayCached_tick [OF first] have "n + 4 \<le> n1 + 3" "n \<le> Suc n1" by simp_all
  with mono have "e_clock e (n + 4) \<le> e_clock e (n1 + 3)" "e_clock e n \<le> e_clock e (Suc n1)" by (auto simp: mono_def)
  with Suc.IH [OF rest] step t show ?case by auto
qed simp

lemma handle_ends:
  assumes "paced e" and "251 \<le> fuel"
  shows "handle fuel k e (n, w) \<noteq> (Inr None, s')"
proof
  assume "handle fuel k e (n, w) = (Inr None, s')"
  then have "handle_loop fuel k (e_uuid e n) (e_clock e (Suc n) + IDEMPOTENCY_WAIT_TIMEOUT_MS) e (Suc (Suc n), w) = (Inr None, s')"
    by (auto simp: handle_def returns)
  from out_of_fuel [OF assms(1) this] assms(2)
  have "e_clock e (Suc (Suc n)) + 100 * (int fuel - 1) < e_clock e (Suc n) + 25000"
    by (simp add: IDEMPOTENCY_WAIT_TIMEOUT_MS_def)
  moreover have "e_clock e (Suc n) \<le> e_clock e (Suc (Suc n))" using assms(1) by (simp add: paced_def mono_def)
  ultimately show False using assms(2) by simp
qed

section \<open>Runs that cannot fail\<close>

definition total_in :: "env \<Rightarrow> 'a act \<Rightarrow> bool" where
  "total_in e m \<longleftrightarrow> (\<forall>s. \<exists>y s'. m e s = (Inr y, s'))"

lemma total_ret: "total_in e (ret x)" "total_in e clock" "total_in e randomUUID" "total_in e await"
  by (auto simp: total_in_def ret_def clock_def randomUUID_def await_def)

lemma total_bind: "total_in e m \<Longrightarrow> (\<And>x. total_in e (f x)) \<Longrightarrow> total_in e (bind m f)"
  unfolding total_in_def by (meson bind_Inr)

lemma total_catch: "(\<And>x. total_in e (h x)) \<Longrightarrow> total_in e (catch m h)"
  unfolding total_in_def catch_def by (auto split: prod.splits sum.splits)

lemma total_redis: "\<forall>m. e_redisfail e m = None \<Longrightarrow> (\<And>t kv. \<exists>y kv'. cmd t kv = (Inr y, kv')) \<Longrightarrow> total_in e (redis cmd)"
  unfolding total_in_def redis_def Let_def by (auto split: prod.splits sum.splits) (metis Inr_Inl_False prod.inject)+

lemmas total_rules = total_ret total_bind total_catch total_redis

lemma total_replayCached: "\<forall>m. e_redisfail e m = None \<Longrightarrow> total_in e (replayCached k)"
  unfolding replayCached_def by (auto intro!: total_rules simp: GET_def split: option.splits)

lemma total_SET_NX: "\<exists>y kv'. SET_NX_EX k v ttl t kv = (Inr y, kv')"
  by (cases "kv_get t k kv") (auto simp: SET_NX_EX_def)

lemma total_handle_loop: "\<forall>m. e_redisfail e m = None \<Longrightarrow> total_in e (handle_loop fuel k tok d)"
  by (induction fuel) (auto intro!: total_rules total_replayCached total_SET_NX simp: contend_def releaseLock_def split: option.splits)

lemma total_handle: "\<forall>m. e_redisfail e m = None \<Longrightarrow> total_in e (handle fuel k)"
  unfolding handle_def by (auto intro!: total_rules total_handle_loop)

section \<open>A key is processed once\<close>

definition valid_key :: "string \<Rightarrow> string \<Rightarrow> bool" where
  "valid_key method rawKey \<longleftrightarrow> method \<in> {''POST'', ''PUT'', ''PATCH''} \<and> rawKey \<noteq> [] \<and> length rawKey \<le> IDEMPOTENCY_KEY_MAX_LENGTH
     \<and> \<not> list_ex (\<lambda>c. c = CHR 0x0D \<or> c = CHR 0x0A) rawKey"

lemma use_valid:
  assumes "valid_key method rawKey"
  shows "use_idempotency fuel method path (Some rawKey) handler =
    bind (catch (bind (handle fuel (store_key method path rawKey)) (\<lambda>d. ret (Inr d))) (\<lambda>_. ret (Inl ()))) (\<lambda>decided.
        case decided of
          Inl _ \<Rightarrow> bind handler (\<lambda>r. ret (Some (PassedThrough r)))
        | Inr None \<Rightarrow> ret None
        | Inr (Some (Replay status body)) \<Rightarrow> ret (Some (Replayed status body))
        | Inr (Some Conflict) \<Rightarrow> ret (Some Answer409)
        | Inr (Some (RunLocked lockToken)) \<Rightarrow>
            bind (runWithLock (store_key method path rawKey) lockToken handler) (\<lambda>r. ret (Some (Ran r))))"
  using assms by (auto simp: use_idempotency_def valid_key_def present_def)

text \<open>
  C17. While one request holds the lock of an idempotency key, no other request with that key runs the handler: as long as
  Redis answers, it either replays a cached response or is answered 409, and it does so after at most 251 rounds of
  waiting, whatever else happens to the stored entries and for any handler.
\<close>

theorem idempotency_exclusive:
  assumes key: "valid_key method rawKey" and lock: "held (lock_key (store_key method path rawKey)) x w"
    and rely: "\<forall>m v. keeps (lock_key (store_key method path rawKey)) x v (e_rely e m v)"
    and up: "\<forall>m. e_redisfail e m = None" and clk: "paced e" and fuel: "251 \<le> fuel"
    and run: "use_idempotency fuel method path (Some rawKey) handler e (n, w) = (r, (n', w'))" and valid: "\<forall>m < n'. e_clock e m < x"
    and handler: "ticks handler"
  shows "r = Inr (Some Answer409) \<or> (\<exists>status body. r = Inr (Some (Replayed status body)))"
proof -
  let ?k = "store_key method path rawKey"
  obtain dec n1 w1 where h: "handle fuel ?k e (n, w) = (Inr dec, (n1, w1))"
    using total_handle [OF up] unfolding total_in_def by (metis surj_pair)
  have "dec \<noteq> None" using handle_ends [OF clk fuel, of ?k n w] h by auto
  then obtain d where d: "dec = Some d" by blast
  have n1: "n1 \<le> n'" if "d = RunLocked t" for t
  proof -
    have "ticks (bind (runWithLock ?k t handler) (\<lambda>r. ret (Some (Ran r))))"
      unfolding runWithLock_def releaseLock_def by (auto intro!: ticks_rules handler)
    moreover have "bind (runWithLock ?k t handler) (\<lambda>r. ret (Some (Ran r))) e (n1, w1) = (r, (n', w'))"
      using run h d that by (simp add: use_valid [OF key] bind_def [of "catch _ _"] bind_def [of "handle _ _"] catch_def ret_def)
    ultimately show ?thesis by (rule ticksD)
  qed
  have "d \<noteq> RunLocked t" for t
  proof
    assume t: "d = RunLocked t"
    with h d have "handle_loop fuel ?k (e_uuid e n) (e_clock e (Suc n) + IDEMPOTENCY_WAIT_TIMEOUT_MS) e (Suc (Suc n), w)
        = (Inr (Some (RunLocked t)), (n1, w1))"
      by (auto simp: handle_def returns)
    with handle_loop_excluded [OF lock rely] valid n1 [OF t] show False by (meson less_le_trans)
  qed
  with run h d show ?thesis
    by (cases d) (auto simp: use_valid [OF key] bind_def catch_def ret_def)
qed

text \<open>A second request while the first holds the lock, on a slow clock.\<close>

definition waiting_env :: env where
  "waiting_env = (quiet_env 0)\<lparr>e_clock := (\<lambda>n. 30000 * int n)\<rparr>"

definition busy_world :: world where
  "busy_world = empty_world\<lparr>redis_kv := [(lock_key (store_key ''POST'' ''/claims'' ''k''), RText ''other'', Some 1000000)]\<rparr>"

definition sample_handler :: "HandlerResponse act" where
  "sample_handler = ret \<lparr>hr_status = 201, hr_body = ''{}'', hr_json = True\<rparr>"

lemma handle_loop_once:
  assumes "replayCached k e (n, w) = (Inr None, (n + 1, w))" and "contend k tok d (handle_loop fuel k tok d) e (n + 1, w) = (Inr y, s')"
  shows "handle_loop (Suc fuel) k tok d e (n, w) = (Inr y, s')"
  using assms by (simp add: bind_def)

lemma busy_run: "use_idempotency 251 ''POST'' ''/claims'' (Some ''k'') sample_handler waiting_env (0, busy_world) = (Inr (Some Answer409), (5, busy_world))"
proof -
  let ?k = "store_key ''POST'' ''/claims'' ''k''"
  have clk: "e_clock waiting_env = (\<lambda>n. 30000 * int n)" "e_rely waiting_env = (\<lambda>n w. w)" "e_redisfail waiting_env = (\<lambda>n. None)"
    by (simp_all add: waiting_env_def quiet_env_def)
  have read: "replayCached ?k waiting_env (2, busy_world) = (Inr None, (2 + 1, busy_world))"
    by (simp add: replayCached_def bind_def redis_def GET_def kv_get_def clk busy_world_def lock_key_other ret_def)
  have "kv_get (e_clock waiting_env (2 + 1)) (lock_key ?k) (redis_kv (e_rely waiting_env (2 + 1) busy_world)) = Some (RText ''other'')"
    by (simp add: kv_get_def clk busy_world_def)
  then have "contend ?k tok 55000 poll waiting_env (2 + 1, busy_world) = (Inr (Some Conflict), (5, busy_world))" for tok poll
    by (simp add: contend_lost clk)
  from handle_loop_once [OF read this, of 250]
  have "handle_loop 251 ?k tok 55000 waiting_env (Suc (Suc 0), busy_world) = (Inr (Some Conflict), (5, busy_world))" for tok
    by (simp only: numeral_2_eq_2 Suc_numeral) (simp del: handle_loop.simps)
  then have "handle 251 ?k waiting_env (0, busy_world) = (Inr (Some Conflict), (5, busy_world))"
    by (simp add: handle_def bind_def randomUUID_def clock_def clk IDEMPOTENCY_WAIT_TIMEOUT_MS_def del: handle_loop.simps)
  moreover have "valid_key ''POST'' ''k''" by (simp add: valid_key_def IDEMPOTENCY_KEY_MAX_LENGTH_def)
  ultimately show ?thesis by (simp add: use_valid bind_def catch_def ret_def)
qed

theorem idempotency_exclusive_witness:
  "use_idempotency 251 ''POST'' ''/claims'' (Some ''k'') sample_handler waiting_env (0, busy_world) = (Inr (Some Answer409), (5, busy_world))
   \<and> (let r = fst (use_idempotency 251 ''POST'' ''/claims'' (Some ''k'') sample_handler waiting_env (0, busy_world)) in
        r = Inr (Some Answer409) \<or> (\<exists>status body. r = Inr (Some (Replayed status body))))"
proof -
  have "valid_key ''POST'' ''k''" by (simp add: valid_key_def IDEMPOTENCY_KEY_MAX_LENGTH_def)
  moreover have "held (lock_key (store_key ''POST'' ''/claims'' ''k'')) 1000000 busy_world" by (simp add: held_def busy_world_def)
  moreover have "\<forall>m v. keeps (lock_key (store_key ''POST'' ''/claims'' ''k'')) 1000000 v (e_rely waiting_env m v)"
    by (simp add: keeps_def waiting_env_def quiet_env_def)
  moreover have "\<forall>m. e_redisfail waiting_env m = None" by (simp add: waiting_env_def quiet_env_def)
  moreover have "paced waiting_env"
    by (simp add: paced_def waiting_env_def mono_def IDEMPOTENCY_POLL_INTERVAL_MS_def)
  moreover have "\<forall>m < 5. e_clock waiting_env m < 1000000" by (auto simp: waiting_env_def)
  moreover have "ticks sample_handler" by (simp add: sample_handler_def ticks_basic)
  ultimately show ?thesis
    using idempotency_exclusive [OF _ _ _ _ _ _ busy_run, of 1000000] busy_run by simp
qed

section \<open>Replay\<close>

definition entry_held :: "string \<Rightarrow> redis_value \<Rightarrow> int \<Rightarrow> world \<Rightarrow> bool" where
  "entry_held k v x w \<longleftrightarrow> (\<exists>y. map_of (redis_kv w) k = Some (v, Some y) \<and> x \<le> y)"

definition keeps_entry :: "string \<Rightarrow> redis_value \<Rightarrow> int \<Rightarrow> world \<Rightarrow> world \<Rightarrow> bool" where
  "keeps_entry k v x w u \<longleftrightarrow> (entry_held k v x w \<longrightarrow> entry_held k v x u)"

interpretation ke: world_order "keeps_entry k v x" for k v x
  by unfold_locales (auto simp: keeps_entry_def)

lemma entry_get: "entry_held k v x w \<Longrightarrow> t < x \<Longrightarrow> kv_get t k (redis_kv w) = Some v"
  by (auto simp: entry_held_def kv_get_def)

lemma guar_releaseLock: "guarantees (keeps_entry k v x) (releaseLock (lock_key k) tok)"
proof -
  have "command_within (keeps_entry k v x) (DEL_IF (lock_key k) (RText tok))"
    by (auto simp: command_within_def DEL_IF_def keeps_entry_def entry_held_def delete_conv' lock_key_other)
  then show ?thesis unfolding releaseLock_def by (auto intro!: ke.guar ke.guar_redis)
qed

lemma runWithLock_caches:
  assumes run: "runWithLock k tok handler e (n, w) = (Inr r, (n1, w1))" and ok: "hr_json r" "200 \<le> hr_status r" "hr_status r < 300"
    and up: "\<forall>m. e_redisfail e m = None" and clk: "mono (e_clock e)" and handler: "ticks handler"
    and rely: "\<forall>m v. keeps_entry k (RResponse (hr_status r) (hr_body r)) (e_clock e n + 86400000) v (e_rely e m v)"
  shows "entry_held k (RResponse (hr_status r) (hr_body r)) (e_clock e n + 86400000) w1"
proof -
  let ?v = "RResponse (hr_status r) (hr_body r)" and ?x = "e_clock e n + 86400000"
  let ?set = "catch (redis (SET_EX k ?v (Some IDEMPOTENCY_TTL_SECONDS))) (\<lambda>_. ret ())"
  from run ok obtain n2 w2 s3 s4 where h: "handler e (n, w) = (Inr r, (n2, w2))" and set: "?set e (n2, w2) = (Inr (), s3)"
    and release: "releaseLock (lock_key k) tok e s3 = (Inr (), (n1, w1))"
    by (auto simp: runWithLock_def returns)
  have "e_clock e n \<le> e_clock e n2" using ticksD [OF handler h] clk by (simp add: mono_def)
  moreover have s3: "s3 = (Suc n2, (e_rely e n2 w2)\<lparr>redis_kv := AList.update k (?v, Some (e_clock e n2 + 86400000)) (redis_kv (e_rely e n2 w2))\<rparr>)"
    using set up by (auto simp: catch_def redis_def SET_EX_def SET_PX_def IDEMPOTENCY_TTL_SECONDS_def Let_def)
  ultimately have "entry_held k ?v ?x (snd s3)" by (simp add: entry_held_def update_conv')
  with guaranteesD [OF guar_releaseLock [of k ?v ?x tok]] release rely s3 show ?thesis by (metis keeps_entry_def snd_conv)
qed

text \<open>
  A request that completed successfully under its idempotency key is never repeated: for 24 hours every request with
  the same method, path and key is answered with the stored status and body of the first, and its handler is not run,
  as long as Redis answers and keeps the entry.
\<close>

theorem idempotent_replay:
  assumes key: "valid_key method rawKey" and k: "k = store_key method path rawKey"
    and first: "runWithLock k tok handler e (n, w) = (Inr r, (n1, w1))" and ok: "hr_json r" "200 \<le> hr_status r" "hr_status r < 300"
    and up: "\<forall>m. e_redisfail e m = None" and clk: "mono (e_clock e)" and handler: "ticks handler"
    and rely: "\<forall>m v. keeps_entry k (RResponse (hr_status r) (hr_body r)) (e_clock e n + 86400000) v (e_rely e m v)"
    and later: "keeps_entry k (RResponse (hr_status r) (hr_body r)) (e_clock e n + 86400000) w1 w2"
    and day: "e_clock e (n2 + 2) < e_clock e n + 86400000" and fuel: "0 < fuel"
  shows "use_idempotency fuel method path (Some rawKey) handler2 e (n2, w2)
    = (Inr (Some (Replayed (hr_status r) (hr_body r))), (n2 + 3, e_rely e (n2 + 2) w2))"
proof -
  let ?v = "RResponse (hr_status r) (hr_body r)" and ?x = "e_clock e n + 86400000"
  obtain f where f: "fuel = Suc f" using fuel by (cases fuel) auto
  have "entry_held k ?v ?x w1" by (rule runWithLock_caches [OF first ok up clk handler rely])
  with later rely have "entry_held k ?v ?x (e_rely e (n2 + 2) w2)" by (simp add: keeps_entry_def)
  from entry_get [OF this day] have "kv_get (e_clock e (Suc (Suc n2))) k (redis_kv (e_rely e (Suc (Suc n2)) w2)) = Some ?v" by simp
  then have "replayCached k e (Suc (Suc n2), w2) = (Inr (Some (hr_status r, hr_body r)), (n2 + 3, e_rely e (n2 + 2) w2))"
    using up ok by (simp add: replayCached_def bind_def redis_def GET_def ret_def Let_def eval_nat_numeral)
  then show ?thesis
    by (simp add: use_valid [OF key] f handle_def bind_def randomUUID_def clock_def catch_def ret_def k)
qed

definition replay_world :: world where
  "replay_world = empty_world\<lparr>redis_kv := [(store_key ''POST'' ''/claims'' ''k'', RResponse 201 ''{}'', Some 86405000)]\<rparr>"

theorem idempotent_replay_witness:
  "use_idempotency 251 ''POST'' ''/claims'' (Some ''k'') (throw (PlainError ''not run'')) (quiet_env 5000) (9, replay_world)
    = (Inr (Some (Replayed 201 ''{}'')), (12, replay_world))"
proof -
  have first: "runWithLock (store_key ''POST'' ''/claims'' ''k'') ''t'' sample_handler (quiet_env 5000) (0, empty_world)
      = (Inr \<lparr>hr_status = 201, hr_body = ''{}'', hr_json = True\<rparr>, (2, replay_world))"
    by (simp add: runWithLock_def sample_handler_def releaseLock_def bind_def catch_def redis_def SET_EX_def SET_PX_def DEL_IF_def
        ret_def kv_get_def quiet_env_def empty_world_def replay_world_def IDEMPOTENCY_TTL_SECONDS_def lock_key_other)
  have "valid_key ''POST'' ''k''" by (simp add: valid_key_def IDEMPOTENCY_KEY_MAX_LENGTH_def)
  from idempotent_replay [OF this refl first, of replay_world 9 251] show ?thesis
    by (simp add: quiet_env_def keeps_entry_def mono_def sample_handler_def ticks_basic)
qed

section \<open>Keys that are not kept apart\<close>

text \<open>
  The parts of a store key are joined by colons that may occur in them, and the lock of one key is the entry of another: a
  request whose key is \<^verbatim>\<open>k:lock\<close> finds the token of the lock of \<^verbatim>\<open>k\<close>, takes it for a corrupted entry and
  deletes it.
\<close>

theorem lock_is_neighbour_entry: "lock_key (store_key method path rawKey) = store_key method path (rawKey @ '':lock'')"
  by (simp add: lock_key_def store_key_def)

theorem lock_deleted_by_neighbour:
  assumes "map_of (redis_kv w) (lock_key (store_key method path rawKey)) = Some (RText tok, Some y)" and "tok \<noteq> []"
    and "e_clock e n < y" and "\<forall>m. e_redisfail e m = None" and "\<forall>m v. e_rely e m v = v"
  shows "\<exists>w'. replayCached (store_key method path (rawKey @ '':lock'')) e (n, w) = (Inr None, (n + 2, w'))
    \<and> kv_get t (lock_key (store_key method path rawKey)) (redis_kv w') = None"
  using assms unfolding lock_is_neighbour_entry [symmetric]
  by (simp add: replayCached_def bind_def catch_def redis_def GET_def DEL_def ret_def kv_get_def delete_conv')

theorem store_keys_collide: "store_key ''POST'' ''/a'' ''b:c'' = store_key ''POST'' ''/a:b'' ''c''"
  by (simp add: store_key_def)

end
