(* ===== verification/Ssrf.thy ===== *)
theory Ssrf
  imports Regex
begin

text \<open>
  The check of webhook targets, \<^verbatim>\<open>src/common/webhooks/ssrf.validator.ts\<close>. URL parsing, the test for an IPv6
  address and the numbers that \<^verbatim>\<open>Number\<close> reads are parameters; of the last only the value of a run of digits is used.
\<close>

section \<open>The checks\<close>

record net_lib =
  nl_number :: "string \<Rightarrow> jsnum"
  nl_isIPv6 :: "string \<Rightarrow> bool"
  nl_URL :: "string \<Rightarrow> (string \<times> string) option"

text \<open>A decimal octet without leading zeros, and the dotted form of \<^verbatim>\<open>net.isIPv4\<close>.\<close>

definition rx_octet :: rx where
  "rx_octet = Alt (rx_seq [rx_lit ''25'', rx_range (CHR ''0'') (CHR ''5'')])
     (Alt (rx_seq [rx_lit ''2'', rx_range (CHR ''0'') (CHR ''4''), rx_digit])
     (Alt (rx_seq [rx_lit ''1'', rx_digit, rx_digit])
          (rx_seq [rx_opt (rx_range (CHR ''1'') (CHR ''9'')), rx_digit])))"

definition is_octet :: "string \<Rightarrow> bool" where
  "is_octet s \<longleftrightarrow> rx_test rx_octet s"

definition isIPv4 :: "string \<Rightarrow> bool" where
  "isIPv4 s \<longleftrightarrow> length (js_split (CHR ''.'') s) = 4 \<and> list_all is_octet (js_split (CHR ''.'') s)"

definition js_between :: "int \<Rightarrow> jsnum \<Rightarrow> int \<Rightarrow> bool" where
  "js_between lo x hi \<longleftrightarrow> (case x of Fin r \<Rightarrow> of_int lo \<le> r \<and> r \<le> of_int hi | _ \<Rightarrow> False)"

definition isPrivateIPv4 :: "net_lib \<Rightarrow> string \<Rightarrow> bool" where
  "isPrivateIPv4 lib ip =
     (let parts = map (nl_number lib) (js_split (CHR ''.'') ip) in
      if length parts \<noteq> 4 \<or> \<not> list_all (\<lambda>p. js_between 0 p 255) parts then False
      else
        let b0 = parts ! 0; b1 = parts ! 1; b2 = parts ! 2 in
        b0 = js_int 0 \<or> b0 = js_int 10 \<or> b0 = js_int 127
        \<or> (b0 = js_int 100 \<and> js_between 64 b1 127)
        \<or> (b0 = js_int 169 \<and> b1 = js_int 254)
        \<or> (b0 = js_int 172 \<and> js_between 16 b1 31)
        \<or> (b0 = js_int 192 \<and> b1 = js_int 0 \<and> b2 = js_int 2)
        \<or> (b0 = js_int 192 \<and> b1 = js_int 168)
        \<or> (b0 = js_int 198 \<and> b1 = js_int 51 \<and> b2 = js_int 100)
        \<or> (b0 = js_int 203 \<and> b1 = js_int 0 \<and> b2 = js_int 113)
        \<or> js_between 224 b0 255)"

definition is_hex :: "char \<Rightarrow> bool" where
  "is_hex c \<longleftrightarrow> is_digit c \<or> c \<in> set ''abcdef''"

text \<open>The two prefix tests, on text that is in lower case already.\<close>

fun unique_local :: "string \<Rightarrow> bool" where
  "unique_local (a # b # c # d # e # _) = (a = CHR ''f'' \<and> b \<in> set ''cd'' \<and> is_hex c \<and> is_hex d \<and> e = CHR '':'')"
| "unique_local _ = False"

fun link_local :: "string \<Rightarrow> bool" where
  "link_local (a # b # c # d # e # _) = (a = CHR ''f'' \<and> b = CHR ''e'' \<and> c \<in> set ''89ab'' \<and> is_hex d \<and> e = CHR '':'')"
| "link_local _ = False"

definition isPrivateIPv6 :: "net_lib \<Rightarrow> string \<Rightarrow> bool" where
  "isPrivateIPv6 lib ip =
     (let normalized = to_lower ip in
      if normalized = ''::1'' \<or> normalized = ''::'' then True
      else if starts_with ''::ffff:'' normalized \<and> isIPv4 (drop 7 normalized) then isPrivateIPv4 lib (drop 7 normalized)
      else unique_local normalized \<or> link_local normalized)"

definition strip_brackets :: "string \<Rightarrow> string" where
  "strip_brackets s =
     (let t = (if s \<noteq> [] \<and> hd s = CHR ''['' then tl s else s)
      in if t \<noteq> [] \<and> last t = CHR '']'' then butlast t else t)"

definition isPrivateOrInternalHost :: "net_lib \<Rightarrow> string \<Rightarrow> bool" where
  "isPrivateOrInternalHost lib rawHost =
     (let host = trim (to_lower (strip_brackets rawHost)) in
      if host = ''localhost'' \<or> ends_with ''.localhost'' host then True
      else if host = ''metadata.google.internal'' \<or> host = ''metadata'' \<or> host = ''instance-data''
          \<or> ends_with ''.internal'' host \<or> ends_with ''.local'' host then True
      else if isIPv4 host then isPrivateIPv4 lib host
      else if nl_isIPv6 lib host then isPrivateIPv6 lib host
      else False)"

definition validateWebhookEndpoint :: "net_lib \<Rightarrow> string \<Rightarrow> unit outcome" where
  "validateWebhookEndpoint lib rawUrl =
     (if rawUrl = [] then Inl (BadRequestException ''Webhook URL is required'')
      else case nl_URL lib rawUrl of
          None \<Rightarrow> Inl (BadRequestException ''Invalid webhook URL format'')
        | Some (protocol, hostname) \<Rightarrow>
            if protocol \<noteq> ''https:'' then Inl (BadRequestException ''Webhook URL must start with https://'')
            else if isPrivateOrInternalHost lib hostname
            then Inl (BadRequestException ''Webhook endpoint cannot be a private, internal, or metadata IP address'')
            else Inr ())"

section \<open>Address ranges\<close>

text \<open>The address as a number of 32 bits, and the ranges that are not to be reached, as network and prefix length.\<close>

definition address :: "int \<Rightarrow> int \<Rightarrow> int \<Rightarrow> int \<Rightarrow> int" where
  "address a b c d = ((a * 256 + b) * 256 + c) * 256 + d"

definition in_cidr :: "int \<Rightarrow> int \<times> nat \<Rightarrow> bool" where
  "in_cidr x net = (x div 2 ^ (32 - snd net) = fst net div 2 ^ (32 - snd net))"

definition reserved :: "(int \<times> nat) list" where
  "reserved = [(address 0 0 0 0, 8), (address 10 0 0 0, 8), (address 127 0 0 0, 8), (address 100 64 0 0, 10),
     (address 169 254 0 0, 16), (address 172 16 0 0, 12), (address 192 0 2 0, 24), (address 192 168 0 0, 16),
     (address 198 51 100 0, 24), (address 203 0 113 0, 24), (address 224 0 0 0, 4), (address 240 0 0 0, 4)]"

definition dotted :: "int \<Rightarrow> int \<Rightarrow> int \<Rightarrow> int \<Rightarrow> string" where
  "dotted a b c d = nat_str a @ CHR ''.'' # nat_str b @ CHR ''.'' # nat_str c @ CHR ''.'' # nat_str d"

abbreviation byte :: "int \<Rightarrow> bool" where
  "byte x \<equiv> 0 \<le> x \<and> x \<le> 255"

lemma radix_div: "0 \<le> q \<Longrightarrow> q < m \<Longrightarrow> (x * m + q) div m = x" for m :: int
  by simp

lemma radix_eq:
  fixes m :: int
  assumes "0 \<le> q" "q < m" "0 \<le> r" "r < m"
  shows "x * m + q = y * m + r \<longleftrightarrow> x = y \<and> q = r"
  using radix_div [OF assms(1,2), of x] radix_div [OF assms(3,4), of y] by auto

lemma cidr_24: "byte d \<Longrightarrow> address a b c d div 256 = (a * 256 + b) * 256 + c"
  unfolding address_def by (rule radix_div) simp_all

lemma cidr_16:
  assumes "byte c" "byte d"
  shows "address a b c d div 65536 = a * 256 + b"
proof -
  have "address a b c d div 65536 = address a b c d div 256 div 256" by (simp flip: zdiv_zmult2_eq)
  also have "\<dots> = a * 256 + b" unfolding cidr_24 [OF assms(2)] by (rule radix_div) (use assms in simp_all)
  finally show ?thesis .
qed

lemma cidr_8:
  assumes "byte b" "byte c" "byte d"
  shows "address a b c d div 16777216 = a"
proof -
  have "address a b c d div 16777216 = address a b c d div 65536 div 256" by (simp flip: zdiv_zmult2_eq)
  also have "\<dots> = a" unfolding cidr_16 [OF assms(2,3)] by (rule radix_div) (use assms in simp_all)
  finally show ?thesis .
qed

lemma cidr_10:
  assumes "byte c" "byte d"
  shows "address a b c d div 4194304 = a * 4 + b div 64"
proof -
  have "address a b c d div 4194304 = address a b c d div 65536 div 64" by (simp flip: zdiv_zmult2_eq)
  also have "\<dots> = (b + (a * 4) * 64) div 64" by (simp add: cidr_16 [OF assms])
  also have "\<dots> = a * 4 + b div 64" by (subst div_mult_self1) simp_all
  finally show ?thesis .
qed

lemma cidr_12:
  assumes "byte c" "byte d"
  shows "address a b c d div 1048576 = a * 16 + b div 16"
proof -
  have "address a b c d div 1048576 = address a b c d div 65536 div 16" by (simp flip: zdiv_zmult2_eq)
  also have "\<dots> = (b + (a * 16) * 16) div 16" by (simp add: cidr_16 [OF assms])
  also have "\<dots> = a * 16 + b div 16" by (subst div_mult_self1) simp_all
  finally show ?thesis .
qed

lemma cidr_4:
  assumes "byte b" "byte c" "byte d"
  shows "address a b c d div 268435456 = a div 16"
proof -
  have "address a b c d div 268435456 = address a b c d div 16777216 div 16" by (simp flip: zdiv_zmult2_eq)
  then show ?thesis by (simp add: cidr_8 [OF assms])
qed

text \<open>The ranges, octet by octet.\<close>

lemma reserved_prefixes:
  "list_ex (in_cidr x) reserved \<longleftrightarrow> x div 16777216 = 0 \<or> x div 16777216 = 10 \<or> x div 16777216 = 127 \<or> x div 4194304 = 401
     \<or> x div 65536 = 43518 \<or> x div 1048576 = 2753 \<or> x div 256 = 12582914 \<or> x div 65536 = 49320
     \<or> x div 256 = 12989284 \<or> x div 256 = 13303921 \<or> x div 268435456 = 14 \<or> x div 268435456 = 15"
  by (simp add: reserved_def in_cidr_def address_def)

lemma reserved_octets:
  assumes "byte a" "byte b" "byte c" "byte d"
  shows "list_ex (in_cidr (address a b c d)) reserved \<longleftrightarrow>
    a = 0 \<or> a = 10 \<or> a = 127 \<or> (a = 100 \<and> 64 \<le> b \<and> b \<le> 127) \<or> (a = 169 \<and> b = 254) \<or> (a = 172 \<and> 16 \<le> b \<and> b \<le> 31)
    \<or> (a = 192 \<and> b = 0 \<and> c = 2) \<or> (a = 192 \<and> b = 168) \<or> (a = 198 \<and> b = 51 \<and> c = 100) \<or> (a = 203 \<and> b = 0 \<and> c = 113)
    \<or> 224 \<le> a"
proof -
  have q: "0 \<le> b div 64" "b div 64 < 4" "b div 64 = 1 \<longleftrightarrow> 64 \<le> b \<and> b \<le> 127" using assms(2) by auto
  have r: "0 \<le> b div 16" "b div 16 < 16" "b div 16 = 1 \<longleftrightarrow> 16 \<le> b \<and> b \<le> 31" using assms(2) by auto
  have e1: "a * 4 + b div 64 = 401 \<longleftrightarrow> a = 100 \<and> 64 \<le> b \<and> b \<le> 127"
    using radix_eq [OF q(1,2), of 1 a 100] q(3) by simp
  have e2: "a * 16 + b div 16 = 2753 \<longleftrightarrow> a = 172 \<and> 16 \<le> b \<and> b \<le> 31"
    using radix_eq [OF r(1,2), of 1 a 172] r(3) by simp
  have e3: "a * 256 + b = 43518 \<longleftrightarrow> a = 169 \<and> b = 254" "a * 256 + b = 49320 \<longleftrightarrow> a = 192 \<and> b = 168"
    using radix_eq [of b 256 254 a 169] radix_eq [of b 256 168 a 192] assms by simp_all
  have e4: "(a * 256 + b) * 256 + c = 12582914 \<longleftrightarrow> a = 192 \<and> b = 0 \<and> c = 2"
    using radix_eq [of c 256 2 "a * 256 + b" 49152] radix_eq [of b 256 0 a 192] assms by simp
  have e5: "(a * 256 + b) * 256 + c = 12989284 \<longleftrightarrow> a = 198 \<and> b = 51 \<and> c = 100"
    using radix_eq [of c 256 100 "a * 256 + b" 50739] radix_eq [of b 256 51 a 198] assms by simp
  have e6: "(a * 256 + b) * 256 + c = 13303921 \<longleftrightarrow> a = 203 \<and> b = 0 \<and> c = 113"
    using radix_eq [of c 256 113 "a * 256 + b" 51968] radix_eq [of b 256 0 a 203] assms by simp
  have e7: "a div 16 = 14 \<or> a div 16 = 15 \<longleftrightarrow> 224 \<le> a" using assms(1) by auto
  show ?thesis
    by (simp only: reserved_prefixes cidr_8 [OF assms(2-4)] cidr_16 [OF assms(3,4)] cidr_24 [OF assms(4)] cidr_10 [OF assms(3,4)]
        cidr_12 [OF assms(3,4)] cidr_4 [OF assms(2-4)] e1 e2 e3 e4 e5 e6 e7)
qed

section \<open>Dotted addresses\<close>

definition reads_digits :: "net_lib \<Rightarrow> bool" where
  "reads_digits lib \<longleftrightarrow> (\<forall>s. s \<noteq> [] \<and> list_all is_digit s \<longrightarrow> nl_number lib s = js_int (digits_val s))"

lemma octets: "list_all (\<lambda>n. is_octet (nat_str (int n))) [0..<256]"
  by code_simp

lemma octet_nat_str: "byte n \<Longrightarrow> is_octet (nat_str n)"
  using octets by (auto simp: list_all_iff dest!: bspec [of _ _ "nat n"])

lemma dot_not_digit: "list_all is_digit s \<Longrightarrow> CHR ''.'' \<notin> set s"
  by (auto simp: list_all_iff is_digit_def)

lemma split_dotted:
  assumes "byte a" "byte b" "byte c" "byte d"
  shows "js_split (CHR ''.'') (dotted a b c d) = [nat_str a, nat_str b, nat_str c, nat_str d]"
  using assms by (simp add: dotted_def js_split_append js_split_none dot_not_digit)

lemma js_between_int [simp]: "js_between lo (js_int n) hi \<longleftrightarrow> lo \<le> n \<and> n \<le> hi"
  by (simp add: js_between_def js_int_def)

lemma js_int_eq [simp]: "js_int m = js_int n \<longleftrightarrow> m = n"
  by (simp add: js_int_def)

lemma isPrivateIPv4_dotted:
  assumes "reads_digits lib" and bytes: "byte a" "byte b" "byte c" "byte d"
  shows "isPrivateIPv4 lib (dotted a b c d) \<longleftrightarrow> list_ex (in_cidr (address a b c d)) reserved"
proof -
  have num: "nl_number lib (nat_str n) = js_int n" if "byte n" for n
    using assms(1) that by (simp add: reads_digits_def)
  show ?thesis
    unfolding reserved_octets [OF bytes] isPrivateIPv4_def split_dotted [OF bytes]
    using bytes by (simp add: num)
qed

text \<open>The text of a dotted address is left alone by the preparation of the host and is none of the names.\<close>

definition plain :: "char \<Rightarrow> bool" where
  "plain c \<longleftrightarrow> is_digit c \<or> c = CHR ''.''"

lemma digits_plain: "list_all is_digit s \<Longrightarrow> list_all plain s"
  by (auto simp: list_all_iff plain_def)

lemma dotted_plain:
  assumes "byte a" "byte b" "byte c" "byte d"
  shows "list_all plain (dotted a b c d)"
  using assms by (simp add: dotted_def digits_plain plain_def)

lemma plain_to_lower: "list_all plain s \<Longrightarrow> to_lower s = s"
  by (induction s) (auto simp: to_lower_def to_lower_char_def plain_def is_digit_def)

lemma plain_no_brackets:
  assumes "list_all plain s"
  shows "strip_brackets s = s"
proof (cases "s = []")
  case False
  have "\<not> plain (CHR ''['')" "\<not> plain (CHR '']'')" by (simp_all add: plain_def is_digit_def)
  moreover have "plain (hd s)" "plain (last s)" using assms False by (auto simp: list_all_iff)
  ultimately have "hd s \<noteq> CHR ''[''" "last s \<noteq> CHR '']''" by metis+
  then show ?thesis by (simp add: strip_brackets_def)
qed (simp add: strip_brackets_def)

lemma plain_trim: "list_all plain s \<Longrightarrow> trim s = s"
  by (rule trim_no_space) (auto simp: list_all_iff plain_def is_digit_def is_space_def)

lemma plain_no_name:
  assumes "list_all plain s" and "c \<in> set suf" and "\<not> plain c"
  shows "\<not> ends_with suf s" and "s \<noteq> suf"
proof -
  show "\<not> ends_with suf s"
  proof
    assume "ends_with suf s"
    then obtain t where "rev s = rev suf @ t" by (auto simp: ends_with_def starts_with_iff)
    then have "set suf \<subseteq> set s" by (metis set_append set_rev sup_ge1)
    with assms show False by (auto simp: list_all_iff)
  qed
  show "s \<noteq> suf" using assms by (auto simp: list_all_iff)
qed

text \<open>
  C21. The check of webhook targets is exact on IPv4 literals: a URL whose host is a dotted address is accepted if and only
  if its scheme is https and the 32-bit address lies in none of the reserved ranges (private, loopback, link-local with
  the cloud metadata address, carrier NAT, documentation, multicast and reserved networks).
\<close>

theorem validateWebhookEndpoint_ipv4:
  assumes num: "reads_digits lib" and bytes: "byte a" "byte b" "byte c" "byte d"
    and url: "url \<noteq> []" "nl_URL lib url = Some (protocol, dotted a b c d)"
  shows "validateWebhookEndpoint lib url = Inr () \<longleftrightarrow>
    protocol = ''https:'' \<and> \<not> list_ex (in_cidr (address a b c d)) reserved"
proof -
  let ?h = "dotted a b c d"
  note plain = dotted_plain [OF bytes]
  have l: "\<not> plain (CHR ''l'')" "\<not> plain (CHR ''a'')" by (simp_all add: plain_def is_digit_def)
  have host: "trim (to_lower (strip_brackets ?h)) = ?h"
    by (simp add: plain plain_no_brackets plain_to_lower plain_trim)
  have v4: "isIPv4 ?h" using bytes by (simp add: isIPv4_def split_dotted octet_nat_str)
  have "?h \<noteq> ''localhost''" "\<not> ends_with ''.localhost'' ?h" "?h \<noteq> ''metadata.google.internal''" "?h \<noteq> ''metadata''"
    "?h \<noteq> ''instance-data''" "\<not> ends_with ''.internal'' ?h" "\<not> ends_with ''.local'' ?h"
    using plain_no_name [OF plain _ l(1)] plain_no_name [OF plain _ l(2)] by simp_all
  with v4 have "isPrivateOrInternalHost lib ?h \<longleftrightarrow> list_ex (in_cidr (address a b c d)) reserved"
    by (simp add: isPrivateOrInternalHost_def host isPrivateIPv4_dotted [OF num bytes])
  with url show ?thesis by (auto simp: validateWebhookEndpoint_def)
qed

definition sample_net :: net_lib where
  "sample_net = \<lparr>nl_number = (\<lambda>s. if s \<noteq> [] \<and> list_all is_digit s then js_int (digits_val s) else NaN), nl_isIPv6 = (\<lambda>s. s \<noteq> [] \<and> list_ex (\<lambda>c. c = CHR '':'') s),
     nl_URL = (\<lambda>s. if starts_with ''https://'' s then Some (''https:'', drop 8 s) else None)\<rparr>"

lemma dotted_sample: "dotted 93 184 216 34 = ''93.184.216.34''" "dotted 169 254 169 254 = ''169.254.169.254''"
  by code_simp+

theorem validateWebhookEndpoint_ipv4_witness:
  "validateWebhookEndpoint sample_net ''https://93.184.216.34'' = Inr ()
   \<and> validateWebhookEndpoint sample_net ''https://169.254.169.254'' \<noteq> Inr ()"
proof -
  have num: "reads_digits sample_net" by (simp add: reads_digits_def sample_net_def)
  have url: "nl_URL sample_net ''https://93.184.216.34'' = Some (''https:'', dotted 93 184 216 34)"
    "nl_URL sample_net ''https://169.254.169.254'' = Some (''https:'', dotted 169 254 169 254)"
    by (simp_all add: sample_net_def dotted_sample)
  have "\<not> list_ex (in_cidr (address 93 184 216 34)) reserved" "list_ex (in_cidr (address 169 254 169 254)) reserved"
    by (simp_all add: reserved_octets)
  with validateWebhookEndpoint_ipv4 [OF num _ _ _ _ _ url(1)] validateWebhookEndpoint_ipv4 [OF num _ _ _ _ _ url(2)]
  show ?thesis by simp
qed

section \<open>Hosts that slip through\<close>

text \<open>
  A URL parser writes the IPv4-mapped loopback address as \<^verbatim>\<open>[::ffff:7f00:1]\<close>; neither this form nor a local
  name with a trailing dot is recognised.
\<close>

theorem internal_hosts_accepted:
  "\<not> isPrivateOrInternalHost lib ''[::ffff:7f00:1]'' \<and> \<not> (isPrivateOrInternalHost lib ''localhost.'' \<and> \<not> nl_isIPv6 lib ''localhost.'')"
proof -
  have "trim (to_lower (strip_brackets ''[::ffff:7f00:1]'')) = ''::ffff:7f00:1''" "\<not> isIPv4 ''::ffff:7f00:1''"
    "to_lower ''::ffff:7f00:1'' = ''::ffff:7f00:1''" "\<not> isIPv4 ''7f00:1''"
    "trim (to_lower (strip_brackets ''localhost.'')) = ''localhost.''" "\<not> isIPv4 ''localhost.''"
    by code_simp+
  then show ?thesis
    by (simp add: isPrivateOrInternalHost_def isPrivateIPv6_def ends_with_def Let_def)
qed

end
