(* ===== verification/Webhooks.thy ===== *)
theory Webhooks
  imports Ssrf Redis_Commands
begin

text \<open>
  Webhook registrations and deliveries, \<^verbatim>\<open>src/common/events/webhooks.service.ts\<close>. The cipher, the keyed hash, random
  bytes, the HTTP client and JSON serialisation are parameters. Deliveries to several registrations run one after the
  other here, with others interfering at every suspension; every POST is recorded in \<open>httpPosts\<close>. The set of
  deliveries in flight and the drain at shutdown are in \<open>Webhook_Routes\<close>.
\<close>

section \<open>Hexadecimal text\<close>

definition hex_val :: "char \<Rightarrow> int option" where
  "hex_val c = (let n = (of_char c :: int) in
     if 48 \<le> n \<and> n \<le> 57 then Some (n - 48)
     else if 97 \<le> n \<and> n \<le> 102 then Some (n - 87)
     else if 65 \<le> n \<and> n \<le> 70 then Some (n - 55) else None)"

fun to_hex :: "string \<Rightarrow> string" where
  "to_hex [] = []"
| "to_hex (c # cs) = hex_char ((of_char c :: int) div 16) # hex_char ((of_char c :: int) mod 16) # to_hex cs"

text \<open>\<^verbatim>\<open>Buffer.from(s, 'hex')\<close> stops at the first pair that is not hexadecimal.\<close>

fun from_hex :: "string \<Rightarrow> string" where
  "from_hex (a # b # cs) = (case (hex_val a, hex_val b) of (Some x, Some y) \<Rightarrow> char_of (16 * x + y) # from_hex cs | _ \<Rightarrow> [])"
| "from_hex _ = []"

section \<open>Secrets\<close>

record FetchResponse =
  fr_status :: int
  fr_opaqueRedirect :: bool
  fr_location :: "string option"
  fr_signature :: "string option"
  fr_text :: "string outcome"

datatype webhook_payload =
    PolicyStatusPayload string string string int
  | ClaimStatusPayload string string string int string "string option"
  | OracleKeyPayload string string string "string option" int "string option"

record webhook_lib =
  wb_net :: net_lib
  wb_sha256 :: "string \<Rightarrow> string"
  wb_encrypt :: "string \<Rightarrow> string \<Rightarrow> string \<Rightarrow> string \<times> string"
  wb_decrypt :: "string \<Rightarrow> string \<Rightarrow> string \<Rightarrow> string \<Rightarrow> string outcome"
  wb_hmac :: "string \<Rightarrow> string \<Rightarrow> string"
  wb_randomBytes :: "nat \<Rightarrow> string"
  wb_sameOrigin :: "string \<Rightarrow> string \<Rightarrow> bool"
  wb_fetch :: "string \<Rightarrow> string \<Rightarrow> string option \<Rightarrow> nat \<Rightarrow> FetchResponse outcome"
  wb_stringify :: "webhook_payload \<Rightarrow> string"

definition truthy :: "string option \<Rightarrow> bool" where
  "truthy x \<longleftrightarrow> x \<noteq> None \<and> x \<noteq> Some []"

definition encryptionKey :: "webhook_lib \<Rightarrow> env \<Rightarrow> string option" where
  "encryptionKey lib e = (if truthy (e_config e ''WEBHOOK_SECRET_KEY'')
     then Some (wb_sha256 lib (the (e_config e ''WEBHOOK_SECRET_KEY''))) else None)"

definition randomIv :: "webhook_lib \<Rightarrow> string act" where
  "randomIv lib e s = (Inr (wb_randomBytes lib (fst s)), (Suc (fst s), snd s))"

text \<open>The stored text of an encrypted secret.\<close>

definition sealed :: "string \<Rightarrow> string \<Rightarrow> string \<Rightarrow> string" where
  "sealed iv authTag ciphertext = ''enc:'' @ to_hex iv @ CHR '':'' # to_hex authTag @ CHR '':'' # to_hex ciphertext"

definition encryptSecret :: "webhook_lib \<Rightarrow> string \<Rightarrow> string act" where
  "encryptSecret lib clear =
     bind (asks (encryptionKey lib)) (\<lambda>key.
     case key of
       None \<Rightarrow> ret clear
     | Some k \<Rightarrow> bind (randomIv lib) (\<lambda>iv.
         let (ciphertext, authTag) = wb_encrypt lib k iv clear in ret (sealed iv authTag ciphertext)))"

definition decryptSecret :: "webhook_lib \<Rightarrow> string option \<Rightarrow> string \<Rightarrow> string outcome" where
  "decryptSecret lib key stored =
     (if key = None \<or> \<not> starts_with ''enc:'' stored then Inr stored
      else case js_split (CHR '':'') stored of
          [_, ivHex, authTagHex, ciphertextHex] \<Rightarrow>
            wb_decrypt lib (the key) (from_hex ivHex) (from_hex authTagHex) (from_hex ciphertextHex)
        | _ \<Rightarrow> Inr stored)"

section \<open>Registrations\<close>

definition registration_create :: "string \<Rightarrow> string option \<Rightarrow> string list \<Rightarrow> WebhookRegistration stmt" where
  "registration_create url storedSecret events c w =
     (let r = \<lparr>wr_id = fresh_id c, wr_url = url, wr_secret = storedSecret, wr_events = events, wr_createdAt = now_ms c, wr_isActive = True\<rparr> in
      if fresh_id c \<in> wr_id ` set (webhookRegistrations w) then (Inl (UniqueViolation [''id'']), w)
      else (Inr r, w\<lparr>webhookRegistrations := webhookRegistrations w @ [r]\<rparr>))"

definition registration_deactivate :: "string \<Rightarrow> nat stmt" where
  "registration_deactivate i c w =
     (let hit = (\<lambda>r. wr_id r = i \<and> wr_isActive r) in
      (Inr (length (filter hit (webhookRegistrations w))),
       w\<lparr>webhookRegistrations := map (\<lambda>r. if hit r then r\<lparr>wr_isActive := False\<rparr> else r) (webhookRegistrations w)\<rparr>))"

definition registerWebhook :: "webhook_lib \<Rightarrow> string \<Rightarrow> string list \<Rightarrow> string option \<Rightarrow> string act" where
  "registerWebhook lib url events clear =
     seq (lift (validateWebhookEndpoint (wb_net lib) url))
     (bind (if truthy clear then bind (encryptSecret lib (the clear)) (\<lambda>s. ret (Some s)) else ret clear) (\<lambda>storedSecret.
      bind (db (registration_create url storedSecret events)) (\<lambda>registration.
      ret (wr_id registration))))"

definition unregisterWebhook :: "string \<Rightarrow> unit act" where
  "unregisterWebhook i =
     bind (db (registration_deactivate i)) (\<lambda>n.
     if n = 0 then throw (BadRequestException ''Webhook not found'') else ret ())"

fun open_rows :: "webhook_lib \<Rightarrow> string option \<Rightarrow> WebhookRegistration list \<Rightarrow> WebhookRegistration list outcome" where
  "open_rows lib key [] = Inr []"
| "open_rows lib key (r # rs) =
     (case (if truthy (wr_secret r) then map_sum id Some (decryptSecret lib key (the (wr_secret r))) else Inr None) of
        Inl err \<Rightarrow> Inl err
      | Inr s \<Rightarrow> (case open_rows lib key rs of Inl err \<Rightarrow> Inl err | Inr qs \<Rightarrow> Inr (r\<lparr>wr_secret := s\<rparr> # qs)))"

definition getRegistrations :: "webhook_lib \<Rightarrow> WebhookRegistration list act" where
  "getRegistrations lib =
     bind (db (s_query (\<lambda>w. sort_key wr_createdAt (filter wr_isActive (webhookRegistrations w))))) (\<lambda>rows.
     bind (asks (encryptionKey lib)) (\<lambda>key. lift (open_rows lib key rows)))"

definition getRegistrationsForEvent :: "webhook_lib \<Rightarrow> string \<Rightarrow> WebhookRegistration list act" where
  "getRegistrationsForEvent lib event =
     catch (bind (getRegistrations lib) (\<lambda>rs. ret (filter (\<lambda>r. event \<in> set (wr_events r)) rs))) (\<lambda>_. ret [])"

section \<open>Deliveries\<close>

definition MAX_RETRY_ATTEMPTS :: nat where
  "MAX_RETRY_ATTEMPTS = 3"

definition MAX_WEBHOOK_PAYLOAD_BYTES :: nat where
  "MAX_WEBHOOK_PAYLOAD_BYTES = 1048576"

definition post :: "webhook_lib \<Rightarrow> string \<Rightarrow> string \<Rightarrow> string option \<Rightarrow> FetchResponse act" where
  "post lib url body signature e s =
     (let w = e_rely e (fst s) (snd s) in
      (wb_fetch lib url body signature (fst s), (Suc (fst s), w\<lparr>httpPosts := httpPosts w @ [(url, body, signature)]\<rparr>)))"

text \<open>Which error an answer means, if any: a redirect is never followed, and a signed answer must be signed correctly.\<close>

definition is_redirect :: "FetchResponse \<Rightarrow> bool" where
  "is_redirect resp \<longleftrightarrow> (300 \<le> fr_status resp \<and> fr_status resp < 400) \<or> fr_opaqueRedirect resp"

definition check_response :: "webhook_lib \<Rightarrow> WebhookRegistration \<Rightarrow> FetchResponse \<Rightarrow> unit outcome" where
  "check_response lib registration resp =
     (if is_redirect resp then
        (if truthy (fr_location resp) \<and> \<not> wb_sameOrigin lib (the (fr_location resp)) (wr_url registration)
         then Inl (PlainError ''Webhook redirect to different domain blocked'')
         else Inl (PlainError ''Webhook delivery failed: redirects are not followed''))
      else if \<not> (200 \<le> fr_status resp \<and> fr_status resp < 300) then Inl (PlainError ''Webhook responded with an error status'')
      else if truthy (wr_secret registration) \<and> truthy (fr_signature resp) then
        (case fr_text resp of
           Inl err \<Rightarrow> Inl err
         | Inr responseBody \<Rightarrow>
             if the (fr_signature resp) \<noteq> wb_hmac lib (the (wr_secret registration)) responseBody
             then Inl (PlainError ''Webhook response signature verification failed'') else Inr ())
      else Inr ())"

definition deliverWebhook :: "webhook_lib \<Rightarrow> WebhookRegistration \<Rightarrow> string \<Rightarrow> string option \<Rightarrow> unit act" where
  "deliverWebhook lib registration payloadStr signature =
     bind (post lib (wr_url registration) payloadStr signature) (\<lambda>resp. lift (check_response lib registration resp))"

text \<open>The attempts that are left, and the last error; a retry sleeps first.\<close>

fun attempts :: "webhook_lib \<Rightarrow> WebhookRegistration \<Rightarrow> string \<Rightarrow> string option \<Rightarrow> nat \<Rightarrow> exn \<Rightarrow> unit act" where
  "attempts lib registration payloadStr signature 0 lastError = throw lastError"
| "attempts lib registration payloadStr signature (Suc left) lastError =
     seq (if left < MAX_RETRY_ATTEMPTS then await else ret ())
     (catch (deliverWebhook lib registration payloadStr signature)
        (\<lambda>err. attempts lib registration payloadStr signature left err))"

definition deliverWithRetry :: "webhook_lib \<Rightarrow> WebhookRegistration \<Rightarrow> string \<Rightarrow> unit act" where
  "deliverWithRetry lib registration payloadStr =
     (if byte_length payloadStr > MAX_WEBHOOK_PAYLOAD_BYTES then throw (PlainError ''Webhook payload exceeds maximum size'')
      else attempts lib registration payloadStr
        (if truthy (wr_secret registration) then Some (wb_hmac lib (the (wr_secret registration)) payloadStr) else None)
        (MAX_RETRY_ATTEMPTS + 1) (PlainError ''undefined''))"

record WebhookDeliveryResult =
  dr_registrationId :: string
  dr_url :: string
  dr_success :: bool

definition deliver_to :: "webhook_lib \<Rightarrow> string \<Rightarrow> WebhookRegistration \<Rightarrow> WebhookDeliveryResult act" where
  "deliver_to lib payloadStr r =
     catch (seq (deliverWithRetry lib r payloadStr) (ret \<lparr>dr_registrationId = wr_id r, dr_url = wr_url r, dr_success = True\<rparr>))
     (\<lambda>_. ret \<lparr>dr_registrationId = wr_id r, dr_url = wr_url r, dr_success = False\<rparr>)"

fun deliver_all :: "webhook_lib \<Rightarrow> string \<Rightarrow> WebhookRegistration list \<Rightarrow> WebhookDeliveryResult list act" where
  "deliver_all lib payloadStr [] = ret []"
| "deliver_all lib payloadStr (r # rs) =
     bind (deliver_to lib payloadStr r) (\<lambda>d. bind (deliver_all lib payloadStr rs) (\<lambda>ds. ret (d # ds)))"

definition notify :: "webhook_lib \<Rightarrow> string \<Rightarrow> webhook_payload \<Rightarrow> WebhookDeliveryResult list act" where
  "notify lib event payload =
     bind (getRegistrationsForEvent lib event) (\<lambda>registrations. deliver_all lib (wb_stringify lib payload) registrations)"

definition notifyPolicyStatusChange :: "webhook_lib \<Rightarrow> string \<Rightarrow> string \<Rightarrow> string \<Rightarrow> int \<Rightarrow> WebhookDeliveryResult list act" where
  "notifyPolicyStatusChange lib policyId fromStatus toStatus timestamp =
     notify lib ''policy.status.change'' (PolicyStatusPayload policyId fromStatus toStatus timestamp)"

definition notifyClaimStatusChange ::
    "webhook_lib \<Rightarrow> string \<Rightarrow> string \<Rightarrow> string \<Rightarrow> int \<Rightarrow> string option \<Rightarrow> string option \<Rightarrow> WebhookDeliveryResult list act" where
  "notifyClaimStatusChange lib claimId fromStatus toStatus timestamp actorId reason =
     notify lib ''claim.status.change''
       (ClaimStatusPayload claimId fromStatus toStatus timestamp (case actorId of Some a \<Rightarrow> a | None \<Rightarrow> ''system'') reason)"

definition notifyPolicyOracleKeyChange ::
    "webhook_lib \<Rightarrow> string \<Rightarrow> string \<Rightarrow> string \<Rightarrow> string option \<Rightarrow> int \<Rightarrow> string option \<Rightarrow> WebhookDeliveryResult list act" where
  "notifyPolicyOracleKeyChange lib policyId oldOracleKey newOracleKey actor timestamp correlationId =
     notify lib ''policy.oracle_key.change'' (OracleKeyPayload policyId oldOracleKey newOracleKey actor timestamp correlationId)"

section \<open>Secrets survive storage\<close>

lemma hex_val_char: "0 \<le> n \<Longrightarrow> n < 16 \<Longrightarrow> hex_val (hex_char n) = Some n"
  by (cases "n < 10") (simp_all add: hex_val_def hex_char_def Let_def)

lemma byte_bounds: "0 \<le> (of_char c :: int)" "(of_char c :: int) < 256"
  using pos_mod_bound [of 256 "of_char c :: int"] pos_mod_sign [of 256 "of_char c :: int"] by (simp_all only: of_char_mod_256)

lemma nibbles: "0 \<le> (of_char c :: int) div 16" "(of_char c :: int) div 16 < 16" "0 \<le> (of_char c :: int) mod 16" "(of_char c :: int) mod 16 < 16"
  using byte_bounds [of c] by auto

lemma from_to_hex: "from_hex (to_hex s) = s"
proof (induction s)
  case (Cons c s)
  let ?n = "of_char c :: int"
  have "hex_val (hex_char (?n div 16)) = Some (?n div 16)" "hex_val (hex_char (?n mod 16)) = Some (?n mod 16)"
    by (simp_all add: hex_val_char nibbles)
  moreover have "16 * (?n div 16) + ?n mod 16 = ?n" by (rule mult_div_mod_eq)
  ultimately show ?case using Cons by simp
qed simp

lemma hex_no_colon: "CHR '':'' \<notin> set (to_hex s)"
proof -
  have colon: "hex_char n \<noteq> CHR '':''" if "0 \<le> n" "n < 16" for n
    using hex_val_char [OF that] by (auto simp: hex_val_def)
  have "CHR '':'' \<noteq> hex_char ((of_char c :: int) div 16)" "CHR '':'' \<noteq> hex_char ((of_char c :: int) mod 16)" for c
    using colon [OF nibbles(1,2)] colon [OF nibbles(3,4)] by metis+
  then show ?thesis by (induction s) auto
qed

definition cipher_inverts :: "webhook_lib \<Rightarrow> bool" where
  "cipher_inverts lib \<longleftrightarrow> (\<forall>k iv p c t. wb_encrypt lib k iv p = (c, t) \<longrightarrow> wb_decrypt lib k iv t c = Inr p)"

lemma decrypt_sealed: "decryptSecret lib (Some k) (sealed iv tag ct) = wb_decrypt lib k iv tag ct"
proof -
  have "js_split (CHR '':'') (sealed iv tag ct) = [''enc'', to_hex iv, to_hex tag, to_hex ct]"
    using js_split_append [of "CHR '':''" "to_hex iv"] js_split_append [of "CHR '':''" "to_hex tag"]
    by (simp add: sealed_def hex_no_colon js_split_none)
  moreover have "starts_with ''enc:'' (sealed iv tag ct)" by (simp add: sealed_def)
  ultimately show ?thesis by (simp add: decryptSecret_def from_to_hex)
qed

lemma encrypt_cases:
  assumes "encryptSecret lib clear e s = (Inr stored, s')"
  obtains (off) "encryptionKey lib e = None" "stored = clear"
  | (on) k iv ct tag where "encryptionKey lib e = Some k" "wb_encrypt lib k iv clear = (ct, tag)" "stored = sealed iv tag ct"
  using assms by (auto simp: encryptSecret_def returns randomIv_def split: option.splits prod.splits)

lemma encrypt_decrypt:
  assumes "cipher_inverts lib" and "encryptSecret lib clear e s = (Inr stored, s')"
  shows "decryptSecret lib (encryptionKey lib e) stored = Inr clear"
  using assms(2)
proof (cases rule: encrypt_cases)
  case off
  then show ?thesis by (simp add: decryptSecret_def)
next
  case on
  with assms(1) show ?thesis by (simp add: decrypt_sealed cipher_inverts_def)
qed

lemma stored_not_empty: "encryptSecret lib clear e s = (Inr stored, s') \<Longrightarrow> clear \<noteq> [] \<Longrightarrow> stored \<noteq> []"
  by (erule encrypt_cases) (auto simp: sealed_def)

section \<open>Registrations are kept\<close>

lemma open_rows_in:
  "open_rows lib key rows = Inr qs \<Longrightarrow> r \<in> set rows \<Longrightarrow> wr_secret r = Some stored \<Longrightarrow> stored \<noteq> [] \<Longrightarrow>
   decryptSecret lib key stored = Inr p \<Longrightarrow> r\<lparr>wr_secret := Some p\<rparr> \<in> set qs"
  by (induction rows arbitrary: qs) (auto simp: truthy_def split: sum.splits if_splits)

lemma open_rows_ids: "open_rows lib key rows = Inr qs \<Longrightarrow> map wr_id qs = map wr_id rows \<and> map wr_isActive qs = map wr_isActive rows"
  by (induction rows arbitrary: qs) (auto split: sum.splits)

text \<open>
  A registered webhook is active with the secret it was registered with: its target passed the check of webhook
  targets, the stored secret is never shown to be anything else, and whenever the registrations can be read they contain it with the original
  secret, encrypted at rest or not, until it is unregistered; after that it is no longer among them.
\<close>

theorem webhook_registration_roundtrip:
  assumes cipher: "cipher_inverts lib" and "clear \<noteq> []"
    and run: "registerWebhook lib url events (Some clear) e (n, w) = (Inr i, (n1, w1))"
  shows "validateWebhookEndpoint (wb_net lib) url = Inr ()
    \<and> (\<forall>m n2 w2 qs. e_rely e m w1 = w1 \<and> getRegistrations lib e (m, w1) = (Inr qs, (n2, w2)) \<longrightarrow>
         (\<exists>q \<in> set qs. wr_id q = i \<and> wr_url q = url \<and> wr_events q = events \<and> wr_secret q = Some clear))
    \<and> (\<forall>m n2 w2 k n3 w3 qs. unregisterWebhook i e (m, w1) = (Inr (), (n2, w2)) \<and> (\<forall>m v. e_rely e m v = v)
         \<and> getRegistrations lib e (k, w2) = (Inr qs, (n3, w3)) \<longrightarrow> i \<notin> wr_id ` set qs)"
proof -
  from run assms(2) obtain stored s1 r where url: "validateWebhookEndpoint (wb_net lib) url = Inr ()"
    and enc: "encryptSecret lib clear e (n, w) = (Inr stored, s1)"
    and create: "db (registration_create url (Some stored) events) e s1 = (Inr r, (n1, w1))" and i: "i = wr_id r"
    by (auto simp: registerWebhook_def returns truthy_def)
  note stored = encrypt_decrypt [OF cipher enc] stored_not_empty [OF enc assms(2)]
  have r: "r \<in> set (webhookRegistrations w1)" "wr_isActive r" "wr_url r = url" "wr_events r = events" "wr_secret r = Some stored"
    using create by (auto simp: db_Inr registration_create_def Let_def split: if_splits)
  have here: "\<exists>q \<in> set qs. wr_id q = i \<and> wr_url q = url \<and> wr_events q = events \<and> wr_secret q = Some clear"
    if "e_rely e m w1 = w1" "getRegistrations lib e (m, w1) = (Inr qs, (n2, w2))" for m n2 w2 qs
  proof -
    from that have "open_rows lib (encryptionKey lib e) (sort_key wr_createdAt (filter wr_isActive (webhookRegistrations w1))) = Inr qs"
      by (auto simp: getRegistrations_def returns)
    from open_rows_in [OF this _ r(5) stored(2,1)] r(1,2)
    have "r\<lparr>wr_secret := Some clear\<rparr> \<in> set qs" by simp
    with r i show ?thesis by (intro bexI) auto
  qed
  have gone: "i \<notin> wr_id ` set qs"
    if "unregisterWebhook i e (m, w1) = (Inr (), (n2, w2))" "\<forall>m v. e_rely e m v = v"
      "getRegistrations lib e (k, w2) = (Inr qs, (n3, w3))" for m n2 w2 k n3 w3 qs
  proof -
    from that(1,2) have w2: "webhookRegistrations w2 =
        map (\<lambda>r. if wr_id r = i \<and> wr_isActive r then r\<lparr>wr_isActive := False\<rparr> else r) (webhookRegistrations w1)"
      by (auto simp: unregisterWebhook_def returns registration_deactivate_def Let_def split: if_splits)
    from that(2,3) have "open_rows lib (encryptionKey lib e) (sort_key wr_createdAt (filter wr_isActive (webhookRegistrations w2))) = Inr qs"
      by (auto simp: getRegistrations_def returns)
    from open_rows_ids [OF this] have "set (map wr_id qs) = set (map wr_id (sort_key wr_createdAt (filter wr_isActive (webhookRegistrations w2))))"
      by (simp only:)
    then have ids: "wr_id ` set qs = wr_id ` {r \<in> set (webhookRegistrations w2). wr_isActive r}" by simp
    have "\<forall>r \<in> set (webhookRegistrations w2). wr_isActive r \<longrightarrow> wr_id r \<noteq> i"
      unfolding w2 list.set_map ball_simps(9) by auto
    then show ?thesis unfolding ids by blast
  qed
  show ?thesis by (intro conjI allI impI url here gone) auto
qed

text \<open>A cipher that reverses the text, and a registration under it.\<close>

definition sample_webhooks :: webhook_lib where
  "sample_webhooks = \<lparr>wb_net = sample_net, wb_sha256 = (\<lambda>s. s), wb_encrypt = (\<lambda>k iv p. (rev p, k)), wb_decrypt = (\<lambda>k iv t c. if t = k then Inr (rev c) else Inl (PlainError ''auth'')),
     wb_hmac = (\<lambda>k b. k @ b), wb_randomBytes = (\<lambda>n. ''iv''), wb_sameOrigin = (\<lambda>a b. a = b),
     wb_fetch = (\<lambda>url body sig n. if n = 0 then Inl (PlainError ''timeout'') else Inr \<lparr>fr_status = 200, fr_opaqueRedirect = False, fr_location = None, fr_signature = None, fr_text = Inr []\<rparr>),
     wb_stringify = (\<lambda>p. ''{}'')\<rparr>"

definition webhook_env :: env where
  "webhook_env = (quiet_env 0)\<lparr>e_config := (\<lambda>name. if name = ''WEBHOOK_SECRET_KEY'' then Some ''key'' else None)\<rparr>"

definition registered_world :: world where
  "registered_world = empty_world\<lparr>webhookRegistrations := [\<lparr>wr_id = ''id-'' @ nat_str 1, wr_url = ''https://example.org'', wr_secret = Some (sealed ''iv'' ''key'' ''terces''),
     wr_events = [''claim.status.change''], wr_createdAt = 0, wr_isActive = True\<rparr>]\<rparr>"

lemma sample_cipher: "cipher_inverts sample_webhooks"
  by (auto simp: cipher_inverts_def sample_webhooks_def)

lemma sample_endpoint: "validateWebhookEndpoint sample_net ''https://example.org'' = Inr ()"
  by code_simp

lemma sample_registration:
  "registerWebhook sample_webhooks ''https://example.org'' [''claim.status.change''] (Some ''secret'') webhook_env (0, empty_world)
    = (Inr (''id-'' @ nat_str 1), (2, registered_world))"
  by (simp add: registerWebhook_def encryptSecret_def encryptionKey_def randomIv_def registration_create_def sample_endpoint
      bind_def lift_def asks_def ret_def db_def Let_def truthy_def sample_webhooks_def webhook_env_def quiet_env_def registered_world_def
      empty_world_def)

lemma sample_listing:
  "getRegistrations sample_webhooks webhook_env (2, registered_world)
    = (Inr [\<lparr>wr_id = ''id-'' @ nat_str 1, wr_url = ''https://example.org'', wr_secret = Some ''secret'', wr_events = [''claim.status.change''],
         wr_createdAt = 0, wr_isActive = True\<rparr>], (3, registered_world))"
proof -
  have "decryptSecret sample_webhooks (Some ''key'') (sealed ''iv'' ''key'' ''terces'') = Inr ''secret''"
    unfolding decrypt_sealed by (simp add: sample_webhooks_def)
  moreover have "encryptionKey sample_webhooks webhook_env = Some ''key''"
    by (simp add: encryptionKey_def truthy_def webhook_env_def sample_webhooks_def)
  moreover have "sealed ''iv'' ''key'' ''terces'' \<noteq> []" by (simp add: sealed_def)
  ultimately show ?thesis
    by (simp add: getRegistrations_def bind_def asks_def lift_def db_def s_query_def Let_def truthy_def webhook_env_def quiet_env_def
        registered_world_def)
qed

theorem webhook_registration_roundtrip_witness:
  "\<exists>qs s. getRegistrations sample_webhooks webhook_env (2, registered_world) = (Inr qs, s)
     \<and> (\<exists>q \<in> set qs. wr_id q = ''id-'' @ nat_str 1 \<and> wr_url q = ''https://example.org'' \<and> wr_secret q = Some ''secret'')"
proof -
  have "e_rely webhook_env 2 registered_world = registered_world" by (simp add: webhook_env_def quiet_env_def)
  with webhook_registration_roundtrip [OF sample_cipher _ sample_registration] sample_listing show ?thesis by blast
qed

section \<open>Deliveries are bounded\<close>

lemma post_Inr: "post lib url body sig e (n, w) = (wb_fetch lib url body sig n,
    (Suc n, (e_rely e n w)\<lparr>httpPosts := httpPosts (e_rely e n w) @ [(url, body, sig)]\<rparr>))"
  by (simp add: post_def Let_def)

definition accepted :: "webhook_lib \<Rightarrow> WebhookRegistration \<Rightarrow> string \<Rightarrow> string option \<Rightarrow> bool" where
  "accepted lib reg body sig \<longleftrightarrow> (\<exists>m resp. wb_fetch lib (wr_url reg) body sig m = Inr resp \<and> check_response lib reg resp = Inr ())"

lemma deliver_once:
  assumes still: "\<forall>m v. httpPosts (e_rely e m v) = httpPosts v" and run: "deliverWebhook lib reg body sig e (n, w) = (r, (n', w'))"
  shows "httpPosts w' = httpPosts w @ [(wr_url reg, body, sig)] \<and> (r = Inr () \<longrightarrow> accepted lib reg body sig)"
  using assms by (auto simp: deliverWebhook_def bind_def post_Inr lift_def accepted_def split: sum.splits)

lemma attempts_posts:
  assumes still: "\<forall>m v. httpPosts (e_rely e m v) = httpPosts v"
    and "attempts lib reg body sig left err e (n, w) = (r, (n', w'))"
  shows "\<exists>k \<le> left. httpPosts w' = httpPosts w @ replicate k (wr_url reg, body, sig)
    \<and> (r = Inr () \<longrightarrow> 1 \<le> k \<and> accepted lib reg body sig) \<and> (isl r \<longrightarrow> k = left)"
  using assms(2)
proof (induction left arbitrary: err n w)
  case 0
  then show ?case by (auto simp: throw_def)
next
  case (Suc left)
  have "\<exists>n1 w1. (if left < MAX_RETRY_ATTEMPTS then await else ret ()) e (n, w) = (Inr (), (n1, w1)) \<and> httpPosts w1 = httpPosts w"
    using still by (cases "left < MAX_RETRY_ATTEMPTS") (simp_all add: await_def ret_def)
  then obtain n1 w1 where pause: "(if left < MAX_RETRY_ATTEMPTS then await else ret ()) e (n, w) = (Inr (), (n1, w1))"
    "httpPosts w1 = httpPosts w" by blast
  obtain q n2 w2 where once: "deliverWebhook lib reg body sig e (n1, w1) = (q, (n2, w2))"
    by (cases "deliverWebhook lib reg body sig e (n1, w1)") auto
  note posted = deliver_once [OF still once] pause(2)
  show ?case
  proof (cases q)
    case (Inl x)
    with Suc.prems pause(1) once have "attempts lib reg body sig left x e (n2, w2) = (r, (n', w'))"
      by (simp add: bind_def catch_def)
    from Suc.IH [OF this] obtain k where "k \<le> left" "httpPosts w' = httpPosts w2 @ replicate k (wr_url reg, body, sig)"
      "r = Inr () \<longrightarrow> 1 \<le> k \<and> accepted lib reg body sig" "isl r \<longrightarrow> k = left" by blast
    with posted show ?thesis by (intro exI [of _ "Suc k"]) auto
  next
    case (Inr u)
    with Suc.prems pause(1) once have "r = Inr ()" "w' = w2" by (simp_all add: bind_def catch_def)
    with posted Inr show ?thesis by (intro exI [of _ 1]) auto
  qed
qed

text \<open>
  A delivery sends the payload at most four times, always to the registered URL with the same body and signature, and
  never follows a redirect. It succeeds only on an answer with a success status that is not a redirect and, if it is
  signed, carries the right signature; it fails only after all four attempts, or without any if the payload is too large.
\<close>

theorem delivery_bounded:
  assumes still: "\<forall>m v. httpPosts (e_rely e m v) = httpPosts v"
    and run: "deliverWithRetry lib reg body e (n, w) = (r, (n', w'))"
    and sig: "sig = (if truthy (wr_secret reg) then Some (wb_hmac lib (the (wr_secret reg)) body) else None)"
  shows "\<exists>k \<le> 4. httpPosts w' = httpPosts w @ replicate k (wr_url reg, body, sig)
    \<and> (r = Inr () \<longrightarrow> 1 \<le> k \<and> (\<exists>m resp. wb_fetch lib (wr_url reg) body sig m = Inr resp
          \<and> 200 \<le> fr_status resp \<and> fr_status resp < 300 \<and> \<not> fr_opaqueRedirect resp
          \<and> (truthy (wr_secret reg) \<and> truthy (fr_signature resp) \<longrightarrow>
               (\<exists>answer. fr_text resp = Inr answer \<and> fr_signature resp = Some (wb_hmac lib (the (wr_secret reg)) answer)))))
    \<and> (isl r \<longrightarrow> k = (if byte_length body > MAX_WEBHOOK_PAYLOAD_BYTES then 0 else 4))"
proof (cases "byte_length body > MAX_WEBHOOK_PAYLOAD_BYTES")
  case True
  with run show ?thesis by (intro exI [of _ 0]) (auto simp: deliverWithRetry_def throw_def)
next
  case False
  with run sig have "attempts lib reg body sig 4 (PlainError ''undefined'') e (n, w) = (r, (n', w'))"
    by (simp add: deliverWithRetry_def MAX_RETRY_ATTEMPTS_def)
  from attempts_posts [OF still this] obtain k where k: "k \<le> 4" "httpPosts w' = httpPosts w @ replicate k (wr_url reg, body, sig)"
    "r = Inr () \<longrightarrow> 1 \<le> k \<and> accepted lib reg body sig" "isl r \<longrightarrow> k = 4" by blast
  have good: "200 \<le> fr_status resp \<and> fr_status resp < 300 \<and> \<not> fr_opaqueRedirect resp
      \<and> (truthy (wr_secret reg) \<and> truthy (fr_signature resp) \<longrightarrow>
           (\<exists>answer. fr_text resp = Inr answer \<and> fr_signature resp = Some (wb_hmac lib (the (wr_secret reg)) answer)))"
    if "check_response lib reg resp = Inr ()" for resp
    using that by (auto simp: check_response_def is_redirect_def truthy_def split: if_splits sum.splits)
  have "r = Inr () \<longrightarrow> 1 \<le> k \<and> (\<exists>m resp. wb_fetch lib (wr_url reg) body sig m = Inr resp
        \<and> 200 \<le> fr_status resp \<and> fr_status resp < 300 \<and> \<not> fr_opaqueRedirect resp
        \<and> (truthy (wr_secret reg) \<and> truthy (fr_signature resp) \<longrightarrow>
             (\<exists>answer. fr_text resp = Inr answer \<and> fr_signature resp = Some (wb_hmac lib (the (wr_secret reg)) answer))))"
    using k(3) good unfolding accepted_def by blast
  with k False show ?thesis by (intro exI [of _ k]) simp
qed

definition sample_row :: WebhookRegistration where
  "sample_row = \<lparr>wr_id = ''r'', wr_url = ''https://example.org'', wr_secret = None, wr_events = [], wr_createdAt = 0, wr_isActive = True\<rparr>"

theorem delivery_bounded_witness:
  "\<exists>k \<le> 4. httpPosts (snd (snd (deliverWithRetry sample_webhooks sample_row ''{}'' (quiet_env 0) (0, empty_world))))
      = replicate k (''https://example.org'', ''{}'', None) \<and> 1 \<le> k"
proof -
  have three: "MAX_RETRY_ATTEMPTS = Suc (Suc (Suc 0))" by (simp add: MAX_RETRY_ATTEMPTS_def)
  have size: "\<not> byte_length ''{}'' > MAX_WEBHOOK_PAYLOAD_BYTES" by (simp add: byte_length_def MAX_WEBHOOK_PAYLOAD_BYTES_def)
  have run: "deliverWithRetry sample_webhooks sample_row ''{}'' (quiet_env 0) (0, empty_world)
      = (Inr (), (3, empty_world\<lparr>httpPosts := [(''https://example.org'', ''{}'', None), (''https://example.org'', ''{}'', None)]\<rparr>))"
    using size by (simp add: deliverWithRetry_def deliverWebhook_def three
        check_response_def is_redirect_def truthy_def sample_row_def sample_webhooks_def bind_def catch_def ret_def await_def post_def
        lift_def Let_def quiet_env_def empty_world_def)
  have "\<forall>m v. httpPosts (e_rely (quiet_env 0) m v) = httpPosts v" by (simp add: quiet_env_def)
  from delivery_bounded [OF this run refl] run show ?thesis
    by (auto simp: sample_row_def truthy_def empty_world_def)
qed

section \<open>One unreadable secret\<close>

text \<open>If the secret of one active registration cannot be decrypted, no registration at all is notified of anything.\<close>

lemma open_rows_fail:
  "r \<in> set rows \<Longrightarrow> truthy (wr_secret r) \<Longrightarrow> decryptSecret lib key (the (wr_secret r)) = Inl err \<Longrightarrow> \<exists>x. open_rows lib key rows = Inl x"
  by (induction rows) (auto split: sum.splits)

theorem one_bad_secret_silences_all:
  assumes "r \<in> set (webhookRegistrations (e_rely e n w))" "wr_isActive r" "truthy (wr_secret r)"
    and "decryptSecret lib (encryptionKey lib e) (the (wr_secret r)) = Inl err"
  shows "\<exists>s. notify lib event payload e (n, w) = (Inr [], s)"
proof -
  have "\<exists>x. open_rows lib (encryptionKey lib e) (sort_key wr_createdAt (filter wr_isActive (webhookRegistrations (e_rely e n w)))) = Inl x"
    by (rule open_rows_fail [of r]) (use assms in auto)
  then obtain x where
    "open_rows lib (encryptionKey lib e) (sort_key wr_createdAt (filter wr_isActive (webhookRegistrations (e_rely e n w)))) = Inl x" ..
  then show ?thesis
    by (cases "e_dbfail e n") (simp_all add: notify_def getRegistrationsForEvent_def getRegistrations_def bind_def catch_def db_def s_query_def
        lift_def asks_def ret_def Let_def)
qed

end
