(* ===== verification/Stellar_Calls.thy ===== *)
theory Stellar_Calls
  imports Wallet_Login
begin

text \<open>
  Calls of contracts, the checks of client-signed transactions and account balances,
  \<^verbatim>\<open>src/stellar/stellar.service.ts\<close>. What the node answers at a tick and what the SDK makes of its arguments are
  parameters; a time-out is one of the errors an answer can be. Every transaction handed to the node is recorded in
  \<open>sentTxs\<close>, also when the answer is lost. The lock that orders the calls of one account inside the process is an
  \<^verbatim>\<open>await\<close>.
\<close>

section \<open>The node and the SDK\<close>

record rpc_lib =
  rp_isEd25519 :: "string \<Rightarrow> bool"
  rp_isMed25519 :: "string \<Rightarrow> bool"
  rp_contract :: "string \<Rightarrow> unit outcome"
  rp_addOperation :: "string \<Rightarrow> string \<Rightarrow> string \<Rightarrow> string list \<Rightarrow> string outcome"
  rp_build :: "string \<Rightarrow> string option \<Rightarrow> string outcome"
  rp_assemble :: "string \<Rightarrow> string SimResult \<Rightarrow> string \<Rightarrow> string outcome"
  rp_keeper :: string
  rp_getAccount :: "string \<Rightarrow> nat \<Rightarrow> string outcome"
  rp_simulate :: "string \<Rightarrow> nat \<Rightarrow> string SimResult outcome"
  rp_send :: "string \<Rightarrow> nat \<Rightarrow> (string \<times> string) outcome"
  rp_getTransaction :: "string \<Rightarrow> nat \<Rightarrow> string outcome"

definition rpc :: "(nat \<Rightarrow> 'a outcome) \<Rightarrow> 'a act" where
  "rpc answer = call (\<lambda>e. answer)"

definition send_tx :: "rpc_lib \<Rightarrow> string \<Rightarrow> (string \<times> string) act" where
  "send_tx lib tx e s =
     (let w = e_rely e (fst s) (snd s) in (rp_send lib tx (fst s), (Suc (fst s), w\<lparr>sentTxs := sentTxs w @ [tx]\<rparr>)))"

text \<open>\<^verbatim>\<open>try { m } catch\<close>, with the error as a value.\<close>

definition attempt :: "'a act \<Rightarrow> 'a outcome act" where
  "attempt m = catch (bind m (\<lambda>x. ret (Inr x))) (\<lambda>err. ret (Inl err))"

section \<open>Waiting for a transaction\<close>

definition POLL_INTERVAL_MS :: int where
  "POLL_INTERVAL_MS = 2000"

fun wait_loop :: "nat \<Rightarrow> rpc_lib \<Rightarrow> string \<Rightarrow> int \<Rightarrow> int \<Rightarrow> unit option act" where
  "wait_loop 0 lib txHash start timeoutMs = ret None"
| "wait_loop (Suc fuel) lib txHash start timeoutMs =
     bind clock (\<lambda>t.
     if t - start < timeoutMs then
       bind (attempt (rpc (rp_getTransaction lib txHash))) (\<lambda>answer.
       case answer of
         Inr status \<Rightarrow>
           if status = ''SUCCESS'' then ret (Some ())
           else if status = ''FAILED'' then throw (PlainError ''Transaction failed on-chain'')
           else seq await (wait_loop fuel lib txHash start timeoutMs)
       | Inl err \<Rightarrow>
           if contains ''failed on-chain'' (exn_message err) then throw err
           else seq await (wait_loop fuel lib txHash start timeoutMs))
     else throw (PlainError ''Transaction did not reach SUCCESS in time''))"

text \<open>Fuel for one round per interval, and one more; \<open>wait_loop_ends\<close> shows that it is enough.\<close>

definition waitForTransaction :: "rpc_lib \<Rightarrow> string \<Rightarrow> int \<Rightarrow> unit act" where
  "waitForTransaction lib txHash timeoutMs =
     bind clock (\<lambda>start.
     bind (wait_loop (nat (timeoutMs div POLL_INTERVAL_MS) + 2) lib txHash start timeoutMs) (\<lambda>r.
     case r of Some u \<Rightarrow> ret u | None \<Rightarrow> throw (PlainError ''out of fuel'')))"

section \<open>Contract calls\<close>

definition MAX_MEMO_BYTES :: nat where
  "MAX_MEMO_BYTES = 28"

definition validateMemo :: "string option \<Rightarrow> string option outcome" where
  "validateMemo memo =
     (if \<not> present memo then Inr None
      else if byte_length (the memo) > MAX_MEMO_BYTES then Inl (BadRequestException ''Transaction memo exceeds the limit'')
      else Inr memo)"

text \<open>The class \<^verbatim>\<open>[A-BA-HJ-NP-Z0-9]\<close>.\<close>

definition CONTRACT_ADDRESS :: rx where
  "CONTRACT_ADDRESS = rx_seq [rx_lit ''C'', rx_rep 55 (Cls (\<lambda>c. let n = (of_char c :: int) in
     (65 \<le> n \<and> n \<le> 66) \<or> (65 \<le> n \<and> n \<le> 72) \<or> (74 \<le> n \<and> n \<le> 78) \<or> (80 \<le> n \<and> n \<le> 90) \<or> (48 \<le> n \<and> n \<le> 57)))]"

definition MAX_ATTEMPTS :: nat where
  "MAX_ATTEMPTS = 3"

text \<open>Did the transaction of the previous attempt land after all?\<close>

definition landed :: "rpc_lib \<Rightarrow> bool \<Rightarrow> string option \<Rightarrow> bool act" where
  "landed lib first lastSentHash =
     (if first \<or> \<not> present lastSentHash then ret False
      else catch (bind (rpc (rp_getTransaction lib (the lastSentHash))) (\<lambda>status. ret (status = ''SUCCESS''))) (\<lambda>_. ret False))"

definition simulate_and_sign :: "rpc_lib \<Rightarrow> string \<Rightarrow> string \<Rightarrow> string act" where
  "simulate_and_sign lib signer tx =
     bind (rpc (rp_simulate lib tx)) (\<lambda>simResult.
     case simResult of
       SimError msg \<Rightarrow> throw (SimulationFailedError msg)
     | _ \<Rightarrow> lift (rp_assemble lib tx simResult signer))"

text \<open>\<open>memo\<close> is what the name \<^verbatim>\<open>validMemo\<close> evaluates to where the transaction is built.\<close>

definition prepare_tx :: "rpc_lib \<Rightarrow> string option outcome \<Rightarrow> string \<Rightarrow> string \<Rightarrow> string list \<Rightarrow> string \<Rightarrow> string act" where
  "prepare_tx lib memo contractId fname args signer =
     bind (rpc (rp_getAccount lib signer)) (\<lambda>account.
     bind (lift (rp_addOperation lib account contractId fname args)) (\<lambda>builder.
     bind (lift memo) (\<lambda>validMemo.
     bind (lift (rp_build lib builder validMemo)) (simulate_and_sign lib signer))))"

text \<open>The end of an attempt: its outcome, and the hash of the last transaction that was sent.\<close>

definition finish_send :: "rpc_lib \<Rightarrow> string option \<Rightarrow> string \<times> string \<Rightarrow> (string outcome \<times> string option) act" where
  "finish_send lib lastSentHash sendResult =
     (let status = fst sendResult; hash = snd sendResult; sent = (if hash \<noteq> [] then Some hash else lastSentHash) in
      if status = ''ERROR'' then ret (Inl (PlainError ''Transaction submission failed''), sent)
      else if status = ''TRY_AGAIN_LATER'' then ret (Inl (PlainError ''Transaction submission was rejected by the RPC node''), sent)
      else bind (attempt (waitForTransaction lib hash 60000)) (\<lambda>r.
           case r of Inl err \<Rightarrow> ret (Inl err, sent) | Inr _ \<Rightarrow> ret (Inr hash, sent)))"

definition invoke_once :: "rpc_lib \<Rightarrow> string act \<Rightarrow> bool \<Rightarrow> string option \<Rightarrow> (string outcome \<times> string option) act" where
  "invoke_once lib prepare first lastSentHash =
     bind (landed lib first lastSentHash) (\<lambda>already.
     if already then ret (Inr (the lastSentHash), lastSentHash)
     else
       bind (attempt prepare) (\<lambda>prepared.
       case prepared of
         Inl err \<Rightarrow> ret (Inl err, lastSentHash)
       | Inr tx \<Rightarrow>
           bind (attempt (send_tx lib tx)) (\<lambda>sent.
           case sent of
             Inl err \<Rightarrow> ret (Inl err, lastSentHash)
           | Inr sendResult \<Rightarrow> finish_send lib lastSentHash sendResult)))"

fun is_SimulationFailed :: "exn \<Rightarrow> bool" where
  "is_SimulationFailed (SimulationFailedError _) = True"
| "is_SimulationFailed _ = False"

text \<open>The attempts that are left; all but the first look for the previous transaction.\<close>

fun invoke_from :: "nat \<Rightarrow> rpc_lib \<Rightarrow> string act \<Rightarrow> string option \<Rightarrow> string act" where
  "invoke_from 0 lib prepare lastSentHash = throw (PlainError ''All sendTransaction attempts failed'')"
| "invoke_from (Suc left) lib prepare lastSentHash =
     bind (invoke_once lib prepare (Suc left = MAX_ATTEMPTS) lastSentHash) (\<lambda>(r, sent).
     case r of
       Inr hash \<Rightarrow> ret hash
     | Inl err \<Rightarrow>
         if is_SimulationFailed err then throw err
         else seq (if left > 0 then await else ret ()) (invoke_from left lib prepare sent))"

definition doInvokeContract ::
    "rpc_lib \<Rightarrow> string option outcome \<Rightarrow> string \<Rightarrow> string \<Rightarrow> string list \<Rightarrow> string \<Rightarrow> string act" where
  "doInvokeContract lib memo contractId fname args signer =
     seq (lift (rp_contract lib contractId))
       (invoke_from MAX_ATTEMPTS lib (prepare_tx lib memo contractId fname args signer) None)"

text \<open>
  \<^verbatim>\<open>invokeContract\<close> binds \<^verbatim>\<open>validMemo\<close> in its own scope and does not pass it on; where \<^verbatim>\<open>doInvokeContract\<close>
  reads the name it is not declared, and reading it raises a \<^verbatim>\<open>ReferenceError\<close>.
\<close>

definition validMemo_in_doInvokeContract :: "string option outcome" where
  "validMemo_in_doInvokeContract = Inl (PlainError ''validMemo is not defined'')"

definition invokeContract :: "rpc_lib \<Rightarrow> string \<Rightarrow> string \<Rightarrow> string list \<Rightarrow> string option \<Rightarrow> string option \<Rightarrow> string act" where
  "invokeContract lib contractId fname args signer memo =
     seq (lift (validateMemo memo))
     (if \<not> rx_test CONTRACT_ADDRESS contractId then throw (BadRequestException ''Invalid Stellar contract address'')
      else seq await (doInvokeContract lib validMemo_in_doInvokeContract contractId fname args
             (case signer of Some k \<Rightarrow> k | None \<Rightarrow> rp_keeper lib)))"

section \<open>Client-signed transactions\<close>

text \<open>\<open>None\<close> is a value that is not a string.\<close>

definition validateAccountAddress :: "rpc_lib \<Rightarrow> string option \<Rightarrow> string outcome" where
  "validateAccountAddress lib rawAddress =
     (if rawAddress = None \<or> trim (the rawAddress) = [] then Inl (BadRequestException ''Invalid Stellar address: must be a non-empty string'')
      else
        let trimmed = trim (the rawAddress); canonical = to_upper trimmed in
        if starts_with ''M'' trimmed \<or> rp_isMed25519 lib trimmed then Inl (BadRequestException ''Muxed accounts are not supported'')
        else if \<not> rp_isEd25519 lib canonical then Inl (BadRequestException ''Invalid Stellar address format'')
        else Inr canonical)"

text \<open>An envelope with its source and the sources of its operations, or a fee bump of one.\<close>

datatype envelope = Envelope "string option" "string option list" | FeeBump "string option" envelope

definition same_account :: "rpc_lib \<Rightarrow> string \<Rightarrow> string \<Rightarrow> exn \<Rightarrow> unit outcome" where
  "same_account lib expected address mismatch =
     (case validateAccountAddress lib (Some address) of
        Inl err \<Rightarrow> Inl err
      | Inr canonical \<Rightarrow> if canonical \<noteq> expected then Inl mismatch else Inr ())"

fun check_op_sources :: "rpc_lib \<Rightarrow> string \<Rightarrow> string option list \<Rightarrow> unit outcome" where
  "check_op_sources lib expected [] = Inr ()"
| "check_op_sources lib expected (src # srcs) =
     (if present src then
        (case same_account lib expected (the src) (ForbiddenException ''Operation source account does not match authenticated user'') of
           Inl err \<Rightarrow> Inl err | Inr _ \<Rightarrow> check_op_sources lib expected srcs)
      else check_op_sources lib expected srcs)"

fun check_envelope :: "rpc_lib \<Rightarrow> string \<Rightarrow> envelope \<Rightarrow> unit outcome" where
  "check_envelope lib expected (FeeBump feeSource inner) =
     (case (if present feeSource then same_account lib expected (the feeSource) (ForbiddenException ''Transaction source account does not match authenticated user'')
            else Inr ()) of
        Inl err \<Rightarrow> Inl err
      | Inr _ \<Rightarrow> check_envelope lib expected inner)"
| "check_envelope lib expected (Envelope source srcs) =
     (if \<not> present source then Inl (BadRequestException ''Transaction must have a valid source account'')
      else case same_account lib expected (the source) (ForbiddenException ''Transaction source account does not match authenticated user'') of
          Inl err \<Rightarrow> Inl err
        | Inr _ \<Rightarrow> check_op_sources lib expected srcs)"

definition validateTransactionSource :: "rpc_lib \<Rightarrow> envelope \<Rightarrow> string option \<Rightarrow> unit outcome" where
  "validateTransactionSource lib tx authenticatedWallet =
     (if \<not> present authenticatedWallet \<or> trim (the authenticatedWallet) = []
      then Inl (ForbiddenException ''No linked wallet found for authenticated user'')
      else case validateAccountAddress lib authenticatedWallet of
          Inl err \<Rightarrow> Inl err
        | Inr expected \<Rightarrow> check_envelope lib expected tx)"

definition MAX_SEND_ATTEMPTS :: nat where
  "MAX_SEND_ATTEMPTS = 3"

text \<open>Send again while the node asks for it; the number counts the attempts that are left.\<close>

fun send_again :: "nat \<Rightarrow> rpc_lib \<Rightarrow> string \<Rightarrow> string \<times> string \<Rightarrow> (string \<times> string) act" where
  "send_again 0 lib tx sendResult = ret sendResult"
| "send_again (Suc left) lib tx sendResult =
     (if fst sendResult \<noteq> ''TRY_AGAIN_LATER'' then ret sendResult
      else seq await (bind (send_tx lib tx) (send_again left lib tx)))"

definition simulateAssembleAndSend :: "rpc_lib \<Rightarrow> string \<Rightarrow> envelope \<Rightarrow> string option \<Rightarrow> (string \<times> string) act" where
  "simulateAssembleAndSend lib tx env authenticatedWallet =
     seq (if present authenticatedWallet then lift (validateTransactionSource lib env authenticatedWallet) else ret ())
     (bind (simulate_and_sign lib (rp_keeper lib) tx) (\<lambda>assembledTx.
      bind (bind (send_tx lib assembledTx) (send_again (MAX_SEND_ATTEMPTS - 1) lib assembledTx)) (\<lambda>sendResult.
      if fst sendResult = ''ERROR'' then throw (PlainError ''Transaction submission failed'')
      else if fst sendResult = ''TRY_AGAIN_LATER'' then throw (PlainError ''Transaction submission was rejected by the RPC node'')
      else ret sendResult)))"

section \<open>Waiting ends\<close>

lemma attempt_run: "attempt m e s = (Inr (fst (m e s)), snd (m e s))"
  by (simp add: attempt_def catch_def bind_def ret_def split: prod.splits sum.splits)

lemma rpc_run: "rpc answer e s = (answer (fst s), (Suc (fst s), e_rely e (fst s) (snd s)))"
  by (simp add: rpc_def call_def)

text \<open>What the node has said of a transaction by tick \<open>m'\<close>, from tick \<open>m\<close> on.\<close>

definition says_success :: "rpc_lib \<Rightarrow> string \<Rightarrow> nat \<Rightarrow> nat \<Rightarrow> bool" where
  "says_success lib h m m' \<longleftrightarrow> (\<exists>j. m \<le> j \<and> j < m' \<and> rp_getTransaction lib h j = Inr ''SUCCESS'')"

definition says_failed :: "rpc_lib \<Rightarrow> string \<Rightarrow> nat \<Rightarrow> nat \<Rightarrow> bool" where
  "says_failed lib h m m' \<longleftrightarrow> (\<exists>j. m \<le> j \<and> j < m' \<and> (rp_getTransaction lib h j = Inr ''FAILED''
     \<or> (\<exists>err. rp_getTransaction lib h j = Inl err \<and> contains ''failed on-chain'' (exn_message err))))"

definition wait_verdict :: "rpc_lib \<Rightarrow> string \<Rightarrow> int \<Rightarrow> env \<Rightarrow> nat \<Rightarrow> nat \<Rightarrow> unit outcome \<Rightarrow> bool" where
  "wait_verdict lib h deadline e m m' r =
     (case r of
        Inr _ \<Rightarrow> says_success lib h m m'
      | Inl err \<Rightarrow> says_failed lib h m m'
          \<or> err = PlainError ''Transaction did not reach SUCCESS in time'' \<and> e_clock e (m' - 1) \<ge> deadline)"

lemma wait_verdict_mono: "wait_verdict lib h d e (m + k) m' r \<Longrightarrow> wait_verdict lib h d e m m' r"
  by (auto simp: wait_verdict_def says_success_def says_failed_def split: sum.splits) (meson le_trans le_add1)+

lemma wait_loop_step:
  "wait_loop (Suc fuel) lib h start T e (m, w) =
     (let v = e_rely e (Suc m) w; again = wait_loop fuel lib h start T e (m + 3, e_rely e (Suc (Suc m)) v) in
      if \<not> e_clock e m - start < T then (Inl (PlainError ''Transaction did not reach SUCCESS in time''), (Suc m, w))
      else case rp_getTransaction lib h (Suc m) of
          Inr status \<Rightarrow> if status = ''SUCCESS'' then (Inr (Some ()), (Suc (Suc m), v))
            else if status = ''FAILED'' then (Inl (PlainError ''Transaction failed on-chain''), (Suc (Suc m), v)) else again
        | Inl err \<Rightarrow> if contains ''failed on-chain'' (exn_message err) then (Inl err, (Suc (Suc m), v)) else again)"
  by (simp add: bind_def clock_def attempt_run rpc_run ret_def throw_def await_def Let_def numeral_3_eq_3 split: sum.split)

declare wait_loop.simps(2) [simp del]

lemma wait_loop_verdict:
  assumes "wait_loop fuel lib h start T e (m, w) = (r, (m', w'))"
  shows "m' \<le> m + 3 * fuel \<and>
    (case r of
       Inr None \<Rightarrow> (\<forall>k < fuel. e_clock e (m + 3 * k) < start + T)
     | Inr (Some u) \<Rightarrow> wait_verdict lib h (start + T) e m m' (Inr u)
     | Inl err \<Rightarrow> wait_verdict lib h (start + T) e m m' (Inl err))"
  using assms
proof (induction fuel arbitrary: m w)
  case 0
  then show ?case by (auto simp: ret_def)
next
  case (Suc fuel)
  show ?case
  proof (cases "e_clock e m - start < T")
    case False
    with Suc.prems have "r = Inl (PlainError ''Transaction did not reach SUCCESS in time'')" "m' = Suc m"
      by (simp_all add: wait_loop_step Let_def)
    with False show ?thesis by (simp add: wait_verdict_def)
  next
    case True
    let ?again = "wait_loop fuel lib h start T e (m + 3, e_rely e (Suc (Suc m)) (e_rely e (Suc m) w)) = (r, (m', w'))"
    consider
        (ok) "rp_getTransaction lib h (Suc m) = Inr ''SUCCESS''" "r = Inr (Some ())" "m' = Suc (Suc m)"
      | (bad) err where "says_failed lib h m (Suc (Suc m))" "r = Inl err" "m' = Suc (Suc m)"
      | (again) ?again
    proof (cases "rp_getTransaction lib h (Suc m)")
      case (Inl err)
      show thesis
      proof (cases "contains ''failed on-chain'' (exn_message err)")
        case c: True
        then have "says_failed lib h m (Suc (Suc m))" using Inl by (auto simp: says_failed_def intro!: exI [of _ "Suc m"])
        with Suc.prems True Inl c show thesis by (intro bad [of err]) (simp_all add: wait_loop_step Let_def)
      next
        case False
        with Suc.prems True Inl show thesis by (intro again) (simp add: wait_loop_step Let_def)
      qed
    next
      case (Inr status)
      consider "status = ''SUCCESS''" | "status = ''FAILED''" | "status \<noteq> ''SUCCESS''" "status \<noteq> ''FAILED''" by blast
      then show thesis
      proof cases
        case 1
        with Suc.prems True Inr show thesis by (intro ok) (simp_all add: wait_loop_step Let_def)
      next
        case 2
        then have "says_failed lib h m (Suc (Suc m))" using Inr by (auto simp: says_failed_def intro!: exI [of _ "Suc m"])
        with Suc.prems True Inr 2 show thesis by (intro bad [of "PlainError ''Transaction failed on-chain''"]) (simp_all add: wait_loop_step Let_def)
      next
        case 3
        with Suc.prems True Inr show thesis by (intro again) (simp add: wait_loop_step Let_def)
      qed
    qed
    then show ?thesis
    proof cases
      case ok
      then show ?thesis by (auto simp: wait_verdict_def says_success_def intro!: exI [of _ "Suc m"])
    next
      case bad
      then show ?thesis by (simp add: wait_verdict_def)
    next
      case again
      note IH = Suc.IH [OF again]
      have "(\<forall>k < Suc fuel. e_clock e (m + 3 * k) < start + T)"
        if "\<forall>k < fuel. e_clock e (m + 3 + 3 * k) < start + T"
      proof (intro allI impI)
        fix k assume "k < Suc fuel"
        with True that show "e_clock e (m + 3 * k) < start + T" by (cases k) (auto simp: algebra_simps)
      qed
      with IH show ?thesis by (auto split: sum.splits option.splits intro: wait_verdict_mono)
    qed
  qed
qed

text \<open>
  Waiting for a transaction ends and its verdict is the network's: if the poll interval passes between two rounds,
  \<^verbatim>\<open>waitForTransaction\<close> makes at most one poll per interval and one more, returns only if the node reported SUCCESS for
  this hash, raises "failed on-chain" only if the node said so, and otherwise gives up after the time-out, not before.
\<close>

theorem waitForTransaction_ends:
  assumes run: "waitForTransaction lib h T e (n, w) = (r, (n', w'))"
    and sleeps: "e_clock e n \<le> e_clock e (Suc n)" "\<And>k. e_clock e (Suc n + 3 * k) + POLL_INTERVAL_MS \<le> e_clock e (Suc n + 3 * Suc k)"
  shows "n' \<le> n + 7 + 3 * nat (T div POLL_INTERVAL_MS) \<and> wait_verdict lib h (e_clock e n + T) e (Suc n) n' r"
proof -
  let ?fuel = "nat (T div POLL_INTERVAL_MS) + 2"
  obtain q m' v where loop: "wait_loop ?fuel lib h (e_clock e n) T e (Suc n, w) = (q, (m', v))"
    by (metis prod.exhaust)
  have later: "e_clock e n + int k * POLL_INTERVAL_MS \<le> e_clock e (Suc n + 3 * k)" for k
  proof (induction k)
    case 0
    then show ?case using sleeps(1) by simp
  next
    case (Suc k)
    with sleeps(2) [of k] show ?case by (simp add: algebra_simps)
  qed
  have "T \<le> int (nat (T div POLL_INTERVAL_MS) + 1) * POLL_INTERVAL_MS"
  proof (cases "T < 0")
    case False
    have "T = T div 2000 * 2000 + T mod 2000" "T mod 2000 < 2000" by simp_all
    with False show ?thesis by (simp add: POLL_INTERVAL_MS_def pos_imp_zdiv_nonneg_iff algebra_simps)
  qed (simp add: POLL_INTERVAL_MS_def)
  with later [of "nat (T div POLL_INTERVAL_MS) + 1"]
  have "\<not> e_clock e (Suc n + 3 * (nat (T div POLL_INTERVAL_MS) + 1)) < e_clock e n + T" by linarith
  then have "q \<noteq> Inr None"
    using wait_loop_verdict [OF loop] by (auto split: sum.splits option.splits)
  with run loop wait_loop_verdict [OF loop] show ?thesis
    by (auto simp: waitForTransaction_def bind_def clock_def ret_def split: sum.splits option.splits)
qed

lemma waitForTransaction_success:
  assumes "waitForTransaction lib h T e (n, w) = (Inr u, (n', w'))"
  shows "says_success lib h n n'"
proof -
  let ?fuel = "nat (T div POLL_INTERVAL_MS) + 2"
  obtain q m' v where loop: "wait_loop ?fuel lib h (e_clock e n) T e (Suc n, w) = (q, (m', v))"
    by (metis prod.exhaust)
  with assms have "q = Inr (Some u)" "m' = n'"
    by (auto simp: waitForTransaction_def bind_def clock_def ret_def throw_def split: sum.splits option.splits)
  with wait_loop_verdict [OF loop] show ?thesis
    by (auto simp: wait_verdict_def says_success_def) (meson Suc_leD)
qed

section \<open>Calls are confirmed and bounded\<close>

definition unsent :: "world \<Rightarrow> world \<Rightarrow> bool" where
  "unsent w v \<longleftrightarrow> sentTxs v = sentTxs w"

interpretation us: world_order unsent
  by unfold_locales (auto simp: unsent_def)

lemma unsent_run:
  "guarantees unsent m \<Longrightarrow> \<forall>k v. unsent v (e_rely e k v) \<Longrightarrow> m e (n, w) = (r, (n', w')) \<Longrightarrow> sentTxs w' = sentTxs w"
  using guaranteesD [where R = unsent] unfolding unsent_def by metis

lemma unsent_attempt: "guarantees unsent m \<Longrightarrow> guarantees unsent (attempt m)"
  by (simp add: attempt_run guarantees_def)

lemma unsent_rpc: "guarantees unsent (rpc answer)"
  unfolding rpc_def by (rule us.guar_call)

lemma unsent_wait: "guarantees unsent (wait_loop fuel lib h start T)"
  by (induction fuel)
    (auto simp: wait_loop.simps intro!: us.guar_bind us.guar_ret us.guar_clock us.guar_throw us.guar_await
      unsent_attempt unsent_rpc split: sum.splits)

lemma unsent_waitForTransaction: "guarantees unsent (waitForTransaction lib h T)"
  unfolding waitForTransaction_def
  by (auto intro!: us.guar_bind us.guar_clock unsent_wait us.guar_ret us.guar_throw split: option.splits)

lemma unsent_landed: "guarantees unsent (landed lib first lastSentHash)"
  unfolding landed_def by (auto intro!: us.guar_catch us.guar_bind us.guar_ret unsent_rpc)

lemma unsent_sign: "guarantees unsent (simulate_and_sign lib signer tx)"
  unfolding simulate_and_sign_def
  by (auto intro!: us.guar_bind unsent_rpc us.guar_throw us.guar_lift split: SimResult.splits)

lemma unsent_prepare: "guarantees unsent (prepare_tx lib memo contractId fname args signer)"
  unfolding prepare_tx_def by (auto intro!: us.guar_bind unsent_rpc us.guar_lift unsent_sign)

lemma landed_True:
  assumes "landed lib first prev e (n, w) = (Inr True, (n', w'))"
  shows "says_success lib (the prev) 0 n'"
  using assms
  by (auto simp: landed_def rpc_run catch_def bind_def ret_def says_success_def split: if_splits sum.splits)

lemma landed_total: "\<exists>b. fst (landed lib first prev e s) = Inr b"
  by (auto simp: landed_def rpc_run catch_def bind_def ret_def split: sum.splits)

lemma finish_send_spec:
  assumes "finish_send lib prev sr e (n, w) = (q, (n', w'))" and rely: "\<forall>k v. unsent v (e_rely e k v)"
  shows "\<exists>r sent. q = Inr (r, sent) \<and> sentTxs w' = sentTxs w \<and> (\<forall>h. r = Inr h \<longrightarrow> says_success lib h 0 n')"
proof -
  obtain r m v where wait: "waitForTransaction lib (snd sr) 60000 e (n, w) = (r, (m, v))" by (metis prod.exhaust)
  from unsent_run [OF unsent_waitForTransaction rely wait] have "sentTxs v = sentTxs w" .
  moreover have "says_success lib (snd sr) 0 m" if "r = Inr u" for u
    using waitForTransaction_success [of lib "snd sr" 60000 e n w u m v] wait that by (auto simp: says_success_def)
  ultimately show ?thesis
    using assms(1) wait
    by (cases r) (auto simp: finish_send_def Let_def ret_def bind_def attempt_run split: if_splits)
qed

lemma invoke_once_spec:
  assumes run: "invoke_once lib prepare first prev e (n, w) = (q, (n', w'))"
    and prep: "guarantees unsent prepare" and rely: "\<forall>k v. unsent v (e_rely e k v)"
  shows "\<exists>r sent. q = Inr (r, sent) \<and> length (sentTxs w') \<le> Suc (length (sentTxs w))
    \<and> (\<forall>h. r = Inr h \<longrightarrow> says_success lib h 0 n')"
proof -
  obtain b m v where l: "landed lib first prev e (n, w) = (Inr b, (m, v))"
    using landed_total [of lib first prev e "(n, w)"] by (metis prod.exhaust fst_conv)
  have v: "sentTxs v = sentTxs w" by (rule unsent_run [OF unsent_landed rely l])
  show ?thesis
  proof (cases b)
    case True
    with run l landed_True [of lib first prev e n w m v] v show ?thesis
      by (auto simp: invoke_once_def bind_def ret_def)
  next
    case False
    obtain t m1 v1 where p: "prepare e (m, v) = (t, (m1, v1))" by (metis prod.exhaust)
    have v1: "sentTxs v1 = sentTxs w" using unsent_run [OF prep rely p] v by simp
    let ?u = "e_rely e m1 v1"
    show ?thesis
    proof (cases t)
      case (Inl err)
      with run l False p v1 show ?thesis by (auto simp: invoke_once_def bind_def ret_def attempt_run)
    next
      case (Inr tx)
      let ?s = "(Suc m1, ?u\<lparr>sentTxs := sentTxs ?u @ [tx]\<rparr>)"
      have u: "sentTxs ?u = sentTxs w" using rely v1 by (simp add: unsent_def)
      show ?thesis
      proof (cases "rp_send lib tx m1")
        case (Inl err)
        with run l False p Inr u show ?thesis
          by (auto simp: invoke_once_def bind_def ret_def attempt_run send_tx_def Let_def)
      next
        case (Inr sr)
        with run l False p \<open>t = Inr tx\<close> have "finish_send lib prev sr e ?s = (q, (n', w'))"
          by (simp add: invoke_once_def bind_def attempt_run send_tx_def Let_def)
        from finish_send_spec [OF this rely] u show ?thesis by auto
      qed
    qed
  qed
qed

lemma invoke_from_spec:
  assumes "invoke_from left lib prepare prev e (n, w) = (q, (n', w'))"
    and prep: "guarantees unsent prepare" and rely: "\<forall>k v. unsent v (e_rely e k v)"
  shows "length (sentTxs w') \<le> left + length (sentTxs w) \<and> (\<forall>h. q = Inr h \<longrightarrow> says_success lib h 0 n')"
  using assms(1)
proof (induction left arbitrary: prev n w)
  case 0
  then show ?case by (auto simp: throw_def)
next
  case (Suc left)
  obtain q1 m v where once: "invoke_once lib prepare (Suc left = MAX_ATTEMPTS) prev e (n, w) = (q1, (m, v))"
    by (metis prod.exhaust)
  from invoke_once_spec [OF once prep rely] obtain r sent where
    r: "q1 = Inr (r, sent)" "length (sentTxs v) \<le> Suc (length (sentTxs w))" "\<And>h. r = Inr h \<Longrightarrow> says_success lib h 0 m"
    by blast
  show ?case
  proof (cases r)
    case (Inr h)
    with Suc.prems once r show ?thesis by (auto simp: bind_def ret_def)
  next
    case (Inl err)
    show ?thesis
    proof (cases "is_SimulationFailed err")
      case True
      with Suc.prems once r Inl show ?thesis by (auto simp: bind_def throw_def)
    next
      case False
      obtain m1 v1 where "invoke_from left lib prepare sent e (m1, v1) = (q, (n', w'))" "sentTxs v1 = sentTxs v"
        using Suc.prems once r(1) Inl False rely
        by (cases "left > 0") (auto simp: bind_def ret_def await_def unsent_def)
      from Suc.IH [OF this(1)] this(2) r(2) show ?thesis by simp
    qed
  qed
qed

text \<open>
  C8. A contract call that returns is on the ledger, and a call never floods the network: whatever the name
  \<^verbatim>\<open>validMemo\<close> evaluates to, \<^verbatim>\<open>doInvokeContract\<close> returns a hash only if the node has reported SUCCESS for it before the
  return, and it sends at most three transactions, also when it fails; other requests may run in between, as long as they
  do not send.
\<close>

theorem doInvokeContract_confirmed:
  assumes run: "doInvokeContract lib memo contractId fname args signer e (n, w) = (r, (n', w'))"
    and rely: "\<forall>k v. sentTxs (e_rely e k v) = sentTxs v"
  shows "length (sentTxs w') \<le> length (sentTxs w) + 3
     \<and> (\<forall>hash. r = Inr hash \<longrightarrow> (\<exists>j < n'. rp_getTransaction lib hash j = Inr ''SUCCESS''))"
proof (cases "rp_contract lib contractId")
  case (Inl err)
  with run show ?thesis by (auto simp: doInvokeContract_def bind_def lift_def)
next
  case (Inr u)
  have r: "\<forall>k v. unsent v (e_rely e k v)" using rely by (simp add: unsent_def)
  from run Inr have "invoke_from MAX_ATTEMPTS lib (prepare_tx lib memo contractId fname args signer) None e (n, w) = (r, (n', w'))"
    by (simp add: doInvokeContract_def bind_def lift_def)
  from invoke_from_spec [OF this unsent_prepare r] show ?thesis
    by (auto simp: MAX_ATTEMPTS_def says_success_def)
qed

lemma prepare_fails: "\<exists>x s'. prepare_tx lib (Inl err) contractId fname args signer e s = (Inl x, s')"
proof -
  have "\<nexists>y. fst (prepare_tx lib (Inl err) contractId fname args signer e s) = Inr y"
    by (auto simp: prepare_tx_def bind_def rpc_run lift_def split: sum.splits)
  then show ?thesis by (metis prod.exhaust fst_conv sum.exhaust)
qed

lemma invoke_from_fails:
  assumes "invoke_from left lib prepare None e (n, w) = (q, (n', w'))"
    and fails: "\<And>s. \<exists>x s'. prepare e s = (Inl x, s')"
    and prep: "guarantees unsent prepare" and rely: "\<forall>k v. unsent v (e_rely e k v)"
  shows "(\<exists>err. q = Inl err) \<and> sentTxs w' = sentTxs w"
  using assms(1)
proof (induction left arbitrary: n w)
  case 0
  then show ?case by (auto simp: throw_def)
next
  case (Suc left)
  obtain x m v where p: "prepare e (n, w) = (Inl x, (m, v))" using fails [of "(n, w)"] by (metis prod.exhaust)
  have v: "sentTxs v = sentTxs w" by (rule unsent_run [OF prep rely p])
  have once: "invoke_once lib prepare (Suc left = MAX_ATTEMPTS) None e (n, w) = (Inr (Inl x, None), (m, v))"
    using p by (simp add: invoke_once_def landed_def bind_def ret_def attempt_run present_def)
  show ?case
  proof (cases "is_SimulationFailed x")
    case True
    with Suc.prems once v show ?thesis by (auto simp: bind_def throw_def)
  next
    case False
    obtain m1 v1 where "invoke_from left lib prepare None e (m1, v1) = (q, (n', w'))" "sentTxs v1 = sentTxs v"
      using Suc.prems once False rely by (cases "left > 0") (auto simp: bind_def ret_def await_def unsent_def)
    from Suc.IH [OF this(1)] this(2) v show ?thesis by simp
  qed
qed

text \<open>
  As written, no contract call can succeed: \<^verbatim>\<open>doInvokeContract\<close> reads \<^verbatim>\<open>validMemo\<close>, which is declared in
  \<^verbatim>\<open>invokeContract\<close> only; reading it raises on every attempt, so \<^verbatim>\<open>invokeContract\<close> fails for all arguments, whatever the
  node answers, and nothing is ever sent.
\<close>

theorem invokeContract_never_sends:
  assumes run: "invokeContract lib contractId fname args signer memo e (n, w) = (r, (n', w'))"
    and rely: "\<forall>k v. sentTxs (e_rely e k v) = sentTxs v"
  shows "(\<exists>err. r = Inl err) \<and> sentTxs w' = sentTxs w"
proof -
  let ?signer = "case signer of Some k \<Rightarrow> k | None \<Rightarrow> rp_keeper lib"
  let ?prep = "prepare_tx lib validMemo_in_doInvokeContract contractId fname args ?signer"
  have r: "\<forall>k v. unsent v (e_rely e k v)" using rely by (simp add: unsent_def)
  have loop: "(\<exists>err. q = Inl err) \<and> sentTxs v' = sentTxs v"
    if "invoke_from MAX_ATTEMPTS lib ?prep None e (m, v) = (q, (m', v'))" for m v q m' v'
    by (rule invoke_from_fails [OF that _ unsent_prepare r]) (simp only: validMemo_in_doInvokeContract_def prepare_fails)
  show ?thesis
  proof (cases "(\<exists>m. validateMemo memo = Inr m) \<and> rx_test CONTRACT_ADDRESS contractId \<and> rp_contract lib contractId = Inr ()")
    case True
    with run have "invoke_from MAX_ATTEMPTS lib ?prep None e (Suc n, e_rely e n w) = (r, (n', w'))"
      by (auto simp: invokeContract_def doInvokeContract_def bind_def lift_def await_def)
    from loop [OF this] rely show ?thesis by simp
  next
    case False
    with run rely show ?thesis
      by (cases "validateMemo memo"; cases "rp_contract lib contractId")
        (auto simp: invokeContract_def doInvokeContract_def bind_def lift_def await_def throw_def split: if_splits)
  qed
qed

section \<open>Client-signed transactions belong to the caller\<close>

text \<open>All accounts on whose behalf a transaction acts.\<close>

fun sources_of :: "envelope \<Rightarrow> string list" where
  "sources_of (Envelope source srcs) = the source # map the (filter present srcs)"
| "sources_of (FeeBump feeSource inner) = (if present feeSource then [the feeSource] else []) @ sources_of inner"

fun has_source :: "envelope \<Rightarrow> bool" where
  "has_source (Envelope source srcs) = present source"
| "has_source (FeeBump feeSource inner) = has_source inner"

lemma same_account_iff: "same_account lib a s err = Inr () \<longleftrightarrow> validateAccountAddress lib (Some s) = Inr a"
  by (auto simp: same_account_def split: sum.splits)

lemma check_op_sources_iff:
  "check_op_sources lib a srcs = Inr () \<longleftrightarrow> list_all (\<lambda>s. validateAccountAddress lib (Some s) = Inr a) (map the (filter present srcs))"
proof (induction srcs)
  case (Cons src srcs)
  show ?case
  proof (cases "present src")
    case True
    then show ?thesis
      using Cons.IH same_account_iff [of lib a "the src" "ForbiddenException ''Operation source account does not match authenticated user''"]
      by (auto split: sum.splits)
  qed (simp add: Cons.IH)
qed simp

lemma check_envelope_iff:
  "check_envelope lib a tx = Inr () \<longleftrightarrow>
     has_source tx \<and> list_all (\<lambda>s. validateAccountAddress lib (Some s) = Inr a) (sources_of tx)"
proof (induction tx)
  case (Envelope source srcs)
  show ?case
    using same_account_iff [of lib a "the source" "ForbiddenException ''Transaction source account does not match authenticated user''"]
    by (auto simp: check_op_sources_iff split: sum.splits)
next
  case (FeeBump feeSource inner)
  show ?case
    using FeeBump.IH same_account_iff [of lib a "the feeSource" "ForbiddenException ''Transaction source account does not match authenticated user''"]
    by (auto split: sum.splits)
qed

text \<open>
  C7. The check of a client-signed transaction is exact: \<^verbatim>\<open>validateTransactionSource\<close> accepts a transaction if and only if
  the wallet of the caller is a valid account and the source of the envelope, the fee sources of every wrapping fee bump
  and the sources of all operations that name one are that account.
\<close>

theorem validateTransactionSource_exact:
  "validateTransactionSource lib tx wallet = Inr () \<longleftrightarrow>
     (\<exists>account. validateAccountAddress lib wallet = Inr account \<and> has_source tx
        \<and> list_all (\<lambda>s. validateAccountAddress lib (Some s) = Inr account) (sources_of tx))"
proof -
  have "validateAccountAddress lib wallet \<noteq> Inr a" if "\<not> present wallet \<or> trim (the wallet) = []" for a
    using that by (auto simp: validateAccountAddress_def present_def trim_def)
  then show ?thesis
    by (auto simp: validateTransactionSource_def check_envelope_iff split: sum.splits)
qed

lemma send_again_ticks: "n \<le> fst (snd (send_again left lib tx sr e (n, w)))"
proof (induction left arbitrary: sr n w)
  case (Suc left)
  show ?case
  proof (cases "fst sr = ''TRY_AGAIN_LATER''")
    case True
    let ?u = "e_rely e (Suc n) (e_rely e n w)"
    show ?thesis
      using True Suc.IH [of "Suc (Suc n)" _ "?u\<lparr>sentTxs := sentTxs ?u @ [tx]\<rparr>"]
      by (cases "rp_send lib tx (Suc n)") (auto simp: bind_def await_def send_tx_def Let_def intro: Suc_leD)
  qed (simp add: ret_def)
qed (simp add: ret_def)

lemma send_again_spec:
  assumes "send_again left lib tx sr e (n, w) = (r, (n', w'))" and rely: "\<forall>k v. unsent v (e_rely e k v)"
  shows "\<exists>k \<le> left. sentTxs w' = sentTxs w @ replicate k tx
    \<and> (\<forall>x. r = Inr x \<longrightarrow> x = sr \<or> (\<exists>j < n'. rp_send lib tx j = Inr x))"
  using assms(1)
proof (induction left arbitrary: sr n w)
  case 0
  then show ?case by (auto simp: ret_def)
next
  case (Suc left)
  let ?u = "e_rely e (Suc n) (e_rely e n w)"
  let ?v = "?u\<lparr>sentTxs := sentTxs ?u @ [tx]\<rparr>"
  have u: "sentTxs ?u = sentTxs w" using rely by (simp add: unsent_def)
  show ?case
  proof (cases "fst sr = ''TRY_AGAIN_LATER''")
    case False
    with Suc.prems show ?thesis by (intro exI [of _ 0]) (auto simp: ret_def)
  next
    case True
    show ?thesis
    proof (cases "rp_send lib tx (Suc n)")
      case (Inl err)
      with Suc.prems True u show ?thesis
        by (intro exI [of _ 1]) (auto simp: bind_def await_def send_tx_def Let_def)
    next
      case (Inr x)
      with Suc.prems True have rest: "send_again left lib tx x e (Suc (Suc n), ?v) = (r, (n', w'))"
        by (simp add: bind_def await_def send_tx_def Let_def)
      have later: "Suc n < n'"
        using send_again_ticks [of "Suc (Suc n)" left lib tx x e ?v] rest by simp
      from Suc.IH [OF rest] obtain k where k: "k \<le> left" "sentTxs w' = sentTxs ?v @ replicate k tx"
        "\<And>y. r = Inr y \<Longrightarrow> y = x \<or> (\<exists>j < n'. rp_send lib tx j = Inr y)" by blast
      from k(2) u have "sentTxs w' = sentTxs w @ replicate (Suc k) tx" by simp
      with k Inr later show ?thesis by (intro exI [of _ "Suc k"]) auto
    qed
  qed
qed

text \<open>
  A client-signed transaction is sent only for its owner, and only as itself: \<^verbatim>\<open>simulateAssembleAndSend\<close> sends nothing
  when the source check refuses the transaction or the simulation fails; otherwise everything it sends is one and the same
  assembled transaction, at most three times; and it returns only an answer of the node to that transaction, never an ERROR
  or TRY_AGAIN_LATER.
\<close>

theorem simulateAssembleAndSend_sound:
  assumes run: "simulateAssembleAndSend lib tx env wallet e (n, w) = (r, (n', w'))"
    and rely: "\<forall>k v. sentTxs (e_rely e k v) = sentTxs v"
  shows "\<exists>assembled k. k \<le> 3 \<and> sentTxs w' = sentTxs w @ replicate k assembled
     \<and> (0 < k \<longrightarrow> (\<not> present wallet \<or> validateTransactionSource lib env wallet = Inr ())
          \<and> (\<exists>sim. rp_assemble lib tx sim (rp_keeper lib) = Inr assembled \<and> (\<forall>msg. sim \<noteq> SimError msg)))
     \<and> (\<forall>status hash. r = Inr (status, hash) \<longrightarrow> 0 < k \<and> status \<noteq> ''ERROR'' \<and> status \<noteq> ''TRY_AGAIN_LATER''
          \<and> (\<exists>j < n'. rp_send lib assembled j = Inr (status, hash)))"
proof -
  have re: "\<forall>k v. unsent v (e_rely e k v)" using rely by (simp add: unsent_def)
  let ?ok = "\<not> present wallet \<or> validateTransactionSource lib env wallet = Inr ()"
  obtain q m v where sign: "simulate_and_sign lib (rp_keeper lib) tx e (n, w) = (q, (m, v))" by (metis prod.exhaust)
  have v: "sentTxs v = sentTxs w" by (rule unsent_run [OF unsent_sign re sign])
  show ?thesis
  proof (cases "?ok \<and> (\<exists>a. q = Inr a)")
    case False
    then have "(\<exists>err. r = Inl err) \<and> sentTxs w' = sentTxs w"
      using run sign v
      by (cases q) (auto simp: simulateAssembleAndSend_def bind_def lift_def ret_def split: if_splits sum.splits)
    then show ?thesis by (intro exI [of _ "[]"] exI [of _ 0]) auto
  next
    case True
    then obtain a where ok: ?ok and q: "q = Inr a" by blast
    from sign q obtain sim where sim: "rp_assemble lib tx sim (rp_keeper lib) = Inr a" "\<And>msg. sim \<noteq> SimError msg"
      by (auto simp: simulate_and_sign_def bind_def rpc_run lift_def throw_def split: sum.splits SimResult.splits)
    have chk: "(if present wallet then lift (validateTransactionSource lib env wallet) else ret ()) e (n, w) = (Inr (), (n, w))"
      using ok by (auto simp: lift_def ret_def)
    let ?u = "e_rely e m v"
    let ?v = "?u\<lparr>sentTxs := sentTxs ?u @ [a]\<rparr>"
    have u: "sentTxs ?u = sentTxs w" using rely v by simp
    show ?thesis
    proof (cases "rp_send lib a m")
      case (Inl err)
      with run sign q u have "sentTxs w' = sentTxs w @ replicate 1 a" "r = Inl err"
        by (auto simp: simulateAssembleAndSend_def bind_def chk send_tx_def Let_def)
      with ok sim show ?thesis by (intro exI [of _ a] exI [of _ 1]) auto
    next
      case (Inr sr)
      obtain x m1 v1 where again: "send_again 2 lib a sr e (Suc m, ?v) = (x, (m1, v1))" by (metis prod.exhaust)
      from send_again_spec [OF again re] obtain k where
        k: "k \<le> 2" "sentTxs v1 = sentTxs ?v @ replicate k a"
        "\<And>y. x = Inr y \<Longrightarrow> y = sr \<or> (\<exists>j < m1. rp_send lib a j = Inr y)" by blast
      have later: "m < m1" using send_again_ticks [of "Suc m" 2 lib a sr e ?v] again by simp
      have fin: "w' = v1 \<and> n' = m1 \<and> (\<forall>y. r = Inr y \<longrightarrow> x = Inr y \<and> fst y \<noteq> ''ERROR'' \<and> fst y \<noteq> ''TRY_AGAIN_LATER'')"
        using run sign q again Inr
        by (cases x) (auto simp: simulateAssembleAndSend_def bind_def chk ret_def throw_def send_tx_def Let_def
            MAX_SEND_ATTEMPTS_def simp del: send_again.simps split: if_splits)
      from k(2) u have "sentTxs v1 = sentTxs w @ replicate (Suc k) a" by simp
      with fin k later Inr ok sim show ?thesis
        by (intro exI [of _ a] exI [of _ "Suc k"]) auto
    qed
  qed
qed

section \<open>Where the calls go wrong\<close>

definition sample_rpc :: rpc_lib where
  "sample_rpc = \<lparr>rp_isEd25519 = (\<lambda>s. starts_with ''G'' s), rp_isMed25519 = starts_with ''M'', rp_contract = (\<lambda>_. Inr ()),
     rp_addOperation = (\<lambda>account contractId fname args. Inr (fname @ ''#'' @ account)), rp_build = (\<lambda>b memo. Inr b),
     rp_assemble = (\<lambda>tx sim signer. Inr tx), rp_keeper = ''GKEEPER'', rp_getAccount = (\<lambda>signer n. Inr (nat_str (int n))),
     rp_simulate = (\<lambda>tx n. Inr SimEmpty), rp_send = (\<lambda>tx n. Inr (''PENDING'', ''h'' @ nat_str (int n))),
     rp_getTransaction = (\<lambda>h n. Inr ''SUCCESS'')\<rparr>"

text \<open>A node that takes the first transaction but whose answer to it is lost.\<close>

definition lossy_rpc :: rpc_lib where
  "lossy_rpc = sample_rpc\<lparr>rp_send := (\<lambda>tx n. if n < 3 then Inl (HttpStatusError 504) else Inr (''PENDING'', ''h2''))\<rparr>"

text \<open>
  A payout can be sent twice: the hash of a transaction is only known from the answer to its submission, so when that
  answer is lost the retry has nothing to look for, builds a new transaction with the next sequence number and sends it as
  well (with a memo that evaluates; as written nothing is sent at all).
\<close>

theorem lost_answer_sends_twice:
  "let (r, n, w) = doInvokeContract lossy_rpc (Inr None) ''C'' ''process_payout'' [] ''GKEEPER'' (quiet_env 0) (0, empty_world)
   in r = Inr ''h2'' \<and> sentTxs w = [''process_payout#0'', ''process_payout#4'']"
  by code_simp

lemma rx_test_contract_address:
  "rx_test CONTRACT_ADDRESS s \<Longrightarrow> length s = 56 \<and> hd s = CHR ''C'' \<and> CHR ''I'' \<notin> set s \<and> CHR ''O'' \<notin> set s"
  unfolding CONTRACT_ADDRESS_def rx_test_lang
  by (auto simp: rx_lang_rep_Cls Let_def list_all_iff) (drule (1) bspec, simp)+

text \<open>
  Most contract addresses are refused: an address is a C and 55 characters of the alphabet A to Z and 2 to 7, but the
  pattern leaves out the letters I and O, so every address that has one of them fails with "Invalid Stellar contract
  address" before anything is built.
\<close>

theorem contract_address_refused:
  assumes "CHR ''I'' \<in> set contractId \<or> CHR ''O'' \<in> set contractId" and "validateMemo memo = Inr m"
  shows "invokeContract lib contractId fname args signer memo e s = (Inl (BadRequestException ''Invalid Stellar contract address''), s)"
proof -
  have "\<not> rx_test CONTRACT_ADDRESS contractId" using assms(1) rx_test_contract_address by blast
  with assms(2) show ?thesis by (simp add: invokeContract_def bind_def lift_def throw_def)
qed

section \<open>Witnesses\<close>

definition ticking_env :: env where
  "ticking_env = (quiet_env 0)\<lparr>e_clock := (\<lambda>n. 1000 * int n)\<rparr>"

theorem waitForTransaction_ends_witness:
  "\<exists>n'. fst (waitForTransaction (sample_rpc\<lparr>rp_getTransaction := (\<lambda>h n. Inr ''NOT_FOUND'')\<rparr>) ''h'' 10000 ticking_env (0, empty_world))
       = Inl (PlainError ''Transaction did not reach SUCCESS in time'') \<and> n' \<le> 22 \<and> e_clock ticking_env (n' - 1) \<ge> 10000"
proof -
  let ?lib = "sample_rpc\<lparr>rp_getTransaction := (\<lambda>h n. Inr ''NOT_FOUND'')\<rparr>"
  let ?run = "waitForTransaction ?lib ''h'' 10000 ticking_env (0, empty_world)"
  have r: "fst ?run = Inl (PlainError ''Transaction did not reach SUCCESS in time'')" by code_simp
  obtain n' w' where run: "?run = (Inl (PlainError ''Transaction did not reach SUCCESS in time''), (n', w'))"
    using r by (cases ?run) auto
  have "n' \<le> 0 + 7 + 3 * nat (10000 div POLL_INTERVAL_MS)
     \<and> wait_verdict ?lib ''h'' (e_clock ticking_env 0 + 10000) ticking_env (Suc 0) n' (Inl (PlainError ''Transaction did not reach SUCCESS in time''))"
    by (rule waitForTransaction_ends [OF run]) (simp_all add: ticking_env_def POLL_INTERVAL_MS_def)
  then show ?thesis
    using r by (auto simp: wait_verdict_def says_failed_def POLL_INTERVAL_MS_def ticking_env_def)
qed

theorem doInvokeContract_confirmed_witness:
  "\<exists>hash j. fst (doInvokeContract lossy_rpc (Inr None) ''C'' ''pay'' [] ''GKEEPER'' (quiet_env 0) (0, empty_world)) = Inr hash
     \<and> rp_getTransaction lossy_rpc hash j = Inr ''SUCCESS''
     \<and> length (sentTxs (snd (snd (doInvokeContract lossy_rpc (Inr None) ''C'' ''pay'' [] ''GKEEPER'' (quiet_env 0) (0, empty_world))))) \<le> 3"
proof -
  let ?run = "doInvokeContract lossy_rpc (Inr None) ''C'' ''pay'' [] ''GKEEPER'' (quiet_env 0) (0, empty_world)"
  have r: "fst ?run = Inr ''h2''" by code_simp
  obtain n' w' where run: "?run = (Inr ''h2'', (n', w'))" using r by (cases ?run) auto
  have "\<forall>k v. sentTxs (e_rely (quiet_env 0) k v) = sentTxs v" by (simp add: quiet_env_def)
  from doInvokeContract_confirmed [OF run this] run show ?thesis by (auto simp: empty_world_def)
qed

theorem invokeContract_never_sends_witness:
  "\<exists>err. fst (invokeContract sample_rpc (CHR ''C'' # replicate 55 (CHR ''A'')) ''pay'' [] None None (quiet_env 0) (0, empty_world)) = Inl err
     \<and> sentTxs (snd (snd (invokeContract sample_rpc (CHR ''C'' # replicate 55 (CHR ''A'')) ''pay'' [] None None (quiet_env 0) (0, empty_world)))) = []"
proof -
  let ?run = "invokeContract sample_rpc (CHR ''C'' # replicate 55 (CHR ''A'')) ''pay'' [] None None (quiet_env 0) (0, empty_world)"
  obtain r n' w' where run: "?run = (r, (n', w'))" by (metis prod.exhaust)
  have "\<forall>k v. sentTxs (e_rely (quiet_env 0) k v) = sentTxs v" by (simp add: quiet_env_def)
  from invokeContract_never_sends [OF run this] run show ?thesis by (simp add: empty_world_def)
qed

theorem simulateAssembleAndSend_sound_witness:
  "\<exists>k \<le> 3. sentTxs (snd (snd (simulateAssembleAndSend sample_rpc ''tx'' (Envelope (Some ''GA'') [None]) (Some ''ga'') (quiet_env 0) (0, empty_world)))) = replicate k ''tx''
     \<and> 0 < k"
proof -
  let ?run = "simulateAssembleAndSend sample_rpc ''tx'' (Envelope (Some ''GA'') [None]) (Some ''ga'') (quiet_env 0) (0, empty_world)"
  have r: "fst ?run = Inr (''PENDING'', ''h1'')" by code_simp
  obtain n' w' where run: "?run = (Inr (''PENDING'', ''h1''), (n', w'))" using r by (cases ?run) auto
  have "\<forall>k v. sentTxs (e_rely (quiet_env 0) k v) = sentTxs v" by (simp add: quiet_env_def)
  from simulateAssembleAndSend_sound [OF run this] run show ?thesis by (auto simp: empty_world_def sample_rpc_def)
qed

end
