(* ===== verification/Purchase.thy ===== *)
theory Purchase
  imports Stellar_Calls Policy_Lifecycle
begin

text \<open>
  The purchase of a policy with a transaction that the wallet signed, \<^verbatim>\<open>confirmAndCreatePolicy\<close> of
  \<^verbatim>\<open>src/policy/policy.service.ts\<close>. Reading the envelope and decoding its arguments are functions of the Stellar SDK and
  parameters here; the checks on what they yield, the submission, the wait and the creation of the row are the code's.
\<close>

section \<open>Signed transactions\<close>

text \<open>The function of a contract call: contract address (or why it cannot be read), name and arguments.\<close>

datatype host_function = InvokeContract "string outcome" string "string list" | OtherHostFunction

datatype operation = InvokeHostFunction "host_function option" | OtherOperation string

record signed_tx =
  tx_xdr :: string
  tx_maxTime :: "string option"
  tx_sources :: envelope
  tx_operations :: "operation list"

record xdr_lib =
  xd_fromXDR :: "string \<Rightarrow> signed_tx outcome"
  xd_native :: "string \<Rightarrow> string outcome"
  xd_numStr :: "jsnum \<Rightarrow> string"

section \<open>Confirming a purchase\<close>

text \<open>\<^verbatim>\<open>timeBounds.maxTime\<close> as a number, zero when it is missing; \<open>None\<close> is not-a-number.\<close>

definition max_time :: "signed_tx \<Rightarrow> int option" where
  "max_time tx = (if present (tx_maxTime tx) then parseInt10 (the (tx_maxTime tx)) else Some 0)"

definition expired :: "int option \<Rightarrow> int \<Rightarrow> bool" where
  "expired maxTime nowSeconds = (case maxTime of None \<Rightarrow> False | Some t \<Rightarrow> t \<le> 0 \<or> t < nowSeconds)"

definition first_invocation :: "signed_tx \<Rightarrow> (string outcome \<times> string \<times> string list) outcome" where
  "first_invocation tx =
     (case tx_operations tx of
        [] \<Rightarrow> Inl (BadRequestException ''Transaction must contain at least one operation'')
      | OtherOperation ty # _ \<Rightarrow> Inl (BadRequestException ''Expected first operation type to be invokeHostFunction'')
      | InvokeHostFunction (Some (InvokeContract contract fname args)) # _ \<Rightarrow> Inr (contract, fname, args)
      | InvokeHostFunction _ # _ \<Rightarrow> Inl (BadRequestException ''Transaction does not invoke a contract function''))"

definition check_target :: "string option \<Rightarrow> string outcome \<Rightarrow> string \<Rightarrow> string list \<Rightarrow> unit outcome" where
  "check_target expectedContract contract fname args =
     (case contract of
        Inl _ \<Rightarrow> Inl (BadRequestException ''Invalid contract address in transaction'')
      | Inr contractIdStr \<Rightarrow>
          if \<not> present expectedContract then Inl (BadRequestException ''POLICY_ENGINE_CONTRACT is not configured on the server'')
          else if contractIdStr \<noteq> the expectedContract then Inl (BadRequestException ''Transaction targets another contract'')
          else if fname \<noteq> ''buy_policy'' then Inl (BadRequestException ''Transaction calls another function'')
          else if length args < 3 then Inl (BadRequestException ''buy_policy transaction must have at least 3 arguments'')
          else Inr ())"

definition decode_args :: "xdr_lib \<Rightarrow> BuyPolicyDto \<Rightarrow> string list \<Rightarrow> (string \<times> string \<times> string) outcome" where
  "decode_args xl dto args =
     (case (xd_native xl (args ! 0), xd_native xl (args ! 1), xd_native xl (args ! 2)) of
        (Inr xdrProductId, Inr xdrCoverage, Inr xdrOracleKey) \<Rightarrow>
          if xdrProductId \<noteq> d_productId dto then Inl (BadRequestException ''XDR productId does not match request productId'')
          else if xdrCoverage \<noteq> xd_numStr xl (d_coverageXlm dto) then Inl (BadRequestException ''XDR coverage does not match request coverage'')
          else if xdrOracleKey \<noteq> d_oracleKey dto then Inl (BadRequestException ''XDR oracleKey does not match request oracleKey'')
          else Inr (xdrProductId, xdrCoverage, xdrOracleKey)
      | _ \<Rightarrow> Inl (BadRequestException ''Failed to decode buy_policy arguments from XDR''))"

definition check_wallets :: "rpc_lib \<Rightarrow> signed_tx \<Rightarrow> string \<Rightarrow> string \<Rightarrow> unit outcome" where
  "check_wallets lib tx dtoWallet authenticatedWallet =
     (case validateTransactionSource lib (tx_sources tx) (Some authenticatedWallet) of
        Inl err \<Rightarrow> Inl err
      | Inr _ \<Rightarrow>
          (case (validateAccountAddress lib (Some dtoWallet), validateAccountAddress lib (Some authenticatedWallet)) of
             (Inl err, _) \<Rightarrow> Inl err
           | (_, Inl err) \<Rightarrow> Inl err
           | (Inr canonicalDtoWallet, Inr canonicalAuthWallet) \<Rightarrow>
               if canonicalDtoWallet \<noteq> canonicalAuthWallet
               then Inl (ForbiddenException ''Transaction source account does not match authenticated user'') else Inr ()))"

definition chain_dto :: "BuyPolicyDto \<Rightarrow> string \<times> string \<times> string \<Rightarrow> BuyPolicyDto" where
  "chain_dto dto decoded =
     dto\<lparr>d_productId := fst decoded,
         d_coverageXlm := (case parseInt10 (fst (snd decoded)) of None \<Rightarrow> NaN | Some n \<Rightarrow> js_int n),
         d_oracleKey := snd (snd decoded)\<rparr>"

definition confirmAndCreatePolicy :: "rpc_lib \<Rightarrow> xdr_lib \<Rightarrow> string \<Rightarrow> BuyPolicyDto \<Rightarrow> string \<Rightarrow> (string \<times> string) act" where
  "confirmAndCreatePolicy lib xl signedXdr dto authenticatedWallet =
     (case xd_fromXDR xl signedXdr of
        Inl _ \<Rightarrow> throw (BadRequestException ''signedXdr could not be parsed'')
      | Inr tx \<Rightarrow>
          bind clock (\<lambda>t.
          if expired (max_time tx) (t div 1000) then throw (GoneException ''Signed XDR has expired'')
          else
            seq (lift (check_wallets lib tx (d_walletAddress dto) authenticatedWallet))
            (bind (lift (first_invocation tx)) (\<lambda>(contract, fname, args).
             bind (asks (\<lambda>e. e_config e ''POLICY_ENGINE_CONTRACT'')) (\<lambda>expectedContract.
             seq (lift (check_target expectedContract contract fname args))
             (bind (lift (decode_args xl dto args)) (\<lambda>decoded.
              bind (simulateAssembleAndSend lib (tx_xdr tx) (tx_sources tx) (Some authenticatedWallet)) (\<lambda>(status, hash).
              if status = ''ERROR'' then throw (PlainError ''On-chain submission failed'')
              else
                seq (if status = ''TRY_AGAIN_LATER'' \<or> status = ''PENDING'' \<or> status = ''DUPLICATE''
                     then waitForTransaction lib hash 60000 else ret ())
                (bind (createPolicy (chain_dto dto decoded) hash) (\<lambda>policy.
                 ret (p_id policy, hash)))))))))))"

section \<open>What a purchase guarantees\<close>

lemma send_again_answer:
  "send_again left lib tx sr e s = (Inr x, s') \<Longrightarrow> x = sr \<or> (\<exists>j. rp_send lib tx j = Inr x)"
proof (induction left arbitrary: sr s)
  case (Suc left)
  then show ?case
    by (auto simp: returns send_tx_def Let_def split: if_splits) (metis fst_conv)+
qed (simp add: returns)

text \<open>The node gave the hash for a submission of this transaction, as assembled from a simulation of it and countersigned by the keeper.\<close>

definition hash_for :: "rpc_lib \<Rightarrow> string \<Rightarrow> string \<Rightarrow> string \<Rightarrow> bool" where
  "hash_for lib tx status hash \<longleftrightarrow>
     (\<exists>i sim assembled j. rp_simulate lib tx i = Inr sim \<and> rp_assemble lib tx sim (rp_keeper lib) = Inr assembled
        \<and> rp_send lib assembled j = Inr (status, hash))"

lemma simulate_and_sign_answer:
  "simulate_and_sign lib signer tx e s = (Inr assembled, s') \<Longrightarrow>
     \<exists>i sim. rp_simulate lib tx i = Inr sim \<and> rp_assemble lib tx sim signer = Inr assembled"
  by (auto simp: simulate_and_sign_def bind_def rpc_run lift_def throw_def split: SimResult.splits sum.splits; blast)

lemma sent_answer:
  assumes "simulateAssembleAndSend lib tx env wallet e s = (Inr (status, hash), s')"
  shows "hash_for lib tx status hash"
    and "status \<noteq> ''ERROR''" and "status \<noteq> ''TRY_AGAIN_LATER''"
proof -
  from assms obtain a sr s0 s1 s2 s3 where sign: "simulate_and_sign lib (rp_keeper lib) tx e s0 = (Inr a, s1)"
    and a: "send_tx lib a e s1 = (Inr sr, s2)"
      "send_again (MAX_SEND_ATTEMPTS - 1) lib a sr e s2 = (Inr (status, hash), s3)"
    and st: "status \<noteq> ''ERROR''" "status \<noteq> ''TRY_AGAIN_LATER''"
    unfolding simulateAssembleAndSend_def returns by auto
  from st show "status \<noteq> ''ERROR''" "status \<noteq> ''TRY_AGAIN_LATER''" .
  from a(1) have "rp_send lib a (fst s1) = Inr sr" by (simp add: send_tx_def Let_def)
  with send_again_answer [OF a(2)] have "\<exists>j. rp_send lib a j = Inr (status, hash)" by blast
  with simulate_and_sign_answer [OF sign] show "hash_for lib tx status hash" unfolding hash_for_def by blast
qed

lemma check_wallets_ok:
  assumes "check_wallets lib tx dtoWallet wallet = Inr ()"
  shows "\<exists>account. validateAccountAddress lib (Some wallet) = Inr account \<and> validateAccountAddress lib (Some dtoWallet) = Inr account
    \<and> list_all (\<lambda>s. validateAccountAddress lib (Some s) = Inr account) (sources_of (tx_sources tx))"
  using assms
  by (auto simp: check_wallets_def validateTransactionSource_def check_envelope_iff split: sum.splits if_splits)

lemma check_target_ok:
  "check_target expected contract fname args = Inr () \<Longrightarrow>
     contract = Inr (the expected) \<and> present expected \<and> fname = ''buy_policy'' \<and> 3 \<le> length args"
  by (auto simp: check_target_def split: sum.splits if_splits)

lemma decode_args_ok:
  "decode_args xl dto args = Inr decoded \<Longrightarrow>
     decoded = (d_productId dto, xd_numStr xl (d_coverageXlm dto), d_oracleKey dto)
     \<and> xd_native xl (args ! 0) = Inr (d_productId dto) \<and> xd_native xl (args ! 1) = Inr (xd_numStr xl (d_coverageXlm dto))
     \<and> xd_native xl (args ! 2) = Inr (d_oracleKey dto)"
  by (auto simp: decode_args_def split: sum.splits if_splits)

lemma first_invocation_ok:
  "first_invocation tx = Inr (contract, fname, args) \<Longrightarrow>
     \<exists>ops. tx_operations tx = InvokeHostFunction (Some (InvokeContract contract fname args)) # ops"
  by (auto simp: first_invocation_def split: list.splits operation.splits option.splits host_function.splits)

lemma confirm_unfold:
  assumes "confirmAndCreatePolicy lib xl signedXdr dto wallet e (n, w) = (Inr (i, hash), (n', w'))"
  obtains tx ops args policy status m v m1 v1 where
    "xd_fromXDR xl signedXdr = Inr tx" "\<not> expired (max_time tx) (e_clock e n div 1000)"
    "check_wallets lib tx (d_walletAddress dto) wallet = Inr ()"
    "tx_operations tx = InvokeHostFunction (Some (InvokeContract (Inr (the (e_config e ''POLICY_ENGINE_CONTRACT''))) ''buy_policy'' args)) # ops"
    "present (e_config e ''POLICY_ENGINE_CONTRACT'')"
    "decode_args xl dto args = Inr (d_productId dto, xd_numStr xl (d_coverageXlm dto), d_oracleKey dto)"
    "hash_for lib (tx_xdr tx) status hash" "status \<noteq> ''ERROR''" "status \<noteq> ''TRY_AGAIN_LATER''"
    "status \<in> {''PENDING'', ''DUPLICATE''} \<Longrightarrow> waitForTransaction lib hash 60000 e (m1, v1) = (Inr (), (m, v))"
    "createPolicy (chain_dto dto (d_productId dto, xd_numStr xl (d_coverageXlm dto), d_oracleKey dto)) hash e (m, v) = (Inr policy, (n', w'))"
    "p_id policy = i"
proof -
  from assms obtain tx contract fname args decoded status s1 s2 s3 policy where
    tx: "xd_fromXDR xl signedXdr = Inr tx" "\<not> expired (max_time tx) (e_clock e n div 1000)"
      "check_wallets lib tx (d_walletAddress dto) wallet = Inr ()"
    and inv: "first_invocation tx = Inr (contract, fname, args)"
    and target: "check_target (e_config e ''POLICY_ENGINE_CONTRACT'') contract fname args = Inr ()"
    and dec: "decode_args xl dto args = Inr decoded"
    and send: "simulateAssembleAndSend lib (tx_xdr tx) (tx_sources tx) (Some wallet) e s1 = (Inr (status, hash), s2)"
    and wait: "(if status = ''TRY_AGAIN_LATER'' \<or> status = ''PENDING'' \<or> status = ''DUPLICATE''
        then waitForTransaction lib hash 60000 else ret ()) e s2 = (Inr (), s3)"
    and create: "createPolicy (chain_dto dto decoded) hash e s3 = (Inr policy, (n', w'))" "p_id policy = i"
    unfolding confirmAndCreatePolicy_def
    by (cases "xd_fromXDR xl signedXdr") (auto simp: returns)
  from first_invocation_ok [OF inv] obtain ops where ops: "tx_operations tx = InvokeHostFunction (Some (InvokeContract contract fname args)) # ops" ..
  note t = check_target_ok [OF target]
  note d = decode_args_ok [OF dec]
  note sent = sent_answer [OF send]
  from wait have w: "waitForTransaction lib hash 60000 e (fst s2, snd s2) = (Inr (), (fst s3, snd s3))"
    if "status \<in> {''PENDING'', ''DUPLICATE''}"
    using that by auto
  show thesis
    by (rule that [OF tx _ _ _ sent w]) (use ops t d dec create in auto)
qed

text \<open>
  C6. A purchase that succeeds was made for the caller and is on the ledger: when \<^verbatim>\<open>confirmAndCreatePolicy\<close> returns, the
  transaction of the client had not expired, every account it acts for and the wallet of the request are the authenticated wallet,
  and its first operation calls \<^verbatim>\<open>buy_policy\<close> of the configured contract with the product, coverage and key of the request. The
  returned hash is the one the node gave for a submission of that very transaction, assembled from its own simulation, and the
  node has reported SUCCESS for it (if it answers submissions with the documented statuses). The table holds the returned policy
  with that hash, the request's wallet, product and key, the coverage of the transaction's argument, and the duration
  of the request, which nothing in the transaction is compared with. That the signatures are genuine is checked by the network.
\<close>

theorem purchase_sound:
  assumes run: "confirmAndCreatePolicy lib xl signedXdr dto wallet e (n, w) = (Inr (policyId, hash), (n', w'))"
    and documented: "\<forall>tx j status h. rp_send lib tx j = Inr (status, h) \<longrightarrow> status \<in> {''PENDING'', ''DUPLICATE'', ''TRY_AGAIN_LATER'', ''ERROR''}"
  shows "\<exists>tx account args ops p.
     xd_fromXDR xl signedXdr = Inr tx \<and> \<not> expired (max_time tx) (e_clock e n div 1000)
     \<and> validateAccountAddress lib (Some wallet) = Inr account \<and> validateAccountAddress lib (Some (d_walletAddress dto)) = Inr account
     \<and> list_all (\<lambda>s. validateAccountAddress lib (Some s) = Inr account) (sources_of (tx_sources tx))
     \<and> tx_operations tx = InvokeHostFunction (Some (InvokeContract (Inr (the (e_config e ''POLICY_ENGINE_CONTRACT''))) ''buy_policy'' args)) # ops
     \<and> xd_native xl (args ! 0) = Inr (d_productId dto) \<and> xd_native xl (args ! 1) = Inr (xd_numStr xl (d_coverageXlm dto))
     \<and> xd_native xl (args ! 2) = Inr (d_oracleKey dto)
     \<and> (\<exists>status \<in> {''PENDING'', ''DUPLICATE''}. hash_for lib (tx_xdr tx) status hash) \<and> (\<exists>j. rp_getTransaction lib hash j = Inr ''SUCCESS'')
     \<and> p \<in> set (policies w') \<and> policies_ok (policies w') \<and> p_id p = policyId \<and> p_txHash p = Some hash \<and> p_status p = P_ACTIVE
     \<and> p_policyholder p = d_walletAddress dto \<and> p_productId p = d_productId dto \<and> p_oracleKey p = d_oracleKey dto
     \<and> p_endTime p = p_startTime p + d_duration dto * 86400000
     \<and> (\<forall>c. parseInt10 (xd_numStr xl (d_coverageXlm dto)) = Some c \<longrightarrow> p_coverageXlm p = c * 10000000)"
proof (rule confirm_unfold [OF run])
  fix tx ops args policy status m v m1 v1
  assume tx: "xd_fromXDR xl signedXdr = Inr tx" "\<not> expired (max_time tx) (e_clock e n div 1000)"
    and wallets: "check_wallets lib tx (d_walletAddress dto) wallet = Inr ()"
    and ops: "tx_operations tx = InvokeHostFunction (Some (InvokeContract (Inr (the (e_config e ''POLICY_ENGINE_CONTRACT''))) ''buy_policy'' args)) # ops"
    and dec: "decode_args xl dto args = Inr (d_productId dto, xd_numStr xl (d_coverageXlm dto), d_oracleKey dto)"
    and sent: "hash_for lib (tx_xdr tx) status hash" "status \<noteq> ''ERROR''" "status \<noteq> ''TRY_AGAIN_LATER''"
    and wait: "status \<in> {''PENDING'', ''DUPLICATE''} \<Longrightarrow> waitForTransaction lib hash 60000 e (m1, v1) = (Inr (), (m, v))"
    and create: "createPolicy (chain_dto dto (d_productId dto, xd_numStr xl (d_coverageXlm dto), d_oracleKey dto)) hash e (m, v) = (Inr policy, (n', w'))"
    and i: "p_id policy = policyId"
  let ?dto = "chain_dto dto (d_productId dto, xd_numStr xl (d_coverageXlm dto), d_oracleKey dto)"
  from documented sent have known: "status \<in> {''PENDING'', ''DUPLICATE''}" unfolding hash_for_def by blast
  from waitForTransaction_success [OF wait [OF known]] have ok: "\<exists>j. rp_getTransaction lib hash j = Inr ''SUCCESS''"
    by (auto simp: says_success_def)
  from createPolicy_unfold [OF create] obtain product premium k u where
    new: "policy_create (new_policy ?dto product (e_clock e m div 1000 * 1000) premium hash) (tx_ctx e k) u = (Inr policy, w')"
    by blast
  then have row: "policy \<in> set (policies w') \<and> policies_ok (policies w') \<and> p_txHash policy = Some hash \<and> p_status policy = P_ACTIVE
      \<and> p_policyholder policy = d_walletAddress dto \<and> p_productId policy = d_productId dto \<and> p_oracleKey policy = d_oracleKey dto
      \<and> p_endTime policy = p_startTime policy + d_duration dto * 86400000 \<and> p_coverageXlm policy = num_int (d_coverageXlm ?dto) * 10000000"
    by (auto simp: policy_create_def Let_def new_policy_def chain_dto_def STROOPS_PER_XLM_def DAY_MS_def split: if_splits)
  have cov: "\<forall>c. parseInt10 (xd_numStr xl (d_coverageXlm dto)) = Some c \<longrightarrow> p_coverageXlm policy = c * 10000000"
    using row by (simp add: chain_dto_def)
  from check_wallets_ok [OF wallets] obtain account where
    "validateAccountAddress lib (Some wallet) = Inr account" "validateAccountAddress lib (Some (d_walletAddress dto)) = Inr account"
    "list_all (\<lambda>s. validateAccountAddress lib (Some s) = Inr account) (sources_of (tx_sources tx))" by blast
  with tx ops decode_args_ok [OF dec] known sent(1) ok row cov i show ?thesis by blast
qed

section \<open>A paid purchase can leave no policy\<close>

definition sample_xdr :: xdr_lib where
  "sample_xdr = \<lparr>xd_fromXDR = (\<lambda>s. Inr \<lparr>tx_xdr = s, tx_maxTime = Some ''9999999999'', tx_sources = Envelope (Some ''GA'') [None],
       tx_operations = [InvokeHostFunction (Some (InvokeContract (Inr ''CPOLICY'') ''buy_policy'' [''crop'', ''500'', ''rainfall:0,0:2026-06'']))]\<rparr>),
     xd_native = Inr, xd_numStr = (\<lambda>x. int_str (num_int x))\<rparr>"

definition purchase_env :: env where
  "purchase_env = (sample_env 1781000000500)\<lparr>e_config := (\<lambda>k. if k = ''POLICY_ENGINE_CONTRACT'' then Some ''CPOLICY'' else None)\<rparr>"

text \<open>
  The checks of \<^verbatim>\<open>createPolicy\<close> (an active product, its longest duration, its limits, the capacity of the pool, one policy
  per holder, product and key) run only after the transaction has succeeded on the ledger: a request that fails one of them,
  here a duration beyond the product's maximum, is answered with an error, but the wallet has paid and there is no policy.
\<close>

theorem paid_without_policy:
  "let (r, n, w) = confirmAndCreatePolicy sample_rpc sample_xdr ''AAAA'' (sample_dto\<lparr>d_duration := 364\<rparr>) ''GA'' purchase_env (0, buy_world)
   in r = Inl (BadRequestException ''Duration exceeds the maximum duration of the product'')
      \<and> sentTxs w = [''AAAA''] \<and> rp_getTransaction sample_rpc ''h2'' 5 = Inr ''SUCCESS''
      \<and> list_all (\<lambda>p. p_txHash p \<noteq> Some ''h2'') (policies w)"
  by code_simp

section \<open>Witnesses\<close>

theorem purchase_sound_witness:
  "\<exists>p n' w'. confirmAndCreatePolicy sample_rpc sample_xdr ''AAAA'' sample_dto ''GA'' purchase_env (0, buy_world) = (Inr (p_id p, ''h2''), (n', w'))
     \<and> p \<in> set (policies w') \<and> p_policyholder p = ''GA'' \<and> p_coverageXlm p = 5000000000"
proof -
  let ?run = "confirmAndCreatePolicy sample_rpc sample_xdr ''AAAA'' sample_dto ''GA'' purchase_env (0, buy_world)"
  have r: "map_option snd (case fst ?run of Inl x \<Rightarrow> None | Inr p \<Rightarrow> Some p) = Some ''h2''" by code_simp
  have cov: "parseInt10 (xd_numStr sample_xdr (d_coverageXlm sample_dto)) = Some 500" by code_simp
  obtain i n' w' where run: "?run = (Inr (i, ''h2''), (n', w'))"
    using r by (auto split: sum.splits simp: prod_eq_iff)
  have doc: "\<forall>tx j status h. rp_send sample_rpc tx j = Inr (status, h) \<longrightarrow> status \<in> {''PENDING'', ''DUPLICATE'', ''TRY_AGAIN_LATER'', ''ERROR''}"
    by (simp add: sample_rpc_def)
  obtain p where "p \<in> set (policies w')" "p_id p = i" "p_policyholder p = d_walletAddress sample_dto" "p_coverageXlm p = 500 * 10000000"
    using purchase_sound [OF run doc] cov by blast
  with run show ?thesis by (intro exI [of _ p] exI [of _ n'] exI [of _ w']) (simp add: sample_dto_def)
qed

end
