(* ===== verification/Account_Balance.thy ===== *)
theory Account_Balance
  imports Circuit_Breaker Decimal
begin

text \<open>
  The native balance of an account, \<^verbatim>\<open>getNativeBalanceViaRpc\<close> and \<^verbatim>\<open>getAccountBalance\<close> of
  \<^verbatim>\<open>src/stellar/stellar.service.ts\<close>, and the network check of the same file: the ledger entry first, Horizon behind its
  circuit breaker when the node cannot answer. The answers are parameters.
\<close>

section \<open>Balances\<close>

text \<open>The stroops of a ledger entry as a text with seven decimals.\<close>

definition native_balance_text :: "int \<Rightarrow> string" where
  "native_balance_text balance =
     (let stroops = padStart 8 (CHR ''0'') (int_str balance); k = length stroops - 7
      in take k stroops @ ''.'' @ drop k stroops)"

text \<open>The answer holds the balance of the account entry, if there is one.\<close>

definition getNativeBalanceViaRpc :: "int option outcome \<Rightarrow> string outcome" where
  "getNativeBalanceViaRpc response =
     (case response of
        Inl err \<Rightarrow> Inl err
      | Inr None \<Rightarrow> Inr ''0''
      | Inr (Some balance) \<Rightarrow> Inr (native_balance_text balance))"

text \<open>A balance line of a Horizon account: its asset type and its balance.\<close>

definition native_line :: "(string \<times> string) list \<Rightarrow> string" where
  "native_line balances = (case List.find (\<lambda>b. fst b = ''native'') balances of Some b \<Rightarrow> snd b | None \<Rightarrow> ''0'')"

definition getAccountBalance :: "int option outcome \<Rightarrow> int \<Rightarrow> int \<Rightarrow> int \<Rightarrow> (nat \<Rightarrow> HorizonErr + (string \<times> string) list)
    \<Rightarrow> (nat \<Rightarrow> int) \<Rightarrow> (nat \<Rightarrow> HorizonCircuitBreaker \<Rightarrow> HorizonCircuitBreaker)
    \<Rightarrow> HorizonCircuitBreaker \<Rightarrow> string HorizonResult \<times> HorizonCircuitBreaker" where
  "getAccountBalance response threshold resetTimeoutMs maxAttempts loadAccount now others b =
     (case getNativeBalanceViaRpc response of
        Inr balance \<Rightarrow> (HorizonOk balance, b)
      | Inl _ \<Rightarrow>
          (case callHorizon threshold resetTimeoutMs maxAttempts loadAccount now others b of
             (HorizonOk balances, b') \<Rightarrow> (HorizonOk (native_line balances), b')
           | (HorizonError err, b') \<Rightarrow>
               if he_status err = Some 404 then (HorizonOk ''0'', b') else (HorizonError err, b')
           | (HorizonTimeout k, b') \<Rightarrow> (HorizonTimeout k, b')
           | (HorizonUnavailable, b') \<Rightarrow> (HorizonUnavailable, b')))"

section \<open>The network\<close>

record NetworkStatus =
  ns_healthy :: bool
  ns_rpcHealth :: string
  ns_protocolVersion :: jsnum
  ns_passphraseMatches :: bool

text \<open>Of the answers of \<^verbatim>\<open>getHealth\<close> and \<^verbatim>\<open>getNetwork\<close>, the second holds the passphrase and the protocol version. When both
  calls fail the first error to arrive is the one that is raised; here it is that of \<^verbatim>\<open>getHealth\<close>.\<close>

definition checkNetworkStatus :: "string \<Rightarrow> string outcome \<Rightarrow> (string \<times> jsnum) outcome \<Rightarrow> NetworkStatus outcome" where
  "checkNetworkStatus network health netw =
     (case (health, netw) of
        (Inr rpcHealth, Inr (passphrase, protocolVersion)) \<Rightarrow>
          Inr \<lparr>ns_healthy = (rpcHealth = ''healthy'' \<and> passphrase = network), ns_rpcHealth = rpcHealth,
               ns_protocolVersion = protocolVersion, ns_passphraseMatches = (passphrase = network)\<rparr>
      | (Inl err, _) \<Rightarrow> Inl err
      | (_, Inl err) \<Rightarrow> Inl err)"

section \<open>The text of a balance\<close>

lemma nat_str_ge_10: "10 \<le> n \<Longrightarrow> nat_str n = nat_str (n div 10) @ [digit_char (n mod 10)]"
  by (simp add: nat_str.simps [of n])

lemma nat_str_lt_10: "n < 10 \<Longrightarrow> nat_str n = [digit_char n]"
  by (simp add: nat_str.simps [of n])

lemma padStart_snoc:
  assumes "0 \<le> m"
  shows "padStart (Suc k) (CHR ''0'') (nat_str (m div 10)) @ [digit_char (m mod 10)] = padStart (Suc (Suc k)) (CHR ''0'') (nat_str m)"
proof (cases "m < 10")
  case True
  have "digit_char 0 = CHR ''0''" by (simp add: digit_char_def char_of_def)
  with True assms show ?thesis by (simp add: nat_str_lt_10 padStart_def replicate_append_same)
next
  case False
  then show ?thesis by (simp add: nat_str_ge_10 [of m] padStart_def)
qed

lemma shift_digit:
  assumes "0 \<le> (b :: int)"
  shows "n mod (10 * b) div 10 = n div 10 mod b" "n mod (10 * b) mod 10 = n mod 10" "n div 10 div b = n div (10 * b)"
  using assms by (simp_all add: zmod_zmult2_eq zdiv_zmult2_eq)

lemma nat_str_split:
  "10 ^ Suc k \<le> n \<Longrightarrow> nat_str n = nat_str (n div 10 ^ Suc k) @ padStart (Suc k) (CHR ''0'') (nat_str (n mod 10 ^ Suc k))"
proof (induction k arbitrary: n)
  case 0
  then show ?case by (simp add: nat_str_ge_10 [of n] nat_str_lt_10 padStart_def)
next
  case (Suc k)
  have n1: "10 ^ Suc k \<le> n div 10" using Suc.prems by simp
  moreover have "(1 :: int) \<le> 10 ^ Suc k" by (rule one_le_power) simp
  ultimately have "10 \<le> n" by linarith
  with n1 have n: "10 ^ Suc k \<le> n div 10" "10 \<le> n" "0 \<le> n" by simp_all
  let ?m = "n mod 10 ^ Suc (Suc k)"
  have m: "?m div 10 = n div 10 mod 10 ^ Suc k" "?m mod 10 = n mod 10" "n div 10 div 10 ^ Suc k = n div 10 ^ Suc (Suc k)"
    using shift_digit [of "10 ^ Suc k" n] by (simp_all only: power_Suc zero_le_power zero_le_numeral mult_nonneg_nonneg)
  have "nat_str n = nat_str (n div 10 ^ Suc (Suc k)) @ (padStart (Suc k) (CHR ''0'') (nat_str (?m div 10)) @ [digit_char (?m mod 10)])"
    unfolding nat_str_ge_10 [OF n(2)] Suc.IH [OF n(1)] m by simp
  then show ?case using padStart_snoc [of ?m k] n(3) by simp
qed

lemma balance_digits:
  assumes "0 \<le> n"
  shows "padStart 8 (CHR ''0'') (nat_str n) = nat_str (n div 10000000) @ padStart 7 (CHR ''0'') (nat_str (n mod 10000000))"
proof (cases "10000000 \<le> n")
  case True
  have seven: "Suc 6 = (7 :: nat)" by simp
  have split: "nat_str n = nat_str (n div 10000000) @ padStart 7 (CHR ''0'') (nat_str (n mod 10000000))"
    using nat_str_split [of 6 n] True by (simp add: seven)
  have "8 \<le> length (nat_str n)"
  proof -
    have "Suc 0 \<le> length (nat_str (n div 10000000))" by (simp add: Suc_le_eq)
    moreover have "7 \<le> length (padStart 7 (CHR ''0'') (nat_str (n mod 10000000)))" by (simp add: length_padStart)
    ultimately show ?thesis unfolding split length_append by linarith
  qed
  then show ?thesis using split by (simp add: padStart_def)
next
  case False
  have "length (nat_str n) \<le> 7" using length_nat_str_le [of 7 n] False by simp
  then have "8 - length (nat_str n) = Suc (7 - length (nat_str n))" by simp
  moreover have "digit_char 0 = CHR ''0''" by (simp add: digit_char_def char_of_def)
  ultimately show ?thesis using False assms by (simp add: padStart_def nat_str_lt_10)
qed

text \<open>
  The text of a balance is the one the rest of the backend prints: for the balance of an account, \<^verbatim>\<open>getNativeBalanceViaRpc\<close>
  cuts the padded digits where \<^verbatim>\<open>formatStroops\<close> of the policy service divides, so the text parses back to the stroops.
\<close>

theorem native_balance_text_exact:
  assumes "0 \<le> balance"
  shows "native_balance_text balance = formatStroops balance
     \<and> parseDecimalScaled numStr (VStr (native_balance_text balance)) DEFAULT_DECIMAL_SCALE = Inr balance"
proof -
  let ?w = "nat_str (balance div 10000000)" and ?f = "padStart 7 (CHR ''0'') (nat_str (balance mod 10000000))"
  have f: "length ?f = 7"
    using length_nat_str_le [of 7 "balance mod 10000000"] by (simp add: length_padStart)
  have nn: "balance mod 10000000 < 0 \<longleftrightarrow> False" by (simp add: not_less)
  have "native_balance_text balance = ?w @ ''.'' @ ?f"
    using assms f balance_digits [OF assms]
    by (simp add: native_balance_text_def Let_def int_str_def del: padStart_def)
  moreover have "formatStroops balance = ?w @ ''.'' @ ?f"
    using assms pos_imp_zdiv_nonneg_iff [of 10000000 balance]
    by (cases "balance = 0") (simp_all add: formatStroops_def Let_def STROOPS_PER_XLM_def int_str_def signed_divide_int_def signed_modulo_int_def nn)
  ultimately show ?thesis using formatStroops_parse [of numStr balance] by simp
qed

end
