(* ===== verification/Json_Values.thy ===== *)
theory Json_Values
  imports Regex
begin

text \<open>
  Values of parsed JSON, as request bodies and exception responses hold them, and what \<^verbatim>\<open>String\<close> and
  \<^verbatim>\<open>JSON.stringify\<close> make of them. The text of a number is a parameter, except for integers it stands for the shortest
  text that denotes a double. The number minus zero is a value of its own.
\<close>

datatype json = JNull | JBool bool | JNum jsnum | JNegZero | JBig int | JStr string | JArr "json list" | JObj "(string \<times> json) list"

fun j_lookup :: "string \<Rightarrow> (string \<times> json) list \<Rightarrow> json option" where
  "j_lookup k [] = None"
| "j_lookup k ((k', v) # kvs) = (if k' = k then Some v else j_lookup k kvs)"

text \<open>\<^verbatim>\<open>v?.k\<close>; nothing but an object has members of interest.\<close>

definition j_member :: "string \<Rightarrow> json option \<Rightarrow> json option" where
  "j_member k v = (case v of Some (JObj kvs) \<Rightarrow> j_lookup k kvs | _ \<Rightarrow> None)"

text \<open>\<^verbatim>\<open>typeof v === 'object' && v !== null\<close>.\<close>

fun is_object :: "json \<Rightarrow> bool" where
  "is_object (JArr xs) = True"
| "is_object (JObj kvs) = True"
| "is_object _ = False"

definition bool_str :: "bool \<Rightarrow> string" where
  "bool_str b = (if b then ''true'' else ''false'')"

fun join_with :: "string \<Rightarrow> string list \<Rightarrow> string" where
  "join_with sep [] = []"
| "join_with sep [s] = s"
| "join_with sep (s # t # ts) = s @ sep @ join_with sep (t # ts)"

text \<open>\<^verbatim>\<open>String(v)\<close>: an array joins its items with commas, where null is empty.\<close>

fun js_String :: "(jsnum \<Rightarrow> string) \<Rightarrow> json \<Rightarrow> string" and js_Strings :: "(jsnum \<Rightarrow> string) \<Rightarrow> json list \<Rightarrow> string list" where
  "js_String numStr JNull = ''null''"
| "js_String numStr (JBool b) = bool_str b"
| "js_String numStr (JNum x) = numStr x"
| "js_String numStr JNegZero = ''0''"
| "js_String numStr (JBig n) = int_str n"
| "js_String numStr (JStr s) = s"
| "js_String numStr (JArr xs) = join_with '','' (js_Strings numStr xs)"
| "js_String numStr (JObj kvs) = ''[object Object]''"
| "js_Strings numStr [] = []"
| "js_Strings numStr (x # xs) = (if x = JNull then [] else js_String numStr x) # js_Strings numStr xs"

definition quote_char :: "char \<Rightarrow> string" where
  "quote_char c =
     (let n = (of_char c :: int) in
      if n = 34 then [char_of (92 :: int), c] else if n = 92 then [c, c]
      else if n = 8 then [char_of (92 :: int), CHR ''b''] else if n = 9 then [char_of (92 :: int), CHR ''t'']
      else if n = 10 then [char_of (92 :: int), CHR ''n''] else if n = 12 then [char_of (92 :: int), CHR ''f'']
      else if n = 13 then [char_of (92 :: int), CHR ''r'']
      else if n < 32 then [char_of (92 :: int), CHR ''u'', CHR ''0'', CHR ''0'', hex_char (n div 16), hex_char (n mod 16)]
      else [c])"

definition quoted :: "string \<Rightarrow> string" where
  "quoted s = [char_of (34 :: int)] @ concat (map quote_char s) @ [char_of (34 :: int)]"

text \<open>\<^verbatim>\<open>JSON.stringify\<close>; a big integer makes it throw.\<close>

fun stringify :: "(jsnum \<Rightarrow> string) \<Rightarrow> json \<Rightarrow> string outcome"
  and stringify_items :: "(jsnum \<Rightarrow> string) \<Rightarrow> json list \<Rightarrow> string list outcome"
  and stringify_entries :: "(jsnum \<Rightarrow> string) \<Rightarrow> (string \<times> json) list \<Rightarrow> string list outcome" where
  "stringify numStr JNull = Inr ''null''"
| "stringify numStr (JBool b) = Inr (bool_str b)"
| "stringify numStr (JNum x) = Inr (if is_finite x then numStr x else ''null'')"
| "stringify numStr JNegZero = Inr ''0''"
| "stringify numStr (JBig n) = Inl (PlainError ''Do not know how to serialize a BigInt'')"
| "stringify numStr (JStr s) = Inr (quoted s)"
| "stringify numStr (JArr xs) =
     (case stringify_items numStr xs of Inl err \<Rightarrow> Inl err | Inr ts \<Rightarrow> Inr (''['' @ join_with '','' ts @ '']''))"
| "stringify numStr (JObj kvs) =
     (case stringify_entries numStr kvs of Inl err \<Rightarrow> Inl err | Inr ts \<Rightarrow> Inr (''{'' @ join_with '','' ts @ ''}''))"
| "stringify_items numStr [] = Inr []"
| "stringify_items numStr (x # xs) =
     (case stringify numStr x of
        Inl err \<Rightarrow> Inl err
      | Inr t \<Rightarrow> (case stringify_items numStr xs of Inl err \<Rightarrow> Inl err | Inr ts \<Rightarrow> Inr (t # ts)))"
| "stringify_entries numStr [] = Inr []"
| "stringify_entries numStr ((k, v) # kvs) =
     (case stringify numStr v of
        Inl err \<Rightarrow> Inl err
      | Inr t \<Rightarrow> (case stringify_entries numStr kvs of Inl err \<Rightarrow> Inl err | Inr ts \<Rightarrow> Inr ((quoted k @ '':'' @ t) # ts)))"

section \<open>Big integers in responses\<close>

text \<open>Maps and sets come out as objects and arrays; dates and buffers do not occur in these values.\<close>

fun serializeBigInt :: "json \<Rightarrow> json" and serializeBigInt_items :: "json list \<Rightarrow> json list"
  and serializeBigInt_entries :: "(string \<times> json) list \<Rightarrow> (string \<times> json) list" where
  "serializeBigInt (JBig n) = JStr (int_str n)"
| "serializeBigInt (JArr xs) = JArr (serializeBigInt_items xs)"
| "serializeBigInt (JObj kvs) = JObj (serializeBigInt_entries kvs)"
| "serializeBigInt v = v"
| "serializeBigInt_items [] = []"
| "serializeBigInt_items (x # xs) = serializeBigInt x # serializeBigInt_items xs"
| "serializeBigInt_entries [] = []"
| "serializeBigInt_entries ((k, v) # kvs) = (k, serializeBigInt v) # serializeBigInt_entries kvs"

text \<open>
  A response can always be serialised: after \<^verbatim>\<open>serializeBigInt\<close> no value makes \<^verbatim>\<open>JSON.stringify\<close> throw, and values
  without big integers are left as they are.
\<close>

lemma stringify_total:
  "\<exists>t. stringify numStr (serializeBigInt v) = Inr t"
  "\<exists>ts. stringify_items numStr (serializeBigInt_items vs) = Inr ts"
  "\<exists>ts. stringify_entries numStr (serializeBigInt_entries kvs) = Inr ts"
  by (induction v and vs and kvs rule: serializeBigInt_serializeBigInt_items_serializeBigInt_entries.induct) auto

lemma serializeBigInt_id:
  "stringify numStr v = Inr t \<Longrightarrow> serializeBigInt v = v"
  "stringify_items numStr vs = Inr ts \<Longrightarrow> serializeBigInt_items vs = vs"
  "stringify_entries numStr kvs = Inr ts \<Longrightarrow> serializeBigInt_entries kvs = kvs"
  by (induction v and vs and kvs arbitrary: t and ts and ts rule: serializeBigInt_serializeBigInt_items_serializeBigInt_entries.induct)
    (auto split: sum.splits)

theorem serializeBigInt_exact:
  "(\<exists>t. stringify numStr (serializeBigInt v) = Inr t)
   \<and> ((\<exists>t. stringify numStr v = Inr t) \<longrightarrow> serializeBigInt v = v)"
  using stringify_total(1) serializeBigInt_id(1) by blast

end
