(* ===== verification/Request_Bodies.thy ===== *)
theory Request_Bodies
  imports Json_Values Decimal
begin

text \<open>
  The middleware that every request body passes before it reaches a handler: the sanitising of strings
  (\<^verbatim>\<open>src/common/middleware/input-sanitization.middleware.ts\<close>) and the check of amounts
  (\<^verbatim>\<open>src/common/middleware/usdc-precision-validation.middleware.ts\<close>). Bodies are parsed JSON; buffers and class instances,
  which the sanitiser leaves alone, do not occur in them.
\<close>

section \<open>Sanitising\<close>

definition MAX_SANITIZATION_DEPTH :: nat where
  "MAX_SANITIZATION_DEPTH = 10"

definition FORBIDDEN_KEYS :: "string list" where
  "FORBIDDEN_KEYS = [''__proto__'', ''constructor'', ''prototype'']"

text \<open>\<^verbatim>\<open>s.replaceAll(c, t)\<close> for one character.\<close>

definition replaceAll :: "char \<Rightarrow> string \<Rightarrow> string \<Rightarrow> string" where
  "replaceAll c t s = concat (map (\<lambda>d. if d = c then t else [d]) s)"

definition DQUOTE :: char where
  "DQUOTE = char_of (34 :: int)"

definition SQUOTE :: char where
  "SQUOTE = char_of (39 :: int)"

definition sanitizeString :: "string \<Rightarrow> string" where
  "sanitizeString value =
     replaceAll SQUOTE ''&#39;'' (replaceAll DQUOTE ''&quot;'' (replaceAll (CHR ''>'') ''&gt;'' (replaceAll (CHR ''<'') ''&lt;'' (trim value))))"

fun sanitize :: "nat \<Rightarrow> json \<Rightarrow> json" and sanitize_items :: "nat \<Rightarrow> json list \<Rightarrow> json list"
  and sanitize_entries :: "nat \<Rightarrow> (string \<times> json) list \<Rightarrow> (string \<times> json) list" where
  "sanitize depth (JStr s) = JStr (sanitizeString s)"
| "sanitize depth (JArr xs) = (if depth < MAX_SANITIZATION_DEPTH then JArr (sanitize_items depth xs) else JArr xs)"
| "sanitize depth (JObj kvs) = (if depth < MAX_SANITIZATION_DEPTH then JObj (sanitize_entries depth kvs) else JObj kvs)"
| "sanitize depth v = v"
| "sanitize_items depth [] = []"
| "sanitize_items depth (x # xs) = sanitize (depth + 1) x # sanitize_items depth xs"
| "sanitize_entries depth [] = []"
| "sanitize_entries depth ((k, v) # kvs) =
     (if k \<in> set FORBIDDEN_KEYS then sanitize_entries depth kvs else (k, sanitize (depth + 1) v) # sanitize_entries depth kvs)"

definition use_sanitization :: "json \<Rightarrow> json" where
  "use_sanitization body = (if is_object body then sanitize 0 body else body)"

fun html_escape :: "char \<Rightarrow> string" where
  "html_escape c = (if c = CHR ''&'' then ''&amp;'' else if c = CHR ''<'' then ''&lt;'' else if c = CHR ''>'' then ''&gt;''
     else if c = DQUOTE then ''&quot;'' else if c = SQUOTE then ''&#39;'' else [c])"

definition escapeHtml :: "string \<Rightarrow> string" where
  "escapeHtml value = concat (map html_escape value)"

section \<open>Amounts\<close>

definition MAX_DECIMAL_PLACES :: nat where
  "MAX_DECIMAL_PLACES = 7"

definition AMOUNT_FIELDS :: "string list" where
  "AMOUNT_FIELDS = [''amount'', ''premium'', ''coverageamount'', ''payoutamount'', ''minpayout'', ''maxpayout'']"

definition AMOUNT_PATTERN :: rx where
  "AMOUNT_PATTERN = rx_seq [rx_opt (rx_lit ''-''), rx_plus rx_digit, rx_opt (rx_seq [rx_lit ''.'', rx_plus rx_digit])]"

definition NEGATIVE_ZERO :: rx where
  "NEGATIVE_ZERO = rx_seq [rx_lit ''-0'', rx_opt (rx_seq [rx_lit ''.'', Star (Cls (\<lambda>c. c = CHR ''0''))])]"

definition validateAmount :: "(jsnum \<Rightarrow> string) \<Rightarrow> json \<Rightarrow> unit outcome" where
  "validateAmount numStr v =
     (if v = JNull then Inr ()
      else
        let strValue = js_String numStr v; parts = js_split (CHR ''.'') strValue in
        if trim strValue = [] then Inr ()
        else if \<not> rx_test AMOUNT_PATTERN strValue then Inl (BadRequestException ''Invalid amount format'')
        else if length parts = 2 \<and> length (parts ! 1) > MAX_DECIMAL_PLACES
        then Inl (BadRequestException ''Amount precision exceeds Stellar USDC limit'')
        else if v = JNegZero \<or> strValue = ''-0'' \<or> rx_test NEGATIVE_ZERO strValue
        then Inl (BadRequestException ''Invalid amount: negative zero (-0) is not allowed'')
        else (case v of
            JNum x \<Rightarrow> if \<not> is_finite x then Inl (BadRequestException ''Invalid amount: must be a finite number'') else Inr ()
          | _ \<Rightarrow> Inr ()))"

fun validateObject :: "(jsnum \<Rightarrow> string) \<Rightarrow> json \<Rightarrow> unit outcome" and validate_items :: "(jsnum \<Rightarrow> string) \<Rightarrow> json list \<Rightarrow> unit outcome"
  and validate_entries :: "(jsnum \<Rightarrow> string) \<Rightarrow> (string \<times> json) list \<Rightarrow> unit outcome" where
  "validateObject numStr (JArr xs) = validate_items numStr xs"
| "validateObject numStr (JObj kvs) = validate_entries numStr kvs"
| "validateObject numStr v = Inr ()"
| "validate_items numStr [] = Inr ()"
| "validate_items numStr (x # xs) =
     (case validateObject numStr x of Inl err \<Rightarrow> Inl err | Inr _ \<Rightarrow> validate_items numStr xs)"
| "validate_entries numStr [] = Inr ()"
| "validate_entries numStr ((k, v) # kvs) =
     (case (if to_lower k \<in> set AMOUNT_FIELDS then validateAmount numStr v
            else if is_object v then validateObject numStr v else Inr ()) of
        Inl err \<Rightarrow> Inl err
      | Inr _ \<Rightarrow> validate_entries numStr kvs)"

definition use_precision :: "(jsnum \<Rightarrow> string) \<Rightarrow> json \<Rightarrow> unit outcome" where
  "use_precision numStr body = (if is_object body then validateObject numStr body else Inr ())"

section \<open>Sanitised bodies\<close>

definition markup :: "char \<Rightarrow> bool" where
  "markup c \<longleftrightarrow> c \<in> {CHR ''<'', CHR ''>'', DQUOTE, SQUOTE}"

definition clean_string :: "string \<Rightarrow> bool" where
  "clean_string s \<longleftrightarrow> list_all (\<lambda>c. \<not> markup c) s \<and> trim s = s"

text \<open>No string holds markup, no key is forbidden, down to \<open>n\<close> levels of nesting.\<close>

fun clean :: "nat \<Rightarrow> json \<Rightarrow> bool" where
  "clean n (JStr s) = clean_string s"
| "clean (Suc n) (JArr xs) = (\<forall>x \<in> set xs. clean n x)"
| "clean (Suc n) (JObj kvs) = (\<forall>(k, v) \<in> set kvs. k \<notin> set FORBIDDEN_KEYS \<and> clean n v)"
| "clean n v = True"

lemma list_all_replaceAll:
  "list_all P s \<Longrightarrow> list_all P t \<Longrightarrow> list_all P (replaceAll c t s)"
  by (induction s) (simp_all add: replaceAll_def)

lemma replaceAll_removes: "list_all (\<lambda>d. d \<noteq> c) t \<Longrightarrow> list_all (\<lambda>d. d \<noteq> c) (replaceAll c t s)"
  by (induction s) (simp_all add: replaceAll_def)

lemma replaceAll_id: "list_all (\<lambda>d. d \<noteq> c) s \<Longrightarrow> replaceAll c t s = s"
  by (induction s) (simp_all add: replaceAll_def)

lemma sanitizeString_no_markup: "list_all (\<lambda>c. \<not> markup c) (sanitizeString s)"
proof -
  have "list_all (\<lambda>d. d \<noteq> CHR ''<'') (sanitizeString s)" "list_all (\<lambda>d. d \<noteq> CHR ''>'') (sanitizeString s)"
    "list_all (\<lambda>d. d \<noteq> DQUOTE) (sanitizeString s)" "list_all (\<lambda>d. d \<noteq> SQUOTE) (sanitizeString s)"
    unfolding sanitizeString_def
    by (intro list_all_replaceAll replaceAll_removes; simp add: DQUOTE_def SQUOTE_def char_of_def)+
  then show ?thesis by (simp add: list_all_iff markup_def)
qed

definition edges :: "string \<Rightarrow> bool" where
  "edges s \<longleftrightarrow> s = [] \<or> \<not> is_space (hd s) \<and> \<not> is_space (last s)"

lemma dropWhile_hd: "s = [] \<or> \<not> P (hd s) \<Longrightarrow> dropWhile P s = s"
  by (cases s) auto

lemma trim_edges: "edges s \<Longrightarrow> trim s = s"
  by (auto simp: edges_def trim_def dropWhile_hd hd_rev)

lemma last_dropWhile: "dropWhile P s \<noteq> [] \<Longrightarrow> last (dropWhile P s) = last s"
  by (induction s) auto

lemma edges_trim: "edges (trim s)"
proof -
  let ?t = "rev (dropWhile is_space s)"
  have "trim s = rev (dropWhile is_space ?t)" by (simp add: trim_def)
  moreover have "dropWhile is_space ?t \<noteq> [] \<Longrightarrow> \<not> is_space (hd (dropWhile is_space ?t))" by (rule hd_dropWhile)
  moreover have "\<not> is_space (last (dropWhile is_space ?t))" if ne: "dropWhile is_space ?t \<noteq> []"
  proof -
    have u: "dropWhile is_space s \<noteq> []" using ne by (cases "dropWhile is_space s = []") (simp_all del: dropWhile_eq_Nil_conv)
    then have "\<not> is_space (hd (dropWhile is_space s))" by (rule hd_dropWhile)
    moreover have "last (dropWhile is_space ?t) = hd (dropWhile is_space s)" using last_dropWhile [OF ne] u by (simp add: last_rev)
    ultimately show ?thesis by simp
  qed
  ultimately show ?thesis by (auto simp: edges_def hd_rev last_rev)
qed

lemma edges_replaceAll:
  assumes "edges s" and "t \<noteq> []" and "edges t"
  shows "edges (replaceAll c t s)"
proof (cases "s = []")
  case False
  let ?f = "\<lambda>d. if d = c then t else [d]"
  have 1: "replaceAll c t s = ?f (hd s) @ concat (map ?f (tl s))" using False by (cases s) (simp_all add: replaceAll_def)
  have 2: "replaceAll c t s = concat (map ?f (butlast s)) @ ?f (last s)"
    using False by (cases s rule: rev_cases) (simp_all add: replaceAll_def)
  have ne: "?f d \<noteq> []" for d using assms(2) by simp
  have "hd (replaceAll c t s) = hd (?f (hd s))" unfolding 1 by (rule hd_append2) (rule ne)
  moreover have "last (replaceAll c t s) = last (?f (last s))" unfolding 2 by (rule last_appendR) (rule ne)
  ultimately show ?thesis using assms False by (auto simp: edges_def)
qed (simp add: replaceAll_def edges_def)

lemma sanitizeString_clean: "clean_string (sanitizeString s)"
proof -
  have t: "edges ''&lt;''" "edges ''&gt;''" "edges ''&quot;''" "edges ''&#39;''" by (simp_all add: edges_def is_space_def)
  have "edges (sanitizeString s)"
    unfolding sanitizeString_def by (intro edges_replaceAll edges_trim t) simp_all
  then show ?thesis by (simp add: clean_string_def trim_edges sanitizeString_no_markup)
qed

lemma sanitizeString_id:
  assumes "clean_string s"
  shows "sanitizeString s = s"
proof -
  have "list_all (\<lambda>d. d \<noteq> c) s" if "markup c" for c
    using assms that by (auto simp: clean_string_def list_all_iff)
  then have "list_all (\<lambda>d. d \<noteq> CHR ''<'') s" "list_all (\<lambda>d. d \<noteq> CHR ''>'') s" "list_all (\<lambda>d. d \<noteq> DQUOTE) s" "list_all (\<lambda>d. d \<noteq> SQUOTE) s"
    by (simp_all add: markup_def)
  with assms show ?thesis by (simp add: sanitizeString_def clean_string_def replaceAll_id)
qed

lemma sanitize_clean:
  "n + d = MAX_SANITIZATION_DEPTH \<Longrightarrow> clean n (sanitize d v)"
  "Suc n + d = MAX_SANITIZATION_DEPTH \<Longrightarrow> \<forall>x \<in> set (sanitize_items d vs). clean n x"
  "Suc n + d = MAX_SANITIZATION_DEPTH \<Longrightarrow> \<forall>(k, x) \<in> set (sanitize_entries d kvs). k \<notin> set FORBIDDEN_KEYS \<and> clean n x"
proof (induction d v and d vs and d kvs arbitrary: n and n and n rule: sanitize_sanitize_items_sanitize_entries.induct)
  case (2 d xs)
  then show ?case by (cases n) auto
next
  case (3 d kvs)
  then show ?case by (cases n) auto
qed (auto simp: sanitizeString_clean)

lemma sanitize_id:
  "clean (MAX_SANITIZATION_DEPTH - d) v \<Longrightarrow> sanitize d v = v"
  "d < MAX_SANITIZATION_DEPTH \<Longrightarrow> \<forall>x \<in> set vs. clean (MAX_SANITIZATION_DEPTH - Suc d) x \<Longrightarrow> sanitize_items d vs = vs"
  "d < MAX_SANITIZATION_DEPTH \<Longrightarrow> \<forall>(k, x) \<in> set kvs. k \<notin> set FORBIDDEN_KEYS \<and> clean (MAX_SANITIZATION_DEPTH - Suc d) x \<Longrightarrow> sanitize_entries d kvs = kvs"
proof (induction d v and d vs and d kvs rule: sanitize_sanitize_items_sanitize_entries.induct)
  case (2 d xs)
  show ?case
  proof (cases "d < MAX_SANITIZATION_DEPTH")
    case True
    then have "MAX_SANITIZATION_DEPTH - d = Suc (MAX_SANITIZATION_DEPTH - Suc d)" by simp
    with 2 True show ?thesis by simp
  qed simp
next
  case (3 d kvs)
  show ?case
  proof (cases "d < MAX_SANITIZATION_DEPTH")
    case True
    then have "MAX_SANITIZATION_DEPTH - d = Suc (MAX_SANITIZATION_DEPTH - Suc d)" by simp
    with 3 True show ?thesis by simp
  qed simp
qed (auto simp: sanitizeString_id)

text \<open>
  C19. Sanitising yields a clean body of the same shape: after the middleware every string in the first ten levels of an
  object or array is trimmed and free of angle brackets and quotes, no object in them has a key that reaches a prototype,
  and sanitising a sanitised body changes nothing.
\<close>

theorem body_sanitized:
  assumes "is_object body"
  shows "clean MAX_SANITIZATION_DEPTH (use_sanitization body) \<and> is_object (use_sanitization body)
     \<and> use_sanitization (use_sanitization body) = use_sanitization body"
proof -
  have c: "clean MAX_SANITIZATION_DEPTH (sanitize 0 body)" by (rule sanitize_clean(1)) simp
  moreover have "is_object (sanitize 0 body)" using assms by (cases body) auto
  ultimately show ?thesis using assms sanitize_id(1) [of 0 "sanitize 0 body"] by (simp add: use_sanitization_def)
qed

fun nested :: "nat \<Rightarrow> json \<Rightarrow> json" where
  "nested 0 v = v"
| "nested (Suc n) v = JArr [nested n v]"

text \<open>Deeper than that nothing is looked at, neither markup nor the forbidden keys.\<close>

theorem deep_markup_survives:
  "use_sanitization (nested 11 (JStr ''<script>'')) = nested 11 (JStr ''<script>'')
   \<and> use_sanitization (nested 10 (JObj [(''__proto__'', JNull)])) = nested 10 (JObj [(''__proto__'', JNull)])"
  by (simp add: use_sanitization_def MAX_SANITIZATION_DEPTH_def eval_nat_numeral)

text \<open>Encoding for output removes every character that matters to HTML, whatever was stored.\<close>

theorem escapeHtml_safe: "list_all (\<lambda>c. \<not> markup c) (escapeHtml s)"
  by (induction s) (auto simp: escapeHtml_def markup_def DQUOTE_def SQUOTE_def char_of_def)

section \<open>Accepted amounts are exact\<close>








text \<open>The amounts of a body: the values of the fields that the middleware documents, at any depth of objects and arrays.\<close>

definition documented_amount :: "string \<Rightarrow> bool" where
  "documented_amount k \<longleftrightarrow> to_lower k \<in> to_lower ` {''amount'', ''premium'', ''coverageAmount'', ''payoutAmount'', ''minPayout'', ''maxPayout''}"

inductive amount_in :: "json \<Rightarrow> json \<Rightarrow> bool" where
  field: "(k, v) \<in> set kvs \<Longrightarrow> documented_amount k \<Longrightarrow> amount_in v (JObj kvs)"
| entry: "(k, u) \<in> set kvs \<Longrightarrow> amount_in v u \<Longrightarrow> amount_in v (JObj kvs)"
| item: "u \<in> set us \<Longrightarrow> amount_in v u \<Longrightarrow> amount_in v (JArr us)"

inductive_simps amount_in_simps [simp]: "amount_in v (JArr us)" "amount_in v (JObj kvs)" "amount_in v JNull" "amount_in v (JStr s)"












theorem body_sanitized_witness:
  "use_sanitization (JObj [(''constructor'', JNull), (''name'', JStr '' <b> '')]) = JObj [(''name'', JStr ''&lt;b&gt;'')]
   \<and> clean MAX_SANITIZATION_DEPTH (use_sanitization (JObj [(''constructor'', JNull), (''name'', JStr '' <b> '')]))"
proof -
  have "is_object (JObj [(''constructor'', JNull), (''name'', JStr '' <b> '')])" by simp
  from body_sanitized [OF this] have "clean MAX_SANITIZATION_DEPTH (use_sanitization (JObj [(''constructor'', JNull), (''name'', JStr '' <b> '')]))" by blast
  moreover have "use_sanitization (JObj [(''constructor'', JNull), (''name'', JStr '' <b> '')]) = JObj [(''name'', JStr ''&lt;b&gt;'')]"
    by code_simp
  ultimately show ?thesis by blast
qed

text \<open>The list of checked names does not contain the field under which requests send a coverage.\<close>

theorem coverage_unchecked:
  "use_precision (\<lambda>_. []) (JObj [(''coverageXlm'', JStr ''0.123456789'')]) = Inr ()
   \<and> use_precision (\<lambda>_. []) (JObj [(''amount'', JStr ''0.123456789'')]) = Inl (BadRequestException ''Amount precision exceeds Stellar USDC limit'')"
  by code_simp

end
