(* ===== verification/Rate_Limits.thy ===== *)
theory Rate_Limits
  imports Access_Control Json_Values
begin

text \<open>
  Limits on the number of requests: \<^verbatim>\<open>src/common/guards/throttle.guard.ts\<close> (per address),
  \<^verbatim>\<open>scoped-api-key.guard.ts\<close> (per API key, with scopes) and \<^verbatim>\<open>user-throttler.guard.ts\<close> (whose bucket a request counts
  in). The first two count in windows of a minute; the locale \<open>window_limiter\<close> states that contract and what follows from
  it. SHA-256, \<^verbatim>\<open>JSON.parse\<close> and the tracker of the base class are parameters.
\<close>

section \<open>ThrottleGuard\<close>

record RequestWindow =
  w_count :: nat
  w_windowStart :: int

type_synonym throttle = "(string \<times> RequestWindow) list"

definition MAX_REQUESTS :: nat where
  "MAX_REQUESTS = 60"

definition TIME_WINDOW_MS :: int where
  "TIME_WINDOW_MS = 60000"

definition ceil_seconds :: "int \<Rightarrow> int" where
  "ceil_seconds ms = - ((- ms) div 1000)"

text \<open>The headers \<^verbatim>\<open>X-RateLimit-Remaining\<close>, \<^verbatim>\<open>X-RateLimit-Reset\<close> and, on refusal, \<^verbatim>\<open>Retry-After\<close>.\<close>

record rate_headers =
  h_remaining :: nat
  h_reset :: int
  h_retryAfter :: "int option"

definition setRateLimitHeaders :: "nat \<Rightarrow> int \<Rightarrow> rate_headers" where
  "setRateLimitHeaders used windowStart =
     \<lparr>h_remaining = MAX_REQUESTS - used, h_reset = ceil_seconds (windowStart + TIME_WINDOW_MS), h_retryAfter = None\<rparr>"

text \<open>A map of the language: entries in insertion order; \<^verbatim>\<open>set\<close> of a present key keeps its place.\<close>

definition map_delete :: "string \<Rightarrow> (string \<times> 'a) list \<Rightarrow> (string \<times> 'a) list" where
  "map_delete k m = filter (\<lambda>e. fst e \<noteq> k) m"

definition map_update :: "string \<Rightarrow> 'a \<Rightarrow> (string \<times> 'a) list \<Rightarrow> (string \<times> 'a) list" where
  "map_update k v m = map (\<lambda>e. if fst e = k then (k, v) else e) m"

text \<open>Whether the request may pass, the headers of its response, and the new table.\<close>

definition throttle_canActivate :: "string \<Rightarrow> int \<Rightarrow> throttle \<Rightarrow> (bool \<times> rate_headers) \<times> throttle" where
  "throttle_canActivate ip now requests =
     (case map_of requests ip of
        Some window \<Rightarrow>
          if now - w_windowStart window > TIME_WINDOW_MS
          then ((True, setRateLimitHeaders 1 now), map_delete ip requests @ [(ip, \<lparr>w_count = 1, w_windowStart = now\<rparr>)])
          else if w_count window \<ge> MAX_REQUESTS
          then ((False, \<lparr>h_remaining = 0, h_reset = ceil_seconds (w_windowStart window + TIME_WINDOW_MS),
                   h_retryAfter = Some (ceil_seconds (w_windowStart window + TIME_WINDOW_MS - now))\<rparr>), requests)
          else ((True, setRateLimitHeaders (w_count window + 1) (w_windowStart window)),
                map_update ip (window\<lparr>w_count := w_count window + 1\<rparr>) requests)
      | None \<Rightarrow> ((True, setRateLimitHeaders 1 now), map_delete ip requests @ [(ip, \<lparr>w_count = 1, w_windowStart = now\<rparr>)]))"

text \<open>The sweep deletes from the front and stops at the first window that is still active.\<close>

definition throttle_cleanup :: "int \<Rightarrow> throttle \<Rightarrow> throttle" where
  "throttle_cleanup now requests = dropWhile (\<lambda>(ip, window). \<not> now - w_windowStart window \<le> TIME_WINDOW_MS) requests"

section \<open>ScopedApiKeyGuard\<close>

record key_lib =
  kl_sha256 :: "string \<Rightarrow> string"
  kl_parse :: "string \<Rightarrow> json option"

record RateWindow =
  k_count :: nat
  k_resetAt :: int

text \<open>\<^verbatim>\<open>Object.entries\<close>; of null it raises. The characters of a text are no arrays and would be skipped.\<close>

fun j_entries :: "json \<Rightarrow> (string \<times> json) list outcome" where
  "j_entries JNull = Inl (PlainError ''TypeError'')"
| "j_entries (JObj kvs) = Inr kvs"
| "j_entries (JArr xs) = Inr (zip (map (\<lambda>i. nat_str (int i)) [0..<length xs]) xs)"
| "j_entries _ = Inr []"

fun string_items :: "json list \<Rightarrow> string list option" where
  "string_items [] = Some []"
| "string_items (JStr s # xs) = map_option (Cons s) (string_items xs)"
| "string_items (_ # xs) = None"

fun scopes_of :: "json \<Rightarrow> string list option" where
  "scopes_of (JArr xs) = string_items xs"
| "scopes_of _ = None"

definition keys_equal :: "key_lib \<Rightarrow> string \<Rightarrow> string \<Rightarrow> bool" where
  "keys_equal lib left right = (kl_sha256 lib left = kl_sha256 lib right)"

fun find_key :: "key_lib \<Rightarrow> string \<Rightarrow> (string \<times> json) list \<Rightarrow> (string \<times> string list) option" where
  "find_key lib provided [] = None"
| "find_key lib provided ((key, v) # kvs) =
     (case scopes_of v of
        None \<Rightarrow> find_key lib provided kvs
      | Some scopes \<Rightarrow> if keys_equal lib provided key then Some (key, scopes) else find_key lib provided kvs)"

definition findDefinition :: "key_lib \<Rightarrow> string option \<Rightarrow> string \<Rightarrow> (string \<times> string list) option outcome" where
  "findDefinition lib raw provided =
     (if \<not> present raw then Inr None
      else case kl_parse lib (the raw) of
          None \<Rightarrow> Inr None
        | Some parsed \<Rightarrow> (case j_entries parsed of Inl err \<Rightarrow> Inl err | Inr kvs \<Rightarrow> Inr (find_key lib provided kvs)))"

text \<open>\<open>None\<close> is the refusal.\<close>

definition consume_at :: "string \<Rightarrow> int \<Rightarrow> (string \<times> RateWindow) list \<Rightarrow> (string \<times> RateWindow) list option" where
  "consume_at fingerprint now windows =
     (let fresh = \<lparr>k_count = 1, k_resetAt = now + 60000\<rparr> in
      case map_of windows fingerprint of
        None \<Rightarrow> Some (windows @ [(fingerprint, fresh)])
      | Some current \<Rightarrow>
          if now \<ge> k_resetAt current then Some (map_update fingerprint fresh windows)
          else if k_count current \<ge> 60 then None
          else Some (map_update fingerprint (current\<lparr>k_count := k_count current + 1\<rparr>) windows))"

definition consume :: "key_lib \<Rightarrow> string \<Rightarrow> int \<Rightarrow> (string \<times> RateWindow) list \<Rightarrow> (string \<times> RateWindow) list option" where
  "consume lib key now windows = consume_at (kl_sha256 lib key) now windows"

definition has_scopes :: "string list \<Rightarrow> string list \<Rightarrow> bool" where
  "has_scopes scopes required = list_all (\<lambda>scope. ''*'' \<in> set scopes \<or> scope \<in> set scopes) required"

definition scoped_canActivate :: "key_lib \<Rightarrow> string option \<Rightarrow> string list \<Rightarrow> string option \<Rightarrow> int
    \<Rightarrow> (string \<times> RateWindow) list \<Rightarrow> string list outcome \<times> (string \<times> RateWindow) list" where
  "scoped_canActivate lib apiKeys required provided now windows =
     (if \<not> present provided then (Inl (UnauthorizedException ''API key required''), windows)
      else case findDefinition lib apiKeys (the provided) of
          Inl err \<Rightarrow> (Inl err, windows)
        | Inr None \<Rightarrow> (Inl (UnauthorizedException ''Invalid API key''), windows)
        | Inr (Some (key, scopes)) \<Rightarrow>
            (case consume lib key now windows of
               None \<Rightarrow> (Inl (TooManyRequestsException ''API key rate limit exceeded''), windows)
             | Some windows' \<Rightarrow>
                 if \<not> has_scopes scopes required
                 then (Inl (ForbiddenException ''API key does not have the required scope''), windows')
                 else (Inr scopes, windows')))"

section \<open>UserThrottlerGuard\<close>

definition AUTHENTICATED_LIMIT_MULTIPLIER :: int where
  "AUTHENTICATED_LIMIT_MULTIPLIER = 5"

text \<open>\<open>wallet\<close> is what the header authentication put into the request, \<open>base\<close> the tracker of the base class.\<close>

definition getTracker :: "jwt_lib \<Rightarrow> string option \<Rightarrow> request \<Rightarrow> string \<Rightarrow> string act" where
  "getTracker lib wallet rq base =
     (if present wallet then ret (''user:'' @ the wallet)
      else if present (extractTokenFromHeader rq) then
        catch (bind (verifyAsync lib (the (extractTokenFromHeader rq))) (\<lambda>payload.
            if jp_walletAddress payload \<noteq> [] then ret (''user:'' @ jp_walletAddress payload) else ret base))
          (\<lambda>_. ret base)
      else ret base)"

definition limit_for :: "string \<Rightarrow> int \<Rightarrow> int" where
  "limit_for tracker limit = (if starts_with ''user:'' tracker then limit * AUTHENTICATED_LIMIT_MULTIPLIER else limit)"

section \<open>The contract of a window\<close>

text \<open>How many of a sequence of requests are admitted for one key.\<close>

fun admitted :: "(string \<Rightarrow> int \<Rightarrow> 's \<Rightarrow> bool \<times> 's) \<Rightarrow> string \<Rightarrow> (string \<times> int) list \<Rightarrow> 's \<Rightarrow> nat" where
  "admitted request k [] s = 0"
| "admitted request k ((j, t) # rs) s =
     (if j = k \<and> fst (request j t s) then 1 else 0) + admitted request k rs (snd (request j t s))"

text \<open>
  \<open>view s k\<close> is the number of admitted requests of \<open>k\<close> in its window and the last instant of that window.
\<close>

locale window_limiter =
  fixes view :: "'s \<Rightarrow> string \<Rightarrow> (nat \<times> int) option"
    and request :: "string \<Rightarrow> int \<Rightarrow> 's \<Rightarrow> bool \<times> 's"
    and limit :: nat and span :: int
  assumes fresh: "view s k = None \<or> (\<exists>c u. view s k = Some (c, u) \<and> u < t) \<Longrightarrow>
      fst (request k t s) \<and> view (snd (request k t s)) k = Some (1, t + span)"
    and counts: "view s k = Some (c, u) \<Longrightarrow> t \<le> u \<Longrightarrow> c < limit \<Longrightarrow>
      fst (request k t s) \<and> view (snd (request k t s)) k = Some (c + 1, u)"
    and refuses: "view s k = Some (c, u) \<Longrightarrow> t \<le> u \<Longrightarrow> limit \<le> c \<Longrightarrow>
      \<not> fst (request k t s) \<and> view (snd (request k t s)) k = Some (c, u)"
    and others: "j \<noteq> k \<Longrightarrow> view (snd (request k t s)) j = view s j"
    and limit_pos: "0 < limit"
begin

text \<open>What is left for a key until \<open>T\<close>.\<close>

definition budget :: "int \<Rightarrow> (nat \<times> int) option \<Rightarrow> nat" where
  "budget T v = (case v of None \<Rightarrow> limit | Some (c, u) \<Rightarrow> (limit - c) + (if T \<le> u then 0 else limit))"

lemma budget_step:
  assumes "a \<le> t" "t \<le> T" "T \<le> a + span"
  shows "(if fst (request k t s) then 1 else 0) + budget T (view (snd (request k t s)) k) \<le> budget T (view s k)"
proof (cases "view s k = None \<or> (\<exists>c u. view s k = Some (c, u) \<and> u < t)")
  case True
  from fresh [OF True] assms have "fst (request k t s)" "budget T (view (snd (request k t s)) k) = limit - 1"
    by (auto simp: budget_def)
  moreover have "limit \<le> budget T (view s k)" using True assms(2) by (auto simp: budget_def)
  ultimately show ?thesis using limit_pos by simp
next
  case False
  then obtain c u where v: "view s k = Some (c, u)" "t \<le> u" by (cases "view s k") force+
  show ?thesis
  proof (cases "c < limit")
    case True
    from counts [OF v True] show ?thesis using v True by (auto simp: budget_def)
  next
    case False
    with refuses [OF v] show ?thesis using v by (auto simp: budget_def)
  qed
qed

lemma admitted_budget:
  assumes "T \<le> a + span"
  shows "\<forall>(j, t) \<in> set rs. j = k \<longrightarrow> a \<le> t \<and> t \<le> T \<Longrightarrow> admitted request k rs s \<le> budget T (view s k)"
proof (induction rs arbitrary: s)
  case (Cons r rs)
  obtain j t where r: "r = (j, t)" by (cases r)
  from Cons have IH: "admitted request k rs (snd (request j t s)) \<le> budget T (view (snd (request j t s)) k)" by simp
  show ?case
  proof (cases "j = k")
    case True
    with Cons.prems r have "a \<le> t" "t \<le> T" by auto
    from budget_step [OF this assms, of k s] IH True r show ?thesis by auto
  next
    case False
    with others [of k j t s] IH r show ?thesis by simp
  qed
qed simp

lemma admitted_bound:
  assumes "T \<le> a + span" "\<forall>(j, t) \<in> set rs. j = k \<longrightarrow> a \<le> t \<and> t \<le> T"
  shows "admitted request k rs s \<le> 2 * limit" and "view s k = None \<Longrightarrow> admitted request k rs s \<le> limit"
  using admitted_budget [OF assms, of s] by (auto simp: budget_def split: option.splits prod.splits if_splits)

end

section \<open>Both guards keep the contract\<close>

lemma map_of_update: "map_of (map_update k v m) j = (if j = k then map_option (\<lambda>_. v) (map_of m k) else map_of m j)"
  by (induction m) (auto simp: map_update_def)

lemma map_of_delete: "map_of (map_delete k m) j = (if j = k then None else map_of m j)"
  by (induction m) (auto simp: map_delete_def)

definition throttle_view :: "throttle \<Rightarrow> string \<Rightarrow> (nat \<times> int) option" where
  "throttle_view s k = map_option (\<lambda>w. (w_count w, w_windowStart w + TIME_WINDOW_MS)) (map_of s k)"

definition throttle_request :: "string \<Rightarrow> int \<Rightarrow> throttle \<Rightarrow> bool \<times> throttle" where
  "throttle_request ip t s = (let r = throttle_canActivate ip t s in (fst (fst r), snd r))"

lemmas throttle_defs = throttle_view_def throttle_request_def throttle_canActivate_def Let_def map_of_update map_of_delete
  map_add_def MAX_REQUESTS_def

interpretation th: window_limiter throttle_view throttle_request MAX_REQUESTS TIME_WINDOW_MS
proof (unfold_locales, goal_cases)
  case (1 s k t)
  then show ?case by (auto simp: throttle_defs split: option.splits)
next
  case (2 s k c u t)
  then show ?case by (auto simp: throttle_defs split: option.splits)
next
  case (3 s k c u t)
  then show ?case by (auto simp: throttle_defs split: option.splits)
next
  case (4 j k t s)
  then show ?case by (auto simp: throttle_defs split: option.splits)
next
  case 5
  then show ?case by (simp add: MAX_REQUESTS_def)
qed

definition key_view :: "(string \<times> RateWindow) list \<Rightarrow> string \<Rightarrow> (nat \<times> int) option" where
  "key_view s k = map_option (\<lambda>w. (k_count w, k_resetAt w - 1)) (map_of s k)"

definition key_request :: "string \<Rightarrow> int \<Rightarrow> (string \<times> RateWindow) list \<Rightarrow> bool \<times> (string \<times> RateWindow) list" where
  "key_request k t s = (case consume_at k t s of None \<Rightarrow> (False, s) | Some s' \<Rightarrow> (True, s'))"

lemmas key_defs = key_view_def key_request_def consume_at_def Let_def map_of_update map_add_def

interpretation ky: window_limiter key_view key_request 60 59999
proof (unfold_locales, goal_cases)
  case (1 s k t)
  then show ?case by (auto simp: key_defs split: option.splits)
next
  case (2 s k c u t)
  then show ?case by (auto simp: key_defs split: option.splits)
next
  case (3 s k c u t)
  then show ?case by (auto simp: key_defs split: option.splits)
next
  case (4 j k t s)
  then show ?case by (auto simp: key_defs split: option.splits)
qed simp

text \<open>
  C15. The throttle holds its limit against any traffic: whatever requests of whatever addresses arrive, in any order and
  from any state, at most 120 requests of one address pass in any period of sixty seconds, and at most sixty if the address
  was unknown; an address is never held up by the requests of others.
\<close>

theorem throttle_bounded:
  assumes "\<forall>(ip', t) \<in> set traffic. ip' = ip \<longrightarrow> a \<le> t \<and> t \<le> a + 60000"
  shows "admitted throttle_request ip traffic s \<le> 120
     \<and> (map_of s ip = None \<longrightarrow> admitted throttle_request ip traffic s \<le> 60)
     \<and> (ip \<noteq> other \<longrightarrow> fst (throttle_canActivate ip t (snd (throttle_canActivate other u s))) = fst (throttle_canActivate ip t s))"
proof -
  have T: "a + 60000 \<le> a + TIME_WINDOW_MS" by (simp add: TIME_WINDOW_MS_def)
  have "map_of (snd (throttle_canActivate other u s)) ip = map_of s ip" if "ip \<noteq> other"
    using th.others [OF that, of u s]
    by (auto simp: throttle_view_def throttle_request_def Let_def map_option_case prod_eq_iff split: option.splits)
  then show ?thesis
    using th.admitted_bound [OF T assms, of s]
    by (auto simp: MAX_REQUESTS_def throttle_view_def throttle_canActivate_def split: option.splits)
qed

section \<open>The sweep\<close>

text \<open>The windows are in the order of their starts, none in the future.\<close>

definition starts :: "throttle \<Rightarrow> int list" where
  "starts s = map (\<lambda>e. w_windowStart (snd e)) s"

definition ordered :: "int \<Rightarrow> throttle \<Rightarrow> bool" where
  "ordered now s \<longleftrightarrow> distinct (map fst s) \<and> sorted (starts s) \<and> (\<forall>x \<in> set (starts s). x \<le> now)"

text \<open>The states of the guard: requests and sweeps at times that do not go back.\<close>

inductive throttle_run :: "int \<Rightarrow> throttle \<Rightarrow> bool" where
  start: "throttle_run now []"
| request: "throttle_run now s \<Longrightarrow> now \<le> t \<Longrightarrow> throttle_run t (snd (throttle_canActivate ip t s))"
| sweep: "throttle_run now s \<Longrightarrow> now \<le> t \<Longrightarrow> throttle_run t (throttle_cleanup t s)"

lemma keys_update: "map fst (map_update k v m) = map fst m"
  by (induction m) (auto simp: map_update_def)

lemma starts_update:
  assumes "distinct (map fst m)" "map_of m k = Some w" "w_windowStart v = w_windowStart w"
  shows "starts (map_update k v m) = starts m"
proof -
  have "w_windowStart (snd e) = w_windowStart v" if "e \<in> set m" "fst e = k" for e
  proof -
    have "map_of m k = Some (snd e)" using that assms(1) by (metis map_of_is_SomeI prod.collapse)
    with assms show ?thesis by simp
  qed
  then show ?thesis by (auto simp: starts_def map_update_def)
qed

lemma ordered_mono: "ordered now m \<Longrightarrow> now \<le> t \<Longrightarrow> ordered t m"
  by (force simp: ordered_def)

lemma ordered_delete: "ordered now m \<Longrightarrow> ordered now (map_delete k m)"
  by (auto simp: ordered_def starts_def map_delete_def distinct_map_filter sorted_filter)

lemma ordered_fresh:
  assumes "ordered now m" "now \<le> t"
  shows "ordered t (map_delete k m @ [(k, \<lparr>w_count = c, w_windowStart = t\<rparr>)])"
proof -
  have "ordered t (map_delete k m)" using ordered_mono [OF assms] by (rule ordered_delete)
  moreover have "k \<notin> fst ` set (map_delete k m)" by (auto simp: map_delete_def)
  ultimately show ?thesis by (simp add: ordered_def starts_def sorted_append)
qed

lemma ordered_request:
  assumes "ordered now m" "now \<le> t"
  shows "ordered t (snd (throttle_canActivate ip t m))"
proof -
  have late: "ordered t m" using assms by (rule ordered_mono)
  have "ordered t (map_update ip (w\<lparr>w_count := c\<rparr>) m)" if "map_of m ip = Some w" for w c
    using late starts_update [OF _ that, of "w\<lparr>w_count := c\<rparr>"] by (simp add: ordered_def keys_update)
  then show ?thesis
    using ordered_fresh [OF assms] late by (auto simp: throttle_canActivate_def split: option.splits)
qed

lemma ordered_drop: "ordered now s \<Longrightarrow> ordered now (drop k s)"
  unfolding ordered_def starts_def drop_map [symmetric] using set_drop_subset
  by (metis distinct_drop sorted_wrt_drop subsetD)

lemma throttle_run_ordered: "throttle_run now s \<Longrightarrow> ordered now s"
proof (induction rule: throttle_run.induct)
  case (start now)
  then show ?case by (simp add: ordered_def starts_def)
next
  case (request now s t ip)
  from request.IH request.hyps(2) show ?case by (rule ordered_request)
next
  case (sweep now s t)
  have "ordered t s" using sweep.IH sweep.hyps(2) by (rule ordered_mono)
  then show ?case unfolding throttle_cleanup_def dropWhile_eq_drop by (rule ordered_drop)
qed

lemma sweep_filter:
  assumes "sorted (starts s)"
  shows "throttle_cleanup t s = filter (\<lambda>(ip, w). t - w_windowStart w \<le> TIME_WINDOW_MS) s"
  using assms
proof (induction s)
  case (Cons e s)
  obtain ip w where e: "e = (ip, w)" by (cases e)
  show ?case
  proof (cases "t - w_windowStart w \<le> TIME_WINDOW_MS")
    case True
    with Cons.prems e have "\<forall>x \<in> set s. t - w_windowStart (snd x) \<le> TIME_WINDOW_MS" by (fastforce simp: starts_def)
    then have "filter (\<lambda>(ip, w). t - w_windowStart w \<le> TIME_WINDOW_MS) s = s" by (auto simp: filter_id_conv)
    with True e show ?thesis by (simp add: throttle_cleanup_def)
  next
    case False
    with Cons e show ?thesis by (simp add: throttle_cleanup_def starts_def)
  qed
qed (simp add: throttle_cleanup_def)

text \<open>
  The sweep of the throttle that stops at the first active window removes exactly the expired ones: in every state that
  requests and sweeps can reach while the clock does not go back, it equals the scan of the whole table, and it never
  forgets an address whose window still counts.
\<close>

theorem throttle_sweep_exact:
  assumes "throttle_run now s" and "now \<le> t"
  shows "throttle_cleanup t s = filter (\<lambda>(ip, w). t - w_windowStart w \<le> TIME_WINDOW_MS) s
     \<and> fst (throttle_canActivate ip t (throttle_cleanup t s)) = fst (throttle_canActivate ip t s)"
proof -
  have o: "ordered now s" by (rule throttle_run_ordered [OF assms(1)])
  then have f: "throttle_cleanup t s = filter (\<lambda>(ip, w). t - w_windowStart w \<le> TIME_WINDOW_MS) s"
    by (intro sweep_filter) (simp add: ordered_def)
  have d: "distinct (map fst s)" using o by (simp add: ordered_def)
  have "map_of (filter (\<lambda>(ip, w). t - w_windowStart w \<le> TIME_WINDOW_MS) s) ip
      = (case map_of s ip of None \<Rightarrow> None | Some w \<Rightarrow> if t - w_windowStart w \<le> TIME_WINDOW_MS then Some w else None)"
    using d by (induction s) (auto split: option.splits dest: map_of_SomeD simp: map_of_eq_None_iff)
  then show ?thesis using f by (auto simp: throttle_canActivate_def split: option.splits)
qed

text \<open>
  A client that waits as long as it is told can be refused again, and then told to wait zero seconds: the window still counts
  at the instant it is said to end.
\<close>

theorem retry_after_too_short:
  "let s = [(''1.2.3.4'', \<lparr>w_count = 60, w_windowStart = 0\<rparr>)] in
   h_retryAfter (snd (fst (throttle_canActivate ''1.2.3.4'' 0 s))) = Some 60
   \<and> fst (fst (throttle_canActivate ''1.2.3.4'' (60 * 1000) s)) = False
   \<and> h_retryAfter (snd (fst (throttle_canActivate ''1.2.3.4'' (60 * 1000) s))) = Some 0"
  by code_simp

section \<open>API keys\<close>

lemma find_key_sound:
  "find_key lib provided kvs = Some (key, scopes) \<Longrightarrow>
     \<exists>v. (key, v) \<in> set kvs \<and> scopes_of v = Some scopes \<and> kl_sha256 lib provided = kl_sha256 lib key"
  by (induction lib provided kvs rule: find_key.induct) (auto simp: keys_equal_def split: option.splits if_splits)

text \<open>
  C14. The guard for scoped API keys lets a request pass only with a configured key and the scopes of the route: if no other
  text has the hash of the presented key, then a pass means that the configuration is a JSON text with an entry for exactly
  this key, that its scopes, all texts, contain the star or every required scope, and that the request was counted against
  the limit of that key; and over any traffic at most 120 requests of one key pass in less than sixty seconds.
\<close>

theorem scoped_guard_sound:
  assumes run: "scoped_canActivate lib apiKeys required provided now windows = (Inr scopes, windows')"
    and collision_free: "\<forall>key. kl_sha256 lib key = kl_sha256 lib (the provided) \<longrightarrow> key = the provided"
  shows "\<exists>parsed kvs v. present apiKeys \<and> present provided \<and> kl_parse lib (the apiKeys) = Some parsed \<and> j_entries parsed = Inr kvs
     \<and> (the provided, v) \<in> set kvs \<and> scopes_of v = Some scopes
     \<and> (''*'' \<in> set scopes \<or> set required \<subseteq> set scopes)
     \<and> consume lib (the provided) now windows = Some windows'
     \<and> (\<forall>traffic s fp a. (\<forall>(k, t) \<in> set traffic. k = fp \<longrightarrow> a \<le> t \<and> t < a + 60000) \<longrightarrow> admitted key_request fp traffic s \<le> 120)"
proof -
  have bound: "admitted key_request fp traffic s \<le> 120"
    if "\<forall>(k, t) \<in> set traffic. k = fp \<longrightarrow> a \<le> t \<and> t < a + 60000" for traffic s fp a
  proof -
    have "\<forall>(k, t) \<in> set traffic. k = fp \<longrightarrow> a \<le> t \<and> t \<le> a + 59999" using that by fastforce
    from ky.admitted_bound(1) [OF order_refl this, of s] show ?thesis by simp
  qed
  from run obtain key where p: "present provided" and def: "findDefinition lib apiKeys (the provided) = Inr (Some (key, scopes))"
    and use: "consume lib key now windows = Some windows'" "has_scopes scopes required"
    by (auto simp: scoped_canActivate_def split: if_splits sum.splits option.splits)
  from def obtain parsed kvs where cfg: "present apiKeys" "kl_parse lib (the apiKeys) = Some parsed" "j_entries parsed = Inr kvs"
    and found: "find_key lib (the provided) kvs = Some (key, scopes)"
    by (auto simp: findDefinition_def split: if_splits option.splits sum.splits)
  from find_key_sound [OF found] obtain v where v: "(key, v) \<in> set kvs" "scopes_of v = Some scopes"
    "kl_sha256 lib (the provided) = kl_sha256 lib key" by blast
  from collision_free v(3) have key: "key = the provided" by metis
  have "''*'' \<in> set scopes \<or> set required \<subseteq> set scopes" using use(2) by (auto simp: has_scopes_def list_all_iff)
  with p cfg v use(1) key bound show ?thesis by blast
qed

section \<open>Whose bucket\<close>

text \<open>
  The tracker never fails, and it names a wallet only if the header authentication or a token that verifies does; a request
  counted for a wallet has five times the limit, any other the limit itself if the base tracker is an address.
\<close>

theorem getTracker_sound:
  assumes "getTracker lib wallet rq base e s = (r, s')" and "\<not> starts_with ''user:'' base"
  shows "\<exists>tracker. r = Inr tracker
     \<and> (limit_for tracker limit = 5 * limit \<and> (\<exists>who. tracker = ''user:'' @ who
          \<and> (wallet = Some who \<or> (\<exists>token payload s1. extractTokenFromHeader rq = Some token
                \<and> verifyAsync lib token e s = (Inr payload, s1) \<and> jp_walletAddress payload = who)))
        \<or> tracker = base \<and> limit_for tracker limit = limit)"
proof -
  have u: "starts_with ''user:'' (''user:'' @ x)" for x by (rule starts_with_append)
  consider (wallet) who where "wallet = Some who" "present wallet" | (token) token where "\<not> present wallet" "extractTokenFromHeader rq = Some token" "token \<noteq> []"
    | (none) "\<not> present wallet" "\<not> present (extractTokenFromHeader rq)"
    unfolding present_def by (cases wallet; cases "extractTokenFromHeader rq") blast+
  then show ?thesis
  proof cases
    case wallet
    with assms(1) have "r = Inr (''user:'' @ who)" by (auto simp: getTracker_def ret_def)
    with wallet u show ?thesis by (auto simp: limit_for_def AUTHENTICATED_LIMIT_MULTIPLIER_def)
  next
    case token
    obtain q s1 where v: "verifyAsync lib token e s = (q, s1)" by (metis prod.exhaust)
    have run: "getTracker lib wallet rq base e s = catch (bind (verifyAsync lib token) (\<lambda>payload.
        if jp_walletAddress payload \<noteq> [] then ret (''user:'' @ jp_walletAddress payload) else ret base)) (\<lambda>_. ret base) e s"
      using token by (auto simp: getTracker_def present_def)
    show ?thesis
    proof (cases "\<exists>payload. q = Inr payload \<and> jp_walletAddress payload \<noteq> []")
      case True
      then obtain payload where q: "q = Inr payload" "jp_walletAddress payload \<noteq> []" by blast
      with assms(1) run v have "r = Inr (''user:'' @ jp_walletAddress payload)" by (simp add: catch_def bind_def ret_def)
      moreover have "limit_for (''user:'' @ jp_walletAddress payload) limit = 5 * limit"
        unfolding limit_for_def using u by (simp add: AUTHENTICATED_LIMIT_MULTIPLIER_def del: append_Cons)
      ultimately show ?thesis using token(2) v q(1) by blast
    next
      case False
      with assms(1) run v have "r = Inr base" by (cases q) (auto simp: catch_def bind_def ret_def)
      with assms(2) show ?thesis by (simp add: limit_for_def)
    qed
  next
    case none
    with assms show ?thesis by (auto simp: getTracker_def ret_def limit_for_def)
  qed
qed

section \<open>Witnesses\<close>

definition sample_keys :: key_lib where
  "sample_keys = \<lparr>kl_sha256 = id, kl_parse = (\<lambda>s. Some (JObj [(''k1'', JArr [JStr ''oracle:read'']), (''k2'', JArr [JStr ''*''])]))\<rparr>"

theorem throttle_bounded_witness:
  "admitted throttle_request ''a'' (replicate 3 (''a'', 5)) [] \<le> 60"
proof -
  have "\<forall>(ip', t) \<in> set (replicate 3 (''a'', 5 :: int)). ip' = ''a'' \<longrightarrow> 5 \<le> t \<and> t \<le> 5 + 60000" by simp
  from throttle_bounded [OF this, of "[]"] show ?thesis by simp
qed

theorem throttle_sweep_exact_witness:
  "throttle_cleanup 70000 (snd (throttle_canActivate ''a'' 5 [])) = []"
proof -
  have "throttle_run 5 (snd (throttle_canActivate ''a'' 5 []))"
    by (rule throttle_run.request [OF throttle_run.start]) (rule order_refl)
  from throttle_sweep_exact [OF this, of 70000] show ?thesis
    by (simp add: throttle_canActivate_def map_delete_def TIME_WINDOW_MS_def)
qed

theorem scoped_guard_sound_witness:
  "\<exists>v. (''k1'', v) \<in> set [(''k1'', JArr [JStr ''oracle:read'']), (''k2'', JArr [JStr ''*''])] \<and> scopes_of v = Some [''oracle:read'']"
proof -
  have run: "scoped_canActivate sample_keys (Some ''json'') [''oracle:read''] (Some ''k1'') 0 [] = (Inr [''oracle:read''], [(''k1'', \<lparr>k_count = 1, k_resetAt = 60000\<rparr>)])"
    by code_simp
  have free: "\<forall>key. kl_sha256 sample_keys key = kl_sha256 sample_keys (the (Some ''k1'')) \<longrightarrow> key = the (Some ''k1'')"
    by (simp add: sample_keys_def)
  from scoped_guard_sound [OF run free] show ?thesis by (auto simp: sample_keys_def)
qed

end
