(* ===== verification/Error_Responses.thy ===== *)
theory Error_Responses
  imports Json_Values
begin

text \<open>
  What a client is told when a handler throws: the global exception filter
  (\<^verbatim>\<open>src/common/filters/http-exception.filter.ts\<close>), problem details (\<^verbatim>\<open>src/common/errors/problem-details.ts\<close>) and error codes
  (\<^verbatim>\<open>src/common/errors/error-codes.ts\<close>). A thrown value is given by what the filter inspects. The time stamp of a response
  and the log lines are not modelled.
\<close>

section \<open>Error codes\<close>

definition ERROR_CODES :: "string list" where
  "ERROR_CODES = [''INTERNAL_ERROR'', ''VALIDATION_ERROR'', ''NOT_FOUND'', ''UNAUTHORIZED'', ''FORBIDDEN'', ''BAD_REQUEST'',
     ''CONFLICT'', ''GONE'', ''CLAIM_NOT_FOUND'', ''CLAIM_ALREADY_EXISTS'', ''CLAIM_CLAIMANT_MISMATCH'', ''CLAIM_WALLET_MISMATCH'',
     ''CLAIM_POLICY_NOT_FOUND'', ''CLAIM_POLICY_NOT_OWNED'', ''CLAIM_POLICY_NOT_ACTIVE'', ''CLAIM_POLICY_EXPIRED'',
     ''CLAIM_CONCURRENT_MODIFICATION'', ''TOO_MANY_REQUESTS'', ''SERVICE_UNAVAILABLE'', ''HORIZON_TIMEOUT'', ''HORIZON_UNAVAILABLE'']"

definition errorCodeFromBody :: "json \<Rightarrow> string option" where
  "errorCodeFromBody raw =
     (case raw of
        JObj kvs \<Rightarrow> (case j_lookup ''errorCode'' kvs of Some (JStr code) \<Rightarrow> List.find (\<lambda>c. c = code) ERROR_CODES | _ \<Rightarrow> None)
      | _ \<Rightarrow> None)"

definition errorCodeFromStatus :: "int \<Rightarrow> string" where
  "errorCodeFromStatus status =
     (if status = 400 then ''VALIDATION_ERROR'' else if status = 401 then ''UNAUTHORIZED'' else if status = 403 then ''FORBIDDEN''
      else if status = 404 then ''NOT_FOUND'' else if status = 409 then ''CONFLICT'' else if status = 410 then ''GONE''
      else if status = 429 then ''TOO_MANY_REQUESTS'' else if status = 503 then ''SERVICE_UNAVAILABLE''
      else if status \<ge> 500 then ''INTERNAL_ERROR'' else ''BAD_REQUEST'')"

section \<open>Problem details\<close>

definition slug :: "string \<Rightarrow> string" where
  "slug code = map (\<lambda>c. if c = CHR ''_'' then CHR ''-'' else c) (to_lower code)"

definition status_slugs :: "(int \<times> string) list" where
  "status_slugs = [(400, ''bad-request''), (401, ''unauthorized''), (403, ''forbidden''), (404, ''not-found''), (408, ''request-timeout''),
     (409, ''conflict''), (410, ''gone''), (422, ''unprocessable-entity''), (429, ''too-many-requests''), (500, ''internal-error''),
     (502, ''bad-gateway''), (503, ''service-unavailable''), (504, ''gateway-timeout'')]"

definition getProblemType :: "int \<Rightarrow> string option \<Rightarrow> string" where
  "getProblemType status errorCode =
     (case errorCode of
        Some code \<Rightarrow> if code \<noteq> [] then ''https://parashield.io/errors/'' @ slug code else
          (case map_of status_slugs status of Some t \<Rightarrow> ''https://parashield.io/errors/'' @ t | None \<Rightarrow> ''about:blank'')
      | None \<Rightarrow> (case map_of status_slugs status of Some t \<Rightarrow> ''https://parashield.io/errors/'' @ t | None \<Rightarrow> ''about:blank''))"

definition status_titles :: "(int \<times> string) list" where
  "status_titles = [(400, ''Bad Request''), (401, ''Unauthorized''), (403, ''Forbidden''), (404, ''Not Found''), (408, ''Request Timeout''),
     (409, ''Conflict''), (410, ''Gone''), (422, ''Unprocessable Entity''), (429, ''Too Many Requests''), (500, ''Internal Server Error''),
     (502, ''Bad Gateway''), (503, ''Service Unavailable''), (504, ''Gateway Timeout'')]"

definition getProblemTitle :: "int \<Rightarrow> string" where
  "getProblemTitle status =
     (case map_of status_titles status of Some t \<Rightarrow> t | None \<Rightarrow> if status \<ge> 500 then ''Internal Server Error'' else ''Error'')"

record problem_options =
  po_status :: int
  po_message :: string
  po_error :: string
  po_errorCode :: "string option"
  po_path :: string
  po_errors :: "json option"
  po_correlationId :: "string option"
  po_retryAfter :: "jsnum option"

text \<open>The members \<^verbatim>\<open>statusCode\<close>, \<^verbatim>\<open>message\<close> and \<^verbatim>\<open>path\<close> repeat status, detail and instance.\<close>

record ProblemDetails =
  pd_type :: string
  pd_title :: string
  pd_status :: int
  pd_detail :: string
  pd_instance :: string
  pd_error :: string
  pd_errorCode :: string
  pd_errors :: "json option"
  pd_correlationId :: "string option"
  pd_retryAfter :: "jsnum option"

definition buildProblemDetails :: "problem_options \<Rightarrow> ProblemDetails" where
  "buildProblemDetails opts =
     (let status = po_status opts; title = getProblemTitle status;
          safeDetail = (if status \<ge> 500 then ''An unexpected error occurred. Please try again later.''
                        else if po_message opts \<noteq> [] then po_message opts else po_error opts);
          safeLegacyError = (if status \<ge> 500 then ''Internal server error'' else po_error opts) in
      \<lparr>pd_type = getProblemType status (po_errorCode opts), pd_title = title, pd_status = status, pd_detail = safeDetail,
       pd_instance = po_path opts, pd_error = safeLegacyError,
       pd_errorCode = (case po_errorCode opts of Some c \<Rightarrow> c | None \<Rightarrow> errorCodeFromStatus status), pd_errors = po_errors opts,
       pd_correlationId = (case po_correlationId opts of Some c \<Rightarrow> if c \<noteq> [] then Some c else None | None \<Rightarrow> None),
       pd_retryAfter = po_retryAfter opts\<rparr>)"

section \<open>Prisma errors\<close>

datatype prisma_class = KnownRequestError | ValidationError | InitializationError | UnknownRequestError | RustPanicError

text \<open>A thrown value: status and response of an \<^verbatim>\<open>HttpException\<close>, its class if it is one of Prisma's, \<^verbatim>\<open>name\<close>, a \<^verbatim>\<open>code\<close> that
  is a text, and its cause.\<close>

datatype thrown = NotObject | Thrown "(int \<times> json) option" "prisma_class option" string "string option" "thrown option"

definition PRISMA_CODE :: rx where
  "PRISMA_CODE = rx_seq [rx_lit ''P'', rx_rep 4 rx_digit]"

fun inspectPrismaError :: "thrown \<Rightarrow> (prisma_class \<times> string option) option" where
  "inspectPrismaError NotObject = None"
| "inspectPrismaError (Thrown http cls name code cause) =
     (if cls = Some KnownRequestError \<or> name = ''PrismaClientKnownRequestError'' \<or> (case code of Some c \<Rightarrow> rx_test PRISMA_CODE c | None \<Rightarrow> False)
      then Some (KnownRequestError, code)
      else if cls = Some ValidationError \<or> name = ''PrismaClientValidationError'' then Some (ValidationError, None)
      else if cls = Some InitializationError \<or> name = ''PrismaClientInitializationError'' then Some (InitializationError, None)
      else if cls = Some UnknownRequestError \<or> name = ''PrismaClientUnknownRequestError'' then Some (UnknownRequestError, None)
      else if cls = Some RustPanicError \<or> name = ''PrismaClientRustPanicError'' then Some (RustPanicError, None)
      else None)"

definition word_char :: "char \<Rightarrow> bool" where
  "word_char c \<longleftrightarrow> (let n = (of_char c :: int) in (48 \<le> n \<and> n \<le> 57) \<or> (65 \<le> n \<and> n \<le> 90) \<or> (97 \<le> n \<and> n \<le> 122) \<or> n = 95)"

text \<open>The first match of \<^verbatim>\<open>/\b(P2\d{3})\b/\<close>; the flag says that the character before is one of a word.\<close>

fun leaked_code :: "bool \<Rightarrow> string \<Rightarrow> string option" where
  "leaked_code before [] = None"
| "leaked_code before (c # cs) =
     (let code = take 5 (c # cs); rest = drop 5 (c # cs) in
      if \<not> before \<and> length code = 5 \<and> take 2 code = ''P2'' \<and> list_all is_digit (drop 2 code) \<and> (rest = [] \<or> \<not> word_char (hd rest))
      then Some code
      else leaked_code (word_char c) cs)"

definition leaked_in_response :: "(jsnum \<Rightarrow> string) \<Rightarrow> (int \<times> json) option \<Rightarrow> (prisma_class \<times> string option) option outcome" where
  "leaked_in_response numStr http =
     (case http of
        None \<Rightarrow> Inr None
      | Some (status, raw) \<Rightarrow>
          (case (case raw of JStr s \<Rightarrow> Inr s | _ \<Rightarrow> stringify numStr raw) of
             Inl err \<Rightarrow> Inl err
           | Inr rawStr \<Rightarrow> Inr (map_option (\<lambda>code. (KnownRequestError, Some code)) (leaked_code False rawStr))))"

fun extractPrismaError :: "(jsnum \<Rightarrow> string) \<Rightarrow> thrown \<Rightarrow> (prisma_class \<times> string option) option outcome" where
  "extractPrismaError numStr NotObject = Inr None"
| "extractPrismaError numStr (Thrown http cls name code cause) =
     (case inspectPrismaError (Thrown http cls name code cause) of
        Some info \<Rightarrow> Inr (Some info)
      | None \<Rightarrow>
          (case cause of
             None \<Rightarrow> leaked_in_response numStr http
           | Some c \<Rightarrow>
               (case extractPrismaError numStr c of
                  Inr None \<Rightarrow> leaked_in_response numStr http
                | fromCause \<Rightarrow> fromCause)))"

record PrismaMapping =
  pm_status :: int
  pm_message :: string
  pm_errorCode :: string

definition UNAVAILABLE_MESSAGE :: string where
  "UNAVAILABLE_MESSAGE = ''Database service is temporarily unavailable. Please try again later.''"

definition UNEXPECTED :: PrismaMapping where
  "UNEXPECTED = \<lparr>pm_status = 500, pm_message = ''An unexpected database error occurred. Please try again later.'', pm_errorCode = ''INTERNAL_ERROR''\<rparr>"

definition conflict :: "string \<Rightarrow> PrismaMapping" where
  "conflict message = \<lparr>pm_status = 409, pm_message = message, pm_errorCode = ''CONFLICT''\<rparr>"

definition bad_request :: "string \<Rightarrow> PrismaMapping" where
  "bad_request message = \<lparr>pm_status = 400, pm_message = message, pm_errorCode = ''BAD_REQUEST''\<rparr>"

definition known_mappings :: "(string \<times> PrismaMapping) list" where
  "known_mappings =
     [(''P2002'', conflict ''A resource with conflicting unique attributes already exists.''),
      (''P2003'', conflict ''The requested operation violates an existing relationship constraint.''),
      (''P2014'', conflict ''The requested operation violates a model relation constraint.''),
      (''P2034'', conflict ''A concurrent modification conflict occurred. Please retry your request.''),
      (''P2025'', \<lparr>pm_status = 404, pm_message = ''The requested resource was not found.'', pm_errorCode = ''NOT_FOUND''\<rparr>),
      (''P2015'', \<lparr>pm_status = 404, pm_message = ''The requested resource was not found.'', pm_errorCode = ''NOT_FOUND''\<rparr>),
      (''P2018'', \<lparr>pm_status = 404, pm_message = ''The requested resource was not found.'', pm_errorCode = ''NOT_FOUND''\<rparr>),
      (''P2000'', bad_request ''The provided value exceeds the maximum allowed length.''),
      (''P2005'', bad_request ''The provided value is invalid for the field type.''),
      (''P2006'', bad_request ''The provided value is not valid.''),
      (''P2011'', bad_request ''A required field was missing or null.''),
      (''P2012'', bad_request ''A required field was missing.''),
      (''P2013'', bad_request ''A required field was missing.''),
      (''P2016'', bad_request ''Invalid query parameters provided.''),
      (''P2017'', bad_request ''The related records are not connected.''),
      (''P2024'', \<lparr>pm_status = 503, pm_message = UNAVAILABLE_MESSAGE, pm_errorCode = ''SERVICE_UNAVAILABLE''\<rparr>)]"

definition mapKnownRequestError :: "string option \<Rightarrow> PrismaMapping" where
  "mapKnownRequestError code =
     (case code of
        None \<Rightarrow> UNEXPECTED
      | Some c \<Rightarrow> (case map_of known_mappings c of Some m \<Rightarrow> m | None \<Rightarrow> UNEXPECTED))"

fun mapPrismaError :: "prisma_class \<times> string option \<Rightarrow> PrismaMapping" where
  "mapPrismaError (KnownRequestError, code) = mapKnownRequestError code"
| "mapPrismaError (ValidationError, code) = bad_request ''Invalid data provided for database operation.''"
| "mapPrismaError (InitializationError, code) = \<lparr>pm_status = 503, pm_message = UNAVAILABLE_MESSAGE, pm_errorCode = ''SERVICE_UNAVAILABLE''\<rparr>"
| "mapPrismaError (_, code) = UNEXPECTED"

section \<open>The filter\<close>

fun message_item :: "(jsnum \<Rightarrow> string) \<Rightarrow> json \<Rightarrow> string" where
  "message_item numStr (JStr s) = s"
| "message_item numStr m = (case stringify numStr (serializeBigInt m) of Inr t \<Rightarrow> t | Inl _ \<Rightarrow> [])"

definition extractMessage :: "(jsnum \<Rightarrow> string) \<Rightarrow> json \<Rightarrow> string" where
  "extractMessage numStr raw =
     (case raw of
        JStr s \<Rightarrow> s
      | JObj kvs \<Rightarrow>
          (case j_lookup ''message'' kvs of
             Some (JStr s) \<Rightarrow> s
           | Some (JArr ms) \<Rightarrow> join_with ''; '' (map (message_item numStr) ms)
           | _ \<Rightarrow> message_item numStr raw)
      | _ \<Rightarrow> message_item numStr raw)"

definition extractValidationErrors :: "json \<Rightarrow> json option" where
  "extractValidationErrors raw =
     (case raw of
        JObj kvs \<Rightarrow>
          (case j_lookup ''message'' kvs of
             Some (JArr ms) \<Rightarrow> Some (JArr ms)
           | _ \<Rightarrow> (case j_lookup ''errors'' kvs of Some (JArr es) \<Rightarrow> Some (JArr es) | _ \<Rightarrow> None))
      | _ \<Rightarrow> None)"

definition extractRetryAfter :: "json \<Rightarrow> jsnum option" where
  "extractRetryAfter raw =
     (case raw of
        JObj kvs \<Rightarrow> (case j_lookup ''retryAfter'' kvs of Some (JNum x) \<Rightarrow> Some x | Some JNegZero \<Rightarrow> Some (js_int 0) | _ \<Rightarrow> None)
      | _ \<Rightarrow> None)"

fun http_part :: "thrown \<Rightarrow> int \<times> json" where
  "http_part (Thrown (Some http) cls name code cause) = http"
| "http_part _ = (500, JStr ''Internal server error'')"

definition serialized :: "ProblemDetails \<Rightarrow> ProblemDetails" where
  "serialized p = p\<lparr>pd_errors := map_option serializeBigInt (pd_errors p)\<rparr>"

definition filter_catch :: "(jsnum \<Rightarrow> string) \<Rightarrow> string \<Rightarrow> string option \<Rightarrow> thrown \<Rightarrow> ProblemDetails outcome" where
  "filter_catch numStr path correlationId exception =
     (case extractPrismaError numStr exception of
        Inl err \<Rightarrow> Inl err
      | Inr (Some prismaInfo) \<Rightarrow>
          (let m = mapPrismaError prismaInfo in
           Inr (serialized (buildProblemDetails
             \<lparr>po_status = pm_status m, po_message = pm_message m,
              po_error = (if pm_status m \<ge> 500 then ''Internal server error'' else pm_message m),
              po_errorCode = Some (pm_errorCode m), po_path = path, po_errors = None, po_correlationId = correlationId, po_retryAfter = None\<rparr>)))
      | Inr None \<Rightarrow>
          (let (status, rawResponse) = http_part exception; message = extractMessage numStr rawResponse in
           Inr (serialized (buildProblemDetails
             \<lparr>po_status = status, po_message = message,
              po_error = (if status \<ge> 500 then ''Internal server error'' else message),
              po_errorCode = Some (case errorCodeFromBody rawResponse of Some c \<Rightarrow> c | None \<Rightarrow> errorCodeFromStatus status),
              po_path = path, po_errors = extractValidationErrors rawResponse, po_correlationId = correlationId,
              po_retryAfter = extractRetryAfter rawResponse\<rparr>))))"

section \<open>What leaks\<close>














text \<open>What the framework makes of its exceptions: the message and the status are the response.\<close>

definition http_error :: "int \<Rightarrow> json \<Rightarrow> thrown" where
  "http_error status message = Thrown (Some (status, JObj [(''message'', message), (''statusCode'', JNum (js_int status))])) None ''HttpException'' None None"

text \<open>
  The list of errors of an exception is passed on also for a status from 500 on, where everything else is replaced.
\<close>

theorem server_error_list_leaks:
  "map_option (\<lambda>p. (pd_status p, pd_errors p)) (case filter_catch (\<lambda>_. ''500'') ''/x'' None (http_error 500 (JArr [JStr ''db 10.0.0.5 down''])) of Inr p \<Rightarrow> Some p | Inl _ \<Rightarrow> None)
   = Some (500, Some (JArr [JStr ''db 10.0.0.5 down'']))"
  by code_simp

text \<open>
  A text that looks like a Prisma code turns any exception into the answer to that code: a request that is not found because
  its identifier is \<^verbatim>\<open>P2002\<close> is answered as a conflict, and one that is forbidden as a missing resource.
\<close>

theorem client_text_changes_status:
  "map_option pd_status (case filter_catch (\<lambda>_. ''404'') ''/x'' None (http_error 404 (JStr ''Policy P2002 not found'')) of Inr p \<Rightarrow> Some p | Inl _ \<Rightarrow> None) = Some 409
   \<and> map_option pd_status (case filter_catch (\<lambda>_. ''403'') ''/x'' None (http_error 403 (JStr ''Policy P2025 belongs to a different wallet'')) of Inr p \<Rightarrow> Some p | Inl _ \<Rightarrow> None) = Some 404"
  by code_simp

section \<open>Exceptions of the services\<close>

fun http_status :: "exn \<Rightarrow> int option" where
  "http_status (BadRequestException m) = Some 400"
| "http_status (UnauthorizedException m) = Some 401"
| "http_status (ForbiddenException m) = Some 403"
| "http_status (NotFoundException m) = Some 404"
| "http_status (ConflictException m) = Some 409"
| "http_status (GoneException m) = Some 410"
| "http_status (TooManyRequestsException m) = Some 429"
| "http_status (InternalServerErrorException m) = Some 500"
| "http_status (BadGatewayException m) = Some 502"
| "http_status (ServiceUnavailableException m) = Some 503"
| "http_status _ = None"

fun thrown_of :: "exn \<Rightarrow> thrown" where
  "thrown_of (PrismaKnown code m target) = Thrown None (Some KnownRequestError) ''PrismaClientKnownRequestError'' (Some code) None"
| "thrown_of (PrismaUnknown m) = Thrown None (Some UnknownRequestError) ''PrismaClientUnknownRequestError'' None None"
| "thrown_of x = (case http_status x of Some st \<Rightarrow> http_error st (JStr (exn_message x)) | None \<Rightarrow> Thrown None None ''Error'' None None)"

text \<open>The status that a client sees for an exception of a service.\<close>

definition response_status :: "(jsnum \<Rightarrow> string) \<Rightarrow> exn \<Rightarrow> int" where
  "response_status numStr x = (case filter_catch numStr [] None (thrown_of x) of Inr p \<Rightarrow> pd_status p | Inl _ \<Rightarrow> 500)"

lemma http_error_status:
  assumes "leaked_in_response numStr (Some (st, JObj [(''message'', JStr m), (''statusCode'', JNum (js_int st))])) = Inr None"
  shows "\<exists>p. filter_catch numStr path c (http_error st (JStr m)) = Inr p \<and> pd_status p = st"
  using assms by (simp add: filter_catch_def http_error_def buildProblemDetails_def serialized_def Let_def)

text \<open>
  The statuses of the services' exceptions arrive: unless its text looks like a Prisma code, an exception of the framework
  is answered with its own status; a violated unique index and a serialisation failure are conflicts; everything else is an
  internal error.
\<close>

theorem response_status_faithful:
  assumes "http_status x \<noteq> None \<Longrightarrow> leaked_in_response numStr
      (Some (the (http_status x), JObj [(''message'', JStr (exn_message x)), (''statusCode'', JNum (js_int (the (http_status x))))])) = Inr None"
  shows "response_status numStr x =
     (case http_status x of
        Some st \<Rightarrow> st
      | None \<Rightarrow> (case x of PrismaKnown code m target \<Rightarrow> pm_status (mapKnownRequestError (Some code)) | _ \<Rightarrow> 500))"
proof (cases "http_status x")
  case (Some st)
  then have t: "thrown_of x = http_error st (JStr (exn_message x))" by (cases x) auto
  obtain p where "filter_catch numStr [] None (http_error st (JStr (exn_message x))) = Inr p" "pd_status p = st"
    using http_error_status [OF assms [unfolded Some, simplified], of "[]" None] by blast
  with Some show ?thesis by (simp add: response_status_def t)
next
  case None
  then show ?thesis
    by (cases x) (auto simp: response_status_def filter_catch_def leaked_in_response_def buildProblemDetails_def serialized_def Let_def UNEXPECTED_def)
qed

section \<open>Witnesses\<close>


end
