(* ===== verification/Api_Version.thy ===== *)
theory Api_Version
  imports Regex
begin

text \<open>
  Resolution of the API version of a request and the version headers of its response,
  \<^verbatim>\<open>src/common/versioning/api-version.ts\<close>.
\<close>

section \<open>Versions\<close>

definition API_VERSIONS :: "(string \<times> string) list" where
  "API_VERSIONS = [(''v1'', ''1.0.0''), (''v2'', ''2.0.0'')]"

definition DEFAULT_API_VERSION :: string where
  "DEFAULT_API_VERSION = ''v1''"

definition isSupportedVersion :: "string \<Rightarrow> bool" where
  "isSupportedVersion version \<longleftrightarrow> map_of API_VERSIONS version \<noteq> None"

definition apiVersionHeaderValue :: "string \<Rightarrow> string option" where
  "apiVersionHeaderValue version = map_of API_VERSIONS version"

definition pathnameOf :: "string \<Rightarrow> string" where
  "pathnameOf pathOrUrl = takeWhile (\<lambda>c. c \<noteq> CHR ''?'') (takeWhile (\<lambda>c. c \<noteq> CHR ''#'') pathOrUrl)"

text \<open>The group of \<^verbatim>\<open>/^\/api\/(v\d+)(?:[\/?#]|$)/\<close>; digits do not end a segment, so the greedy match is the only one.\<close>

definition versionSegmentFromPath :: "string option \<Rightarrow> string option" where
  "versionSegmentFromPath pathOrUrl =
     (case pathOrUrl of
        None \<Rightarrow> None
      | Some p \<Rightarrow>
          let s = pathnameOf p; rest = drop (length ''/api/v'') s; ds = takeWhile is_digit rest; r = dropWhile is_digit rest in
          if starts_with ''/api/v'' s \<and> ds \<noteq> [] \<and> (r = [] \<or> hd r \<in> {CHR ''/'', CHR ''?'', CHR ''#''}) then Some (CHR ''v'' # ds) else None)"

definition NUMERIC_VERSION :: rx where
  "NUMERIC_VERSION = rx_seq [rx_plus rx_digit, Star (rx_seq [rx_lit ''.'', rx_plus rx_digit])]"

definition normalizeVersionToken :: "string option \<Rightarrow> string option" where
  "normalizeVersionToken v =
     (case v of
        None \<Rightarrow> None
      | Some value \<Rightarrow>
          let trimmed = trim value in
          if trimmed = [] then None
          else if isSupportedVersion (to_lower trimmed) then Some (to_lower trimmed)
          else if rx_test NUMERIC_VERSION trimmed then
            (let major = hd (js_split (CHR ''.'') trimmed); candidate = CHR ''v'' # major in
             case map_of API_VERSIONS candidate of
               None \<Rightarrow> None
             | Some advertised \<Rightarrow>
                 if trimmed = major \<or> trimmed = advertised \<or> starts_with (trimmed @ ''.'') advertised then Some candidate else None)
          else None)"

definition resolveRequestedVersion :: "string option \<Rightarrow> string option \<Rightarrow> string" where
  "resolveRequestedVersion pathOrUrl headerValue =
     (case versionSegmentFromPath pathOrUrl of
        Some v \<Rightarrow> v
      | None \<Rightarrow> (case normalizeVersionToken headerValue of Some v \<Rightarrow> v | None \<Rightarrow> DEFAULT_API_VERSION))"

text \<open>The headers that are added, unless the response has already been sent.\<close>

definition applyApiVersionHeaders :: "bool \<Rightarrow> string \<Rightarrow> (string \<times> string) list" where
  "applyApiVersionHeaders headersSent version =
     (if headersSent then []
      else case apiVersionHeaderValue version of
          None \<Rightarrow> []
        | Some v \<Rightarrow> (''X-API-Version'', v) #
            (if version = DEFAULT_API_VERSION then [(''Deprecation'', ''true''), (''Link'', ''</api/v2>; rel='' @ [char_of (34 :: int)] @ ''successor'' @ [char_of (34 :: int)])] else []))"

definition apiVersionHeader :: "string option \<Rightarrow> string option \<Rightarrow> bool \<Rightarrow> (string \<times> string) list" where
  "apiVersionHeader url header headersSent = applyApiVersionHeaders headersSent (resolveRequestedVersion url header)"

section \<open>Which tokens name a version\<close>

lemma supported_iff: "isSupportedVersion v \<longleftrightarrow> v = ''v1'' \<or> v = ''v2''"
  by (simp add: isSupportedVersion_def API_VERSIONS_def)

lemma starts_with_numeral:
  assumes "d \<noteq> CHR ''.''"
  shows "starts_with (t @ ''.'') (d # ''.0.0'') \<longleftrightarrow> t = [d] \<or> t = d # ''.0''"
proof
  assume "starts_with (t @ ''.'') (d # ''.0.0'')"
  then obtain u where u: "d # ''.0.0'' = t @ CHR ''.'' # u" by (auto simp: starts_with_iff)
  then show "t = [d] \<or> t = d # ''.0''"
    by (cases t; cases "tl t"; cases "tl (tl t)"; cases "tl (tl (tl t))") (use assms in \<open>auto simp: Cons_eq_append_conv\<close>)
qed auto

text \<open>
  Exactly these texts name a version, white space around them and letter case aside: v1, 1, 1.0 and 1.0.0 the first, and
  correspondingly the second; everything else falls back to the path or the default.
\<close>

theorem normalizeVersionToken_exact:
  "normalizeVersionToken (Some s) = Some v \<longleftrightarrow>
     v = ''v1'' \<and> (to_lower (trim s) = ''v1'' \<or> trim s \<in> {''1'', ''1.0'', ''1.0.0''})
     \<or> v = ''v2'' \<and> (to_lower (trim s) = ''v2'' \<or> trim s \<in> {''2'', ''2.0'', ''2.0.0''})"
proof -
  let ?t = "trim s"
  have num: "list_all (\<lambda>t. normalizeVersionToken (Some t) = Some ''v1'') [''1'', ''1.0'', ''1.0.0'']"
    "list_all (\<lambda>t. normalizeVersionToken (Some t) = Some ''v2'') [''2'', ''2.0'', ''2.0.0'']" by code_simp+
  have trim_num: "trim x = x" if "x \<in> {''1'', ''1.0'', ''1.0.0'', ''2'', ''2.0'', ''2.0.0''}" for x
    using that by (auto simp: trim_no_space is_space_def)
  have same: "normalizeVersionToken (Some s) = normalizeVersionToken (Some ?t)" if "trim ?t = ?t"
    using that by (simp add: normalizeVersionToken_def)
  show ?thesis
  proof (cases "isSupportedVersion (to_lower ?t)")
    case True
    then have "?t \<noteq> []" by (auto simp: supported_iff to_lower_def)
    moreover have "?t \<notin> {''1'', ''1.0'', ''1.0.0'', ''2'', ''2.0'', ''2.0.0''}"
      using True by (auto simp: supported_iff to_lower_def to_lower_char_def)
    ultimately show ?thesis using True by (auto simp: normalizeVersionToken_def supported_iff)
  next
    case False
    have backward: "v = ''v1'' \<and> ?t \<in> {''1'', ''1.0'', ''1.0.0''} \<or> v = ''v2'' \<and> ?t \<in> {''2'', ''2.0'', ''2.0.0''}"
      if run: "normalizeVersionToken (Some s) = Some v"
    proof -
      let ?m = "hd (js_split (CHR ''.'') ?t)"
      from run False obtain a where a: "map_of API_VERSIONS (CHR ''v'' # ?m) = Some a" "v = CHR ''v'' # ?m"
        "?t = ?m \<or> ?t = a \<or> starts_with (?t @ ''.'') a"
        by (auto simp: normalizeVersionToken_def Let_def split: if_splits option.splits)
      then consider "?m = ''1''" "a = ''1.0.0''" | "?m = ''2''" "a = ''2.0.0''" by (auto simp: API_VERSIONS_def split: if_splits)
      then show ?thesis
        using a starts_with_numeral [of "CHR ''1''" ?t] starts_with_numeral [of "CHR ''2''" ?t] by cases auto
    qed
    have "normalizeVersionToken (Some s) = Some ''v1''" if "?t \<in> {''1'', ''1.0'', ''1.0.0''}"
      using that num(1) same [OF trim_num] by auto
    moreover have "normalizeVersionToken (Some s) = Some ''v2''" if "?t \<in> {''2'', ''2.0'', ''2.0.0''}"
      using that num(2) same [OF trim_num] by auto
    ultimately show ?thesis using backward False by (auto simp: supported_iff)
  qed
qed

text \<open>
  The version header of a response is right: unless the path itself names a version that does not exist, a response that
  has not been sent gets the full number of the version that the path, else the header, else the default names; the
  deprecated version is marked.
\<close>

theorem version_header_present:
  assumes "case versionSegmentFromPath url of None \<Rightarrow> True | Some v \<Rightarrow> isSupportedVersion v"
  shows "\<exists>v n. v \<in> {''v1'', ''v2''} \<and> resolveRequestedVersion url header = v \<and> map_of API_VERSIONS v = Some n
     \<and> (''X-API-Version'', n) \<in> set (apiVersionHeader url header False)
     \<and> ((''Deprecation'', ''true'') \<in> set (apiVersionHeader url header False) \<longleftrightarrow> v = ''v1'')"
proof -
  have norm: "v = ''v1'' \<or> v = ''v2''" if "normalizeVersionToken header = Some v" for v
    using that normalizeVersionToken_exact [of _ v] by (cases header) (auto simp: normalizeVersionToken_def)
  have "resolveRequestedVersion url header \<in> {''v1'', ''v2''}"
    using assms norm
    by (auto simp: resolveRequestedVersion_def supported_iff DEFAULT_API_VERSION_def split: option.splits)
  then show ?thesis
    by (auto simp: apiVersionHeader_def applyApiVersionHeaders_def apiVersionHeaderValue_def API_VERSIONS_def DEFAULT_API_VERSION_def)
qed

text \<open>A path with an unknown version gets no header, although every response is said to carry one.\<close>

theorem unknown_version_unmarked: "apiVersionHeader (Some ''/api/v9/policies'') (Some ''1.0'') False = []"
  by code_simp

end
