(* ===== verification/Status_Events.thy ===== *)
theory Status_Events
  imports Prelude
begin

text \<open>
  Events about policies, claims and products, \<^verbatim>\<open>src/common/events/status-events.service.ts\<close>: one process with the emitter,
  its subscriptions to single policies, and the messages of other instances over Redis. A subscription to a policy of
  unknown holder waits for the database to say who holds it, and buffers events until then. Two parts of the state are not
  kept by the code: \<open>se_events\<close>, the events that were raised, and \<open>se_log\<close>, each channel and event the emitter was
  called with.
\<close>

section \<open>State\<close>

datatype status_event =
  PolicyStatusEvent string string int
| PolicyOracleKeyChangeEvent string string string "string option" int "string option"
| ClaimStatusChangeEvent string string string string int "string option"
| ProductUpdate "string option"

fun event_policy :: "status_event \<Rightarrow> string option" where
  "event_policy (PolicyStatusEvent i st t) = Some i"
| "event_policy (PolicyOracleKeyChangeEvent i old new actor t corr) = Some i"
| "event_policy (ClaimStatusChangeEvent c st st' actor t reason) = None"
| "event_policy (ProductUpdate i) = None"

record subscription =
  sb_policyId :: string
  sb_wallet :: "string option"
  sb_authorized :: "bool option"
  sb_unsubscribed :: bool
  sb_attached :: bool
  sb_pending :: "status_event list"
  sb_delivered :: "status_event list"
  sb_from :: nat

record status_events =
  se_instanceId :: string
  se_owners :: "(string \<times> string) list"
  se_subs :: "subscription list"
  se_prisma :: bool
  se_events :: "status_event list"
  se_log :: "(string \<times> status_event) list"
  se_published :: "(status_event \<times> string) list"

section \<open>Operations\<close>

definition policy_channel :: "string \<Rightarrow> string" where
  "policy_channel policyId = ''policy:'' @ policyId"

definition wrappedListener :: "status_event \<Rightarrow> subscription \<Rightarrow> subscription" where
  "wrappedListener ev sb =
     (if sb_unsubscribed sb then sb
      else case sb_authorized sb of
          Some False \<Rightarrow> sb
        | Some True \<Rightarrow> sb\<lparr>sb_delivered := sb_delivered sb @ [ev]\<rparr>
        | None \<Rightarrow> sb\<lparr>sb_pending := sb_pending sb @ [ev]\<rparr>)"

text \<open>The emitter calls every listener attached to the channel.\<close>

definition hear :: "string \<Rightarrow> status_event \<Rightarrow> subscription \<Rightarrow> subscription" where
  "hear channel ev sb = (if sb_attached sb \<and> policy_channel (sb_policyId sb) = channel then wrappedListener ev sb else sb)"

definition emit_on :: "status_event \<Rightarrow> string \<Rightarrow> status_events \<Rightarrow> status_events" where
  "emit_on ev channel s = s\<lparr>se_subs := map (hear channel ev) (se_subs s), se_log := se_log s @ [(channel, ev)]\<rparr>"

definition raise_event :: "string list \<Rightarrow> status_event \<Rightarrow> status_events \<Rightarrow> status_events" where
  "raise_event channels ev s = fold (emit_on ev) channels (s\<lparr>se_events := se_events s @ [ev]\<rparr>)"

definition publish :: "status_event \<Rightarrow> status_events \<Rightarrow> status_events" where
  "publish ev s = s\<lparr>se_published := se_published s @ [(ev, se_instanceId s)]\<rparr>"

definition emit_status_change :: "string \<Rightarrow> string \<Rightarrow> int \<Rightarrow> status_events \<Rightarrow> status_events" where
  "emit_status_change policyId status now s =
     (let ev = PolicyStatusEvent policyId status now in
      publish ev (raise_event [policy_channel policyId, ''status''] ev s))"

definition emitProductUpdate :: "string option \<Rightarrow> status_events \<Rightarrow> status_events" where
  "emitProductUpdate productId s = raise_event [''product:updated''] (ProductUpdate productId) s"

definition oracle_key_channels :: "string \<Rightarrow> string list" where
  "oracle_key_channels policyId = [policy_channel policyId @ '':oracleKey'', policy_channel policyId, ''policy:oracleKey'']"

definition emitPolicyOracleKeyChange ::
  "string \<Rightarrow> string \<Rightarrow> string \<Rightarrow> string option \<Rightarrow> int \<Rightarrow> string option \<Rightarrow> status_events \<Rightarrow> status_events" where
  "emitPolicyOracleKeyChange policyId old new actor now corr s =
     (let ev = PolicyOracleKeyChangeEvent policyId old new actor now corr in
      publish ev (raise_event (oracle_key_channels policyId) ev s))"

definition emitClaimStatusChange ::
  "string \<Rightarrow> string \<Rightarrow> string \<Rightarrow> string \<Rightarrow> int \<Rightarrow> string option \<Rightarrow> status_events \<Rightarrow> status_events" where
  "emitClaimStatusChange claimId st st' actor now reason s =
     raise_event [''claim:'' @ claimId, ''claim:status''] (ClaimStatusChangeEvent claimId st st' actor now reason) s"

text \<open>A message from Redis holds the fields of the event and its origin; \<open>None\<close> is one that does not parse.\<close>

definition handleRemoteEvent :: "(string \<times> string \<times> int \<times> string) option \<Rightarrow> status_events \<Rightarrow> status_events" where
  "handleRemoteEvent message s =
     (case message of
        None \<Rightarrow> s
      | Some (policyId, status, time, origin) \<Rightarrow>
          if origin = se_instanceId s then s
          else raise_event [policy_channel policyId] (PolicyStatusEvent policyId status time) s)"

definition handleRemoteOracleKeyEvent ::
  "(string \<times> string \<times> string \<times> string option \<times> int \<times> string option \<times> string) option \<Rightarrow> status_events \<Rightarrow> status_events" where
  "handleRemoteOracleKeyEvent message s =
     (case message of
        None \<Rightarrow> s
      | Some (policyId, old, new, actor, time, corr, origin) \<Rightarrow>
          if origin = se_instanceId s then s
          else raise_event (oracle_key_channels policyId) (PolicyOracleKeyChangeEvent policyId old new actor time corr) s)"

definition setPolicyOwner :: "string \<Rightarrow> string \<Rightarrow> status_events \<Rightarrow> status_events" where
  "setPolicyOwner policyId owner s = s\<lparr>se_owners := (policyId, owner) # se_owners s\<rparr>"

text \<open>An empty wallet counts as none; so does an empty owner.\<close>

definition given :: "string option \<Rightarrow> bool" where
  "given w \<longleftrightarrow> w \<noteq> None \<and> w \<noteq> Some []"

definition first_verdict :: "string option \<Rightarrow> string option \<Rightarrow> bool \<Rightarrow> bool option" where
  "first_verdict knownOwner wallet prisma =
     (if given wallet then
        (if given knownOwner then Some (knownOwner = wallet) else if prisma then None else Some True)
      else if \<not> prisma then Some True
      else Some False)"

definition subscribeToPolicyStatus :: "string \<Rightarrow> string option \<Rightarrow> status_events \<Rightarrow> unit outcome \<times> status_events" where
  "subscribeToPolicyStatus policyId wallet s =
     (let knownOwner = map_of (se_owners s) policyId in
      if given knownOwner \<and> given wallet \<and> knownOwner \<noteq> wallet
      then (Inl (ForbiddenException ''Subscriber does not own this policy''), s)
      else (Inr (), s\<lparr>se_subs := se_subs s @ [\<lparr>sb_policyId = policyId, sb_wallet = wallet,
               sb_authorized = first_verdict knownOwner wallet (se_prisma s), sb_unsubscribed = False, sb_attached = True,
               sb_pending = [], sb_delivered = [], sb_from = length (se_events s)\<rparr>]\<rparr>))"

text \<open>The answer of the database to the subscription: an error, no such policy, or its holder.\<close>

definition verified :: "string option outcome \<Rightarrow> subscription \<Rightarrow> subscription" where
  "verified answer sb =
     (case answer of
        Inl _ \<Rightarrow> sb\<lparr>sb_authorized := Some False, sb_pending := []\<rparr>
      | Inr holder \<Rightarrow>
          if sb_unsubscribed sb then sb
          else if holder \<noteq> None \<and> holder = sb_wallet sb
          then sb\<lparr>sb_authorized := Some True, sb_delivered := sb_delivered sb @ sb_pending sb, sb_pending := []\<rparr>
          else sb\<lparr>sb_authorized := Some False, sb_pending := [], sb_attached := False\<rparr>)"

definition verification_answered :: "nat \<Rightarrow> string option outcome \<Rightarrow> status_events \<Rightarrow> status_events" where
  "verification_answered k answer s =
     (let sb = se_subs s ! k; s' = s\<lparr>se_subs := (se_subs s)[k := verified answer sb]\<rparr> in
      case answer of
        Inr (Some holder) \<Rightarrow>
          if \<not> sb_unsubscribed sb \<and> Some holder = sb_wallet sb then setPolicyOwner (sb_policyId sb) holder s' else s'
      | _ \<Rightarrow> s')"

definition unsubscribe :: "nat \<Rightarrow> status_events \<Rightarrow> status_events" where
  "unsubscribe k s = s\<lparr>se_subs := (se_subs s)[k := (se_subs s ! k)\<lparr>sb_unsubscribed := True, sb_attached := False\<rparr>]\<rparr>"

section \<open>Runs\<close>

text \<open>
  \<open>holder\<close> is the holder of every policy, which never changes. The database answers each waiting subscription once, with
  the holder or an error; owners are announced truthfully.
\<close>

inductive events_run :: "(string \<Rightarrow> string option) \<Rightarrow> status_events \<Rightarrow> bool" for holder where
  start: "events_run holder \<lparr>se_instanceId = i, se_owners = [], se_subs = [], se_prisma = True, se_events = [], se_log = [], se_published = []\<rparr>"
| emit: "events_run holder s \<Longrightarrow> events_run holder (emit_status_change policyId status now s)"
| oracle_key: "events_run holder s \<Longrightarrow> events_run holder (emitPolicyOracleKeyChange policyId old new actor now corr s)"
| claim: "events_run holder s \<Longrightarrow> events_run holder (emitClaimStatusChange claimId st st' actor now reason s)"
| product: "events_run holder s \<Longrightarrow> events_run holder (emitProductUpdate productId s)"
| remote: "events_run holder s \<Longrightarrow> events_run holder (handleRemoteEvent message s)"
| remote_key: "events_run holder s \<Longrightarrow> events_run holder (handleRemoteOracleKeyEvent message' s)"
| owner: "events_run holder s \<Longrightarrow> holder policyId = Some w \<Longrightarrow> w \<noteq> [] \<Longrightarrow> events_run holder (setPolicyOwner policyId w s)"
| subscribe: "events_run holder s \<Longrightarrow> events_run holder (snd (subscribeToPolicyStatus policyId wallet s))"
| answer: "events_run holder s \<Longrightarrow> k < length (se_subs s) \<Longrightarrow> sb_authorized (se_subs s ! k) = None \<Longrightarrow>
    (case response of Inl _ \<Rightarrow> True | Inr h \<Rightarrow> h = holder (sb_policyId (se_subs s ! k))) \<Longrightarrow>
    events_run holder (verification_answered k response s)"
| leave: "events_run holder s \<Longrightarrow> k < length (se_subs s) \<Longrightarrow> events_run holder (unsubscribe k s)"

text \<open>
  What a subscription ought to have seen: the events of its policy since it began. Ids of policies are plain: they are not
  the name of a channel below \<open>policy:\<close>, which a UUID never is.
\<close>

definition due_events :: "status_events \<Rightarrow> subscription \<Rightarrow> status_event list" where
  "due_events s sb = filter (\<lambda>ev. event_policy ev = Some (sb_policyId sb)) (drop (sb_from sb) (se_events s))"

definition plain_id :: "string \<Rightarrow> bool" where
  "plain_id i \<longleftrightarrow> CHR '':'' \<notin> set i \<and> i \<noteq> ''oracleKey''"

definition sub_ok :: "(string \<Rightarrow> string option) \<Rightarrow> status_events \<Rightarrow> subscription \<Rightarrow> bool" where
  "sub_ok holder s sb \<longleftrightarrow> sb_from sb \<le> length (se_events s)
     \<and> (sb_delivered sb \<noteq> [] \<longrightarrow> sb_wallet sb \<noteq> None \<and> holder (sb_policyId sb) = sb_wallet sb)
     \<and> list_all (\<lambda>ev. event_policy ev = Some (sb_policyId sb)) (sb_delivered sb)
     \<and> (\<not> sb_unsubscribed sb \<longrightarrow>
          (case sb_authorized sb of
             Some True \<Rightarrow> sb_attached sb \<and> sb_delivered sb = due_events s sb
                \<and> sb_wallet sb \<noteq> None \<and> holder (sb_policyId sb) = sb_wallet sb
           | None \<Rightarrow> sb_attached sb \<and> sb_delivered sb = [] \<and> given (sb_wallet sb)
                \<and> (plain_id (sb_policyId sb) \<longrightarrow> sb_pending sb = due_events s sb)
           | Some False \<Rightarrow> sb_delivered sb = []))"

definition events_ok :: "(string \<Rightarrow> string option) \<Rightarrow> status_events \<Rightarrow> bool" where
  "events_ok holder s \<longleftrightarrow> se_prisma s \<and> list_all (sub_ok holder s) (se_subs s)
     \<and> (\<forall>i w. (i, w) \<in> set (se_owners s) \<longrightarrow> holder i = Some w \<and> w \<noteq> [])"

section \<open>One event on several channels\<close>

lemma raise_event_fields:
  "se_subs (raise_event channels ev s) = map (fold (\<lambda>c. hear c ev) channels) (se_subs s)"
  "se_events (raise_event channels ev s) = se_events s @ [ev]"
  "se_owners (raise_event channels ev s) = se_owners s"
  "se_prisma (raise_event channels ev s) = se_prisma s"
  "se_log (raise_event channels ev s) = se_log s @ map (\<lambda>c. (c, ev)) channels"
proof -
  have "se_subs (fold (emit_on ev) channels s) = map (fold (\<lambda>c. hear c ev) channels) (se_subs s)
      \<and> se_events (fold (emit_on ev) channels s) = se_events s
      \<and> se_owners (fold (emit_on ev) channels s) = se_owners s
      \<and> se_prisma (fold (emit_on ev) channels s) = se_prisma s
      \<and> se_log (fold (emit_on ev) channels s) = se_log s @ map (\<lambda>c. (c, ev)) channels" for s
    by (induction channels arbitrary: s) (simp_all add: emit_on_def)
  note f = this [of "s\<lparr>se_events := se_events s @ [ev]\<rparr>"]
  show "se_subs (raise_event channels ev s) = map (fold (\<lambda>c. hear c ev) channels) (se_subs s)"
    "se_events (raise_event channels ev s) = se_events s @ [ev]"
    "se_owners (raise_event channels ev s) = se_owners s"
    "se_prisma (raise_event channels ev s) = se_prisma s"
    "se_log (raise_event channels ev s) = se_log s @ map (\<lambda>c. (c, ev)) channels"
    using f by (simp_all add: raise_event_def)
qed

lemma wrappedListener_keeps [simp]:
  "sb_policyId (wrappedListener ev sb) = sb_policyId sb" "sb_attached (wrappedListener ev sb) = sb_attached sb"
  by (simp_all add: wrappedListener_def split: option.splits bool.splits)

text \<open>The channels of an event: one of them is the channel of its policy, and no other is the channel of a plain id.\<close>

definition channels_fit :: "string list \<Rightarrow> status_event \<Rightarrow> bool" where
  "channels_fit channels ev \<longleftrightarrow>
     (\<forall>i. plain_id i \<longrightarrow> filter (\<lambda>c. c = policy_channel i) channels = (if event_policy ev = Some i then [policy_channel i] else []))"

lemma plain_channels:
  assumes "plain_id i"
  shows "policy_channel i \<noteq> policy_channel j @ '':oracleKey''" "policy_channel i \<noteq> ''policy:oracleKey''"
proof -
  have "CHR '':'' \<notin> set i" "i \<noteq> ''oracleKey''" using assms by (simp_all add: plain_id_def)
  moreover have "policy_channel i = policy_channel j @ '':oracleKey'' \<Longrightarrow> i = j @ '':oracleKey''" by (simp add: policy_channel_def)
  ultimately show "policy_channel i \<noteq> policy_channel j @ '':oracleKey''" "policy_channel i \<noteq> ''policy:oracleKey''"
    by (auto simp: policy_channel_def)
qed

lemma policy_channel_inj [simp]: "policy_channel i = policy_channel j \<longleftrightarrow> i = j"
  by (simp add: policy_channel_def)

lemma channels_fit_intros:
  "channels_fit [policy_channel i, ''status''] (PolicyStatusEvent i st t)"
  "channels_fit [policy_channel i] (PolicyStatusEvent i st t)"
  "channels_fit (oracle_key_channels i) (PolicyOracleKeyChangeEvent i old new actor t corr)"
  "channels_fit [''claim:'' @ c, ''claim:status''] (ClaimStatusChangeEvent c st st' who t reason)"
  "channels_fit [''product:updated''] (ProductUpdate p)"
proof -
  have s: "''status'' \<noteq> policy_channel j" "''claim:'' @ c \<noteq> policy_channel j" "''claim:status'' \<noteq> policy_channel j"
    "''product:updated'' \<noteq> policy_channel j" for j c
    by (simp_all add: policy_channel_def)
  note p = plain_channels [THEN not_sym]
  show "channels_fit [policy_channel i, ''status''] (PolicyStatusEvent i st t)" by (simp add: channels_fit_def s)
  show "channels_fit [policy_channel i] (PolicyStatusEvent i st t)" by (simp add: channels_fit_def)
  show "channels_fit (oracle_key_channels i) (PolicyOracleKeyChangeEvent i old new actor t corr)"
    by (simp add: channels_fit_def oracle_key_channels_def p)
  show "channels_fit [''claim:'' @ c, ''claim:status''] (ClaimStatusChangeEvent c st st' who t reason)"
    by (simp add: channels_fit_def policy_channel_def)
  show "channels_fit [''product:updated''] (ProductUpdate p)" by (simp add: channels_fit_def s)
qed

lemma fold_hear:
  "fold (\<lambda>c. hear c ev) channels sb =
   (if sb_attached sb then fold (\<lambda>c. wrappedListener ev) (filter (\<lambda>c. c = policy_channel (sb_policyId sb)) channels) sb else sb)"
proof (induction channels arbitrary: sb)
  case Nil
  then show ?case by simp
next
  case (Cons c cs)
  then show ?case by (auto simp: hear_def)
qed

lemma fold_hear_plain:
  assumes "channels_fit channels ev" "plain_id (sb_policyId sb)"
  shows "fold (\<lambda>c. hear c ev) channels sb =
    (if sb_attached sb \<and> event_policy ev = Some (sb_policyId sb) then wrappedListener ev sb else sb)"
proof -
  have "filter (\<lambda>c. c = policy_channel (sb_policyId sb)) channels =
      (if event_policy ev = Some (sb_policyId sb) then [policy_channel (sb_policyId sb)] else [])"
    using assms by (simp add: channels_fit_def)
  then show ?thesis by (simp add: fold_hear)
qed

section \<open>Every step keeps the invariant\<close>

lemma due_raise:
  "sb_from sb \<le> length (se_events s) \<Longrightarrow>
   due_events (raise_event channels ev s) sb = due_events s sb @ (if event_policy ev = Some (sb_policyId sb) then [ev] else [])"
  by (simp add: due_events_def raise_event_fields)

lemma due_own: "list_all (\<lambda>ev. event_policy ev = Some (sb_policyId sb)) (due_events s sb)"
  by (simp add: due_events_def list_all_iff)

lemma due_update [simp]:
  "due_events s (sb\<lparr>sb_pending := x\<rparr>) = due_events s sb" "due_events s (sb\<lparr>sb_delivered := x\<rparr>) = due_events s sb"
  by (simp_all add: due_events_def)

lemma sub_ok_cong:
  assumes "se_events s' = se_events s"
  shows "sub_ok holder s' = sub_ok holder s"
  by (rule ext) (simp only: sub_ok_def due_events_def assms)

lemma sub_ok_from: "sub_ok holder s sb \<Longrightarrow> sb_from sb \<le> length (se_events s)"
  by (simp add: sub_ok_def)

lemma verdict_cases:
  obtains (gone) "sb_unsubscribed sb" | (yes) "\<not> sb_unsubscribed sb" "sb_authorized sb = Some True"
  | (no) "\<not> sb_unsubscribed sb" "sb_authorized sb = Some False" | (wait) "\<not> sb_unsubscribed sb" "sb_authorized sb = None"
  by (cases "sb_authorized sb") auto

lemma sub_ok_heard:
  assumes ok: "sub_ok holder s sb" and own: "event_policy ev = Some (sb_policyId sb)"
  shows "sub_ok holder (raise_event channels ev s) (wrappedListener ev sb)"
proof -
  have d: "due_events (raise_event channels ev s) sb = due_events s sb @ [ev]"
    using due_raise [OF sub_ok_from [OF ok], of channels ev] own by simp
  show ?thesis
  proof (cases rule: verdict_cases [of sb])
    case gone
    with ok show ?thesis by (simp add: sub_ok_def wrappedListener_def raise_event_fields)
  next
    case yes
    with ok d own show ?thesis by (simp add: sub_ok_def wrappedListener_def raise_event_fields due_own)
  next
    case no
    with ok show ?thesis by (simp add: sub_ok_def wrappedListener_def raise_event_fields)
  next
    case wait
    with ok d show ?thesis by (simp add: sub_ok_def wrappedListener_def raise_event_fields)
  qed
qed

lemma sub_ok_passed:
  assumes ok: "sub_ok holder s sb" and other: "\<not> (sb_attached sb \<and> event_policy ev = Some (sb_policyId sb))"
  shows "sub_ok holder (raise_event channels ev s) sb"
proof -
  have d: "due_events (raise_event channels ev s) sb = due_events s sb" if "sb_attached sb"
    using due_raise [OF sub_ok_from [OF ok], of channels ev] that other by simp
  show ?thesis
  proof (cases rule: verdict_cases [of sb])
    case gone
    with ok show ?thesis by (simp add: sub_ok_def raise_event_fields)
  next
    case yes
    with ok d show ?thesis by (simp add: sub_ok_def raise_event_fields due_own)
  next
    case no
    with ok show ?thesis by (simp add: sub_ok_def raise_event_fields)
  next
    case wait
    with ok d show ?thesis by (simp add: sub_ok_def raise_event_fields)
  qed
qed

text \<open>A subscription to an id that is no policy may buffer foreign events; it is never granted, so they are not delivered.\<close>

lemma sub_ok_strange:
  assumes ok: "sub_ok holder s sb" and odd: "\<not> plain_id (sb_policyId sb)" "holder (sb_policyId sb) = None"
  shows "sub_ok holder (raise_event channels ev s) (fold (\<lambda>c. wrappedListener ev) cs sb)"
proof -
  have step: "sub_ok holder s' (wrappedListener ev sb')"
    if "sub_ok holder s' sb'" "\<not> plain_id (sb_policyId sb')" "holder (sb_policyId sb') = None" for s' sb'
    using that by (cases rule: verdict_cases [of sb']) (auto simp: sub_ok_def wrappedListener_def)
  have "sub_ok holder (raise_event channels ev s) sb"
    using ok odd by (cases rule: verdict_cases [of sb]) (auto simp: sub_ok_def raise_event_fields)
  with odd show ?thesis
    by (induction cs arbitrary: sb) (simp_all add: step)
qed

definition plain_holders :: "(string \<Rightarrow> string option) \<Rightarrow> bool" where
  "plain_holders holder \<longleftrightarrow> (\<forall>i. holder i \<noteq> None \<longrightarrow> plain_id i)"

lemma sub_ok_raise:
  assumes ok: "sub_ok holder s sb" and fit: "channels_fit channels ev" and plain: "plain_holders holder"
  shows "sub_ok holder (raise_event channels ev s) (fold (\<lambda>c. hear c ev) channels sb)"
proof (cases "plain_id (sb_policyId sb)")
  case True
  then show ?thesis using sub_ok_heard [OF ok] sub_ok_passed [OF ok] by (simp add: fold_hear_plain [OF fit])
next
  case False
  with plain have none: "holder (sb_policyId sb) = None" by (auto simp: plain_holders_def)
  show ?thesis
    using sub_ok_strange [OF ok False none, of channels ev "filter (\<lambda>c. c = policy_channel (sb_policyId sb)) channels"]
      sub_ok_strange [OF ok False none, of channels ev "[]"]
    by (simp add: fold_hear)
qed

lemma events_ok_raise:
  assumes "events_ok holder s" "channels_fit channels ev" "plain_holders holder"
  shows "events_ok holder (raise_event channels ev s)"
  using assms sub_ok_raise by (simp add: events_ok_def raise_event_fields list_all_iff)

lemma events_ok_publish: "events_ok holder (publish ev s) = events_ok holder s"
proof -
  have "sub_ok holder (publish ev s) = sub_ok holder s" by (rule sub_ok_cong) (simp add: publish_def)
  then show ?thesis by (simp add: events_ok_def publish_def)
qed

lemma events_ok_subs:
  assumes "events_ok holder s" "list_all (sub_ok holder s) subs"
  shows "events_ok holder (s\<lparr>se_subs := subs\<rparr>)"
proof -
  have "sub_ok holder (s\<lparr>se_subs := subs\<rparr>) = sub_ok holder s" by (rule sub_ok_cong) simp
  with assms show ?thesis by (simp add: events_ok_def)
qed

lemma events_ok_owner:
  assumes "events_ok holder s" "holder i = Some w" "w \<noteq> []"
  shows "events_ok holder (setPolicyOwner i w s)"
proof -
  have "sub_ok holder (setPolicyOwner i w s) = sub_ok holder s" by (rule sub_ok_cong) (simp add: setPolicyOwner_def)
  with assms show ?thesis by (auto simp: events_ok_def setPolicyOwner_def)
qed

lemma sub_ok_nth: "events_ok holder s \<Longrightarrow> k < length (se_subs s) \<Longrightarrow> sub_ok holder s (se_subs s ! k)"
  by (simp add: events_ok_def list_all_length)

lemma events_ok_sub_update:
  assumes "events_ok holder s" "sub_ok holder s sb"
  shows "events_ok holder (s\<lparr>se_subs := (se_subs s)[k := sb]\<rparr>)"
proof -
  have "list_all (sub_ok holder s) ((se_subs s)[k := sb])"
    using assms set_update_subset_insert [of "se_subs s" k sb] by (auto simp: events_ok_def list_all_iff)
  with assms(1) show ?thesis by (rule events_ok_subs)
qed

lemma sub_ok_verified:
  assumes ok: "sub_ok holder s sb" and wait: "sb_authorized sb = None" and plain: "plain_holders holder"
    and truth: "case response of Inl _ \<Rightarrow> True | Inr h \<Rightarrow> h = holder (sb_policyId sb)"
  shows "sub_ok holder s (verified response sb)"
proof (cases response)
  case (Inl err)
  with ok wait show ?thesis by (auto simp: sub_ok_def verified_def)
next
  case (Inr h)
  have p: "plain_id (sb_policyId sb)" if "h \<noteq> None" using plain Inr truth that by (simp add: plain_holders_def)
  have "due_events s (verified response sb) = due_events s sb" by (simp add: Inr due_events_def verified_def)
  with Inr ok wait truth p show ?thesis
    by (cases "h = sb_wallet sb \<and> h \<noteq> None") (auto simp: sub_ok_def verified_def due_events_def list_all_iff)
qed

lemma sub_ok_fresh:
  assumes "v = Some True \<Longrightarrow> holder i = w \<and> w \<noteq> None" "v = None \<Longrightarrow> given w"
  shows "sub_ok holder s \<lparr>sb_policyId = i, sb_wallet = w, sb_authorized = v, sb_unsubscribed = False, sb_attached = True,
     sb_pending = [], sb_delivered = [], sb_from = length (se_events s)\<rparr>"
  using assms by (simp add: sub_ok_def due_events_def split: option.splits bool.splits)

lemma events_run_ok: "events_run holder s \<Longrightarrow> plain_holders holder \<Longrightarrow> events_ok holder s"
proof (induction rule: events_run.induct)
  case (start i)
  then show ?case by (simp add: events_ok_def)
next
  case (emit s policyId status now)
  then show ?case by (simp add: emit_status_change_def Let_def events_ok_publish events_ok_raise channels_fit_intros)
next
  case (oracle_key s policyId old new actor now corr)
  then show ?case by (simp add: emitPolicyOracleKeyChange_def Let_def events_ok_publish events_ok_raise channels_fit_intros)
next
  case (claim s claimId st st' actor now reason)
  then show ?case unfolding emitClaimStatusChange_def by (intro events_ok_raise channels_fit_intros) simp_all
next
  case (product s productId)
  then show ?case by (simp add: emitProductUpdate_def events_ok_raise channels_fit_intros)
next
  case (remote s message)
  then show ?case by (simp add: handleRemoteEvent_def events_ok_raise channels_fit_intros split: option.splits)
next
  case (remote_key s message)
  then show ?case by (simp add: handleRemoteOracleKeyEvent_def events_ok_raise channels_fit_intros split: option.splits)
next
  case (owner s policyId w)
  then show ?case by (simp add: events_ok_owner)
next
  case (subscribe s policyId wallet)
  note ok = subscribe.IH [OF subscribe.prems]
  let ?sb = "\<lparr>sb_policyId = policyId, sb_wallet = wallet,
     sb_authorized = first_verdict (map_of (se_owners s) policyId) wallet (se_prisma s), sb_unsubscribed = False, sb_attached = True,
     sb_pending = [], sb_delivered = [], sb_from = length (se_events s)\<rparr>"
  have known: "holder policyId = map_of (se_owners s) policyId" if "given (map_of (se_owners s) policyId)"
  proof (cases "map_of (se_owners s) policyId")
    case None
    with that show ?thesis by (simp add: given_def)
  next
    case (Some w)
    with ok map_of_SomeD [OF Some] show ?thesis by (simp add: events_ok_def)
  qed
  have "sub_ok holder s ?sb"
  proof (rule sub_ok_fresh)
    show "holder policyId = wallet \<and> wallet \<noteq> None" if "first_verdict (map_of (se_owners s) policyId) wallet (se_prisma s) = Some True"
      using that ok known by (auto simp: first_verdict_def given_def events_ok_def split: if_splits)
    show "given wallet" if "first_verdict (map_of (se_owners s) policyId) wallet (se_prisma s) = None"
      using that by (simp add: first_verdict_def split: if_splits)
  qed
  then have "list_all (sub_ok holder s) (se_subs s @ [?sb])" using ok by (simp add: events_ok_def)
  with ok have "events_ok holder (s\<lparr>se_subs := se_subs s @ [?sb]\<rparr>)" by (rule events_ok_subs)
  with ok show ?case by (simp add: subscribeToPolicyStatus_def Let_def)
next
  case (answer s k response)
  let ?sb = "se_subs s ! k"
  let ?s = "s\<lparr>se_subs := (se_subs s)[k := verified response ?sb]\<rparr>"
  note ok = answer.IH [OF answer.prems]
  have sb: "sub_ok holder s ?sb" using ok answer.hyps(2) by (rule sub_ok_nth)
  have ok': "events_ok holder ?s"
    by (rule events_ok_sub_update [OF ok sub_ok_verified [OF sb answer.hyps(3) answer.prems answer.hyps(4)]])
  have "events_ok holder (setPolicyOwner (sb_policyId ?sb) w ?s)"
    if "response = Inr (Some w)" "\<not> sb_unsubscribed ?sb" "Some w = sb_wallet ?sb" for w
    using that answer.hyps(3,4) sb by (intro events_ok_owner [OF ok']) (auto simp: sub_ok_def given_def)
  with ok' show ?case by (auto simp: verification_answered_def Let_def split: sum.splits option.splits)
next
  case (leave s k)
  note ok = leave.IH [OF leave.prems]
  have "sub_ok holder s (se_subs s ! k)" using ok leave.hyps(2) by (rule sub_ok_nth)
  then have "sub_ok holder s ((se_subs s ! k)\<lparr>sb_unsubscribed := True, sb_attached := False\<rparr>)" by (simp add: sub_ok_def)
  with ok show ?case unfolding unsubscribe_def by (rule events_ok_sub_update)
qed

section \<open>What subscribers receive\<close>

text \<open>C16. In every run, whatever a subscription was given is about its own policy, and it was given anything only if its
  wallet holds that policy. A subscription that is live and granted has received exactly the events of its policy since
  it began, each once and in order, the ones raised while the holder was being looked up included; one that waits or was
  refused has received nothing.\<close>

theorem subscription_faithful:
  assumes "events_run holder s" "plain_holders holder" "sb \<in> set (se_subs s)"
  shows "(sb_delivered sb \<noteq> [] \<longrightarrow> sb_wallet sb \<noteq> None \<and> holder (sb_policyId sb) = sb_wallet sb)
    \<and> list_all (\<lambda>ev. event_policy ev = Some (sb_policyId sb)) (sb_delivered sb)
    \<and> (\<not> sb_unsubscribed sb \<longrightarrow> sb_delivered sb = (if sb_authorized sb = Some True then due_events s sb else []))"
proof -
  have "sub_ok holder s sb" using events_run_ok [OF assms(1,2)] assms(3) by (simp add: events_ok_def list_all_iff)
  then show ?thesis by (cases rule: verdict_cases [of sb]) (simp_all add: sub_ok_def due_own)
qed

definition sample_events :: status_events where
  "sample_events = verification_answered 0 (Inr (Some ''GA''))
     (emit_status_change ''p2'' ''CLAIMED'' 6 (handleRemoteEvent (Some (''p1'', ''PROCESSING'', 5, ''other''))
        (snd (subscribeToPolicyStatus ''p1'' (Some ''GA'') \<lparr>se_instanceId = ''me'', se_owners = [], se_subs = [], se_prisma = True,
           se_events = [], se_log = [], se_published = []\<rparr>))))"

lemmas sample_events_simps = sample_events_def verification_answered_def verified_def emit_status_change_def
  handleRemoteEvent_def subscribeToPolicyStatus_def raise_event_def emit_on_def hear_def wrappedListener_def publish_def
  policy_channel_def first_verdict_def given_def setPolicyOwner_def due_events_def Let_def

lemma sample_events_run: "events_run (\<lambda>i. if i = ''p1'' then Some ''GA'' else None) sample_events"
  unfolding sample_events_def
  by (rule answer, rule emit, rule remote, rule subscribe, rule start) (simp_all add: sample_events_simps)

theorem subscription_faithful_witness:
  "sb_delivered (se_subs sample_events ! 0) = [PolicyStatusEvent ''p1'' ''PROCESSING'' 5]"
proof -
  have "plain_holders (\<lambda>i. if i = ''p1'' then Some ''GA'' else None)" by (simp add: plain_holders_def plain_id_def)
  from subscription_faithful [OF sample_events_run this, of "se_subs sample_events ! 0"]
  show ?thesis by (simp add: sample_events_simps)
qed

text \<open>A status event of another instance reaches the subscribers of its policy, but not the listeners on \<open>status\<close>: the
  cache of policy states keeps what it had until its time runs out. A change of the oracle key reaches both.\<close>

theorem remote_status_stays_cached:
  "map snd (filter (\<lambda>e. fst e = ''status'') (se_log (handleRemoteEvent message s))) =
   map snd (filter (\<lambda>e. fst e = ''status'') (se_log s))"
  by (simp add: handleRemoteEvent_def raise_event_fields policy_channel_def split: option.splits)

text \<open>An error of the database while the holder is looked up leaves the listener attached and refused for good: the
  holder receives nothing that is raised afterwards.\<close>

theorem failed_lookup_mutes:
  "sb_attached (verified (Inl e) sb) = sb_attached sb \<and> sb_delivered (wrappedListener ev (verified (Inl e) sb)) = sb_delivered sb"
  by (simp add: verified_def wrappedListener_def)

end
