(* ===== verification/Policy_Routes.thy ===== *)
theory Policy_Routes
  imports Purchase Access_Control Status_Events Claim_Payout
begin

text \<open>
  The routes of policies and products, \<^verbatim>\<open>src/policy/policy.controller.ts\<close>, over the services of the other theories: who
  may read, cancel or change a policy, quotes, the search (\<^verbatim>\<open>searchPolicies\<close> of \<^verbatim>\<open>src/policy/policy.service.ts\<close>), the stream of
  status events and the export as CSV. Text search in PostgreSQL, floating-point parsing and subtraction, and the text of a
  date are parameters.
\<close>

section \<open>Callers and paging\<close>

definition authedWallet :: "AuthenticatedRequest \<Rightarrow> string option" where
  "authedWallet ar =
     (let w = map_option jp_walletAddress (ar_user ar) in if present w then w else ar_wallet ar)"

text \<open>\<^verbatim>\<open>parseInt(text, 10) || d\<close>.\<close>

definition parse_or :: "int \<Rightarrow> string \<Rightarrow> int" where
  "parse_or d text = (case parseInt10 text of None \<Rightarrow> d | Some n \<Rightarrow> if n = 0 then d else n)"

definition pageNum :: "string \<Rightarrow> int" where
  "pageNum page = max 1 (parse_or 1 page)"

definition limitNum :: "string \<Rightarrow> int" where
  "limitNum limit = min 100 (max 1 (parse_or 20 limit))"

section \<open>Search\<close>

text \<open>Whether a document matches a query and how well, and the pattern match of the fall-back.\<close>

record search_lib =
  sl_matches :: "string \<Rightarrow> string \<Rightarrow> bool"
  sl_rank :: "string \<Rightarrow> string \<Rightarrow> rat"
  sl_like :: "string \<Rightarrow> string \<Rightarrow> bool"

definition search_document :: "Policy \<Rightarrow> string" where
  "search_document p = p_oracleKey p @ '' '' @ p_policyholder p @ '' '' @ (case p_txHash p of None \<Rightarrow> [] | Some h \<Rightarrow> h)"

definition of_wallet :: "string option \<Rightarrow> Policy \<Rightarrow> bool" where
  "of_wallet walletAddress p \<longleftrightarrow> (present walletAddress \<longrightarrow> Some (p_policyholder p) = walletAddress)"

definition text_hits :: "search_lib \<Rightarrow> string \<Rightarrow> string option \<Rightarrow> world \<Rightarrow> Policy list" where
  "text_hits lib q walletAddress w =
     sort_key (\<lambda>p. (- sl_rank lib q (search_document p), - p_createdAt p))
       (filter (\<lambda>p. sl_matches lib q (search_document p) \<and> of_wallet walletAddress p) (policies w))"

definition like_hits :: "search_lib \<Rightarrow> string \<Rightarrow> string option \<Rightarrow> world \<Rightarrow> Policy list" where
  "like_hits lib q walletAddress w =
     sort_key (\<lambda>p. - p_createdAt p)
       (filter (\<lambda>p. of_wallet walletAddress p
          \<and> (sl_like lib q (p_oracleKey p) \<or> sl_like lib q (p_policyholder p) \<or> (\<exists>h \<in> set_option (p_txHash p). sl_like lib q h)))
          (policies w))"

definition search_page :: "(world \<Rightarrow> Policy list) \<Rightarrow> int \<Rightarrow> int \<Rightarrow> (PolicySummary list \<times> int) act" where
  "search_page hits limit offset =
     bind (asks e_decStr) (\<lambda>decStr.
     bind (db (s_query (\<lambda>w. take (nat limit) (drop (nat offset) (hits w))))) (\<lambda>rows.
     bind (db (s_query (\<lambda>w. int (length (hits w))))) (\<lambda>tot.
     ret (map (\<lambda>p. policySummary decStr p 0) rows, tot))))"

definition searchPolicies :: "search_lib \<Rightarrow> string \<Rightarrow> string option \<Rightarrow> int \<Rightarrow> int \<Rightarrow> (PolicySummary list \<times> int) act" where
  "searchPolicies lib query walletAddress page limit =
     (let clampedLimit = min (max 1 limit) 100; offset = (max 1 page - 1) * clampedLimit; sanitizedQuery = trim query in
      if sanitizedQuery = [] then
        (if present walletAddress then getUserPolicies (the walletAddress) page clampedLimit else ret ([], 0))
      else
        catch (search_page (text_hits lib sanitizedQuery walletAddress) clampedLimit offset)
          (\<lambda>_. search_page (like_hits lib sanitizedQuery walletAddress) clampedLimit offset))"

section \<open>Reading routes\<close>

definition NOT_AUTHENTICATED :: string where
  "NOT_AUTHENTICATED = ''Not authenticated. Please log in with a valid JWT token or Stellar wallet signature.''"

definition getProducts :: "string \<Rightarrow> string \<Rightarrow> (ProductSummary list \<times> int) act" where
  "getProducts page limit = getActiveProducts (pageNum page) (limitNum limit)"

definition getMyPolicies ::
  "search_lib \<Rightarrow> string \<Rightarrow> string \<Rightarrow> string option \<Rightarrow> AuthenticatedRequest \<Rightarrow> (PolicySummary list \<times> int) act" where
  "getMyPolicies lib page limit q ar =
     (let wallet = authedWallet ar in
      if \<not> present wallet then throw (BadRequestException NOT_AUTHENTICATED)
      else if present q \<and> trim (the q) \<noteq> [] then searchPolicies lib (trim (the q)) wallet (pageNum page) (limitNum limit)
      else getUserPolicies (the wallet) (pageNum page) (limitNum limit))"

definition searchPolicies_route ::
  "search_lib \<Rightarrow> string \<Rightarrow> string \<Rightarrow> string \<Rightarrow> AuthenticatedRequest \<Rightarrow> (PolicySummary list \<times> int) act" where
  "searchPolicies_route lib q page limit ar =
     (let wallet = authedWallet ar in
      if \<not> present wallet then throw (BadRequestException NOT_AUTHENTICATED)
      else searchPolicies lib q wallet (pageNum page) (limitNum limit))"

text \<open>The steps with which the routes of one policy begin: 404 without the policy, 403 for a foreign one.\<close>

definition owned_policy :: "string \<Rightarrow> string option \<Rightarrow> PolicySummary act" where
  "owned_policy policyId wallet =
     bind (getPolicy policyId) (\<lambda>policyData.
     case policyData of
       None \<Rightarrow> throw (NotFoundException (''Policy '' @ policyId @ '' not found''))
     | Some sm \<Rightarrow>
         if Some (sm_policyholder sm) \<noteq> wallet then throw (ForbiddenException ''Policy belongs to a different wallet'')
         else ret sm)"

definition getPolicy_route :: "string \<Rightarrow> AuthenticatedRequest \<Rightarrow> PolicySummary act" where
  "getPolicy_route policyId ar = owned_policy policyId (authedWallet ar)"

section \<open>Quotes and purchases\<close>

record float_lib =
  fl_parseFloat :: "string \<Rightarrow> jsnum"
  fl_minus :: "jsnum \<Rightarrow> jsnum \<Rightarrow> jsnum"

definition validatePoolCapacity :: "float_lib \<Rightarrow> jsnum \<Rightarrow> unit act" where
  "validatePoolCapacity fl coverageXlm =
     bind (asks (\<lambda>e. fl_parseFloat fl (case e_config e ''POOL_CAPACITY_XLM'' of None \<Rightarrow> ''0'' | Some t \<Rightarrow> t))) (\<lambda>poolCapacity.
     if js_less poolCapacity (js_int 0) \<or> poolCapacity = js_int 0 then ret ()
     else
       bind (asks e_decStr) (\<lambda>decStr.
       bind (db (s_query (\<lambda>w. filter (\<lambda>p. p_status p = P_ACTIVE) (policies w)))) (\<lambda>rows.
       let committed = (if rows = [] then js_int 0 else fl_parseFloat fl (decStr (sum_list (map p_coverageXlm rows)))) in
       if js_less (fl_minus fl poolCapacity committed) coverageXlm
       then throw (BadRequestException ''Requested coverage exceeds available pool capacity'')
       else ret ())))"

record quote =
  q_productId :: string
  q_productName :: string
  q_coverageXlm :: jsnum
  q_premiumXlm :: int
  q_duration :: int
  q_wallet :: string

definition buyPolicy :: "float_lib \<Rightarrow> BuyPolicyDto \<Rightarrow> AuthenticatedRequest \<Rightarrow> quote act" where
  "buyPolicy fl dto ar =
     (if Some (d_walletAddress dto) \<noteq> authedWallet ar
      then throw (ForbiddenException ''Wallet address in request does not match the authenticated wallet'')
      else
        bind (getProductById (d_productId dto)) (\<lambda>found.
        case found of
          None \<Rightarrow> throw (NotFoundException (''Product '' @ d_productId dto @ '' not found''))
        | Some product \<Rightarrow>
            bind (validateCoverage (d_coverageXlm dto) product (Some (d_oracleKey dto))) (\<lambda>invalid.
            case invalid of
              Some reason \<Rightarrow> throw (BadRequestException reason)
            | None \<Rightarrow>
                seq (validatePoolCapacity fl (d_coverageXlm dto))
                (bind (lift (calculatePremium (d_coverageXlm dto) (js_int (ps_premiumRate product)) (js_int (d_duration dto)))) (\<lambda>premiumXlm.
                 ret \<lparr>q_productId = d_productId dto, q_productName = ps_name product, q_coverageXlm = d_coverageXlm dto,
                      q_premiumXlm = premiumXlm, q_duration = d_duration dto, q_wallet = d_walletAddress dto\<rparr>)))))"

definition confirmPolicy :: "rpc_lib \<Rightarrow> xdr_lib \<Rightarrow> string \<Rightarrow> BuyPolicyDto \<Rightarrow> AuthenticatedRequest \<Rightarrow> (string \<times> string) act" where
  "confirmPolicy lib xl signedXdr dto ar =
     (let wallet = authedWallet ar in
      if \<not> present wallet then throw (UnauthorizedException NOT_AUTHENTICATED)
      else if Some (d_walletAddress dto) \<noteq> wallet
      then throw (ForbiddenException ''Wallet address in request does not match the authenticated wallet'')
      else confirmAndCreatePolicy lib xl signedXdr dto (the wallet))"

section \<open>Changing routes\<close>

definition cancelPolicy_route :: "string \<Rightarrow> AuthenticatedRequest \<Rightarrow> (PolicySummary \<times> string) act" where
  "cancelPolicy_route policyId ar = seq (owned_policy policyId (authedWallet ar)) (cancelPolicy policyId)"

definition updatePolicy_route :: "string \<Rightarrow> UpdatePolicyDto \<Rightarrow> AuthenticatedRequest \<Rightarrow> PolicySummary act" where
  "updatePolicy_route policyId dto ar =
     (let wallet = authedWallet ar in
      if \<not> present wallet then throw (UnauthorizedException ''Not authenticated'')
      else seq (owned_policy policyId wallet) (updatePolicy policyId dto wallet))"

text \<open>The admin routes of products stand behind both guards.\<close>

definition createProduct_route :: "guard_lib \<Rightarrow> request \<Rightarrow> Product \<Rightarrow> ProductStatus option \<Rightarrow> ProductSummary act" where
  "createProduct_route lib rq dto st = seq (admin_route lib rq) (createProduct dto st)"

definition updateProduct_route :: "guard_lib \<Rightarrow> request \<Rightarrow> string \<Rightarrow> UpdateProductDto \<Rightarrow> ProductSummary act" where
  "updateProduct_route lib rq productId dto = seq (admin_route lib rq) (updateProduct productId dto)"

definition deactivateProduct_route :: "guard_lib \<Rightarrow> request \<Rightarrow> string \<Rightarrow> ProductSummary act" where
  "deactivateProduct_route lib rq productId = seq (admin_route lib rq) (deactivateProduct productId)"

section \<open>The stream of status events\<close>

datatype sse = SseData status_event | SseHeartbeat int | SseError exn

definition open_stream :: "string \<Rightarrow> string option \<Rightarrow> string \<Rightarrow> int \<Rightarrow> status_events \<Rightarrow> sse list \<times> status_events" where
  "open_stream policyId wallet status now s =
     (case subscribeToPolicyStatus policyId wallet s of
        (Inl x, s') \<Rightarrow> ([SseData (PolicyStatusEvent policyId status now), SseError x], s')
      | (Inr _, s') \<Rightarrow> ([SseData (PolicyStatusEvent policyId status now)], s'))"

definition policyStatusEvents :: "string \<Rightarrow> AuthenticatedRequest \<Rightarrow> status_events \<Rightarrow> (sse list \<times> status_events) act" where
  "policyStatusEvents policyId ar s =
     bind (owned_policy policyId (authedWallet ar)) (\<lambda>policyData.
     bind clock (\<lambda>now.
     ret (open_stream policyId (authedWallet ar) (sm_status policyData) now s)))"

text \<open>A beat of an open stream: what it writes and whether it closes. An error of the lookup is ignored.\<close>

definition heartbeat :: "PolicySummary option outcome \<Rightarrow> string option \<Rightarrow> int \<Rightarrow> sse list \<times> bool" where
  "heartbeat currentPolicy wallet now =
     (case currentPolicy of
        Inl _ \<Rightarrow> ([SseHeartbeat now], False)
      | Inr None \<Rightarrow> ([SseError (ForbiddenException ''Policy authorization revoked'')], True)
      | Inr (Some sm) \<Rightarrow>
          if Some (sm_policyholder sm) \<noteq> wallet then ([SseError (ForbiddenException ''Policy authorization revoked'')], True)
          else ([SseHeartbeat now], False))"

section \<open>Export\<close>

record export_row =
  xr_id :: string
  xr_status :: string
  xr_premium :: string
  xr_coverage :: string
  xr_createdAt :: int

definition export_row_of :: "(int \<Rightarrow> string) \<Rightarrow> Policy \<Rightarrow> export_row" where
  "export_row_of decStr p = \<lparr>xr_id = p_id p, xr_status = status_str (p_status p), xr_premium = decStr (p_premiumPaid p),
     xr_coverage = decStr (p_coverageXlm p), xr_createdAt = p_createdAt p\<rparr>"

definition rows_by_id :: "(string \<Rightarrow> int) \<Rightarrow> world \<Rightarrow> Policy list" where
  "rows_by_id rank w = sort_key (\<lambda>p. rank (p_id p)) (policies w)"

text \<open>A cursor with a skip of one: the rows after the one it names, none if that one is not there.\<close>

definition after_cursor :: "string option \<Rightarrow> Policy list \<Rightarrow> Policy list" where
  "after_cursor cursor rows = (if present cursor then drop 1 (dropWhile (\<lambda>p. Some (p_id p) \<noteq> cursor) rows) else rows)"

definition findAll :: "nat \<Rightarrow> string option \<Rightarrow> export_row list act" where
  "findAll tk cursor =
     bind (asks (\<lambda>e. (e_collation e, e_decStr e))) (\<lambda>(rank, decStr).
     bind (db (s_query (\<lambda>w. take tk (after_cursor cursor (rows_by_id rank w))))) (\<lambda>rows.
     ret (map (export_row_of decStr) rows)))"

definition csv_line :: "(int \<Rightarrow> string) \<Rightarrow> export_row \<Rightarrow> string" where
  "csv_line dateStr r = xr_id r @ '','' @ xr_status r @ '','' @ xr_premium r @ '','' @ xr_coverage r @ '','' @ dateStr (xr_createdAt r) @ [CHR 0x0A]"

definition batchSize :: nat where
  "batchSize = 100"

fun export_loop :: "nat \<Rightarrow> (int \<Rightarrow> string) \<Rightarrow> string option \<Rightarrow> string list option act" where
  "export_loop 0 dateStr cursor = ret None"
| "export_loop (Suc fuel) dateStr cursor =
     bind (findAll batchSize cursor) (\<lambda>batch.
     let lines = map (csv_line dateStr) batch;
         next = (if length batch = batchSize then Some (xr_id (List.last batch)) else None) in
     if present next then bind (export_loop fuel dateStr next) (\<lambda>rest. ret (map_option (\<lambda>ls. lines @ ls) rest))
     else ret (Some lines))"

definition exportCsv :: "nat \<Rightarrow> (int \<Rightarrow> string) \<Rightarrow> AuthenticatedRequest \<Rightarrow> string list option act" where
  "exportCsv fuel dateStr ar =
     bind (export_loop fuel dateStr None) (\<lambda>lines.
     ret (map_option (\<lambda>ls. (''id,status,premium,coverage,createdAt'' @ [CHR 0x0A]) # ls) lines))"

section \<open>Routes that only read\<close>

text \<open>What the others do alone: any number of their steps.\<close>

definition others :: "env \<Rightarrow> world \<Rightarrow> world \<Rightarrow> bool" where
  "others e = (\<lambda>v v'. \<exists>n. v' = e_rely e n v)\<^sup>*\<^sup>*"

interpretation oth: world_order "others e" for e
  by unfold_locales (auto simp: others_def)

lemma others_step: "others e v (e_rely e n v)"
  unfolding others_def by blast

lemma others_evolves: "others e v v' \<Longrightarrow> \<forall>n u. evolves u (e_rely e n u) \<Longrightarrow> evolves v v'"
  unfolding others_def by (induction rule: rtranclp_induct) (auto intro: evolves_trans)

lemma exists_within: "command_within (others e) (EXISTS k)"
  by (simp add: command_within_def EXISTS_def oth.R_refl)

lemma reads_only:
  "guarantees (others e) (getPolicy i)" "guarantees (others e) (jwt_canActivate lib rq)" "guarantees (others e) (owned_policy i wallet)"
proof -
  show p: "guarantees (others e) (getPolicy i)" for i
    unfolding getPolicy_def find_with_count_def
    by (auto intro!: oth.guar split: option.splits SimResult.splits)
  show "guarantees (others e) (jwt_canActivate lib rq)"
    unfolding jwt_canActivate_def verifyAsync_def verify_def
    by (auto intro!: oth.guar oth.guar_redis exists_within split: option.splits sum.splits prod.splits)
  show "guarantees (others e) (owned_policy i wallet)"
    unfolding owned_policy_def using p by (auto intro!: oth.guar split: option.splits)
qed

lemma runs_as_others:
  assumes "guarantees (others e) m"
  shows "others e (snd s) (snd (snd (m e s)))"
  using assms others_step unfolding guarantees_def by blast

lemma owned_foreign:
  assumes rely: "\<forall>n u. evolves u (e_rely e n u)" and row: "policy_findUnique i w = Some p"
    and foreign: "wallet \<noteq> Some (p_policyholder p)"
  shows "\<exists>x s'. owned_policy i wallet e (n, w) = (Inl x, s')"
proof -
  let ?v = "e_rely e n w"
  have "evolves w ?v" using rely by blast
  then obtain q where q: "policy_findUnique i ?v = Some q" "p_policyholder q = p_policyholder p"
    using evolves_policy [OF _ row] unfolding policy_evolves_def by metis
  show ?thesis
    using q foreign
    by (cases "e_dbfail e n")
      (auto simp: owned_policy_def getPolicy_def bind_def asks_def db_def Let_def find_with_count_def s_query_def ret_def throw_def
        policySummary_def)
qed

text \<open>The calls about one policy, behind the guard for tokens.\<close>

datatype policy_call = ReadCall | CancelCall | UpdateCall UpdatePolicyDto | StreamCall status_events

fun policy_handler :: "string \<Rightarrow> AuthenticatedRequest \<Rightarrow> policy_call \<Rightarrow> unit act" where
  "policy_handler i ar ReadCall = seq (getPolicy_route i ar) (ret ())"
| "policy_handler i ar CancelCall = seq (cancelPolicy_route i ar) (ret ())"
| "policy_handler i ar (UpdateCall dto) = seq (updatePolicy_route i dto ar) (ret ())"
| "policy_handler i ar (StreamCall s) = seq (policyStatusEvents i ar s) (ret ())"

definition policy_request :: "guard_lib \<Rightarrow> request \<Rightarrow> string \<Rightarrow> policy_call \<Rightarrow> unit act" where
  "policy_request lib rq i c = bind (jwt_canActivate lib rq) (\<lambda>ar. policy_handler i ar c)"

lemma bind_refused: "m e s = (Inl x, s') \<Longrightarrow> bind m f e s = (Inl x, s')"
  by (simp add: bind_def)

lemma handler_refused:
  assumes "owned_policy i (authedWallet ar) e s = (Inl x, s')"
  shows "policy_handler i ar c e s = (Inl x, s') \<or> (\<exists>y. policy_handler i ar c e s = (Inl y, s))"
  using assms
  by (cases c) (auto simp: getPolicy_route_def cancelPolicy_route_def updatePolicy_route_def policyStatusEvents_def Let_def
      bind_refused throw_def intro!: bind_refused)

text \<open>C9. A policy is closed to strangers: when the token of a request does not name the policyholder, the four routes of the
  policy controller that take the id of a policy (reading it, cancelling it, changing it, its stream of events) end with an error
  and the request itself has changed nothing at all; the world is as the others left it. The export of all policies and the
  derived state in the claims controller are not among these routes and have no such check.\<close>

theorem foreign_request_inert:
  assumes rely: "\<forall>n u. evolves u (e_rely e n u)" and row: "policy_findUnique i w = Some p"
    and token: "\<forall>s ar s'. jwt_canActivate lib rq e s = (Inr ar, s') \<longrightarrow> authedWallet ar \<noteq> Some (p_policyholder p)"
  shows "\<exists>x n' w'. policy_request lib rq i c e (n, w) = (Inl x, (n', w')) \<and> others e w w'"
proof -
  obtain r n1 w1 where run: "jwt_canActivate lib rq e (n, w) = (r, (n1, w1))" by (metis prod.exhaust)
  have "others e w (snd (snd (jwt_canActivate lib rq e (n, w))))" by (rule runs_as_others [OF reads_only(2), where s = "(n, w)", simplified])
  with run have o1: "others e w w1" by simp
  show ?thesis
  proof (cases r)
    case (Inl x)
    with run o1 show ?thesis unfolding policy_request_def by (metis bind_refused)
  next
    case (Inr ar)
    obtain q where q: "policy_findUnique i w1 = Some q" "p_policyholder q = p_policyholder p"
      using evolves_policy [OF others_evolves [OF o1 rely] row] unfolding policy_evolves_def by metis
    have "authedWallet ar \<noteq> Some (p_policyholder q)" using token run Inr q(2) by metis
    then obtain x s2 where ref: "owned_policy i (authedWallet ar) e (n1, w1) = (Inl x, s2)"
      using owned_foreign [OF rely q(1)] by blast
    have "others e w1 (snd (snd (owned_policy i (authedWallet ar) e (n1, w1))))"
      by (rule runs_as_others [OF reads_only(3), where s = "(n1, w1)", simplified])
    with ref have o2: "others e w1 (snd s2)" by simp
    have "policy_request lib rq i c e (n, w) = policy_handler i ar c e (n1, w1)"
      using run Inr by (simp add: policy_request_def bind_def)
    with handler_refused [OF ref, of c] o1 o2 oth.R_trans [OF o1 o2] show ?thesis by (metis prod.collapse)
  qed
qed

section \<open>Listings\<close>

lemma search_page_own:
  assumes "search_page hits limit offset e s = (Inr (data, tot), s')" "\<And>w p. p \<in> set (hits w) \<Longrightarrow> p_policyholder p = wallet"
  shows "(\<forall>sm \<in> set data. sm_policyholder sm = wallet) \<and> length data \<le> nat limit"
proof -
  from assms(1) obtain decStr w where "data = map (\<lambda>p. policySummary decStr p 0) (take (nat limit) (drop (nat offset) (hits w)))"
    unfolding search_page_def by (auto simp: returns)
  then show ?thesis using assms(2) by (auto simp: policySummary_def dest!: in_set_takeD in_set_dropD)
qed

lemma hits_own:
  "p \<in> set (text_hits lib q (Some (c # cs)) w) \<Longrightarrow> p_policyholder p = c # cs"
  "p \<in> set (like_hits lib q (Some (c # cs)) w) \<Longrightarrow> p_policyholder p = c # cs"
  by (simp_all add: text_hits_def like_hits_def of_wallet_def present_def)

lemma paginate_set: "paginate tk sk xs = Inr ys \<Longrightarrow> set ys \<subseteq> set xs \<and> length ys \<le> nat \<bar>tk\<bar>"
  by (auto simp: paginate_def split: if_splits dest!: in_set_takeD in_set_dropD)

lemma user_policies_own:
  assumes "getUserPolicies wallet page limit e s = (Inr (data, tot), s')" "1 \<le> limit"
  shows "(\<forall>sm \<in> set data. sm_policyholder sm = wallet) \<and> length data \<le> 100"
proof -
  from assms(1) obtain decStr w rank pg where pg: "paginate (min (min limit 100) 100) ((page - 1) * min (min limit 100) 100)
      (map (\<lambda>p. (p, claims_count w (p_id p))) (by_creation rank (filter (\<lambda>p. p_policyholder p = wallet) (policies w)))) = Inr pg"
    and data: "data = map (\<lambda>(p, n). policySummary decStr p n) pg"
    unfolding getUserPolicies_def findByPolicyholder_def Let_def by (auto simp: returns split: sum.splits)
  from paginate_set [OF pg] assms(2) show ?thesis by (force simp: data by_creation_def policySummary_def)
qed

text \<open>Listings and searches of a wallet show only policies of that wallet, at most a hundred at a time, whichever of
  the two search paths answers and whatever page and limit were asked for.\<close>

theorem listing_own:
  assumes "getMyPolicies lib page limit q ar e s = (Inr (data, tot), s')"
  shows "(\<forall>sm \<in> set data. Some (sm_policyholder sm) = authedWallet ar) \<and> length data \<le> 100"
proof -
  from assms obtain c cs where w: "authedWallet ar = Some (c # cs)"
    unfolding getMyPolicies_def Let_def by (auto simp: returns present_def neq_Nil_conv)
  have lim: "1 \<le> limitNum limit" "limitNum limit \<le> 100" by (simp_all add: limitNum_def)
  have user: "(\<forall>sm \<in> set data. sm_policyholder sm = c # cs) \<and> length data \<le> 100"
    if "getUserPolicies (c # cs) k l e s = (Inr (data, tot), s')" "1 \<le> l" for k l
    using that by (rule user_policies_own)
  have page: "(\<forall>sm \<in> set data. sm_policyholder sm = c # cs) \<and> length data \<le> 100"
    if "search_page hits l off e s0 = (Inr (data, tot), s')" "\<And>v p. p \<in> set (hits v) \<Longrightarrow> p_policyholder p = c # cs" "l \<le> 100"
    for hits l off s0
  proof -
    have "(\<forall>sm \<in> set data. sm_policyholder sm = c # cs) \<and> length data \<le> nat l" by (rule search_page_own [OF that(1,2)])
    moreover have "nat l \<le> 100" using that(3) by simp
    ultimately show ?thesis by (meson le_trans)
  qed
  have "(\<forall>sm \<in> set data. sm_policyholder sm = c # cs) \<and> length data \<le> 100"
  proof (cases "present q \<and> trim (the q) \<noteq> []")
    case True
    with assms w have "searchPolicies lib (trim (the q)) (Some (c # cs)) (pageNum page) (limitNum limit) e s = (Inr (data, tot), s')"
      by (simp add: getMyPolicies_def Let_def present_def)
    then consider (plain) l where "getUserPolicies (c # cs) (pageNum page) l e s = (Inr (data, tot), s')" "1 \<le> l"
      | (found) hits l off s0 where "search_page hits l off e s0 = (Inr (data, tot), s')"
        "hits = text_hits lib (trim (trim (the q))) (Some (c # cs)) \<or> hits = like_hits lib (trim (trim (the q))) (Some (c # cs))" "l \<le> 100"
      unfolding searchPolicies_def Let_def using lim by (cases s) (auto simp: catch_Inr present_def split: if_splits)
    then show ?thesis
    proof cases
      case plain
      then show ?thesis by (rule user)
    next
      case found
      have "p_policyholder p = c # cs" if "p \<in> set (hits v)" for v p using found(2) that hits_own by blast
      from page [OF found(1) this found(3)] show ?thesis .
    qed
  next
    case False
    with assms w have "getUserPolicies (c # cs) (pageNum page) (limitNum limit) e s = (Inr (data, tot), s')"
      by (auto simp: getMyPolicies_def Let_def present_def)
    then show ?thesis using lim(1) by (rule user)
  qed
  with w show ?thesis by simp
qed

section \<open>Quotes\<close>

lemma product_lookup:
  assumes "getProductById i e s = (Inr (Some product), s')" "\<forall>n v. products (e_rely e n v) = products v"
  shows "\<exists>r. List.find (\<lambda>r. pr_id r = i \<and> pr_status r = PR_ACTIVE) (products (snd s)) = Some r
     \<and> ps_premiumRate product = pr_premiumRate r"
  using assms by (auto simp: getProductById_def returns mapProduct_def dest!: sym [of "Some product"])

lemma buyPolicy_priced:
  assumes "buyPolicy fl dto ar e s = (Inr q, s')"
  shows "\<exists>product s1. getProductById (d_productId dto) e s = (Inr (Some product), s1)
     \<and> calculatePremium (d_coverageXlm dto) (js_int (ps_premiumRate product)) (js_int (d_duration dto)) = Inr (q_premiumXlm q)
     \<and> q_wallet q = d_walletAddress dto \<and> authedWallet ar = Some (d_walletAddress dto)"
  using assms unfolding buyPolicy_def by (auto simp: returns)

lemma createPolicy_priced:
  assumes "createPolicy dto h e (n, w) = (Inr p, s')"
  shows "\<exists>product s1. getProductById (d_productId dto) e (Suc n, w) = (Inr (Some product), s1)
     \<and> calculatePremium (d_coverageXlm dto) (js_int (ps_premiumRate product)) (js_int (d_duration dto)) = Inr (p_premiumPaid p div 10000000)
     \<and> p_premiumPaid p mod 10000000 = 0"
  using assms unfolding createPolicy_def Let_def returns
  by (auto simp: policy_create_def new_policy_def STROOPS_PER_XLM_def Let_def split: if_splits)

text \<open>A quote is honoured: as long as the products do not change, the policy that is created for the quoted request
  costs exactly the quoted premium, and the quote was made for the wallet of the caller.\<close>

theorem quote_honoured:
  assumes "buyPolicy fl dto ar e (n, w) = (Inr q, s1)" "createPolicy dto h e' (m, v) = (Inr p, s2)"
    and "\<forall>k u. products (e_rely e k u) = products u" "\<forall>k u. products (e_rely e' k u) = products u" "products v = products w"
  shows "p_premiumPaid p = q_premiumXlm q * 10000000 \<and> q_wallet q = p_policyholder p \<and> authedWallet ar = Some (p_policyholder p)"
proof -
  from buyPolicy_priced [OF assms(1)] obtain pr r where b: "getProductById (d_productId dto) e (n, w) = (Inr (Some pr), r)"
    "calculatePremium (d_coverageXlm dto) (js_int (ps_premiumRate pr)) (js_int (d_duration dto)) = Inr (q_premiumXlm q)"
    "q_wallet q = d_walletAddress dto" "authedWallet ar = Some (d_walletAddress dto)" by blast
  from createPolicy_priced [OF assms(2)] obtain pr' r' where c: "getProductById (d_productId dto) e' (Suc m, v) = (Inr (Some pr'), r')"
    "calculatePremium (d_coverageXlm dto) (js_int (ps_premiumRate pr')) (js_int (d_duration dto)) = Inr (p_premiumPaid p div 10000000)"
    "p_premiumPaid p mod 10000000 = 0" by (elim exE conjE)
  have "ps_premiumRate pr' = ps_premiumRate pr"
    using product_lookup [OF b(1) assms(3)] product_lookup [OF c(1) assms(4)] assms(5) by auto
  with b(2) c(2) have "p_premiumPaid p div 10000000 = q_premiumXlm q" by simp
  with c(3) have "p_premiumPaid p = q_premiumXlm q * 10000000" by (metis div_mult_mod_eq add_0_right)
  moreover have "p_policyholder p = d_walletAddress dto"
    using assms(2) unfolding createPolicy_def Let_def returns
    by (auto simp: policy_create_def new_policy_def Let_def split: if_splits)
  ultimately show ?thesis using b(3,4) by simp
qed

section \<open>The export\<close>

lemma dropWhile_to: "distinct (map f xs) \<Longrightarrow> k < length xs \<Longrightarrow> dropWhile (\<lambda>x. f x \<noteq> f (xs ! k)) xs = drop k xs"
proof (induction xs arbitrary: k)
  case (Cons x xs)
  show ?case
  proof (cases k)
    case (Suc j)
    with Cons.prems have "f x \<noteq> f (xs ! j)" using nth_mem [of j xs] by auto
    with Suc Cons show ?thesis by simp
  qed simp
qed simp

lemma after_cursor_at:
  assumes "distinct (map p_id rows)" "[] \<notin> p_id ` set rows" "k \<le> length rows"
  shows "after_cursor (if k = 0 then None else Some (p_id (rows ! (k - 1)))) rows = drop k rows"
proof (cases k)
  case (Suc j)
  with assms have "p_id (rows ! j) \<noteq> []" "dropWhile (\<lambda>p. p_id p \<noteq> p_id (rows ! j)) rows = drop j rows"
    by (auto simp: dropWhile_to in_set_conv_nth) (metis image_eqI nth_mem Suc_le_lessD)
  with Suc show ?thesis by (simp add: after_cursor_def present_def)
qed (simp add: after_cursor_def present_def)

definition export_lines :: "(int \<Rightarrow> string) \<Rightarrow> env \<Rightarrow> Policy list \<Rightarrow> string list" where
  "export_lines dateStr e ps = map (\<lambda>p. csv_line dateStr (export_row_of (e_decStr e) p)) ps"

lemma export_loop_from:
  assumes quiet: "\<forall>n u. policies (e_rely e n u) = policies u" "\<forall>n. e_dbfail e n = None"
    and ids: "distinct (map p_id rows)" "[] \<notin> p_id ` set rows" and rows: "rows = rows_by_id (e_collation e) v"
    and k: "k \<le> length rows" "(length rows - k) div batchSize < fuel"
  shows "\<exists>s'. export_loop fuel dateStr (if k = 0 then None else Some (p_id (rows ! (k - 1)))) e (m, v)
    = (Inr (Some (export_lines dateStr e (drop k rows))), s')"
  using rows k
proof (induction fuel arbitrary: k m v)
  case (Suc fuel)
  let ?c = "if k = 0 then None else Some (p_id (rows ! (k - 1)))" and ?v = "e_rely e m v"
  let ?batch = "take batchSize (drop k rows)"
  have rows': "rows_by_id (e_collation e) ?v = rows" using quiet(1) Suc.prems(1) by (simp add: rows_by_id_def)
  have find: "findAll batchSize ?c e (m, v) = (Inr (map (export_row_of (e_decStr e)) ?batch), (Suc m, ?v))"
    using quiet(2) after_cursor_at [OF ids Suc.prems(2)]
    by (simp add: findAll_def bind_def asks_def db_def Let_def s_query_def ret_def rows')
  show ?case
  proof (cases "length rows - k < batchSize")
    case True
    then have "length ?batch \<noteq> batchSize" by simp
    then show ?thesis using find True by (simp add: bind_def present_def ret_def export_lines_def)
  next
    case False
    let ?k = "k + batchSize"
    have pos: "0 < batchSize" by (simp add: batchSize_def)
    have len: "length ?batch = batchSize" "?k \<le> length rows" using False Suc.prems(2) by simp_all
    have last: "xr_id (List.last (map (export_row_of (e_decStr e)) ?batch)) = p_id (rows ! (?k - 1))"
      using len pos by (simp add: last_conv_nth export_row_of_def add.commute)
    have "?k - 1 < length rows" using len(2) pos by linarith
    then have name: "p_id (rows ! (?k - 1)) \<noteq> []" using ids(2) nth_mem by force
    have fuel: "(length rows - ?k) div batchSize < fuel"
    proof -
      have "length rows - k = (length rows - ?k) + batchSize" using len(2) by simp
      then have "(length rows - k) div batchSize = (length rows - ?k) div batchSize + 1"
        using pos div_add_self2 [of batchSize "length rows - ?k"] by (simp only:)
      with Suc.prems(3) show ?thesis by linarith
    qed
    obtain s' where "export_loop fuel dateStr (Some (p_id (rows ! (?k - 1)))) e (Suc m, ?v)
        = (Inr (Some (export_lines dateStr e (drop ?k rows))), s')"
      using Suc.IH [OF rows' [symmetric] len(2) fuel, of "Suc m"] pos by auto
    moreover have "export_lines dateStr e (drop k rows) = export_lines dateStr e ?batch @ export_lines dateStr e (drop ?k rows)"
    proof -
      have "drop k rows = ?batch @ drop ?k rows" by (metis append_take_drop_id drop_drop add.commute)
      then show ?thesis unfolding export_lines_def by (metis map_append)
    qed
    ultimately show ?thesis
      using find len(1) last name by (simp add: bind_def present_def ret_def export_lines_def)
  qed
qed simp

text \<open>C39. The export writes a header and then every policy exactly once, in the order of their ids, and its loop ends: one
  round more than the full batches are enough. Every policy means of every wallet: nothing depends on the caller.\<close>

theorem export_complete:
  assumes "\<forall>n u. policies (e_rely e n u) = policies u" "\<forall>n. e_dbfail e n = None"
    and "policies_ok (policies w)" "[] \<notin> p_id ` set (policies w)"
    and "length (policies w) div 100 < fuel"
  shows "\<exists>s'. exportCsv fuel dateStr ar e (n, w) =
    (Inr (Some ((''id,status,premium,coverage,createdAt'' @ [CHR 0x0A]) # export_lines dateStr e (rows_by_id (e_collation e) w))), s')"
proof -
  let ?rows = "rows_by_id (e_collation e) w"
  have "distinct (map p_id (policies w))" using assms(3) by (simp add: policies_ok_def)
  then have ids: "distinct (map p_id ?rows)" "[] \<notin> p_id ` set ?rows"
    using assms(4) by (simp_all add: rows_by_id_def distinct_map)
  have "(length ?rows - 0) div batchSize < fuel" using assms(5) by (simp add: rows_by_id_def batchSize_def)
  from export_loop_from [OF assms(1,2) ids refl le0 this, of dateStr n] show ?thesis
    by (auto simp: exportCsv_def bind_def ret_def)
qed

section \<open>Witnesses\<close>

definition wallet_guard :: "string \<Rightarrow> guard_lib" where
  "wallet_guard wallet = sample_guard\<lparr>gl_jwt := sample_lib\<lparr>
     jw_verify := (\<lambda>token key opts t. Inr (sample_payload\<lparr>jp_walletAddress := wallet, jp_type := Some ''access'', jp_jti := None\<rparr>)),
     jw_decode := (\<lambda>token. Some (sample_payload\<lparr>jp_walletAddress := wallet, jp_jti := None\<rparr>))\<rparr>\<rparr>"

definition bearer_request :: request where
  "bearer_request = sample_request\<lparr>rq_authorization := Some ''Bearer t''\<rparr>"

definition as_wallet :: "string \<Rightarrow> AuthenticatedRequest" where
  "as_wallet wallet = \<lparr>ar_wallet = Some wallet, ar_user = None, ar_authVia = None, ar_apiKeySource = None\<rparr>"

lemma wallet_guard_admits:
  assumes "jwt_canActivate (wallet_guard ''GB'') rq e s = (Inr ar, s')"
  shows "authedWallet ar = Some ''GB''"
  using assms
  by (auto simp: jwt_canActivate_def verifyAsync_def verify_def wallet_guard_def authedWallet_def present_def returns Let_def
      sample_guard_def sample_payload_def split: if_splits option.splits)

theorem foreign_request_inert_witness:
  "\<exists>x n' w'. policy_request (wallet_guard ''GB'') bearer_request ''p1'' CancelCall (sample_env 500) (0, sample_world 0) = (Inl x, (n', w'))
     \<and> others (sample_env 500) (sample_world 0) w'"
proof (rule foreign_request_inert)
  show "\<forall>n u. evolves u (e_rely (sample_env 500) n u)" by (simp add: sample_env_def quiet_env_def)
  show "policy_findUnique ''p1'' (sample_world 0) = Some sample_policy"
    by (simp add: policy_findUnique_def sample_world_def sample_policy_def)
  show "\<forall>s ar s'. jwt_canActivate (wallet_guard ''GB'') bearer_request (sample_env 500) s = (Inr ar, s') \<longrightarrow>
      authedWallet ar \<noteq> Some (p_policyholder sample_policy)"
    using wallet_guard_admits by (auto simp: sample_policy_def)
qed

theorem listing_own_witness:
  "\<exists>data tot s'. getMyPolicies \<lparr>sl_matches = contains, sl_rank = (\<lambda>q d. 0), sl_like = contains\<rparr> ''1'' ''20'' (Some ''rain'')
     (as_wallet ''GA'') (sample_env 500) (0, sample_world 0) = (Inr (data, tot), s') \<and> data \<noteq> [] \<and> length data \<le> 100"
proof -
  let ?run = "getMyPolicies \<lparr>sl_matches = contains, sl_rank = (\<lambda>q d. 0), sl_like = contains\<rparr> ''1'' ''20'' (Some ''rain'')
     (as_wallet ''GA'') (sample_env 500) (0, sample_world 0)"
  have "map_option (length \<circ> fst) (case fst ?run of Inr r \<Rightarrow> Some r | Inl _ \<Rightarrow> None) = Some 1" by code_simp
  then obtain data tot where "fst ?run = Inr (data, tot)" "length data = 1" by (auto split: sum.splits)
  then obtain s' where run: "?run = (Inr (data, tot), s')" "data \<noteq> []" by (cases ?run; cases data) auto
  from listing_own [OF run(1)] run show ?thesis by blast
qed

theorem quote_honoured_witness:
  "\<exists>q s1 p s2. buyPolicy \<lparr>fl_parseFloat = (\<lambda>t. js_int 0), fl_minus = (\<lambda>a b. a)\<rparr> sample_dto (as_wallet ''GA'') (sample_env 1781000000500) (0, buy_world) = (Inr q, s1)
     \<and> createPolicy sample_dto ''h1'' (sample_env 1781000000500) (0, buy_world) = (Inr p, s2) \<and> p_premiumPaid p = q_premiumXlm q * 10000000"
proof -
  let ?quote = "buyPolicy \<lparr>fl_parseFloat = (\<lambda>t. js_int 0), fl_minus = (\<lambda>a b. a)\<rparr> sample_dto (as_wallet ''GA'') (sample_env 1781000000500) (0, buy_world)"
  let ?create = "createPolicy sample_dto ''h1'' (sample_env 1781000000500) (0, buy_world)"
  have "\<not> Option.is_none (case fst ?quote of Inr q \<Rightarrow> Some q | Inl _ \<Rightarrow> None)" by code_simp
  then obtain q s1 where q: "?quote = (Inr q, s1)" by (cases ?quote) (auto split: sum.splits)
  have "\<not> Option.is_none (case fst ?create of Inr p \<Rightarrow> Some p | Inl _ \<Rightarrow> None)" by code_simp
  then obtain p s2 where p: "?create = (Inr p, s2)" by (cases ?create) (auto split: sum.splits)
  have quiet: "\<forall>k u. products (e_rely (sample_env 1781000000500) k u) = products u" by (simp add: sample_env_def quiet_env_def)
  from quote_honoured [OF q p quiet quiet refl] q p show ?thesis by blast
qed

theorem export_complete_witness:
  "\<exists>s'. exportCsv 1 int_str (as_wallet ''GB'') (sample_env 500) (0, sample_world 0) =
     (Inr (Some [''id,status,premium,coverage,createdAt'' @ [CHR 0x0A], ''p1,ACTIVE,25.0000000,500.0000000,0'' @ [CHR 0x0A]]), s')"
proof -
  have lines: "export_lines int_str (sample_env 500) (rows_by_id (e_collation (sample_env 500)) (sample_world 0))
      = [''p1,ACTIVE,25.0000000,500.0000000,0'' @ [CHR 0x0A]]" by code_simp
  have "policies_ok (policies (sample_world 0))" "[] \<notin> p_id ` set (policies (sample_world 0))" "length (policies (sample_world 0)) div 100 < (1 :: nat)"
    by (simp_all add: sample_world_def sample_policy_def policies_ok_def)
  moreover have "\<forall>n u. policies (e_rely (sample_env 500) n u) = policies u" "\<forall>n. e_dbfail (sample_env 500) n = None"
    by (simp_all add: sample_env_def quiet_env_def)
  ultimately show ?thesis
    using export_complete [of "sample_env 500" "sample_world 0" 1 int_str "as_wallet ''GB''" 0] unfolding lines by blast
qed

text \<open>The capacity of the pool is looked at when a quote is made, not when the policy is bought: with a capacity of one XLM
  the quote is refused and the purchase goes through.\<close>

theorem capacity_checked_in_quotes_only:
  "(let e = (sample_env 1781000000500)\<lparr>e_config := (\<lambda>k. if k = ''POOL_CAPACITY_XLM'' then Some ''1'' else None)\<rparr> in
    Option.is_none (case fst (buyPolicy \<lparr>fl_parseFloat = (\<lambda>t. if t = ''1'' then js_int 1 else js_int 0), fl_minus = (\<lambda>a b. a)\<rparr>
        sample_dto (as_wallet ''GA'') e (0, buy_world)) of Inr q \<Rightarrow> Some q | Inl _ \<Rightarrow> None)
    \<and> \<not> Option.is_none (case fst (createPolicy sample_dto ''h1'' e (0, buy_world)) of Inr p \<Rightarrow> Some p | Inl _ \<Rightarrow> None))"
  by code_simp

end
