(* ===== verification/Claim_Routes.thy ===== *)
theory Claim_Routes
  imports Policy_Routes Claim_Submission Claim_History
begin

text \<open>
  The routes of claims, \<^verbatim>\<open>src/claims/claims.controller.ts\<close>: submission, evidence, history, automatic processing for
  operators, the derived state of a policy and single claims. The check of ids by the framework's UUID pipe is not
  modelled; the cache of derived states is an argument.
\<close>

section \<open>Routes\<close>

definition submitClaim_route :: "(string \<Rightarrow> DerivedPolicyState option act) option \<Rightarrow> string option \<Rightarrow> string
    \<Rightarrow> AuthenticatedRequest \<Rightarrow> (string \<times> ClaimDetails option) act" where
  "submitClaim_route cache claimant policyId ar =
     (let wallet = authedWallet ar in
      if \<not> present wallet then throw (UnauthorizedException ''Not authenticated'')
      else if present claimant \<and> claimant \<noteq> wallet then throw (ForbiddenException ''Claimant does not match authenticated wallet'')
      else
        bind (submitClaim (the wallet) policyId) (\<lambda>claimId.
        bind (getClaim cache claimId) (\<lambda>claim.
        ret (claimId, claim))))"

definition uploadEvidence_route :: "string \<Rightarrow> EvidenceFile list \<Rightarrow> AuthenticatedRequest \<Rightarrow> (string \<times> string \<times> int) list act" where
  "uploadEvidence_route claimId files ar =
     (let wallet = authedWallet ar in
      if \<not> present wallet then throw (UnauthorizedException ''Not authenticated'')
      else uploadEvidence claimId (the wallet) files)"

text \<open>The two routes of the history differ in where the wallet comes from and in the text of the refusal.\<close>

definition wallet_claims :: "string \<Rightarrow> string option \<Rightarrow> string option \<Rightarrow> string option \<Rightarrow> string option \<Rightarrow> AuthenticatedRequest \<Rightarrow> HistoryPage act" where
  "wallet_claims refusal wallet page limit cursor ar =
     (let authed = authedWallet ar in
      if \<not> present authed then throw (UnauthorizedException ''Not authenticated'')
      else
        let targetWallet = (if present wallet then wallet else authed) in
        if targetWallet \<noteq> authed then throw (ForbiddenException refusal)
        else
          getClaimsByWallet (the targetWallet) (if present page then parse_or 1 (the page) else 1)
            (if present limit then parse_or 20 (the limit) else 20) cursor)"

definition getClaimsByWalletQuery :: "string option \<Rightarrow> string option \<Rightarrow> string option \<Rightarrow> string option \<Rightarrow> AuthenticatedRequest \<Rightarrow> HistoryPage act" where
  "getClaimsByWalletQuery = wallet_claims ''Wallet address does not match authenticated user''"

definition getClaimHistory :: "string option \<Rightarrow> string option \<Rightarrow> string option \<Rightarrow> string option \<Rightarrow> AuthenticatedRequest \<Rightarrow> HistoryPage act" where
  "getClaimHistory = wallet_claims ''Cannot read claims for another wallet''"

definition autoProcess_route :: "guard_lib \<Rightarrow> request \<Rightarrow> string \<Rightarrow> ClaimResult act" where
  "autoProcess_route lib rq policyId = seq (operator_canActivate lib rq) (autoProcess policyId None)"

definition getPolicyDerivedState :: "(string \<Rightarrow> DerivedPolicyState option act) \<Rightarrow> string \<Rightarrow> AuthenticatedRequest \<Rightarrow> DerivedPolicyState act" where
  "getPolicyDerivedState cache policyId ar =
     bind (cache policyId) (\<lambda>state.
     case state of None \<Rightarrow> throw (NotFoundException ''Policy not found'') | Some st \<Rightarrow> ret st)"

definition getClaim_route :: "(string \<Rightarrow> DerivedPolicyState option act) option \<Rightarrow> string \<Rightarrow> AuthenticatedRequest \<Rightarrow> ClaimDetails act" where
  "getClaim_route cache claimId ar =
     bind (getClaim cache claimId) (\<lambda>claim.
     case claim of
       None \<Rightarrow> throw (NotFoundException ''Claim not found'')
     | Some c \<Rightarrow>
         if Some (cs_claimant (cd_summary c)) \<noteq> authedWallet ar then throw (ForbiddenException ''Claim belongs to a different wallet'')
         else ret c)"

section \<open>Claims are shown to their claimants\<close>

lemma history_own:
  assumes "getClaimsByWallet wallet page limit cursor e s = (Inr pg, s')" "c \<in> set (hp_data pg)"
  shows "cs_claimant c = wallet"
proof -
  from assms(1) obtain rank decStr rows tot s1 p l cur where
    rows: "rows_and_total (history_rows rank wallet p l cur) wallet e s = (Inr (rows, tot), s1)"
    and pg: "pg = history_page decStr p l rows tot"
    unfolding getClaimsByWallet_def Let_def by (auto simp: returns)
  obtain v where "rows = history_rows rank wallet p l cur v"
    using rows unfolding rows_and_total_def by (auto simp: returns split: option.splits)
  then have "d \<in> set rows \<Longrightarrow> c_claimant d = wallet" for d
    by (auto simp: history_rows_def claims_of_def split: option.splits dest!: in_set_takeD in_set_dropD set_dropWhileD)
  moreover obtain d where "d \<in> set rows" "c = claim_summary decStr d"
    using assms(2) by (auto simp: pg history_page_def Let_def split: if_splits dest: in_set_takeD)
  ultimately show ?thesis by (simp add: claim_summary_def)
qed

text \<open>C10. Claims are private: the five routes that hand out or take claims for a wallet (a single claim, the two that list claims, the
  upload of evidence, the submission) answer only for what belongs to the authenticated wallet. A single claim, every
  claim of a page and the claim that evidence was attached to have that wallet as their claimant, and a submitted claim is on a policy
  that it holds. The route of the derived policy state, which shows a policy and not a claim, is not among them and has no such
  check.\<close>

theorem claim_routes_private:
  "(\<forall>d. fst (getClaim_route cache i ar e s) = Inr d \<longrightarrow> Some (cs_claimant (cd_summary d)) = authedWallet ar)
   \<and> (\<forall>pg. fst (wallet_claims refusal wallet page limit cursor ar e s) = Inr pg \<longrightarrow>
        (\<forall>c \<in> set (hp_data pg). Some (cs_claimant c) = authedWallet ar))
   \<and> (\<forall>r. fst (uploadEvidence_route i files ar e s) = Inr r \<longrightarrow>
        (\<exists>claim. claim_findUnique i (e_rely e (fst s) (snd s)) = Some claim \<and> Some (c_claimant claim) = authedWallet ar))
   \<and> (\<forall>r. fst (submitClaim_route cache claimant i ar e s) = Inr r \<longrightarrow>
        (\<exists>p. policy_findUnique i (e_rely e (fst s) (snd s)) = Some p \<and> Some (p_policyholder p) = authedWallet ar))"
proof (intro conjI allI impI)
  fix d assume "fst (getClaim_route cache i ar e s) = Inr d"
  then obtain s' where "getClaim_route cache i ar e s = (Inr d, s')" by (metis prod.collapse)
  then show "Some (cs_claimant (cd_summary d)) = authedWallet ar"
    unfolding getClaim_route_def by (auto simp: returns split: if_splits)
next
  fix pg assume "fst (wallet_claims refusal wallet page limit cursor ar e s) = Inr pg"
  then obtain s' where run: "wallet_claims refusal wallet page limit cursor ar e s = (Inr pg, s')" by (metis prod.collapse)
  then obtain a p l where a: "authedWallet ar = Some a" and h: "getClaimsByWallet a p l cursor e s = (Inr pg, s')"
    unfolding wallet_claims_def Let_def by (auto simp: returns present_def split: if_splits)
  show "\<forall>c \<in> set (hp_data pg). Some (cs_claimant c) = authedWallet ar" using history_own [OF h] a by simp
next
  fix r assume "fst (uploadEvidence_route i files ar e s) = Inr r"
  then obtain s' where "uploadEvidence_route i files ar e s = (Inr r, s')" by (metis prod.collapse)
  then show "\<exists>claim. claim_findUnique i (e_rely e (fst s) (snd s)) = Some claim \<and> Some (c_claimant claim) = authedWallet ar"
    unfolding uploadEvidence_route_def uploadEvidence_def Let_def by (auto simp: returns present_def split: if_splits)
next
  fix r assume "fst (submitClaim_route cache claimant i ar e s) = Inr r"
  then obtain s' where "submitClaim_route cache claimant i ar e s = (Inr r, s')" by (metis prod.collapse)
  then obtain a r' s1 where a: "authedWallet ar = Some a" and "submitClaim a i e s = (Inr r', s1)"
    unfolding submitClaim_route_def Let_def by (auto simp: returns present_def split: if_splits)
  then show "\<exists>p. policy_findUnique i (e_rely e (fst s) (snd s)) = Some p \<and> Some (p_policyholder p) = authedWallet ar"
    unfolding submitClaim_def by (auto simp: returns)
qed

theorem claim_routes_private_witness:
  "\<exists>d. fst (getClaim_route None ''c1'' (as_wallet ''GA'') (sample_env 500) (0, pending_world)) = Inr d
     \<and> Some (cs_claimant (cd_summary d)) = authedWallet (as_wallet ''GA'')"
proof -
  let ?run = "getClaim_route None ''c1'' (as_wallet ''GA'') (sample_env 500) (0, pending_world)"
  have "\<not> Option.is_none (case fst ?run of Inr d \<Rightarrow> Some d | Inl _ \<Rightarrow> None)" by code_simp
  then obtain d where "fst ?run = Inr d" by (auto split: sum.splits)
  with claim_routes_private [of None "''c1''" "as_wallet ''GA''" "sample_env 500" "(0, pending_world)"] show ?thesis by blast
qed

text \<open>The derived state of a policy has no such check: any authenticated wallet reads holder, coverage and premium of a
  policy of somebody else, which the route of the policy itself refuses.\<close>

definition fresh_state :: "string \<Rightarrow> DerivedPolicyState option act" where
  "fresh_state i = bind (computePolicyState i) (\<lambda>st. bind clock (\<lambda>t. ret (map_option (\<lambda>x. applyTimeEvaluation x t) st)))"

theorem derived_state_discloses:
  "map_option (\<lambda>d. (ti_policyholder d, ti_coverageXlm d, ti_premiumPaid d))
     (case fst (getPolicyDerivedState fresh_state ''p1'' (as_wallet ''GB'') (sample_env 500) (0, sample_world 0)) of Inr d \<Rightarrow> Some d | Inl _ \<Rightarrow> None)
     = Some (''GA'', ''500.0000000'', ''25.0000000'')
   \<and> (case fst (getPolicy_route ''p1'' (as_wallet ''GB'') (sample_env 500) (0, sample_world 0)) of Inr _ \<Rightarrow> None | Inl x \<Rightarrow> Some x)
     = Some (ForbiddenException ''Policy belongs to a different wallet'')"
  by code_simp

end
