(* ===== verification/Oracle_Routes.thy ===== *)
theory Oracle_Routes
  imports Policy_Routes Oracle_Worker
begin

text \<open>
  Reading routes of the oracle, \<^verbatim>\<open>src/oracle/oracle.controller.ts\<close>, with the format of keys
  (\<^verbatim>\<open>src/oracle/oracle-key-format.ts\<close>), the middleware that checks it
  (\<^verbatim>\<open>src/oracle/middleware/oracle-key-validation.middleware.ts\<close>) and the guard of the flight route. The decoding of URI
  components is a parameter, which fails on malformed escapes.
\<close>

section \<open>Key formats\<close>

definition RAINFALL_OR_TEMPERATURE_KEY :: rx where
  "RAINFALL_OR_TEMPERATURE_KEY = rx_seq [Alt (rx_lit ''rainfall'') (rx_lit ''temperature''), rx_lit '':'', rx_coord, rx_lit '','', rx_coord,
     rx_lit '':20'', rx_rep 2 (Cls is_digit), rx_lit ''-'', rx_month]"

definition MAX_ORACLE_KEY_LENGTH :: nat where
  "MAX_ORACLE_KEY_LENGTH = 128"

text \<open>
  \<^verbatim>\<open>parseFloat(text) >= -b && parseFloat(text) <= b\<close> for a bound whose neighbours in double precision are \<open>2 u\<close> away: the
  nearest double is in range as long as the value is at most half a step outside.
\<close>

definition rounds_within :: "rat \<Rightarrow> rat \<Rightarrow> string \<Rightarrow> bool" where
  "rounds_within b u text = (case plain_value text of None \<Rightarrow> False | Some v \<Rightarrow> \<bar>v\<bar> \<le> b + u)"

definition isValidOracleKeyFormat :: "string \<Rightarrow> bool" where
  "isValidOracleKeyFormat key =
     (if length key > MAX_ORACLE_KEY_LENGTH then False
      else if rx_test RAINFALL_OR_TEMPERATURE_KEY key then
        (let (lat, r) = cut (CHR '','') (snd (cut (CHR '':'') key)); lng = fst (cut (CHR '':'') r) in
         rounds_within 90 (1 / 2 ^ 47) lat \<and> rounds_within 180 (1 / 2 ^ 46) lng)
      else rx_test FLIGHT_KEY key)"

definition INVALID_KEY :: exn where
  "INVALID_KEY = BadRequestException ''Invalid oracle key format. Expected rainfall:<lat>,<lng>:YYYY-MM, temperature:<lat>,<lng>:YYYY-MM, or flight:<code>:YYYY-MM-DD.''"

section \<open>Middleware and guard\<close>

definition use_key_validation :: "(string \<Rightarrow> string outcome) \<Rightarrow> string option \<Rightarrow> string option \<Rightarrow> unit outcome" where
  "use_key_validation decode queryKey pathKey =
     (case (if present queryKey then map_sum (\<lambda>x. x) Some (decode (the queryKey))
            else Inr (if present pathKey then pathKey else None)) of
        Inl x \<Rightarrow> Inl x
      | Inr None \<Rightarrow> Inr ()
      | Inr (Some k) \<Rightarrow>
          let key = trim k in
          if key = [] then Inl INVALID_KEY
          else if \<not> isValidOracleKeyFormat key then Inl INVALID_KEY
          else Inr ())"

definition aviation_canActivate :: "unit act" where
  "aviation_canActivate =
     bind (asks (\<lambda>e. e_config e ''AVIATIONSTACK_API_KEY'')) (\<lambda>apiKey.
     if \<not> present apiKey
     then throw (ServiceUnavailableException ''Flight delay oracle service is unavailable because AVIATIONSTACK_API_KEY is not configured.'')
     else ret ())"

section \<open>Routes\<close>

definition NO_READING :: exn where
  "NO_READING = NotFoundException ''No reading found for the requested key.''"

definition getReadingByKey :: "(string \<Rightarrow> string outcome) \<Rightarrow> string option \<Rightarrow> Reading act" where
  "getReadingByKey decode key =
     bind (lift (decode (case key of None \<Rightarrow> [] | Some k \<Rightarrow> k))) (\<lambda>decoded.
     if \<not> isValidOracleKeyFormat decoded then throw INVALID_KEY
     else
       bind (getLatestReading decoded) (\<lambda>reading.
       case reading of None \<Rightarrow> throw NO_READING | Some r \<Rightarrow> ret r))"

definition getAllReadings_route :: "string option \<Rightarrow> string option \<Rightarrow> Reading list act" where
  "getAllReadings_route limit page =
     (let pageNumber = (if present page then max (parse_or 1 (the page)) 1 else 1);
          cap = (if present limit then min (parse_or 100 (the limit)) 500 else 100) in
      getAllReadings cap pageNumber)"

definition getLatestReading_route :: "string \<Rightarrow> Reading act" where
  "getLatestReading_route key =
     bind (getLatestReading key) (\<lambda>reading.
     case reading of None \<Rightarrow> throw NO_READING | Some r \<Rightarrow> ret r)"

text \<open>\<open>dateMs\<close> is what \<^verbatim>\<open>new Date(date)\<close> reads, \<open>None\<close> for an invalid date, which is later than nothing; the last argument is this
  time tomorrow.\<close>

definition check_flight_query :: "(string \<Rightarrow> int option) \<Rightarrow> string option \<Rightarrow> string option \<Rightarrow> int \<Rightarrow> unit outcome" where
  "check_flight_query dateMs flight date maxFutureDate =
     (if \<not> present flight \<or> \<not> rx_test (rx_plus rx_upper_digit) (the flight)
      then Inl (BadRequestException ''flight must be an IATA flight number matching ^[A-Z0-9]+$'')
      else if \<not> present date \<or> \<not> rx_test (rx_seq [rx_rep 4 (Cls is_digit), rx_lit ''-'', rx_rep 2 (Cls is_digit), rx_lit ''-'', rx_rep 2 (Cls is_digit)]) (the date)
      then Inl (BadRequestException ''date must be in YYYY-MM-DD format'')
      else case dateMs (the date) of
        None \<Rightarrow> Inr ()
      | Some d \<Rightarrow> if d > maxFutureDate then Inl (BadRequestException ''date must not be more than 1 day in the future'') else Inr ())"

section \<open>Keys that can be read can be fetched\<close>

lemma coord_key_split:
  assumes "rx_test RAINFALL_OR_TEMPERATURE_KEY key"
  obtains kind rest where "key = kind @ '':'' @ rest" "kind = ''rainfall'' \<or> kind = ''temperature''" "rx_test RAINFALL_KEY (''rainfall:'' @ rest)"
proof -
  from assms obtain us where us: "key = concat us" "list_all2 (\<lambda>u r. u \<in> rx_lang r) us
      [Alt (rx_lit ''rainfall'') (rx_lit ''temperature''), rx_lit '':'', rx_coord, rx_lit '','', rx_coord, rx_lit '':20'', rx_rep 2 (Cls is_digit), rx_lit ''-'', rx_month]"
    unfolding rx_test_lang RAINFALL_OR_TEMPERATURE_KEY_def rx_lang_seq_iff by blast
  then obtain kind lat lng yy mm where u: "us = [kind, '':'', lat, '','', lng, '':20'', yy, ''-'', mm]" "kind = ''rainfall'' \<or> kind = ''temperature''"
    "lat \<in> rx_lang rx_coord" "lng \<in> rx_lang rx_coord" "yy \<in> rx_lang (rx_rep 2 (Cls is_digit))" "mm \<in> rx_lang rx_month"
    by (auto simp: list_all2_Cons2)
  let ?rest = "lat @ '','' @ lng @ '':20'' @ yy @ ''-'' @ mm"
  have "rx_test RAINFALL_KEY (''rainfall:'' @ ?rest)"
    unfolding rx_test_lang RAINFALL_KEY_def rx_lang_seq_iff
    using u(3-6) by (intro exI [of _ "[''rainfall:'', lat, '','', lng, '':20'', yy, ''-'', mm]"]) simp
  moreover have "key = kind @ '':'' @ ?rest" using us(1) u(1) by simp
  ultimately show thesis using u(2) by (intro that)
qed

text \<open>The readers' format of keys and the fetchers' agree: a key that the reading routes accept and that is not about
  temperature is one the oracle worker can split into a request, so a key is never readable in principle but fetchable by
  nobody.\<close>

theorem readable_key_fetchable:
  assumes "isValidOracleKeyFormat key" "\<not> starts_with ''temperature:'' key"
  shows "\<exists>request. request_of key = Some request"
proof (cases "rx_test RAINFALL_OR_TEMPERATURE_KEY key")
  case True
  then obtain kind rest where k: "key = kind @ '':'' @ rest" "kind = ''rainfall'' \<or> kind = ''temperature''" "rx_test RAINFALL_KEY (''rainfall:'' @ rest)"
    by (rule coord_key_split)
  with assms(2) have "rx_test RAINFALL_KEY key" by auto
  then show ?thesis by (rule rainfall_polled) blast
next
  case False
  with assms(1) have "rx_test FLIGHT_KEY key" by (simp add: isValidOracleKeyFormat_def split: if_splits)
  then show ?thesis by (rule flight_polled) blast
qed

theorem readable_key_fetchable_witness:
  "\<exists>request. request_of ''rainfall:-0.0917,34.7679:2026-06'' = Some request"
  by (rule readable_key_fetchable) code_simp+

text \<open>The middleware lets a request pass only without a key or with one whose trimmed text is well formed. The route of
  the path looks up the text as it came: with white space around a valid key it finds nothing.\<close>

theorem key_validation_sound:
  assumes "use_key_validation decode queryKey pathKey = Inr ()" "queryKey = None" "pathKey = Some k" "k \<noteq> []"
  shows "isValidOracleKeyFormat (trim k)"
  using assms by (auto simp: use_key_validation_def present_def Let_def split: if_splits)

section \<open>Pages of readings\<close>

text \<open>With a positive limit a page has at most five hundred readings. A negative limit passes the cap, and the database
  takes it as a count from the other end: one call lists everything.\<close>

theorem readings_page_capped:
  assumes "getAllReadings_route limit page e s = (Inr rs, s')" "limit = None \<or> 0 < parse_or 100 (the limit)"
  shows "length rs \<le> 500"
proof -
  from assms(1) obtain cap k v records where p: "paginate (min cap 500) k v = Inr records" "rs = map reading_of records"
      "cap = (if present limit then min (parse_or 100 (the limit)) 500 else 100)"
    unfolding getAllReadings_route_def getAllReadings_def Let_def by (auto simp: returns)
  then have "0 < cap" "cap \<le> 500" using assms(2) by (auto simp: present_def split: if_splits)
  then have "nat \<bar>min cap 500\<bar> \<le> 500" by simp
  with paginate_set [OF p(1)] p(2) show ?thesis by (metis le_trans length_map)
qed

theorem negative_limit_enumerates:
  assumes "\<forall>n u. oracleReadings (e_rely e n u) = oracleReadings u" "\<forall>n. e_dbfail e n = None" "length (oracleReadings w) \<le> 1000000"
  shows "\<exists>s'. getAllReadings_route (Some ''-1000000'') None e (n, w) =
    (Inr (map reading_of (sort_key (\<lambda>r. - or_submittedAt r) (oracleReadings w))), s')"
proof -
  have "parse_or 100 ''-1000000'' = - 1000000" by code_simp
  then show ?thesis
    using assms by (simp add: getAllReadings_route_def getAllReadings_def present_def paginate_def bind_def db_def s_query_def lift_def ret_def Let_def)
qed

end
