(* ===== verification/Startup_Checks.thy ===== *)
theory Startup_Checks
  imports Decimal "HOL-Library.Sublist"
begin

text \<open>
  Checks before the server takes requests: the strength of secrets (\<^verbatim>\<open>src/common/secrets/secret-validator.ts\<close>,
  \<^verbatim>\<open>src/auth/jwt-secret.validator.ts\<close>), configuration values (\<^verbatim>\<open>src/common/utils/config.utils.ts\<close>,
  \<^verbatim>\<open>src/common/network/trust-proxy.ts\<close>, \<^verbatim>\<open>validateConfig\<close> of \<^verbatim>\<open>src/app.module.ts\<close>) and integers in parameters
  (\<^verbatim>\<open>src/common/pipes/parse-bigint.pipe.ts\<close>). The configuration is a function from names to texts. URL parsing, the decoding
  of URI components, the check of Stellar secret keys and the reading of numbers are parameters. Reasons are constructors instead of
  texts. The entropy is compared exactly, where the code sums doubles.
\<close>

section \<open>Strength of a secret\<close>

datatype secret_reason =
    IsEmpty | TooShort nat nat | IsPlaceholder | LowVariety nat nat | RepeatedPattern | SimpleSequence | LowEntropy
  | BadStellarFormat | BadStellarEncoding | BadScheme | WeakPassword | MalformedUrl | KeyTooShort | RequiredMissing

definition MIN_SECRET_LENGTH :: nat where
  "MIN_SECRET_LENGTH = 32"

definition KNOWN_PLACEHOLDERS :: "string list" where
  "KNOWN_PLACEHOLDERS = [''secret'', ''changeme'', ''change-me'', ''change-me-in-production'', ''password'', ''test'', ''test-key'',
     ''valid-api-key'', ''my-secret-key'', ''jwt_secret'', ''jwt-secret'', ''parashield-dev-secret'',
     ''parashield-dev-secret-change-in-production'',
     ''non-production-dev-jwt-secret-min-32-chars-long-do-not-use-in-production'', ''parashield'', ''redispass'', ''admin'', ''root'',
     ''123456'', ''12345678'', ''1234567890'', ''qwerty'', ''s.xxxxxx'', ''c...'', ''s...'']"

definition frequencies :: "string \<Rightarrow> nat list" where
  "frequencies s = map (count_list s) (remdups s)"

text \<open>The entropy is below five halves: both sides of the comparison as powers of two, without logarithms.\<close>

definition low_entropy :: "string \<Rightarrow> bool" where
  "low_entropy s \<longleftrightarrow> (let n = length s in int n ^ (2 * n) < 2 ^ (5 * n) * prod_list (map (\<lambda>k. int k ^ (2 * k)) (frequencies s)))"

definition countDistinctCharacters :: "string \<Rightarrow> nat" where
  "countDistinctCharacters s = length (remdups s)"

definition hasRepeatedPattern :: "string \<Rightarrow> bool" where
  "hasRepeatedPattern s \<longleftrightarrow> 4 \<le> length s
     \<and> list_ex (\<lambda>unitLen. length s mod unitLen = 0 \<and> concat (replicate (length s div unitLen) (take unitLen s)) = s)
         [1..<Suc (length s div 2)]"

definition isSimpleSequence :: "string \<Rightarrow> bool" where
  "isSimpleSequence s \<longleftrightarrow> 8 \<le> length s
     \<and> (list_all (\<lambda>(a, b). (of_char b :: int) - of_char a = 1) (zip s (tl s))
        \<or> list_all (\<lambda>(a, b). (of_char b :: int) - of_char a = - 1) (zip s (tl s)))"

text \<open>\<open>None\<close> is \<^verbatim>\<open>{ valid: true }\<close>.\<close>

definition evaluateSecretEntropy :: "string \<Rightarrow> nat \<Rightarrow> secret_reason option" where
  "evaluateSecretEntropy s minLength =
     (if trim s = [] then Some IsEmpty
      else if length s < minLength then Some (TooShort (length s) minLength)
      else if list_ex (\<lambda>p. contains p (to_lower (trim s))) KNOWN_PLACEHOLDERS then Some IsPlaceholder
      else
        let minDistinct = min 8 (max 3 (minLength div 4)) in
        if countDistinctCharacters s < minDistinct then Some (LowVariety (countDistinctCharacters s) minDistinct)
        else if hasRepeatedPattern s then Some RepeatedPattern
        else if isSimpleSequence s then Some SimpleSequence
        else if low_entropy s then Some LowEntropy
        else None)"

section \<open>Other kinds of secrets\<close>

text \<open>The password in a URL, which may be empty, if it parses; \<^verbatim>\<open>decodeURIComponent\<close>; whether \<^verbatim>\<open>Keypair.fromSecret\<close>
  accepts a text; the number that \<^verbatim>\<open>Number\<close> reads; the protocol of a URL that parses.\<close>

record config_lib =
  xl_urlPassword :: "string \<Rightarrow> string option"
  xl_decode :: "string \<Rightarrow> string option"
  xl_fromSecret :: "string \<Rightarrow> bool"
  xl_number :: "string \<Rightarrow> jsnum"
  xl_protocol :: "string \<Rightarrow> string option"

definition validateStellarSecretKey :: "config_lib \<Rightarrow> string \<Rightarrow> secret_reason option" where
  "validateStellarSecretKey lib secret =
     (let s = trim secret in
      if s = [] then Some IsEmpty
      else if to_lower s \<in> set KNOWN_PLACEHOLDERS then Some IsPlaceholder
      else if \<not> starts_with ''S'' s \<or> length s \<noteq> 56 then Some BadStellarFormat
      else if xl_fromSecret lib s then None else Some BadStellarEncoding)"

definition validate_url_secret :: "string list \<Rightarrow> config_lib \<Rightarrow> string \<Rightarrow> secret_reason option" where
  "validate_url_secret schemes lib url =
     (let u = trim url in
      if u = [] then Some IsEmpty
      else if \<not> list_ex (\<lambda>p. starts_with p u) schemes then Some BadScheme
      else case xl_urlPassword lib u of
        None \<Rightarrow> Some MalformedUrl
      | Some password \<Rightarrow>
          if password = [] then None
          else case xl_decode lib password of
            None \<Rightarrow> Some MalformedUrl
          | Some d \<Rightarrow> if to_lower d \<in> set KNOWN_PLACEHOLDERS then Some WeakPassword else None)"

definition validateDatabaseUrl :: "config_lib \<Rightarrow> string \<Rightarrow> secret_reason option" where
  "validateDatabaseUrl = validate_url_secret [''postgresql://'', ''postgres://'']"

definition validateRedisUrl :: "config_lib \<Rightarrow> string \<Rightarrow> secret_reason option" where
  "validateRedisUrl = validate_url_secret [''redis://'', ''rediss://'']"

definition validateAviationStackKey :: "string \<Rightarrow> secret_reason option" where
  "validateAviationStackKey apiKey =
     (let s = to_lower (trim apiKey) in
      if s = [] then Some IsEmpty
      else if s \<in> set KNOWN_PLACEHOLDERS then Some IsPlaceholder
      else if length s < 16 then Some KeyTooShort
      else None)"

section \<open>All secrets\<close>

datatype SecretType = T_jwt | T_api_key | T_stellar_key | T_database_url | T_redis_url | T_generic_secret | T_aviationstack_key

record SecretDefinition =
  sd_name :: string
  sd_type :: SecretType
  sd_required :: bool
  sd_minLength :: "nat option"

definition secret_def :: "string \<Rightarrow> SecretType \<Rightarrow> bool \<Rightarrow> nat option \<Rightarrow> SecretDefinition" where
  "secret_def n t r m = \<lparr>sd_name = n, sd_type = t, sd_required = r, sd_minLength = m\<rparr>"

definition SECRET_DEFINITIONS :: "SecretDefinition list" where
  "SECRET_DEFINITIONS = [
     secret_def ''JWT_SECRET'' T_jwt True (Some 32),
     secret_def ''KEEPER_SECRET_KEY'' T_stellar_key True None,
     secret_def ''DATABASE_URL'' T_database_url True None,
     secret_def ''DATABASE_REPLICA_URL'' T_database_url False None,
     secret_def ''ORACLE_OPERATOR_API_KEY'' T_api_key False (Some 32),
     secret_def ''ADMIN_API_KEY'' T_api_key False (Some 32),
     secret_def ''ORACLE_OPERATOR_API_KEY_PREVIOUS'' T_api_key False (Some 32),
     secret_def ''ADMIN_API_KEY_PREVIOUS'' T_api_key False (Some 32),
     secret_def ''WEBHOOK_SECRET_KEY'' T_generic_secret False (Some 32),
     secret_def ''REDIS_URL'' T_redis_url False None,
     secret_def ''AVIATIONSTACK_API_KEY'' T_aviationstack_key False None]"

type_synonym configuration = "string \<Rightarrow> string option"

text \<open>A value that is missing or blank.\<close>

definition blank :: "string option \<Rightarrow> bool" where
  "blank value \<longleftrightarrow> (case value of None \<Rightarrow> True | Some v \<Rightarrow> trim v = [])"

definition validateSecretValue :: "config_lib \<Rightarrow> SecretDefinition \<Rightarrow> string option \<Rightarrow> secret_reason option" where
  "validateSecretValue lib def value =
     (if blank value then (if sd_required def then Some RequiredMissing else None)
      else
        let str = the value in
        case sd_type def of
          T_stellar_key \<Rightarrow> validateStellarSecretKey lib str
        | T_database_url \<Rightarrow> validateDatabaseUrl lib str
        | T_redis_url \<Rightarrow> validateRedisUrl lib str
        | T_aviationstack_key \<Rightarrow> validateAviationStackKey str
        | _ \<Rightarrow> evaluateSecretEntropy str (case sd_minLength def of None \<Rightarrow> MIN_SECRET_LENGTH | Some m \<Rightarrow> m))"

record secrets_report =
  sr_valid :: bool
  sr_errors :: "(string \<times> secret_reason) list"
  sr_warnings :: "(string \<times> secret_reason) list"

definition API_KEY_NAMES :: string where
  "API_KEY_NAMES = ''ORACLE_OPERATOR_API_KEY/ADMIN_API_KEY''"

definition no_api_key :: "configuration \<Rightarrow> bool" where
  "no_api_key cfg \<longleftrightarrow> blank (cfg ''ORACLE_OPERATOR_API_KEY'') \<and> blank (cfg ''ADMIN_API_KEY'')"

definition report_secret :: "config_lib \<Rightarrow> configuration \<Rightarrow> bool \<Rightarrow> SecretDefinition \<Rightarrow> secrets_report \<Rightarrow> secrets_report" where
  "report_secret lib cfg isProduction def r =
     (case validateSecretValue lib def (cfg (sd_name def)) of
        None \<Rightarrow> r
      | Some reason \<Rightarrow>
          if isProduction \<or> sd_required def \<and> blank (cfg (sd_name def))
          then r\<lparr>sr_valid := False, sr_errors := sr_errors r @ [(sd_name def, reason)]\<rparr>
          else r\<lparr>sr_warnings := sr_warnings r @ [(sd_name def, reason)]\<rparr>)"

definition validateAllSecrets :: "config_lib \<Rightarrow> configuration \<Rightarrow> string \<Rightarrow> secrets_report outcome" where
  "validateAllSecrets lib cfg nodeEnv =
     (let isProduction = (to_lower nodeEnv = ''production'');
          r0 = (if no_api_key cfg
                then (if isProduction then \<lparr>sr_valid = False, sr_errors = [(API_KEY_NAMES, RequiredMissing)], sr_warnings = []\<rparr>
                      else \<lparr>sr_valid = True, sr_errors = [], sr_warnings = [(API_KEY_NAMES, RequiredMissing)]\<rparr>)
                else \<lparr>sr_valid = True, sr_errors = [], sr_warnings = []\<rparr>);
          report = fold (report_secret lib cfg isProduction) SECRET_DEFINITIONS r0 in
      if \<not> sr_valid report \<and> isProduction then Inl (PlainError ''Production secret validation failed'') else Inr report)"

definition isWeakJwtSecret :: "string \<Rightarrow> bool" where
  "isWeakJwtSecret s \<longleftrightarrow> s = [] \<or> evaluateSecretEntropy s MIN_SECRET_LENGTH \<noteq> None"

definition validateJwtSecret :: "string option \<Rightarrow> string \<Rightarrow> unit outcome" where
  "validateJwtSecret secret nodeEnv =
     (if blank secret then Inl (PlainError ''JWT_SECRET environment variable is required'')
      else if evaluateSecretEntropy (the secret) MIN_SECRET_LENGTH \<noteq> None \<and> to_lower nodeEnv = ''production''
      then Inl (PlainError ''JWT_SECRET is invalid'')
      else Inr ())"

section \<open>Configuration values\<close>

definition parseBooleanEnv :: "string option \<Rightarrow> bool \<Rightarrow> bool outcome" where
  "parseBooleanEnv value defaultValue =
     (case value of
        None \<Rightarrow> Inr defaultValue
      | Some v \<Rightarrow>
          if v = [] then Inr defaultValue
          else
            let trimmed = to_lower (trim v) in
            if trimmed \<in> set [''true'', ''1'', ''yes'', ''on''] then Inr True
            else if trimmed \<in> set [''false'', ''0'', ''no'', ''off''] then Inr False
            else Inl (PlainError ''Invalid boolean configuration value''))"

definition validateUrlEnv :: "config_lib \<Rightarrow> string option \<Rightarrow> string outcome" where
  "validateUrlEnv lib value =
     (if blank value then Inl (PlainError ''Missing required URL configuration'')
      else case xl_protocol lib (the value) of
        None \<Rightarrow> Inl (PlainError ''Invalid URL configuration'')
      | Some protocol \<Rightarrow>
          if protocol \<noteq> ''http:'' \<and> protocol \<noteq> ''https:'' then Inl (PlainError ''Invalid URL protocol'')
          else Inr (the value))"

definition validateOptionalUrlEnv :: "config_lib \<Rightarrow> string option \<Rightarrow> string option outcome" where
  "validateOptionalUrlEnv lib value = (if blank value then Inr None else map_sum (\<lambda>x. x) Some (validateUrlEnv lib value))"

definition setting_between :: "int \<Rightarrow> int \<Rightarrow> jsnum \<Rightarrow> bool" where
  "setting_between lo hi x \<longleftrightarrow> is_integer x \<and> lo \<le> num_int x \<and> num_int x \<le> hi"

definition validatePortEnv :: "config_lib \<Rightarrow> string option \<Rightarrow> int outcome" where
  "validatePortEnv lib value =
     (let candidate = (case value of None \<Rightarrow> js_int 3001 | Some v \<Rightarrow> if v = [] then js_int 3001 else xl_number lib v) in
      if setting_between 1 65535 candidate then Inr (num_int candidate) else Inl (PlainError ''PORT must be an integer between 1 and 65535''))"

datatype trust_proxy = TrustAll bool | TrustHops int | TrustList "string list"

definition non_empty_entries :: "string \<Rightarrow> string list" where
  "non_empty_entries s = filter (\<lambda>x. x \<noteq> []) (map trim (js_split (CHR '','') s))"

definition parseTrustProxy :: "string option \<Rightarrow> trust_proxy" where
  "parseTrustProxy value =
     (case value of
        None \<Rightarrow> TrustAll False
      | Some v \<Rightarrow>
          let raw = trim v in
          if raw = [] \<or> to_lower raw = ''false'' then TrustAll False
          else if to_lower raw = ''true'' then TrustAll True
          else if rx_test (rx_plus (Cls is_digit)) raw then TrustHops (digits_val raw)
          else TrustList (non_empty_entries raw))"

definition parseSafeBigInt :: "string option \<Rightarrow> int outcome" where
  "parseSafeBigInt value =
     (case value of
        None \<Rightarrow> Inl (BadRequestException ''value must be a valid integer string'')
      | Some v \<Rightarrow>
          if v = [] then Inl (BadRequestException ''value must be a valid integer string'')
          else
            let str = trim v in
            if \<not> rx_test (rx_seq [rx_opt (rx_lit ''-''), rx_plus (Cls is_digit)]) str
            then Inl (BadRequestException ''value must be a valid numeric integer string without decimals'')
            else Inr (signed_val str))"

section \<open>The whole configuration\<close>

definition redisRetryBounds :: "(string \<times> int \<times> int) list" where
  "redisRetryBounds = [(''REDIS_STARTUP_MAX_ATTEMPTS'', 1, 100), (''REDIS_STARTUP_INITIAL_DELAY_MS'', 0, 60000),
     (''REDIS_STARTUP_MAX_DELAY_MS'', 0, 300000), (''REDIS_STARTUP_ATTEMPT_TIMEOUT_MS'', 1, 120000)]"

definition later_bounds :: "(string \<times> int \<times> int) list" where
  "later_bounds = [(''DATABASE_CONNECTION_LIMIT'', 1, 500), (''DATABASE_POOL_TIMEOUT'', 1, 300), (''DATABASE_CONNECT_TIMEOUT'', 1, 120),
     (''ORACLE_BATCH_SIZE'', 1, 1000), (''ORACLE_FLUSH_INTERVAL_MS'', 10, 60000), (''ORACLE_BUFFER_MAX_SIZE'', 10, 10000)]"

text \<open>An optional number: \<open>True\<close> if it is unset, empty or in its range.\<close>

definition bound_ok :: "config_lib \<Rightarrow> configuration \<Rightarrow> string \<times> int \<times> int \<Rightarrow> bool" where
  "bound_ok lib cfg = (\<lambda>(key, lo, hi). case cfg key of None \<Rightarrow> True | Some raw \<Rightarrow> raw = [] \<or> setting_between lo hi (xl_number lib raw))"

definition bound_errors :: "config_lib \<Rightarrow> configuration \<Rightarrow> (string \<times> int \<times> int) list \<Rightarrow> string list" where
  "bound_errors lib cfg bounds = map fst (filter (\<lambda>b. \<not> bound_ok lib cfg b) bounds)"

definition is_set :: "string option \<Rightarrow> bool" where
  "is_set v \<longleftrightarrow> v \<noteq> None \<and> v \<noteq> Some []"

definition STELLAR_CONTRACT_ID :: rx where
  "STELLAR_CONTRACT_ID = rx_seq [rx_lit ''C'', rx_rep 55 (Cls (\<lambda>c. 65 \<le> (of_char c :: int) \<and> (of_char c :: int) \<le> 90
     \<or> 50 \<le> (of_char c :: int) \<and> (of_char c :: int) \<le> 55))]"

definition contract_ok :: "configuration \<Rightarrow> string \<Rightarrow> bool" where
  "contract_ok cfg key \<longleftrightarrow> (is_set (cfg key) \<longrightarrow> rx_test STELLAR_CONTRACT_ID (the (cfg key)))"

definition cors_errors :: "configuration \<Rightarrow> string list" where
  "cors_errors cfg =
     (if \<not> is_set (cfg ''CORS_ORIGIN'') then [''CORS_ORIGIN'']
      else if list_ex (\<lambda>origin. origin = ''null'' \<or> CHR ''*'' \<in> set origin) (non_empty_entries (the (cfg ''CORS_ORIGIN''))) then [''CORS_ORIGIN'']
      else [])"

text \<open>The names of the entries with errors; \<open>nodeEnv\<close> of the process is used when the configuration has none.\<close>

definition effective_env :: "configuration \<Rightarrow> string option \<Rightarrow> string" where
  "effective_env cfg processEnv =
     (if is_set (cfg ''NODE_ENV'') then the (cfg ''NODE_ENV'') else if is_set processEnv then the processEnv else ''development'')"

definition config_errors :: "config_lib \<Rightarrow> configuration \<Rightarrow> string option \<Rightarrow> string list" where
  "config_errors lib cfg processEnv =
     (let nodeEnv = effective_env cfg processEnv in
      (case validatePortEnv lib (cfg ''PORT'') of Inl _ \<Rightarrow> [''PORT''] | Inr _ \<Rightarrow> [])
      @ bound_errors lib cfg redisRetryBounds
      @ (case validateAllSecrets lib cfg nodeEnv of Inl _ \<Rightarrow> [''secrets''] | Inr _ \<Rightarrow> [])
      @ (case validateJwtSecret (cfg ''JWT_SECRET'') nodeEnv of Inl _ \<Rightarrow> [''JWT_SECRET''] | Inr _ \<Rightarrow> [])
      @ bound_errors lib cfg [(''AUTH_NONCE_TTL_SECONDS'', 1, 86400)]
      @ (if \<not> is_set (cfg ''DATABASE_URL'')
            \<or> \<not> (starts_with ''postgresql://'' (the (cfg ''DATABASE_URL'')) \<or> starts_with ''postgres://'' (the (cfg ''DATABASE_URL'')))
         then [''DATABASE_URL''] else [])
      @ bound_errors lib cfg later_bounds
      @ (if is_set (cfg ''STELLAR_RPC_URL'') then [] else [''STELLAR_RPC_URL''])
      @ (if is_set (cfg ''KEEPER_SECRET_KEY'') then [] else [''KEEPER_SECRET_KEY''])
      @ (if is_set (cfg ''ORACLE_OPERATOR_API_KEY'') \<or> is_set (cfg ''ADMIN_API_KEY'') then [] else [API_KEY_NAMES])
      @ (if contract_ok cfg ''CLAIMS_PROCESSOR_CONTRACT'' then [] else [''CLAIMS_PROCESSOR_CONTRACT''])
      @ (if contract_ok cfg ''POLICY_ENGINE_CONTRACT'' then [] else [''POLICY_ENGINE_CONTRACT''])
      @ cors_errors cfg)"

definition validateConfig :: "config_lib \<Rightarrow> configuration \<Rightarrow> string option \<Rightarrow> int outcome" where
  "validateConfig lib cfg processEnv =
     (if config_errors lib cfg processEnv \<noteq> [] then Inl (PlainError ''Configuration validation failed'')
      else validatePortEnv lib (cfg ''PORT''))"

section \<open>Exactness of the heuristics\<close>

text \<open>The entropy in bits per character, as a real number.\<close>

definition shannon :: "string \<Rightarrow> real" where
  "shannon s = (\<Sum>c \<in> set s. - (real (count_list s c) / real (length s)) * log 2 (real (count_list s c) / real (length s)))"

lemma count_list_pos: "c \<in> set s \<Longrightarrow> 0 < count_list s c"
  using count_list_0_iff [of s c] by (cases "count_list s c") auto

lemma sum_counts: "(\<Sum>c \<in> set s. real (count_list s c)) = real (length s)"
  using sum_count_set [of s "set s"] by (simp flip: of_nat_sum)

lemma shannon_scaled:
  assumes "s \<noteq> []"
  shows "real (length s) * shannon s = real (length s) * log 2 (real (length s)) - (\<Sum>c \<in> set s. real (count_list s c) * log 2 (real (count_list s c)))"
proof -
  let ?n = "real (length s)" and ?k = "\<lambda>c. real (count_list s c)"
  have n: "?n > 0" using assms by simp
  have "?n * shannon s = (\<Sum>c \<in> set s. ?k c * log 2 ?n - ?k c * log 2 (?k c))"
    unfolding shannon_def sum_distrib_left
  proof (rule sum.cong)
    fix c assume "c \<in> set s"
    then have "?k c > 0" using count_list_pos by simp
    then have l: "log 2 (?k c / ?n) = log 2 (?k c) - log 2 ?n" using n by (simp add: log_divide)
    have "?n * (- (?k c / ?n) * x) = - (?k c * x)" for x using n by simp
    from this [of "log 2 (?k c) - log 2 ?n"] show "?n * (- (?k c / ?n) * log 2 (?k c / ?n)) = ?k c * log 2 ?n - ?k c * log 2 (?k c)"
      unfolding l by (simp add: right_diff_distrib)
  qed simp
  also have "\<dots> = (\<Sum>c \<in> set s. ?k c) * log 2 ?n - (\<Sum>c \<in> set s. ?k c * log 2 (?k c))"
    by (simp add: sum_subtractf sum_distrib_right)
  finally show ?thesis by (simp add: sum_counts)
qed

lemma log_prod_powers:
  assumes "finite A" "\<forall>c \<in> A. 0 < (f c :: nat)"
  shows "log 2 (real (\<Prod>c \<in> A. f c ^ (2 * f c))) = 2 * (\<Sum>c \<in> A. real (f c) * log 2 (real (f c)))"
  using assms
proof (induction rule: finite_induct)
  case (insert x A)
  then have "0 < (\<Prod>c \<in> A. f c ^ (2 * f c))" by (auto intro!: prod_pos)
  with insert show ?case by (simp add: log_mult log_nat_power algebra_simps)
qed simp

lemma prod_list_int: "prod_list (map (\<lambda>k. int k ^ (2 * k)) ks) = int (prod_list (map (\<lambda>k. k ^ (2 * k)) ks))"
  by (induction ks) simp_all

text \<open>The comparison without logarithms decides whether the entropy is below five halves of a bit.\<close>

theorem low_entropy_exact:
  assumes "s \<noteq> []"
  shows "low_entropy s \<longleftrightarrow> shannon s < 5 / 2"
proof -
  let ?n = "length s" and ?P = "\<Prod>c \<in> set s. count_list s c ^ (2 * count_list s c)"
  let ?S = "\<Sum>c \<in> set s. real (count_list s c) * log 2 (real (count_list s c))"
  have n: "0 < ?n" using assms by simp
  have P: "prod_list (map (\<lambda>k. k ^ (2 * k)) (frequencies s)) = ?P"
    unfolding frequencies_def map_map comp_def using prod.distinct_set_conv_list [OF distinct_remdups, of "\<lambda>c. count_list s c ^ (2 * count_list s c)" s] by simp
  have pos: "0 < ?P" using count_list_pos by (auto intro!: prod_pos)
  have left: "log 2 (real (?n ^ (2 * ?n))) = 2 * (real ?n * log 2 (real ?n))" using n by (simp add: log_nat_power)
  have "log 2 (real (2 ^ (5 * ?n) * ?P)) = log 2 (real (2 ^ (5 * ?n))) + log 2 (real ?P)" using pos by (simp add: log_mult)
  moreover have "log 2 (real ?P) = 2 * ?S" using count_list_pos by (intro log_prod_powers) auto
  ultimately have right: "log 2 (real (2 ^ (5 * ?n) * ?P)) = 5 * real ?n + 2 * ?S" by (simp add: log_nat_power)
  have "low_entropy s \<longleftrightarrow> int (?n ^ (2 * ?n)) < int (2 ^ (5 * ?n) * ?P)" unfolding low_entropy_def Let_def prod_list_int P by simp
  also have "\<dots> \<longleftrightarrow> ?n ^ (2 * ?n) < 2 ^ (5 * ?n) * ?P" by (rule of_nat_less_iff)
  also have "\<dots> \<longleftrightarrow> log 2 (real (?n ^ (2 * ?n))) < log 2 (real (2 ^ (5 * ?n) * ?P))"
    using n pos by (subst log_less_cancel_iff) (simp_all del: of_nat_mult of_nat_power)
  also have "\<dots> \<longleftrightarrow> real ?n * log 2 (real ?n) - ?S < 5 / 2 * real ?n" unfolding left right by (simp add: field_simps)
  also have "\<dots> \<longleftrightarrow> real ?n * shannon s < real ?n * (5 / 2)" using shannon_scaled [OF assms] by (simp add: mult.commute)
  also have "\<dots> \<longleftrightarrow> shannon s < 5 / 2" using n by simp
  finally show ?thesis .
qed

text \<open>A pattern is found exactly if the text is two or more copies of a shorter one.\<close>

theorem hasRepeatedPattern_exact:
  "hasRepeatedPattern s \<longleftrightarrow> 4 \<le> length s \<and> (\<exists>u k. 2 \<le> k \<and> s = concat (replicate k u))"
proof (cases "4 \<le> length s")
  case True
  have "(\<exists>m \<in> {1..<Suc (length s div 2)}. length s mod m = 0 \<and> concat (replicate (length s div m) (take m s)) = s)
      \<longleftrightarrow> (\<exists>u k. 2 \<le> k \<and> s = concat (replicate k u))"
  proof
    assume "\<exists>m \<in> {1..<Suc (length s div 2)}. length s mod m = 0 \<and> concat (replicate (length s div m) (take m s)) = s"
    then obtain m where m: "1 \<le> m" "m \<le> length s div 2" "concat (replicate (length s div m) (take m s)) = s" by auto
    then have "2 * m \<le> length s" by simp
    then have "2 \<le> length s div m" using m(1) by (simp add: less_eq_div_iff_mult_less_eq)
    with m(3) show "\<exists>u k. 2 \<le> k \<and> s = concat (replicate k u)" by metis
  next
    assume "\<exists>u k. 2 \<le> k \<and> s = concat (replicate k u)"
    then obtain u k where u: "2 \<le> k" "s = concat (replicate k u)" by blast
    have len: "length s = k * length u" unfolding u(2) by (simp add: length_concat sum_list_replicate)
    with True have pos: "0 < length u" by (cases "length u") auto
    then have half: "length u \<le> length s div 2" using len u(1) by (simp add: less_eq_div_iff_mult_less_eq)
    obtain j where j: "k = Suc j" using u(1) by (cases k) auto
    have "take (length u) s = u" using u(2) by (simp add: j)
    moreover have "length s div length u = k" "length s mod length u = 0" using len pos by simp_all
    ultimately show "\<exists>m \<in> {1..<Suc (length s div 2)}. length s mod m = 0 \<and> concat (replicate (length s div m) (take m s)) = s"
      using u(2) pos half by (intro bexI [of _ "length u"]) (simp_all add: Suc_le_eq)
  qed
  with True show ?thesis unfolding hasRepeatedPattern_def list_ex_iff set_upt by (simp only:)
qed (simp add: hasRepeatedPattern_def)

section \<open>What a production start guarantees\<close>

definition strong_secret :: "string \<Rightarrow> bool" where
  "strong_secret s \<longleftrightarrow> 32 \<le> length s \<and> 8 \<le> card (set s) \<and> (\<forall>p \<in> set KNOWN_PLACEHOLDERS. \<not> contains p (to_lower (trim s)))
     \<and> (\<nexists>u k. 2 \<le> k \<and> s = concat (replicate k u)) \<and> \<not> isSimpleSequence s \<and> 5 / 2 \<le> shannon s"

lemma evaluate_strong:
  assumes "evaluateSecretEntropy s 32 = None"
  shows "strong_secret s"
proof -
  have e: "trim s \<noteq> []" "32 \<le> length s" "\<not> list_ex (\<lambda>p. contains p (to_lower (trim s))) KNOWN_PLACEHOLDERS"
    "8 \<le> countDistinctCharacters s" "\<not> hasRepeatedPattern s" "\<not> isSimpleSequence s" "\<not> low_entropy s"
    using assms by (auto simp: evaluateSecretEntropy_def Let_def split: if_splits)
  then have "s \<noteq> []" by auto
  with e show ?thesis
    by (auto simp: strong_secret_def countDistinctCharacters_def low_entropy_exact hasRepeatedPattern_exact list_ex_iff length_remdups_card_conv not_less)
qed

lemma report_valid: "sr_valid (fold (report_secret lib cfg True) defs r) \<longleftrightarrow>
    sr_valid r \<and> (\<forall>d \<in> set defs. validateSecretValue lib d (cfg (sd_name d)) = None)"
  by (induction defs arbitrary: r) (auto simp: report_secret_def split: option.splits)

lemma production_secrets:
  assumes "validateAllSecrets lib cfg nodeEnv = Inr r" "to_lower nodeEnv = ''production''"
  shows "\<not> no_api_key cfg" "\<forall>d \<in> set SECRET_DEFINITIONS. validateSecretValue lib d (cfg (sd_name d)) = None"
  using assms by (auto simp: validateAllSecrets_def Let_def report_valid split: if_splits)

lemma entropy_checked:
  assumes "\<forall>d \<in> set SECRET_DEFINITIONS. validateSecretValue lib d (cfg (sd_name d)) = None"
    and "name \<in> set [''JWT_SECRET'', ''ORACLE_OPERATOR_API_KEY'', ''ADMIN_API_KEY'', ''ORACLE_OPERATOR_API_KEY_PREVIOUS'',
           ''ADMIN_API_KEY_PREVIOUS'', ''WEBHOOK_SECRET_KEY'']" "\<not> blank (cfg name)"
  shows "strong_secret (the (cfg name))"
proof -
  have "\<exists>d \<in> set SECRET_DEFINITIONS. sd_name d = name \<and> sd_minLength d = Some 32 \<and> sd_type d \<in> {T_jwt, T_api_key, T_generic_secret}"
    using assms(2) by (auto simp: SECRET_DEFINITIONS_def secret_def_def)
  then obtain d where d: "d \<in> set SECRET_DEFINITIONS" "sd_name d = name" "sd_minLength d = Some 32" "sd_type d \<in> {T_jwt, T_api_key, T_generic_secret}" by blast
  with assms(1) have "validateSecretValue lib d (cfg name) = None" by auto
  with d(3,4) assms(3) have "evaluateSecretEntropy (the (cfg name)) 32 = None" by (auto simp: validateSecretValue_def Let_def)
  then show ?thesis by (rule evaluate_strong)
qed

text \<open>C38. A server that starts in production has sound secrets and bounded settings: the secret of the tokens and every API key
  and webhook key that is set has at least 32 characters, eight of them different, two and a half bits of entropy per
  character, no known placeholder in it, and is neither a repetition nor a run; there is a key for operators or admins; the
  keeper key has the form that Stellar gives and was accepted; the port and every numeric setting are in their range, contract
  ids have their form, and no origin is a wildcard.\<close>

theorem production_start_sound:
  assumes "validateConfig lib cfg processEnv = Inr port" "to_lower (effective_env cfg processEnv) = ''production''"
  shows "(\<forall>name \<in> set [''JWT_SECRET'', ''ORACLE_OPERATOR_API_KEY'', ''ADMIN_API_KEY'', ''ORACLE_OPERATOR_API_KEY_PREVIOUS'',
             ''ADMIN_API_KEY_PREVIOUS'', ''WEBHOOK_SECRET_KEY'']. \<not> blank (cfg name) \<longrightarrow> strong_secret (the (cfg name)))
     \<and> \<not> blank (cfg ''JWT_SECRET'') \<and> \<not> no_api_key cfg
     \<and> length (trim (the (cfg ''KEEPER_SECRET_KEY''))) = 56 \<and> xl_fromSecret lib (trim (the (cfg ''KEEPER_SECRET_KEY'')))
     \<and> 1 \<le> port \<and> port \<le> 65535 \<and> list_all (bound_ok lib cfg) (redisRetryBounds @ (''AUTH_NONCE_TTL_SECONDS'', 1, 86400) # later_bounds)
     \<and> contract_ok cfg ''CLAIMS_PROCESSOR_CONTRACT'' \<and> contract_ok cfg ''POLICY_ENGINE_CONTRACT''
     \<and> list_all (\<lambda>origin. CHR ''*'' \<notin> set origin) (non_empty_entries (the (cfg ''CORS_ORIGIN'')))"
proof -
  have none: "config_errors lib cfg processEnv = []" and port: "validatePortEnv lib (cfg ''PORT'') = Inr port"
    using assms(1) by (auto simp: validateConfig_def split: if_splits)
  from none obtain r where r: "validateAllSecrets lib cfg (effective_env cfg processEnv) = Inr r"
    unfolding config_errors_def Let_def by (cases "validateAllSecrets lib cfg (effective_env cfg processEnv)") simp_all
  note sec = production_secrets [OF r assms(2)]
  have "secret_def ''KEEPER_SECRET_KEY'' T_stellar_key True None \<in> set SECRET_DEFINITIONS" by (simp add: SECRET_DEFINITIONS_def)
  with sec(2) have "validateSecretValue lib (secret_def ''KEEPER_SECRET_KEY'' T_stellar_key True None) (cfg ''KEEPER_SECRET_KEY'') = None"
    by (force simp: secret_def_def)
  then have keeper: "length (trim (the (cfg ''KEEPER_SECRET_KEY''))) = 56" "xl_fromSecret lib (trim (the (cfg ''KEEPER_SECRET_KEY'')))"
    by (auto simp: validateSecretValue_def validateStellarSecretKey_def secret_def_def Let_def split: if_splits)
  have jwt: "\<not> blank (cfg ''JWT_SECRET'')"
    using none unfolding config_errors_def Let_def by (auto simp: validateJwtSecret_def split: if_splits sum.splits)
  have bounds: "list_all (bound_ok lib cfg) (redisRetryBounds @ (''AUTH_NONCE_TTL_SECONDS'', 1, 86400) # later_bounds)"
    using none unfolding config_errors_def Let_def by (auto simp: bound_errors_def list_all_iff filter_empty_conv split: if_split_asm)
  have contracts: "contract_ok cfg ''CLAIMS_PROCESSOR_CONTRACT''" "contract_ok cfg ''POLICY_ENGINE_CONTRACT''" "cors_errors cfg = []"
    using none unfolding config_errors_def Let_def by (auto split: if_splits)
  from contracts(3) have cors: "list_all (\<lambda>origin. CHR ''*'' \<notin> set origin) (non_empty_entries (the (cfg ''CORS_ORIGIN'')))"
    by (auto simp: cors_errors_def list_all_iff list_ex_iff split: if_splits)
  have "1 \<le> port" "port \<le> 65535" using port by (auto simp: validatePortEnv_def setting_between_def Let_def split: if_splits)
  with entropy_checked [OF sec(2)] jwt sec(1) keeper bounds contracts(1,2) cors show ?thesis by blast
qed

definition sample_config_lib :: config_lib where
  "sample_config_lib = \<lparr>xl_urlPassword = (\<lambda>u. Some []), xl_decode = Some, xl_fromSecret = (\<lambda>s. True), xl_number = (\<lambda>s. NaN),
     xl_protocol = (\<lambda>u. Some ''https:'')\<rparr>"

definition sample_secret :: string where
  "sample_secret = ''kV9zQ2mX7pL4wR8tY1nB6cD3fG5hJ0uA''"

definition sample_config :: configuration where
  "sample_config = map_of [(''NODE_ENV'', ''production''), (''JWT_SECRET'', sample_secret), (''ADMIN_API_KEY'', sample_secret @ ''x''),
     (''KEEPER_SECRET_KEY'', CHR ''S'' # replicate 55 (CHR ''A'')), (''DATABASE_URL'', ''postgres://db/x''),
     (''STELLAR_RPC_URL'', ''https://rpc''), (''CORS_ORIGIN'', ''https://app.example'')]"

theorem production_start_sound_witness:
  "validateConfig sample_config_lib sample_config None = Inr 3001 \<and> strong_secret sample_secret"
proof -
  have run: "validateConfig sample_config_lib sample_config None = Inr 3001" by code_simp
  have "to_lower (effective_env sample_config None) = ''production''" by code_simp
  from production_start_sound [OF run this] have "strong_secret (the (sample_config ''JWT_SECRET''))" by simp
  then show ?thesis using run by (simp add: sample_config_def)
qed

text \<open>The search for placeholders looks inside the secret: a random text that happens to contain one of the short ones, in any
  case of letters, is refused although it is as good as any other.\<close>

theorem random_secret_refused:
  "evaluateSecretEntropy ''kV9zQ2mX7pL4RoOt1nB6cD3fG5hJ0uAwY8'' 32 = Some IsPlaceholder
   \<and> evaluateSecretEntropy ''kV9zQ2mX7pL4RoXt1nB6cD3fG5hJ0uAwY8'' 32 = None"
  by code_simp

section \<open>Integers in parameters\<close>

lemma nat_str_no_sign:
  assumes "0 \<le> n"
  shows "hd (nat_str n) \<noteq> CHR ''-'' \<and> hd (nat_str n) \<noteq> CHR ''+''"
proof -
  have "is_digit (hd (nat_str n))" using nat_str_digits [OF assms] nat_str_not_Nil [of n] by (metis list.set_sel(1) list_all_iff)
  then show ?thesis using digit_not_sign by blast
qed

lemma int_str_no_space: "list_all (\<lambda>c. \<not> is_space c) (int_str n)"
proof -
  have "list_all is_digit (nat_str \<bar>n\<bar>)" by simp
  then have "list_all (\<lambda>c. \<not> is_space c) (nat_str \<bar>n\<bar>)" using digit_not_space by (auto simp: list_all_iff)
  moreover have "\<not> is_space (CHR ''-'')" by code_simp
  ultimately show ?thesis by (cases "n < 0") (simp_all add: int_str_def)
qed

text \<open>Integers of any size survive the way through their text, exactly.\<close>

theorem parseSafeBigInt_roundtrip: "parseSafeBigInt (Some (int_str n)) = Inr n"
proof -
  have digits: "list_all is_digit (nat_str \<bar>n\<bar>)" by simp
  have trim: "trim (int_str n) = int_str n" using int_str_no_space by (intro trim_no_space) (auto simp: list_all_iff)
  have "rx_test (rx_seq [rx_opt (rx_lit ''-''), rx_plus (Cls is_digit)]) (int_str n)"
    unfolding rx_test_lang rx_lang_seq_iff
    using digits by (intro exI [of _ "[if n < 0 then ''-'' else [], nat_str \<bar>n\<bar>]"]) (auto simp: int_str_def rx_lang_plus_Cls)
  moreover have "signed_val (int_str n) = n"
  proof (cases "n < 0")
    case True
    then show ?thesis by (simp add: signed_val_def int_str_def)
  next
    case False
    obtain c cs where c: "nat_str n = c # cs" using nat_str_not_Nil [of n] by (cases "nat_str n") auto
    have "take_sign (nat_str n) = ([], nat_str n)" using nat_str_no_sign [of n] False by (simp add: c)
    with False show ?thesis by (simp add: signed_val_def int_str_def)
  qed
  ultimately show ?thesis using trim by (simp add: parseSafeBigInt_def int_str_def Let_def)
qed

end
