(* ===== verification/Doubles.thy ===== *)
theory Doubles
  imports Prelude "HOL-Library.Log_Nat"
begin

text \<open>
  Arithmetic of the language on numbers: 64-bit binary floating point with rounding to nearest, ties to even. A number is the
  rational it denotes; an operation is the exact result, rounded once. Used where the code adds measurements, and there only.
\<close>

section \<open>Rounding\<close>

text \<open>The exponent of a rational other than zero: \<open>2\<close> to it is at most the absolute value, and twice as much is more.\<close>

definition binade :: "rat \<Rightarrow> int" where
  "binade x =
     (case quotient_of \<bar>x\<bar> of (p, q) \<Rightarrow>
        let k = bitlen p - bitlen q in if 2 powi k \<le> \<bar>x\<bar> then k else k - 1)"

definition round_even :: "rat \<Rightarrow> int" where
  "round_even y =
     (let f = \<lfloor>y\<rfloor>; r = y - of_int f in if r < 1 / 2 \<or> (r = 1 / 2 \<and> even f) then f else f + 1)"

text \<open>The last place of a number with 53 significant bits; below the smallest exponent it stays the same.\<close>

definition last_place :: "rat \<Rightarrow> rat" where
  "last_place x = 2 powi (max (binade x) (-1022) - 52)"

definition js_double :: "rat \<Rightarrow> jsnum" where
  "js_double x =
     (if x = 0 then Fin 0
      else
        let y = of_int (round_even (x / last_place x)) * last_place x in
        if y \<ge> 2 ^ 1024 then PosInf else if y \<le> - (2 ^ 1024) then NegInf else Fin y)"

section \<open>Operations\<close>

fun js_add :: "jsnum \<Rightarrow> jsnum \<Rightarrow> jsnum" where
  "js_add (Fin a) (Fin b) = js_double (a + b)"
| "js_add NaN _ = NaN"
| "js_add _ NaN = NaN"
| "js_add PosInf NegInf = NaN"
| "js_add NegInf PosInf = NaN"
| "js_add PosInf _ = PosInf"
| "js_add _ PosInf = PosInf"
| "js_add NegInf _ = NegInf"
| "js_add _ NegInf = NegInf"

text \<open>The product with a positive number, and the quotient by one.\<close>

fun js_scale :: "rat \<Rightarrow> jsnum \<Rightarrow> jsnum" where
  "js_scale c (Fin a) = js_double (a * c)"
| "js_scale c x = x"

fun js_over :: "rat \<Rightarrow> jsnum \<Rightarrow> jsnum" where
  "js_over c (Fin a) = js_double (a / c)"
| "js_over c x = x"

text \<open>\<^verbatim>\<open>reduce((a, b) => a + b, 0)\<close>.\<close>

definition js_sum :: "jsnum list \<Rightarrow> jsnum" where
  "js_sum xs = foldl js_add (Fin 0) xs"

text \<open>\<^verbatim>\<open>Math.round\<close>: the nearest integer, ties upwards. A big integer is made of integers only.\<close>

fun BigInt_round :: "jsnum \<Rightarrow> int outcome" where
  "BigInt_round (Fin r) = Inr \<lfloor>r + 1 / 2\<rfloor>"
| "BigInt_round _ = Inl (PlainError ''RangeError'')"

fun js_round :: "jsnum \<Rightarrow> jsnum" where
  "js_round (Fin r) = js_int \<lfloor>r + 1 / 2\<rfloor>"
| "js_round x = x"

section \<open>Errors\<close>

lemma binade_le:
  assumes "x \<noteq> 0"
  shows "2 powi binade x \<le> \<bar>x\<bar>"
proof -
  obtain p q where pq: "quotient_of \<bar>x\<bar> = (p, q)" by fastforce
  have x: "\<bar>x\<bar> = of_int p / of_int q" and q: "0 < q" using pq quotient_of_div quotient_of_denom_pos by auto
  have p: "0 < p" using assms x q by (metis abs_le_zero_iff divide_nonpos_pos not_le of_int_0_less_iff of_int_le_0_iff)
  define a b where "a = bitlen p" and "b = bitlen q"
  have ab: "1 \<le> a" "1 \<le> b" using p q bitlen_eq_zero_iff [of p] bitlen_eq_zero_iff [of q] bitlen_nonneg [of p] bitlen_nonneg [of q]
    unfolding a_def b_def by linarith+
  have low: "2 ^ nat (a - 1) \<le> p" and high: "q < 2 ^ nat b" using bitlen_bounds [OF p] bitlen_bounds [OF q] by (auto simp: a_def b_def)
  have "(2 :: rat) powi (a - b - 1) = 2 powi (a - 1) / 2 powi b" by (simp add: power_int_diff power_int_add algebra_simps)
  also have "\<dots> = 2 ^ nat (a - 1) / 2 ^ nat b" using ab by (simp add: power_int_def)
  also have "\<dots> \<le> of_int p / of_int q"
  proof (rule frac_le)
    show "(2 :: rat) ^ nat (a - 1) \<le> of_int p" using low by (metis of_int_le_iff of_int_numeral of_int_power)
    show "of_int q \<le> (2 :: rat) ^ nat b" using high by (metis less_imp_le of_int_le_iff of_int_numeral of_int_power)
  qed (use p q in simp_all)
  finally show ?thesis using pq x by (auto simp: binade_def a_def b_def Let_def)
qed

lemma round_even_near: "\<bar>of_int (round_even y) - y\<bar> \<le> 1 / 2"
proof -
  have "of_int \<lfloor>y\<rfloor> \<le> y" "y < of_int \<lfloor>y\<rfloor> + 1" by linarith+
  then show ?thesis unfolding round_even_def Let_def by (auto simp: abs_le_iff)
qed

lemma last_place_bound:
  assumes "x \<noteq> 0"
  shows "last_place x / 2 \<le> max 1 \<bar>x\<bar> / 2 ^ 53"
proof -
  have "last_place x / 2 = 2 powi (max (binade x) (-1022)) / 2 ^ 53"
    by (simp add: last_place_def power_int_diff)
  moreover have "(2 :: rat) powi max (binade x) (-1022) \<le> max 1 \<bar>x\<bar>"
  proof (cases "binade x \<ge> -1022")
    case True
    then show ?thesis using binade_le [OF assms] by (simp add: max_def)
  next
    case False
    then have "(2 :: rat) powi max (binade x) (-1022) \<le> 2 powi 0" by (intro power_int_increasing) auto
    then show ?thesis by simp
  qed
  ultimately show ?thesis by (simp add: divide_right_mono)
qed

text \<open>The error of one rounding, for numbers far from overflow.\<close>

lemma js_double_error:
  assumes "\<bar>x\<bar> \<le> 2 ^ 100"
  obtains y where "js_double x = Fin y" "\<bar>y - x\<bar> \<le> max 1 \<bar>x\<bar> / 2 ^ 53"
proof (cases "x = 0")
  case True
  then show ?thesis by (intro that [of 0]) (simp_all add: js_double_def)
next
  case False
  define u where "u = last_place x"
  define y where "y = of_int (round_even (x / u)) * u"
  have u: "0 < u" by (simp add: u_def last_place_def)
  have "\<bar>y - x\<bar> = \<bar>of_int (round_even (x / u)) - x / u\<bar> * u"
  proof -
    have "y - x = (of_int (round_even (x / u)) - x / u) * u" using u by (simp add: y_def left_diff_distrib)
    then show ?thesis using u by (simp add: abs_mult)
  qed
  also have "\<dots> \<le> 1 / 2 * u" using round_even_near u by (intro mult_right_mono) auto
  also have "\<dots> \<le> max 1 \<bar>x\<bar> / 2 ^ 53" using last_place_bound [OF False] by (simp add: u_def)
  finally have err: "\<bar>y - x\<bar> \<le> max 1 \<bar>x\<bar> / 2 ^ 53" .
  have "max 1 \<bar>x\<bar> / 2 ^ 53 \<le> 2 ^ 100 / 2 ^ 53" using assms by (intro divide_right_mono) auto
  also have "\<dots> \<le> (2 :: rat) ^ 100" by simp
  finally have "\<bar>y - x\<bar> \<le> 2 ^ 100" using err by (rule order_trans [rotated])
  then have "\<bar>y\<bar> \<le> 2 ^ 101" using assms by (simp add: abs_le_iff)
  moreover have "(2 :: rat) ^ 101 < 2 ^ 1024" by (rule power_strict_increasing) simp_all
  ultimately have "\<bar>y\<bar> < 2 ^ 1024" by (rule le_less_trans)
  then have "js_double x = Fin y" using False by (auto simp: js_double_def Let_def y_def u_def abs_less_iff not_le)
  with err show ?thesis by (rule that [rotated])
qed

text \<open>A measurement as the language reads it: the double next to a rational that is not large.\<close>

lemma measurement_near:
  assumes "\<bar>q\<bar> \<le> 20160"
  obtains y where "js_double q = Fin y" "\<bar>y - q\<bar> \<le> 1 / 2 ^ 38"
proof -
  have "\<bar>q\<bar> \<le> 2 ^ 100" using assms by simp
  from js_double_error [OF this] obtain y where y: "js_double q = Fin y" "\<bar>y - q\<bar> \<le> max 1 \<bar>q\<bar> / 2 ^ 53" .
  have "max 1 \<bar>q\<bar> / 2 ^ 53 \<le> 2 ^ 15 / 2 ^ 53" using assms by (intro divide_right_mono) auto
  with y show ?thesis by (intro that) auto
qed

text \<open>The error of a sum of at most 31 measurements, the days of a month.\<close>

lemma js_add_near:
  assumes "\<bar>a - A\<bar> \<le> of_nat k / 2 ^ 32" "\<bar>A\<bar> \<le> of_nat k * 20160" "\<bar>q\<bar> \<le> 20160" "k < 31"
  obtains b where "js_add (Fin a) (js_double q) = Fin b" "\<bar>b - (A + q)\<bar> \<le> of_nat (Suc k) / 2 ^ 32"
proof -
  obtain y where y: "js_double q = Fin y" "\<bar>y - q\<bar> \<le> 1 / 2 ^ 38" using measurement_near [OF assms(3)] .
  have k: "(of_nat k :: rat) \<le> 30" using assms(4) by (metis Suc_leI Suc_numeral eval_nat_numeral(3) not_less_eq_eq of_nat_le_iff of_nat_numeral semiring_norm(28))
  have "\<bar>a + y\<bar> \<le> \<bar>A\<bar> + \<bar>a - A\<bar> + \<bar>q\<bar> + \<bar>y - q\<bar>" by (simp add: abs_if)
  also have "\<dots> \<le> 30 * 20160 + 30 / 2 ^ 32 + 20160 + 1 / 2 ^ 38"
    using assms(1-3) y(2) k by (intro add_mono) auto
  also have "\<dots> \<le> 2 ^ 20" by simp
  finally have size: "\<bar>a + y\<bar> \<le> 2 ^ 20" .
  then have "\<bar>a + y\<bar> \<le> 2 ^ 100" by (rule order_trans) simp
  from js_double_error [OF this] obtain b where b: "js_double (a + y) = Fin b" "\<bar>b - (a + y)\<bar> \<le> max 1 \<bar>a + y\<bar> / 2 ^ 53" .
  have "max 1 \<bar>a + y\<bar> / 2 ^ 53 \<le> 2 ^ 20 / 2 ^ 53" using size by (intro divide_right_mono) auto
  with b(2) have "\<bar>b - (a + y)\<bar> \<le> 1 / 2 ^ 33" by simp
  moreover have "\<bar>b - (A + q)\<bar> \<le> \<bar>b - (a + y)\<bar> + \<bar>a - A\<bar> + \<bar>y - q\<bar>" by (simp add: abs_if)
  ultimately have "\<bar>b - (A + q)\<bar> \<le> 1 / 2 ^ 33 + of_nat k / 2 ^ 32 + 1 / 2 ^ 38" using assms(1) y(2) by linarith
  also have "\<dots> \<le> of_nat (Suc k) / 2 ^ 32" by (simp add: field_simps)
  finally show ?thesis using that b(1) y(1) by simp
qed

lemma js_sum_from_near:
  assumes "\<bar>a - A\<bar> \<le> of_nat k / 2 ^ 32" "\<bar>A\<bar> \<le> of_nat k * 20160" "list_all (\<lambda>q. \<bar>q\<bar> \<le> 20160) qs" "k + length qs \<le> 31"
  shows "\<exists>b. foldl js_add (Fin a) (map js_double qs) = Fin b \<and> \<bar>b - (A + sum_list qs)\<bar> \<le> of_nat (k + length qs) / 2 ^ 32"
  using assms
proof (induction qs arbitrary: a A k)
  case (Cons q qs)
  then have q: "\<bar>q\<bar> \<le> 20160" "k < 31" by simp_all
  obtain b where b: "js_add (Fin a) (js_double q) = Fin b" "\<bar>b - (A + q)\<bar> \<le> of_nat (Suc k) / 2 ^ 32"
    using js_add_near [OF Cons.prems(1,2) q] .
  have "\<bar>A + q\<bar> \<le> of_nat (Suc k) * 20160" using Cons.prems(2) q(1) abs_triangle_ineq [of A q] by (simp add: algebra_simps)
  from Cons.IH [OF b(2) this] Cons.prems show ?case by (simp add: b(1) add.assoc)
qed simp

lemma js_sum_near:
  assumes "list_all (\<lambda>q. \<bar>q\<bar> \<le> 20160) qs" "length qs \<le> 31"
  obtains b where "js_sum (map js_double qs) = Fin b" "\<bar>b - sum_list qs\<bar> \<le> of_nat (length qs) / 2 ^ 32" "\<bar>b\<bar> \<le> 2 ^ 20"
proof -
  obtain b where b: "js_sum (map js_double qs) = Fin b" "\<bar>b - sum_list qs\<bar> \<le> of_nat (length qs) / 2 ^ 32"
    using js_sum_from_near [of 0 0 0 qs] assms by (auto simp: js_sum_def)
  have n: "(of_nat (length qs) :: rat) \<le> 31" using assms(2) by (metis of_nat_le_iff of_nat_numeral)
  have "\<bar>sum_list qs\<bar> \<le> of_nat (length qs) * 20160" 
    using assms(1) by (induction qs) (auto simp: algebra_simps intro: order_trans [OF abs_triangle_ineq add_mono])
  then have "\<bar>sum_list qs\<bar> \<le> 31 * 20160" using n by (elim order_trans) simp
  moreover have "of_nat (length qs) / 2 ^ 32 \<le> (1 :: rat)" using n by simp
  ultimately have "\<bar>b\<bar> \<le> 31 * 20160 + 1" using b(2) by linarith
  then have "\<bar>b\<bar> \<le> 2 ^ 20" by (rule order_trans) simp
  with b show ?thesis by (rule that)
qed

text \<open>Scaling to units of the seventh decimal, and rounding.\<close>

lemma js_scale_near:
  assumes "\<bar>b\<bar> \<le> 2 ^ 20"
  obtains z where "js_scale 10000000 (Fin b) = Fin z" "\<bar>z - b * 10000000\<bar> \<le> 1 / 2 ^ 9"
proof -
  have size: "\<bar>b * 10000000\<bar> \<le> 2 ^ 44" using assms by (simp add: abs_mult)
  then have "\<bar>b * 10000000\<bar> \<le> 2 ^ 100" by (rule order_trans) simp
  from js_double_error [OF this] obtain z where z: "js_double (b * 10000000) = Fin z" "\<bar>z - b * 10000000\<bar> \<le> max 1 \<bar>b * 10000000\<bar> / 2 ^ 53" .
  have "max 1 \<bar>b * 10000000\<bar> / 2 ^ 53 \<le> 2 ^ 44 / 2 ^ 53" using size by (intro divide_right_mono) auto
  with z show ?thesis by (intro that) auto
qed

lemma round_near: "\<bar>z - of_int n\<bar> < 1 / 2 \<Longrightarrow> \<lfloor>z + 1 / 2\<rfloor> = n" for z :: rat
  by (rule floor_unique) linarith+

text \<open>The sum of at most 31 decimals with seven places, scaled and rounded, is exact.\<close>

lemma decimal_sum_exact:
  assumes "list_all (\<lambda>m. \<bar>m\<bar> \<le> 201600000000) ms" "length ms \<le> 31"
  shows "BigInt_round (js_scale 10000000 (js_sum (map (\<lambda>m. js_double (of_int m / 10000000)) ms))) = Inr (sum_list ms)"
proof -
  let ?qs = "map (\<lambda>m. of_int m / 10000000 :: rat) ms"
  have "\<bar>of_int m / 10000000 :: rat\<bar> \<le> 20160" if "\<bar>m\<bar> \<le> 201600000000" for m :: int
  proof -
    have "\<bar>of_int m :: rat\<bar> \<le> 201600000000" using that by (metis of_int_abs of_int_le_iff of_int_numeral)
    then show ?thesis by (simp add: abs_le_iff)
  qed
  then have small: "list_all (\<lambda>q. \<bar>q\<bar> \<le> 20160) ?qs" using assms(1) by (simp add: list_all_iff)
  have total: "sum_list ?qs = of_int (sum_list ms) / 10000000" by (induction ms) (simp_all add: add_divide_distrib)
  obtain b where b: "js_sum (map js_double ?qs) = Fin b" "\<bar>b - sum_list ?qs\<bar> \<le> of_nat (length ?qs) / 2 ^ 32" "\<bar>b\<bar> \<le> 2 ^ 20"
    using js_sum_near [OF small] assms(2) by auto
  obtain z where z: "js_scale 10000000 (Fin b) = Fin z" "\<bar>z - b * 10000000\<bar> \<le> 1 / 2 ^ 9" using js_scale_near [OF b(3)] .
  have n: "(of_nat (length ms) :: rat) \<le> 31" using assms(2) by (metis of_nat_le_iff of_nat_numeral)
  then have "\<bar>b - sum_list ?qs\<bar> \<le> 31 / 2 ^ 32" using b(2) by (auto elim!: order_trans)
  then have "\<bar>b * 10000000 - of_int (sum_list ms)\<bar> \<le> 31 / 2 ^ 32 * 10000000"
    unfolding total by linarith
  then have "\<bar>z - of_int (sum_list ms)\<bar> \<le> 1 / 2 ^ 9 + 31 / 2 ^ 32 * 10000000" using z(2) by linarith
  then have "\<bar>z - of_int (sum_list ms)\<bar> < 1 / 2" by (rule le_less_trans) simp
  from round_near [OF this] b(1) z(1) show ?thesis by (simp add: comp_def)
qed

section \<open>Single values\<close>

text \<open>The exponent is the one that its name says, and a number closer than half a last place is the result.\<close>

lemma binade_unique:
  assumes "2 powi k \<le> x" "x < 2 powi (k + 1)"
  shows "binade x = k"
proof -
  have pos: "0 < x" using assms(1) by (rule less_le_trans [rotated]) simp
  obtain p q where pq: "quotient_of \<bar>x\<bar> = (p, q)" by fastforce
  have x: "\<bar>x\<bar> = of_int p / of_int q" and q: "0 < q" using pq quotient_of_div quotient_of_denom_pos by auto
  have p: "0 < p" using pos x q by (metis abs_of_pos divide_nonpos_pos not_le of_int_0_less_iff of_int_le_0_iff)
  define a b where "a = bitlen p" and "b = bitlen q"
  have ab: "1 \<le> a" "1 \<le> b" using p q bitlen_eq_zero_iff [of p] bitlen_eq_zero_iff [of q] bitlen_nonneg [of p] bitlen_nonneg [of q]
    unfolding a_def b_def by linarith+
  have high: "p < 2 ^ nat a" and low: "2 ^ nat (b - 1) \<le> q" using bitlen_bounds [OF p] bitlen_bounds [OF q] by (auto simp: a_def b_def)
  have "of_int p / of_int q < (2 :: rat) ^ nat a / 2 ^ nat (b - 1)"
  proof (rule frac_less)
    show "of_int p < (2 :: rat) ^ nat a" using high by (metis of_int_less_iff of_int_numeral of_int_power)
    show "(2 :: rat) ^ nat (b - 1) \<le> of_int q" using low by (metis of_int_le_iff of_int_numeral of_int_power)
  qed (use p in simp_all)
  also have "\<dots> = 2 powi a / 2 powi (b - 1)" using ab by (simp add: power_int_def)
  also have "\<dots> = 2 powi (a - b + 1)" by (simp add: power_int_diff power_int_add)
  finally have up: "x < 2 powi (a - b + 1)" using x pos by simp
  have le: "i \<le> j" if "(2 :: rat) powi i \<le> x" "x < 2 powi (j + 1)" for i j
  proof (rule ccontr)
    assume "\<not> i \<le> j"
    then have "(2 :: rat) powi (j + 1) \<le> 2 powi i" by (intro power_int_increasing) auto
    with that show False by simp
  qed
  have here: "2 powi binade x \<le> x" using binade_le [of x] pos by simp
  have "binade x = (if 2 powi (a - b) \<le> x then a - b else a - b - 1)"
    using pq pos by (simp add: binade_def a_def b_def)
  then have "x < 2 powi (binade x + 1)" using up by simp
  then have "k \<le> binade x" by (rule le [OF assms(1)])
  with le [OF here assms(2)] show ?thesis by simp
qed

lemma round_even_unique: "\<bar>y - of_int n\<bar> < 1 / 2 \<Longrightarrow> round_even y = n"
proof -
  assume "\<bar>y - of_int n\<bar> < 1 / 2"
  with round_even_near [of y] have "\<bar>of_int (round_even y) - of_int n :: rat\<bar> < 1" by linarith
  then show ?thesis by linarith
qed

lemma js_double_nearest:
  assumes "2 powi k \<le> x" "x < 2 powi (k + 1)" "-1022 \<le> k" "k \<le> 99" "\<bar>x * 2 powi (52 - k) - of_int n\<bar> < 1 / 2"
  shows "js_double x = Fin (of_int n / 2 powi (52 - k))"
proof -
  have pos: "0 < x" using assms(1) by (rule less_le_trans [rotated]) simp
  have u: "last_place x = 1 / 2 powi (52 - k)"
    using binade_unique [OF assms(1,2)] assms(3) by (simp add: last_place_def power_int_diff)
  have "(2 :: rat) powi (k + 1) \<le> 2 powi 100" using assms(4) by (intro power_int_increasing) simp_all
  with assms(2) have "x < 2 powi 100" by (rule less_le_trans)
  then have "\<bar>x\<bar> \<le> 2 ^ 100" using pos by simp
  from js_double_error [OF this] obtain y where "js_double x = Fin y" by blast
  moreover have "round_even (x / last_place x) = n" by (rule round_even_unique) (use assms(5) u in simp)
  ultimately show ?thesis using pos u by (auto simp: js_double_def Let_def split: if_splits)
qed

text \<open>A share of 95 points, \<^verbatim>\<open>Math.round(c / d * 95)\<close>, for the days of a month: the exact share, rounded with ties upwards.
  Ties occur for a half of the days and for odd tenths of thirty days only, where both roundings cancel out.\<close>

lemma share_near:
  fixes c d :: int
  assumes "0 \<le> c" "c \<le> d" "0 < d"
  obtains z where "js_scale 95 (js_over (of_int d) (js_int c)) = Fin z" "\<bar>z - 95 * of_int c / of_int d\<bar> \<le> 1 / 2 ^ 40"
proof -
  define x :: rat where "x = of_int c / of_int d"
  have x: "\<bar>x\<bar> \<le> 1" using assms by (simp add: x_def)
  then have "\<bar>x\<bar> \<le> 2 ^ 100" by (rule order_trans) simp
  from js_double_error [OF this] obtain y where y: "js_double x = Fin y" "\<bar>y - x\<bar> \<le> max 1 \<bar>x\<bar> / 2 ^ 53" .
  with x have near: "\<bar>y - x\<bar> \<le> 1 / 2 ^ 53" by (simp add: max_def split: if_splits)
  have "\<bar>y\<bar> \<le> 1 + 1 / 2 ^ 53" using near x by linarith
  then have "\<bar>y * 95\<bar> \<le> 2 ^ 7" by (simp add: abs_mult)
  then have "\<bar>y * 95\<bar> \<le> 2 ^ 100" "max 1 \<bar>y * 95\<bar> / 2 ^ 53 \<le> 2 ^ 7 / 2 ^ 53" by (auto intro: divide_right_mono)
  note size = this
  from js_double_error [OF size(1)] obtain z where "js_double (y * 95) = Fin z" "\<bar>z - y * 95\<bar> \<le> max 1 \<bar>y * 95\<bar> / 2 ^ 53" .
  with size(2) have z: "js_double (y * 95) = Fin z" "\<bar>z - y * 95\<bar> \<le> 2 ^ 7 / 2 ^ 53" by linarith+
  have "\<bar>z - 95 * x\<bar> \<le> 2 ^ 7 / 2 ^ 53 + 95 * (1 / 2 ^ 53)" using z(2) near by linarith
  also have "\<dots> \<le> 1 / 2 ^ 40" by simp
  finally show ?thesis using y z by (intro that [of z]) (simp_all add: js_int_def x_def)
qed

lemma js_double_shares:
  "js_double (1 / 2) = Fin (1 / 2)"
  "js_double (1 / 10) = Fin (3602879701896397 / 36028797018963968)"
  "js_double (3 / 10) = Fin (5404319552844595 / 18014398509481984)"
  "js_double (7 / 10) = Fin (3152519739159347 / 4503599627370496)"
  "js_double (9 / 10) = Fin (8106479329266893 / 9007199254740992)"
  using js_double_nearest [of "-1" "1/2" "2 ^ 52"] js_double_nearest [of "-4" "1/10" 7205759403792794]
    js_double_nearest [of "-2" "3/10" 5404319552844595] js_double_nearest [of "-1" "7/10" 6305039478318694]
    js_double_nearest [of "-1" "9/10" 8106479329266893]
  by (simp_all add: power_int_def power_divide)

lemma js_double_points:
  "js_double (95 / 2) = Fin (95 / 2)"
  "js_double (342273571680157715 / 36028797018963968) = Fin (19 / 2)"
  "js_double (513410357520236525 / 18014398509481984) = Fin (57 / 2)"
  "js_double (299489375220137965 / 4503599627370496) = Fin (133 / 2)"
  "js_double (770115536280354835 / 9007199254740992) = Fin (171 / 2)"
  using js_double_nearest [of 5 "95/2" "95 * 2 ^ 46"] js_double_nearest [of 3 "342273571680157715 / 36028797018963968" "19 * 2 ^ 48"]
    js_double_nearest [of 4 "513410357520236525 / 18014398509481984" "57 * 2 ^ 47"]
    js_double_nearest [of 6 "299489375220137965 / 4503599627370496" "133 * 2 ^ 45"]
    js_double_nearest [of 6 "770115536280354835 / 9007199254740992" "171 * 2 ^ 45"]
  by (simp_all add: power_int_def power_divide)

lemma share_tie:
  fixes c d :: int
  assumes "0 \<le> c" "c \<le> d" "d \<in> {28, 29, 30, 31}" "(190 * c + d) mod (2 * d) = 0"
  shows "js_scale 95 (js_over (of_int d) (js_int c)) = Fin (95 * of_int c / of_int d)"
proof -
  have "(c, d) \<in> {(14, 28), (3, 30), (9, 30), (15, 30), (21, 30), (27, 30)}"
  proof -
    have "list_all (\<lambda>d. list_all (\<lambda>c. (190 * c + d) mod (2 * d) = 0 \<longrightarrow> (c, d) \<in> {(14, 28), (3, 30), (9, 30), (15, 30), (21, 30), (27, 30)}) [0..d]) [28, 29, 30, 31 :: int]"
      by code_simp
    then have "list_all (\<lambda>c. (190 * c + d) mod (2 * d) = 0 \<longrightarrow> (c, d) \<in> {(14, 28), (3, 30), (9, 30), (15, 30), (21, 30), (27, 30)}) [0..d]"
      unfolding list_all_iff [of _ "[28, 29, 30, 31]"] by (rule bspec) (use assms(3) in simp)
    moreover have "c \<in> set [0..d]" using assms(1,2) by (simp only: set_upto atLeastAtMost_iff)
    ultimately have "(190 * c + d) mod (2 * d) = 0 \<longrightarrow> (c, d) \<in> {(14, 28), (3, 30), (9, 30), (15, 30), (21, 30), (27, 30)}"
      unfolding list_all_iff by (rule bspec)
    with assms(4) show ?thesis by (rule mp [rotated])
  qed
  then consider "c = 14 \<and> d = 28" | "c = 3 \<and> d = 30" | "c = 9 \<and> d = 30" | "c = 15 \<and> d = 30" | "c = 21 \<and> d = 30" | "c = 27 \<and> d = 30" by blast
  then show ?thesis by cases (simp_all add: js_int_def js_double_shares js_double_points)
qed

lemma share_exact:
  fixes c d :: int
  assumes "0 \<le> c" "c \<le> d" "d \<in> {28, 29, 30, 31}"
  shows "js_round (js_scale 95 (js_over (of_int d) (js_int c))) = js_int ((190 * c + d) div (2 * d))"
proof -
  define n r where "n = (190 * c + d) div (2 * d)" and "r = (190 * c + d) mod (2 * d)"
  have d: "0 < d" "d \<le> 31" using assms(3) by auto
  have "190 * c + d = n * (2 * d) + r" by (simp only: n_def r_def div_mult_mod_eq)
  then have "(190 * of_int c + of_int d :: rat) = of_int n * (2 * of_int d) + of_int r" by (metis of_int_add of_int_mult of_int_numeral)
  then have half: "95 * of_int c / of_int d + 1 / 2 = (of_int n + of_int r / (2 * of_int d) :: rat)" using d by (simp add: field_simps)
  show ?thesis
  proof (cases "r = 0")
    case True
    then have "js_scale 95 (js_over (of_int d) (js_int c)) = Fin (95 * of_int c / of_int d)" using assms by (intro share_tie) (auto simp: r_def)
    with half True show ?thesis by (simp add: n_def)
  next
    case False
    have r: "0 \<le> r" "r < 2 * d" using d by (simp_all add: r_def)
    with False have "1 \<le> r" "r + 1 \<le> 2 * d" by linarith+
    then have q: "1 / 62 \<le> (of_int r / (2 * of_int d) :: rat)" "(of_int r / (2 * of_int d) :: rat) \<le> 1 - 1 / 62"
      using d by (auto simp: field_simps)
    obtain z where z: "js_scale 95 (js_over (of_int d) (js_int c)) = Fin z" "\<bar>z - 95 * of_int c / of_int d\<bar> \<le> 1 / 2 ^ 40"
      using share_near assms d by blast
    have "\<lfloor>z + 1 / 2\<rfloor> = n"
    proof (rule floor_unique)
      have small: "(1 :: rat) / 2 ^ 40 < 1 / 62" by simp
      show "of_int n \<le> z + 1 / 2" using half q z(2) small by linarith
      show "z + 1 / 2 < of_int n + 1" using half q z(2) small by linarith
    qed
    with z(1) show ?thesis by (simp add: n_def)
  qed
qed

text \<open>Rounding keeps the sign, and so do sums.\<close>

lemma js_double_nonneg: "0 \<le> x \<Longrightarrow> js_double x = Fin y \<Longrightarrow> 0 \<le> y"
proof -
  assume x: "0 \<le> x" and y: "js_double x = Fin y"
  have u: "0 < last_place x" by (simp add: last_place_def)
  then have "0 \<le> \<lfloor>x / last_place x\<rfloor>" using x by simp
  then have "0 \<le> round_even (x / last_place x)" by (auto simp: round_even_def Let_def)
  with y u show ?thesis by (auto simp: js_double_def Let_def split: if_splits)
qed

lemma js_add_stuck: "\<not> is_finite x \<Longrightarrow> \<not> is_finite (js_add x y)"
  by (cases x; cases y) simp_all

lemma js_sum_from_nonneg:
  "0 \<le> a \<Longrightarrow> list_all (\<lambda>v. \<exists>y. v = Fin y \<and> 0 \<le> y) vs \<Longrightarrow> foldl js_add (Fin a) vs = Fin b \<Longrightarrow> 0 \<le> b"
proof (induction vs arbitrary: a)
  case (Cons v vs)
  then obtain y where y: "v = Fin y" "0 \<le> y" by auto
  have stuck: "foldl js_add x vs \<noteq> Fin b" if "\<not> is_finite x" for x
    using that by (induction vs arbitrary: x) (auto simp: js_add_stuck)
  with Cons.prems y obtain c where c: "js_double (a + y) = Fin c" by (cases "js_double (a + y)") auto
  with Cons y js_double_nonneg [of "a + y" c] show ?case by simp
qed simp

text \<open>A value inside whole bounds stays inside them when it is scaled and rounded.\<close>

lemma scaled_within:
  assumes "of_int lo \<le> x" "x \<le> of_int hi" "\<bar>x\<bar> \<le> 20160"
  obtains v where "BigInt_round (js_scale 10000000 (Fin x)) = Inr v" "lo * 10000000 \<le> v" "v \<le> hi * 10000000"
proof -
  have "\<bar>x\<bar> \<le> 2 ^ 20" using assms(3) by (rule order_trans) simp
  from js_scale_near [OF this] obtain z where z: "js_scale 10000000 (Fin x) = Fin z" "\<bar>z - x * 10000000\<bar> \<le> 1 / 2 ^ 9" .
  have tiny: "(1 :: rat) / 2 ^ 9 < 1 / 2" by simp
  have "of_int (lo * 10000000) \<le> z + 1 / 2" using z(2) assms(1) tiny unfolding of_int_mult of_int_add of_int_numeral of_int_1 by linarith
  then have "lo * 10000000 \<le> \<lfloor>z + 1 / 2\<rfloor>" by (simp only: le_floor_iff)
  moreover have "z + 1 / 2 < of_int (hi * 10000000 + 1)" using z(2) assms(2) tiny unfolding of_int_mult of_int_add of_int_numeral of_int_1 by linarith
  then have "\<lfloor>z + 1 / 2\<rfloor> < hi * 10000000 + 1" by (simp only: floor_less_iff)
  ultimately show ?thesis using z(1) by (intro that [of "\<lfloor>z + 1 / 2\<rfloor>"]) simp_all
qed

end
