(* ===== verification/Oracle_Fetch.thy ===== *)
theory Oracle_Fetch
  imports Oracle_Routes Access_Control Startup_Checks Json_Values Doubles
begin

text \<open>
  The fetches of \<^verbatim>\<open>src/oracle/oracle.service.ts\<close>: rainfall and temperature of a month from Open-Meteo, the delay of a flight
  from AviationStack, behind the circuit breakers of the two services; the limits its constructor reads; and the routes of
  \<^verbatim>\<open>src/oracle/oracle.controller.ts\<close> that fetch. What the services answer and when is a parameter: any JSON, or an error. Sums
  are floating-point sums (\<open>Doubles\<close>). The source declares the constant \<^verbatim>\<open>key\<close> twice in two of the functions, with the same
  value; the model has it once.
\<close>

section \<open>Limits of the buffer\<close>

definition env_limit :: "config_lib \<Rightarrow> configuration \<Rightarrow> string \<Rightarrow> int \<Rightarrow> int \<Rightarrow> int \<Rightarrow> string \<Rightarrow> int outcome" where
  "env_limit lib cfg name mn mx dflt msg =
     (if \<not> present (cfg name) then Inr dflt
      else
        let parsed = xl_number lib (the (cfg name)) in
        if \<not> is_integer parsed \<or> js_less parsed (js_int mn) \<or> js_less (js_int mx) parsed then Inl (PlainError msg)
        else Inr (num_int parsed))"

text \<open>The batch size, the flush interval and the size of the buffer.\<close>

definition oracle_limits :: "config_lib \<Rightarrow> configuration \<Rightarrow> (int \<times> int \<times> int) outcome" where
  "oracle_limits lib cfg =
     (case env_limit lib cfg ''ORACLE_BATCH_SIZE'' 1 1000 50 ''ORACLE_BATCH_SIZE must be a positive integer between 1 and 1000'' of
        Inl x \<Rightarrow> Inl x
      | Inr batch \<Rightarrow>
     (case env_limit lib cfg ''ORACLE_FLUSH_INTERVAL_MS'' 10 60000 1000 ''ORACLE_FLUSH_INTERVAL_MS must be an integer between 10 and 60000'' of
        Inl x \<Rightarrow> Inl x
      | Inr flushIntervalMs \<Rightarrow>
     (case env_limit lib cfg ''ORACLE_BUFFER_MAX_SIZE'' 10 10000 1000 ''ORACLE_BUFFER_MAX_SIZE must be an integer between 10 and 10000'' of
        Inl x \<Rightarrow> Inl x
      | Inr maxBuffer \<Rightarrow> Inr (batch, flushIntervalMs, maxBuffer))))"

section \<open>Calls behind a breaker\<close>

text \<open>The breakers of the module, with their thresholds and reset times.\<close>

datatype upstream = OpenMeteo | AviationStack

fun breaker_limits :: "upstream \<Rightarrow> int \<times> int" where
  "breaker_limits OpenMeteo = (5, 30000)"
| "breaker_limits AviationStack = (3, 60000)"

fun breaker_of :: "upstream \<Rightarrow> world \<Rightarrow> CircuitBreaker" where
  "breaker_of OpenMeteo w = openMeteoBreaker w"
| "breaker_of AviationStack w = aviationStackBreaker w"

fun set_breaker :: "upstream \<Rightarrow> (CircuitBreaker \<Rightarrow> CircuitBreaker) \<Rightarrow> world \<Rightarrow> world" where
  "set_breaker OpenMeteo f w = w\<lparr>openMeteoBreaker := f (openMeteoBreaker w)\<rparr>"
| "set_breaker AviationStack f w = w\<lparr>aviationStackBreaker := f (aviationStackBreaker w)\<rparr>"

text \<open>\<^verbatim>\<open>error.response?.status\<close>.\<close>

fun response_code :: "exn \<Rightarrow> int option" where
  "response_code (HttpStatusError n) = Some n"
| "response_code _ = None"

definition CIRCUIT_OPEN :: exn where
  "CIRCUIT_OPEN = ServiceUnavailableException ''External service is temporarily unavailable''"

definition execute :: "upstream \<Rightarrow> 'a act \<Rightarrow> 'a act" where
  "execute up fn =
     bind clock (\<lambda>now.
     bind (gets (\<lambda>w. execute_begin (snd (breaker_limits up)) now (breaker_of up w))) (\<lambda>(admitted, b).
     seq (modify (set_breaker up (\<lambda>_. b)))
     (if \<not> admitted then throw CIRCUIT_OPEN
      else
        catch (bind fn (\<lambda>result. seq (modify (set_breaker up onSuccess)) (ret result)))
          (\<lambda>error. bind clock (\<lambda>t.
             seq (modify (set_breaker up (onFailure (fst (breaker_limits up)) (response_code error) t)))
             (throw error))))))"

section \<open>Dates and keys\<close>

text \<open>What the runtime gives: the answer to a request at a tick, the text of a number, and the offset of local time.\<close>

record fetch_lib =
  fl_get :: "string \<Rightarrow> nat \<Rightarrow> json outcome"
  fl_numStr :: "jsnum \<Rightarrow> string"
  fl_zone :: "int \<Rightarrow> int"

definition pad2 :: "int \<Rightarrow> string" where
  "pad2 n = (if length (int_str n) < 2 then ''0'' @ int_str n else int_str n)"

text \<open>\<^verbatim>\<open>new Date(year, month, 0).getDate()\<close>: the last day of the month; months past the year's end run over, and years of one or
  two digits are of the twentieth century.\<close>

definition daysInMonth :: "int \<Rightarrow> int \<Rightarrow> int" where
  "daysInMonth year month =
     (let y0 = (if 0 \<le> year \<and> year \<le> 99 then 1900 + year else year);
          y = y0 + (month - 1) div 12; m = (month - 1) mod 12 + 1 in
      if m = 12 then 31 else month_offset y (m + 1) - month_offset y m)"

text \<open>\<^verbatim>\<open>today.toISOString().split("T")[0]\<close>, for the years 1000 to 9999.\<close>

definition utc_day :: "int \<Rightarrow> int" where
  "utc_day t = t div 86400000 - DayFromYear (utc_year t) - month_offset (utc_year t) (utc_month t) + 1"

definition iso_date :: "int \<Rightarrow> string" where
  "iso_date t = int_str (utc_year t) @ ''-'' @ pad2 (utc_month t) @ ''-'' @ pad2 (utc_day t)"

definition isPastMonth :: "fetch_lib \<Rightarrow> int \<Rightarrow> int \<Rightarrow> int \<Rightarrow> bool" where
  "isPastMonth lib today year month \<longleftrightarrow>
     (let local = today + fl_zone lib today in year < utc_year local \<or> (year = utc_year local \<and> month < utc_month local))"

definition weather_key :: "fetch_lib \<Rightarrow> string \<Rightarrow> jsnum \<Rightarrow> jsnum \<Rightarrow> int \<Rightarrow> int \<Rightarrow> string" where
  "weather_key lib kind lat lng year month =
     kind @ '':'' @ fl_numStr lib lat @ '','' @ fl_numStr lib lng @ '':'' @ int_str year @ ''-'' @ pad2 month"

definition weather_url :: "fetch_lib \<Rightarrow> string \<Rightarrow> int \<Rightarrow> jsnum \<Rightarrow> jsnum \<Rightarrow> int \<Rightarrow> int \<Rightarrow> string" where
  "weather_url lib metric today lat lng year month =
     (if isPastMonth lib today year month then ''https://archive-api.open-meteo.com/v1/archive'' else ''https://api.open-meteo.com/v1/forecast'')
     @ ''?latitude='' @ fl_numStr lib lat @ ''&longitude='' @ fl_numStr lib lng @ ''&daily='' @ metric
     @ ''&start_date='' @ int_str year @ ''-'' @ pad2 month @ ''-01''
     @ ''&end_date='' @ int_str year @ ''-'' @ pad2 month @ ''-'' @ int_str (daysInMonth year month) @ ''&timezone=UTC''"

section \<open>Weather\<close>

text \<open>The two lists of the answer, if it has the expected structure.\<close>

definition daily_lists :: "string \<Rightarrow> json \<Rightarrow> (json list \<times> json list) option" where
  "daily_lists metric data =
     (let daily = j_member ''daily'' (Some data) in
      case (j_member metric daily, j_member ''time'' daily) of
        (Some (JArr values), Some (JArr dates)) \<Rightarrow> Some (values, dates)
      | _ \<Rightarrow> None)"

text \<open>\<^verbatim>\<open>>\<close> on texts.\<close>

fun text_after :: "string \<Rightarrow> string \<Rightarrow> bool" where
  "text_after [] t = False"
| "text_after (c # cs) [] = True"
| "text_after (c # cs) (d # ds) = (if c = d then text_after cs ds else (of_char d :: int) < of_char c)"

text \<open>\<^verbatim>\<open>date && date > todayStr\<close>: a number or a truth value is not comparable with the text of a date, other values are compared as
  texts.\<close>

fun is_future :: "(jsnum \<Rightarrow> string) \<Rightarrow> string \<Rightarrow> json \<Rightarrow> bool" where
  "is_future numStr todayStr (JStr s) = text_after s todayStr"
| "is_future numStr todayStr (JArr xs) = text_after (js_String numStr (JArr xs)) todayStr"
| "is_future numStr todayStr (JObj kvs) = text_after (js_String numStr (JObj kvs)) todayStr"
| "is_future numStr todayStr _ = False"

text \<open>A value that is no number fails the plausibility check like not-a-number.\<close>

fun as_number :: "json \<Rightarrow> jsnum" where
  "as_number (JNum x) = x"
| "as_number JNegZero = Fin 0"
| "as_number _ = NaN"

text \<open>The observed values, in order: neither null nor of a day after today. A day without a date counts as observed.\<close>

fun observed :: "(jsnum \<Rightarrow> string) \<Rightarrow> string \<Rightarrow> json list \<Rightarrow> json list \<Rightarrow> jsnum list" where
  "observed numStr todayStr [] dates = []"
| "observed numStr todayStr (v # vs) dates =
     (let rest = observed numStr todayStr vs (drop 1 dates) in
      if v = JNull \<or> (dates \<noteq> [] \<and> is_future numStr todayStr (hd dates)) then rest else as_number v # rest)"

fun check_each :: "bound_label \<Rightarrow> jsnum list \<Rightarrow> unit outcome" where
  "check_each label [] = Inr ()"
| "check_each label (v # vs) = (case assertWithinBounds label v of Inl x \<Rightarrow> Inl x | Inr _ \<Rightarrow> check_each label vs)"

definition coverage_confidence :: "int \<Rightarrow> int \<Rightarrow> jsnum" where
  "coverage_confidence count days = js_round (js_scale 95 (js_over (of_int days) (js_int count)))"

definition UNEXPECTED_STRUCTURE :: "string \<Rightarrow> exn" where
  "UNEXPECTED_STRUCTURE what = ServiceUnavailableException (''Upstream '' @ what @ '' data has unexpected structure'')"

text \<open>From the answer to the value and the confidence.\<close>

definition rainfall_of :: "fetch_lib \<Rightarrow> int \<Rightarrow> int \<Rightarrow> json \<Rightarrow> (int \<times> jsnum) outcome" where
  "rainfall_of lib today days data =
     (case daily_lists ''precipitation_sum'' data of
        None \<Rightarrow> Inl (UNEXPECTED_STRUCTURE ''rainfall'')
      | Some (precipitation, dates) \<Rightarrow>
          let observedReadings = observed (fl_numStr lib) (iso_date today) precipitation dates;
              totalMm = js_sum observedReadings;
              confidence = coverage_confidence (int (length observedReadings)) days in
          case check_each B_rainfall observedReadings of
            Inl x \<Rightarrow> Inl x
          | Inr _ \<Rightarrow>
              (case assertWithinBounds B_rainfall totalMm of
                 Inl x \<Rightarrow> Inl x
               | Inr _ \<Rightarrow> (case BigInt_round (js_scale 10000000 totalMm) of Inl x \<Rightarrow> Inl x | Inr v \<Rightarrow> Inr (v, confidence))))"

definition temperature_of :: "fetch_lib \<Rightarrow> int \<Rightarrow> int \<Rightarrow> json \<Rightarrow> (int \<times> jsnum) outcome" where
  "temperature_of lib today days data =
     (case daily_lists ''temperature_2m_max'' data of
        None \<Rightarrow> Inl (UNEXPECTED_STRUCTURE ''temperature'')
      | Some (rawTemps, dates) \<Rightarrow>
          let temps = observed (fl_numStr lib) (iso_date today) rawTemps dates;
              avgTemp = (if temps \<noteq> [] then js_over (of_nat (length temps)) (js_sum temps) else Fin 0);
              confidence = coverage_confidence (int (length temps)) days in
          case (if temps = [] then Inr () else case check_each B_temperature temps of Inl x \<Rightarrow> Inl x | Inr _ \<Rightarrow> assertWithinBounds B_temperature avgTemp) of
            Inl x \<Rightarrow> Inl x
          | Inr _ \<Rightarrow> (case BigInt_round (js_scale 10000000 avgTemp) of Inl x \<Rightarrow> Inl x | Inr v \<Rightarrow> Inr (v, confidence)))"

text \<open>Both fetches have the same course.\<close>

definition fetch_weather :: "fetch_lib \<Rightarrow> string \<Rightarrow> string \<Rightarrow> (int \<Rightarrow> int \<Rightarrow> json \<Rightarrow> (int \<times> jsnum) outcome)
    \<Rightarrow> jsnum \<Rightarrow> jsnum \<Rightarrow> int \<Rightarrow> int \<Rightarrow> Reading act" where
  "fetch_weather lib kind metric value_of lat lng year month =
     bind clock (\<lambda>today.
     bind (execute OpenMeteo (executeWithRateLimitBackoff 3 (call (\<lambda>e. fl_get lib (weather_url lib metric today lat lng year month))))) (\<lambda>data.
     bind (lift (value_of today (daysInMonth year month) data)) (\<lambda>(value, confidence).
     bind clock (\<lambda>t.
     ret \<lparr>rd_dataType = ''weather'', rd_key = weather_key lib kind lat lng year month, rd_value = int_str value,
          rd_confidence = confidence, rd_timestamp = js_int (t div 1000), rd_source = ''open-meteo'', rd_status = None, rd_bucketStart = None\<rparr>))))"

definition fetchRainfallReading :: "fetch_lib \<Rightarrow> jsnum \<Rightarrow> jsnum \<Rightarrow> int \<Rightarrow> int \<Rightarrow> Reading act" where
  "fetchRainfallReading lib = fetch_weather lib ''rainfall'' ''precipitation_sum'' (rainfall_of lib)"

definition fetchTemperatureReading :: "fetch_lib \<Rightarrow> jsnum \<Rightarrow> jsnum \<Rightarrow> int \<Rightarrow> int \<Rightarrow> Reading act" where
  "fetchTemperatureReading lib = fetch_weather lib ''temperature'' ''temperature_2m_max'' (temperature_of lib)"

section \<open>Flights\<close>

text \<open>The delay of the first flight of an answer: \<^verbatim>\<open>flight?.departure?.delay\<close>.\<close>

definition first_delay :: "json list \<Rightarrow> json option" where
  "first_delay flights = (case flights of [] \<Rightarrow> None | flight # _ \<Rightarrow> j_member ''delay'' (j_member ''departure'' (Some flight)))"

text \<open>Status, value and confidence of an answer.\<close>

definition delay_of :: "json \<Rightarrow> (string \<times> int \<times> int) outcome" where
  "delay_of data =
     (if \<not> is_object data then Inl (UNEXPECTED_STRUCTURE ''flight'')
      else case j_member ''data'' (Some data) of
        Some (JArr flights) \<Rightarrow>
          (case first_delay flights of
             None \<Rightarrow> Inr (''NO_DATA'', 0, 0)
           | Some JNull \<Rightarrow> Inr (''NO_DATA'', 0, 0)
           | Some delay \<Rightarrow>
               (case assertWithinBounds B_delay (as_number delay) of
                  Inl x \<Rightarrow> Inl x
                | Inr _ \<Rightarrow> (case BigInt_round (js_scale 10000000 (as_number delay)) of Inl x \<Rightarrow> Inl x | Inr v \<Rightarrow> Inr (''OK'', v, 95))))
      | _ \<Rightarrow> Inr (''NO_DATA'', 0, 0))"

definition flight_url :: "string \<Rightarrow> string \<Rightarrow> string" where
  "flight_url flightNumber date = ''https://api.aviationstack.com/v1/flights?flight_iata='' @ flightNumber @ ''&flight_date='' @ date"

definition fetchFlightDelayReading :: "fetch_lib \<Rightarrow> string \<Rightarrow> string \<Rightarrow> Reading act" where
  "fetchFlightDelayReading lib flightNumber date =
     bind (asks (\<lambda>e. e_config e ''AVIATIONSTACK_API_KEY'')) (\<lambda>apiKey.
     if \<not> present apiKey then throw (ServiceUnavailableException ''AviationStack API is not configured.'')
     else
       bind (execute AviationStack (executeWithRateLimitBackoff 3 (call (\<lambda>e. fl_get lib (flight_url flightNumber date))))) (\<lambda>data.
       bind (lift (delay_of data)) (\<lambda>(status, value, confidence).
       bind clock (\<lambda>t.
       ret \<lparr>rd_dataType = ''flight'', rd_key = ''flight:'' @ flightNumber @ '':'' @ date, rd_value = int_str value,
            rd_confidence = js_int confidence, rd_timestamp = js_int (t div 1000), rd_source = ''aviationstack'',
            rd_status = Some status, rd_bucketStart = None\<rparr>))))"

section \<open>Fetching and storing\<close>

text \<open>\<^verbatim>\<open>fetchRainfall\<close>, \<^verbatim>\<open>fetchTemperature\<close> and \<^verbatim>\<open>fetchFlightDelay\<close>; the arguments of \<open>persistReading\<close> are those of the poll cycle.\<close>

definition and_persist :: "oracle_deps \<Rightarrow> Reading act \<Rightarrow> Reading act" where
  "and_persist d fetch =
     bind fetch (\<lambda>oracleReading.
     seq (persistReading (od_batchSize d) (od_maxBufferSize d) (od_buffered d) (od_flushed d) oracleReading)
     (ret oracleReading))"

definition fetchRainfall :: "fetch_lib \<Rightarrow> oracle_deps \<Rightarrow> jsnum \<Rightarrow> jsnum \<Rightarrow> int \<Rightarrow> int \<Rightarrow> Reading act" where
  "fetchRainfall lib d lat lng year month = and_persist d (fetchRainfallReading lib lat lng year month)"

definition fetchTemperature :: "fetch_lib \<Rightarrow> oracle_deps \<Rightarrow> jsnum \<Rightarrow> jsnum \<Rightarrow> int \<Rightarrow> int \<Rightarrow> Reading act" where
  "fetchTemperature lib d lat lng year month = and_persist d (fetchTemperatureReading lib lat lng year month)"

definition fetchFlightDelay :: "fetch_lib \<Rightarrow> oracle_deps \<Rightarrow> string \<Rightarrow> string \<Rightarrow> Reading act" where
  "fetchFlightDelay lib d flightNumber date = and_persist d (fetchFlightDelayReading lib flightNumber date)"

text \<open>What the poll cycle asks for, \<^verbatim>\<open>parseFloat\<close> of the coordinates included.\<close>

fun worker_fetch :: "fetch_lib \<Rightarrow> (string \<Rightarrow> jsnum) \<Rightarrow> fetch_request \<Rightarrow> Reading act" where
  "worker_fetch lib parseFloat (FetchRainfall lat lng year month) = fetchRainfallReading lib (parseFloat lat) (parseFloat lng) year month"
| "worker_fetch lib parseFloat (FetchFlight flightNumber date) = fetchFlightDelayReading lib flightNumber date"

section \<open>Routes that fetch\<close>

text \<open>The body of a request for a month, and what its declaration demands of it.\<close>

record OracleFeedRequestDto =
  of_lat :: jsnum
  of_lng :: jsnum
  of_year :: jsnum
  of_month :: jsnum

definition num_between :: "int \<Rightarrow> jsnum \<Rightarrow> int \<Rightarrow> bool" where
  "num_between lo x hi \<longleftrightarrow> is_finite x \<and> \<not> js_less x (js_int lo) \<and> \<not> js_less (js_int hi) x"

definition feed_valid :: "OracleFeedRequestDto \<Rightarrow> bool" where
  "feed_valid dto \<longleftrightarrow> num_between (-90) (of_lat dto) 90 \<and> num_between (-180) (of_lng dto) 180
     \<and> is_integer (of_year dto) \<and> num_between 2000 (of_year dto) 2100 \<and> is_integer (of_month dto) \<and> num_between 1 (of_month dto) 12"

text \<open>The reading that a route sends, with its source or without.\<close>

type_synonym sent_reading = "Reading \<times> string option"

definition fetchRainfall_route :: "guard_lib \<Rightarrow> request \<Rightarrow> fetch_lib \<Rightarrow> oracle_deps \<Rightarrow> OracleFeedRequestDto \<Rightarrow> sent_reading act" where
  "fetchRainfall_route gl rq lib d dto =
     seq (operator_canActivate gl rq)
     (if \<not> feed_valid dto then throw (BadRequestException ''Request body failed validation'')
      else if \<not> is_integer (of_month dto) \<or> js_less (of_month dto) (js_int 1) \<or> js_less (js_int 12) (of_month dto)
      then throw (BadRequestException ''month must be an integer between 1 and 12'')
      else bind (fetchRainfall lib d (of_lat dto) (of_lng dto) (num_int (of_year dto)) (num_int (of_month dto))) (\<lambda>reading. ret (reading, None)))"

definition fetchTemperature_route :: "guard_lib \<Rightarrow> request \<Rightarrow> fetch_lib \<Rightarrow> oracle_deps \<Rightarrow> OracleFeedRequestDto \<Rightarrow> sent_reading act" where
  "fetchTemperature_route gl rq lib d dto =
     seq (operator_canActivate gl rq)
     (if \<not> feed_valid dto then throw (BadRequestException ''Request body failed validation'')
      else bind (fetchTemperature lib d (of_lat dto) (of_lng dto) (num_int (of_year dto)) (num_int (of_month dto)))
             (\<lambda>reading. ret (reading, Some (rd_source reading))))"

text \<open>The same with query parameters; \<open>parseFloat\<close> and \<open>toNumber\<close> are the conversions of the language.\<close>

definition getRainfall :: "guard_lib \<Rightarrow> request \<Rightarrow> fetch_lib \<Rightarrow> oracle_deps \<Rightarrow> (string option \<Rightarrow> jsnum) \<Rightarrow> (string option \<Rightarrow> jsnum)
    \<Rightarrow> string option \<Rightarrow> string option \<Rightarrow> string option \<Rightarrow> string option \<Rightarrow> sent_reading act" where
  "getRainfall gl rq lib d parseFloat toNumber lat lng year month =
     seq (operator_canActivate gl rq)
     (if \<not> num_between (-90) (parseFloat lat) 90 then throw (BadRequestException ''lat must be a number between -90 and 90'')
      else if \<not> num_between (-180) (parseFloat lng) 180 then throw (BadRequestException ''lng must be a number between -180 and 180'')
      else if \<not> is_integer (toNumber year) \<or> \<not> num_between 2000 (toNumber year) 2100 then throw (BadRequestException ''year must be an integer between 2000 and 2100'')
      else if \<not> is_integer (toNumber month) \<or> \<not> num_between 1 (toNumber month) 12 then throw (BadRequestException ''month must be an integer between 1 and 12'')
      else bind (fetchRainfall lib d (parseFloat lat) (parseFloat lng) (num_int (toNumber year)) (num_int (toNumber month)))
             (\<lambda>reading. ret (reading, Some (rd_source reading))))"

text \<open>\<open>tomorrow\<close> is the same time of the next day, in local time.\<close>

definition getFlight :: "guard_lib \<Rightarrow> request \<Rightarrow> fetch_lib \<Rightarrow> oracle_deps \<Rightarrow> (string \<Rightarrow> int option) \<Rightarrow> (int \<Rightarrow> int)
    \<Rightarrow> string option \<Rightarrow> string option \<Rightarrow> sent_reading act" where
  "getFlight gl rq lib d dateMs tomorrow flight date =
     seq (operator_canActivate gl rq)
     (seq aviation_canActivate
     (bind clock (\<lambda>now.
      seq (lift (check_flight_query dateMs flight date (tomorrow now)))
      (bind (fetchFlightDelay lib d (the flight) (the date)) (\<lambda>reading. ret (reading, Some (rd_source reading)))))))"

section \<open>What a fetch returns\<close>

lemma backoff_result:
  "backoff_from m k lst fn e s = (Inr x, s') \<Longrightarrow> \<exists>u v. fn e u = (Inr x, v)"
proof (induction m k lst fn arbitrary: s rule: backoff_from.induct)
  case (1 m k lst fn)
  from "1.prems" have run: "\<not> m \<le> k" by (auto simp: backoff_from.simps [of m k] throw_def)
  then have "catch fn (\<lambda>error. if error = HttpStatusError 429
      then seq (if k < m - 1 then await else ret ()) (backoff_from m (Suc k) error fn) else throw error) e s = (Inr x, s')"
    using "1.prems" by (simp add: backoff_from.simps [of m k])
  then show ?case
  proof (unfold catch_Inr, elim disjE exE conjE)
    fix err u
    assume "(if err = HttpStatusError 429 then seq (if k < m - 1 then await else ret ()) (backoff_from m (Suc k) err fn) else throw err) e u = (Inr x, s')"
    with "1.IH" [OF run, of err] show ?case by (auto simp: returns split: if_splits)
  qed blast
qed

lemma execute_result: "execute up fn e s = (Inr x, s') \<Longrightarrow> \<exists>u v. fn e u = (Inr x, v)"
  unfolding execute_def by (auto simp: returns catch_Inr split: prod.splits)

lemma asked_upstream:
  assumes "execute up (executeWithRateLimitBackoff m (call (\<lambda>e. f))) e s = (Inr data, s')"
  obtains k where "f k = Inr data"
proof -
  from execute_result [OF assms] obtain u v where "executeWithRateLimitBackoff m (call (\<lambda>e. f)) e u = (Inr data, v)" by blast
  then obtain u' v' where "call (\<lambda>e. f) e u' = (Inr data, v')" unfolding executeWithRateLimitBackoff_def by (blast dest: backoff_result)
  then show ?thesis by (auto simp: call_def intro: that)
qed

lemma fetch_weather_result:
  assumes "fetch_weather lib kind metric value_of lat lng year month e (n, w) = (Inr r, s')"
  obtains k data v c t where "fl_get lib (weather_url lib metric (e_clock e n) lat lng year month) k = Inr data"
    "value_of (e_clock e n) (daysInMonth year month) data = Inr (v, c)"
    "r = \<lparr>rd_dataType = ''weather'', rd_key = weather_key lib kind lat lng year month, rd_value = int_str v, rd_confidence = c,
       rd_timestamp = js_int (t div 1000), rd_source = ''open-meteo'', rd_status = None, rd_bucketStart = None\<rparr>"
proof -
  from assms obtain data u v c where asked: "execute OpenMeteo (executeWithRateLimitBackoff 3
        (call (\<lambda>_. fl_get lib (weather_url lib metric (e_clock e n) lat lng year month)))) e (Suc n, w) = (Inr data, u)"
    and val: "value_of (e_clock e n) (daysInMonth year month) data = Inr (v, c)"
    and r: "r = \<lparr>rd_dataType = ''weather'', rd_key = weather_key lib kind lat lng year month, rd_value = int_str v, rd_confidence = c,
       rd_timestamp = js_int (e_clock e (fst u) div 1000), rd_source = ''open-meteo'', rd_status = None, rd_bucketStart = None\<rparr>"
    unfolding fetch_weather_def by (fastforce simp: returns)
  from asked obtain k where k: "fl_get lib (weather_url lib metric (e_clock e n) lat lng year month) k = Inr data" by (rule asked_upstream)
  from that [OF k val r] show ?thesis .
qed

section \<open>Fetched values are plausible\<close>

lemma bounds_met:
  assumes "assertWithinBounds label v = Inr ()"
  obtains x where "v = Fin x" "of_int (fst (SANITY_BOUNDS label)) \<le> x" "x \<le> of_int (snd (SANITY_BOUNDS label))"
  using assms by (cases v; cases label) (auto simp: assertWithinBounds_def js_int_def split: if_splits intro: that)

lemma bounds_scaled:
  assumes "assertWithinBounds label v = Inr ()" "BigInt_round (js_scale 10000000 v) = Inr m"
  shows "fst (SANITY_BOUNDS label) * 10000000 \<le> m \<and> m \<le> snd (SANITY_BOUNDS label) * 10000000"
proof -
  obtain x where x: "v = Fin x" "of_int (fst (SANITY_BOUNDS label)) \<le> x" "x \<le> of_int (snd (SANITY_BOUNDS label))"
    using bounds_met [OF assms(1)] .
  then have "\<bar>x\<bar> \<le> 20160" by (cases label) auto
  from scaled_within [OF x(2,3) this] assms(2) x(1) show ?thesis by auto
qed

lemma rainfall_plausible: "rainfall_of lib today days data = Inr (v, c) \<Longrightarrow> 0 \<le> v \<and> v \<le> 200000000000"
  using bounds_scaled [of B_rainfall] by (auto simp: rainfall_of_def Let_def split: option.splits sum.splits prod.splits)

lemma temperature_plausible: "temperature_of lib today days data = Inr (v, c) \<Longrightarrow> -1000000000 \<le> v \<and> v \<le> 1000000000"
proof -
  assume run: "temperature_of lib today days data = Inr (v, c)"
  have zero: "assertWithinBounds B_temperature (Fin 0) = Inr ()" by (simp add: assertWithinBounds_def js_int_def)
  have "\<exists>avg. assertWithinBounds B_temperature avg = Inr () \<and> BigInt_round (js_scale 10000000 avg) = Inr v"
    using run zero unfolding temperature_of_def Let_def by (force split: option.splits sum.splits prod.splits if_splits)
  then show ?thesis using bounds_scaled [of B_temperature] by auto
qed

lemma delay_plausible: "delay_of data = Inr (status, v, c) \<Longrightarrow> 0 \<le> v \<and> v \<le> 201600000000 \<and> (status = ''OK'' \<and> c = 95 \<or> status = ''NO_DATA'' \<and> v = 0 \<and> c = 0)"
  using bounds_scaled [of B_delay] by (auto simp: delay_of_def split: option.splits sum.splits json.splits if_splits)

lemma flight_result:
  assumes "fetchFlightDelayReading lib flightNumber date e s = (Inr r, s')"
  obtains status v c where "\<exists>k data. fl_get lib (flight_url flightNumber date) k = Inr data \<and> delay_of data = Inr (status, v, c)"
    "rd_value r = int_str v" "rd_status r = Some status" "rd_confidence r = js_int c" "rd_key r = ''flight:'' @ flightNumber @ '':'' @ date"
proof -
  from assms obtain data u status v c where asked: "execute AviationStack (executeWithRateLimitBackoff 3
        (call (\<lambda>_. fl_get lib (flight_url flightNumber date)))) e s = (Inr data, u)"
    and val: "delay_of data = Inr (status, v, c)"
    and r: "rd_value r = int_str v" "rd_status r = Some status" "rd_confidence r = js_int c" "rd_key r = ''flight:'' @ flightNumber @ '':'' @ date"
    unfolding fetchFlightDelayReading_def by (fastforce simp: returns)
  from asked obtain k where "fl_get lib (flight_url flightNumber date) k = Inr data" by (rule asked_upstream)
  with val r show ?thesis by (intro that) blast+
qed

text \<open>The delay that an answer shows: the number under \<^verbatim>\<open>departure.delay\<close> of its first flight.\<close>

definition shown_delay :: "json \<Rightarrow> jsnum \<Rightarrow> bool" where
  "shown_delay data x \<longleftrightarrow>
     (\<exists>top flight rest dep d. data = JObj top \<and> j_lookup ''data'' top = Some (JArr (JObj flight # rest))
        \<and> j_lookup ''departure'' flight = Some (JObj dep) \<and> j_lookup ''delay'' dep = Some d \<and> (d = JNum x \<or> d = JNegZero \<and> x = Fin 0))"

lemma first_delay_Some:
  "first_delay flights = Some d \<longleftrightarrow>
     (\<exists>flight rest dep. flights = JObj flight # rest \<and> j_lookup ''departure'' flight = Some (JObj dep) \<and> j_lookup ''delay'' dep = Some d)"
  by (auto simp: first_delay_def j_member_def split: list.splits option.splits json.splits)

lemma scaled_delay:
  assumes "assertWithinBounds B_delay n = Inr ()" "BigInt_round (js_scale 10000000 n) = Inr v"
  obtains x where "n = Fin x" "\<bar>of_int v - x * 10000000\<bar> \<le> 1 / 2 + 1 / 2 ^ 9"
proof -
  from assms(1) obtain x where x: "n = Fin x" "0 \<le> x" "x \<le> 20160"
    by (cases n) (auto simp: assertWithinBounds_def js_int_def not_less split: if_splits)
  then have "\<bar>x\<bar> \<le> 2 ^ 20" by simp
  then obtain z where z: "js_scale 10000000 (Fin x) = Fin z" "\<bar>z - x * 10000000\<bar> \<le> 1 / 2 ^ 9" by (rule js_scale_near)
  with assms(2) x(1) have "v = \<lfloor>z + 1 / 2\<rfloor>" by simp
  then have "of_int v \<le> z + 1 / 2" "z + 1 / 2 < of_int v + 1" by linarith+
  with z(2) have "\<bar>of_int v - x * 10000000\<bar> \<le> 1 / 2 + 1 / 2 ^ 9" by linarith
  with x(1) show thesis by (rule that)
qed

lemma delay_cases:
  assumes "delay_of data = Inr (status, v, c)"
  shows "(\<exists>x. shown_delay data (Fin x) \<and> status = ''OK'' \<and> c = 95 \<and> \<bar>of_int v - x * 10000000\<bar> \<le> 1 / 2 + 1 / 2 ^ 9)
     \<or> (\<forall>x. \<not> shown_delay data x) \<and> status = ''NO_DATA'' \<and> v = 0 \<and> c = 0"
proof (cases "\<exists>flights d. j_member ''data'' (Some data) = Some (JArr flights) \<and> first_delay flights = Some d \<and> d \<noteq> JNull")
  case False
  then have "\<not> shown_delay data x" for x by (auto simp: shown_delay_def j_member_def first_delay_Some)
  with False assms show ?thesis by (auto simp: delay_of_def split: if_splits option.splits json.splits)
next
  case True
  then obtain flights d where d: "j_member ''data'' (Some data) = Some (JArr flights)" "first_delay flights = Some d" "d \<noteq> JNull" by blast
  with assms have ok: "assertWithinBounds B_delay (as_number d) = Inr ()" "BigInt_round (js_scale 10000000 (as_number d)) = Inr v"
    and st: "status = ''OK''" "c = 95"
    by (auto simp: delay_of_def split: if_splits json.splits sum.splits)
  obtain x where x: "as_number d = Fin x" "\<bar>of_int v - x * 10000000\<bar> \<le> 1 / 2 + 1 / 2 ^ 9" using ok by (rule scaled_delay)
  from x(1) have "d = JNum (Fin x) \<or> d = JNegZero \<and> Fin x = Fin 0" by (cases d) auto
  then have "shown_delay data (Fin x)"
    using d(1,2) by (auto simp: shown_delay_def j_member_def first_delay_Some split: json.splits)
  with x(2) st show ?thesis by blast
qed

text \<open>C31. Whatever the outside services answer, a fetch that returns gives a value in the plausible range, in units of the seventh
  decimal: at most 20,000 mm of rain, between minus 100 and 100 degrees, a delay of at most 14 days. The reading of a flight follows an answer
  of the service: if its first flight shows a delay, the reading has status \<^verbatim>\<open>OK\<close>, confidence 95 and that delay, up to the
  rounding to a unit; if it shows none, the reading has status \<^verbatim>\<open>NO_DATA\<close> and confidence 0, so that an unknown delay is not
  mistaken for a flight on time.\<close>

theorem fetched_values_plausible:
  "(fetchRainfallReading lib lat lng year month e s = (Inr r, s') \<longrightarrow> (\<exists>v. rd_value r = int_str v \<and> 0 \<le> v \<and> v \<le> 20000 * 10000000))
   \<and> (fetchTemperatureReading lib lat lng year month e s = (Inr r, s') \<longrightarrow> (\<exists>v. rd_value r = int_str v \<and> -100 * 10000000 \<le> v \<and> v \<le> 100 * 10000000))
   \<and> (fetchFlightDelayReading lib flightNumber date e s = (Inr r, s') \<longrightarrow>
        (\<exists>k data v. fl_get lib (flight_url flightNumber date) k = Inr data \<and> rd_value r = int_str v \<and> 0 \<le> v \<and> v \<le> 20160 * 10000000
          \<and> ((\<exists>x. shown_delay data (Fin x) \<and> rd_status r = Some ''OK'' \<and> rd_confidence r = js_int 95 \<and> \<bar>of_int v - x * 10000000\<bar> \<le> 1 / 2 + 1 / 2 ^ 9)
             \<or> (\<forall>x. \<not> shown_delay data x) \<and> rd_status r = Some ''NO_DATA'' \<and> rd_confidence r = js_int 0 \<and> v = 0)))"
proof (intro conjI impI)
  obtain n w where s: "s = (n, w)" by (cases s)
  { assume "fetchRainfallReading lib lat lng year month e s = (Inr r, s')"
    then show "\<exists>v. rd_value r = int_str v \<and> 0 \<le> v \<and> v \<le> 20000 * 10000000"
      unfolding fetchRainfallReading_def s by (rule fetch_weather_result) (auto dest: rainfall_plausible) }
  { assume "fetchTemperatureReading lib lat lng year month e s = (Inr r, s')"
    then show "\<exists>v. rd_value r = int_str v \<and> -100 * 10000000 \<le> v \<and> v \<le> 100 * 10000000"
      unfolding fetchTemperatureReading_def s by (rule fetch_weather_result) (auto dest: temperature_plausible) }
  { assume "fetchFlightDelayReading lib flightNumber date e s = (Inr r, s')"
    then obtain status v c k data where r: "fl_get lib (flight_url flightNumber date) k = Inr data" "delay_of data = Inr (status, v, c)"
      "rd_value r = int_str v" "rd_status r = Some status" "rd_confidence r = js_int c" by (blast elim: flight_result)
    with delay_plausible [OF r(2)] delay_cases [OF r(2)]
    show "\<exists>k data v. fl_get lib (flight_url flightNumber date) k = Inr data \<and> rd_value r = int_str v \<and> 0 \<le> v \<and> v \<le> 20160 * 10000000
        \<and> ((\<exists>x. shown_delay data (Fin x) \<and> rd_status r = Some ''OK'' \<and> rd_confidence r = js_int 95 \<and> \<bar>of_int v - x * 10000000\<bar> \<le> 1 / 2 + 1 / 2 ^ 9)
           \<or> (\<forall>x. \<not> shown_delay data x) \<and> rd_status r = Some ''NO_DATA'' \<and> rd_confidence r = js_int 0 \<and> v = 0)"
      by (intro exI [of _ k] exI [of _ data] exI [of _ v]) auto }
qed

section \<open>Rainfall is exact\<close>

text \<open>An answer of the weather service: days with the measurement in units of the seventh decimal, if there is one.\<close>

definition weather_answer :: "string \<Rightarrow> (string \<times> int option) list \<Rightarrow> json" where
  "weather_answer metric ds = JObj [(''daily'', JObj
     [(metric, JArr (map (\<lambda>(_, m). case m of None \<Rightarrow> JNull | Some m \<Rightarrow> JNum (js_double (of_int m / 10000000))) ds)),
      (''time'', JArr (map (\<lambda>(date, _). JStr date) ds))])]"

text \<open>The measurements of the days until today.\<close>

definition until_today :: "int \<Rightarrow> (string \<times> int option) list \<Rightarrow> int list" where
  "until_today today ds = List.map_filter (\<lambda>(date, m). if text_after date (iso_date today) then None else m) ds"

lemma daily_lists_answer:
  "metric \<noteq> ''time'' \<Longrightarrow> daily_lists metric (weather_answer metric ds) =
     Some (map (\<lambda>(_, m). case m of None \<Rightarrow> JNull | Some m \<Rightarrow> JNum (js_double (of_int m / 10000000))) ds, map (\<lambda>(date, _). JStr date) ds)"
  by (simp add: daily_lists_def weather_answer_def j_member_def)

lemma observed_answer:
  "observed numStr (iso_date today) (map (\<lambda>(_, m). case m of None \<Rightarrow> JNull | Some m \<Rightarrow> JNum (js_double (of_int m / 10000000))) ds)
     (map (\<lambda>(date, _). JStr date) ds) = map (\<lambda>m. js_double (of_int m / 10000000)) (until_today today ds)"
  by (induction ds) (auto simp: until_today_def map_filter_simps Let_def split: option.splits)

lemma daysInMonth_range: "daysInMonth year month \<in> {28, 29, 30, 31}"
proof -
  have "(month - 1) mod 12 + 1 \<in> {1, 2, 3, 4, 5, 6, 7, 8, 9, 10, 11, 12}" by (simp, presburger)
  then show ?thesis unfolding daysInMonth_def Let_def by (elim insertE) (auto simp: month_offset_def)
qed

lemma check_each_met: "list_all (\<lambda>v. assertWithinBounds label v = Inr ()) vs \<Longrightarrow> check_each label vs = Inr ()"
  by (induction vs) auto

lemma rain_within: "0 \<le> x \<Longrightarrow> x \<le> 20000 \<Longrightarrow> assertWithinBounds B_rainfall (Fin x) = Inr ()"
  by (simp add: assertWithinBounds_def js_int_def)

lemma measured_rain:
  assumes "0 \<le> m" "m < 200000000000"
  obtains y where "js_double (of_int m / 10000000) = Fin y" "0 \<le> y" "y \<le> 20000"
proof -
  have q: "0 \<le> (of_int m / 10000000 :: rat)" "of_int m / 10000000 \<le> (20000 - 1 / 10000000 :: rat)"
    using assms by (simp_all add: field_simps)
  then have "\<bar>of_int m / 10000000 :: rat\<bar> \<le> 20160" by simp
  then obtain y where y: "js_double (of_int m / 10000000) = Fin y" "\<bar>y - of_int m / 10000000\<bar> \<le> 1 / 2 ^ 38" by (rule measurement_near)
  have "(1 :: rat) / 2 ^ 38 \<le> 1 / 10000000" by simp
  with y(2) q(2) have "y \<le> 20000" by linarith
  with y(1) js_double_nonneg [OF q(1) y(1)] show ?thesis by (rule that)
qed

lemma part_le_sum:
  fixes m :: int
  assumes "list_all (\<lambda>m. 0 \<le> m) ms" "m \<in> set ms"
  shows "m \<le> sum_list ms"
proof -
  have "0 \<le> sum_list ns" if "list_all (\<lambda>m. 0 \<le> m) ns" for ns :: "int list" using that by (induction ns) auto
  with assms show ?thesis by (induction ms) fastforce+
qed

lemma rain_total:
  assumes "list_all (\<lambda>m. 0 \<le> m) ms" "sum_list ms < 200000000000" "length ms \<le> 31"
  obtains b where "js_sum (map (\<lambda>m. js_double (of_int m / 10000000)) ms) = Fin b" "0 \<le> b" "b \<le> 20000"
proof -
  let ?qs = "map (\<lambda>m. of_int m / 10000000 :: rat) ms"
  have each: "0 \<le> m \<and> m < 200000000000" if "m \<in> set ms" for m
    using part_le_sum [OF assms(1) that] assms(1,2) that by (auto simp: list_all_iff)
  have small: "list_all (\<lambda>q. \<bar>q\<bar> \<le> 20160) ?qs" 
  proof -
    have "\<bar>of_int m / 10000000 :: rat\<bar> \<le> 20160" if "m \<in> set ms" for m
    proof -
      have "0 \<le> (of_int m :: rat)" "(of_int m :: rat) \<le> 200000000000" using each [OF that] by simp_all
      then show ?thesis by simp
    qed
    then show ?thesis by (simp add: list_all_iff)
  qed
  have total: "sum_list ?qs = of_int (sum_list ms) / 10000000" by (induction ms) (simp_all add: add_divide_distrib)
  obtain b where b: "js_sum (map js_double ?qs) = Fin b" "\<bar>b - sum_list ?qs\<bar> \<le> of_nat (length ?qs) / 2 ^ 32"
    using js_sum_near [OF small] assms(3) by auto
  have "list_all (\<lambda>v. \<exists>y. v = Fin y \<and> 0 \<le> y) (map js_double ?qs)"
    using each by (auto simp: list_all_iff elim!: measured_rain [rotated])
  then have nonneg: "0 \<le> b" using js_sum_from_nonneg [of 0 "map js_double ?qs" b] b(1) by (simp add: js_sum_def)
  have n: "of_nat (length ?qs) / 2 ^ 32 \<le> (31 :: rat) / 2 ^ 32" using assms(3) by (simp add: divide_right_mono)
  have "sum_list ms \<le> 200000000000 - 1" using assms(2) by simp
  then have "(of_int (sum_list ms) :: rat) \<le> 200000000000 - 1" by (metis of_int_1 of_int_diff of_int_le_iff of_int_numeral)
  then have "sum_list ?qs \<le> 20000 - 1 / 10000000" unfolding total by simp
  moreover have "(31 :: rat) / 2 ^ 32 \<le> 1 / 10000000" by simp
  ultimately have "b \<le> 20000" using b(2) n by linarith
  with nonneg b(1) show ?thesis by (intro that [of b]) (simp_all add: comp_def)
qed

lemma rainfall_of_answer:
  assumes "list_all (\<lambda>m. 0 \<le> m) (until_today today ds)" "sum_list (until_today today ds) < 200000000000"
    and "int (length (until_today today ds)) \<le> days" "days \<in> {28, 29, 30, 31}"
  shows "rainfall_of lib today days (weather_answer ''precipitation_sum'' ds) =
    Inr (sum_list (until_today today ds), js_int ((190 * int (length (until_today today ds)) + days) div (2 * days)))"
proof -
  define ms where "ms = until_today today ds"
  let ?vs = "map (\<lambda>m. js_double (of_int m / 10000000)) ms"
  have len: "length ms \<le> 31" using assms(3,4) by (auto simp: ms_def)
  have each: "0 \<le> m \<and> m < 200000000000" if "m \<in> set ms" for m
    using part_le_sum [OF assms(1)] that assms(1,2) by (force simp: list_all_iff ms_def)
  have "assertWithinBounds B_rainfall (js_double (of_int m / 10000000)) = Inr ()" if m: "m \<in> set ms" for m
    using each [OF m] by (metis measured_rain rain_within)
  then have "list_all (\<lambda>v. assertWithinBounds B_rainfall v = Inr ()) ?vs" by (auto simp: list_all_iff)
  then have daily: "check_each B_rainfall ?vs = Inr ()" by (rule check_each_met)
  obtain b where b: "js_sum ?vs = Fin b" "0 \<le> b" "b \<le> 20000" using rain_total [of ms] assms(1,2) len by (auto simp: ms_def)
  have exact: "BigInt_round (js_scale 10000000 (js_sum ?vs)) = Inr (sum_list ms)"
    by (rule decimal_sum_exact) (use each len in \<open>force simp: list_all_iff\<close>)+
  have share: "coverage_confidence (int (length ms)) days = js_int ((190 * int (length ms) + days) div (2 * days))"
    unfolding coverage_confidence_def by (rule share_exact) (use assms(3,4) in \<open>auto simp: ms_def\<close>)
  have answer: "daily_lists ''precipitation_sum'' (weather_answer ''precipitation_sum'' ds) =
     Some (map (\<lambda>(_, m). case m of None \<Rightarrow> JNull | Some m \<Rightarrow> JNum (js_double (of_int m / 10000000))) ds, map (\<lambda>(date, _). JStr date) ds)"
    by (rule daily_lists_answer) simp
  show ?thesis
    using daily exact share rain_within [OF b(2,3)] b(1)
    by (simp add: rainfall_of_def answer observed_answer ms_def Let_def)
qed

lemma closed_call:
  assumes "\<forall>k. f k = Inr data" "cb_state (openMeteoBreaker w) = CLOSED"
  obtains n' w' where "execute OpenMeteo (executeWithRateLimitBackoff 3 (call (\<lambda>_. f))) e (n, w) = (Inr data, (n', w'))"
proof -
  have "executeWithRateLimitBackoff 3 (call (\<lambda>_. f)) e s = (Inr data, (Suc (fst s), e_rely e (fst s) (snd s)))" for s
    using assms(1) by (simp add: executeWithRateLimitBackoff_def backoff_from.simps [of 3 0] catch_def call_def)
  moreover have "execute_begin r t (openMeteoBreaker w) = (True, openMeteoBreaker w)" for r t
    using assms(2) by (simp add: execute_begin_def getState_def)
  ultimately show ?thesis
    by (intro that) (simp add: execute_def bind_def clock_def gets_def modify_def catch_def ret_def)
qed

text \<open>C30. While the weather service answers and its breaker is closed, the rainfall of a month is fetched exactly, in spite of the
  floating-point sum: for daily values with up to seven decimals the reading is the sum of the days observed until today, to the last
  digit, and its confidence is 95 times their share of the month, rounded. Days that are still to come count for nothing.\<close>

theorem rainfall_reading_exact:
  assumes "\<forall>url k. fl_get lib url k = Inr (weather_answer ''precipitation_sum'' ds)" and "cb_state (openMeteoBreaker w) = CLOSED"
    and "list_all (\<lambda>m. 0 \<le> m) (until_today (e_clock e n) ds)" and "sum_list (until_today (e_clock e n) ds) < 20000 * 10000000"
    and "int (length (until_today (e_clock e n) ds)) \<le> daysInMonth year month"
  shows "\<exists>r s'. fetchRainfallReading lib lat lng year month e (n, w) = (Inr r, s')
     \<and> rd_value r = int_str (sum_list (until_today (e_clock e n) ds))
     \<and> rd_confidence r = js_int ((190 * int (length (until_today (e_clock e n) ds)) + daysInMonth year month) div (2 * daysInMonth year month))
     \<and> rd_key r = ''rainfall:'' @ fl_numStr lib lat @ '','' @ fl_numStr lib lng @ '':'' @ int_str year @ ''-'' @ pad2 month"
proof -
  let ?url = "weather_url lib ''precipitation_sum'' (e_clock e n) lat lng year month"
  obtain n' w' where asked: "execute OpenMeteo (executeWithRateLimitBackoff 3 (call (\<lambda>_. fl_get lib ?url))) e (Suc n, w)
      = (Inr (weather_answer ''precipitation_sum'' ds), (n', w'))"
    using closed_call [of "fl_get lib ?url" "weather_answer ''precipitation_sum'' ds" w e "Suc n"] assms(1,2) by blast
  have "rainfall_of lib (e_clock e n) (daysInMonth year month) (weather_answer ''precipitation_sum'' ds) =
    Inr (sum_list (until_today (e_clock e n) ds),
      js_int ((190 * int (length (until_today (e_clock e n) ds)) + daysInMonth year month) div (2 * daysInMonth year month)))"
    using assms(3-5) daysInMonth_range by (intro rainfall_of_answer) simp_all
  with asked show ?thesis
    by (simp add: fetchRainfallReading_def fetch_weather_def bind_def clock_def lift_def ret_def weather_key_def)
qed

definition sample_fetch :: fetch_lib where
  "sample_fetch = \<lparr>fl_get = (\<lambda>url k. Inr (weather_answer ''precipitation_sum''
       [(''2024-03-01'', Some 101000000), (''2024-03-02'', None), (''2024-03-03'', Some 2000000), (''2024-03-04'', Some 999)])),
     fl_numStr = (\<lambda>x. if x = Fin (91 / 10) then ''9.1'' else ''7''), fl_zone = (\<lambda>t. 0)\<rparr>"

theorem rainfall_reading_exact_witness:
  "\<exists>r s'. fetchRainfallReading sample_fetch (Fin (91 / 10)) (Fin 7) 2024 3 (sample_env 1709460000000) (0, empty_world) = (Inr r, s')
     \<and> rd_value r = ''103000000'' \<and> rd_confidence r = js_int 6 \<and> rd_key r = ''rainfall:9.1,7:2024-03''"
proof -
  let ?ds = "[(''2024-03-01'', Some 101000000), (''2024-03-02'', None), (''2024-03-03'', Some 2000000), (''2024-03-04'', Some 999)]"
  have now: "e_clock (sample_env 1709460000000) 0 = 1709460000000" by (simp add: sample_env_def quiet_env_def)
  have facts: "until_today 1709460000000 ?ds = [101000000, 2000000]" "daysInMonth 2024 3 = 31" "int_str 103000000 = ''103000000''"
    "int_str 2024 = ''2024''" "pad2 3 = ''03''" "cb_state (openMeteoBreaker empty_world) = CLOSED" by code_simp+
  from rainfall_reading_exact [of sample_fetch ?ds empty_world "sample_env 1709460000000" 0 2024 3 "Fin (91 / 10)" "Fin 7"] facts now
  show ?thesis by (simp add: sample_fetch_def)
qed

theorem fetched_values_plausible_witness:
  "\<exists>r s'. fetchRainfallReading sample_fetch (Fin (91 / 10)) (Fin 7) 2024 3 (sample_env 1709460000000) (0, empty_world) = (Inr r, s')
     \<and> (\<exists>v. rd_value r = int_str v \<and> 0 \<le> v \<and> v \<le> 20000 * 10000000)"
proof -
  let ?ds = "[(''2024-03-01'', Some 101000000), (''2024-03-02'', None), (''2024-03-03'', Some 2000000), (''2024-03-04'', Some 999)]"
  have answer: "rainfall_of sample_fetch 1709460000000 31 (weather_answer ''precipitation_sum'' ?ds) = Inr (103000000, js_int 6)"
  proof -
    have ms: "until_today 1709460000000 ?ds = [101000000, 2000000]" by code_simp
    show ?thesis using rainfall_of_answer [of 1709460000000 ?ds 31 sample_fetch] unfolding ms by simp
  qed
  have says: "\<forall>k. fl_get sample_fetch url k = Inr (weather_answer ''precipitation_sum'' ?ds)" for url by (simp add: sample_fetch_def)
  have shut: "cb_state (openMeteoBreaker empty_world) = CLOSED" by (simp add: empty_world_def cb_init_def)
  obtain n w where "execute OpenMeteo (executeWithRateLimitBackoff 3 (call (\<lambda>_. fl_get sample_fetch
      (weather_url sample_fetch ''precipitation_sum'' 1709460000000 (Fin (91 / 10)) (Fin 7) 2024 3)))) (sample_env 1709460000000) (1, empty_world)
      = (Inr (weather_answer ''precipitation_sum'' ?ds), (n, w))"
    using closed_call [OF says shut] by blast
  moreover have "e_clock (sample_env 1709460000000) 0 = 1709460000000" by (simp add: sample_env_def quiet_env_def)
  moreover have "daysInMonth 2024 3 = 31" by code_simp
  ultimately obtain r s' where run: "fetchRainfallReading sample_fetch (Fin (91 / 10)) (Fin 7) 2024 3 (sample_env 1709460000000) (0, empty_world) = (Inr r, s')"
    using answer by (auto simp: fetchRainfallReading_def fetch_weather_def bind_def clock_def lift_def ret_def)
  with fetched_values_plausible show ?thesis by blast
qed

section \<open>Keys, routes and limits\<close>

text \<open>A key with coordinates that are not written the shortest way is accepted for a policy and by the poll cycle, but what is
  fetched for it is stored under another key, where nothing that looks for the key of the policy finds it.\<close>

theorem noncanonical_key_lost:
  "rx_test RAINFALL_KEY ''rainfall:9.10,7:2024-03''
   \<and> request_of ''rainfall:9.10,7:2024-03'' = Some (FetchRainfall ''9.10'' ''7'' 2024 3)
   \<and> (parseFloat ''9.10'' = Fin (91 / 10) \<and> parseFloat ''7'' = Fin 7 \<and> fl_numStr lib (Fin (91 / 10)) = ''9.1'' \<and> fl_numStr lib (Fin 7) = ''7''
      \<and> worker_fetch lib parseFloat (FetchRainfall ''9.10'' ''7'' 2024 3) e s = (Inr r, s')
      \<longrightarrow> rd_key r = ''rainfall:9.1,7:2024-03'')"
proof (intro conjI impI)
  show "rx_test RAINFALL_KEY ''rainfall:9.10,7:2024-03''" by code_simp
  show "request_of ''rainfall:9.10,7:2024-03'' = Some (FetchRainfall ''9.10'' ''7'' 2024 3)" by code_simp
  have texts: "int_str 2024 = ''2024''" "pad2 3 = ''03''" by code_simp+
  obtain n w where s: "s = (n, w)" by (cases s)
  assume "parseFloat ''9.10'' = Fin (91 / 10) \<and> parseFloat ''7'' = Fin 7 \<and> fl_numStr lib (Fin (91 / 10)) = ''9.1'' \<and> fl_numStr lib (Fin 7) = ''7''
      \<and> worker_fetch lib parseFloat (FetchRainfall ''9.10'' ''7'' 2024 3) e s = (Inr r, s')"
  then show "rd_key r = ''rainfall:9.1,7:2024-03''"
    unfolding s by (auto simp: fetchRainfallReading_def texts weather_key_def elim!: fetch_weather_result)
qed

text \<open>Flights keep their key.\<close>

lemma flight_key_kept: "worker_fetch lib parseFloat (FetchFlight flightNumber date) e s = (Inr r, s') \<Longrightarrow> rd_key r = ''flight:'' @ flightNumber @ '':'' @ date"
  by (auto elim: flight_result)

text \<open>A route asks the outside service only for a month and a place that exist, and only for an operator.\<close>

theorem rainfall_route_checked:
  assumes "getRainfall gl rq lib d parseFloat toNumber lat lng year month e s = (Inr x, s')"
  obtains la ln y m r u v where "parseFloat lat = Fin la" "-90 \<le> la" "la \<le> 90" "parseFloat lng = Fin ln" "-180 \<le> ln" "ln \<le> 180"
    "toNumber year = js_int y" "2000 \<le> y" "y \<le> 2100" "toNumber month = js_int m" "1 \<le> m" "m \<le> 12"
    "\<exists>ar. operator_canActivate gl rq e s = (Inr ar, u)" "fetchRainfall lib d (Fin la) (Fin ln) y m e u = (Inr r, v)" "x = (r, Some (rd_source r))"
proof -
  from assms obtain u r v ar where g: "operator_canActivate gl rq e s = (Inr ar, u)"
    and c: "num_between (-90) (parseFloat lat) 90" "num_between (-180) (parseFloat lng) 180" "is_integer (toNumber year)"
      "num_between 2000 (toNumber year) 2100" "is_integer (toNumber month)" "num_between 1 (toNumber month) 12"
    and f: "fetchRainfall lib d (parseFloat lat) (parseFloat lng) (num_int (toNumber year)) (num_int (toNumber month)) e u = (Inr r, v)"
      "x = (r, Some (rd_source r))"
    unfolding getRainfall_def by (auto simp: returns)
  from c(1) obtain la where la: "parseFloat lat = Fin la" "-90 \<le> la" "la \<le> 90" by (cases "parseFloat lat") (auto simp: num_between_def js_int_def)
  from c(2) obtain ln where ln: "parseFloat lng = Fin ln" "-180 \<le> ln" "ln \<le> 180" by (cases "parseFloat lng") (auto simp: num_between_def js_int_def)
  from c(3) obtain y where y: "toNumber year = js_int y" by (rule is_integer_cases)
  from c(5) obtain m where m: "toNumber month = js_int m" by (rule is_integer_cases)
  show ?thesis
    by (rule that [OF la ln y _ _ m, of u r v]) (use c(4,6) f g y m la ln in \<open>auto simp: num_between_def\<close>)
qed

text \<open>The limits of the buffer are in their ranges, or the service does not start.\<close>

theorem oracle_limits_ok:
  "oracle_limits lib cfg = Inr (batch, flushMs, maxBuffer) \<Longrightarrow> 1 \<le> batch \<and> batch \<le> 1000 \<and> 10 \<le> flushMs \<and> flushMs \<le> 60000 \<and> 10 \<le> maxBuffer \<and> maxBuffer \<le> 10000"
proof -
  have range: "mn \<le> n \<and> n \<le> mx" if "env_limit lib cfg name mn mx dflt msg = Inr n" "mn \<le> dflt" "dflt \<le> mx" for name mn mx dflt msg n
    using that by (auto simp: env_limit_def Let_def not_less split: if_splits elim!: is_integer_cases)
  assume "oracle_limits lib cfg = Inr (batch, flushMs, maxBuffer)"
  then show ?thesis unfolding oracle_limits_def by (auto split: sum.splits dest!: range)
qed

text \<open>While a breaker is open and its time is not over, nobody is asked: the outcome does not depend on what the service would answer.\<close>

theorem open_breaker_asks_nobody:
  assumes "cb_state (breaker_of up (snd s)) = OPEN" "e_clock e (fst s) - cb_lastFailureTime (breaker_of up (snd s)) < snd (breaker_limits up)"
  shows "execute up fn e s = (Inl CIRCUIT_OPEN, (Suc (fst s), snd s))"
proof -
  have "execute_begin (snd (breaker_limits up)) (e_clock e (fst s)) (breaker_of up (snd s)) = (False, breaker_of up (snd s))"
    using assms by (simp add: execute_begin_def getState_def)
  moreover have "set_breaker up (\<lambda>_. breaker_of up (snd s)) (snd s) = snd s" by (cases up) simp_all
  ultimately show ?thesis by (simp add: execute_def bind_def clock_def gets_def modify_def throw_def)
qed

section \<open>What a fetch keeps\<close>

lemma guar_execute:
  assumes "guarantees evolves fn"
  shows "guarantees evolves (execute up fn)"
proof -
  have "evolves w (set_breaker up f w)" for f w by (cases up) (simp_all add: evolves_elsewhere)
  then show ?thesis unfolding execute_def by (auto intro!: ev.guar ev.guar_modify assms split: prod.splits)
qed

lemma guar_asked: "guarantees evolves (execute up (executeWithRateLimitBackoff m (call f)))"
proof -
  have "guarantees evolves (backoff_from m k lst (call f))" for k lst
    by (induction m k lst "call f" rule: backoff_from.induct) (subst backoff_from.simps, auto intro!: ev.guar)
  then show ?thesis unfolding executeWithRateLimitBackoff_def by (rule guar_execute)
qed

lemma guar_fetch:
  "guarantees evolves (fetchRainfall lib d lat lng year month)"
  "guarantees evolves (fetchTemperature lib d lat lng year month)"
  "guarantees evolves (fetchFlightDelay lib d flightNumber date)"
  unfolding fetchRainfall_def fetchTemperature_def fetchFlightDelay_def and_persist_def fetchRainfallReading_def fetchTemperatureReading_def
    fetchFlightDelayReading_def fetch_weather_def
  by (auto intro!: ev.guar guar_asked guar_evolves_persistReading split: prod.splits)

end
