(* ===== verification/Response_Delivery.thy ===== *)
theory Response_Delivery
  imports Error_Responses
begin

text \<open>
  What happens to a response on its way out: the time limit of a request (\<^verbatim>\<open>src/common/middleware/request-timeout.middleware.ts\<close>)
  and the removal of headers that name the software (\<^verbatim>\<open>src/common/security/response-header-hardening.ts\<close>). Both replace
  methods of the response object; the methods of the runtime that they wrap are modelled with what they do to a response. A handler
  answers with status 200 and sends the head with its first part; sending the head alone is not modelled.
\<close>

section \<open>Time limit of a request\<close>

text \<open>
  The response object of the runtime: whether its head has been sent, the parts that went to the socket, whether it has ended,
  whether the socket still exists; and the variables of the middleware.
\<close>

record response =
  rs_status :: int
  rs_headersSent :: bool
  rs_sent :: "(int \<times> string) list"
  rs_ended :: bool
  rs_destroyed :: bool
  rs_timedOut :: bool
  rs_timer :: bool

definition fresh_response :: response where
  "fresh_response = \<lparr>rs_status = 200, rs_headersSent = False, rs_sent = [], rs_ended = False, rs_destroyed = False, rs_timedOut = False, rs_timer = True\<rparr>"

text \<open>\<^verbatim>\<open>write\<close> and \<^verbatim>\<open>end\<close> of the runtime. What is written after the end or to a destroyed socket is lost.\<close>

definition node_write :: "string \<Rightarrow> response \<Rightarrow> response" where
  "node_write chunk r = (if rs_ended r \<or> rs_destroyed r then r else r\<lparr>rs_headersSent := True, rs_sent := rs_sent r @ [(rs_status r, chunk)]\<rparr>)"

definition node_end :: "string \<Rightarrow> response \<Rightarrow> response" where
  "node_end chunk r = (if rs_ended r \<or> rs_destroyed r then r else (node_write chunk r)\<lparr>rs_ended := True\<rparr>)"

definition patched_write :: "string \<Rightarrow> response \<Rightarrow> response" where
  "patched_write chunk r = (if rs_timedOut r \<and> \<not> rs_headersSent r then r else node_write chunk r)"

definition patched_end :: "string \<Rightarrow> response \<Rightarrow> response" where
  "patched_end chunk r = (if rs_timedOut r \<and> \<not> rs_headersSent r then r else node_end chunk r)"

definition DEFAULT_REQUEST_TIMEOUT_MS :: int where
  "DEFAULT_REQUEST_TIMEOUT_MS = 30000"

text \<open>The body of the answer to an overdue request.\<close>

definition timeout_problem :: "string \<Rightarrow> string option \<Rightarrow> ProblemDetails" where
  "timeout_problem path correlationId = buildProblemDetails
     \<lparr>po_status = 408, po_message = ''The request exceeded the maximum allowed processing time.'', po_error = ''Request Timeout'',
      po_errorCode = None, po_path = path, po_errors = None, po_correlationId = correlationId, po_retryAfter = None\<rparr>"

text \<open>\<^verbatim>\<open>json\<close> of the web framework serialises a body and passes it on; it is a parameter, which gets the \<^verbatim>\<open>end\<close> of the object.\<close>

type_synonym framework_json = "(string \<Rightarrow> response \<Rightarrow> response) \<Rightarrow> ProblemDetails \<Rightarrow> response \<Rightarrow> response"

definition timer_fires :: "framework_json \<Rightarrow> string \<Rightarrow> string option \<Rightarrow> response \<Rightarrow> response" where
  "timer_fires json path correlationId r =
     (if \<not> rs_timer r then r
      else
        let r = r\<lparr>rs_timer := False\<rparr> in
        if rs_headersSent r then r
        else (json patched_end (timeout_problem path correlationId) (r\<lparr>rs_timedOut := True, rs_status := 408\<rparr>))\<lparr>rs_destroyed := True\<rparr>)"

text \<open>The handler writes or ends, the timer goes off, and the runtime reports that the response is finished or closed.\<close>

datatype delivery = HandlerWrites string | HandlerEnds string | TimeIsUp | Finished

fun deliver :: "framework_json \<Rightarrow> string \<Rightarrow> string option \<Rightarrow> delivery \<Rightarrow> response \<Rightarrow> response" where
  "deliver json path c (HandlerWrites chunk) r = patched_write chunk r"
| "deliver json path c (HandlerEnds chunk) r = patched_end chunk r"
| "deliver json path c TimeIsUp r = timer_fires json path c r"
| "deliver json path c Finished r = (if rs_ended r \<or> rs_destroyed r then r\<lparr>rs_timer := False\<rparr> else r)"

definition delivered :: "framework_json \<Rightarrow> string \<Rightarrow> string option \<Rightarrow> delivery list \<Rightarrow> response" where
  "delivered json path c es = fold (deliver json path c) es fresh_response"

section \<open>Headers that name the software\<close>

definition LEAKY_RESPONSE_HEADERS :: "string list" where
  "LEAKY_RESPONSE_HEADERS = [''Server'', ''X-Powered-By'', ''X-AspNet-Version'', ''X-AspNetMvc-Version'', ''X-Runtime'', ''Via'']"

type_synonym headers = "(string \<times> string) list"

text \<open>Headers of the runtime: names are compared without letter case, a later value replaces an earlier one.\<close>

definition same_name :: "string \<Rightarrow> string \<Rightarrow> bool" where
  "same_name a b \<longleftrightarrow> to_lower a = to_lower b"

definition node_setHeader :: "string \<Rightarrow> string \<Rightarrow> headers \<Rightarrow> headers" where
  "node_setHeader name value hs = filter (\<lambda>(n, _). \<not> same_name n name) hs @ [(name, value)]"

definition node_removeHeader :: "string \<Rightarrow> headers \<Rightarrow> headers" where
  "node_removeHeader name hs = filter (\<lambda>(n, _). \<not> same_name n name) hs"

text \<open>Arguments of \<^verbatim>\<open>writeHead\<close> after the status: a reason, an object of headers, or an array of them.\<close>

datatype head_arg = Reason string | Bag headers | HeaderArray headers

fun arg_headers :: "head_arg \<Rightarrow> headers" where
  "arg_headers (Reason s) = []"
| "arg_headers (Bag hs) = hs"
| "arg_headers (HeaderArray hs) = hs"

text \<open>The head that goes to the socket.\<close>

definition node_writeHead :: "head_arg list \<Rightarrow> headers \<Rightarrow> headers" where
  "node_writeHead args hs = fold (\<lambda>(n, v). node_setHeader n v) (concat (map arg_headers args)) hs"

definition denied :: "string list \<Rightarrow> string \<Rightarrow> bool" where
  "denied denylist name \<longleftrightarrow> to_lower name \<in> set (map to_lower denylist)"

definition patchedSetHeader :: "string list \<Rightarrow> string \<Rightarrow> string \<Rightarrow> headers \<Rightarrow> headers" where
  "patchedSetHeader denylist name value hs = (if denied denylist name then hs else node_setHeader name value hs)"

text \<open>The first argument that is an object and no array loses its denied headers.\<close>

fun strip_bag :: "string list \<Rightarrow> head_arg list \<Rightarrow> head_arg list" where
  "strip_bag denylist [] = []"
| "strip_bag denylist (Bag hs # args) = Bag (filter (\<lambda>(n, _). \<not> denied denylist n) hs) # args"
| "strip_bag denylist (a # args) = a # strip_bag denylist args"

definition patchedWriteHead :: "string list \<Rightarrow> head_arg list \<Rightarrow> headers \<Rightarrow> headers" where
  "patchedWriteHead denylist args hs = node_writeHead (strip_bag denylist args) hs"

definition stripLeakyResponseHeaders :: "string list \<Rightarrow> headers \<Rightarrow> headers" where
  "stripLeakyResponseHeaders denylist hs = fold (\<lambda>(n, _) acc. if denied denylist n then node_removeHeader n acc else acc) hs hs"

datatype header_call = CallSet string string | CallRemove string

fun run_header_call :: "string list \<Rightarrow> header_call \<Rightarrow> headers \<Rightarrow> headers" where
  "run_header_call denylist (CallSet n v) hs = patchedSetHeader denylist n v hs"
| "run_header_call denylist (CallRemove n) hs = node_removeHeader n hs"

text \<open>A whole response: the headers set before the middleware, the calls after it, and the arguments of \<^verbatim>\<open>writeHead\<close>.\<close>

definition head_sent :: "string list \<Rightarrow> headers \<Rightarrow> header_call list \<Rightarrow> head_arg list \<Rightarrow> headers" where
  "head_sent denylist before calls args =
     patchedWriteHead denylist args (fold (run_header_call denylist) calls (stripLeakyResponseHeaders denylist before))"

text \<open>What \<^verbatim>\<open>applySecurityHeaders\<close> asks of the application, in this order; the options of Helmet are those it merges.\<close>

datatype app_call = Disable string | UseHelmet "(string \<times> string) list" | UseStrip "string list"

definition applySecurityHeaders :: "(string \<times> string) list \<Rightarrow> string list \<Rightarrow> app_call list" where
  "applySecurityHeaders helmetOptions extraHeadersToStrip =
     [Disable ''x-powered-by'',
      UseHelmet (node_setHeader ''hidePoweredBy'' ''true''
        (fold (\<lambda>(n, v). node_setHeader n v) helmetOptions
          [(''referrerPolicy'', ''strict-origin-when-cross-origin''), (''hsts'', ''maxAge=31536000; includeSubDomains; preload'')])),
      UseStrip (LEAKY_RESPONSE_HEADERS @ extraHeadersToStrip)]"

section \<open>An overdue request gets no answer\<close>

text \<open>What the handler writes until it ends the response, and whether the timer comes before its first word.\<close>

fun handler_output :: "delivery list \<Rightarrow> string list" where
  "handler_output [] = []"
| "handler_output (HandlerWrites chunk # es) = chunk # handler_output es"
| "handler_output (HandlerEnds chunk # es) = [chunk]"
| "handler_output (_ # es) = handler_output es"

fun overdue :: "delivery list \<Rightarrow> bool" where
  "overdue (TimeIsUp # es) = True"
| "overdue (Finished # es) = overdue es"
| "overdue _ = False"

lemmas delivery_defs = patched_write_def patched_end_def node_write_def node_end_def timer_fires_def

lemma deliver_silenced:
  "rs_timedOut r \<Longrightarrow> \<not> rs_headersSent r \<Longrightarrow> \<not> rs_timer r
   \<Longrightarrow> rs_sent (fold (deliver json path c) es r) = rs_sent r \<and> rs_destroyed (fold (deliver json path c) es r) = rs_destroyed r"
proof (induction es arbitrary: r)
  case (Cons x es)
  then show ?case by (cases x) (auto simp: delivery_defs)
qed simp

lemma deliver_started:
  "rs_headersSent r \<Longrightarrow> \<not> rs_timedOut r \<Longrightarrow> \<not> rs_destroyed r
   \<Longrightarrow> rs_sent (fold (deliver json path c) es r) = rs_sent r @ (if rs_ended r then [] else map (Pair (rs_status r)) (handler_output es))
     \<and> \<not> rs_destroyed (fold (deliver json path c) es r)"
proof (induction es arbitrary: r)
  case (Cons x es)
  then show ?case by (cases x) (auto simp: delivery_defs Let_def)
qed simp

text \<open>C36. What a client receives, for every order of events: as long as the handler writes before the timer goes off, exactly what the
  handler writes, and the connection is kept; otherwise nothing at all, and the connection is closed. The answer with status 408
  that the time limit means to send is never sent, because the guard against late writes is set before it is written and applies to
  it as well. The only assumption is that the framework hands the serialised body to the \<^verbatim>\<open>end\<close> of the response.\<close>

theorem overdue_request_unanswered:
  assumes "\<forall>e b r. \<exists>t. json e b r = e t r"
  shows "rs_sent (delivered json path c es) = (if overdue es then [] else map (Pair 200) (handler_output es))
    \<and> rs_destroyed (delivered json path c es) = overdue es"
proof -
  have "rs_sent (fold (deliver json path c) es fresh_response) = (if overdue es then [] else map (Pair 200) (handler_output es))
    \<and> rs_destroyed (fold (deliver json path c) es fresh_response) = overdue es"
  proof (induction es)
    case Nil
    then show ?case by (simp add: fresh_response_def)
  next
    case (Cons x es)
    show ?case
    proof (cases x)
      case TimeIsUp
      obtain t where "json patched_end (timeout_problem path c) (fresh_response\<lparr>rs_timer := False, rs_timedOut := True, rs_status := 408\<rparr>)
          = patched_end t (fresh_response\<lparr>rs_timer := False, rs_timedOut := True, rs_status := 408\<rparr>)" using assms by blast
      then have "deliver json path c x fresh_response = fresh_response\<lparr>rs_timer := False, rs_timedOut := True, rs_status := 408, rs_destroyed := True\<rparr>"
        by (simp add: TimeIsUp timer_fires_def patched_end_def fresh_response_def)
      then show ?thesis using TimeIsUp by (simp add: deliver_silenced fresh_response_def)
    next
      case (HandlerWrites s)
      then show ?thesis
        using deliver_started [of "deliver json path c x fresh_response" json path c es] by (simp add: delivery_defs fresh_response_def)
    next
      case (HandlerEnds s)
      then show ?thesis
        using deliver_started [of "deliver json path c x fresh_response" json path c es] by (simp add: delivery_defs fresh_response_def)
    next
      case Finished
      then show ?thesis using Cons by (simp add: fresh_response_def)
    qed
  qed
  then show ?thesis by (simp add: delivered_def)
qed

theorem overdue_request_unanswered_witness:
  "rs_sent (delivered (\<lambda>e b. e (pd_title b)) ''/api/v1/policies'' None [TimeIsUp, HandlerEnds ''late'', Finished]) = []
   \<and> rs_sent (delivered (\<lambda>e b. e (pd_title b)) ''/api/v1/policies'' None [HandlerWrites ''a'', TimeIsUp, HandlerEnds ''b'', Finished]) = [(200, ''a''), (200, ''b'')]"
proof -
  have "\<forall>e b r. \<exists>t. (\<lambda>e b. e (pd_title b)) e b r = e t r" by blast
  from overdue_request_unanswered [OF this] show ?thesis by simp
qed

section \<open>Exactness of the stripping\<close>

definition permitted :: "string list \<Rightarrow> headers \<Rightarrow> headers" where
  "permitted denylist hs = filter (\<lambda>(n, _). \<not> denied denylist n) hs"

lemma denied_cong: "same_name a b \<Longrightarrow> denied denylist a = denied denylist b"
  by (simp add: same_name_def denied_def)

lemma permitted_set:
  "permitted denylist (node_setHeader n v hs) = (if denied denylist n then permitted denylist hs else node_setHeader n v (permitted denylist hs))"
  using denied_cong [of _ n denylist] by (auto simp: permitted_def node_setHeader_def case_prod_beta intro!: filter_cong)

lemma permitted_remove: "permitted denylist (node_removeHeader n hs) = node_removeHeader n (permitted denylist hs)"
  by (auto simp: permitted_def node_removeHeader_def case_prod_beta intro!: filter_cong)

lemma permitted_idem: "permitted denylist (permitted denylist hs) = permitted denylist hs"
  by (simp add: permitted_def)

text \<open>The same calls on a response without the middleware.\<close>

fun plain_call :: "header_call \<Rightarrow> headers \<Rightarrow> headers" where
  "plain_call (CallSet n v) hs = node_setHeader n v hs"
| "plain_call (CallRemove n) hs = node_removeHeader n hs"

lemma permitted_calls: "fold (run_header_call denylist) calls (permitted denylist hs) = permitted denylist (fold plain_call calls hs)"
proof (induction calls arbitrary: hs)
  case (Cons c calls)
  have "run_header_call denylist c (permitted denylist hs) = permitted denylist (plain_call c hs)"
    by (cases c) (simp_all add: patchedSetHeader_def permitted_set permitted_remove)
  with Cons show ?case by simp
qed simp

lemma permitted_writes:
  "permitted denylist (fold (\<lambda>(n, v). node_setHeader n v) ws hs)
   = fold (\<lambda>(n, v). node_setHeader n v) (permitted denylist ws) (permitted denylist hs)"
  by (induction ws arbitrary: hs) (auto simp: permitted_set, auto simp: permitted_def)

lemma removes_denied:
  "set (map fst ms) \<subseteq> set (map fst hs) \<Longrightarrow>
   fold (\<lambda>(n, _) acc. if denied denylist n then node_removeHeader n acc else acc) ms hs'
   = filter (\<lambda>(n, _). \<not> (denied denylist n \<and> (\<exists>m \<in> set (map fst ms). same_name n m))) hs'"
proof (induction ms arbitrary: hs')
  case (Cons m ms)
  show ?case
    using Cons denied_cong [of _ "fst m" denylist]
    by (auto simp: node_removeHeader_def case_prod_beta intro!: filter_cong)
qed (simp add: case_prod_beta)

lemma strip_existing: "stripLeakyResponseHeaders denylist hs = permitted denylist hs"
  unfolding stripLeakyResponseHeaders_def removes_denied [OF subset_refl] permitted_def
  by (auto simp: same_name_def case_prod_beta intro!: filter_cong)

text \<open>At most one argument of \<^verbatim>\<open>writeHead\<close> holds headers, and as an object.\<close>

fun object_args :: "head_arg list \<Rightarrow> bool" where
  "object_args [] = True"
| "object_args (Reason s # args) = object_args args"
| "object_args (Bag hs # args) = list_all (\<lambda>a. arg_headers a = []) args"
| "object_args (HeaderArray hs # args) = False"

lemma strip_bag_headers:
  "object_args args \<Longrightarrow> concat (map arg_headers (strip_bag denylist args)) = permitted denylist (concat (map arg_headers args))"
  by (induction args rule: object_args.induct) (auto simp: permitted_def list_all_iff)

text \<open>Stripping is exact: whatever headers were set before, whatever is set or removed afterwards and whatever object
  \<^verbatim>\<open>writeHead\<close> gets, the head that is sent is the one that would be sent without the middleware, less the denied headers, in any
  case of letters.\<close>

theorem header_stripping_exact:
  assumes "object_args args"
  shows "head_sent denylist before calls args =
     filter (\<lambda>(n, _). \<not> denied denylist n) (node_writeHead args (fold plain_call calls before))"
  unfolding head_sent_def patchedWriteHead_def node_writeHead_def strip_bag_headers [OF assms] strip_existing permitted_calls
  by (simp add: permitted_writes flip: permitted_def)

text \<open>An array of headers, which the runtime takes as well, passes the filter.\<close>

theorem header_array_passes:
  "head_sent LEAKY_RESPONSE_HEADERS [] [] [HeaderArray [(''X-Powered-By'', ''Express'')]] = [(''X-Powered-By'', ''Express'')]"
  by code_simp

theorem header_stripping_exact_witness:
  "head_sent LEAKY_RESPONSE_HEADERS [(''X-Powered-By'', ''Express'')] [CallSet ''SERVER'' ''nginx'', CallSet ''Vary'' ''Origin''] [Reason ''OK'', Bag [(''via'', ''proxy'')]]
   = [(''Vary'', ''Origin'')]"
  by (subst header_stripping_exact) (simp, code_simp)

end
