(* ===== verification/Response_Streams.thy ===== *)
theory Response_Streams
  imports Json_Values
begin

text \<open>
  Streaming of responses, \<^verbatim>\<open>src/common/interceptors/streaming.interceptor.ts\<close>: lists line by line and streams of events, with the
  release of everything a stream holds when the client goes away. The interceptor is a state machine over the callbacks that reach
  it, in any order and also after it has let go of their source. Timers, cursors and abort controllers are numbers; the text of a
  number is a parameter.
\<close>

section \<open>Which responses are streamed\<close>

definition wantsStream :: "string option \<Rightarrow> string option \<Rightarrow> bool" where
  "wantsStream accept stream \<longleftrightarrow> accept = Some ''application/x-ndjson'' \<or> accept = Some ''text/event-stream'' \<or> stream = Some ''true''"

text \<open>The headers that \<^verbatim>\<open>applyPaginationHeaders\<close> sets.\<close>

definition applyPaginationHeaders :: "(jsnum \<Rightarrow> string) \<Rightarrow> json \<Rightarrow> (string \<times> string) list" where
  "applyPaginationHeaders numStr payload =
     (case payload of
        JObj kvs \<Rightarrow> concat (map (\<lambda>(header, key).
            case j_lookup key kvs of None \<Rightarrow> [] | Some JNull \<Rightarrow> [] | Some v \<Rightarrow> [(header, js_String numStr v)])
          [(''X-Total-Count'', ''total''), (''X-Page'', ''page''), (''X-Limit'', ''limit'')])
      | _ \<Rightarrow> [])"

section \<open>State of a stream\<close>

text \<open>What a payload is: an observable, or a value with the resources it names. \<^verbatim>\<open>holder.cleanup\<close> is a callback of the handler.\<close>

datatype payload_kind = IsObservable | IsValue json

record payload =
  pl_kind :: payload_kind
  pl_cursor :: "nat option"
  pl_abort :: "nat option"
  pl_timers :: "nat list"

text \<open>A pass-through stream: the lines written, and how it ended. Lists wait for the callback that writes them.\<close>

record pass =
  pt_lines :: "string list"
  pt_ended :: bool
  pt_destroyed :: bool

datatype released = ClearedTimer nat | ClosedCursor nat | Aborted nat

datatype sub_call = Next payload_kind | NextFile | Complete | Error exn

record stream_state =
  sm_accept :: "string option"
  sm_gone :: bool
  sm_cleanedUp :: bool
  sm_upstream :: "bool option"
  sm_inner :: "bool option"
  sm_timers :: "nat list"
  sm_cursor :: "nat option"
  sm_abort :: "nat option"
  sm_pass :: "pass option"
  sm_pending :: "json list list"
  sm_listening :: bool
  sm_calls :: "sub_call list"
  sm_released :: "released list"
  sm_headers :: "(string \<times> string) list"

text \<open>\<open>sm_gone\<close> stands for \<^verbatim>\<open>request.destroyed || response.writableEnded\<close>, \<open>sm_upstream\<close> and \<open>sm_inner\<close> for the
  variables of the two subscriptions (unassigned until \<^verbatim>\<open>subscribe\<close> has returned, then open or unsubscribed), \<open>sm_calls\<close> for the calls on the subscriber.\<close>

definition opened :: "string option \<Rightarrow> stream_state" where
  "opened accept = \<lparr>sm_accept = accept, sm_gone = False, sm_cleanedUp = False, sm_upstream = None, sm_inner = None, sm_timers = [],
     sm_cursor = None, sm_abort = None, sm_pass = None, sm_pending = [], sm_listening = True, sm_calls = [], sm_released = [], sm_headers = []\<rparr>"

fun ends_subscriber :: "sub_call \<Rightarrow> bool" where
  "ends_subscriber Complete = True"
| "ends_subscriber (Error x) = True"
| "ends_subscriber _ = False"

text \<open>The subscriber is closed by the first call that ends it.\<close>

definition subscriber_closed :: "stream_state \<Rightarrow> bool" where
  "subscriber_closed s = list_ex ends_subscriber (sm_calls s)"

definition cleanup :: "stream_state \<Rightarrow> stream_state" where
  "cleanup s =
     (if sm_cleanedUp s then s
      else
        let s = s\<lparr>sm_cleanedUp := True, sm_released := sm_released s @ map ClearedTimer (sm_timers s), sm_timers := [],
              sm_inner := map_option (\<lambda>_. False) (sm_inner s), sm_upstream := map_option (\<lambda>_. False) (sm_upstream s)\<rparr>;
            s = (case sm_cursor s of None \<Rightarrow> s | Some c \<Rightarrow> s\<lparr>sm_released := sm_released s @ [ClosedCursor c], sm_cursor := None\<rparr>);
            s = (case sm_abort s of None \<Rightarrow> s | Some a \<Rightarrow> s\<lparr>sm_released := sm_released s @ [Aborted a], sm_abort := None\<rparr>);
            s = s\<lparr>sm_pass := map_option (\<lambda>p. p\<lparr>pt_destroyed := True\<rparr>) (sm_pass s), sm_listening := False\<rparr> in
        if subscriber_closed s then s else s\<lparr>sm_calls := sm_calls s @ [Complete]\<rparr>)"

definition emit_call :: "sub_call \<Rightarrow> stream_state \<Rightarrow> stream_state" where
  "emit_call c s = s\<lparr>sm_calls := sm_calls s @ [c]\<rparr>"

text \<open>The resources of a payload; a set of timers has no duplicates.\<close>

definition take_resources :: "payload \<Rightarrow> stream_state \<Rightarrow> stream_state" where
  "take_resources pl s = s\<lparr>
     sm_cursor := (case pl_cursor pl of None \<Rightarrow> sm_cursor s | c \<Rightarrow> c),
     sm_abort := (case pl_abort pl of None \<Rightarrow> sm_abort s | a \<Rightarrow> a),
     sm_timers := fold (\<lambda>t ts. if t \<in> set ts then ts else ts @ [t]) (pl_timers pl) (sm_timers s)\<rparr>"

text \<open>\<^verbatim>\<open>payload !== null && typeof payload === 'object'\<close>.\<close>

definition payload_object :: "payload \<Rightarrow> bool" where
  "payload_object pl = (case pl_kind pl of IsObservable \<Rightarrow> True | IsValue v \<Rightarrow> is_object v)"

definition data_of :: "json \<Rightarrow> json option" where
  "data_of v = (case v of JObj kvs \<Rightarrow> j_lookup ''data'' kvs | _ \<Rightarrow> None)"

definition STREAM_HEADERS :: "(string \<times> string) list" where
  "STREAM_HEADERS = [(''Content-Type'', ''application/x-ndjson; charset=utf-8''),
     (''Cache-Control'', ''no-cache, no-store, must-revalidate''), (''Connection'', ''keep-alive'')]"

definition upstream_next :: "(jsnum \<Rightarrow> string) \<Rightarrow> payload \<Rightarrow> stream_state \<Rightarrow> stream_state" where
  "upstream_next numStr pl s =
     (if sm_cleanedUp s \<or> sm_gone s then cleanup s
      else
        let s = (if payload_object pl then take_resources pl s else s) in
        case pl_kind pl of
          IsObservable \<Rightarrow> s
        | IsValue v \<Rightarrow>
            let s = s\<lparr>sm_headers := sm_headers s @ applyPaginationHeaders numStr v\<rparr> in
            if data_of v \<noteq> None \<and> sm_accept s = Some ''text/event-stream'' then emit_call (Next (IsValue v)) s
            else case data_of v of
              Some (JArr items) \<Rightarrow>
                emit_call NextFile (s\<lparr>sm_headers := sm_headers s @ STREAM_HEADERS,
                  sm_pass := Some \<lparr>pt_lines = [], pt_ended = False, pt_destroyed = False\<rparr>, sm_pending := sm_pending s @ [items]\<rparr>)
            | _ \<Rightarrow> cleanup (emit_call (Next (IsValue v)) s))"

text \<open>One line; the replacer turns big integers into text, so nothing is thrown.\<close>

definition ndjson_line :: "(jsnum \<Rightarrow> string) \<Rightarrow> json \<Rightarrow> string" where
  "ndjson_line numStr item = (case stringify numStr (serializeBigInt item) of Inr t \<Rightarrow> t @ [char_of (10 :: int)] | Inl _ \<Rightarrow> [])"

text \<open>The callback of \<^verbatim>\<open>setImmediate\<close>; nothing can happen between its lines. A stream that has ended takes no more of them.\<close>

definition write_lines :: "(jsnum \<Rightarrow> string) \<Rightarrow> stream_state \<Rightarrow> stream_state" where
  "write_lines numStr s =
     (case (sm_pending s, sm_pass s) of
        (items # rest, Some p) \<Rightarrow>
          let s = s\<lparr>sm_pending := rest\<rparr>;
              p = (if sm_cleanedUp s \<or> pt_destroyed p \<or> sm_gone s \<or> pt_ended p then p
                   else p\<lparr>pt_lines := pt_lines p @ map (ndjson_line numStr) items\<rparr>);
              p = (if sm_cleanedUp s \<or> pt_destroyed p then p else p\<lparr>pt_ended := True\<rparr>) in
          s\<lparr>sm_pass := Some p\<rparr>
      | _ \<Rightarrow> s)"

text \<open>\<^verbatim>\<open>subscribe\<close> may call back before it returns: its return, where the variable is assigned, is an event of its own, for the handler's
  observable and for one that is a payload.\<close>

datatype stream_event =
    UpstreamReturned | UpstreamNext payload | UpstreamError exn | UpstreamComplete
  | InnerReturned | InnerNext json | InnerError exn | InnerComplete
  | ClientGone | ResponseDone | Immediate | HolderCleanup | Unsubscribed

fun stream_step :: "(jsnum \<Rightarrow> string) \<Rightarrow> stream_event \<Rightarrow> stream_state \<Rightarrow> stream_state" where
  "stream_step numStr UpstreamReturned s = s\<lparr>sm_upstream := Some True\<rparr>"
| "stream_step numStr (UpstreamNext pl) s = upstream_next numStr pl s"
| "stream_step numStr (UpstreamError x) s = emit_call (Error x) (cleanup s)"
| "stream_step numStr UpstreamComplete s = (if sm_pass s = None \<and> sm_inner s = None then cleanup s else s)"
| "stream_step numStr InnerReturned s = s\<lparr>sm_inner := Some True\<rparr>"
| "stream_step numStr (InnerNext v) s = (if sm_cleanedUp s \<or> sm_gone s then cleanup s else emit_call (Next (IsValue v)) s)"
| "stream_step numStr (InnerError x) s = emit_call (Error x) (cleanup s)"
| "stream_step numStr InnerComplete s = cleanup s"
| "stream_step numStr ClientGone s = (let s = s\<lparr>sm_gone := True\<rparr> in if sm_listening s then cleanup s else s)"
| "stream_step numStr ResponseDone s = (let s = s\<lparr>sm_gone := True\<rparr> in if sm_listening s then cleanup s else s)"
| "stream_step numStr Immediate s = write_lines numStr s"
| "stream_step numStr HolderCleanup s = cleanup s"
| "stream_step numStr Unsubscribed s = cleanup s"

definition stream_run :: "(jsnum \<Rightarrow> string) \<Rightarrow> string option \<Rightarrow> stream_event list \<Rightarrow> stream_state" where
  "stream_run numStr accept es = fold (stream_step numStr) es (opened accept)"

text \<open>What reaches the consumer: by the contract of observables nothing after the first call that ends it.\<close>

fun heard_by_consumer :: "sub_call list \<Rightarrow> sub_call list" where
  "heard_by_consumer [] = []"
| "heard_by_consumer (c # cs) = (if ends_subscriber c then [c] else c # heard_by_consumer cs)"

section \<open>Everything is let go, once\<close>

definition still_held :: "stream_state \<Rightarrow> released set" where
  "still_held s = ClearedTimer ` set (sm_timers s) \<union> ClosedCursor ` set_option (sm_cursor s) \<union> Aborted ` set_option (sm_abort s)"

text \<open>An open stream listens, has released nothing and was not ended; a closed one holds nothing and does nothing.\<close>

definition stream_ok :: "stream_state \<Rightarrow> bool" where
  "stream_ok s \<longleftrightarrow> distinct (sm_timers s) \<and> distinct (sm_released s) \<and>
     (if sm_cleanedUp s
      then still_held s = {} \<and> (\<forall>p \<in> set_option (sm_pass s). pt_destroyed p) \<and> \<not> sm_listening s \<and> subscriber_closed s
      else sm_listening s \<and> \<not> sm_gone s \<and> sm_released s = [] \<and> \<not> subscriber_closed s)"

lemma subscriber_closed_calls [simp]:
  "subscriber_closed (s\<lparr>sm_calls := cs\<rparr>) = list_ex ends_subscriber cs" by (simp add: subscriber_closed_def)

lemma cleanup_cleans [simp]: "sm_cleanedUp (cleanup s)"
  by (simp add: cleanup_def Let_def split: option.split)

lemma cleanup_ok:
  assumes "sm_cleanedUp s \<longrightarrow> stream_ok s" "\<not> sm_cleanedUp s \<longrightarrow> distinct (sm_timers s) \<and> sm_released s = []"
  shows "stream_ok (cleanup s) \<and> sm_cleanedUp (cleanup s)"
proof (cases "sm_cleanedUp s")
  case True
  with assms show ?thesis by (simp add: cleanup_def)
next
  case False
  with assms have "distinct (sm_timers s)" "sm_released s = []" by auto
  with False show ?thesis
    by (auto simp: cleanup_def Let_def stream_ok_def still_held_def distinct_map inj_on_def subscriber_closed_def split: option.splits)
qed

lemma cleanup_keeps:
  assumes "stream_ok s"
  shows "stream_ok (cleanup s)" "sm_cleanedUp (cleanup s)"
  using cleanup_ok [of s] assms by (auto simp: stream_ok_def)

lemma add_timers: "distinct ts \<Longrightarrow> distinct (fold (\<lambda>t ts. if t \<in> set ts then ts else ts @ [t]) xs ts)
    \<and> set (fold (\<lambda>t ts. if t \<in> set ts then ts else ts @ [t]) xs ts) = set xs \<union> set ts"
  by (induction xs arbitrary: ts) auto

lemma opened_ok: "stream_ok (opened accept)"
  by (simp add: stream_ok_def opened_def subscriber_closed_def)

lemma take_resources_ok:
  assumes "stream_ok s" "\<not> sm_cleanedUp s"
  shows "stream_ok (take_resources pl s) \<and> \<not> sm_cleanedUp (take_resources pl s)"
  using assms add_timers [of "sm_timers s" "pl_timers pl"] by (simp add: stream_ok_def take_resources_def subscriber_closed_def)

text \<open>Changes of fields that the invariant does not mention while a stream is open.\<close>

lemma open_stream_cong:
  assumes "stream_ok s" "\<not> sm_cleanedUp s" "\<not> sm_cleanedUp s'" "sm_timers s' = sm_timers s" "sm_released s' = sm_released s"
    "sm_listening s' = sm_listening s" "sm_gone s' = sm_gone s" "\<not> list_ex ends_subscriber (sm_calls s')"
  shows "stream_ok s'"
  using assms by (simp add: stream_ok_def subscriber_closed_def)

lemma upstream_next_ok:
  assumes "stream_ok s"
  shows "stream_ok (upstream_next numStr pl s)"
proof (cases "sm_cleanedUp s \<or> sm_gone s")
  case True
  with assms show ?thesis by (simp add: upstream_next_def cleanup_keeps)
next
  case False
  define t where "t = (if payload_object pl then take_resources pl s else s)"
  have t: "stream_ok t" "\<not> sm_cleanedUp t" using take_resources_ok [OF assms] assms False by (auto simp: t_def)
  then have calls: "\<not> list_ex ends_subscriber (sm_calls t)" by (simp add: stream_ok_def subscriber_closed_def)
  have open_ok: "stream_ok t'" if "sm_cleanedUp t' = sm_cleanedUp t" "sm_timers t' = sm_timers t" "sm_released t' = sm_released t"
      "sm_listening t' = sm_listening t" "sm_gone t' = sm_gone t" "\<not> list_ex ends_subscriber (sm_calls t')" for t'
    using open_stream_cong [OF t(1,2)] that t(2) by simp
  show ?thesis
    using False calls t(2)
    by (auto simp: upstream_next_def Let_def emit_call_def simp flip: t_def intro!: open_ok cleanup_keeps
        split: payload_kind.splits option.splits json.splits)
qed

lemma closed_stream_calls:
  assumes "stream_ok s" "sm_cleanedUp s"
  shows "stream_ok (emit_call c s)" "stream_ok (s\<lparr>sm_gone := True\<rparr>)"
  using assms by (auto simp: stream_ok_def still_held_def emit_call_def subscriber_closed_def)

lemma gone_ok:
  assumes "stream_ok s"
  shows "stream_ok (let s = s\<lparr>sm_gone := True\<rparr> in if sm_listening s then cleanup s else s)"
proof -
  have "stream_ok (cleanup (s\<lparr>sm_gone := True\<rparr>))"
    using assms closed_stream_calls(2) [OF assms] by (intro conjunct1 [OF cleanup_ok]) (auto simp: stream_ok_def)
  then show ?thesis using assms closed_stream_calls(2) [OF assms] by (auto simp: Let_def stream_ok_def split: if_splits)
qed

lemma assigned_ok [simp]: "stream_ok (s\<lparr>sm_upstream := u\<rparr>) = stream_ok s" "stream_ok (s\<lparr>sm_inner := i\<rparr>) = stream_ok s"
  by (simp_all add: stream_ok_def still_held_def subscriber_closed_def)

lemma stream_step_ok:
  assumes "stream_ok s"
  shows "stream_ok (stream_step numStr e s)"
proof (cases e)
  case (InnerNext v)
  then show ?thesis
    using assms cleanup_keeps [OF assms] open_stream_cong [OF assms, of "emit_call (Next (IsValue v)) s"]
    by (auto simp: emit_call_def stream_ok_def subscriber_closed_def)
next
  case Immediate
  then show ?thesis
    using assms by (auto simp: write_lines_def Let_def stream_ok_def still_held_def subscriber_closed_def split: list.splits option.splits)
qed (use assms cleanup_keeps [OF assms] closed_stream_calls [of "cleanup s"] gone_ok [OF assms] in \<open>auto simp: upstream_next_ok\<close>)

lemma stream_run_ok: "stream_ok (stream_run numStr accept es)"
proof -
  have "stream_ok s \<Longrightarrow> stream_ok (fold (stream_step numStr) es s)" for s by (induction es arbitrary: s) (auto simp: stream_step_ok)
  then show ?thesis by (simp add: stream_run_def opened_ok)
qed

lemma cleanup_done: "sm_cleanedUp s \<Longrightarrow> cleanup s = s"
  by (simp add: cleanup_def)

lemma heard_snoc: "heard_by_consumer (cs @ [c]) = (if list_ex ends_subscriber cs then heard_by_consumer cs else heard_by_consumer cs @ [c])"
  by (induction cs) auto

text \<open>After the cleanup every step leaves the stream alone, except that errors are passed to the closed subscriber.\<close>

lemma cleaned_step:
  assumes "stream_ok s" "sm_cleanedUp s"
  shows "sm_cleanedUp (stream_step numStr e s) \<and> sm_released (stream_step numStr e s) = sm_released s
    \<and> heard_by_consumer (sm_calls (stream_step numStr e s)) = heard_by_consumer (sm_calls s)
    \<and> map_option pt_lines (sm_pass (stream_step numStr e s)) = map_option pt_lines (sm_pass s)"
proof -
  have closed: "list_ex ends_subscriber (sm_calls s)" using assms by (simp add: stream_ok_def subscriber_closed_def)
  show ?thesis using assms(2) closed
    by (cases e) (auto simp: cleanup_done upstream_next_def emit_call_def heard_snoc write_lines_def Let_def split: list.splits option.splits)
qed

lemma cleaned_run:
  assumes "stream_ok s" "sm_cleanedUp s"
  shows "sm_cleanedUp (fold (stream_step numStr) es s) \<and> sm_released (fold (stream_step numStr) es s) = sm_released s
    \<and> heard_by_consumer (sm_calls (fold (stream_step numStr) es s)) = heard_by_consumer (sm_calls s)
    \<and> map_option pt_lines (sm_pass (fold (stream_step numStr) es s)) = map_option pt_lines (sm_pass s)"
  using assms
proof (induction es arbitrary: s)
  case (Cons e es)
  note step = cleaned_step [OF Cons.prems, of numStr e]
  from Cons.IH [OF stream_step_ok [OF Cons.prems(1), of numStr e]] step show ?case by simp
qed simp

lemma gone_step:
  assumes "stream_ok s" "e = ClientGone \<or> e = ResponseDone"
  shows "sm_cleanedUp (stream_step numStr e s)"
  using assms by (auto simp: Let_def stream_ok_def split: if_splits)

lemma gone_cleans:
  assumes "stream_ok s" "ClientGone \<in> set es \<or> ResponseDone \<in> set es"
  shows "sm_cleanedUp (fold (stream_step numStr) es s)"
  using assms
proof (induction es arbitrary: s)
  case (Cons e es)
  show ?case
  proof (cases "e = ClientGone \<or> e = ResponseDone")
    case True
    from cleaned_run [OF stream_step_ok [OF Cons.prems(1)] gone_step [OF Cons.prems(1) True], of numStr es] show ?thesis by simp
  next
    case False
    with Cons.prems Cons.IH [OF stream_step_ok [OF Cons.prems(1), of numStr e]] show ?thesis by auto
  qed
qed simp

text \<open>The payloads that arrive while a stream is open, and what of theirs it answers for: all their timers, and of the cursors and abort
  controllers the ones named last.\<close>

fun open_payloads :: "(jsnum \<Rightarrow> string) \<Rightarrow> stream_event list \<Rightarrow> stream_state \<Rightarrow> payload list" where
  "open_payloads numStr [] s = []"
| "open_payloads numStr (e # es) s =
     (case e of UpstreamNext pl \<Rightarrow> if sm_cleanedUp s \<or> \<not> payload_object pl then [] else [pl] | _ \<Rightarrow> []) @ open_payloads numStr es (stream_step numStr e s)"

definition named_last :: "(payload \<Rightarrow> nat option) \<Rightarrow> payload list \<Rightarrow> nat option" where
  "named_last f pls = fold (\<lambda>pl x. case f pl of None \<Rightarrow> x | c \<Rightarrow> c) pls None"

definition answered_for :: "payload list \<Rightarrow> released set" where
  "answered_for pls = ClearedTimer ` (\<Union>pl \<in> set pls. set (pl_timers pl))
     \<union> ClosedCursor ` set_option (named_last pl_cursor pls) \<union> Aborted ` set_option (named_last pl_abort pls)"

text \<open>While a stream is open it holds this much and has released nothing; once it is closed it has released this much.\<close>

definition accounts :: "payload list \<Rightarrow> stream_state \<Rightarrow> bool" where
  "accounts pls s \<longleftrightarrow>
     (if sm_cleanedUp s then set (sm_released s) = answered_for pls
      else set (sm_timers s) = (\<Union>pl \<in> set pls. set (pl_timers pl)) \<and> sm_cursor s = named_last pl_cursor pls \<and> sm_abort s = named_last pl_abort pls)"

lemma accounts_unaffected [simp]:
  "accounts pls (s\<lparr>sm_calls := cs\<rparr>) = accounts pls s" "accounts pls (s\<lparr>sm_gone := g\<rparr>) = accounts pls s"
  "accounts pls (s\<lparr>sm_upstream := u\<rparr>) = accounts pls s" "accounts pls (s\<lparr>sm_inner := i\<rparr>) = accounts pls s"
  "accounts pls (s\<lparr>sm_headers := hs\<rparr>) = accounts pls s" "accounts pls (s\<lparr>sm_pass := p\<rparr>) = accounts pls s"
  "accounts pls (s\<lparr>sm_pending := q\<rparr>) = accounts pls s"
  by (simp_all add: accounts_def)

lemma cleanup_accounts: "accounts pls s \<Longrightarrow> sm_cleanedUp s \<or> sm_released s = [] \<Longrightarrow> accounts pls (cleanup s)"
  by (auto simp: accounts_def cleanup_def Let_def answered_for_def split: option.splits)

lemma take_resources_accounts:
  assumes "accounts pls s" "\<not> sm_cleanedUp s" "distinct (sm_timers s)"
  shows "accounts (pls @ [pl]) (take_resources pl s)"
  using assms add_timers [of "sm_timers s" "pl_timers pl"]
  by (auto simp: accounts_def take_resources_def named_last_def split: option.splits)

text \<open>A payload that is accepted ends with its resources taken, the stream being left open or cleaned up.\<close>

lemma upstream_next_shape:
  assumes "\<not> sm_cleanedUp s" "\<not> sm_gone s"
  shows "\<exists>s' cs hs p q. s' = (if payload_object pl then take_resources pl s else s)\<lparr>sm_calls := cs, sm_headers := hs, sm_pass := p, sm_pending := q\<rparr>
     \<and> (upstream_next numStr pl s = s' \<or> upstream_next numStr pl s = cleanup s')"
proof -
  define t where "t = (if payload_object pl then take_resources pl s else s)"
  have shape: "\<exists>s' cs hs p q. s' = t\<lparr>sm_calls := cs, sm_headers := hs, sm_pass := p, sm_pending := q\<rparr> \<and> (r = s' \<or> r = cleanup s')"
    if "r = t\<lparr>sm_calls := cs, sm_headers := hs, sm_pass := p, sm_pending := q\<rparr> \<or> r = cleanup (t\<lparr>sm_calls := cs, sm_headers := hs, sm_pass := p, sm_pending := q\<rparr>)"
    for r cs hs p q using that by blast
  show ?thesis
  proof (cases "pl_kind pl")
    case IsObservable
    then have "upstream_next numStr pl s = t" using assms by (simp add: upstream_next_def Let_def t_def)
    then show ?thesis unfolding t_def [symmetric] by (intro shape [where cs = "sm_calls t" and hs = "sm_headers t" and p = "sm_pass t" and q = "sm_pending t"]) simp
  next
    case (IsValue v)
    let ?t = "t\<lparr>sm_headers := sm_headers t @ applyPaginationHeaders numStr v\<rparr>"
    have run: "upstream_next numStr pl s =
        (if data_of v \<noteq> None \<and> sm_accept ?t = Some ''text/event-stream'' then emit_call (Next (IsValue v)) ?t
         else case data_of v of
           Some (JArr items) \<Rightarrow> emit_call NextFile (?t\<lparr>sm_headers := sm_headers ?t @ STREAM_HEADERS,
               sm_pass := Some \<lparr>pt_lines = [], pt_ended = False, pt_destroyed = False\<rparr>, sm_pending := sm_pending ?t @ [items]\<rparr>)
         | _ \<Rightarrow> cleanup (emit_call (Next (IsValue v)) ?t))"
      using assms IsValue by (simp only: upstream_next_def Let_def t_def payload_kind.case HOL.simp_thms if_False)
    have one: "emit_call c ?t = t\<lparr>sm_calls := sm_calls t @ [c], sm_headers := sm_headers ?t, sm_pass := sm_pass t, sm_pending := sm_pending t\<rparr>" for c
      by (simp add: emit_call_def)
    show ?thesis
    proof (cases "\<exists>items. data_of v = Some (JArr items)")
      case True
      then obtain items where items: "data_of v = Some (JArr items)" by blast
      show ?thesis
      proof (cases "sm_accept ?t = Some ''text/event-stream''")
        case True
        then have "upstream_next numStr pl s = emit_call (Next (IsValue v)) ?t" using run items by simp
        from shape [OF disjI1 [OF this [unfolded one]]] show ?thesis by (simp add: t_def)
      next
        case False
        then have "upstream_next numStr pl s = t\<lparr>sm_calls := sm_calls t @ [NextFile], sm_headers := sm_headers ?t @ STREAM_HEADERS,
            sm_pass := Some \<lparr>pt_lines = [], pt_ended = False, pt_destroyed = False\<rparr>, sm_pending := sm_pending t @ [items]\<rparr>"
          using run items by (simp add: emit_call_def)
        from shape [OF disjI1 [OF this]] show ?thesis by (simp add: t_def)
      qed
    next
      case False
      then have "(case data_of v of Some (JArr items) \<Rightarrow> f items | _ \<Rightarrow> r) = r" for f :: "json list \<Rightarrow> stream_state" and r
        by (auto split: option.split json.split)
      then have "upstream_next numStr pl s = emit_call (Next (IsValue v)) ?t \<or> upstream_next numStr pl s = cleanup (emit_call (Next (IsValue v)) ?t)"
        using run by simp
      from shape [OF this [unfolded one]] show ?thesis by (simp add: t_def)
    qed
  qed
qed

lemma upstream_next_accounts:
  assumes "stream_ok s" "accounts pls s"
  shows "accounts (pls @ open_payloads numStr [UpstreamNext pl] s) (upstream_next numStr pl s)"
proof (cases "sm_cleanedUp s")
  case True
  with assms show ?thesis by (simp add: upstream_next_def cleanup_def)
next
  case False
  then have ok: "\<not> sm_gone s" "sm_released s = []" "distinct (sm_timers s)" using assms(1) by (auto simp: stream_ok_def)
  let ?t = "if payload_object pl then take_resources pl s else s"
  obtain s' cs hs p q where s': "s' = ?t\<lparr>sm_calls := cs, sm_headers := hs, sm_pass := p, sm_pending := q\<rparr>"
    and steps: "upstream_next numStr pl s = s' \<or> upstream_next numStr pl s = cleanup s'"
    using upstream_next_shape [OF False ok(1), of pl numStr] by (elim exE conjE) (rule that)
  have "accounts (pls @ open_payloads numStr [UpstreamNext pl] s) ?t"
    using take_resources_accounts [OF assms(2) False ok(3), of pl] assms(2) False by simp
  then have acc: "accounts (pls @ open_payloads numStr [UpstreamNext pl] s) s'" by (simp add: s')
  moreover have "sm_released s' = []" using ok(2) by (simp add: s' take_resources_def)
  ultimately have closed: "accounts (pls @ open_payloads numStr [UpstreamNext pl] s) (cleanup s')" by (intro cleanup_accounts) simp_all
  from steps show ?thesis
  proof
    assume "upstream_next numStr pl s = s'"
    with acc show ?thesis by (simp only:)
  next
    assume "upstream_next numStr pl s = cleanup s'"
    with closed show ?thesis by (simp only:)
  qed
qed

lemma step_accounts:
  assumes "stream_ok s" "accounts pls s"
  shows "accounts (pls @ open_payloads numStr [e] s) (stream_step numStr e s)"
proof -
  have rel: "sm_cleanedUp s \<or> sm_released s = []" using assms(1) by (simp add: stream_ok_def split: if_splits)
  note clean = cleanup_accounts [OF assms(2) rel]
  have gone: "accounts pls (cleanup (s\<lparr>sm_gone := True\<rparr>))" "accounts pls (s\<lparr>sm_gone := True\<rparr>)"
    using assms(2) rel by (simp_all add: cleanup_accounts)
  show ?thesis
  proof (cases e)
    case (UpstreamNext pl)
    then show ?thesis using upstream_next_accounts [OF assms, of numStr pl] by simp
  next
    case Immediate
    have "accounts pls (write_lines numStr s)"
      using assms(2) by (simp add: write_lines_def Let_def split: list.split option.split)
    with Immediate show ?thesis by simp
  qed (use assms(2) clean gone in \<open>simp_all add: emit_call_def Let_def\<close>)
qed

lemma run_accounts: "stream_ok s \<Longrightarrow> accounts pls s \<Longrightarrow> accounts (pls @ open_payloads numStr es s) (fold (stream_step numStr) es s)"
proof (induction es arbitrary: pls s)
  case (Cons e es)
  from Cons.IH [OF stream_step_ok [OF Cons.prems(1)] step_accounts [OF Cons.prems]] show ?case by simp
qed simp

text \<open>The step that cleans a stream up unsubscribes whatever is in the variables.\<close>

lemma cleanup_unsubscribes: "\<not> sm_cleanedUp s \<Longrightarrow> sm_upstream (cleanup s) \<noteq> Some True \<and> sm_inner (cleanup s) \<noteq> Some True"
  by (auto simp: cleanup_def Let_def split: option.splits)

lemma closing_step:
  assumes "stream_ok s" "\<not> sm_cleanedUp s" "sm_cleanedUp (stream_step numStr e s)"
  shows "sm_upstream (stream_step numStr e s) \<noteq> Some True \<and> sm_inner (stream_step numStr e s) \<noteq> Some True"
proof (cases e)
  case (UpstreamNext pl)
  have gone: "\<not> sm_gone s" using assms by (auto simp: stream_ok_def)
  obtain s' cs hs p q where shape: "s' = (if payload_object pl then take_resources pl s else s)\<lparr>sm_calls := cs, sm_headers := hs, sm_pass := p, sm_pending := q\<rparr>"
    and s': "upstream_next numStr pl s = s' \<or> upstream_next numStr pl s = cleanup s'"
    using upstream_next_shape [OF assms(2) gone, of pl numStr] by (elim exE conjE) (rule that)
  have "sm_cleanedUp s' = sm_cleanedUp s" by (simp add: shape take_resources_def)
  with s' have "upstream_next numStr pl s = cleanup s'" "\<not> sm_cleanedUp s'" using assms(2,3) UpstreamNext by auto
  with cleanup_unsubscribes [of s'] UpstreamNext show ?thesis by simp
next
  case Immediate
  with assms show ?thesis by (simp add: write_lines_def Let_def split: list.splits option.splits)
qed (use assms cleanup_unsubscribes [of s] cleanup_unsubscribes [of "s\<lparr>sm_gone := True\<rparr>"] in
    \<open>auto simp: emit_call_def Let_def split: if_splits\<close>)

text \<open>C35. What a stream lets go of, whatever callbacks arrive and in whatever order. Nothing is released before the clean-up and nothing twice.
  Once cleaned up, a stream has released exactly the timers of all payloads that arrived while it was open, and of their cursors and abort
  controllers the ones that were named last; it holds and hears nothing more. It is cleaned up as soon as the client goes away or the response
  is done, and then unsubscribes from what it had subscribed to until then; afterwards nothing is released, the consumer hears
  nothing and no line is written.\<close>

theorem stream_lets_go:
  assumes "s = stream_run numStr accept es"
  shows "distinct (sm_released s)
    \<and> (if sm_cleanedUp s
        then set (sm_released s) = answered_for (open_payloads numStr es (opened accept)) \<and> still_held s = {} \<and> \<not> sm_listening s
        else sm_released s = [] \<and> still_held s = answered_for (open_payloads numStr es (opened accept)))
    \<and> (ClientGone \<in> set es \<or> ResponseDone \<in> set es \<longrightarrow> sm_cleanedUp s)
    \<and> (\<forall>e. \<not> sm_cleanedUp s \<and> sm_cleanedUp (stream_step numStr e s) \<longrightarrow>
          sm_upstream (stream_step numStr e s) \<noteq> Some True \<and> sm_inner (stream_step numStr e s) \<noteq> Some True)
    \<and> (\<forall>more. sm_cleanedUp s \<longrightarrow> sm_released (fold (stream_step numStr) more s) = sm_released s
        \<and> heard_by_consumer (sm_calls (fold (stream_step numStr) more s)) = heard_by_consumer (sm_calls s)
        \<and> map_option pt_lines (sm_pass (fold (stream_step numStr) more s)) = map_option pt_lines (sm_pass s))"
proof -
  let ?A = "open_payloads numStr es (opened accept)"
  have ok: "stream_ok s" using stream_run_ok assms by simp
  have "accounts [] (opened accept)" by (simp add: accounts_def opened_def named_last_def)
  from run_accounts [OF opened_ok this, of numStr es] have acc: "accounts ?A s" by (simp add: assms stream_run_def)
  have "if sm_cleanedUp s then set (sm_released s) = answered_for ?A \<and> still_held s = {} \<and> \<not> sm_listening s
      else sm_released s = [] \<and> still_held s = answered_for ?A"
    using ok acc by (auto simp: stream_ok_def accounts_def still_held_def answered_for_def)
  moreover have "sm_cleanedUp s" if "ClientGone \<in> set es \<or> ResponseDone \<in> set es"
    using gone_cleans [OF opened_ok that, of numStr accept] by (simp add: assms stream_run_def)
  moreover have "distinct (sm_released s)" using ok by (simp add: stream_ok_def)
  ultimately show ?thesis using closing_step [OF ok] cleaned_run [OF ok] by blast
qed

text \<open>What a stream does not answer for: a cursor or an abort controller that another payload replaces, the resources of a payload that arrives
  after the clean-up, and a subscription that calls back, and so leads to the clean-up, before \<^verbatim>\<open>subscribe\<close> has returned.\<close>

theorem replaced_cursor_kept:
  "named_last pl_cursor [\<lparr>pl_kind = IsObservable, pl_cursor = Some 1, pl_abort = Some 2, pl_timers = []\<rparr>,
       \<lparr>pl_kind = IsObservable, pl_cursor = Some 3, pl_abort = None, pl_timers = []\<rparr>] = Some 3
   \<and> sm_released (stream_run numStr accept [UpstreamReturned, UpstreamNext \<lparr>pl_kind = IsObservable, pl_cursor = Some 1, pl_abort = Some 2, pl_timers = []\<rparr>,
       UpstreamNext \<lparr>pl_kind = IsObservable, pl_cursor = Some 3, pl_abort = None, pl_timers = []\<rparr>, ClientGone]) = [ClosedCursor 3, Aborted 2]"
  by (simp add: named_last_def stream_run_def opened_def upstream_next_def payload_object_def take_resources_def cleanup_def Let_def)

theorem synchronous_subscription_kept:
  assumes "\<not> is_object v"
  shows "let s = stream_run numStr accept [UpstreamNext \<lparr>pl_kind = IsValue v, pl_cursor = None, pl_abort = None, pl_timers = []\<rparr>, UpstreamReturned] in
     sm_cleanedUp s \<and> sm_upstream s = Some True \<and> sm_upstream (fold (stream_step numStr) [UpstreamComplete, ClientGone, ResponseDone, Unsubscribed] s) = Some True"
proof -
  have "data_of v = None" using assms by (cases v) (simp_all add: data_of_def)
  with assms show ?thesis
    by (simp add: stream_run_def opened_def upstream_next_def payload_object_def emit_call_def cleanup_def subscriber_closed_def Let_def)
qed

text \<open>The consumer of a stream never hears of an error: the cleanup completes the subscriber before the error is passed on.\<close>

lemma cleanup_calls:
  assumes "\<not> sm_cleanedUp s" "\<not> list_ex ends_subscriber (sm_calls s)"
  shows "sm_calls (cleanup s) = sm_calls s @ [Complete]"
  using assms by (simp add: cleanup_def Let_def subscriber_closed_def split: option.split)

lemma upstream_next_calls:
  assumes "\<not> sm_cleanedUp s" "\<not> sm_gone s" "\<not> list_ex ends_subscriber (sm_calls s)"
  shows "\<exists>cs. list_all (\<lambda>c. \<not> ends_subscriber c) cs
     \<and> (sm_calls (upstream_next numStr pl s) = sm_calls s @ cs \<or> sm_calls (upstream_next numStr pl s) = sm_calls s @ cs @ [Complete])"
proof (cases "pl_kind pl")
  case IsObservable
  then show ?thesis using assms by (intro exI [of _ "[]"]) (simp add: upstream_next_def Let_def take_resources_def)
next
  case (IsValue v)
  define t0 where "t0 = (if payload_object pl then take_resources pl s else s)"
  define t where "t = t0\<lparr>sm_headers := sm_headers t0 @ applyPaginationHeaders numStr v\<rparr>"
  have t: "sm_calls t = sm_calls s" "\<not> sm_cleanedUp t" using assms(1) by (auto simp: t_def t0_def take_resources_def)
  have run: "upstream_next numStr pl s =
      (if data_of v \<noteq> None \<and> sm_accept t = Some ''text/event-stream'' then emit_call (Next (IsValue v)) t
       else case data_of v of
         Some (JArr items) \<Rightarrow> emit_call NextFile (t\<lparr>sm_headers := sm_headers t @ STREAM_HEADERS,
             sm_pass := Some \<lparr>pt_lines = [], pt_ended = False, pt_destroyed = False\<rparr>, sm_pending := sm_pending t @ [items]\<rparr>)
       | _ \<Rightarrow> cleanup (emit_call (Next (IsValue v)) t))"
    using assms IsValue by (simp only: upstream_next_def Let_def t_def t0_def payload_kind.case HOL.simp_thms if_False)
  have next_call: "sm_calls (emit_call (Next (IsValue v)) t) = sm_calls s @ [Next (IsValue v)]"
    "sm_calls (cleanup (emit_call (Next (IsValue v)) t)) = sm_calls s @ [Next (IsValue v)] @ [Complete]"
    using t assms(3) by (simp_all add: emit_call_def cleanup_calls)
  show ?thesis
  proof (cases "\<exists>items. data_of v = Some (JArr items)")
    case True
    then obtain items where "data_of v = Some (JArr items)" by blast
    then show ?thesis unfolding run
      using next_call(1) t(1) by (intro exI [of _ "[if sm_accept t = Some ''text/event-stream'' then Next (IsValue v) else NextFile]"]) (simp add: emit_call_def)
  next
    case False
    then have "(case data_of v of Some (JArr items) \<Rightarrow> f items | _ \<Rightarrow> r) = r" for f :: "json list \<Rightarrow> stream_state" and r
      by (auto split: option.split json.split)
    then show ?thesis unfolding run using next_call by (intro exI [of _ "[Next (IsValue v)]"]) simp
  qed
qed

lemma heard_open: "list_all (\<lambda>c. \<not> ends_subscriber c) cs \<Longrightarrow> heard_by_consumer (cs @ ds) = cs @ heard_by_consumer ds"
  by (induction cs) auto

lemma no_error_step:
  assumes "stream_ok s" "Error x \<notin> set (heard_by_consumer (sm_calls s))"
  shows "Error x \<notin> set (heard_by_consumer (sm_calls (stream_step numStr e s)))"
proof (cases "sm_cleanedUp s")
  case True
  with cleaned_step [OF assms(1) True] assms(2) show ?thesis by simp
next
  case False
  then have open_calls: "\<not> list_ex ends_subscriber (sm_calls s)" "\<not> sm_gone s" using assms(1) by (auto simp: stream_ok_def subscriber_closed_def)
  then have all: "list_all (\<lambda>c. \<not> ends_subscriber c) (sm_calls s)" by (simp add: list_all_iff list_ex_iff)
  have silent: "Error x \<notin> set cs" if "list_all (\<lambda>c. \<not> ends_subscriber c) cs" for cs using that by (auto simp: list_all_iff)
  note ended = cleanup_calls [OF False open_calls(1)]
  show ?thesis
  proof (cases e)
    case (UpstreamNext pl)
    obtain cs where cs: "list_all (\<lambda>c. \<not> ends_subscriber c) cs"
      "sm_calls (upstream_next numStr pl s) = sm_calls s @ cs \<or> sm_calls (upstream_next numStr pl s) = sm_calls s @ cs @ [Complete]"
      using upstream_next_calls [OF False open_calls(2,1)] by blast
    then show ?thesis using UpstreamNext all heard_open [OF all, of cs] heard_open [OF all, of "cs @ [Complete]"] heard_open [OF cs(1), of "[]"]
        heard_open [OF cs(1), of "[Complete]"] silent [OF all] silent [OF cs(1)] by auto
  next
    case ClientGone
    then show ?thesis using assms(2) False open_calls silent [OF all] by (simp add: Let_def cleanup_calls heard_open [OF all])
  next
    case ResponseDone
    then show ?thesis using assms(2) False open_calls silent [OF all] by (simp add: Let_def cleanup_calls heard_open [OF all])
  next
    case Immediate
    then show ?thesis using assms(2) by (simp add: write_lines_def Let_def split: list.split option.split)
  qed (use assms(2) False open_calls silent [OF all] in \<open>simp_all add: emit_call_def ended heard_open [OF all]\<close>)
qed

theorem stream_errors_swallowed: "Error x \<notin> set (heard_by_consumer (sm_calls (stream_run numStr accept es)))"
proof -
  have "Error x \<notin> set (heard_by_consumer (sm_calls (fold (stream_step numStr) es s)))"
    if "stream_ok s" "Error x \<notin> set (heard_by_consumer (sm_calls s))" for s
    using that by (induction es arbitrary: s) (auto simp: stream_step_ok no_error_step)
  from this [OF opened_ok] show ?thesis by (simp add: stream_run_def opened_def)
qed

text \<open>A list is written completely, one line per item; but as long as the client waits and the response is not done, the stream is not
  completed, so a consumer that waits for the completion before it starts to send does not start.\<close>

theorem list_stream_waits:
  assumes "data_of v = Some (JArr items)" "accept \<noteq> Some ''text/event-stream''"
  shows "let s = stream_run numStr accept [UpstreamNext \<lparr>pl_kind = IsValue v, pl_cursor = None, pl_abort = None, pl_timers = []\<rparr>,
             UpstreamComplete, Immediate] in
     sm_pass s = Some \<lparr>pt_lines = map (ndjson_line numStr) items, pt_ended = True, pt_destroyed = False\<rparr>
     \<and> sm_calls s = [NextFile] \<and> stream_step numStr UpstreamComplete s = s \<and> stream_step numStr Immediate s = s"
proof -
  from assms(1) have obj: "is_object v" by (cases v) (auto simp: data_of_def)
  show ?thesis using assms obj
    by (simp add: stream_run_def opened_def upstream_next_def payload_object_def take_resources_def emit_call_def write_lines_def Let_def)
qed

text \<open>Each line is the text of its item.\<close>

theorem ndjson_line_exact: "\<exists>t. stringify numStr (serializeBigInt item) = Inr t \<and> ndjson_line numStr item = t @ [char_of (10 :: int)]"
  using stringify_total(1) [of numStr item] by (auto simp: ndjson_line_def)

definition sample_stream_payload :: payload where
  "sample_stream_payload = \<lparr>pl_kind = IsValue (JObj [(''data'', JArr [JBool True, JNull])]), pl_cursor = Some 7, pl_abort = Some 8, pl_timers = [1, 2, 1]\<rparr>"

theorem stream_lets_go_witness:
  "let es = [UpstreamReturned, UpstreamNext sample_stream_payload, Immediate, UpstreamComplete, ClientGone, ResponseDone] in
   sm_released (stream_run (\<lambda>_. ''0'') None es) = [ClearedTimer 1, ClearedTimer 2, ClosedCursor 7, Aborted 8]
   \<and> set (sm_released (stream_run (\<lambda>_. ''0'') None es)) = answered_for (open_payloads (\<lambda>_. ''0'') es (opened None))"
proof -
  let ?es = "[UpstreamReturned, UpstreamNext sample_stream_payload, Immediate, UpstreamComplete, ClientGone, ResponseDone]"
  have run: "sm_released (stream_run (\<lambda>_. ''0'') None ?es) = [ClearedTimer 1, ClearedTimer 2, ClosedCursor 7, Aborted 8]" by code_simp
  have "sm_cleanedUp (stream_run (\<lambda>_. ''0'') None ?es)" by code_simp
  with stream_lets_go [OF refl, of "\<lambda>_. ''0''" None ?es] run show ?thesis by (simp only: Let_def if_True simp_thms)
qed

end
