(* ===== verification/Redis_Startup.thy ===== *)
theory Redis_Startup
  imports Startup_Checks
begin

text \<open>
  The first connection to Redis: options and retries (\<^verbatim>\<open>src/redis/redis-startup.ts\<close>), the client and its factory
  (\<^verbatim>\<open>src/redis/redis.module.ts\<close>) and the service that owns the start (\<^verbatim>\<open>src/redis/redis-connection.service.ts\<close>). What an attempt
  meets and the random numbers are parameters; times are milliseconds. The jitter is computed exactly, where the code rounds doubles.
\<close>

section \<open>Options\<close>

record RedisStartupRetryOptions =
  so_maxAttempts :: int
  so_initialDelayMs :: int
  so_maxDelayMs :: int
  so_attemptTimeoutMs :: int

definition DEFAULT_REDIS_STARTUP_RETRY :: RedisStartupRetryOptions where
  "DEFAULT_REDIS_STARTUP_RETRY = \<lparr>so_maxAttempts = 5, so_initialDelayMs = 200, so_maxDelayMs = 3000, so_attemptTimeoutMs = 5000\<rparr>"

definition readNonNegativeInt :: "config_lib \<Rightarrow> configuration \<Rightarrow> string \<Rightarrow> int \<Rightarrow> int \<Rightarrow> int" where
  "readNonNegativeInt lib cfg key fallback minimum =
     (if blank (cfg key) then fallback
      else
        let parsed = xl_number lib (the (cfg key)) in
        if is_integer parsed \<and> minimum \<le> num_int parsed then num_int parsed else fallback)"

definition readRedisStartupRetryOptions :: "config_lib \<Rightarrow> configuration \<Rightarrow> RedisStartupRetryOptions" where
  "readRedisStartupRetryOptions lib cfg =
     (let d = DEFAULT_REDIS_STARTUP_RETRY;
          initialDelayMs = readNonNegativeInt lib cfg ''REDIS_STARTUP_INITIAL_DELAY_MS'' (so_initialDelayMs d) 0 in
      \<lparr>so_maxAttempts = readNonNegativeInt lib cfg ''REDIS_STARTUP_MAX_ATTEMPTS'' (so_maxAttempts d) 1,
       so_initialDelayMs = initialDelayMs,
       so_maxDelayMs = max initialDelayMs (readNonNegativeInt lib cfg ''REDIS_STARTUP_MAX_DELAY_MS'' (so_maxDelayMs d) 0),
       so_attemptTimeoutMs = readNonNegativeInt lib cfg ''REDIS_STARTUP_ATTEMPT_TIMEOUT_MS'' (so_attemptTimeoutMs d) 1\<rparr>)"

text \<open>Host, port and protocol of a URL that parses; a port that is not given is empty.\<close>

record url_parts =
  ux_hostname :: string
  ux_port :: string
  ux_protocol :: string

definition parseRedisTarget :: "(string \<Rightarrow> url_parts option) \<Rightarrow> string option \<Rightarrow> string \<times> int option" where
  "parseRedisTarget parse redisUrl =
     (case (if is_set redisUrl then parse (the redisUrl) else None) of
        None \<Rightarrow> (''localhost'', Some 6379)
      | Some u \<Rightarrow>
          (if ux_hostname u = [] then ''localhost'' else ux_hostname u,
           if ux_port u \<noteq> [] then parseInt10 (ux_port u) else if ux_protocol u = ''rediss:'' then Some 6380 else Some 6379))"

section \<open>Attempts\<close>

definition computeBackoffDelay :: "int \<Rightarrow> RedisStartupRetryOptions \<Rightarrow> rat \<Rightarrow> int" where
  "computeBackoffDelay attempt options random =
     (let exponential = so_initialDelayMs options * 2 ^ nat (max 0 (attempt - 1));
          capped = min exponential (so_maxDelayMs options);
          jitter = 1 / 2 + random * (1 / 2) in
      max 0 \<lfloor>of_int capped * jitter + 1 / 2\<rfloor>)"

text \<open>How long an attempt takes to connect or to fail; \<open>None\<close> hangs. The time limit closes the socket.\<close>

type_synonym connection_attempt = "(int \<times> bool) option"

datatype attempt_result = IsConnected | Refused | TimedOut

definition connectOnce :: "connection_attempt \<Rightarrow> int \<Rightarrow> attempt_result \<times> int" where
  "connectOnce a timeoutMs =
     (case a of
        None \<Rightarrow> (TimedOut, timeoutMs)
      | Some (t, ok) \<Rightarrow> if t \<ge> timeoutMs then (TimedOut, timeoutMs) else (if ok then IsConnected else Refused, t))"

record startup_run =
  su_result :: "unit outcome"
  su_attempts :: int
  su_elapsed :: int
  su_waits :: "int list"
  su_closes :: nat

text \<open>The loop, with the attempts that are left; closing happens after a time-out and after the last failure.\<close>

fun connect_attempts :: "RedisStartupRetryOptions \<Rightarrow> (int \<Rightarrow> connection_attempt) \<Rightarrow> (int \<Rightarrow> rat) \<Rightarrow> nat \<Rightarrow> int \<Rightarrow> startup_run" where
  "connect_attempts options answers random 0 attempt =
     \<lparr>su_result = Inl (PlainError ''Unable to connect to Redis''), su_attempts = attempt - 1, su_elapsed = 0, su_waits = [], su_closes = 1\<rparr>"
| "connect_attempts options answers random (Suc left) attempt =
     (let (r, t) = connectOnce (answers attempt) (so_attemptTimeoutMs options) in
      if r = IsConnected then \<lparr>su_result = Inr (), su_attempts = attempt, su_elapsed = t, su_waits = [], su_closes = 0\<rparr>
      else
        let closed = (if r = TimedOut then 1 else 0);
            delay = (if left = 0 then 0 else computeBackoffDelay attempt options (random attempt));
            rest = connect_attempts options answers random left (attempt + 1) in
        rest\<lparr>su_elapsed := t + delay + su_elapsed rest, su_waits := (if left = 0 then [] else [delay]) @ su_waits rest, su_closes := closed + su_closes rest\<rparr>)"

definition connectWithRetry :: "RedisStartupRetryOptions \<Rightarrow> (int \<Rightarrow> connection_attempt) \<Rightarrow> (int \<Rightarrow> rat) \<Rightarrow> startup_run" where
  "connectWithRetry options answers random = connect_attempts options answers random (nat (so_maxAttempts options)) 1"

section \<open>The client and its service\<close>

definition runtimeRetryDelay :: "int \<Rightarrow> int" where
  "runtimeRetryDelay n = min (n * 200) 2000"

definition reconnectOnError :: "string \<Rightarrow> bool" where
  "reconnectOnError message \<longleftrightarrow> list_ex (\<lambda>code. contains code message) [''READONLY'', ''ECONNRESET'', ''ETIMEDOUT'']"

text \<open>Whether the client reconnects on its own, and whether it exists still.\<close>

record redis_client =
  rc_url :: string
  rc_connectTimeout :: int
  rc_reconnects :: bool
  rc_connected :: bool
  rc_closed :: bool

definition createRedisClient :: "string \<Rightarrow> RedisStartupRetryOptions \<Rightarrow> redis_client" where
  "createRedisClient redisUrl options =
     \<lparr>rc_url = redisUrl, rc_connectTimeout = so_attemptTimeoutMs options, rc_reconnects = False, rc_connected = False, rc_closed = False\<rparr>"

definition redis_factory :: "config_lib \<Rightarrow> configuration \<Rightarrow> redis_client outcome" where
  "redis_factory lib cfg =
     (if is_set (cfg ''REDIS_URL'') then Inr (createRedisClient (the (cfg ''REDIS_URL'')) (readRedisStartupRetryOptions lib cfg))
      else Inl (PlainError ''REDIS_URL environment variable is required''))"

definition onModuleInit_redis :: "config_lib \<Rightarrow> configuration \<Rightarrow> (int \<Rightarrow> connection_attempt) \<Rightarrow> (int \<Rightarrow> rat) \<Rightarrow> redis_client \<Rightarrow> redis_client outcome" where
  "onModuleInit_redis lib cfg answers random c =
     (case su_result (connectWithRetry (readRedisStartupRetryOptions lib cfg) answers random) of
        Inl err \<Rightarrow> Inl err
      | Inr _ \<Rightarrow> Inr (c\<lparr>rc_connected := True, rc_reconnects := True\<rparr>))"

text \<open>The flag of the service makes a second shutdown do nothing; errors of closing are logged only.\<close>

definition onModuleDestroy_redis :: "redis_client \<Rightarrow> redis_client" where
  "onModuleDestroy_redis c = (if rc_closed c then c else c\<lparr>rc_closed := True, rc_connected := False\<rparr>)"

section \<open>Bounds\<close>

text \<open>A delay is between half of the capped exponential and all of it, up to rounding.\<close>

theorem backoff_bounds:
  assumes "0 \<le> r" "r < 1" "0 \<le> so_initialDelayMs options" "so_initialDelayMs options \<le> so_maxDelayMs options"
  shows "let capped = min (so_initialDelayMs options * 2 ^ nat (max 0 (attempt - 1))) (so_maxDelayMs options) in
     capped \<le> 2 * computeBackoffDelay attempt options r \<and> computeBackoffDelay attempt options r \<le> capped"
proof -
  define c where "c = min (so_initialDelayMs options * 2 ^ nat (max 0 (attempt - 1))) (so_maxDelayMs options)"
  have c0: "0 \<le> c" using assms(3,4) by (simp add: c_def)
  let ?x = "of_int c * (1 / 2 + r * (1 / 2)) + 1 / 2 :: rat"
  have r2: "0 \<le> of_int c * r" "of_int c * r \<le> of_int c" using c0 assms(1,2) by (simp_all add: mult_left_le)
  then have low: "of_int c / 2 + 1 / 2 \<le> ?x" and high: "?x \<le> of_int c + 1 / 2" by (simp_all add: field_simps)
  have "\<lfloor>of_int c / 2 + 1 / 2 :: rat\<rfloor> \<le> \<lfloor>?x\<rfloor>" using low by (rule floor_mono)
  moreover have "c \<le> 2 * \<lfloor>of_int c / 2 + 1 / 2 :: rat\<rfloor>"
  proof -
    have "of_int c / 2 + 1 / 2 = (of_int (c + 1) / of_int 2 :: rat)" by (simp add: field_simps)
    then have "\<lfloor>of_int c / 2 + 1 / 2 :: rat\<rfloor> = (c + 1) div 2" by (simp only: floor_divide_of_int_eq)
    then show ?thesis by simp
  qed
  moreover have "\<lfloor>?x\<rfloor> \<le> c" using high by (simp add: floor_le_iff)
  moreover have "computeBackoffDelay attempt options r = max 0 \<lfloor>?x\<rfloor>" by (simp add: computeBackoffDelay_def c_def Let_def)
  ultimately show ?thesis using c0 by (simp add: Let_def flip: c_def)
qed

lemma backoff_max:
  assumes "0 \<le> r" "r < 1" "0 \<le> so_initialDelayMs options" "so_initialDelayMs options \<le> so_maxDelayMs options"
  shows "0 \<le> computeBackoffDelay attempt options r \<and> computeBackoffDelay attempt options r \<le> so_maxDelayMs options"
proof -
  from backoff_bounds [OF assms, of attempt] have "computeBackoffDelay attempt options r \<le> so_maxDelayMs options" by (simp add: Let_def)
  then show ?thesis by (simp add: computeBackoffDelay_def Let_def)
qed

definition reaches :: "RedisStartupRetryOptions \<Rightarrow> (int \<Rightarrow> connection_attempt) \<Rightarrow> int \<Rightarrow> bool" where
  "reaches options answers n \<longleftrightarrow> (\<exists>t < so_attemptTimeoutMs options. answers n = Some (t, True))"

lemma connectOnce_cases:
  assumes "\<forall>n t ok. answers n = Some (t, ok) \<longrightarrow> 0 \<le> t" "0 \<le> so_attemptTimeoutMs options"
  shows "0 \<le> snd (connectOnce (answers n) (so_attemptTimeoutMs options)) \<and> snd (connectOnce (answers n) (so_attemptTimeoutMs options)) \<le> so_attemptTimeoutMs options
    \<and> (fst (connectOnce (answers n) (so_attemptTimeoutMs options)) = IsConnected \<longleftrightarrow> reaches options answers n)"
  using assms by (auto simp: connectOnce_def reaches_def split: option.splits)

definition options_ok :: "RedisStartupRetryOptions \<Rightarrow> bool" where
  "options_ok o1 \<longleftrightarrow> 1 \<le> so_maxAttempts o1 \<and> 0 \<le> so_initialDelayMs o1 \<and> so_initialDelayMs o1 \<le> so_maxDelayMs o1 \<and> 1 \<le> so_attemptTimeoutMs o1"

lemma connect_attempts_spec:
  assumes ok: "options_ok options" "\<forall>n. 0 \<le> random n \<and> random n < 1" "\<forall>n t up. answers n = Some (t, up) \<longrightarrow> 0 \<le> t"
  shows "su_attempts (connect_attempts options answers random left attempt) \<le> attempt - 1 + int left
    \<and> 0 \<le> su_elapsed (connect_attempts options answers random left attempt)
    \<and> su_elapsed (connect_attempts options answers random left attempt)
        \<le> int left * so_attemptTimeoutMs options + (if left = 0 then 0 else (int left - 1) * so_maxDelayMs options)
    \<and> (su_result (connect_attempts options answers random left attempt) = Inr () \<longleftrightarrow> (\<exists>n. attempt \<le> n \<and> n < attempt + int left \<and> reaches options answers n))
    \<and> (su_result (connect_attempts options answers random left attempt) \<noteq> Inr () \<longrightarrow>
         su_attempts (connect_attempts options answers random left attempt) = attempt - 1 + int left \<and> 1 \<le> su_closes (connect_attempts options answers random left attempt))"
proof (induction left arbitrary: attempt)
  case 0
  then show ?case by simp
next
  case (Suc left)
  define once where "once = connectOnce (answers attempt) (so_attemptTimeoutMs options)"
  define rest where "rest = connect_attempts options answers random left (attempt + 1)"
  define delay where "delay = (if left = 0 then 0 else computeBackoffDelay attempt options (random attempt))"
  have o: "0 \<le> snd once" "snd once \<le> so_attemptTimeoutMs options" "fst once = IsConnected \<longleftrightarrow> reaches options answers attempt"
    using connectOnce_cases [OF ok(3), of options attempt] ok(1) by (auto simp: once_def options_ok_def)
  have d: "0 \<le> delay" "delay \<le> (if left = 0 then 0 else so_maxDelayMs options)"
    using backoff_max [of "random attempt" options attempt] ok(1,2) by (auto simp: delay_def options_ok_def)
  have T: "0 \<le> so_attemptTimeoutMs options" "0 \<le> so_maxDelayMs options" using ok(1) by (auto simp: options_ok_def)
  note IH = Suc.IH [of "attempt + 1", folded rest_def]
  have range: "(\<exists>n. attempt \<le> n \<and> n < attempt + int (Suc left) \<and> reaches options answers n)
      \<longleftrightarrow> reaches options answers attempt \<or> (\<exists>n. attempt + 1 \<le> n \<and> n < attempt + 1 + int left \<and> reaches options answers n)"
  proof -
    have split: "attempt \<le> n \<and> n < attempt + int (Suc left) \<longleftrightarrow> n = attempt \<or> attempt + 1 \<le> n \<and> n < attempt + 1 + int left" for n by auto
    have "(\<exists>n. (n = attempt \<or> P n) \<and> R n) \<longleftrightarrow> R attempt \<or> (\<exists>n. P n \<and> R n)" for P R :: "int \<Rightarrow> bool" by auto
    then show ?thesis unfolding conj_assoc [symmetric] split by (simp only:)
  qed
  show ?case
  proof (cases "fst once = IsConnected")
    case True
    have run: "connect_attempts options answers random (Suc left) attempt
        = \<lparr>su_result = Inr (), su_attempts = attempt, su_elapsed = snd once, su_waits = [], su_closes = 0\<rparr>"
      using True by (simp add: once_def case_prod_beta)
    have "snd once \<le> int (Suc left) * so_attemptTimeoutMs options + int left * so_maxDelayMs options"
    proof -
      have "0 \<le> int left * so_attemptTimeoutMs options" "0 \<le> int left * so_maxDelayMs options" using T by simp_all
      then show ?thesis using o(2) by (simp add: algebra_simps)
    qed
    then show ?thesis unfolding range run using True o by simp
  next
    case False
    have run: "connect_attempts options answers random (Suc left) attempt
        = rest\<lparr>su_elapsed := snd once + delay + su_elapsed rest, su_waits := (if left = 0 then [] else [delay]) @ su_waits rest,
            su_closes := (if fst once = TimedOut then 1 else 0) + su_closes rest\<rparr>"
      using False by (simp add: once_def rest_def delay_def case_prod_beta Let_def)
    have "snd once + delay + su_elapsed rest \<le> int (Suc left) * so_attemptTimeoutMs options + int left * so_maxDelayMs options"
      using IH o(2) d(2) by (cases "left = 0") (auto simp: algebra_simps)
    moreover have "0 \<le> snd once + delay + su_elapsed rest" using IH o(1) d(1) by linarith
    ultimately show ?thesis unfolding range run using False o(3) IH by auto
  qed
qed

text \<open>A start ends: the loop makes at most the configured number of attempts within a time that the options bound, it succeeds exactly
  if one of them connects in time, and a failure comes only after all of them and leaves the client closed.\<close>

theorem redis_start_bounded:
  assumes "options_ok options" "\<forall>n. 0 \<le> random n \<and> random n < 1" "\<forall>n t up. answers n = Some (t, up) \<longrightarrow> 0 \<le> t"
    and "run = connectWithRetry options answers random"
  shows "su_attempts run \<le> so_maxAttempts options
    \<and> su_elapsed run \<le> so_maxAttempts options * so_attemptTimeoutMs options + (so_maxAttempts options - 1) * so_maxDelayMs options
    \<and> (su_result run = Inr () \<longleftrightarrow> (\<exists>n. 1 \<le> n \<and> n \<le> so_maxAttempts options \<and> (\<exists>t < so_attemptTimeoutMs options. answers n = Some (t, True))))
    \<and> (su_result run \<noteq> Inr () \<longrightarrow> su_attempts run = so_maxAttempts options \<and> 1 \<le> su_closes run)"
proof -
  have n: "int (nat (so_maxAttempts options)) = so_maxAttempts options" "nat (so_maxAttempts options) \<noteq> 0" using assms(1) by (auto simp: options_ok_def)
  have "m < 1 + so_maxAttempts options \<longleftrightarrow> m \<le> so_maxAttempts options" for m by auto
  with connect_attempts_spec [OF assms(1-3), of "nat (so_maxAttempts options)" 1] n show ?thesis
    unfolding assms(4) connectWithRetry_def reaches_def by simp
qed

text \<open>Whatever the environment says, the options that are read satisfy what the loop needs; and if the configuration was accepted at
  start-up, they are within its limits.\<close>

theorem startup_options_ok:
  "options_ok (readRedisStartupRetryOptions lib cfg)
   \<and> (validateConfig lib cfg processEnv = Inr port \<longrightarrow>
        so_maxAttempts (readRedisStartupRetryOptions lib cfg) \<le> 100 \<and> so_maxDelayMs (readRedisStartupRetryOptions lib cfg) \<le> 300000
        \<and> so_attemptTimeoutMs (readRedisStartupRetryOptions lib cfg) \<le> 120000)"
proof
  show "options_ok (readRedisStartupRetryOptions lib cfg)"
    by (auto simp: options_ok_def readRedisStartupRetryOptions_def Let_def readNonNegativeInt_def DEFAULT_REDIS_STARTUP_RETRY_def)
next
  show "validateConfig lib cfg processEnv = Inr port \<longrightarrow>
        so_maxAttempts (readRedisStartupRetryOptions lib cfg) \<le> 100 \<and> so_maxDelayMs (readRedisStartupRetryOptions lib cfg) \<le> 300000
        \<and> so_attemptTimeoutMs (readRedisStartupRetryOptions lib cfg) \<le> 120000"
  proof
    assume "validateConfig lib cfg processEnv = Inr port"
    then have "config_errors lib cfg processEnv = []" by (auto simp: validateConfig_def split: if_splits)
    then have "list_all (bound_ok lib cfg) redisRetryBounds"
      unfolding config_errors_def Let_def by (auto simp: bound_errors_def list_all_iff filter_empty_conv)
    then have b: "bound_ok lib cfg b" if "b \<in> set redisRetryBounds" for b using that by (simp add: list_all_iff)
    have read: "readNonNegativeInt lib cfg key fallback m \<le> hi" if "bound_ok lib cfg (key, lo, hi)" "fallback \<le> hi" for key fallback m lo hi
    proof (cases "blank (cfg key)")
      case False
      then obtain raw where cfg: "cfg key = Some raw" "trim raw \<noteq> []" by (cases "cfg key") (auto simp: blank_def)
      then have raw: "cfg key = Some raw" "raw \<noteq> []" by (auto simp: trim_def)
      then have "setting_between lo hi (xl_number lib raw)" using that(1) by (simp add: bound_ok_def)
      with that(2) raw False show ?thesis by (simp add: readNonNegativeInt_def setting_between_def Let_def)
    qed (use that in \<open>simp add: readNonNegativeInt_def\<close>)
    show "so_maxAttempts (readRedisStartupRetryOptions lib cfg) \<le> 100 \<and> so_maxDelayMs (readRedisStartupRetryOptions lib cfg) \<le> 300000
        \<and> so_attemptTimeoutMs (readRedisStartupRetryOptions lib cfg) \<le> 120000"
      using read [OF b, of "''REDIS_STARTUP_MAX_ATTEMPTS''" 1 100 5 1] read [OF b, of "''REDIS_STARTUP_INITIAL_DELAY_MS''" 0 60000 200 0]
        read [OF b, of "''REDIS_STARTUP_MAX_DELAY_MS''" 0 300000 3000 0] read [OF b, of "''REDIS_STARTUP_ATTEMPT_TIMEOUT_MS''" 1 120000 5000 1]
      by (simp add: readRedisStartupRetryOptions_def Let_def DEFAULT_REDIS_STARTUP_RETRY_def redisRetryBounds_def)
  qed
qed

text \<open>
  The check of the configuration accepts a missing \<^verbatim>\<open>REDIS_URL\<close> with a warning that a local server will be used; the factory of the
  client refuses it, so the process does not start.
\<close>

theorem missing_redis_url_accepted_then_refused:
  "validateConfig sample_config_lib sample_config None = Inr 3001
   \<and> redis_factory sample_config_lib sample_config = Inl (PlainError ''REDIS_URL environment variable is required'')"
  by code_simp

text \<open>A client reconnects on its own only after the start has succeeded.\<close>

theorem reconnects_after_start:
  assumes "redis_factory lib cfg = Inr c"
  shows "\<not> rc_reconnects c \<and> (onModuleInit_redis lib cfg answers random c = Inr c' \<longrightarrow> rc_reconnects c' \<and> rc_connected c')
    \<and> onModuleDestroy_redis (onModuleDestroy_redis c) = onModuleDestroy_redis c"
  using assms by (auto simp: redis_factory_def createRedisClient_def onModuleInit_redis_def onModuleDestroy_redis_def split: if_splits sum.splits)

theorem redis_start_bounded_witness:
  "su_result (connectWithRetry DEFAULT_REDIS_STARTUP_RETRY (\<lambda>n. if n = 3 then Some (20, True) else None) (\<lambda>_. 0)) = Inr ()
   \<and> su_elapsed (connectWithRetry DEFAULT_REDIS_STARTUP_RETRY (\<lambda>n. if n = 3 then Some (20, True) else None) (\<lambda>_. 0)) \<le> 37000"
proof -
  have "options_ok DEFAULT_REDIS_STARTUP_RETRY" "\<forall>n :: int. (0 :: rat) \<le> 0 \<and> (0 :: rat) < 1"
    "\<forall>n t up. (if n = (3 :: int) then Some (20, True) else None) = Some (t, up) \<longrightarrow> (0 :: int) \<le> t"
    by (auto simp: options_ok_def DEFAULT_REDIS_STARTUP_RETRY_def)
  from redis_start_bounded [OF this refl] show ?thesis by (auto simp: DEFAULT_REDIS_STARTUP_RETRY_def intro: exI [of _ 3])
qed

end
