(* ===== verification/Vault_Secrets.thy ===== *)
theory Vault_Secrets
  imports Startup_Checks Json_Values
begin

text \<open>
  Secrets from Vault, \<^verbatim>\<open>src/common/secrets/vault-secrets.loader.ts\<close>. The environment of the process is a function from names to texts;
  the answer of Vault is a parameter.
\<close>

section \<open>Reading a secret\<close>

definition VAULT_CONFIG_VARS :: "string list" where
  "VAULT_CONFIG_VARS = [''VAULT_ADDR'', ''VAULT_TOKEN'', ''VAULT_KV_PATH'']"

definition DEFAULT_VAULT_TIMEOUT_MS :: int where
  "DEFAULT_VAULT_TIMEOUT_MS = 5000"

definition isNonEmptyString :: "string option \<Rightarrow> bool" where
  "isNonEmptyString value \<longleftrightarrow> \<not> blank value"

definition parseCsv :: "string option \<Rightarrow> string list" where
  "parseCsv value = (if isNonEmptyString value then non_empty_entries (the value) else [])"

definition isVaultConfigured :: "configuration \<Rightarrow> bool" where
  "isVaultConfigured env \<longleftrightarrow> list_ex (\<lambda>name. isNonEmptyString (env name)) VAULT_CONFIG_VARS"

definition vault_timeout :: "configuration \<Rightarrow> int" where
  "vault_timeout env = (case parseInt10 (case env ''VAULT_TIMEOUT_MS'' of Some s \<Rightarrow> s | None \<Rightarrow> []) of
     None \<Rightarrow> DEFAULT_VAULT_TIMEOUT_MS | Some n \<Rightarrow> if n = 0 then DEFAULT_VAULT_TIMEOUT_MS else n)"

text \<open>One slash at the end of the address and one at the start of the path are dropped.\<close>

definition vault_url :: "string \<Rightarrow> string \<Rightarrow> string" where
  "vault_url addr path =
     (if addr \<noteq> [] \<and> List.last addr = CHR ''/'' then butlast addr else addr) @ ''/v1/''
     @ (case path of c # cs \<Rightarrow> if c = CHR ''/'' then cs else path | [] \<Rightarrow> [])"

text \<open>No answer, or a status and a body, which may not be JSON.\<close>

datatype vault_answer = NoAnswer | Answered int "json option"

text \<open>The entries of an object; those of an array are numbered. Entries that are null are left out.\<close>

definition secret_entries :: "(jsnum \<Rightarrow> string) \<Rightarrow> (string \<times> json) list \<Rightarrow> (string \<times> string) list" where
  "secret_entries numStr kvs = map (\<lambda>(k, v). (k, js_String numStr v)) (filter (\<lambda>(k, v). v \<noteq> JNull) kvs)"

definition secrets_of :: "(jsnum \<Rightarrow> string) \<Rightarrow> json \<Rightarrow> (string \<times> string) list option" where
  "secrets_of numStr payload =
     (case j_member ''data'' (j_member ''data'' (Some payload)) of
        Some (JObj kvs) \<Rightarrow> Some (secret_entries numStr kvs)
      | Some (JArr xs) \<Rightarrow> Some (secret_entries numStr (zip (map (nat_str \<circ> int) [0..<length xs]) xs))
      | _ \<Rightarrow> None)"

definition fetchVaultSecrets ::
  "(jsnum \<Rightarrow> string) \<Rightarrow> (string \<Rightarrow> string \<Rightarrow> int \<Rightarrow> vault_answer) \<Rightarrow> configuration \<Rightarrow> (string \<times> string) list option outcome" where
  "fetchVaultSecrets numStr fetch env =
     (let configured = filter (\<lambda>name. isNonEmptyString (env name)) VAULT_CONFIG_VARS in
      if configured = [] then Inr None
      else if length configured < length VAULT_CONFIG_VARS then Inl (PlainError ''Vault is partially configured'')
      else
        let addr = the (env ''VAULT_ADDR''); token = the (env ''VAULT_TOKEN''); path = the (env ''VAULT_KV_PATH'') in
        case fetch (vault_url addr path) token (vault_timeout env) of
          NoAnswer \<Rightarrow> Inl (PlainError ''Could not reach Vault'')
        | Answered status body \<Rightarrow>
            if \<not> (200 \<le> status \<and> status < 300) then Inl (PlainError ''Vault secret fetch failed'')
            else case body of
              None \<Rightarrow> Inl (PlainError ''Vault response was not valid JSON'')
            | Some payload \<Rightarrow>
                (case secrets_of numStr payload of
                   None \<Rightarrow> Inl (PlainError ''Vault response has no data.data object'')
                 | Some secrets \<Rightarrow> Inr (Some secrets)))"

section \<open>Secrets into the environment\<close>

definition set_env :: "string \<times> string \<Rightarrow> configuration \<Rightarrow> configuration" where
  "set_env kv env = env(fst kv \<mapsto> snd kv)"

definition missing_required :: "configuration \<Rightarrow> string list" where
  "missing_required env = filter (\<lambda>key. \<not> isNonEmptyString (env key)) (parseCsv (env ''VAULT_REQUIRED_KEYS''))"

text \<open>The environment afterwards; what is thrown ends the process.\<close>

definition loadVaultSecrets ::
  "(jsnum \<Rightarrow> string) \<Rightarrow> (string \<Rightarrow> string \<Rightarrow> int \<Rightarrow> vault_answer) \<Rightarrow> configuration \<Rightarrow> configuration outcome" where
  "loadVaultSecrets numStr fetch env =
     (case fetchVaultSecrets numStr fetch env of
        Inl err \<Rightarrow> Inl err
      | Inr None \<Rightarrow> Inr env
      | Inr (Some secrets) \<Rightarrow>
          let env' = fold set_env secrets env in
          if missing_required env' \<noteq> [] then Inl (PlainError ''Required secret(s) missing'') else Inr env')"

section \<open>What loading guarantees\<close>

lemma fold_set_env: "fold set_env secrets env = (\<lambda>k. case map_of (rev secrets) k of Some v \<Rightarrow> Some v | None \<Rightarrow> env k)"
  by (induction secrets arbitrary: env) (auto simp: set_env_def map_add_def fun_eq_iff split: option.splits)

text \<open>
  The process goes on only in two cases: Vault is not configured at all and the environment is untouched; or it is configured
  completely, answered with a secret, the entries of the secret are in the environment, everything else is as before, and every
  required key has a value.
\<close>

theorem loadVaultSecrets_sound:
  assumes "loadVaultSecrets numStr fetch env = Inr env'"
  shows "(\<not> isVaultConfigured env \<and> env' = env)
    \<or> (list_all (\<lambda>name. \<not> blank (env name)) VAULT_CONFIG_VARS
       \<and> (\<exists>status payload secrets. fetch (vault_url (the (env ''VAULT_ADDR'')) (the (env ''VAULT_KV_PATH''))) (the (env ''VAULT_TOKEN'')) (vault_timeout env)
              = Answered status (Some payload) \<and> 200 \<le> status \<and> status < 300 \<and> secrets_of numStr payload = Some secrets
            \<and> (\<forall>k. env' k = (case map_of (rev secrets) k of Some v \<Rightarrow> Some v | None \<Rightarrow> env k)))
       \<and> (\<forall>key \<in> set (parseCsv (env' ''VAULT_REQUIRED_KEYS'')). \<not> blank (env' key)))"
proof -
  consider "fetchVaultSecrets numStr fetch env = Inr None" "env' = env"
    | secrets where "fetchVaultSecrets numStr fetch env = Inr (Some secrets)" "env' = fold set_env secrets env" "missing_required env' = []"
    using assms by (auto simp: loadVaultSecrets_def Let_def split: sum.splits option.splits if_splits)
  then show ?thesis
  proof cases
    case 1
    then have "\<not> isVaultConfigured env"
      by (auto simp: fetchVaultSecrets_def Let_def isVaultConfigured_def list_ex_iff filter_empty_conv split: if_splits vault_answer.splits option.splits)
    with 1 show ?thesis by simp
  next
    case 2
    from 2(1) have "\<not> length (filter (\<lambda>name. isNonEmptyString (env name)) VAULT_CONFIG_VARS) < length VAULT_CONFIG_VARS"
      by (auto simp: fetchVaultSecrets_def Let_def split: if_splits)
    then have "list_all (\<lambda>name. \<not> blank (env name)) VAULT_CONFIG_VARS"
      by (auto simp: VAULT_CONFIG_VARS_def isNonEmptyString_def split: if_splits)
    moreover have "\<exists>status payload. fetch (vault_url (the (env ''VAULT_ADDR'')) (the (env ''VAULT_KV_PATH''))) (the (env ''VAULT_TOKEN'')) (vault_timeout env)
              = Answered status (Some payload) \<and> 200 \<le> status \<and> status < 300 \<and> secrets_of numStr payload = Some secrets"
      using 2(1) by (auto simp: fetchVaultSecrets_def Let_def split: if_splits vault_answer.splits option.splits)
    moreover have "\<forall>key \<in> set (parseCsv (env' ''VAULT_REQUIRED_KEYS'')). \<not> blank (env' key)"
      using 2(3) by (auto simp: missing_required_def isNonEmptyString_def filter_empty_conv)
    ultimately show ?thesis using 2(2) by (auto simp: fold_set_env)
  qed
qed

end
