(* ===== verification/Database_Clients.thy ===== *)
theory Database_Clients
  imports Vault_Secrets
begin

text \<open>
  Connections to the database, \<^verbatim>\<open>src/prisma/prisma.service.ts\<close>, and their renewal when Vault hands out new credentials,
  \<^verbatim>\<open>src/prisma/database-credential-rotation.service.ts\<close>. Clients are numbered in the order they are made. Whether a client connects,
  the answers of Vault and the parsing of URLs are parameters. The redaction of error texts and the forwarding of queries to the
  current client are not modelled.
\<close>

section \<open>Pool parameters\<close>

text \<open>The query parameters of a URL, if it parses; and its text with further parameters.\<close>

record url_lib =
  ul_params :: "string \<Rightarrow> (string \<times> string) list option"
  ul_with :: "string \<Rightarrow> (string \<times> string) list \<Rightarrow> string"

definition POOL_PARAMS :: "(string \<times> string \<times> string) list" where
  "POOL_PARAMS = [(''connection_limit'', ''DATABASE_CONNECTION_LIMIT'', ''10''), (''pool_timeout'', ''DATABASE_POOL_TIMEOUT'', ''10''),
     (''connect_timeout'', ''DATABASE_CONNECT_TIMEOUT'', ''5'')]"

text \<open>\<^verbatim>\<open>process.env.NAME || dflt\<close>.\<close>

definition env_or :: "configuration \<Rightarrow> string \<Rightarrow> string \<Rightarrow> string" where
  "env_or env name dflt = (if is_set (env name) then the (env name) else dflt)"

definition url_params :: "url_lib \<Rightarrow> string option \<Rightarrow> (string \<times> string) list" where
  "url_params lib url = (if is_set url then (case ul_params lib (the url) of Some ps \<Rightarrow> ps | None \<Rightarrow> []) else [])"

text \<open>\<open>None\<close> is not-a-number.\<close>

type_synonym PrismaPoolConfig = "int option list"

definition getEffectivePoolConfig :: "url_lib \<Rightarrow> configuration \<Rightarrow> string option \<Rightarrow> PrismaPoolConfig" where
  "getEffectivePoolConfig lib env url =
     map (\<lambda>(param, name, dflt). parseInt10 (case map_of (url_params lib url) param of Some v \<Rightarrow> v | None \<Rightarrow> env_or env name dflt)) POOL_PARAMS"

definition withConnectionPoolParams :: "url_lib \<Rightarrow> configuration \<Rightarrow> string option \<Rightarrow> string option" where
  "withConnectionPoolParams lib env url =
     (if \<not> is_set url then url
      else case ul_params lib (the url) of
        None \<Rightarrow> url
      | Some ps \<Rightarrow> Some (ul_with lib (the url)
          (map (\<lambda>(param, name, dflt). (param, env_or env name dflt)) (filter (\<lambda>(param, _). map_of ps param = None) POOL_PARAMS))))"

section \<open>Clients and their rotation\<close>

text \<open>A client is \<open>Disconnected\<close> once it was told to disconnect. If \<^verbatim>\<open>$disconnect\<close> fails the service only logs that and forgets the
  client all the same, so the outcome is not part of the state.\<close>

datatype client_state = Made | Connected | Disconnected

record db_client =
  dc_url :: "string option"
  dc_state :: client_state

text \<open>
  A refresh waits for Vault, for the new clients to connect, or for new clients that did not connect to be let go. It remembers the
  values of the environment that it replaced. A rotation holds the URLs it read and the clients it made.
\<close>

record rotation =
  ro_previous :: "(string \<times> string option) list"
  ro_primaryUrl :: "string option"
  ro_replicaUrl :: "string option"
  ro_primary :: "nat option"
  ro_replica :: "nat option"
  ro_replicaChanged :: bool

datatype rotation_phase = Idle | Fetching | ConnectingPrimary rotation | ConnectingReplica rotation | Dropping rotation

text \<open>A shutdown lets go of retired clients, then of the primary one, then of the replica.\<close>

datatype shutdown = Serving | ClosingPrimary | ClosingReplica | Closed

record db_service =
  db_env :: configuration
  db_clients :: "db_client list"
  db_primary :: nat
  db_replica :: "nat option"
  db_primaryUrl :: "string option"
  db_replicaUrl :: "string option"
  db_pool :: PrismaPoolConfig
  db_retiring :: "(nat \<times> nat list) list"
  db_nextTimer :: nat
  db_phase :: rotation_phase
  db_shutdown :: shutdown

definition DATABASE_CREDENTIAL_KEYS :: "string list" where
  "DATABASE_CREDENTIAL_KEYS = [''DATABASE_URL'', ''DATABASE_REPLICA_URL'']"

definition set_state :: "client_state \<Rightarrow> nat list \<Rightarrow> db_service \<Rightarrow> db_service" where
  "set_state st ids d = d\<lparr>db_clients := fold (\<lambda>i cs. cs[i := (cs ! i)\<lparr>dc_state := st\<rparr>]) ids (db_clients d)\<rparr>"

abbreviation disconnectQuietly :: "nat list \<Rightarrow> db_service \<Rightarrow> db_service" where
  "disconnectQuietly \<equiv> set_state Disconnected"

definition opt_list :: "'a option \<Rightarrow> 'a list" where
  "opt_list x = (case x of None \<Rightarrow> [] | Some y \<Rightarrow> [y])"

text \<open>The service as its constructor makes it, once its clients have connected (\<^verbatim>\<open>onModuleInit\<close>).\<close>

definition started :: "url_lib \<Rightarrow> configuration \<Rightarrow> db_service" where
  "started lib env =
     (let purl = env ''DATABASE_URL''; rurl = env ''DATABASE_REPLICA_URL'' in
      \<lparr>db_env = env,
       db_clients = \<lparr>dc_url = purl, dc_state = Connected\<rparr> # (if is_set rurl then [\<lparr>dc_url = rurl, dc_state = Connected\<rparr>] else []),
       db_primary = 0, db_replica = (if is_set rurl then Some 1 else None), db_primaryUrl = purl, db_replicaUrl = rurl,
       db_pool = getEffectivePoolConfig lib env purl, db_retiring = [], db_nextTimer = 0, db_phase = Idle, db_shutdown = Serving\<rparr>)"

text \<open>\<^verbatim>\<open>swapClientsIfCredentialsChanged\<close> until its first suspension: new clients are made for what changed.\<close>

definition begin_swap :: "(string \<times> string option) list \<Rightarrow> db_service \<Rightarrow> db_service" where
  "begin_swap previous d =
     (let purl = db_env d ''DATABASE_URL''; rurl = db_env d ''DATABASE_REPLICA_URL'';
          primaryChanged = (purl \<noteq> db_primaryUrl d); replicaChanged = (rurl \<noteq> db_replicaUrl d) in
      if \<not> primaryChanged \<and> \<not> replicaChanged then d\<lparr>db_phase := Idle\<rparr>
      else
        let n = length (db_clients d);
            nextPrimary = (if primaryChanged then Some n else None);
            nextReplica = (if replicaChanged \<and> is_set rurl then Some (n + length (opt_list nextPrimary)) else None);
            ro = \<lparr>ro_previous = previous, ro_primaryUrl = purl, ro_replicaUrl = rurl, ro_primary = nextPrimary, ro_replica = nextReplica,
                  ro_replicaChanged = replicaChanged\<rparr> in
        d\<lparr>db_clients := db_clients d @ (if primaryChanged then [\<lparr>dc_url = purl, dc_state = Made\<rparr>] else [])
            @ (if nextReplica \<noteq> None then [\<lparr>dc_url = rurl, dc_state = Made\<rparr>] else []),
          db_phase := (if primaryChanged then ConnectingPrimary ro else ConnectingReplica ro)\<rparr>)"

text \<open>What a refresh does with the secrets it fetched.\<close>

definition changed_keys :: "(string \<times> string) list \<Rightarrow> configuration \<Rightarrow> string list" where
  "changed_keys secrets env = filter (\<lambda>key. map_of (rev secrets) key \<noteq> None \<and> map_of (rev secrets) key \<noteq> env key) DATABASE_CREDENTIAL_KEYS"

definition apply_secrets :: "(string \<times> string) list \<Rightarrow> db_service \<Rightarrow> db_service" where
  "apply_secrets secrets d =
     (let changed = changed_keys secrets (db_env d) in
      if changed = [] then d\<lparr>db_phase := Idle\<rparr>
      else begin_swap (map (\<lambda>key. (key, db_env d key)) changed)
        (d\<lparr>db_env := fold (\<lambda>key env. env(key := map_of (rev secrets) key)) changed (db_env d)\<rparr>))"

text \<open>All new clients are connected: they take over, and the old ones wait for the end of the drain period.\<close>

definition finish_swap :: "url_lib \<Rightarrow> rotation \<Rightarrow> db_service \<Rightarrow> db_service" where
  "finish_swap lib ro d =
     (let retiredP = (if ro_primary ro = None then [] else [db_primary d]);
          d1 = (case ro_primary ro of
                  None \<Rightarrow> d
                | Some p \<Rightarrow> d\<lparr>db_primary := p, db_primaryUrl := ro_primaryUrl ro, db_pool := getEffectivePoolConfig lib (db_env d) (ro_primaryUrl ro)\<rparr>);
          retiredR = (if ro_replicaChanged ro then opt_list (db_replica d1) else []);
          d2 = (if ro_replicaChanged ro then d1\<lparr>db_replica := ro_replica ro, db_replicaUrl := ro_replicaUrl ro\<rparr> else d1) in
      d2\<lparr>db_retiring := db_retiring d2 @ [(db_nextTimer d2, retiredP @ retiredR)], db_nextTimer := Suc (db_nextTimer d2), db_phase := Idle\<rparr>)"

definition drop_new :: "rotation \<Rightarrow> db_service \<Rightarrow> db_service" where
  "drop_new ro d = (disconnectQuietly (opt_list (ro_primary ro) @ opt_list (ro_replica ro)) d)\<lparr>db_phase := Dropping ro\<rparr>"

datatype db_event =
    Refresh
  | VaultAnswers "(string \<times> string) list option outcome"
  | ConnectAnswers bool
  | Dropped
  | DrainElapsed nat
  | ShutdownStep

fun db_step :: "url_lib \<Rightarrow> db_event \<Rightarrow> db_service \<Rightarrow> db_service" where
  "db_step lib Refresh d = (if db_phase d = Idle then d\<lparr>db_phase := Fetching\<rparr> else d)"
| "db_step lib (VaultAnswers answer) d =
     (if db_phase d = Fetching then
        (case answer of
           Inr (Some secrets) \<Rightarrow> apply_secrets secrets d
         | _ \<Rightarrow> d\<lparr>db_phase := Idle\<rparr>)
      else d)"
| "db_step lib (ConnectAnswers ok) d =
     (case db_phase d of
        ConnectingPrimary ro \<Rightarrow>
          if ok then (set_state Connected (opt_list (ro_primary ro)) d)\<lparr>db_phase := ConnectingReplica ro\<rparr> else drop_new ro d
      | ConnectingReplica ro \<Rightarrow>
          if ro_replica ro = None then finish_swap lib ro d
          else if ok then finish_swap lib ro (set_state Connected (opt_list (ro_replica ro)) d) else drop_new ro d
      | _ \<Rightarrow> d)"
| "db_step lib Dropped d =
     (case db_phase d of
        Dropping ro \<Rightarrow> d\<lparr>db_env := fold (\<lambda>(key, v) env. env(key := v)) (ro_previous ro) (db_env d), db_phase := Idle\<rparr>
      | _ \<Rightarrow> d)"
| "db_step lib (DrainElapsed t) d =
     (case map_of (db_retiring d) t of
        None \<Rightarrow> d
      | Some ids \<Rightarrow> disconnectQuietly ids (d\<lparr>db_retiring := filter (\<lambda>(t', _). t' \<noteq> t) (db_retiring d)\<rparr>))"
| "db_step lib ShutdownStep d =
     (case db_shutdown d of
        Serving \<Rightarrow> disconnectQuietly (concat (map snd (db_retiring d))) (d\<lparr>db_retiring := [], db_shutdown := ClosingPrimary\<rparr>)
      | ClosingPrimary \<Rightarrow> disconnectQuietly [db_primary d] (d\<lparr>db_shutdown := ClosingReplica\<rparr>)
      | ClosingReplica \<Rightarrow> disconnectQuietly (opt_list (db_replica d)) (d\<lparr>db_shutdown := Closed\<rparr>)
      | Closed \<Rightarrow> d)"

definition db_run :: "url_lib \<Rightarrow> configuration \<Rightarrow> db_event list \<Rightarrow> db_service" where
  "db_run lib env es = fold (db_step lib) es (started lib env)"

section \<open>The first connection\<close>

text \<open>The attempts of \<^verbatim>\<open>onModuleInit\<close>: whether the primary and the replica connect at each of them; the result and the waits in between.\<close>

definition DB_CONNECT_RETRIES :: nat where
  "DB_CONNECT_RETRIES = 5"

fun connect_loop :: "(nat \<Rightarrow> bool \<times> bool) \<Rightarrow> bool \<Rightarrow> nat \<Rightarrow> nat \<Rightarrow> int \<Rightarrow> unit outcome \<times> int list" where
  "connect_loop answers replica 0 attempt delayMs = (Inr (), [])"
| "connect_loop answers replica (Suc left) attempt delayMs =
     (if fst (answers attempt) \<and> (replica \<longrightarrow> snd (answers attempt)) then (Inr (), [])
      else if left = 0 then (Inl (PlainError ''database unreachable''), [])
      else let (r, waits) = connect_loop answers replica left (Suc attempt) (delayMs * 2) in (r, delayMs # waits))"

definition onModuleInit_database :: "(nat \<Rightarrow> bool \<times> bool) \<Rightarrow> bool \<Rightarrow> unit outcome \<times> int list" where
  "onModuleInit_database answers replica = connect_loop answers replica DB_CONNECT_RETRIES 1 1000"

section \<open>Cached queries\<close>

type_synonym 'v query_cache = "string \<Rightarrow> ('v \<times> int) option"

definition cached_hit :: "'v query_cache \<Rightarrow> string \<Rightarrow> int \<Rightarrow> 'v option" where
  "cached_hit c key now = (case c key of Some (v, expiresAt) \<Rightarrow> if expiresAt > now then Some v else None | None \<Rightarrow> None)"

definition cache_store :: "string \<Rightarrow> 'v \<Rightarrow> int \<Rightarrow> int \<Rightarrow> 'v query_cache \<Rightarrow> 'v query_cache" where
  "cache_store key v now ttlSeconds c = c(key \<mapsto> (v, now + ttlSeconds * 1000))"

definition invalidateCache :: "string \<Rightarrow> 'v query_cache \<Rightarrow> 'v query_cache" where
  "invalidateCache key c = c(key := None)"

definition invalidateCacheByPrefix :: "string \<Rightarrow> 'v query_cache \<Rightarrow> 'v query_cache" where
  "invalidateCacheByPrefix p c = (\<lambda>key. if starts_with p key then None else c key)"

section \<open>A rotation never takes a working connection away\<close>

lemma set_state_fields [simp]:
  "db_env (set_state st ids d) = db_env d" "db_primary (set_state st ids d) = db_primary d" "db_replica (set_state st ids d) = db_replica d"
  "db_primaryUrl (set_state st ids d) = db_primaryUrl d" "db_replicaUrl (set_state st ids d) = db_replicaUrl d"
  "db_pool (set_state st ids d) = db_pool d" "db_retiring (set_state st ids d) = db_retiring d" "db_nextTimer (set_state st ids d) = db_nextTimer d"
  "db_phase (set_state st ids d) = db_phase d" "db_shutdown (set_state st ids d) = db_shutdown d"
  by (simp_all add: set_state_def)

lemma fold_states:
  "length (fold (\<lambda>i cs. cs[i := (cs ! i)\<lparr>dc_state := st\<rparr>]) ids cs) = length cs
   \<and> (\<forall>i < length cs. fold (\<lambda>i cs. cs[i := (cs ! i)\<lparr>dc_state := st\<rparr>]) ids cs ! i = (if i \<in> set ids then (cs ! i)\<lparr>dc_state := st\<rparr> else cs ! i))"
proof (induction ids arbitrary: cs)
  case (Cons j ids)
  from Cons.IH [of "cs[j := (cs ! j)\<lparr>dc_state := st\<rparr>]"] show ?case by (cases "j < length cs") (auto simp: nth_list_update)
qed simp

lemma set_state_clients [simp]:
  "length (db_clients (set_state st ids d)) = length (db_clients d)"
  "i < length (db_clients d) \<Longrightarrow> db_clients (set_state st ids d) ! i = (if i \<in> set ids then (db_clients d ! i)\<lparr>dc_state := st\<rparr> else db_clients d ! i)"
  using fold_states [of st ids "db_clients d"] by (simp_all add: set_state_def)

lemma set_opt_list [simp]: "set (opt_list x) = set_option x" "(opt_list x = []) = (x = None)" "opt_list None = []" "opt_list (Some y) = [y]"
  by (cases x; simp add: opt_list_def)+

fun new_clients :: "rotation_phase \<Rightarrow> nat list" where
  "new_clients (ConnectingPrimary ro) = opt_list (ro_primary ro) @ opt_list (ro_replica ro)"
| "new_clients (ConnectingReplica ro) = opt_list (ro_primary ro) @ opt_list (ro_replica ro)"
| "new_clients _ = []"

definition in_use :: "db_service \<Rightarrow> nat list" where
  "in_use d = db_primary d # opt_list (db_replica d)"

definition retired :: "db_service \<Rightarrow> nat list" where
  "retired d = concat (map snd (db_retiring d))"

text \<open>No client is lost: each one is in use, waiting to be let go, about to be used, or disconnected; and the clients in use are connected.\<close>

definition clients_ok :: "db_service \<Rightarrow> bool" where
  "clients_ok d \<longleftrightarrow> distinct (in_use d @ retired d @ new_clients (db_phase d))
     \<and> (\<forall>i \<in> set (in_use d @ retired d @ new_clients (db_phase d)). i < length (db_clients d))
     \<and> (\<forall>i \<in> set (in_use d @ retired d). dc_state (db_clients d ! i) = Connected)
     \<and> (\<forall>i < length (db_clients d). i \<notin> set (in_use d @ retired d @ new_clients (db_phase d)) \<longrightarrow> dc_state (db_clients d ! i) = Disconnected)
     \<and> distinct (map fst (db_retiring d)) \<and> (\<forall>t \<in> set (map fst (db_retiring d)). t < db_nextTimer d)"

definition urls_ok :: "db_service \<Rightarrow> bool" where
  "urls_ok d \<longleftrightarrow> dc_url (db_clients d ! db_primary d) = db_primaryUrl d
     \<and> (case db_replica d of None \<Rightarrow> \<not> is_set (db_replicaUrl d) | Some r \<Rightarrow> is_set (db_replicaUrl d) \<and> dc_url (db_clients d ! r) = db_replicaUrl d)"

text \<open>What a rotation has read agrees with the environment, and its clients were made for that.\<close>

definition rotation_ok :: "db_service \<Rightarrow> rotation \<Rightarrow> bool" where
  "rotation_ok d ro \<longleftrightarrow> ro_primaryUrl ro = db_env d ''DATABASE_URL'' \<and> ro_replicaUrl ro = db_env d ''DATABASE_REPLICA_URL''
     \<and> (case ro_primary ro of None \<Rightarrow> ro_primaryUrl ro = db_primaryUrl d | Some p \<Rightarrow> dc_url (db_clients d ! p) = ro_primaryUrl ro)
     \<and> (\<not> ro_replicaChanged ro \<longrightarrow> ro_replicaUrl ro = db_replicaUrl d \<and> ro_replica ro = None)
     \<and> (ro_replicaChanged ro \<longrightarrow> (case ro_replica ro of None \<Rightarrow> \<not> is_set (ro_replicaUrl ro)
         | Some r \<Rightarrow> is_set (ro_replicaUrl ro) \<and> dc_url (db_clients d ! r) = ro_replicaUrl ro))"

definition restored :: "rotation \<Rightarrow> configuration \<Rightarrow> configuration" where
  "restored ro env = fold (\<lambda>(key, v) env. env(key := v)) (ro_previous ro) env"

text \<open>The environment names the connections in use, now or once it is restored.\<close>

definition env_names :: "configuration \<Rightarrow> db_service \<Rightarrow> bool" where
  "env_names env d \<longleftrightarrow> env ''DATABASE_URL'' = db_primaryUrl d \<and> env ''DATABASE_REPLICA_URL'' = db_replicaUrl d"

fun phase_ok :: "rotation_phase \<Rightarrow> db_service \<Rightarrow> bool" where
  "phase_ok (ConnectingPrimary ro) d = (rotation_ok d ro \<and> ro_primary ro \<noteq> None \<and> env_names (restored ro (db_env d)) d)"
| "phase_ok (ConnectingReplica ro) d = (rotation_ok d ro \<and> (\<forall>p \<in> set_option (ro_primary ro). dc_state (db_clients d ! p) = Connected)
     \<and> env_names (restored ro (db_env d)) d)"
| "phase_ok (Dropping ro) d = env_names (restored ro (db_env d)) d"
| "phase_ok _ d = env_names (db_env d) d"

definition elsewhere_same :: "configuration \<Rightarrow> db_service \<Rightarrow> bool" where
  "elsewhere_same env d \<longleftrightarrow> (\<forall>k. k \<notin> set DATABASE_CREDENTIAL_KEYS \<longrightarrow> db_env d k = env k)
     \<and> (\<forall>ro. db_phase d \<in> {ConnectingPrimary ro, ConnectingReplica ro, Dropping ro} \<longrightarrow> fst ` set (ro_previous ro) \<subseteq> set DATABASE_CREDENTIAL_KEYS)"

definition db_ok :: "url_lib \<Rightarrow> configuration \<Rightarrow> db_service \<Rightarrow> bool" where
  "db_ok lib env d \<longleftrightarrow> db_shutdown d = Serving \<and> clients_ok d \<and> urls_ok d \<and> phase_ok (db_phase d) d \<and> elsewhere_same env d
     \<and> db_pool d = getEffectivePoolConfig lib env (db_primaryUrl d)"

lemma started_ok: "db_ok lib env (started lib env)"
  by (auto simp: db_ok_def started_def Let_def clients_ok_def in_use_def retired_def urls_ok_def env_names_def elsewhere_same_def less_Suc_eq nth_Cons')

lemma fold_set_keys: "fold (\<lambda>key env. env(key := f key)) keys env k = (if k \<in> set keys then f k else env k)"
  by (induction keys arbitrary: env) auto

lemma fold_restore_keys: "fold (\<lambda>(key, v) env. env(key := v)) (map (\<lambda>key. (key, f key)) keys) env k = (if k \<in> set keys then f k else env k)"
  by (induction keys arbitrary: env) auto

lemma restored_outside:
  assumes "fst ` set (ro_previous ro) \<subseteq> K" "k \<notin> K"
  shows "restored ro env k = env k"
proof -
  have "k \<notin> fst ` set xs \<Longrightarrow> fold (\<lambda>(key, v) env. env(key := v)) xs env k = env k" for xs :: "(string \<times> string option) list"
    by (induction xs arbitrary: env) auto
  moreover have "k \<notin> fst ` set (ro_previous ro)" using assms by blast
  ultimately show ?thesis by (simp add: restored_def)
qed

lemma ok_other_fields [simp]:
  "in_use (d\<lparr>db_env := e\<rparr>) = in_use d" "retired (d\<lparr>db_env := e\<rparr>) = retired d"
  "in_use (d\<lparr>db_phase := ph\<rparr>) = in_use d" "retired (d\<lparr>db_phase := ph\<rparr>) = retired d"
  "urls_ok (d\<lparr>db_env := e\<rparr>) = urls_ok d" "urls_ok (d\<lparr>db_phase := ph\<rparr>) = urls_ok d"
  "env_names f (d\<lparr>db_env := e\<rparr>) = env_names f d" "env_names f (d\<lparr>db_phase := ph\<rparr>) = env_names f d"
  by (auto simp: in_use_def retired_def urls_ok_def env_names_def split: option.split)

lemma clients_ok_env [simp]: "clients_ok (d\<lparr>db_env := e\<rparr>) = clients_ok d"
  by (simp add: clients_ok_def)

lemma clients_ok_phase:
  assumes "new_clients ph = new_clients (db_phase d)"
  shows "clients_ok (d\<lparr>db_phase := ph\<rparr>) = clients_ok d"
  using assms by (simp add: clients_ok_def)

lemma idle_ok:
  assumes "db_ok lib env d" "db_phase d = Idle \<or> db_phase d = Fetching" "ph = Idle \<or> ph = Fetching"
  shows "db_ok lib env (d\<lparr>db_phase := ph\<rparr>)"
proof -
  have "new_clients ph = new_clients (db_phase d)" using assms(2,3) by auto
  then show ?thesis using assms by (auto simp: db_ok_def clients_ok_phase elsewhere_same_def)
qed

text \<open>The rotation that a refresh with other URLs begins.\<close>

lemma begin_swap_ok:
  assumes ok: "db_ok lib env d" "db_phase d = Fetching"
    and e: "\<forall>k. k \<notin> set DATABASE_CREDENTIAL_KEYS \<longrightarrow> e k = db_env d k" "fold (\<lambda>(key, v) env. env(key := v)) previous e = db_env d"
      "fst ` set previous \<subseteq> set DATABASE_CREDENTIAL_KEYS"
  shows "db_ok lib env (begin_swap previous (d\<lparr>db_env := e\<rparr>))"
proof -
  let ?p = "e ''DATABASE_URL''" and ?r = "e ''DATABASE_REPLICA_URL''" and ?n = "length (db_clients d)"
  have d: "clients_ok d" "urls_ok d" "env_names (db_env d) d" "elsewhere_same env d" "db_pool d = getEffectivePoolConfig lib env (db_primaryUrl d)" "db_shutdown d = Serving"
    using ok by (auto simp: db_ok_def)
  have same: "\<forall>k. k \<notin> set DATABASE_CREDENTIAL_KEYS \<longrightarrow> e k = env k" using e(1) d(4) by (auto simp: elsewhere_same_def)
  show ?thesis
  proof (cases "?p = db_primaryUrl d \<and> ?r = db_replicaUrl d")
    case True
    have "new_clients Idle = new_clients (db_phase d)" using ok(2) by simp
    with True show ?thesis using d same
      by (simp add: begin_swap_def db_ok_def clients_ok_phase elsewhere_same_def) (simp add: env_names_def)
  next
    case False
    have used: "i < ?n" if "i \<in> set (in_use d @ retired d)" for i using that d(1) by (auto simp: clients_ok_def)
    then have fresh: "?n \<notin> set (in_use d @ retired d)" "Suc ?n \<notin> set (in_use d @ retired d)" by fastforce+
    define d' where "d' = begin_swap previous (d\<lparr>db_env := e\<rparr>)"
    have fields: "in_use d' = in_use d" "retired d' = retired d" "db_retiring d' = db_retiring d" "db_nextTimer d' = db_nextTimer d" "db_env d' = e"
      "db_primary d' = db_primary d" "db_replica d' = db_replica d" "db_primaryUrl d' = db_primaryUrl d" "db_replicaUrl d' = db_replicaUrl d"
      "db_pool d' = db_pool d" "db_shutdown d' = Serving" using False d(6)
      by (auto simp: d'_def begin_swap_def Let_def in_use_def retired_def)
    have kept: "db_clients d' ! i = db_clients d ! i" if "i < ?n" for i
      using that False by (auto simp: d'_def begin_swap_def Let_def nth_append)
    obtain ro where ph: "db_phase d' = (if ?p \<noteq> db_primaryUrl d then ConnectingPrimary ro else ConnectingReplica ro)"
      and ro: "ro = \<lparr>ro_previous = previous, ro_primaryUrl = ?p, ro_replicaUrl = ?r, ro_primary = (if ?p \<noteq> db_primaryUrl d then Some ?n else None),
         ro_replica = (if ?r \<noteq> db_replicaUrl d \<and> is_set ?r then Some (if ?p \<noteq> db_primaryUrl d then Suc ?n else ?n) else None),
         ro_replicaChanged = (?r \<noteq> db_replicaUrl d)\<rparr>"
      using False by (auto simp: d'_def begin_swap_def Let_def)
    have news: "new_clients (db_phase d') = opt_list (ro_primary ro) @ opt_list (ro_replica ro)" using ph by simp
    have len: "length (db_clients d') = ?n + length (opt_list (ro_primary ro)) + length (opt_list (ro_replica ro))"
      using False by (auto simp: d'_def begin_swap_def Let_def ro)
    have made: "\<forall>p \<in> set_option (ro_primary ro). dc_url (db_clients d' ! p) = ?p" "\<forall>r \<in> set_option (ro_replica ro). dc_url (db_clients d' ! r) = ?r"
      using False by (auto simp: d'_def begin_swap_def Let_def ro nth_append)
    have "clients_ok d'"
      unfolding clients_ok_def fields news len
    proof (intro conjI)
      show "distinct (in_use d @ retired d @ opt_list (ro_primary ro) @ opt_list (ro_replica ro))" using d(1) fresh ok(2) by (auto simp: clients_ok_def ro)
      show "\<forall>i \<in> set (in_use d @ retired d @ opt_list (ro_primary ro) @ opt_list (ro_replica ro)). i < ?n + length (opt_list (ro_primary ro)) + length (opt_list (ro_replica ro))"
        using used by (auto simp: ro intro: trans_less_add1 less_SucI)
      show "\<forall>i \<in> set (in_use d @ retired d). dc_state (db_clients d' ! i) = Connected" using d(1) used kept by (auto simp: clients_ok_def)
      show "\<forall>i < ?n + length (opt_list (ro_primary ro)) + length (opt_list (ro_replica ro)).
          i \<notin> set (in_use d @ retired d @ opt_list (ro_primary ro) @ opt_list (ro_replica ro)) \<longrightarrow> dc_state (db_clients d' ! i) = Disconnected"
      proof (intro allI impI)
        fix i assume i: "i < ?n + length (opt_list (ro_primary ro)) + length (opt_list (ro_replica ro))"
          "i \<notin> set (in_use d @ retired d @ opt_list (ro_primary ro) @ opt_list (ro_replica ro))"
        then have "i < ?n" by (auto simp: ro less_Suc_eq split: if_splits)
        with i(2) show "dc_state (db_clients d' ! i) = Disconnected" using d(1) ok(2) kept by (simp add: clients_ok_def)
      qed
      show "distinct (map fst (db_retiring d))" "\<forall>t \<in> set (map fst (db_retiring d)). t < db_nextTimer d" using d(1) by (auto simp: clients_ok_def)
    qed
    moreover have "urls_ok d'"
      using d(2) used kept by (auto simp: urls_ok_def fields in_use_def split: option.splits)
    moreover have "rotation_ok d' ro" using made by (auto simp: rotation_ok_def fields ro split: option.splits)
    moreover have "env_names (restored ro e) d'" using d(3) e(2) by (simp add: env_names_def restored_def fields ro)
    moreover have "elsewhere_same env d'" using same e(3) ph by (auto simp: elsewhere_same_def fields ro split: if_splits)
    ultimately show ?thesis using ph d(5) by (auto simp: db_ok_def fields ro simp flip: d'_def)
  qed
qed

lemma apply_secrets_ok:
  assumes "db_ok lib env d" "db_phase d = Fetching"
  shows "db_ok lib env (apply_secrets secrets d)"
proof (cases "changed_keys secrets (db_env d) = []")
  case True
  with idle_ok [OF assms(1), of Idle] assms(2) show ?thesis by (simp add: apply_secrets_def)
next
  case False
  let ?ks = "changed_keys secrets (db_env d)"
  have sub: "set ?ks \<subseteq> set DATABASE_CREDENTIAL_KEYS" by (auto simp: changed_keys_def)
  show ?thesis unfolding apply_secrets_def Let_def if_not_P [OF False]
    using sub by (intro begin_swap_ok [OF assms]) (auto simp: fold_set_keys fold_restore_keys fun_eq_iff)
qed

lemma set_state_uses [simp]: "in_use (set_state st ids d) = in_use d" "retired (set_state st ids d) = retired d"
  by (simp_all add: in_use_def retired_def)

text \<open>States of new clients may change freely; URLs never do.\<close>

lemma urls_ok_state [simp]:
  assumes "clients_ok d"
  shows "urls_ok (set_state st ids d) = urls_ok d"
  using assms by (auto simp: urls_ok_def clients_ok_def in_use_def split: option.split)

lemma clients_ok_new:
  assumes "clients_ok d" "set ids \<subseteq> set (new_clients (db_phase d))"
  shows "clients_ok (set_state st ids d)"
proof -
  have "i \<notin> set ids" if "i \<in> set (in_use d @ retired d)" for i using assms that by (auto simp: clients_ok_def)
  with assms show ?thesis by (auto simp: clients_ok_def subset_iff)
qed

lemma rotation_ok_state:
  assumes "clients_ok d" "rotation_ok d ro" "new_clients (db_phase d) = opt_list (ro_primary ro) @ opt_list (ro_replica ro)"
  shows "rotation_ok (set_state st ids d) ro"
proof -
  have "i < length (db_clients d)" if "i \<in> set_option (ro_primary ro) \<union> set_option (ro_replica ro)" for i
    using that assms(1,3) by (auto simp: clients_ok_def)
  with assms(2) show ?thesis by (auto simp: rotation_ok_def split: option.splits)
qed

lemma rotation_ok_phase [simp]: "rotation_ok (d\<lparr>db_phase := ph\<rparr>) ro = rotation_ok d ro"
  by (simp add: rotation_ok_def split: option.split)

lemma drop_new_ok:
  assumes "db_ok lib env d" "db_phase d = ConnectingPrimary ro \<or> db_phase d = ConnectingReplica ro"
  shows "db_ok lib env (drop_new ro d)"
proof -
  let ?new = "opt_list (ro_primary ro) @ opt_list (ro_replica ro)"
  have ok: "clients_ok d" "urls_ok d" "env_names (restored ro (db_env d)) d" "elsewhere_same env d" "new_clients (db_phase d) = ?new"
    using assms by (auto simp: db_ok_def)
  have free: "i \<notin> set ?new" if "i \<in> set (in_use d @ retired d)" for i using ok(1,5) that by (auto simp: clients_ok_def)
  have "clients_ok (drop_new ro d)"
    unfolding clients_ok_def drop_new_def using ok(1,5) free by (simp add: clients_ok_def subset_iff) blast
  moreover have "urls_ok (drop_new ro d)" using ok(1,2) by (simp add: drop_new_def)
  moreover have "elsewhere_same env (drop_new ro d)" using ok(4) assms(2) by (auto simp: elsewhere_same_def drop_new_def)
  ultimately show ?thesis using assms(1) ok(3) by (auto simp: db_ok_def drop_new_def env_names_def)
qed

lemma retired_snoc: "retired (d\<lparr>db_retiring := db_retiring d' @ [(t, ids)], db_nextTimer := n, db_phase := ph\<rparr>) = concat (map snd (db_retiring d')) @ ids"
  by (simp add: retired_def)

lemma pool_env:
  assumes "\<forall>k. k \<notin> set DATABASE_CREDENTIAL_KEYS \<longrightarrow> e k = env k"
  shows "getEffectivePoolConfig lib e url = getEffectivePoolConfig lib env url"
proof -
  have "\<forall>(param, name, dflt) \<in> set POOL_PARAMS. e name = env name" using assms by (simp add: POOL_PARAMS_def DATABASE_CREDENTIAL_KEYS_def)
  then show ?thesis by (auto simp: getEffectivePoolConfig_def env_or_def split: option.split)
qed

text \<open>The clients in use after a swap are the new ones where there are new ones.\<close>

lemma finish_swap_ok:
  assumes ok: "db_ok lib env d" "db_phase d = ConnectingReplica ro" and up: "\<forall>i \<in> set (new_clients (db_phase d)). dc_state (db_clients d ! i) = Connected"
  shows "db_ok lib env (finish_swap lib ro d)"
proof -
  let ?new = "opt_list (ro_primary ro) @ opt_list (ro_replica ro)"
  define d' where "d' = finish_swap lib ro d"
  have d: "clients_ok d" "urls_ok d" "rotation_ok d ro" "elsewhere_same env d" "db_shutdown d = Serving" "db_pool d = getEffectivePoolConfig lib env (db_primaryUrl d)"
    using ok by (auto simp: db_ok_def)
  have same: "\<forall>k. k \<notin> set DATABASE_CREDENTIAL_KEYS \<longrightarrow> db_env d k = env k" using d(4) by (simp add: elsewhere_same_def)
  have f: "db_clients d' = db_clients d" "db_env d' = db_env d" "db_phase d' = Idle" "db_shutdown d' = Serving"
    "db_primary d' = (case ro_primary ro of None \<Rightarrow> db_primary d | Some p \<Rightarrow> p)" "db_replica d' = (if ro_replicaChanged ro then ro_replica ro else db_replica d)"
    "db_primaryUrl d' = (if ro_primary ro = None then db_primaryUrl d else ro_primaryUrl ro)"
    "db_replicaUrl d' = (if ro_replicaChanged ro then ro_replicaUrl ro else db_replicaUrl d)"
    "db_retiring d' = db_retiring d @ [(db_nextTimer d, (if ro_primary ro = None then [] else [db_primary d])
        @ (if ro_replicaChanged ro then opt_list (db_replica d) else []))]" "db_nextTimer d' = Suc (db_nextTimer d)"
    using d(5) by (auto simp: d'_def finish_swap_def Let_def split: option.split)
  have pool: "db_pool d' = getEffectivePoolConfig lib env (db_primaryUrl d')"
    using d(6) by (auto simp: d'_def finish_swap_def Let_def pool_env [OF same] split: option.split)
  have all: "set (in_use d' @ retired d') = set (in_use d @ retired d @ ?new)"
    using d(3) by (auto simp: in_use_def retired_def f rotation_ok_def split: option.splits if_splits)
  have lens: "length (in_use d' @ retired d') = length (in_use d @ retired d @ ?new)"
    using d(3) by (auto simp: in_use_def retired_def f rotation_ok_def opt_list_def split: option.splits if_splits)
  have "distinct (in_use d @ retired d @ ?new)" using d(1) ok(2) by (simp add: clients_ok_def)
  then have "distinct (in_use d' @ retired d')"
    using all lens by (metis card_distinct distinct_card)
  moreover have "\<forall>i \<in> set (in_use d' @ retired d'). i < length (db_clients d) \<and> dc_state (db_clients d ! i) = Connected"
    unfolding all using d(1) up ok(2) by (auto simp: clients_ok_def)
  moreover have "\<forall>i < length (db_clients d). i \<notin> set (in_use d' @ retired d') \<longrightarrow> dc_state (db_clients d ! i) = Disconnected"
    unfolding all using d(1) ok(2) by (simp add: clients_ok_def)
  moreover have "distinct (map fst (db_retiring d'))" "\<forall>t \<in> set (map fst (db_retiring d')). t < db_nextTimer d'"
    using d(1) by (auto simp: clients_ok_def f less_Suc_eq)
  ultimately have "clients_ok d'" unfolding clients_ok_def f(1,3) by simp
  moreover have "urls_ok d'" using d(2,3) by (auto simp: urls_ok_def rotation_ok_def f split: option.splits)
  moreover have "env_names (db_env d) d'" using d(3) by (auto simp: env_names_def rotation_ok_def f split: option.splits)
  ultimately show ?thesis using pool same by (auto simp: db_ok_def f elsewhere_same_def simp flip: d'_def)
qed

lemma connect_ok:
  assumes "db_ok lib env d"
  shows "db_ok lib env (db_step lib (ConnectAnswers up) d)"
proof (cases "db_phase d")
  case (ConnectingPrimary ro)
  let ?d = "set_state Connected (opt_list (ro_primary ro)) d"
  have d: "clients_ok d" "urls_ok d" "rotation_ok d ro" "env_names (restored ro (db_env d)) d" "elsewhere_same env d"
    using assms ConnectingPrimary by (auto simp: db_ok_def)
  have "clients_ok ?d" "rotation_ok ?d ro" using d(1,3) ConnectingPrimary by (auto intro: clients_ok_new rotation_ok_state)
  moreover have "\<forall>p \<in> set_option (ro_primary ro). p < length (db_clients d)" using d(1) ConnectingPrimary by (auto simp: clients_ok_def)
  ultimately have "db_ok lib env (?d\<lparr>db_phase := ConnectingReplica ro\<rparr>)"
    using assms d ConnectingPrimary by (auto simp: db_ok_def clients_ok_phase env_names_def elsewhere_same_def)
  with ConnectingPrimary drop_new_ok [OF assms] show ?thesis by simp
next
  case (ConnectingReplica ro)
  let ?d = "set_state Connected (opt_list (ro_replica ro)) d"
  have d: "clients_ok d" "urls_ok d" "rotation_ok d ro" "env_names (restored ro (db_env d)) d" "elsewhere_same env d"
      "\<forall>p \<in> set_option (ro_primary ro). dc_state (db_clients d ! p) = Connected"
    using assms ConnectingReplica by (auto simp: db_ok_def)
  have low: "\<forall>p \<in> set_option (ro_primary ro) \<union> set_option (ro_replica ro). p < length (db_clients d)" using d(1) ConnectingReplica by (auto simp: clients_ok_def)
  have "clients_ok ?d" "rotation_ok ?d ro" using d(1,3) ConnectingReplica by (auto intro: clients_ok_new rotation_ok_state)
  then have "db_ok lib env ?d"
    using assms d ConnectingReplica low by (auto simp: db_ok_def env_names_def elsewhere_same_def)
  then have up: "db_ok lib env (finish_swap lib ro ?d)" using ConnectingReplica low d(6) by (intro finish_swap_ok) auto
  have "db_ok lib env (finish_swap lib ro d)" if "ro_replica ro = None" using that ConnectingReplica d(6) by (intro finish_swap_ok [OF assms]) auto
  with up ConnectingReplica drop_new_ok [OF assms] show ?thesis by simp
qed (use assms in simp_all)

lemma dropped_ok:
  assumes "db_ok lib env d"
  shows "db_ok lib env (db_step lib Dropped d)"
proof (cases "db_phase d")
  case (Dropping ro)
  have d: "clients_ok d" "env_names (restored ro (db_env d)) d" "elsewhere_same env d" using assms Dropping by (auto simp: db_ok_def)
  have keys: "fst ` set (ro_previous ro) \<subseteq> set DATABASE_CREDENTIAL_KEYS" using d(3) Dropping by (auto simp: elsewhere_same_def)
  have "new_clients Idle = new_clients (db_phase d)" using Dropping by simp
  then have "clients_ok (d\<lparr>db_env := restored ro (db_env d), db_phase := Idle\<rparr>)" using d(1) by (simp add: clients_ok_phase)
  then show ?thesis using assms Dropping d(2,3) restored_outside [OF keys]
    by (auto simp: db_ok_def elsewhere_same_def simp flip: restored_def)
qed (use assms in simp_all)

lemma map_of_retiring: "map_of r t = Some ids \<Longrightarrow> distinct (map fst r)
    \<Longrightarrow> set (concat (map snd r)) = set ids \<union> set (concat (map snd (filter (\<lambda>(t', _). t' \<noteq> t) r)))"
proof (induction r)
  case (Cons x r)
  obtain t' ids' where x: "x = (t', ids')" by (cases x)
  show ?case
  proof (cases "t' = t")
    case True
    then have "filter (\<lambda>(t', _). t' \<noteq> t) r = r" using Cons.prems(2) x by (auto simp: filter_id_conv image_iff)
    with True Cons.prems x show ?thesis by simp
  next
    case False
    with Cons x show ?thesis by auto
  qed
qed simp

lemma distinct_retiring: "distinct (concat (map snd r)) \<Longrightarrow> map_of r t = Some ids \<Longrightarrow> distinct (map fst r)
    \<Longrightarrow> distinct (concat (map snd (filter (\<lambda>(t', _). t' \<noteq> t) r))) \<and> set ids \<inter> set (concat (map snd (filter (\<lambda>(t', _). t' \<noteq> t) r))) = {}"
proof (induction r)
  case (Cons x r)
  obtain t' ids' where x: "x = (t', ids')" by (cases x)
  show ?case
  proof (cases "t' = t")
    case True
    then have "filter (\<lambda>(t', _). t' \<noteq> t) r = r" using Cons.prems(3) x by (auto simp: filter_id_conv image_iff)
    with True Cons.prems x show ?thesis by simp
  next
    case False
    then have r: "map_of r t = Some ids" using Cons.prems(2) x by simp
    from map_of_SomeD [OF r] have "set ids \<subseteq> set (concat (map snd r))" by force
    then have "set ids' \<inter> set ids = {}" using Cons.prems(1) x by auto
    moreover have "set (concat (map snd (filter (\<lambda>(t', _). t' \<noteq> t) r))) \<subseteq> set (concat (map snd r))" by auto
    then have "set ids' \<inter> set (concat (map snd (filter (\<lambda>(t', _). t' \<noteq> t) r))) = {}" using Cons.prems(1) x by auto
    ultimately show ?thesis using r False Cons x by auto
  qed
qed simp

lemma drain_ok:
  assumes "db_ok lib env d"
  shows "db_ok lib env (db_step lib (DrainElapsed t) d)"
proof (cases "map_of (db_retiring d) t")
  case (Some ids)
  let ?r = "filter (\<lambda>(t', _). t' \<noteq> t) (db_retiring d)"
  define d' where "d' = disconnectQuietly ids (d\<lparr>db_retiring := ?r\<rparr>)"
  have d: "clients_ok d" "urls_ok d" using assms by (auto simp: db_ok_def)
  have timers: "distinct (map fst (db_retiring d))" "distinct (retired d)" using d(1) by (auto simp: clients_ok_def)
  have split: "set (retired d) = set ids \<union> set (concat (map snd ?r))" unfolding retired_def by (rule map_of_retiring [OF Some timers(1)])
  have parts: "distinct (concat (map snd ?r))" "set ids \<inter> set (concat (map snd ?r)) = {}"
    using distinct_retiring [OF timers(2) [unfolded retired_def] Some timers(1)] by auto
  have f: "in_use d' = in_use d" "retired d' = concat (map snd ?r)" "db_phase d' = db_phase d" "length (db_clients d') = length (db_clients d)" "db_retiring d' = ?r"
    "db_nextTimer d' = db_nextTimer d" by (simp_all add: d'_def in_use_def retired_def)
  have nth: "db_clients d' ! i = (if i \<in> set ids then (db_clients d ! i)\<lparr>dc_state := Disconnected\<rparr> else db_clients d ! i)" if "i < length (db_clients d)" for i
    using that by (simp add: d'_def)
  have apart: "set ids \<inter> set (in_use d) = {}" using d(1) split by (auto simp: clients_ok_def)
  have "clients_ok d'"
    unfolding clients_ok_def f
    using d(1) split parts apart nth by (simp add: clients_ok_def disjoint_iff distinct_map_filter Ball_def) blast
  moreover have "urls_ok d'" using d nth by (auto simp: urls_ok_def d'_def clients_ok_def in_use_def split: option.splits)
  moreover have ph: "phase_ok (db_phase d) d'"
  proof -
    have "dc_url (db_clients d' ! i) = dc_url (db_clients d ! i)" if "i \<in> set (new_clients (db_phase d))" for i
      using that d(1) nth by (auto simp: clients_ok_def)
    moreover have "i \<notin> set ids" if "i \<in> set (new_clients (db_phase d))" for i using that d(1) split by (auto simp: clients_ok_def)
    moreover have "i < length (db_clients d)" if "i \<in> set (new_clients (db_phase d))" for i using that d(1) by (auto simp: clients_ok_def)
    ultimately show ?thesis using assms nth
      by (cases "db_phase d") (auto simp: db_ok_def rotation_ok_def env_names_def d'_def split: option.splits)
  qed
  ultimately show ?thesis using assms Some by (auto simp: db_ok_def elsewhere_same_def d'_def)
qed (use assms in simp)

lemma db_step_ok:
  assumes "db_ok lib env d" "e \<noteq> ShutdownStep"
  shows "db_ok lib env (db_step lib e d)"
proof (cases e)
  case Refresh
  then show ?thesis using assms idle_ok [OF assms(1), of Fetching] by simp
next
  case (VaultAnswers answer)
  then show ?thesis using assms(1) idle_ok [OF assms(1), of Idle] apply_secrets_ok [OF assms(1)] by (auto split: sum.split option.split)
qed (use assms connect_ok dropped_ok drain_ok in auto)

lemma db_run_ok:
  assumes "ShutdownStep \<notin> set es"
  shows "db_ok lib env (db_run lib env es)"
proof -
  have "db_ok lib env (fold (db_step lib) es d)" if "db_ok lib env d" for d
    using assms that
  proof (induction es arbitrary: d)
    case (Cons e es)
    from Cons.prems(1) have e: "e \<noteq> ShutdownStep" "ShutdownStep \<notin> set es" by auto
    show ?case unfolding fold.simps comp_def by (rule Cons.IH [OF e(2) db_step_ok [OF Cons.prems(2) e(1)]])
  qed simp
  from this [OF started_ok] show ?thesis by (simp add: db_run_def)
qed

text \<open>C33. Whatever Vault answers and whichever connections fail, at any moment before a shutdown: the clients in use are connected and
  stay connected until they are replaced by connected ones; each was made for the URL the service believes it uses; the pool settings
  are those of that URL; between refreshes the environment names exactly the connections in use; and no client is leaked, every other
  one is waiting for the end of its drain period, about to be used, or was told to disconnect.\<close>

theorem rotation_keeps_serving:
  assumes "ShutdownStep \<notin> set es" "d = db_run lib env es"
  shows "dc_state (db_clients d ! db_primary d) = Connected \<and> dc_url (db_clients d ! db_primary d) = db_primaryUrl d
    \<and> (\<forall>r. db_replica d = Some r \<longrightarrow> dc_state (db_clients d ! r) = Connected \<and> dc_url (db_clients d ! r) = db_replicaUrl d)
    \<and> (db_replica d = None \<longleftrightarrow> \<not> is_set (db_replicaUrl d))
    \<and> db_pool d = getEffectivePoolConfig lib env (db_primaryUrl d)
    \<and> (db_phase d = Idle \<longrightarrow> db_env d ''DATABASE_URL'' = db_primaryUrl d \<and> db_env d ''DATABASE_REPLICA_URL'' = db_replicaUrl d)
    \<and> (\<forall>i < length (db_clients d). i \<in> set (in_use d @ retired d @ new_clients (db_phase d)) \<or> dc_state (db_clients d ! i) = Disconnected)
    \<and> (\<forall>i \<in> set (retired d). dc_state (db_clients d ! i) = Connected \<and> i \<notin> set (in_use d))"
proof -
  have ok: "db_ok lib env d" using db_run_ok [OF assms(1)] assms(2) by simp
  then have c: "clients_ok d" "urls_ok d" by (auto simp: db_ok_def)
  have "db_phase d = Idle \<longrightarrow> env_names (db_env d) d" using ok by (auto simp: db_ok_def)
  moreover have "\<forall>i < length (db_clients d). i \<in> set (in_use d @ retired d @ new_clients (db_phase d)) \<or> dc_state (db_clients d ! i) = Disconnected"
    using c(1) unfolding clients_ok_def by blast
  moreover have "\<forall>i \<in> set (retired d). dc_state (db_clients d ! i) = Connected \<and> i \<notin> set (in_use d)" using c(1) by (auto simp: clients_ok_def)
  moreover have "dc_state (db_clients d ! db_primary d) = Connected" "\<forall>r. db_replica d = Some r \<longrightarrow> dc_state (db_clients d ! r) = Connected"
    using c(1) by (auto simp: clients_ok_def in_use_def)
  ultimately show ?thesis using ok c(2) by (auto simp: db_ok_def urls_ok_def env_names_def split: option.splits)
qed

text \<open>New credentials take effect: if the new clients connect, a refresh that finds a new URL for the primary database ends with the
  service on that URL, and the old client is kept until its drain period ends.\<close>

theorem rotation_effective:
  assumes "db_ok lib env d" "db_phase d = Idle" "map_of (rev secrets) ''DATABASE_URL'' = Some url" "db_env d ''DATABASE_URL'' \<noteq> Some url"
    and "map_of (rev secrets) ''DATABASE_REPLICA_URL'' = None"
  shows "let d' = fold (db_step lib) [Refresh, VaultAnswers (Inr (Some secrets)), ConnectAnswers True, ConnectAnswers True] d in
     db_phase d' = Idle \<and> db_primaryUrl d' = Some url \<and> db_env d' ''DATABASE_URL'' = Some url \<and> db_primary d' = length (db_clients d)
     \<and> db_replica d' = db_replica d \<and> db_retiring d' = db_retiring d @ [(db_nextTimer d, [db_primary d])]"
proof -
  have names: "db_primaryUrl d = db_env d ''DATABASE_URL''" "db_replicaUrl d = db_env d ''DATABASE_REPLICA_URL''" using assms(1,2) by (auto simp: db_ok_def env_names_def)
  have keys: "changed_keys secrets (db_env d) = [''DATABASE_URL'']" using assms(3,4,5) by (simp add: changed_keys_def DATABASE_CREDENTIAL_KEYS_def)
  show ?thesis using assms(2,3,4) names keys
    by (simp add: Let_def apply_secrets_def begin_swap_def finish_swap_def is_set_def)
qed

text \<open>A shutdown without a refresh under way disconnects every client.\<close>

theorem shutdown_closes_all:
  assumes "ShutdownStep \<notin> set es" "db_phase (db_run lib env es) = Idle" "d = db_run lib env (es @ [ShutdownStep, ShutdownStep, ShutdownStep])"
  shows "\<forall>c \<in> set (db_clients d). dc_state c = Disconnected"
proof -
  let ?d = "db_run lib env es"
  have c: "clients_ok ?d" "db_shutdown ?d = Serving" using db_run_ok [OF assms(1)] by (auto simp: db_ok_def)
  have d: "db_clients d = db_clients (disconnectQuietly (opt_list (db_replica ?d)) (disconnectQuietly [db_primary ?d] (disconnectQuietly (retired ?d) ?d)))"
    using assms(3) c(2) by (simp add: db_run_def set_state_def retired_def)
  show ?thesis unfolding all_set_conv_all_nth d using c(1) assms(2) by (auto simp: clients_ok_def in_use_def)
qed

text \<open>But a rotation that is under way when the process shuts down puts its new client into use afterwards, and nothing disconnects it.\<close>

definition sample_urls :: url_lib where
  "sample_urls = \<lparr>ul_params = (\<lambda>u. Some []), ul_with = (\<lambda>u ps. u @ concat (map (\<lambda>(k, v). ''&'' @ k @ ''='' @ v) ps))\<rparr>"

theorem rotation_outlives_shutdown:
  "let d = db_run sample_urls [''DATABASE_URL'' \<mapsto> ''postgres://old''] [Refresh, VaultAnswers (Inr (Some [(''DATABASE_URL'', ''postgres://new'')])),
             ShutdownStep, ShutdownStep, ShutdownStep, ConnectAnswers True, ConnectAnswers True, ShutdownStep] in
   db_shutdown d = Closed \<and> map dc_state (db_clients d) = [Disconnected, Connected] \<and> db_primary d = 1"
  by code_simp

theorem rotation_keeps_serving_witness:
  "let d = db_run sample_urls [''DATABASE_URL'' \<mapsto> ''postgres://old''] [Refresh, VaultAnswers (Inr (Some [(''DATABASE_URL'', ''postgres://new'')])),
             ConnectAnswers False, Dropped, Refresh, VaultAnswers (Inr (Some [(''DATABASE_URL'', ''postgres://new'')])), ConnectAnswers True, ConnectAnswers True] in
   map dc_state (db_clients d) = [Connected, Disconnected, Connected] \<and> dc_url (db_clients d ! db_primary d) = db_primaryUrl d"
proof -
  let ?es = "[Refresh, VaultAnswers (Inr (Some [(''DATABASE_URL'', ''postgres://new'')])),
             ConnectAnswers False, Dropped, Refresh, VaultAnswers (Inr (Some [(''DATABASE_URL'', ''postgres://new'')])), ConnectAnswers True, ConnectAnswers True]"
  have run: "map dc_state (db_clients (db_run sample_urls [''DATABASE_URL'' \<mapsto> ''postgres://old''] ?es)) = [Connected, Disconnected, Connected]" by code_simp
  have "ShutdownStep \<notin> set ?es" by simp
  from rotation_keeps_serving [OF this refl] run show ?thesis by (simp add: Let_def)
qed

section \<open>Pool parameters, start and cache\<close>

text \<open>
  The settings that the service reports are those its clients are given, for every URL that parses: parameters in the URL win over the
  environment, and the environment over the defaults. Parameters added to a URL can be read from it (what the URL class documents).
\<close>

theorem pool_settings_agree:
  assumes "ul_params lib url = Some ps" "url \<noteq> []" "\<forall>u ps qs. ul_params lib u = Some ps \<longrightarrow> ul_params lib (ul_with lib u qs) = Some (ps @ qs)"
    "\<forall>u qs. u \<noteq> [] \<longrightarrow> ul_with lib u qs \<noteq> []"
  shows "map Some (getEffectivePoolConfig lib env (Some url)) =
     map (\<lambda>(param, _). map_option parseInt10 (map_of (url_params lib (withConnectionPoolParams lib env (Some url))) param)) POOL_PARAMS"
proof -
  have "ul_params lib (ul_with lib url qs) = Some (ps @ qs)" for qs using assms(1,3) by blast
  moreover have "is_set (Some (ul_with lib url qs))" for qs using assms(2,4) by (simp add: is_set_def)
  moreover have "is_set (Some url)" using assms(2) by (simp add: is_set_def)
  ultimately show ?thesis using assms(1)
    by (simp add: withConnectionPoolParams_def url_params_def getEffectivePoolConfig_def POOL_PARAMS_def map_add_def split: option.split)
qed

text \<open>A start tries at most five times and waits fifteen seconds at most; it fails only if every attempt failed.\<close>

theorem database_start_bounded:
  "(case onModuleInit_database answers replica of (r, waits) \<Rightarrow>
     length waits \<le> 4 \<and> sum_list waits \<le> 15000
     \<and> (r \<noteq> Inr () \<longrightarrow> (\<forall>n \<in> {1..5}. \<not> (fst (answers n) \<and> (replica \<longrightarrow> snd (answers n))))))"
proof -
  have "{1..5} = {1, 2, 3, 4, 5 :: nat}" by auto
  then show ?thesis by (simp add: onModuleInit_database_def DB_CONNECT_RETRIES_def eval_nat_numeral)
qed

text \<open>A cached value is served only until it expires, and not after its key or a prefix of it was invalidated.\<close>

theorem cached_query_fresh:
  "(cached_hit (cache_store key v t ttl c) key now = Some v' \<longrightarrow> v' = v \<and> now < t + ttl * 1000)
   \<and> cached_hit (invalidateCache key c) key now = None
   \<and> (starts_with p key \<longrightarrow> cached_hit (invalidateCacheByPrefix p c) key now = None)
   \<and> (key' \<noteq> key \<longrightarrow> cached_hit (cache_store key v t ttl c) key' now = cached_hit c key' now)"
  by (auto simp: cached_hit_def cache_store_def invalidateCache_def invalidateCacheByPrefix_def)

end
