(* ===== verification/Health_Checks.thy ===== *)
theory Health_Checks
  imports Database_Clients Account_Balance Doubles
begin

text \<open>
  The health endpoint, \<^verbatim>\<open>src/health/health.controller.ts\<close>, and the heartbeats it reads, \<^verbatim>\<open>src/common/worker-heartbeat.ts\<close>. What the
  probes meet is a parameter: each is an answer or an exception, a time-out being an exception. The probes run side by side and write
  disjoint variables, so their order does not matter; requests are handled one after the other, so that requests that overlap are not
  modelled. Percentages are computed in floating point. Time stamp, up-time and engine metrics of a response are not modelled.
\<close>

section \<open>What the probes meet\<close>

record replication_row =
  rr_lagBytes :: "int option"
  rr_replayLag :: "rat option"
  rr_writeLag :: "rat option"

record probes =
  pr_select :: "unit outcome"
  pr_activity :: "(string \<times> int) list outcome"
  pr_throughput :: "(int \<times> int \<times> int) option outcome"
  pr_replication :: "replication_row list outcome"
  pr_standby :: "int option outcome"
  pr_ledger :: "(int \<times> int) outcome"
  pr_rpcHealth :: "string outcome"
  pr_network :: "(string \<times> jsnum) outcome"
  pr_balance :: "string outcome"
  pr_ping :: "string outcome"
  pr_pingAgain :: "string outcome"
  pr_llen :: "string \<Rightarrow> int outcome"
  pr_mget :: "string option list outcome"
  pr_info :: "string outcome"
  pr_openMeteo :: "int outcome"
  pr_aviationStack :: "int outcome"

text \<open>Settings, the pool of the database service, the network of the service, and libraries: numbers, digests, one decimal place.\<close>

record health_setup =
  hs_config :: configuration
  hs_pool :: PrismaPoolConfig
  hs_network :: string
  hs_number :: "string \<Rightarrow> jsnum"
  hs_digest :: "string \<Rightarrow> string"
  hs_fixed1 :: "rat \<Rightarrow> string"

definition HEALTH_CHECK_RPC_TIMEOUT_MS :: int where "HEALTH_CHECK_RPC_TIMEOUT_MS = 3000"
definition DEFAULT_KEEPER_MIN_BALANCE_XLM :: int where "DEFAULT_KEEPER_MIN_BALANCE_XLM = 5"
definition DEFAULT_REPLICATION_LAG_WARN_BYTES :: int where "DEFAULT_REPLICATION_LAG_WARN_BYTES = 50 * 1024 * 1024"
definition DEFAULT_DB_POOL_EXHAUSTION_WARN_PERCENT :: int where "DEFAULT_DB_POOL_EXHAUSTION_WARN_PERCENT = 90"
definition EXTERNAL_API_CACHE_TTL_MS :: int where "EXTERNAL_API_CACHE_TTL_MS = 30000"
definition DB_THROUGHPUT_CACHE_TTL_MS :: int where "DB_THROUGHPUT_CACHE_TTL_MS = 10000"

text \<open>\<^verbatim>\<open>Number(config.get(name) ?? dflt)\<close>.\<close>

definition config_number :: "health_setup \<Rightarrow> string \<Rightarrow> int \<Rightarrow> jsnum" where
  "config_number hs name dflt = (case hs_config hs name of Some s \<Rightarrow> hs_number hs s | None \<Rightarrow> js_int dflt)"

definition add_error :: "string \<Rightarrow> string option \<Rightarrow> string option" where
  "add_error m err = (if is_set err then Some (the err @ ''; '' @ m) else Some m)"

definition sanitizeErrorMessage :: "exn \<Rightarrow> string" where
  "sanitizeErrorMessage err =
     (let message = exn_message err in
      if contains ''password'' message \<or> contains ''connection'' message \<or> contains ''credentials'' message then ''Service dependency unavailable''
      else if contains ''timeout'' message \<or> contains ''ECONNREFUSED'' message then ''Connection timeout or refused''
      else if length message > 100 then ''An error occurred''
      else message)"

section \<open>Database\<close>

record pool_view =
  pv_active :: int
  pv_idle :: int
  pv_waiting :: int
  pv_max :: "int option"
  pv_poolTimeout :: "int option"
  pv_connectTimeout :: "int option"
  pv_utilizationPercent :: int
  pv_exhausted :: bool

text \<open>\<^verbatim>\<open>Math.round((a / b) * 100)\<close>, in floating point.\<close>

definition percent :: "int \<Rightarrow> int \<Rightarrow> int" where
  "percent a b = num_int (js_round (js_scale 100 (js_over (of_int b) (js_int a))))"

definition at_least :: "jsnum \<Rightarrow> jsnum \<Rightarrow> bool" where
  "at_least a b \<longleftrightarrow> a \<noteq> NaN \<and> b \<noteq> NaN \<and> \<not> js_less a b"

definition pool_of :: "health_setup \<Rightarrow> (string \<times> int) list \<Rightarrow> pool_view" where
  "pool_of hs rows =
     (let count = (\<lambda>st. case map_of rows st of Some n \<Rightarrow> n | None \<Rightarrow> 0);
          active = count ''active''; mx = hs_pool hs ! 0;
          utilizationPercent = (case mx of Some m \<Rightarrow> if m > 0 then percent active m else 0 | None \<Rightarrow> 0) in
      \<lparr>pv_active = active, pv_idle = count ''idle'', pv_waiting = count ''idle in transaction (aborted)'', pv_max = mx,
       pv_poolTimeout = hs_pool hs ! 1, pv_connectTimeout = hs_pool hs ! 2, pv_utilizationPercent = utilizationPercent,
       pv_exhausted = at_least (js_int utilizationPercent) (config_number hs ''DB_POOL_EXHAUSTION_WARN_PERCENT'' DEFAULT_DB_POOL_EXHAUSTION_WARN_PERCENT)\<rparr>)"

record replication_view =
  rv_lagBytes :: int
  rv_lagSeconds :: "rat option"
  rv_standbyCount :: nat
  rv_exceeds :: bool

definition lag_exceeds :: "health_setup \<Rightarrow> int \<Rightarrow> bool" where
  "lag_exceeds hs lag = js_less (config_number hs ''DB_REPLICATION_LAG_WARN_BYTES'' DEFAULT_REPLICATION_LAG_WARN_BYTES) (js_int lag)"

definition max_lag :: "replication_row list \<Rightarrow> int" where
  "max_lag rows = fold (\<lambda>row m. max m (case rr_lagBytes row of Some n \<Rightarrow> n | None \<Rightarrow> 0)) rows 0"

definition max_seconds :: "replication_row list \<Rightarrow> rat" where
  "max_seconds rows = fold (\<lambda>row m. max m (case rr_replayLag row of Some x \<Rightarrow> x | None \<Rightarrow> (case rr_writeLag row of Some x \<Rightarrow> x | None \<Rightarrow> 0))) rows 0"

text \<open>The lag as a primary sees its standbys, or as a standby sees itself; \<open>None\<close> if a query fails.\<close>

definition replication_of :: "health_setup \<Rightarrow> probes \<Rightarrow> replication_view option" where
  "replication_of hs p =
     (case pr_replication p of
        Inl _ \<Rightarrow> None
      | Inr rows \<Rightarrow>
          if rows \<noteq> [] then Some \<lparr>rv_lagBytes = max_lag rows, rv_lagSeconds = Some (max_seconds rows), rv_standbyCount = length rows, rv_exceeds = lag_exceeds hs (max_lag rows)\<rparr>
          else case pr_standby p of
            Inl _ \<Rightarrow> None
          | Inr lag \<Rightarrow> (let b = (case lag of Some n \<Rightarrow> n | None \<Rightarrow> 0) in
              Some \<lparr>rv_lagBytes = b, rv_lagSeconds = None, rv_standbyCount = 0, rv_exceeds = lag_exceeds hs b\<rparr>))"

definition lag_text :: "health_setup \<Rightarrow> replication_view \<Rightarrow> string" where
  "lag_text hs v =
     (let mb = (\<lambda>n. hs_fixed1 hs (of_int n / (1024 * 1024))) in
      if rv_standbyCount v > 0
      then ''Replication lag '' @ mb (rv_lagBytes v) @ '' MB exceeds threshold of ''
        @ (case config_number hs ''DB_REPLICATION_LAG_WARN_BYTES'' DEFAULT_REPLICATION_LAG_WARN_BYTES of Fin x \<Rightarrow> hs_fixed1 hs (x / (1024 * 1024)) | _ \<Rightarrow> ''NaN'') @ '' MB''
      else ''Standby replication lag '' @ mb (rv_lagBytes v) @ '' MB exceeds threshold'')"

type_synonym throughput = "int \<times> int \<times> int"

record database_check =
  dk_ok :: bool
  dk_error :: "string option"
  dk_pool :: "pool_view option"
  dk_throughput :: "throughput option"
  dk_replication :: "replication_view option"

text \<open>Cached parts with their times. The error of an outside service is \<open>None\<close> if its probe went well.\<close>

record 'body health_caches =
  hc_throughput :: "(int \<times> throughput) option"
  hc_memory :: "(int \<times> string \<times> string \<times> string \<times> int option \<times> int option) option"
  hc_external :: "(int \<times> string option \<times> string option \<times> bool) option"
  hc_response :: "(int \<times> 'body) option"

definition fresh_throughput :: "int \<Rightarrow> 'b health_caches \<Rightarrow> probes \<Rightarrow> throughput option \<times> (int \<times> throughput) option" where
  "fresh_throughput now hc p =
     (case hc_throughput hc of
        Some (t, v) \<Rightarrow> if now - t < DB_THROUGHPUT_CACHE_TTL_MS then (Some v, hc_throughput hc)
          else (case pr_throughput p of Inr (Some v') \<Rightarrow> (Some v', Some (now, v')) | _ \<Rightarrow> (None, hc_throughput hc))
      | None \<Rightarrow> (case pr_throughput p of Inr (Some v') \<Rightarrow> (Some v', Some (now, v')) | _ \<Rightarrow> (None, None)))"

definition check_database :: "health_setup \<Rightarrow> probes \<Rightarrow> throughput option \<Rightarrow> database_check" where
  "check_database hs p thr =
     (let e1 = (case pr_select p of Inl err \<Rightarrow> Some (sanitizeErrorMessage err) | Inr _ \<Rightarrow> None);
          pool = (case pr_activity p of Inr rows \<Rightarrow> Some (pool_of hs rows) | Inl _ \<Rightarrow> None);
          exhausted = (case pool of Some v \<Rightarrow> pv_exhausted v | None \<Rightarrow> False);
          e2 = (if exhausted then add_error ''Connection pool exhausted'' e1 else e1);
          repl = replication_of hs p;
          late = (case repl of Some v \<Rightarrow> rv_exceeds v | None \<Rightarrow> False);
          e3 = (if late then add_error (lag_text hs (the repl)) e2 else e2) in
      \<lparr>dk_ok = (pr_select p = Inr () \<and> \<not> exhausted \<and> \<not> late), dk_error = e3, dk_pool = pool, dk_throughput = thr, dk_replication = repl\<rparr>)"

section \<open>Stellar\<close>

record stellar_check =
  tk_ok :: bool
  tk_rpcOk :: bool
  tk_ledger :: "(int \<times> int) option"
  tk_network :: "NetworkStatus option"
  tk_balance :: "string option"
  tk_error :: "string option"

definition check_stellar :: "health_setup \<Rightarrow> probes \<Rightarrow> stellar_check" where
  "check_stellar hs p =
     (let rpcOk = (case pr_ledger p of Inr _ \<Rightarrow> True | Inl _ \<Rightarrow> False);
          e1 = (if rpcOk then None else Some ''Stellar RPC unreachable'');
          net = checkNetworkStatus (hs_network hs) (pr_rpcHealth p) (pr_network p);
          netOk = (case net of Inr s \<Rightarrow> ns_healthy s | Inl _ \<Rightarrow> False);
          e2 = (case net of Inl _ \<Rightarrow> add_error ''Stellar network status check failed'' e1
                | Inr s \<Rightarrow> if ns_healthy s then e1 else add_error ''Stellar network not operational'' e1);
          low = (case pr_balance p of Inr b \<Rightarrow> js_less (hs_number hs b) (config_number hs ''KEEPER_MIN_BALANCE_XLM'' DEFAULT_KEEPER_MIN_BALANCE_XLM) | Inl _ \<Rightarrow> True);
          e3 = (case pr_balance p of Inr b \<Rightarrow> if low then Some ''Keeper balance insufficient'' else e2 | Inl _ \<Rightarrow> e2) in
      \<lparr>tk_ok = (rpcOk \<and> netOk \<and> \<not> low), tk_rpcOk = rpcOk, tk_ledger = (case pr_ledger p of Inr x \<Rightarrow> Some x | Inl _ \<Rightarrow> None),
       tk_network = (case net of Inr s \<Rightarrow> Some s | Inl _ \<Rightarrow> None), tk_balance = (case pr_balance p of Inr b \<Rightarrow> Some b | Inl _ \<Rightarrow> None), tk_error = e3\<rparr>)"

section \<open>Redis and workers\<close>

definition WORKER_HEARTBEATS :: "(string \<times> string \<times> int) list" where
  "WORKER_HEARTBEATS = [(''oracle'', ''health:worker:oracle'', 2 * 60 * 60), (''claims'', ''health:worker:claims'', 2 * 60 * 60),
     (''auth-cleanup'', ''health:worker:auth-cleanup'', 20 * 60)]"

text \<open>The heartbeat that a worker writes, with the time it lasts.\<close>

definition recordWorkerHeartbeat :: "string \<Rightarrow> string \<Rightarrow> (string \<times> string \<times> int) option" where
  "recordWorkerHeartbeat name stamp = map_option (\<lambda>(key, ttlSeconds). (key, stamp, ttlSeconds)) (map_of WORKER_HEARTBEATS name)"

definition queue_names :: "health_setup \<Rightarrow> string list" where
  "queue_names hs = non_empty_entries (case hs_config hs ''HEALTH_QUEUE_NAMES'' of Some s \<Rightarrow> s | None \<Rightarrow> ''claims,oracle'')"

text \<open>All lengths, or the first error of them.\<close>

fun queue_depths :: "(string \<Rightarrow> int outcome) \<Rightarrow> string list \<Rightarrow> (string \<times> int) list outcome" where
  "queue_depths llen [] = Inr []"
| "queue_depths llen (n # ns) =
     (case llen (''bull:'' @ n @ '':wait'') of
        Inl err \<Rightarrow> Inl err
      | Inr k \<Rightarrow> (case queue_depths llen ns of Inl err \<Rightarrow> Inl err | Inr ds \<Rightarrow> Inr ((n, k) # ds)))"

text \<open>The part with the PING: depths, or an error text.\<close>

definition ping_part :: "health_setup \<Rightarrow> probes \<Rightarrow> (string \<times> int) list option \<times> string option" where
  "ping_part hs p =
     (case pr_ping p of
        Inl err \<Rightarrow> (None, Some (sanitizeErrorMessage err))
      | Inr pong \<Rightarrow>
          if pong \<noteq> ''PONG'' then (None, Some ''Redis connectivity issue'')
          else case pr_pingAgain p of
            Inl err \<Rightarrow> (None, Some (sanitizeErrorMessage err))
          | Inr _ \<Rightarrow> (case queue_depths (pr_llen p) (queue_names hs) of
              Inl err \<Rightarrow> (None, Some (sanitizeErrorMessage err))
            | Inr ds \<Rightarrow> (Some ds, None)))"

text \<open>Last runs by worker; \<open>None\<close> is stale.\<close>

definition worker_runs :: "string option list \<Rightarrow> (string \<times> string option) list" where
  "worker_runs values = map (\<lambda>(i, (name, _)). (name, if i < length values \<and> is_set (values ! i) then values ! i else None)) (enumerate 0 WORKER_HEARTBEATS)"

definition stale_workers :: "string option list \<Rightarrow> string list" where
  "stale_workers values = map fst (filter (\<lambda>(_, run). run = None) (worker_runs values))"

fun split_crlf :: "string \<Rightarrow> string list" where
  "split_crlf [] = [[]]"
| "split_crlf [c] = [[c]]"
| "split_crlf (c # d # s) = (if of_char c = (13 :: int) \<and> of_char d = (10 :: int) then [] # split_crlf s
     else (case split_crlf (d # s) of [] \<Rightarrow> [[c]] | t # ts \<Rightarrow> (c # t) # ts))"

text \<open>\<^verbatim>\<open>lines.find(l => l.startsWith(name))?.split(':')[1] || dflt\<close>.\<close>

definition info_field :: "string \<Rightarrow> string \<Rightarrow> string list \<Rightarrow> string" where
  "info_field name dflt ls =
     (case List.find (starts_with name) ls of
        None \<Rightarrow> dflt
      | Some l \<Rightarrow> (let ps = js_split (CHR '':'') l in if length ps > 1 \<and> ps ! 1 \<noteq> [] then ps ! 1 else dflt))"

type_synonym memory = "string \<times> string \<times> string \<times> int option \<times> int option"

definition memory_of :: "string \<Rightarrow> memory" where
  "memory_of memInfo =
     (let ls = split_crlf memInfo in
      (info_field ''used_memory_human:'' ''unknown'' ls, info_field ''used_memory_peak_human:'' ''unknown'' ls, info_field ''maxmemory_human:'' ''unknown'' ls,
       parseInt10 (info_field ''used_memory:'' ''0'' ls), parseInt10 (info_field ''maxmemory:'' ''0'' ls)))"

definition fresh_memory :: "int \<Rightarrow> 'b health_caches \<Rightarrow> probes \<Rightarrow> memory option \<times> (int \<times> memory) option" where
  "fresh_memory now hc p =
     (case hc_memory hc of
        Some (t, m) \<Rightarrow> if now - t < EXTERNAL_API_CACHE_TTL_MS then (Some m, hc_memory hc)
          else (case pr_info p of Inr s \<Rightarrow> (Some (memory_of s), Some (now, memory_of s)) | Inl _ \<Rightarrow> (None, hc_memory hc))
      | None \<Rightarrow> (case pr_info p of Inr s \<Rightarrow> (Some (memory_of s), Some (now, memory_of s)) | Inl _ \<Rightarrow> (None, None)))"

definition usage_percent :: "memory \<Rightarrow> int option" where
  "usage_percent m = (case m of (_, _, _, Some used, Some mx) \<Rightarrow> if mx > 0 then Some (percent used mx) else None | _ \<Rightarrow> None)"

record queue_check =
  qk_ok :: bool
  qk_depth :: "(string \<times> int) list option"
  qk_memory :: "memory option"
  qk_workers :: "(string \<times> string option) list option"
  qk_error :: "string option"

definition check_queue :: "health_setup \<Rightarrow> probes \<Rightarrow> memory option \<Rightarrow> queue_check" where
  "check_queue hs p mem =
     (let (depths, e1) = ping_part hs p;
          stale = (case pr_mget p of Inr values \<Rightarrow> stale_workers values | Inl _ \<Rightarrow> []);
          e2 = (if stale \<noteq> [] then add_error (''Stale worker heartbeat(s): '' @ join_with '', '' stale) e1 else e1) in
      \<lparr>qk_ok = (e1 = None \<and> stale = []), qk_depth = depths, qk_memory = mem,
       qk_workers = (case pr_mget p of Inr values \<Rightarrow> Some (worker_runs values) | Inl _ \<Rightarrow> None), qk_error = e2\<rparr>)"

section \<open>Outside services\<close>

definition openMeteo_error :: "probes \<Rightarrow> string option" where
  "openMeteo_error p =
     (case pr_openMeteo p of
        Inl err \<Rightarrow> Some (sanitizeErrorMessage err)
      | Inr status \<Rightarrow> if 200 \<le> status \<and> status < 300 then None else Some ''External API unavailable'')"

definition aviationStack_error :: "probes \<Rightarrow> string option" where
  "aviationStack_error p =
     (case pr_aviationStack p of
        Inl err \<Rightarrow> Some (sanitizeErrorMessage err)
      | Inr status \<Rightarrow> if status \<ge> 500 then Some ''External API unavailable'' else None)"

text \<open>The errors of both services and whether the second is configured, from the cache if it is fresh.\<close>

definition check_external :: "int \<Rightarrow> health_setup \<Rightarrow> 'b health_caches \<Rightarrow> probes \<Rightarrow> (string option \<times> string option \<times> bool) \<times> (int \<times> string option \<times> string option \<times> bool) option" where
  "check_external now hs hc p =
     (let probe = (openMeteo_error p, aviationStack_error p, is_set (hs_config hs ''AVIATIONSTACK_API_KEY'')) in
      case hc_external hc of
        Some (t, v) \<Rightarrow> if now - t < EXTERNAL_API_CACHE_TTL_MS then (v, hc_external hc) else (probe, Some (now, probe))
      | None \<Rightarrow> (probe, Some (now, probe)))"

section \<open>The response\<close>

record health_request =
  hq_apiKey :: "string option"
  hq_adminApiKey :: "string option"
  hq_accept :: "string option"

definition isAdminRequest :: "health_setup \<Rightarrow> health_request \<Rightarrow> bool" where
  "isAdminRequest hs rq =
     (let configuredKey = (case hs_config hs ''ORACLE_OPERATOR_API_KEY'' of Some k \<Rightarrow> Some k | None \<Rightarrow> hs_config hs ''ADMIN_API_KEY'');
          provided = (case hq_apiKey rq of Some k \<Rightarrow> Some k | None \<Rightarrow> hq_adminApiKey rq) in
      is_set configuredKey \<and> is_set provided \<and> hs_digest hs (the provided) = hs_digest hs (the configuredKey))"

record checks =
  ck_database :: database_check
  ck_stellar :: stellar_check
  ck_queue :: queue_check
  ck_openMeteo :: "string option"
  ck_aviationStack :: "string option"
  ck_configured :: bool

record public_checks =
  pk_database :: bool
  pk_stellar :: bool
  pk_queue :: bool
  pk_openMeteo :: bool
  pk_aviationStack :: bool

definition toPublicChecks :: "checks \<Rightarrow> public_checks" where
  "toPublicChecks c = \<lparr>pk_database = dk_ok (ck_database c), pk_stellar = tk_ok (ck_stellar c), pk_queue = qk_ok (ck_queue c),
     pk_openMeteo = (ck_openMeteo c = None), pk_aviationStack = (ck_aviationStack c = None)\<rparr>"

datatype checks_view = Detailed checks | Public public_checks

record health_body =
  hb_status :: string
  hb_version :: string
  hb_commitSha :: string
  hb_responseTimeMs :: int
  hb_versions :: "string list option"
  hb_checks :: checks_view

definition springboot :: "string option \<Rightarrow> bool" where
  "springboot accept \<longleftrightarrow> (case accept of Some a \<Rightarrow> contains ''application/vnd.spring-boot.actuator'' a | None \<Rightarrow> False)"

definition transformStatusFormat :: "health_body \<Rightarrow> bool \<Rightarrow> health_body" where
  "transformStatusFormat body spring = (if spring then body\<lparr>hb_status := (if hb_status body = ''ok'' then ''UP'' else ''DOWN'')\<rparr> else body)"

definition config_text :: "health_setup \<Rightarrow> string \<Rightarrow> string \<Rightarrow> string" where
  "config_text hs name dflt = (case hs_config hs name of Some s \<Rightarrow> s | None \<Rightarrow> dflt)"

text \<open>The clock where the code reads it.\<close>

record health_times =
  hm_enter :: int
  hm_start :: int
  hm_throughput :: int
  hm_memory :: int
  hm_external :: int
  hm_end :: int
  hm_cached :: int

definition run_checks :: "health_setup \<Rightarrow> health_times \<Rightarrow> probes \<Rightarrow> 'b health_caches \<Rightarrow> checks \<times> 'b health_caches" where
  "run_checks hs tm p hc =
     (let (thr, thrCache) = fresh_throughput (hm_throughput tm) hc p;
          (mem, memCache) = fresh_memory (hm_memory tm) hc p;
          ((openMeteo, aviationStack, configured), extCache) = check_external (hm_external tm) hs hc p in
      (\<lparr>ck_database = check_database hs p thr, ck_stellar = check_stellar hs p, ck_queue = check_queue hs p mem,
        ck_openMeteo = openMeteo, ck_aviationStack = aviationStack, ck_configured = configured\<rparr>,
       hc\<lparr>hc_throughput := thrCache, hc_memory := memCache, hc_external := extCache\<rparr>))"

definition healthy :: "checks \<Rightarrow> bool" where
  "healthy c \<longleftrightarrow> dk_ok (ck_database c) \<and> tk_ok (ck_stellar c) \<and> qk_ok (ck_queue c) \<and> ck_openMeteo c = None \<and> ck_aviationStack c = None"

definition health_body_of :: "health_setup \<Rightarrow> health_times \<Rightarrow> bool \<Rightarrow> checks \<Rightarrow> health_body" where
  "health_body_of hs tm isAdmin c =
     \<lparr>hb_status = (if healthy c then ''ok'' else ''degraded''), hb_version = config_text hs ''npm_package_version'' ''unknown'',
      hb_commitSha = config_text hs ''GIT_COMMIT_SHA'' ''unknown'', hb_responseTimeMs = hm_end tm - hm_start tm,
      hb_versions = (if isAdmin then Some [config_text hs ''DATABASE_VERSION'' ''PostgreSQL'', config_text hs ''REDIS_VERSION'' ''Redis'',
         config_text hs ''STELLAR_SDK_VERSION'' ''13.0.0''] else None),
      hb_checks = (if isAdmin then Detailed c else Public (toPublicChecks c))\<rparr>"

text \<open>A body with status 200 is \<open>Inr\<close>, one with status 503 \<open>Inl\<close>.\<close>

definition check_health ::
  "health_setup \<Rightarrow> health_times \<Rightarrow> probes \<Rightarrow> health_request \<Rightarrow> health_body health_caches \<Rightarrow> (health_body + health_body) \<times> health_body health_caches" where
  "check_health hs tm p rq hc =
     (let isAdmin = isAdminRequest hs rq in
      case (if isAdmin then None else hc_response hc) of
        Some (t, body) \<Rightarrow> if hm_enter tm - t < 5000 then (Inr body, hc) else
          (let (c, hc') = run_checks hs tm p hc; body = transformStatusFormat (health_body_of hs tm isAdmin c) (springboot (hq_accept rq)) in
           (if healthy c then Inr body else Inl body, if healthy c then hc'\<lparr>hc_response := Some (hm_cached tm, body)\<rparr> else hc'))
      | None \<Rightarrow>
          (let (c, hc') = run_checks hs tm p hc; body = transformStatusFormat (health_body_of hs tm isAdmin c) (springboot (hq_accept rq)) in
           (if healthy c then Inr body else Inl body, if \<not> isAdmin \<and> healthy c then hc'\<lparr>hc_response := Some (hm_cached tm, body)\<rparr> else hc')))"

section \<open>When a service counts as healthy\<close>

text \<open>Both outside services answered their probes: Open-Meteo with success, AviationStack with anything but a server error.\<close>

definition outside_fine :: "probes \<Rightarrow> bool" where
  "outside_fine p \<longleftrightarrow> (\<exists>s. pr_openMeteo p = Inr s \<and> 200 \<le> s \<and> s < 300) \<and> (\<exists>s. pr_aviationStack p = Inr s \<and> s < 500)"

definition external_fine :: "int \<Rightarrow> 'b health_caches \<Rightarrow> probes \<Rightarrow> bool" where
  "external_fine now hc p \<longleftrightarrow>
     (case hc_external hc of
          Some (t, om, av, _) \<Rightarrow> if now - t < EXTERNAL_API_CACHE_TTL_MS then om = None \<and> av = None else outside_fine p
        | None \<Rightarrow> outside_fine p)"

text \<open>What the endpoint asks of its own probes, in terms of what they meet. The pool, the replication and the heartbeats of the workers count
  only where they can be read.\<close>

definition own_well :: "health_setup \<Rightarrow> probes \<Rightarrow> bool" where
  "own_well hs p \<longleftrightarrow>
     pr_select p = Inr ()
     \<and> (\<forall>rows. pr_activity p = Inr rows \<longrightarrow> \<not> pv_exhausted (pool_of hs rows))
     \<and> (\<forall>v. replication_of hs p = Some v \<longrightarrow> \<not> rv_exceeds v)
     \<and> (\<exists>x. pr_ledger p = Inr x)
     \<and> pr_rpcHealth p = Inr ''healthy'' \<and> (\<exists>v. pr_network p = Inr (hs_network hs, v))
     \<and> (\<exists>b. pr_balance p = Inr b \<and> \<not> js_less (hs_number hs b) (config_number hs ''KEEPER_MIN_BALANCE_XLM'' DEFAULT_KEEPER_MIN_BALANCE_XLM))
     \<and> pr_ping p = Inr ''PONG'' \<and> (\<exists>x. pr_pingAgain p = Inr x) \<and> (\<forall>n \<in> set (queue_names hs). \<exists>k. pr_llen p (''bull:'' @ n @ '':wait'') = Inr k)
     \<and> (\<forall>values. pr_mget p = Inr values \<longrightarrow> (\<forall>i < 3. i < length values \<and> is_set (values ! i)))"

lemma queue_depths_ok: "(\<exists>ds. queue_depths llen ns = Inr ds) \<longleftrightarrow> (\<forall>n \<in> set ns. \<exists>k. llen (''bull:'' @ n @ '':wait'') = Inr k)"
  by (induction ns) (auto split: sum.splits)

lemma stale_workers_none: "stale_workers values = [] \<longleftrightarrow> (\<forall>i < 3. i < length values \<and> is_set (values ! i))"
proof -
  have "worker_runs values = map (\<lambda>(i, name). (name, if i < length values \<and> is_set (values ! i) then values ! i else None))
      [(0, ''oracle''), (Suc 0, ''claims''), (2, ''auth-cleanup'')]"
    by (simp add: worker_runs_def WORKER_HEARTBEATS_def numeral_2_eq_2)
  moreover have "(\<forall>i < 3. P i) \<longleftrightarrow> P 0 \<and> P (Suc 0) \<and> P 2" for P :: "nat \<Rightarrow> bool"
    by (auto simp: numeral_3_eq_3 numeral_2_eq_2 less_Suc_eq)
  ultimately show ?thesis by (auto simp: stale_workers_def is_set_def split: if_splits)
qed

lemma database_well: "dk_ok (check_database hs p thr) \<longleftrightarrow> pr_select p = Inr ()
     \<and> (\<forall>rows. pr_activity p = Inr rows \<longrightarrow> \<not> pv_exhausted (pool_of hs rows)) \<and> (\<forall>v. replication_of hs p = Some v \<longrightarrow> \<not> rv_exceeds v)"
  by (auto simp: check_database_def Let_def split: sum.splits option.splits)

lemma stellar_well: "tk_ok (check_stellar hs p) \<longleftrightarrow> (\<exists>x. pr_ledger p = Inr x)
     \<and> pr_rpcHealth p = Inr ''healthy'' \<and> (\<exists>v. pr_network p = Inr (hs_network hs, v))
     \<and> (\<exists>b. pr_balance p = Inr b \<and> \<not> js_less (hs_number hs b) (config_number hs ''KEEPER_MIN_BALANCE_XLM'' DEFAULT_KEEPER_MIN_BALANCE_XLM))"
  by (auto simp: check_stellar_def Let_def checkNetworkStatus_def split: sum.splits prod.splits)

lemma queue_well: "qk_ok (check_queue hs p mem) \<longleftrightarrow> pr_ping p = Inr ''PONG'' \<and> (\<exists>x. pr_pingAgain p = Inr x)
     \<and> (\<forall>n \<in> set (queue_names hs). \<exists>k. pr_llen p (''bull:'' @ n @ '':wait'') = Inr k)
     \<and> (\<forall>values. pr_mget p = Inr values \<longrightarrow> (\<forall>i < 3. i < length values \<and> is_set (values ! i)))"
  unfolding queue_depths_ok [symmetric] stale_workers_none [symmetric]
  by (auto simp: check_queue_def ping_part_def Let_def split: sum.splits if_splits)

lemma probe_errors: "openMeteo_error p = None \<and> aviationStack_error p = None \<longleftrightarrow> outside_fine p"
  by (auto simp: outside_fine_def openMeteo_error_def aviationStack_error_def split: sum.splits if_splits)

lemma external_well:
  "fst (fst (check_external now hs hc p)) = None \<and> fst (snd (fst (check_external now hs hc p))) = None \<longleftrightarrow> external_fine now hc p"
  using probe_errors [of p] by (auto simp: external_fine_def check_external_def Let_def split: option.splits if_splits prod.splits)

lemma healthy_iff: "healthy (fst (run_checks hs tm p hc)) \<longleftrightarrow> own_well hs p \<and> external_fine (hm_external tm) hc p"
proof -
  obtain thr thrC mem memC om av cf extC where
    r: "fresh_throughput (hm_throughput tm) hc p = (thr, thrC)" "fresh_memory (hm_memory tm) hc p = (mem, memC)"
      "check_external (hm_external tm) hs hc p = ((om, av, cf), extC)"
    by (metis prod.exhaust)
  have ext: "om = None \<and> av = None \<longleftrightarrow> external_fine (hm_external tm) hc p"
    unfolding external_well [of "hm_external tm" hs hc p, symmetric] by (simp add: r(3))
  show ?thesis unfolding own_well_def ext [symmetric]
    by (simp only: run_checks_def r healthy_def Let_def prod.case fst_conv checks.simps database_well stellar_well queue_well conj_assoc)
qed

section \<open>A sequence of requests\<close>

definition no_caches :: "health_body health_caches" where
  "no_caches = \<lparr>hc_throughput = None, hc_memory = None, hc_external = None, hc_response = None\<rparr>"

type_synonym visit = "health_times \<times> probes \<times> health_request"

text \<open>Each visit with its answer.\<close>

type_synonym visited = "visit \<times> (health_body + health_body)"

definition visit_step :: "health_setup \<Rightarrow> visit \<Rightarrow> visited list \<times> health_body health_caches \<Rightarrow> visited list \<times> health_body health_caches" where
  "visit_step hs v = (\<lambda>(seen, hc). case v of (tm, p, rq) \<Rightarrow>
     (let (r, hc') = check_health hs tm p rq hc in (seen @ [(v, r)], hc')))"

definition health_run :: "health_setup \<Rightarrow> visit list \<Rightarrow> visited list" where
  "health_run hs vs = fst (fold (visit_step hs) vs ([], no_caches))"

fun answer_body :: "health_body + health_body \<Rightarrow> health_body" where
  "answer_body (Inl b) = b"
| "answer_body (Inr b) = b"

definition public_body :: "health_body \<Rightarrow> bool" where
  "public_body b \<longleftrightarrow> hb_versions b = None \<and> (\<exists>pk. hb_checks b = Public pk)"

text \<open>At this visit, or at an earlier one less than thirty seconds before, the outside services were fine, or were not.\<close>

definition outside_seen :: "visited list \<Rightarrow> health_times \<Rightarrow> probes \<Rightarrow> bool \<Rightarrow> bool" where
  "outside_seen past tm p fine \<longleftrightarrow> outside_fine p = fine
     \<or> (\<exists>tm' p' rq' r'. ((tm', p', rq'), r') \<in> set past \<and> hm_external tm - hm_external tm' < 30000 \<and> outside_fine p' = fine)"

text \<open>The cached response was given to an earlier visit, to a stranger, and its checks had passed then. The cached probe is that of an earlier
  visit.\<close>

definition cache_from :: "health_setup \<Rightarrow> visited list \<Rightarrow> int \<times> health_body \<Rightarrow> bool" where
  "cache_from hs seen = (\<lambda>(t, b). \<exists>tm p rq. ((tm, p, rq), Inr b) \<in> set seen \<and> hm_cached tm = t \<and> public_body b \<and> own_well hs p \<and> outside_seen seen tm p True)"

definition probe_from :: "visited list \<Rightarrow> int \<times> string option \<times> string option \<times> bool \<Rightarrow> bool" where
  "probe_from seen = (\<lambda>(t, om, av, _). \<exists>tm p rq r. ((tm, p, rq), r) \<in> set seen \<and> hm_external tm = t \<and> (om = None \<and> av = None \<longleftrightarrow> outside_fine p))"

definition caches_ok :: "health_setup \<Rightarrow> visited list \<Rightarrow> health_body health_caches \<Rightarrow> bool" where
  "caches_ok hs seen hc \<longleftrightarrow> (\<forall>x \<in> set_option (hc_response hc). cache_from hs seen x) \<and> (\<forall>x \<in> set_option (hc_external hc). probe_from seen x)"

definition visit_sound :: "health_setup \<Rightarrow> visited list \<Rightarrow> visited \<Rightarrow> bool" where
  "visit_sound hs past = (\<lambda>((tm, p, rq), r).
     (\<not> isAdminRequest hs rq \<longrightarrow> public_body (answer_body r))
     \<and> (case r of
          Inl b \<Rightarrow> \<not> own_well hs p \<or> outside_seen past tm p False
        | Inr b \<Rightarrow> own_well hs p \<and> outside_seen past tm p True
            \<or> \<not> isAdminRequest hs rq \<and> (\<exists>t. cache_from hs past (t, b) \<and> hm_enter tm - t < 5000)))"

definition log_sound :: "health_setup \<Rightarrow> visited list \<Rightarrow> bool" where
  "log_sound hs seen \<longleftrightarrow> (\<forall>past x future. seen = past @ x # future \<longrightarrow> visit_sound hs past x)"

lemma log_sound_snoc: "log_sound hs seen \<Longrightarrow> visit_sound hs seen x \<Longrightarrow> log_sound hs (seen @ [x])"
  unfolding log_sound_def
proof (intro allI impI)
  fix past y future
  assume old: "\<forall>past y future. seen = past @ y # future \<longrightarrow> visit_sound hs past y" and new: "visit_sound hs seen x"
    and split: "seen @ [x] = past @ y # future"
  show "visit_sound hs past y"
  proof (cases future rule: rev_cases)
    case Nil
    with split new show ?thesis by simp
  next
    case (snoc rest z)
    with split have "seen = past @ y # rest" by simp
    with old show ?thesis by blast
  qed
qed

lemma run_checks_cache:
  "hc_response (snd (run_checks hs tm p hc)) = hc_response hc"
  "hc_external (snd (run_checks hs tm p hc)) = snd (check_external (hm_external tm) hs hc p)"
  by (simp_all add: run_checks_def Let_def split: prod.split)

lemma fresh_body_public: "\<not> a \<Longrightarrow> public_body (transformStatusFormat (health_body_of hs tm a c) f)"
  by (simp add: public_body_def transformStatusFormat_def health_body_of_def)

lemma outside_seen_mono: "outside_seen past tm p f \<Longrightarrow> set past \<subseteq> set past' \<Longrightarrow> outside_seen past' tm p f"
  unfolding outside_seen_def by blast

lemma caches_ok_mono: "caches_ok hs seen hc \<Longrightarrow> set seen \<subseteq> set seen' \<Longrightarrow> caches_ok hs seen' hc"
  unfolding caches_ok_def cache_from_def probe_from_def by (fastforce intro: outside_seen_mono)

text \<open>The verdict on the outside services is that of some probe less than thirty seconds old, and is cached as such.\<close>

lemma external_fine_seen:
  assumes "caches_ok hs seen hc" shows "outside_seen seen tm p (external_fine (hm_external tm) hc p)"
proof (cases "hc_external hc")
  case None
  then show ?thesis by (simp add: external_fine_def outside_seen_def)
next
  case (Some x)
  obtain t om av cf where x: "x = (t, om, av, cf)" by (metis prod.exhaust)
  with assms Some have "probe_from seen (t, om, av, cf)" by (simp add: caches_ok_def)
  then obtain tm' p' rq' r' where v: "((tm', p', rq'), r') \<in> set seen" "hm_external tm' = t" "om = None \<and> av = None \<longleftrightarrow> outside_fine p'"
    by (auto simp: probe_from_def)
  show ?thesis
  proof (cases "hm_external tm - t < 30000")
    case True
    with v Some x show ?thesis unfolding outside_seen_def external_fine_def by (auto simp: EXTERNAL_API_CACHE_TTL_MS_def)
  next
    case False
    with Some x show ?thesis by (simp add: outside_seen_def external_fine_def EXTERNAL_API_CACHE_TTL_MS_def)
  qed
qed

lemma check_external_from:
  assumes "caches_ok hs seen hc"
  shows "\<forall>x \<in> set_option (snd (check_external (hm_external tm) hs hc p)). probe_from (seen @ [((tm, p, rq), r)]) x"
proof -
  have new: "probe_from (seen @ [((tm, p, rq), r)]) (hm_external tm, openMeteo_error p, aviationStack_error p, cf)" for cf
    using probe_errors [of p] by (auto simp: probe_from_def)
  have old: "\<forall>x \<in> set_option (hc_external hc). probe_from (seen @ [((tm, p, rq), r)]) x"
    using caches_ok_mono [OF assms, of "seen @ [((tm, p, rq), r)]"] by (auto simp: caches_ok_def)
  show ?thesis using new old by (auto simp: check_external_def Let_def split: option.splits)
qed

text \<open>An answer is the cached one, if that is young enough, or a new one.\<close>

lemma check_health_cases:
  assumes "check_health hs tm p rq hc = (r, hc')"
  obtains (cached) t b where "\<not> isAdminRequest hs rq" "hc_response hc = Some (t, b)" "hm_enter tm - t < 5000" "r = Inr b" "hc' = hc"
  | (fresh) body ok where "\<not> isAdminRequest hs rq \<longrightarrow> public_body body" "ok \<longleftrightarrow> own_well hs p \<and> external_fine (hm_external tm) hc p"
      "r = (if ok then Inr body else Inl body)" "hc_external hc' = snd (check_external (hm_external tm) hs hc p)"
      "hc_response hc' = (if \<not> isAdminRequest hs rq \<and> ok then Some (hm_cached tm, body) else hc_response hc)"
proof (cases "isAdminRequest hs rq \<or> (\<forall>t b. hc_response hc = Some (t, b) \<longrightarrow> \<not> hm_enter tm - t < 5000)")
  case True
  let ?a = "isAdminRequest hs rq" and ?c = "fst (run_checks hs tm p hc)"
  let ?body = "transformStatusFormat (health_body_of hs tm ?a ?c) (springboot (hq_accept rq))"
  have "r = (if healthy ?c then Inr ?body else Inl ?body) \<and> hc_external hc' = snd (check_external (hm_external tm) hs hc p)
      \<and> hc_response hc' = (if \<not> ?a \<and> healthy ?c then Some (hm_cached tm, ?body) else hc_response hc)"
    using True assms run_checks_cache [of hs tm p hc]
    by (cases "run_checks hs tm p hc") (auto simp: check_health_def Let_def split: option.splits if_splits)
  with fresh_body_public show thesis by (intro fresh [of ?body, OF _ healthy_iff]) auto
next
  case False
  then obtain t b where c: "\<not> isAdminRequest hs rq" "hc_response hc = Some (t, b)" "hm_enter tm - t < 5000" by blast
  with assms have "r = Inr b" "hc' = hc" by (simp_all add: check_health_def)
  with c show thesis by (rule cached)
qed

lemma visit_step_keeps:
  assumes "log_sound hs seen" "caches_ok hs seen hc" "visit_step hs v (seen, hc) = (seen', hc')"
  shows "log_sound hs seen' \<and> caches_ok hs seen' hc'"
proof -
  obtain tm p rq where v: "v = (tm, p, rq)" by (cases v)
  obtain r where r: "check_health hs tm p rq hc = (r, hc')" and seen': "seen' = seen @ [(v, r)]"
    using assms(3) by (auto simp: visit_step_def v Let_def split: prod.splits)
  have more: "set seen \<subseteq> set seen'" by (auto simp: seen')
  note old = caches_ok_mono [OF assms(2) more] and seen = external_fine_seen [OF assms(2), of tm p]
  from r show ?thesis
  proof (cases rule: check_health_cases)
    case (cached t b)
    then have "cache_from hs seen (t, b)" using assms(2) by (simp add: caches_ok_def)
    with cached have "visit_sound hs seen (v, r)" by (auto simp: visit_sound_def v cache_from_def)
    with log_sound_snoc [OF assms(1)] old cached(5) show ?thesis by (simp add: seen')
  next
    case (fresh body ok)
    have sound: "visit_sound hs seen (v, r)" using fresh(1-3) seen by (cases ok) (auto simp: visit_sound_def v)
    have "cache_from hs seen' (hm_cached tm, body)" if "\<not> isAdminRequest hs rq" ok
      using that fresh(1-3) outside_seen_mono [OF _ more, of tm p True] seen by (auto simp: cache_from_def seen' v)
    then have "\<forall>x \<in> set_option (hc_response hc'). cache_from hs seen' x" using fresh(5) old by (auto simp: caches_ok_def)
    moreover have "\<forall>x \<in> set_option (hc_external hc'). probe_from seen' x"
      unfolding fresh(4) seen' v by (rule check_external_from [OF assms(2)])
    ultimately show ?thesis using log_sound_snoc [OF assms(1) sound] by (simp add: caches_ok_def seen')
  qed
qed

lemma health_run_sound: "log_sound hs (health_run hs vs)"
proof -
  have "log_sound hs (fst s) \<and> caches_ok hs (fst s) (snd s) \<Longrightarrow> log_sound hs (fst (fold (visit_step hs) vs s))" for s
  proof (induction vs arbitrary: s)
    case (Cons v vs)
    obtain seen' hc' where s': "visit_step hs v s = (seen', hc')" by (cases "visit_step hs v s")
    from visit_step_keeps [of hs "fst s" "snd s" v seen' hc'] Cons.prems s' Cons.IH [of "(seen', hc')"] show ?case by simp
  qed simp
  from this [of "([], no_caches)"] show ?thesis by (simp add: health_run_def no_caches_def log_sound_def caches_ok_def)
qed

text \<open>C34. Answers of the health endpoint over any sequence of requests, one after the other. A request without the key sees the state of each
  component as one of two words and nothing else. An answer with status 503 means that a check of that visit failed, or that an
  outside service had failed a probe less than thirty seconds before. An answer with status 200 means that the checks of that visit passed
  (where the pool, the replication and the heartbeats of the workers count only if they could be read) and both outside services had
  answered a probe less than thirty seconds before; or that this was so at an earlier visit, less than five seconds before, that was
  answered with the same body.\<close>

theorem health_answers_sound:
  assumes "health_run hs vs = past @ ((tm, p, rq), r) # future"
  shows "(\<not> isAdminRequest hs rq \<longrightarrow> hb_versions (answer_body r) = None \<and> (\<exists>pk. hb_checks (answer_body r) = Public pk))
    \<and> (\<forall>b. r = Inl b \<longrightarrow> \<not> own_well hs p \<or> outside_seen past tm p False)
    \<and> (\<forall>b. r = Inr b \<longrightarrow> own_well hs p \<and> outside_seen past tm p True
         \<or> \<not> isAdminRequest hs rq \<and> (\<exists>tm' p' rq'. ((tm', p', rq'), Inr b) \<in> set past \<and> hm_enter tm - hm_cached tm' < 5000
              \<and> own_well hs p' \<and> outside_seen past tm' p' True))"
proof -
  have "visit_sound hs past ((tm, p, rq), r)" using health_run_sound [of hs vs] assms unfolding log_sound_def by blast
  then show ?thesis by (cases r) (auto simp: visit_sound_def public_body_def cache_from_def)
qed

text \<open>Requests without the key never cause an answer that depends on more than the five states: equal states, equal answers.\<close>

theorem public_answer_by_states:
  assumes "\<not> isAdminRequest hs rq" "toPublicChecks (fst (run_checks hs tm p hc)) = toPublicChecks (fst (run_checks hs tm p' hc))"
    and "hc_response hc = None"
  shows "fst (check_health hs tm p rq hc) = fst (check_health hs tm p' rq hc)"
proof -
  have iff: "healthy c = (let k = toPublicChecks c in pk_database k \<and> pk_stellar k \<and> pk_queue k \<and> pk_openMeteo k \<and> pk_aviationStack k)" for c
    by (simp add: healthy_def toPublicChecks_def Let_def)
  have "health_body_of hs tm False (fst (run_checks hs tm p hc)) = health_body_of hs tm False (fst (run_checks hs tm p' hc))"
    unfolding health_body_of_def iff assms(2) by simp
  moreover have "healthy (fst (run_checks hs tm p hc)) = healthy (fst (run_checks hs tm p' hc))" unfolding iff assms(2) ..
  ultimately show ?thesis using assms(1,3)
    by (cases "run_checks hs tm p hc"; cases "run_checks hs tm p' hc") (simp add: check_health_def Let_def)
qed

section \<open>Samples\<close>

definition sample_setup :: health_setup where
  "sample_setup = \<lparr>hs_config = [''ADMIN_API_KEY'' \<mapsto> ''k''], hs_pool = [Some 10, Some 10, Some 5], hs_network = ''Test'',
     hs_number = (\<lambda>s. case parseInt10 s of Some n \<Rightarrow> js_int n | None \<Rightarrow> NaN), hs_digest = (\<lambda>s. s), hs_fixed1 = (\<lambda>_. ''0.0'')\<rparr>"

definition sample_probes :: probes where
  "sample_probes = \<lparr>pr_select = Inr (), pr_activity = Inr [(''idle'', 7)], pr_throughput = Inr (Some (1, 2, 3)), pr_replication = Inr [],
     pr_standby = Inr None, pr_ledger = Inr (5, 100), pr_rpcHealth = Inr ''healthy'', pr_network = Inr (''Test'', js_int 22), pr_balance = Inr ''50'',
     pr_ping = Inr ''PONG'', pr_pingAgain = Inr ''PONG'', pr_llen = (\<lambda>_. Inr 0), pr_mget = Inr [Some ''a'', Some ''b'', Some ''c''], pr_info = Inr [],
     pr_openMeteo = Inr 200, pr_aviationStack = Inr 401\<rparr>"

definition sample_times :: "int \<Rightarrow> health_times" where
  "sample_times t = \<lparr>hm_enter = t, hm_start = t, hm_throughput = t, hm_memory = t, hm_external = t, hm_end = t + 5, hm_cached = t + 5\<rparr>"

definition visitor :: "string option \<Rightarrow> health_request" where
  "visitor accept = \<lparr>hq_apiKey = None, hq_adminApiKey = None, hq_accept = accept\<rparr>"

theorem health_answers_sound_witness:
  "map (\<lambda>(_, r). hb_status (answer_body r)) (health_run sample_setup [(sample_times 0, sample_probes, visitor None),
      (sample_times 6000, sample_probes\<lparr>pr_ping := Inl (PlainError ''x'')\<rparr>, visitor None)]) = [''ok'', ''degraded'']
   \<and> \<not> own_well sample_setup (sample_probes\<lparr>pr_ping := Inl (PlainError ''x'')\<rparr>)"
proof -
  let ?p = "sample_probes\<lparr>pr_ping := Inl (PlainError ''x'')\<rparr>"
  have run: "map (\<lambda>(_, r). hb_status (answer_body r)) (health_run sample_setup [(sample_times 0, sample_probes, visitor None),
      (sample_times 6000, ?p, visitor None)]) = [''ok'', ''degraded'']" by code_simp
  obtain r hc' where "check_health sample_setup (sample_times 6000) ?p (visitor None) no_caches = (r, hc')" by fastforce
  then have log: "health_run sample_setup [(sample_times 6000, ?p, visitor None)] = [((sample_times 6000, ?p, visitor None), r)]"
    by (simp add: health_run_def visit_step_def)
  have "(case health_run sample_setup [(sample_times 6000, ?p, visitor None)] of [(_, Inl _)] \<Rightarrow> True | _ \<Rightarrow> False)" by code_simp
  then obtain b where "r = Inl b" unfolding log by (cases r) auto
  with health_answers_sound [of sample_setup _ "[]" "sample_times 6000" ?p "visitor None" r "[]"] log
  have "\<not> own_well sample_setup ?p \<or> outside_seen [] (sample_times 6000) ?p False" by auto
  moreover have "outside_fine ?p" by (simp add: outside_fine_def sample_probes_def)
  ultimately have "\<not> own_well sample_setup ?p" by (simp add: outside_seen_def)
  with run show ?thesis by blast
qed

text \<open>The cache keeps one body for all formats: after a request in the format of Spring Boot, a request in the standard format is answered
  in the other one.\<close>

theorem cached_format_leaks:
  "map (\<lambda>(_, r). hb_status (answer_body r)) (health_run sample_setup
     [(sample_times 0, sample_probes, visitor (Some ''application/vnd.spring-boot.actuator.v3+json'')), (sample_times 1000, sample_probes, visitor (Some ''application/json''))])
   = [''UP'', ''UP'']
   \<and> map (\<lambda>(_, r). hb_status (answer_body r)) (health_run sample_setup [(sample_times 1000, sample_probes, visitor (Some ''application/json''))]) = [''ok'']"
  by code_simp

text \<open>If the heartbeats cannot be read, no worker counts as stale.\<close>

theorem unread_heartbeats_pass: "qk_ok (check_queue sample_setup (sample_probes\<lparr>pr_mget := Inl err\<rparr>) None)"
  by (simp add: queue_well) (simp add: sample_probes_def)

end
