(* ===== verification/Webhook_Routes.thy ===== *)
theory Webhook_Routes
  imports Webhooks
begin

text \<open>
  The routes of webhooks, \<^verbatim>\<open>src/common/webhooks/webhooks.controller.ts\<close> with the body that
  \<^verbatim>\<open>src/common/webhooks/dto/webhook.dto.ts\<close> declares, and the drain of deliveries at shutdown, \<^verbatim>\<open>onApplicationShutdown\<close> of
  \<^verbatim>\<open>src/common/events/webhooks.service.ts\<close>.
\<close>

section \<open>Routes\<close>

definition WebhookEventType :: "string list" where
  "WebhookEventType = [''policy.status.change'', ''claim.status.change'']"

record RegisterWebhookDto =
  rw_url :: string
  rw_events :: "string list"
  rw_secret :: "string option"

text \<open>What the decorators of the body demand of the events; the form of the URL is checked by the framework as well.\<close>

definition webhook_events_ok :: "string list \<Rightarrow> bool" where
  "webhook_events_ok events \<longleftrightarrow> events \<noteq> [] \<and> distinct events \<and> list_all (\<lambda>ev. ev \<in> set WebhookEventType) events"

definition register_route :: "webhook_lib \<Rightarrow> RegisterWebhookDto \<Rightarrow> string act" where
  "register_route lib dto =
     (if \<not> webhook_events_ok (rw_events dto) then throw (BadRequestException ''Request body failed validation'')
      else seq (lift (validateWebhookEndpoint (wb_net lib) (rw_url dto))) (registerWebhook lib (rw_url dto) (rw_events dto) (rw_secret dto)))"

record WebhookListItem =
  wi_id :: string
  wi_url :: string
  wi_events :: "string list"
  wi_createdAt :: int
  wi_isActive :: bool
  wi_secretMasked :: "string option"

definition last4 :: "string \<Rightarrow> string" where
  "last4 s = drop (length s - 4) s"

definition mask_registration :: "WebhookRegistration \<Rightarrow> WebhookListItem" where
  "mask_registration r = \<lparr>wi_id = wr_id r, wi_url = wr_url r, wi_events = wr_events r, wi_createdAt = wr_createdAt r, wi_isActive = wr_isActive r,
     wi_secretMasked = (if truthy (wr_secret r) then Some (''****'' @ last4 (the (wr_secret r))) else None)\<rparr>"

definition list_route :: "webhook_lib \<Rightarrow> WebhookListItem list act" where
  "list_route lib = bind (getRegistrations lib) (\<lambda>registrations. ret (map mask_registration registrations))"

section \<open>Shutdown\<close>

definition DEFAULT_SHUTDOWN_DRAIN_TIMEOUT_MS :: int where
  "DEFAULT_SHUTDOWN_DRAIN_TIMEOUT_MS = 10000"

text \<open>Deliveries in flight with the time they still need. The result is how long the shutdown waits, and which of them are still in flight then.\<close>

definition drain_deliveries :: "int option \<Rightarrow> (nat \<times> int) list \<Rightarrow> int \<times> nat list" where
  "drain_deliveries configured inFlight =
     (if inFlight = [] then (0, [])
      else
        let timeoutMs = (case configured of Some t \<Rightarrow> t | None \<Rightarrow> DEFAULT_SHUTDOWN_DRAIN_TIMEOUT_MS);
            longest = fold max (map snd inFlight) 0 in
        if longest \<le> timeoutMs then (longest, []) else (max 0 timeoutMs, map fst (filter (\<lambda>(_, t). t > timeoutMs) inFlight)))"

section \<open>Secrets in listings\<close>

text \<open>
  The listing shows of a secret its last four characters only: registrations that differ in the rest of their secrets are shown alike.
\<close>

theorem listing_masks_secrets:
  assumes "r' = r\<lparr>wr_secret := Some s'\<rparr>" "wr_secret r = Some s" "s \<noteq> []" "s' \<noteq> []" "last4 s = last4 s'"
  shows "mask_registration r' = mask_registration r"
  using assms by (simp add: mask_registration_def truthy_def)

text \<open>
  A secret of at most four characters, which nothing refuses, is shown completely; no token is needed for the listing.
\<close>

theorem short_secret_listed:
  assumes "wr_secret r = Some s" "s \<noteq> []" "length s \<le> 4"
  shows "wi_secretMasked (mask_registration r) = Some (''****'' @ s)"
  using assms by (simp add: mask_registration_def truthy_def last4_def)

lemma open_rows_events: "open_rows lib key rows = Inr qs \<Longrightarrow> map wr_events qs = map wr_events rows"
  by (induction rows arbitrary: qs) (auto split: sum.splits if_splits)

text \<open>
  Every registration made through the route is for one of the two declared events. The service also notifies about changed oracle
  keys, but as long as all registrations came through the route, nobody receives that.
\<close>

theorem route_registers_known_events:
  assumes "register_route lib dto e (n, w) = (Inr i, (n', w'))"
  shows "set (rw_events dto) \<subseteq> {''policy.status.change'', ''claim.status.change''} \<and> validateWebhookEndpoint (wb_net lib) (rw_url dto) = Inr ()"
proof -
  have "webhook_events_ok (rw_events dto)" using assms by (auto simp: register_route_def throw_def split: if_splits)
  moreover from this have "validateWebhookEndpoint (wb_net lib) (rw_url dto) = Inr ()"
    using assms by (auto simp: register_route_def returns)
  ultimately show ?thesis by (auto simp: webhook_events_ok_def list_all_iff WebhookEventType_def)
qed

theorem oracle_key_changes_unheard:
  assumes "\<forall>k. \<forall>r \<in> set (webhookRegistrations (e_rely e k w)). set (wr_events r) \<subseteq> {''policy.status.change'', ''claim.status.change''}"
    and "getRegistrationsForEvent lib ''policy.oracle_key.change'' e (n, w) = (Inr rs, s')"
  shows "rs = []"
proof -
  have "ev \<noteq> ''policy.oracle_key.change''" if "ev \<in> {''policy.status.change'', ''claim.status.change''}" for ev :: string using that by auto
  then have none: "''policy.oracle_key.change'' \<notin> set (wr_events r)" if "r \<in> set (webhookRegistrations (e_rely e n w))" for r
    using assms(1) that by blast
  obtain r m v where run: "getRegistrations lib e (n, w) = (r, (m, v))" by (metis prod.exhaust)
  show ?thesis
  proof (cases r)
    case (Inl x)
    with run assms(2) show ?thesis by (simp add: getRegistrationsForEvent_def catch_def bind_def ret_def)
  next
    case (Inr qs)
    then have rs: "rs = filter (\<lambda>r. ''policy.oracle_key.change'' \<in> set (wr_events r)) qs"
      using run assms(2) by (simp add: getRegistrationsForEvent_def catch_def bind_def ret_def)
    have "open_rows lib (encryptionKey lib e) (sort_key wr_createdAt (filter wr_isActive (webhookRegistrations (e_rely e n w)))) = Inr qs"
      using run Inr by (auto simp: getRegistrations_def returns)
    from open_rows_events [OF this] have "set (map wr_events qs) = wr_events ` {r \<in> set (webhookRegistrations (e_rely e n w)). wr_isActive r}" by simp
    then have "\<forall>q \<in> set qs. \<exists>r \<in> set (webhookRegistrations (e_rely e n w)). wr_events q = wr_events r" by auto
    with none show ?thesis unfolding rs by (metis (no_types, lifting) filter_False)
  qed
qed

text \<open>A shutdown waits no longer than the limit, and loses exactly the deliveries that need longer.\<close>

lemma fold_max: "fold max xs (a :: int) \<le> b \<longleftrightarrow> a \<le> b \<and> (\<forall>x \<in> set xs. x \<le> b)"
  by (induction xs arbitrary: a) auto

theorem shutdown_drain_bounded:
  assumes "0 \<le> limit" "limit = (case configured of Some t \<Rightarrow> t | None \<Rightarrow> DEFAULT_SHUTDOWN_DRAIN_TIMEOUT_MS)"
  shows "fst (drain_deliveries configured inFlight) \<le> limit
    \<and> set (snd (drain_deliveries configured inFlight)) = fst ` {d \<in> set inFlight. snd d > limit}"
  using assms fold_max [of "map snd inFlight" 0 limit]
  by (auto simp: drain_deliveries_def Let_def image_iff split: if_splits)

end
