(* ===== verification/Bootstrap.thy ===== *)
theory Bootstrap
  imports Oracle_Fetch Redis_Startup Database_Clients Response_Delivery
begin

text \<open>
  The start of the process, \<^verbatim>\<open>bootstrap\<close> of \<^verbatim>\<open>src/main.ts\<close>: it composes the loading of secrets, the checks of the configuration, the
  clients of Redis and the database and the middleware of the application. Parameters are what the configuration service of the
  framework shows of the environment, the configuration it handed to \<^verbatim>\<open>validateConfig\<close> when the modules were defined, and what Vault,
  the database and Redis answer. The order in which the connections are made is the framework's: a start needs all of them. The
  documentation of the API, telemetry and logging are left out.
\<close>

section \<open>Cross-origin requests\<close>

definition DEFAULT_CORS_METHODS :: "string list" where
  "DEFAULT_CORS_METHODS = [''GET'', ''POST'', ''PUT'', ''DELETE'', ''OPTIONS'']"

definition DEFAULT_CORS_ALLOWED_HEADERS :: "string list" where
  "DEFAULT_CORS_ALLOWED_HEADERS = [''Content-Type'', ''Authorization'', ''x-wallet-address'', ''x-wallet-signature'', ''x-wallet-message'',
     ''x-api-key'', ''x-admin-api-key'', ''Idempotency-Key'']"

definition parseCsvEnv :: "string option \<Rightarrow> string list option" where
  "parseCsvEnv value = (if blank value then None else Some (non_empty_entries (the value)))"

datatype cors_origin = OneOrigin string | OriginList "string list"

record cors_options =
  co_origin :: cors_origin
  co_methods :: "string list"
  co_allowedHeaders :: "string list"
  co_credentials :: bool
  co_exposedHeaders :: "string list"

definition hasWildcard :: "string \<Rightarrow> bool" where
  "hasWildcard corsOrigin \<longleftrightarrow> list_ex (\<lambda>og. og = ''*'' \<or> og = ''null'' \<or> CHR ''*'' \<in> set og) (non_empty_entries corsOrigin)"

definition parsedCorsOrigin :: "string \<Rightarrow> cors_origin" where
  "parsedCorsOrigin corsOrigin = (if CHR '','' \<in> set corsOrigin then OriginList (non_empty_entries corsOrigin) else OneOrigin (trim corsOrigin))"

definition or_default :: "'a option \<Rightarrow> 'a \<Rightarrow> 'a" where
  "or_default x d = (case x of Some y \<Rightarrow> y | None \<Rightarrow> d)"

definition cors_of :: "configuration \<Rightarrow> cors_options" where
  "cors_of cfg =
     \<lparr>co_origin = parsedCorsOrigin (the (cfg ''CORS_ORIGIN'')),
      co_methods = or_default (parseCsvEnv (cfg ''CORS_METHODS'')) DEFAULT_CORS_METHODS,
      co_allowedHeaders = or_default (parseCsvEnv (cfg ''CORS_ALLOWED_HEADERS'')) DEFAULT_CORS_ALLOWED_HEADERS,
      co_credentials = (case cfg ''CORS_CREDENTIALS'' of Some v \<Rightarrow> to_lower (trim v) = ''true'' | None \<Rightarrow> False),
      co_exposedHeaders = [''X-API-Version'', ''Deprecation'', ''Link'']\<rparr>"

section \<open>The application\<close>

text \<open>What requests pass, in this order.\<close>

datatype app_layer =
    ApiVersionStamp | SecurityHeaders "app_call list" | Compression "int option" "int option" | JsonBody string | UrlencodedBody string
  | RequestTimeout int | InputSanitization | UsdcPrecision | IdempotencyKeys | Cors cors_options

record server =
  sv_port :: int
  sv_trustProxy :: trust_proxy
  sv_layers :: "app_layer list"
  sv_cors :: cors_options
  sv_redis :: redis_client
  sv_timeout :: int

definition REQUEST_BODY_LIMIT :: string where
  "REQUEST_BODY_LIMIT = ''1mb''"

definition SERVER_TIMEOUT_MS :: int where
  "SERVER_TIMEOUT_MS = 30000"

text \<open>The rules for other origins come last: \<^verbatim>\<open>enableCors\<close> is called after the middleware is registered.\<close>

definition app_layers :: "configuration \<Rightarrow> app_layer list" where
  "app_layers cfg =
     [ApiVersionStamp,
      SecurityHeaders (applySecurityHeaders [] []),
      Compression (parseInt10 (or_default (cfg ''COMPRESSION_LEVEL'') ''6'')) (parseInt10 (or_default (cfg ''COMPRESSION_THRESHOLD_BYTES'') ''1024'')),
      JsonBody REQUEST_BODY_LIMIT, UrlencodedBody REQUEST_BODY_LIMIT,
      RequestTimeout SERVER_TIMEOUT_MS, InputSanitization, UsdcPrecision, IdempotencyKeys,
      Cors (cors_of cfg)]"

section \<open>The start\<close>

text \<open>Outcomes in sequence: the first error ends the start.\<close>

definition and_then :: "'a outcome \<Rightarrow> ('a \<Rightarrow> 'b outcome) \<Rightarrow> 'b outcome" where
  "and_then r f = (case r of Inl x \<Rightarrow> Inl x | Inr y \<Rightarrow> f y)"

definition unless_error :: "bool \<Rightarrow> string \<Rightarrow> unit outcome" where
  "unless_error bad message = (if bad then Inl (PlainError message) else Inr ())"

record outside =
  ou_numStr :: "jsnum \<Rightarrow> string"
  ou_vault :: "string \<Rightarrow> string \<Rightarrow> int \<Rightarrow> vault_answer"
  ou_validated :: configuration
  ou_config :: "configuration \<Rightarrow> configuration"
  ou_database :: "nat \<Rightarrow> bool \<times> bool"
  ou_redis :: "int \<Rightarrow> connection_attempt"
  ou_random :: "int \<Rightarrow> rat"

text \<open>The making of the application: the constructors of its parts accept what they read.\<close>

definition create_app :: "config_lib \<Rightarrow> configuration \<Rightarrow> redis_client outcome" where
  "create_app lib cfg =
     and_then (redis_factory lib cfg) (\<lambda>client.
     and_then (oracle_limits lib cfg) (\<lambda>_. Inr client))"

definition bootstrap :: "config_lib \<Rightarrow> outside \<Rightarrow> configuration \<Rightarrow> server outcome" where
  "bootstrap lib ou env0 =
     and_then (loadVaultSecrets (ou_numStr ou) (ou_vault ou) env0) (\<lambda>env.
     let cfg = ou_config ou env in
     and_then (create_app lib cfg) (\<lambda>client.
     let nodeEnv = effective_env cfg (env ''NODE_ENV'') in
     and_then (validateAllSecrets lib env nodeEnv) (\<lambda>_.
     and_then (validateJwtSecret (cfg ''JWT_SECRET'') nodeEnv) (\<lambda>_.
     and_then (unless_error (\<not> is_set (cfg ''CORS_ORIGIN'')) ''CORS_ORIGIN environment variable is required'') (\<lambda>_.
     and_then (unless_error (hasWildcard (the (cfg ''CORS_ORIGIN''))) ''CORS_ORIGIN must not contain wildcards'') (\<lambda>_.
     and_then (unless_error (\<not> is_set (cfg ''ORACLE_OPERATOR_API_KEY'') \<and> \<not> is_set (cfg ''ADMIN_API_KEY''))
        ''At least one of ORACLE_OPERATOR_API_KEY or ADMIN_API_KEY is required'') (\<lambda>_.
     and_then (validatePortEnv lib (cfg ''PORT'')) (\<lambda>port.
     and_then (fst (onModuleInit_database (ou_database ou) (is_set (env ''DATABASE_REPLICA_URL'')))) (\<lambda>_.
     and_then (onModuleInit_redis lib cfg (ou_redis ou) (ou_random ou) client) (\<lambda>connected.
     Inr \<lparr>sv_port = port, sv_trustProxy = parseTrustProxy (cfg ''TRUST_PROXY''), sv_layers = app_layers cfg, sv_cors = cors_of cfg,
          sv_redis = connected, sv_timeout = SERVER_TIMEOUT_MS\<rparr>))))))))))"

text \<open>The process: the configuration module is set up, and validates what it sees of the environment, when \<^verbatim>\<open>app.module.ts\<close> is imported,
  which is before \<^verbatim>\<open>bootstrap\<close> is called.\<close>

definition main_ts :: "config_lib \<Rightarrow> outside \<Rightarrow> configuration \<Rightarrow> server outcome" where
  "main_ts lib ou env0 =
     and_then (validateConfig lib (ou_validated ou) (env0 ''NODE_ENV'')) (\<lambda>_. bootstrap lib ou env0)"

section \<open>What a running server has\<close>

lemma and_then_Inr: "and_then r f = Inr y \<longleftrightarrow> (\<exists>x. r = Inr x \<and> f x = Inr y)"
  by (cases r) (simp_all add: and_then_def)

lemma unless_error_Inr: "unless_error bad message = Inr u \<longleftrightarrow> \<not> bad"
  by (simp add: unless_error_def)

text \<open>Whom the application lets in from elsewhere.\<close>

fun allowed_origins :: "cors_origin \<Rightarrow> string set" where
  "allowed_origins (OneOrigin og) = {og}"
| "allowed_origins (OriginList ogs) = set ogs"

lemma origins_listed:
  assumes "og \<in> allowed_origins (parsedCorsOrigin s)" "og \<noteq> []"
  shows "og \<in> set (non_empty_entries s)"
proof (cases "CHR '','' \<in> set s")
  case True
  with assms show ?thesis by (simp add: parsedCorsOrigin_def)
next
  case False
  with assms show ?thesis by (simp add: parsedCorsOrigin_def non_empty_entries_def js_split_none)
qed

lemma database_reached:
  assumes "fst (onModuleInit_database answers replica) = Inr ()"
  shows "\<exists>n \<in> {1..5}. fst (answers n) \<and> (replica \<longrightarrow> snd (answers n))"
proof -
  have "fst (connect_loop answers replica left n d) = Inr () \<Longrightarrow> left \<noteq> 0
      \<Longrightarrow> \<exists>k. n \<le> k \<and> k < n + left \<and> fst (answers k) \<and> (replica \<longrightarrow> snd (answers k))" for left n d
  proof (induction left arbitrary: n d)
    case (Suc left)
    show ?case
    proof (cases "fst (answers n) \<and> (replica \<longrightarrow> snd (answers n))")
      case False
      with Suc.prems have "left \<noteq> 0" "fst (connect_loop answers replica left (Suc n) (d * 2)) = Inr ()"
        by (auto simp: Let_def split: if_splits prod.splits)
      from Suc.IH [OF this(2,1)] obtain k where "Suc n \<le> k" "k < Suc n + left" "fst (answers k) \<and> (replica \<longrightarrow> snd (answers k))" by blast
      then show ?thesis by (intro exI [of _ k]) auto
    qed (auto intro: exI [of _ n])
  qed simp
  from this [of 5 1 1000] assms show ?thesis by (force simp: onModuleInit_database_def DB_CONNECT_RETRIES_def)
qed

lemma redis_reached:
  assumes "onModuleInit_redis lib cfg answers random c = Inr c'"
  shows "\<exists>n t. 1 \<le> n \<and> answers n = Some (t, True) \<and> t < so_attemptTimeoutMs (readRedisStartupRetryOptions lib cfg)"
proof -
  have "su_result (connect_attempts options answers random left n) = Inr () \<Longrightarrow>
      \<exists>k t. n \<le> k \<and> answers k = Some (t, True) \<and> t < so_attemptTimeoutMs options" for options left n
  proof (induction left arbitrary: n)
    case (Suc left)
    show ?case
    proof (cases "fst (connectOnce (answers n) (so_attemptTimeoutMs options)) = IsConnected")
      case True
      then obtain t where "answers n = Some (t, True)" "t < so_attemptTimeoutMs options"
        by (auto simp: connectOnce_def split: option.splits if_splits)
      then show ?thesis by blast
    next
      case False
      with Suc.prems have "su_result (connect_attempts options answers random left (n + 1)) = Inr ()"
        by (auto simp: Let_def split: prod.splits if_splits)
      from Suc.IH [OF this] obtain k t where "n + 1 \<le> k" "answers k = Some (t, True) \<and> t < so_attemptTimeoutMs options" by blast
      then show ?thesis by (intro exI [of _ k] exI [of _ t]) simp
    qed
  qed simp
  with assms show ?thesis by (auto simp: onModuleInit_redis_def connectWithRetry_def split: sum.splits)
qed

text \<open>C37. A server that listens has been through every check: the configuration was valid when the modules were imported; then, with the
  secrets of Vault in place, each required secret has a value; there is a key for operators or admins and a secret for tokens; in production every secret in the environment is
  strong; no origin that may call it is a wildcard or the null origin; the database and Redis have answered an attempt to connect, Redis within its time limit, and the client of Redis
  reconnects on its own; and requests pass the sanitiser before the check of amounts, both before the idempotency
  keys, and those before the rules for other origins.\<close>

theorem bootstrap_sound:
  assumes "main_ts lib ou env0 = Inr sv"
  shows "(\<exists>port. validateConfig lib (ou_validated ou) (env0 ''NODE_ENV'') = Inr port)
    \<and> (\<exists>env cfg. loadVaultSecrets (ou_numStr ou) (ou_vault ou) env0 = Inr env \<and> cfg = ou_config ou env
    \<and> (isVaultConfigured env0 \<longrightarrow> missing_required env = [])
    \<and> (is_set (cfg ''ORACLE_OPERATOR_API_KEY'') \<or> is_set (cfg ''ADMIN_API_KEY'')) \<and> \<not> blank (cfg ''JWT_SECRET'')
    \<and> (to_lower (effective_env cfg (env ''NODE_ENV'')) = ''production'' \<longrightarrow>
        (\<forall>name \<in> set [''JWT_SECRET'', ''ORACLE_OPERATOR_API_KEY'', ''ADMIN_API_KEY'', ''ORACLE_OPERATOR_API_KEY_PREVIOUS'',
            ''ADMIN_API_KEY_PREVIOUS'', ''WEBHOOK_SECRET_KEY'']. \<not> blank (env name) \<longrightarrow> strong_secret (the (env name))))
    \<and> (\<forall>og \<in> allowed_origins (co_origin (sv_cors sv)). og \<noteq> ''null'' \<and> CHR ''*'' \<notin> set og)
    \<and> 1 \<le> sv_port sv \<and> sv_port sv \<le> 65535
    \<and> (\<exists>n \<in> {1..5}. fst (ou_database ou n) \<and> (is_set (env ''DATABASE_REPLICA_URL'') \<longrightarrow> snd (ou_database ou n)))
    \<and> (\<exists>n t. 1 \<le> n \<and> ou_redis ou n = Some (t, True) \<and> t < so_attemptTimeoutMs (readRedisStartupRetryOptions lib cfg))
    \<and> rc_connected (sv_redis sv) \<and> rc_reconnects (sv_redis sv)
    \<and> (\<exists>before. sv_layers sv = before @ [InputSanitization, UsdcPrecision, IdempotencyKeys, Cors (sv_cors sv)]))"
proof -
  obtain checked where valid: "validateConfig lib (ou_validated ou) (env0 ''NODE_ENV'') = Inr checked" and run: "bootstrap lib ou env0 = Inr sv"
    using assms by (auto simp: main_ts_def and_then_Inr)
  obtain env where load: "loadVaultSecrets (ou_numStr ou) (ou_vault ou) env0 = Inr env" using run by (auto simp: bootstrap_def and_then_Inr)
  define cfg where "cfg = ou_config ou env"
  define nodeEnv where "nodeEnv = effective_env cfg (env ''NODE_ENV'')"
  from run load obtain r client where secrets: "validateAllSecrets lib env nodeEnv = Inr r"
    and jwt: "validateJwtSecret (cfg ''JWT_SECRET'') nodeEnv = Inr ()"
    and cors: "is_set (cfg ''CORS_ORIGIN'')" "\<not> hasWildcard (the (cfg ''CORS_ORIGIN''))"
    and key: "is_set (cfg ''ORACLE_OPERATOR_API_KEY'') \<or> is_set (cfg ''ADMIN_API_KEY'')"
    and port: "validatePortEnv lib (cfg ''PORT'') = Inr (sv_port sv)"
    and db: "fst (onModuleInit_database (ou_database ou) (is_set (env ''DATABASE_REPLICA_URL''))) = Inr ()"
    and redis: "onModuleInit_redis lib cfg (ou_redis ou) (ou_random ou) client = Inr (sv_redis sv)"
    and shape: "sv_layers sv = app_layers cfg" "sv_cors sv = cors_of cfg"
    by (auto simp: bootstrap_def Let_def and_then_Inr unless_error_Inr cfg_def nodeEnv_def)
  have vault: "isVaultConfigured env0 \<longrightarrow> missing_required env = []"
    using load by (auto simp: loadVaultSecrets_def fetchVaultSecrets_def isVaultConfigured_def list_ex_iff filter_empty_conv Let_def split: sum.splits option.splits if_splits vault_answer.splits)
  have strong: "\<forall>name \<in> set [''JWT_SECRET'', ''ORACLE_OPERATOR_API_KEY'', ''ADMIN_API_KEY'', ''ORACLE_OPERATOR_API_KEY_PREVIOUS'',
      ''ADMIN_API_KEY_PREVIOUS'', ''WEBHOOK_SECRET_KEY'']. \<not> blank (env name) \<longrightarrow> strong_secret (the (env name))"
    if "to_lower nodeEnv = ''production''" using entropy_checked [OF production_secrets(2) [OF secrets that]] by blast
  have "\<not> blank (cfg ''JWT_SECRET'')" using jwt by (auto simp: validateJwtSecret_def split: if_splits)
  moreover have "\<forall>og \<in> allowed_origins (co_origin (sv_cors sv)). og \<noteq> ''null'' \<and> CHR ''*'' \<notin> set og"
    using cors(2) origins_listed [of _ "the (cfg ''CORS_ORIGIN'')"] by (fastforce simp: shape(2) cors_of_def hasWildcard_def list_ex_iff)
  moreover have "1 \<le> sv_port sv" "sv_port sv \<le> 65535" using port by (auto simp: validatePortEnv_def setting_between_def Let_def split: if_splits)
  moreover have "sv_redis sv = client\<lparr>rc_connected := True, rc_reconnects := True\<rparr>" using redis by (auto simp: onModuleInit_redis_def split: sum.splits)
  then have "rc_connected (sv_redis sv)" "rc_reconnects (sv_redis sv)" by simp_all
  moreover have "\<exists>before. sv_layers sv = before @ [InputSanitization, UsdcPrecision, IdempotencyKeys, Cors (sv_cors sv)]"
    unfolding shape app_layers_def by (intro exI [of _ "take 6 (app_layers cfg)"]) (simp add: app_layers_def)
  ultimately show ?thesis using valid load vault key strong database_reached [OF db] redis_reached [OF redis] unfolding nodeEnv_def cfg_def by blast
qed

text \<open>Secrets that only Vault knows come too late for the first check: whatever Vault would answer, the environment alone has to pass it.\<close>

theorem vault_comes_too_late:
  assumes "validateConfig lib V (env0 ''NODE_ENV'') = Inl x"
  shows "main_ts lib (ou\<lparr>ou_validated := V, ou_vault := answer\<rparr>) env0 = Inl x"
  using assms by (simp add: main_ts_def and_then_def)

text \<open>By default other sites may not use the method PATCH, which two routes of policies and products need.\<close>

theorem patch_not_allowed: "blank (cfg ''CORS_METHODS'') \<Longrightarrow> ''PATCH'' \<notin> set (co_methods (cors_of cfg))"
  by (simp add: cors_of_def parseCsvEnv_def or_default_def DEFAULT_CORS_METHODS_def)

section \<open>A start\<close>

definition sample_start :: configuration where
  "sample_start = sample_config(''REDIS_URL'' \<mapsto> ''redis://r'')"

definition sample_outside :: outside where
  "sample_outside = \<lparr>ou_numStr = (\<lambda>_. []), ou_vault = (\<lambda>_ _ _. NoAnswer), ou_validated = sample_start, ou_config = (\<lambda>env. env),
     ou_database = (\<lambda>n. (n = 2, True)), ou_redis = (\<lambda>_. Some (20, True)), ou_random = (\<lambda>_. 0)\<rparr>"

lemma sample_loads: "loadVaultSecrets (\<lambda>_. []) (\<lambda>_ _ _. NoAnswer) sample_start = Inr sample_start"
proof -
  have "fetchVaultSecrets (\<lambda>_. []) (\<lambda>_ _ _. NoAnswer) sample_start = Inr None" by code_simp
  then show ?thesis by (simp add: loadVaultSecrets_def)
qed

lemma sample_parts:
  "isl (validateConfig sample_config_lib sample_start (sample_start ''NODE_ENV'')) = False"
  "isl (oracle_limits sample_config_lib sample_start) = False"
  "isl (validateAllSecrets sample_config_lib sample_start (effective_env sample_start (sample_start ''NODE_ENV''))) = False"
  "isl (validatePortEnv sample_config_lib (sample_start ''PORT'')) = False"
  by code_simp+

lemma sample_checks:
  "validateJwtSecret (sample_start ''JWT_SECRET'') (effective_env sample_start (sample_start ''NODE_ENV'')) = Inr ()"
  "\<not> hasWildcard (the (sample_start ''CORS_ORIGIN''))" "is_set (sample_start ''CORS_ORIGIN'')" "is_set (sample_start ''ADMIN_API_KEY'')"
  "fst (onModuleInit_database (\<lambda>n. (n = 2, True)) (is_set (sample_start ''DATABASE_REPLICA_URL''))) = Inr ()"
  "parsedCorsOrigin (the (sample_start ''CORS_ORIGIN'')) = OneOrigin ''https://app.example''"
  by code_simp+

lemma sample_redis:
  obtains client connected where "redis_factory sample_config_lib sample_start = Inr client"
    "onModuleInit_redis sample_config_lib sample_start (\<lambda>_. Some (20, True)) (\<lambda>_. 0) client = Inr connected"
proof -
  have "(case redis_factory sample_config_lib sample_start of Inl _ \<Rightarrow> False
     | Inr client \<Rightarrow> \<not> isl (onModuleInit_redis sample_config_lib sample_start (\<lambda>_. Some (20, True)) (\<lambda>_. 0) client))" by code_simp
  then obtain client where made: "redis_factory sample_config_lib sample_start = Inr client"
    and "\<not> isl (onModuleInit_redis sample_config_lib sample_start (\<lambda>_. Some (20, True)) (\<lambda>_. 0) client)" by (auto split: sum.splits)
  from that [OF made sum.collapse(2) [OF this(2), symmetric]] show ?thesis .
qed

theorem bootstrap_sound_witness:
  "\<exists>sv. main_ts sample_config_lib sample_outside sample_start = Inr sv \<and> sv_port sv \<le> 65535 \<and> rc_reconnects (sv_redis sv)
     \<and> allowed_origins (co_origin (sv_cors sv)) = {''https://app.example''}"
proof -
  obtain client connected where redis: "redis_factory sample_config_lib sample_start = Inr client"
    "onModuleInit_redis sample_config_lib sample_start (\<lambda>_. Some (20, True)) (\<lambda>_. 0) client = Inr connected" by (rule sample_redis)
  obtain v limits r port where parts: "validateConfig sample_config_lib sample_start (sample_start ''NODE_ENV'') = Inr v"
    "oracle_limits sample_config_lib sample_start = Inr limits"
    "validateAllSecrets sample_config_lib sample_start (effective_env sample_start (sample_start ''NODE_ENV'')) = Inr r"
    "validatePortEnv sample_config_lib (sample_start ''PORT'') = Inr port" using sample_parts by (metis sum.collapse(2))
  have "\<exists>sv. main_ts sample_config_lib sample_outside sample_start = Inr sv \<and> sv_cors sv = cors_of sample_start"
    by (simp add: main_ts_def bootstrap_def create_app_def and_then_def unless_error_def sample_outside_def sample_loads sample_checks parts redis)
  then obtain sv where run: "main_ts sample_config_lib sample_outside sample_start = Inr sv" "sv_cors sv = cors_of sample_start" by blast
  have "allowed_origins (co_origin (sv_cors sv)) = {''https://app.example''}" by (simp add: run(2) cors_of_def sample_checks)
  moreover have "sv_port sv \<le> 65535" "rc_reconnects (sv_redis sv)" using bootstrap_sound [OF run(1)] by blast+
  ultimately show ?thesis using run(1) by blast
qed

end
