(* ===== verification/Spec2Isabelle.thy ===== *)
theory Spec2Isabelle
  imports Claim_Recovery Claim_Submission Policy_Lifecycle Claims_Worker Circuit_Breaker Oracle_Worker
    Oracle_Buffer Distributed_Lock Claim_History Access_Control Idempotency Webhooks Purchase
    Account_Balance Request_Bodies Rate_Limits Error_Responses Api_Version Claim_Routes Oracle_Fetch Startup_Checks
    Response_Delivery Response_Streams Redis_Startup Health_Checks Webhook_Routes Bootstrap
begin

text \<open>
  Verification of the Parashield backend: a service that sells parametric insurance policies, watches outside data
  (rainfall, flights) and pays claims through a contract on the Stellar network. The sources are the TypeScript files
  under \<^verbatim>\<open>src/src\<close> and the database schema \<^verbatim>\<open>src/prisma/schema.prisma\<close>; the paths below are relative to
  \<^verbatim>\<open>src/src\<close>.

  \<^bold>\<open>The program.\<close> Requests reach the services through guards and middleware. The policy service sells, changes and
  cancels policies against products. The oracle worker polls data for the keys of live policies, the oracle service stores
  readings and the worker submits them on chain. The claims worker looks at policies about to end; the claims service
  compares the reading with the threshold of the product and pays, or rejects. Wallets may also submit claims by hand.
  Policies move along a status machine; status changes are logged, published and sent to webhooks. Several replicas run
  over one PostgreSQL database and one Redis server, and every \<^verbatim>\<open>await\<close> lets others run.

  \<^bold>\<open>How it is modelled.\<close> A service method is an action (theory \<open>Store\<close>): a function of its environment and of a
  tick and a world. The world holds the tables, the caches in memory, the entries of Redis and what leaves the process. The
  environment says what other actors do to the world at each suspension (\<open>e_rely\<close>), what the clock shows, which
  statements, Redis commands and contract calls fail, and what outside libraries answer. A statement or transaction is
  atomic. Exceptions are values (\<open>exn\<close> in \<open>Prelude\<close>). Decimals of the database count units of the
  seventh decimal place; numbers of the language are rationals with infinities and not-a-number, and where
  measurements are added and divided every operation is rounded as in \<open>Doubles\<close>; dates are milliseconds.

  \<^bold>\<open>Theories.\<close>
  \<^item> \<open>Prelude\<close>, \<open>Regex\<close>: exceptions, numbers, text; regular expressions with a test by derivatives that is proved
    against their language.
  \<^item> \<open>Decimal\<close> (\<^verbatim>\<open>common/utils/decimal.ts\<close>): exact parsing, rounding and comparison of decimals.
  \<^item> \<open>Status_Machine\<close> (\<^verbatim>\<open>policy/policy-status.machine.ts\<close>, \<^verbatim>\<open>policy/premium-rate-versioning.ts\<close>).
  \<^item> \<open>Store\<close>, \<open>Concurrency\<close> (\<^verbatim>\<open>prisma/financial-transaction.ts\<close>): actions, statements with the unique
    indexes, serialisable transactions with retry; rely/guarantee reasoning in the locale \<open>world_order\<close>, interpreted on
    \<open>evolves\<close> (what every writer keeps), on the absence of contract calls and, in later theories, on marks in Redis.
  \<^item> \<open>Policy_Rules\<close>, \<open>Policy_Service\<close>, \<open>Policy_Lifecycle\<close> (\<^verbatim>\<open>policy/policy.service.ts\<close>): pricing, refunds,
    oracle keys; products, creation, update, cancellation.
  \<^item> \<open>Claims_Service\<close>, \<open>Claim_Payout\<close>, \<open>Claim_Recovery\<close>, \<open>Claim_Submission\<close>, \<open>Claim_History\<close>
    (\<^verbatim>\<open>claims/claims.service.ts\<close>, \<^verbatim>\<open>claims/evidence-validation.ts\<close>): automatic settlement, the sweep of stuck
    policies, claims by hand with evidence, reading of claims.
  \<^item> \<open>Claims_Worker\<close> (\<^verbatim>\<open>claims/claims.worker.ts\<close>), \<open>Policy_State_Cache\<close>
    (\<^verbatim>\<open>claims/policy-state-cache.service.ts\<close>).
  \<^item> \<open>Oracle_Readings\<close>, \<open>Oracle_Buffer\<close>, \<open>Oracle_Worker\<close> (\<^verbatim>\<open>oracle/oracle.service.ts\<close>,
    \<^verbatim>\<open>oracle/oracle.worker.ts\<close>): storage by time bucket, the write buffer, the poll cycle.
  \<^item> \<open>Doubles\<close>: IEEE double-precision sums and quotients, as rationals rounded to 53 bits; \<open>Oracle_Fetch\<close>
    (\<^verbatim>\<open>oracle/oracle.service.ts\<close>, \<^verbatim>\<open>oracle/oracle.controller.ts\<close>): rainfall, temperature and flights from outside services behind the
    breakers, and the routes that fetch.
  \<^item> \<open>Circuit_Breaker\<close> (\<^verbatim>\<open>stellar/horizon-resilience.ts\<close> and the breaker of the oracle service),
    \<open>Distributed_Lock\<close> (\<^verbatim>\<open>redis/distributed-lock.service.ts\<close>).
  \<^item> \<open>Stellar_Calls\<close>, \<open>Account_Balance\<close> (\<^verbatim>\<open>stellar/stellar.service.ts\<close>): contract calls with retry, the wait for
    confirmation, client-signed transactions, balances; \<open>Purchase\<close> (\<^verbatim>\<open>confirmAndCreatePolicy\<close> of
    \<^verbatim>\<open>policy/policy.service.ts\<close>) builds on them.
  \<^item> \<open>Redis_Commands\<close>: the commands the following theories issue, and the locale \<open>expiring_store\<close> of what they rely on.
  \<^item> \<open>Token_Service\<close> (\<^verbatim>\<open>auth/jwt.service.ts\<close>), \<open>Wallet_Login\<close> (\<^verbatim>\<open>auth/auth.controller.ts\<close>,
    \<^verbatim>\<open>auth/auth-cleanup.worker.ts\<close>), \<open>Access_Control\<close> (the guards and the middleware of \<^verbatim>\<open>auth\<close>).
  \<^item> \<open>Idempotency\<close> (\<^verbatim>\<open>common/middleware/idempotency.middleware.ts\<close>).
  \<^item> \<open>Ssrf\<close> (\<^verbatim>\<open>common/webhooks/ssrf.validator.ts\<close>), \<open>Webhooks\<close> (\<^verbatim>\<open>common/events/webhooks.service.ts\<close>), \<open>Webhook_Routes\<close>
    (\<^verbatim>\<open>common/webhooks/webhooks.controller.ts\<close> and its DTO, and the drain of the service): registrations, deliveries, the listing.
  \<^item> \<open>Status_Events\<close> (\<^verbatim>\<open>common/events/status-events.service.ts\<close>): channels, subscriptions, messages of other instances.
  \<^item> \<open>Policy_Routes\<close>, \<open>Claim_Routes\<close>, \<open>Oracle_Routes\<close> (the controllers of \<^verbatim>\<open>policy\<close>, \<^verbatim>\<open>claims\<close> and \<^verbatim>\<open>oracle\<close>, the formats of
    oracle keys): who may do what, quotes, search, the stream of events, the export.
  \<^item> \<open>Json_Values\<close>, \<open>Request_Bodies\<close> (\<^verbatim>\<open>common/middleware\<close>: sanitising, precision of amounts), \<open>Rate_Limits\<close>
    (\<^verbatim>\<open>common/guards\<close>), \<open>Error_Responses\<close> (\<^verbatim>\<open>common/filters\<close>, \<^verbatim>\<open>common/errors\<close>), \<open>Api_Version\<close> (\<^verbatim>\<open>common/versioning\<close>).
  \<^item> \<open>Startup_Checks\<close> (\<^verbatim>\<open>common/secrets/secret-validator.ts\<close>, \<^verbatim>\<open>auth/jwt-secret.validator.ts\<close>, \<^verbatim>\<open>common/utils/config.utils.ts\<close>,
    \<^verbatim>\<open>validateConfig\<close> of \<^verbatim>\<open>app.module.ts\<close>): the strength of secrets and the ranges of settings.
  \<^item> \<open>Response_Delivery\<close> (\<^verbatim>\<open>common/middleware/request-timeout.middleware.ts\<close>, \<^verbatim>\<open>common/security\<close>), \<open>Response_Streams\<close>
    (\<^verbatim>\<open>common/interceptors/streaming.interceptor.ts\<close>): the time limit of a request, headers, streamed answers, as machines over
    the callbacks that the server makes.
  \<^item> \<open>Vault_Secrets\<close> (\<^verbatim>\<open>common/secrets/vault-secrets.loader.ts\<close>), \<open>Database_Clients\<close> (\<^verbatim>\<open>prisma/prisma.service.ts\<close>,
    \<^verbatim>\<open>prisma/database-credential-rotation.service.ts\<close>), \<open>Redis_Startup\<close> (\<^verbatim>\<open>redis/redis-startup.ts\<close>,
    \<^verbatim>\<open>redis/redis-connection.service.ts\<close>, \<^verbatim>\<open>redis/redis.module.ts\<close>): secrets, connections, the rotation of credentials.
  \<^item> \<open>Health_Checks\<close> (\<^verbatim>\<open>health/health.controller.ts\<close>, \<^verbatim>\<open>common/worker-heartbeat.ts\<close>); \<open>Bootstrap\<close> (\<^verbatim>\<open>main.ts\<close>), which composes
    the start of the process of these parts and the checks.
  \<^item> This theory composes them: \<open>system_op\<close> lists the requests and jobs, also behind the admin guards and under an
    idempotency key, and \<open>system_safe\<close> is what holds over every interleaving of them.

  \<^bold>\<open>What is shown.\<close> Arithmetic is exact and bounded (decimals, premium, refund). A policy is settled at most once, only
  with a met trigger and only in its window, failures of the contract call are undone, and stuck policies are resolved.
  Unique indexes and the status machine hold over all interleavings. Only one replica holds a job lock, claims a reading
  for submission or reserves a policy. Buffers lose nothing, caches are bounded in age, loops end. Login, refresh tokens,
  admin routes and idempotency keys keep their promises as far as the code keeps them; webhooks are delivered a bounded
  number of times to addresses outside the reserved networks. Where the code does not do what it says, a theorem states
  what it does instead: late policies expire unevaluated, a nonce can be replayed, a revoked token family still
  rotates, the lock of an idempotency key can be deleted by another key, no contract call can succeed because a name
  is not in scope, a paid purchase can leave no policy, and others. A purchase that succeeds rests on a transaction of its wallet
  for the product, coverage and key of the policy that is created, and that transaction is confirmed on the ledger; its duration is only requested. A policy and a claim are closed to strangers, except
  for the export and the derived state, which are not; streams deliver exactly the events of their policy; limits hold
  against any traffic; bodies are clean and amounts exact where they are checked; server errors show fixed texts, but for a list that an HTTP exception may carry.
  A server that starts in production has strong secrets and settings in their ranges, and one that listens has reached its
  database and Redis and admits no wildcard origin. Rotation of database credentials never leaves the service without connected
  clients. The rainfall of a month is summed to the last digit in spite of floating-point steps, and fetched values are
  plausible. Streams release their timers and what was named last; an overdue request gets no answer at all, against what its handler means;
  health answers hide details and rest on checks of the last five and probes of the last thirty seconds before those.

  \<^bold>\<open>Fuel.\<close> The page loop of the product catalogue, the batches of the claims worker, the waiting loop of the
  idempotency middleware, the wait for a transaction and the export take fuel; \<open>loadActiveProductsMap_complete\<close>,
  \<open>handle_ends\<close>, \<open>waitForTransaction_ends\<close> and \<open>export_complete\<close> state how much is enough.
  Every other loop is structural or has a termination proof.

  \<^bold>\<open>Not modelled.\<close> Routing, decorators and validation declared to the web framework; building, signing and reading of
  transactions by the Stellar SDK and the answers of the node (parameters; the claims and oracle services take the outcome of
  a contract call from their environment, which covers every outcome of \<open>invokeContract\<close>);
  telemetry, logging and the wiring of modules, which are input and output; the redaction of database error texts and the
  forwarding of calls to the current database client; the storage of the throttler library; documentation of the API.
\<close>

section \<open>The whole system\<close>

text \<open>Everything that changes policies, claims, products, readings and logs: the requests of the services and
  the scheduled jobs.\<close>

datatype system_op =
    CreatePolicy BuyPolicyDto string
  | CancelPolicy string
  | UpdatePolicy string UpdatePolicyDto "string option"
  | CreateProduct Product "ProductStatus option"
  | UpdateProduct string UpdateProductDto
  | DeactivateProduct string
  | SubmitClaim string string
  | UploadEvidence string string "EvidenceFile list"
  | AutoProcess string
  | ClaimsTick nat
  | OracleTick oracle_deps
  | ClaimHistory string int int "string option"
  | GetChallenge auth_lib "string option"
  | Login auth_lib WalletLoginDto
  | RotateRefresh jwt_lib string
  | CleanupChallenges
  | RegisterWebhook webhook_lib string "string list" "string option"
  | UnregisterWebhook string
  | Notify webhook_lib string webhook_payload
  | RainfallFeed guard_lib request fetch_lib oracle_deps OracleFeedRequestDto
  | TemperatureFeed guard_lib request fetch_lib oracle_deps OracleFeedRequestDto
  | RainfallQuery guard_lib request fetch_lib oracle_deps "string option \<Rightarrow> jsnum" "string option \<Rightarrow> jsnum" "string option" "string option" "string option" "string option"
  | FlightQuery guard_lib request fetch_lib oracle_deps "string \<Rightarrow> int option" "int \<Rightarrow> int" "string option" "string option"
  | ConfirmPolicy rpc_lib xdr_lib string BuyPolicyDto string
  | AdminRequest guard_lib request system_op
  | IdempotentRequest nat "jsnum \<Rightarrow> string" string string "string option" system_op

text \<open>The response that the web framework makes of a handler: the exception filter gives an exception its status.\<close>

definition respond :: "(jsnum \<Rightarrow> string) \<Rightarrow> unit act \<Rightarrow> HandlerResponse act" where
  "respond numStr m = catch (seq m (ret \<lparr>hr_status = 200, hr_body = ''{}'', hr_json = True\<rparr>))
     (\<lambda>x. ret \<lparr>hr_status = response_status numStr x, hr_body = ''{}'', hr_json = True\<rparr>)"

fun perform :: "system_op \<Rightarrow> unit act" where
  "perform (CreatePolicy dto txHash) = seq (createPolicy dto txHash) (ret ())"
| "perform (CancelPolicy i) = seq (cancelPolicy i) (ret ())"
| "perform (UpdatePolicy i dto actor) = seq (updatePolicy i dto actor) (ret ())"
| "perform (CreateProduct dto st) = seq (createProduct dto st) (ret ())"
| "perform (UpdateProduct i dto) = seq (updateProduct i dto) (ret ())"
| "perform (DeactivateProduct i) = seq (deactivateProduct i) (ret ())"
| "perform (SubmitClaim claimant i) = seq (submitClaim claimant i) (ret ())"
| "perform (UploadEvidence c actor files) = seq (uploadEvidence c actor files) (ret ())"
| "perform (AutoProcess i) = seq (autoProcess i None) (ret ())"
| "perform (ClaimsTick fuel) = seq (executeProcessActivePolicies fuel) (ret ())"
| "perform (OracleTick d) = seq (executePollAndSubmit d) (ret ())"
| "perform (ClaimHistory wallet page limit cursor) = seq (getClaimsByWallet wallet page limit cursor) (ret ())"
| "perform (GetChallenge lib wallet) = seq (getChallenge lib wallet) (ret ())"
| "perform (Login lib dto) = seq (login lib dto) (ret ())"
| "perform (RotateRefresh lib token) = seq (rotateRefresh lib token) (ret ())"
| "perform CleanupChallenges = seq cleanupExpiredChallenges (ret ())"
| "perform (RegisterWebhook lib url events sec) = seq (registerWebhook lib url events sec) (ret ())"
| "perform (UnregisterWebhook i) = unregisterWebhook i"
| "perform (Notify lib event payload) = seq (notify lib event payload) (ret ())"
| "perform (RainfallFeed gl rq lib d dto) = seq (fetchRainfall_route gl rq lib d dto) (ret ())"
| "perform (TemperatureFeed gl rq lib d dto) = seq (fetchTemperature_route gl rq lib d dto) (ret ())"
| "perform (RainfallQuery gl rq lib d parse toNumber lat lng year month) = seq (getRainfall gl rq lib d parse toNumber lat lng year month) (ret ())"
| "perform (FlightQuery gl rq lib d dateMs tomorrow flight date) = seq (getFlight gl rq lib d dateMs tomorrow flight date) (ret ())"
| "perform (ConfirmPolicy lib xl signedXdr dto wallet) = seq (confirmAndCreatePolicy lib xl signedXdr dto wallet) (ret ())"
| "perform (AdminRequest lib rq op) = seq (admin_route lib rq) (perform op)"
| "perform (IdempotentRequest fuel numStr method path key op) = seq (use_idempotency fuel method path key (respond numStr (perform op))) (ret ())"

text \<open>
  A run of an operation from one world to another. Between any two of its statements the others may act:
  all they are held to is \<open>evolves\<close>, which by \<open>perform_evolves\<close> is what every operation keeps.
\<close>

inductive system_step :: "world \<Rightarrow> world \<Rightarrow> bool" where
  run: "(\<And>k v. evolves v (e_rely e k v)) \<Longrightarrow> perform op e (n, w) = (r, (n', w')) \<Longrightarrow> system_step w w'"

lemma guar_login: "guarantees evolves (getChallenge lib wallet)" "guarantees evolves (login lib dto)" "guarantees evolves cleanupExpiredChallenges"
proof -
  have upsert: "stmt_within evolves (challenge_upsert x y z)" for x y z
    by (auto simp: stmt_within_def challenge_upsert_def Let_def intro!: evolves_elsewhere)
  have delete: "stmt_within evolves (challenge_delete x)" for x
    by (auto simp: stmt_within_def challenge_delete_def intro!: evolves_elsewhere split: if_splits)
  have hex: "guarantees evolves (randomHex lib)" by (simp add: guarantees_def randomHex_def)
  show "guarantees evolves (getChallenge lib wallet)"
    unfolding getChallenge_def by (auto intro!: evolves_requests upsert hex split: option.splits)
  have "guarantees evolves (consumeNonce lib x)" "guarantees evolves (challenge_fallback x)" "guarantees evolves (record_failure x)" for x
    unfolding consumeNonce_def challenge_fallback_def record_failure_def
    by (auto intro!: evolves_requests delete split: option.splits)
  then show "guarantees evolves (login lib dto)"
    unfolding login_def check_signature_def sign_def jwt_sign_def Let_def by (auto intro!: evolves_requests split: prod.splits)
  show "guarantees evolves cleanupExpiredChallenges"
    unfolding cleanupExpiredChallenges_def
    by (intro ev.guar_bind ev.guar_clock ev.guar_db) (auto simp: stmt_within_def intro!: evolves_elsewhere)
qed

lemma guar_tokens: "guarantees evolves (rotateRefresh lib token)" "guarantees evolves (verifyAsync lib token)"
  unfolding rotateRefresh_def verifyAsync_def verify_def invalidateFamily_def sign_def signRefresh_def jwt_sign_def
  by (auto intro!: evolves_requests split: prod.splits sum.splits option.splits)

lemma guar_operator: "guarantees evolves (operator_canActivate lib rq)"
proof -
  have "guarantees evolves (recordFailure x)" "guarantees evolves (resetFailures x)" "guarantees evolves (checkRateLimit x)" for x
    unfolding recordFailure_def resetFailures_def checkRateLimit_def
    by (auto intro!: evolves_requests split: prod.splits option.splits)
  moreover have "guarantees evolves (resolveApiKeySource lib rq)"
    unfolding resolveApiKeySource_def acceptsRotatedOutKey_def isWithinGracePeriod_def
    by (auto intro!: evolves_requests split: prod.splits jsnum.splits)
  ultimately show ?thesis
    unfolding operator_canActivate_def by (auto intro!: evolves_requests guar_tokens split: option.splits AuthVia.splits)
qed

lemma guar_admin: "guarantees evolves (admin_route lib rq)"
  unfolding admin_route_def admin_canActivate_def
  by (auto intro!: evolves_requests guar_operator split: option.splits AuthVia.splits)

lemma guar_feeds:
  "guarantees evolves (fetchRainfall_route gl rq lib d dto)" "guarantees evolves (fetchTemperature_route gl rq lib d dto)"
  "guarantees evolves (getRainfall gl rq lib d parse toNumber lat lng year month)"
  "guarantees evolves (getFlight gl rq lib d dateMs tomorrow flight date)"
  unfolding fetchRainfall_route_def fetchTemperature_route_def getRainfall_def getFlight_def aviation_canActivate_def
  by (auto intro!: ev.guar guar_operator guar_fetch)

lemma guar_history: "guarantees evolves (getClaimsByWallet wallet page limit cursor)"
proof -
  have "evolves w (w\<lparr>claimCountCache := c\<rparr>)" for w c by (rule evolves_elsewhere) simp_all
  then show ?thesis
    unfolding getClaimsByWallet_def rows_and_total_def known_total_def remember_total_def Let_def
    by (auto intro!: ev.guar ev.guar_modify split: option.splits prod.splits)
qed

lemma guar_webhooks: "guarantees evolves (registerWebhook lib url events sec)" "guarantees evolves (unregisterWebhook i)"
    "guarantees evolves (notify lib event payload)"
proof -
  have create: "stmt_within evolves (registration_create x y z)" for x y z
    by (auto simp: stmt_within_def registration_create_def Let_def intro!: evolves_elsewhere split: if_splits)
  have deactivate: "stmt_within evolves (registration_deactivate x)" for x
    by (auto simp: stmt_within_def registration_deactivate_def Let_def intro!: evolves_elsewhere)
  have iv: "guarantees evolves (randomIv lib)" by (simp add: guarantees_def randomIv_def)
  show "guarantees evolves (registerWebhook lib url events sec)"
    unfolding registerWebhook_def encryptSecret_def Let_def
    by (auto intro!: evolves_requests create iv split: option.splits prod.splits)
  show "guarantees evolves (unregisterWebhook i)"
    unfolding unregisterWebhook_def by (auto intro!: evolves_requests deactivate)
  have "evolves w ((e_rely e n w)\<lparr>httpPosts := x\<rparr>)" if "evolves w (e_rely e n w)" for e :: env and n w x
    using that evolves_trans [OF that evolves_elsewhere] by simp
  then have "guarantees evolves (post lib u b s)" for u b s by (simp add: guarantees_def post_def Let_def)
  then have once: "guarantees evolves (attempts lib r b s left err)" for r b s left err
    by (induction left arbitrary: err) (auto intro!: evolves_requests simp: deliverWebhook_def)
  then have "guarantees evolves (deliverWithRetry lib r b)" for r b
    unfolding deliverWithRetry_def by (simp del: attempts.simps add: ev.guar_throw)
  then have "guarantees evolves (deliver_all lib b rs)" for b rs
    by (induction rs) (auto intro!: evolves_requests simp: deliver_to_def)
  then show "guarantees evolves (notify lib event payload)"
    unfolding notify_def getRegistrationsForEvent_def getRegistrations_def by (auto intro!: evolves_requests)
qed

lemma guar_purchase: "guarantees evolves (confirmAndCreatePolicy lib xl signedXdr dto wallet)"
proof -
  have "evolves w ((e_rely e n w)\<lparr>sentTxs := x\<rparr>)" if "evolves w (e_rely e n w)" for e :: env and n w x
    using that evolves_trans [OF that evolves_elsewhere] by simp
  then have send: "guarantees evolves (send_tx lib tx)" for tx by (simp add: guarantees_def send_tx_def Let_def)
  then have again: "guarantees evolves (send_again left lib tx sr)" for left tx sr
    by (induction left arbitrary: sr) (auto intro!: ev.guar)
  have "guarantees evolves (wait_loop fuel lib h start T)" for fuel h start T
    by (induction fuel) (auto intro!: ev.guar simp: wait_loop.simps attempt_def rpc_def split: sum.splits)
  then have wait: "guarantees evolves (waitForTransaction lib h T)" for h T
    unfolding waitForTransaction_def by (auto intro!: ev.guar split: option.splits)
  have "guarantees evolves (simulateAssembleAndSend lib tx env w)" for tx env w
    unfolding simulateAssembleAndSend_def simulate_and_sign_def rpc_def
    by (auto intro!: ev.guar send again split: SimResult.splits)
  with wait show ?thesis
    unfolding confirmAndCreatePolicy_def
    by (auto intro!: ev.guar guar_createPolicy split: sum.splits prod.splits)
qed

lemma guar_idempotency:
  assumes "guarantees evolves handler"
  shows "guarantees evolves (use_idempotency fuel method path key handler)"
proof -
  have "guarantees evolves (handle_loop f k tok d)" for f k tok d
    by (induction f) (auto intro!: evolves_requests simp: contend_def releaseLock_def replayCached_def split: option.splits)
  then show ?thesis
    unfolding use_idempotency_def handle_def runWithLock_def releaseLock_def
    by (auto intro!: evolves_requests assms split: sum.splits option.splits decision.splits)
qed

lemma perform_evolves: "guarantees evolves (perform op)"
proof (induction op)
  case (IdempotentRequest fuel numStr verb path key op)
  then have "guarantees evolves (respond numStr (perform op))" by (auto simp: respond_def intro!: ev.guar)
  then show ?case by (auto intro!: ev.guar_bind ev.guar_ret guar_idempotency)
qed (auto intro!: ev.guar_bind ev.guar_ret guar_createPolicy guar_cancelPolicy guar_updatePolicy guar_products
      guar_submitClaim guar_uploadEvidence guar_autoProcess guar_tick guar_poll guar_history guar_login guar_tokens guar_webhooks guar_admin guar_purchase guar_feeds)

lemma system_evolves: "system_step\<^sup>*\<^sup>* w w' \<Longrightarrow> evolves w w'"
proof (induction rule: rtranclp_induct)
  case (step v u)
  from step(2) have "evolves v u"
    by cases (use guaranteesD [OF perform_evolves] in blast)
  with step.IH show ?case by (rule evolves_trans)
qed simp

text \<open>
  C1. Whatever the requests and jobs do, in any order and interleaved at every statement: a policy is never
  lost, its holder, product, coverage, premium and rate never change, its status moves only along the
  status machine, with a new version for every move, and never leaves CLAIMED, EXPIRED or CANCELLED;
  no policy ever has two open claims and no two policies share holder, product and key; and the audit
  log, the events and the contract calls already made are never rewritten.
\<close>

theorem system_safe:
  assumes "system_step\<^sup>*\<^sup>* w w'" and "policies_ok (policies w)" and "claims_ok (claims w)"
    and "policy_findUnique i w = Some p"
  shows "policies_ok (policies w') \<and> claims_ok (claims w')
     \<and> (\<exists>q. policy_findUnique i w' = Some q \<and> policy_evolves p q
          \<and> (p_status p \<in> {P_CLAIMED, P_EXPIRED, P_CANCELLED} \<longrightarrow> p_status q = p_status p))
     \<and> prefix (auditLogs w) (auditLogs w') \<and> prefix (outbox w) (outbox w') \<and> prefix (chainCalls w) (chainCalls w')"
proof -
  have ev: "evolves w w'" using assms(1) by (rule system_evolves)
  from ev assms(4) obtain q where q: "policy_findUnique i w' = Some q" "policy_evolves p q" by (rule evolves_policy)
  have "p_status q = p_status p" if "terminal (p_status p)"
    using moves_terminal q(2) that by (auto simp: policy_evolves_def)
  with ev assms(2,3) q show ?thesis by (auto simp: evolves_def)
qed

theorem system_safe_witness:
  "\<exists>q. policy_findUnique ''p1'' (snd (snd (perform (CancelPolicy ''p1'') (sample_env 500) (0, sample_world 400000000)))) = Some q
     \<and> policy_evolves sample_policy q \<and> p_status q = P_CANCELLED"
proof -
  let ?w = "sample_world 400000000"
  let ?run = "perform (CancelPolicy ''p1'') (sample_env 500) (0, ?w)"
  have found: "policy_findUnique ''p1'' ?w = Some sample_policy" "policies_ok (policies ?w)" "claims_ok (claims ?w)"
    and cancelled: "map_option p_status (policy_findUnique ''p1'' (snd (snd ?run))) = Some P_CANCELLED"
    by code_simp+
  have "system_step ?w (snd (snd ?run))"
    by (rule system_step.run [of "sample_env 500" "CancelPolicy ''p1''" 0 _ "fst ?run" "fst (snd ?run)"])
      (simp_all add: sample_env_def quiet_env_def)
  then have "system_step\<^sup>*\<^sup>* ?w (snd (snd ?run))" by blast
  from system_safe [OF this found(2,3,1)] cancelled show ?thesis by auto
qed

end
